(* ===== verification/Prelude.thy ===== *)
theory Prelude
  imports Main "HOL-Library.AList" "HOL-Library.Signed_Division"
begin

text \<open>
  Shared vocabulary of the development.

  \<^item> Errors are values: a TypeScript function that may throw becomes a HOL function into
    \<open>'e + 'a\<close>, \<open>Inl\<close> the thrown error. \<open>bindE\<close>, \<open>guardE\<close> and \<open>mapE\<close>
    sequence such computations the way statements of a function body do.
  \<^item> JavaScript strings are lists of characters (code units up to 255). \<open>js_trim\<close> is
    \<open>String.prototype.trim\<close> on them.
  \<^item> A JavaScript \<open>number\<close> that the code only tests with \<open>Number.isInteger\<close>, compares
    with integer literals or prints is a \<open>js_number\<close>.
  \<^item> A JavaScript \<open>Map\<close> iterates in insertion order, so it is an association list:
    \<open>AList.update\<close> keeps the place of an existing key and appends a new one, and
    \<open>AList.delete\<close> removes a key, exactly as \<open>Map.set\<close> and \<open>Map.delete\<close> do.
\<close>

named_theorems js_eval \<open>equations that evaluate the string and number helpers\<close>

section \<open>Fallible computations\<close>

primrec bindE :: "'e + 'a \<Rightarrow> ('a \<Rightarrow> 'e + 'b) \<Rightarrow> 'e + 'b" where
  "bindE (Inl e) f = Inl e"
| "bindE (Inr x) f = f x"

definition guardE :: "bool \<Rightarrow> 'e \<Rightarrow> 'e + unit" where
  "guardE b e = (if b then Inr () else Inl e)"

primrec mapE :: "('a \<Rightarrow> 'e + 'b) \<Rightarrow> 'a list \<Rightarrow> 'e + 'b list" where
  "mapE f [] = Inr []"
| "mapE f (x # xs) = bindE (f x) (\<lambda>y. bindE (mapE f xs) (\<lambda>ys. Inr (y # ys)))"

text \<open>A \<open>for\<close> loop whose body may only throw.\<close>

primrec forE :: "('a \<Rightarrow> 'e + unit) \<Rightarrow> 'a list \<Rightarrow> 'e + unit" where
  "forE f [] = Inr ()"
| "forE f (x # xs) = bindE (f x) (\<lambda>_. forE f xs)"

lemma bindE_eq_Inr [simp]:
  "bindE m f = Inr y \<longleftrightarrow> (\<exists>x. m = Inr x \<and> f x = Inr y)"
  by (cases m) auto

lemma bindE_eq_Inl:
  "bindE m f = Inl e \<longleftrightarrow> m = Inl e \<or> (\<exists>x. m = Inr x \<and> f x = Inl e)"
  by (cases m) auto

lemma guardE_eq_Inr [simp]: "guardE b e = Inr u \<longleftrightarrow> b"
  by (simp add: guardE_def)

lemma guardE_True [simp]: "guardE True e = Inr ()"
  by (simp add: guardE_def)

lemma guardE_False [simp]: "guardE False e = Inl e"
  by (simp add: guardE_def)

lemma forE_eq_Inr [simp]: "forE f xs = Inr u \<longleftrightarrow> (\<forall>x \<in> set xs. f x = Inr ())"
  by (induction xs) auto

lemma mapE_eq_Inr_length: "mapE f xs = Inr ys \<Longrightarrow> length ys = length xs"
  by (induction xs arbitrary: ys) auto

section \<open>Strings\<close>

text \<open>White space of \<open>String.prototype.trim\<close> below U+0100: TAB, LF, VT, FF, CR, SP, NBSP.\<close>

definition js_ws :: "char \<Rightarrow> bool" where
  "js_ws c \<longleftrightarrow> (of_char c :: nat) \<in> {9, 10, 11, 12, 13, 32, 160}"

definition js_trim :: "string \<Rightarrow> string" where
  "js_trim s = rev (dropWhile js_ws (rev (dropWhile js_ws s)))"

definition blank :: "string \<Rightarrow> bool" where
  "blank s \<longleftrightarrow> js_trim s = []"

lemma dropWhile_eq_Nil_all: "dropWhile P xs = [] \<longleftrightarrow> (\<forall>x \<in> set xs. P x)"
  by (rule dropWhile_eq_Nil_conv)

lemma blank_iff: "blank s \<longleftrightarrow> (\<forall>c \<in> set s. js_ws c)"
proof
  assume "blank s"
  then have "\<forall>c \<in> set (dropWhile js_ws s). js_ws c"
    by (simp add: blank_def js_trim_def dropWhile_eq_Nil_all)
  then show "\<forall>c \<in> set s. js_ws c"
    by (metis dropWhile_eq_Nil_conv hd_dropWhile hd_in_set)
next
  assume "\<forall>c \<in> set s. js_ws c"
  then have "dropWhile js_ws s = []"
    by (simp add: dropWhile_eq_Nil_all)
  then show "blank s"
    unfolding blank_def js_trim_def by (simp only: rev.simps dropWhile.simps)
qed

lemma blank_Nil [simp]: "blank []"
  by (simp add: blank_iff)

lemma dropWhile_rev_last: "ys \<noteq> [] \<Longrightarrow> \<not> P (hd ys) \<Longrightarrow> dropWhile P ys = ys"
  by (cases ys) auto

lemma js_trim_Cons:
  assumes "\<not> js_ws c"
  shows "\<exists>t. js_trim (c # s) = c # t"
proof -
  have ne: "rev (dropWhile js_ws (rev s @ [c])) \<noteq> []"
    using assms by (simp add: dropWhile_eq_Nil_all)
  have "\<exists>k. dropWhile js_ws (rev s @ [c]) = drop k (rev s @ [c])"
    by (metis dropWhile_eq_drop)
  then obtain k where k: "dropWhile js_ws (rev s @ [c]) = drop k (rev s @ [c])" by blast
  with ne have "k \<le> length s"
    by (metis drop_eq_Nil2 length_append_singleton length_rev not_less_eq_eq rev.simps(1))
  with k have "dropWhile js_ws (rev s @ [c]) = drop k (rev s) @ [c]"
    by simp
  with assms show ?thesis by (simp add: js_trim_def)
qed

lemma blank_ConsD: "\<not> js_ws c \<Longrightarrow> \<not> blank (c # s)"
  by (simp add: blank_iff)

lemma js_trim_idem [simp]: "js_trim (js_trim s) = js_trim s"
proof (cases "blank s")
  case True
  then have "js_trim s = []" by (simp add: blank_def)
  moreover have "js_trim [] = []" by (simp add: js_trim_def)
  ultimately show ?thesis by simp
next
  case False
  define t where "t = dropWhile js_ws s"
  define u where "u = dropWhile js_ws (rev t)"
  have u: "u \<noteq> []" using False by (simp add: blank_def js_trim_def t_def u_def)
  have tne: "t \<noteq> []" using u by (auto simp: u_def)
  have ht: "\<not> js_ws (hd t)" using tne by (simp add: t_def hd_dropWhile)
  have hu: "\<not> js_ws (hd u)" using u by (simp add: u_def hd_dropWhile)
  have "last u = hd t"
  proof -
    have "u \<noteq> [] \<Longrightarrow> last u = last (rev t)"
      unfolding u_def by (metis dropWhile_eq_drop drop_eq_Nil2 last_drop not_le_imp_less)
    with u tne show ?thesis by (simp add: last_rev)
  qed
  then have hr: "\<not> js_ws (hd (rev u))" using u ht by (simp add: hd_rev)
  have "dropWhile js_ws (rev u) = rev u"
    using u hr by (simp add: dropWhile_rev_last)
  moreover have "dropWhile js_ws u = u"
    using u hu by (simp add: dropWhile_rev_last)
  ultimately show ?thesis by (simp add: js_trim_def t_def[symmetric] u_def[symmetric])
qed

lemma blank_trim [simp]: "blank (js_trim s) \<longleftrightarrow> blank s"
  by (simp add: blank_def)

text \<open>\<open>String.prototype.startsWith\<close>.\<close>

definition starts_with :: "string \<Rightarrow> string \<Rightarrow> bool" where
  "starts_with p s \<longleftrightarrow> take (length p) s = p"

section \<open>Decimal printing\<close>

definition digit_char :: "nat \<Rightarrow> char" where
  "digit_char d = char_of (48 + d)"

fun string_of_nat :: "nat \<Rightarrow> string" where
  "string_of_nat n =
     (if n < 10 then [digit_char n]
      else string_of_nat (n div 10) @ [digit_char (n mod 10)])"

declare string_of_nat.simps [simp del]

definition string_of_int :: "int \<Rightarrow> string" where
  "string_of_int i = (if i < 0 then CHR ''-'' # string_of_nat (nat (- i)) else string_of_nat (nat i))"

definition is_digit :: "char \<Rightarrow> bool" where
  "is_digit c \<longleftrightarrow> 48 \<le> (of_char c :: nat) \<and> (of_char c :: nat) \<le> 57"

definition digit_val :: "char \<Rightarrow> nat" where
  "digit_val c = of_char c - 48"

text \<open>\<open>BigInt\<close> of a string of digits.\<close>

definition nat_of_digits :: "string \<Rightarrow> nat" where
  "nat_of_digits s = foldl (\<lambda>n c. 10 * n + digit_val c) 0 s"

lemma of_char_digit_char: "d < 10 \<Longrightarrow> (of_char (digit_char d) :: nat) = 48 + d"
  by (simp add: digit_char_def)

lemma is_digit_digit_char [simp]: "d < 10 \<Longrightarrow> is_digit (digit_char d)"
  by (simp add: is_digit_def of_char_digit_char)

lemma digit_val_digit_char [simp]: "d < 10 \<Longrightarrow> digit_val (digit_char d) = d"
  by (simp add: digit_val_def of_char_digit_char)

lemma digit_val_less [simp]: "is_digit c \<Longrightarrow> digit_val c < 10"
  unfolding is_digit_def digit_val_def by linarith

lemma digit_char_zero [simp]: "digit_char 0 = CHR ''0''"
  by code_simp

lemma digit_char_eq_zero: "d < 10 \<Longrightarrow> digit_char d = CHR ''0'' \<longleftrightarrow> d = 0"
  by (metis digit_char_zero digit_val_digit_char zero_less_numeral)

lemma nat_of_digits_append:
  "nat_of_digits (xs @ ys) = nat_of_digits xs * 10 ^ length ys + nat_of_digits ys"
proof -
  have gen: "foldl (\<lambda>n c. 10 * n + digit_val c) a ys = a * 10 ^ length ys + nat_of_digits ys" for a
  proof (induction ys arbitrary: a)
    case Nil
    then show ?case by (simp add: nat_of_digits_def)
  next
    case (Cons y ys)
    show ?case
      using Cons [of "10 * a + digit_val y"] Cons [of "digit_val y"]
      by (simp add: nat_of_digits_def algebra_simps)
  qed
  show ?thesis
    using gen [of "nat_of_digits xs"] by (simp add: nat_of_digits_def)
qed

lemma nat_of_digits_Nil [simp]: "nat_of_digits [] = 0"
  by (simp add: nat_of_digits_def)

lemma nat_of_digits_single [simp]: "nat_of_digits [c] = digit_val c"
  by (simp add: nat_of_digits_def)

lemma nat_of_digits_less: "\<forall>c \<in> set s. is_digit c \<Longrightarrow> nat_of_digits s < 10 ^ length s"
proof (induction s rule: rev_induct)
  case Nil
  then show ?case by simp
next
  case (snoc c s)
  then have "nat_of_digits s < 10 ^ length s" and "digit_val c < 10" by auto
  then show ?case by (simp add: nat_of_digits_append)
qed

lemma string_of_nat_digits: "c \<in> set (string_of_nat n) \<Longrightarrow> is_digit c"
proof (induction n rule: string_of_nat.induct)
  case (1 n)
  then show ?case by (auto simp: string_of_nat.simps [of n] split: if_splits)
qed

lemma string_of_nat_not_Nil [simp]: "string_of_nat n \<noteq> []"
  by (simp add: string_of_nat.simps [of n])

lemma nat_of_digits_string_of_nat [simp]: "nat_of_digits (string_of_nat n) = n"
proof (induction n rule: string_of_nat.induct)
  case (1 n)
  then show ?case by (simp add: string_of_nat.simps [of n] nat_of_digits_append)
qed

lemma length_string_of_nat: "n < 10 ^ k \<Longrightarrow> 0 < k \<Longrightarrow> length (string_of_nat n) \<le> k"
proof (induction n arbitrary: k rule: string_of_nat.induct)
  case (1 n)
  show ?case
  proof (cases "n < 10")
    case True
    then show ?thesis using 1 by (simp add: string_of_nat.simps [of n])
  next
    case False
    obtain j where k: "k = Suc j" using 1 by (cases k) auto
    have j: "0 < j" using False 1 k by (cases j) auto
    have "n div 10 < 10 ^ j" using 1 k by (simp add: div_less_iff_less_mult mult.commute)
    then have "length (string_of_nat (n div 10)) \<le> j" using 1(1) False j by blast
    then show ?thesis using False k by (simp add: string_of_nat.simps [of n])
  qed
qed

section \<open>JavaScript numbers\<close>

text \<open>
  Every non-integral finite number compares with an integer literal as its floor does, so
  \<open>JSFrac\<close> keeps the floor, and the text \<open>String(x)\<close> gives. \<open>JSInf True\<close> is \<open>Infinity\<close>. Integers
  print in plain decimal, which is what JavaScript does below \<open>10 ^ 21\<close>.
\<close>

datatype js_number = JSInt int | JSFrac int string | JSInf bool | JSNaN

fun js_is_integer :: "js_number \<Rightarrow> bool" where
  "js_is_integer (JSInt i) = True"
| "js_is_integer _ = False"

fun js_lt :: "js_number \<Rightarrow> int \<Rightarrow> bool" where
  "js_lt (JSInt i) k = (i < k)"
| "js_lt (JSFrac i s) k = (i < k)"
| "js_lt (JSInf b) k = (\<not> b)"
| "js_lt JSNaN k = False"

text \<open>\<open>x > k\<close> for an integer \<open>k\<close>: a fraction with floor \<open>k\<close> lies above \<open>k\<close>.\<close>

fun js_gt :: "js_number \<Rightarrow> int \<Rightarrow> bool" where
  "js_gt (JSInt i) k = (k < i)"
| "js_gt (JSFrac i s) k = (k \<le> i)"
| "js_gt (JSInf b) k = b"
| "js_gt JSNaN k = False"

fun js_ge :: "js_number \<Rightarrow> int \<Rightarrow> bool" where
  "js_ge (JSInt i) k = (k \<le> i)"
| "js_ge (JSFrac i s) k = (k \<le> i)"
| "js_ge (JSInf b) k = b"
| "js_ge JSNaN k = False"

fun js_string :: "js_number \<Rightarrow> string" where
  "js_string (JSInt i) = string_of_int i"
| "js_string (JSFrac i s) = s"
| "js_string (JSInf b) = (if b then ''Infinity'' else ''-Infinity'')"
| "js_string JSNaN = ''NaN''"

text \<open>The value of a number that passed \<open>Number.isInteger\<close>.\<close>

fun js_int :: "js_number \<Rightarrow> int" where
  "js_int (JSInt i) = i"
| "js_int _ = 0"

section \<open>Association lists as JavaScript maps\<close>

definition alist_get :: "('k \<times> 'v) list \<Rightarrow> 'k \<Rightarrow> 'v \<Rightarrow> 'v" where
  "alist_get m k d = (case map_of m k of None \<Rightarrow> d | Some v \<Rightarrow> v)"

lemma alist_get_Nil [simp]: "alist_get [] k d = d"
  by (simp add: alist_get_def)

lemma alist_get_update:
  "alist_get (AList.update k v m) k' d = (if k' = k then v else alist_get m k' d)"
  by (simp add: alist_get_def update_conv)

lemma map_of_alist_update [simp]: "map_of (AList.update k v m) k' = (if k' = k then Some v else map_of m k')"
  by (simp add: update_conv)

text \<open>\<open>for (const [k, v] of xs) m.set(k, v)\<close>.\<close>

definition set_all :: "('k \<times> 'v) list \<Rightarrow> ('k \<times> 'v) list \<Rightarrow> ('k \<times> 'v) list" where
  "set_all xs m = foldl (\<lambda>m e. AList.update (fst e) (snd e) m) m xs"

lemma set_all_simps [simp]:
  "set_all [] m = m" "set_all (e # es) m = set_all es (AList.update (fst e) (snd e) m)"
  by (simp_all add: set_all_def)

lemma map_of_set_all:
  "distinct (map fst xs) \<Longrightarrow>
     map_of (set_all xs m) k = (case map_of xs k of None \<Rightarrow> map_of m k | Some v \<Rightarrow> Some v)"
proof (induction xs arbitrary: m)
  case Nil
  then show ?case by simp
next
  case (Cons x xs)
  then have "map_of xs (fst x) = None" by (simp add: map_of_eq_None_iff)
  then show ?case using Cons by (cases x) (auto split: option.split)
qed

lemma distinct_set_all: "distinct (map fst m) \<Longrightarrow> distinct (map fst (set_all xs m))"
  by (induction xs arbitrary: m) (auto simp: distinct_update)

text \<open>\<open>new Set(xs)\<close>: the first occurrences, in order.\<close>

definition js_set :: "'a list \<Rightarrow> 'a list" where
  "js_set xs = rev (remdups (rev xs))"

lemma set_js_set [simp]: "set (js_set xs) = set xs"
  by (simp add: js_set_def)

lemma distinct_js_set [simp]: "distinct (js_set xs)"
  by (simp add: js_set_def)

text \<open>
  Assigning a string or null to a property of a plain object: under the key \<^verbatim>\<open>__proto__\<close> nothing is stored, since
  the setter of \<open>Object.prototype\<close> ignores a string and null only unlinks the prototype. Every
  other key becomes a property of the object itself.
\<close>

definition assignable :: "string \<Rightarrow> bool" where
  "assignable k \<longleftrightarrow> k \<noteq> ''__proto__''"

section \<open>Maps behind an interface\<close>

text \<open>
  The laws of \<open>Map.get\<close> after \<open>Map.set\<close> and \<open>Map.delete\<close> that client code relies on, stated once
  and provided by insertion-ordered association lists.
\<close>

locale js_map =
  fixes get :: "'m \<Rightarrow> 'k \<Rightarrow> 'v option"
    and put :: "'k \<Rightarrow> 'v \<Rightarrow> 'm \<Rightarrow> 'm"
    and del :: "'k \<Rightarrow> 'm \<Rightarrow> 'm"
  assumes get_put: "get (put k v m) k' = (if k' = k then Some v else get m k')"
    and get_del: "get (del k m) k' = (if k' = k then None else get m k')"
begin

lemma del_put: "get m k = None \<Longrightarrow> get (del k (put k v m)) = get m"
  by (auto simp: get_put get_del fun_eq_iff)

lemma put_put: "get (put k v (put k w m)) = get (put k v m)"
  by (auto simp: get_put fun_eq_iff)

lemma put_commute: "k \<noteq> j \<Longrightarrow> get (put k v (put j w m)) = get (put j w (put k v m))"
  by (auto simp: get_put fun_eq_iff)

end

interpretation al: js_map map_of AList.update AList.delete
  by unfold_locales (auto simp: delete_conv)

end
