(* ===== verification/Money.thy ===== *)
theory Money
  imports Prelude "HOL-Library.Multiset"
begin

text \<open>
  \<^verbatim>\<open>packages/ledger-client/src/money.ts\<close>: amounts are unbounded integers scaled by
  \<open>10 ^ 18\<close>, parsed from and printed to decimal strings; explicit rounding; the pro-rata
  split. \<open>bigint\<close> is \<open>int\<close>, its \<open>/\<close> and \<open>%\<close> truncate towards zero
  (\<open>sdiv\<close>, \<open>smod\<close>).
\<close>

section \<open>Definitions\<close>

type_synonym amount = int

definition DECIMALS :: nat where
  "DECIMALS = 18"

definition SCALE :: amount where
  "SCALE = 10 ^ DECIMALS"

definition MAX_AMOUNT :: amount where
  "MAX_AMOUNT = 10 ^ 38 - 1"

datatype money_error =
    ColumnOverflow \<comment> \<open>does not fit numeric(38,18)\<close>
  | NotAString
  | MalformedAmount string
  | TooManyDecimals nat
  | DivisionByZero
  | BadBps
  | NegativeWeight
  | NonPositiveWeight

datatype amount_input = AString string | ABigint amount | AOther

definition fitsColumn :: "amount \<Rightarrow> money_error + unit" where
  "fitsColumn v = (if v > MAX_AMOUNT \<or> v < - MAX_AMOUNT then Inl ColumnOverflow else Inr ())"

text \<open>\<open>AMOUNT_RE\<close>: an optional sign, digits, and optionally a point with more digits.\<close>

definition amount_digits :: "string \<Rightarrow> (string \<times> string) option" where
  "amount_digits r =
     (if takeWhile is_digit r = [] then None
      else (case dropWhile is_digit r of
              [] \<Rightarrow> Some (takeWhile is_digit r, [])
            | c # frac \<Rightarrow>
                if c = CHR ''.'' \<and> frac \<noteq> [] \<and> list_all is_digit frac
                then Some (takeWhile is_digit r, frac) else None))"

definition AMOUNT_RE :: "string \<Rightarrow> (bool \<times> string \<times> string) option" where
  "AMOUNT_RE s = (case s of
       [] \<Rightarrow> None
     | c # cs \<Rightarrow> if c = CHR ''-'' then map_option (Pair True) (amount_digits cs)
                  else map_option (Pair False) (amount_digits s))"

definition padEnd0 :: "nat \<Rightarrow> string \<Rightarrow> string" where
  "padEnd0 n s = s @ replicate (n - length s) (CHR ''0'')"

definition padStart0 :: "nat \<Rightarrow> string \<Rightarrow> string" where
  "padStart0 n s = replicate (n - length s) (CHR ''0'') @ s"

definition stripTrailing0 :: "string \<Rightarrow> string" where
  "stripTrailing0 s = rev (dropWhile (\<lambda>c. c = CHR ''0'') (rev s))"

definition parseAmount :: "amount_input \<Rightarrow> money_error + amount" where
  "parseAmount input = (case input of
       ABigint v \<Rightarrow> bindE (fitsColumn v) (\<lambda>_. Inr v)
     | AOther \<Rightarrow> Inl NotAString
     | AString s \<Rightarrow>
         (case AMOUNT_RE (js_trim s) of
            None \<Rightarrow> Inl (MalformedAmount s)
          | Some (neg, whole, frac) \<Rightarrow>
              if length frac > DECIMALS then Inl (TooManyDecimals (length frac))
              else let padded = padEnd0 DECIMALS frac;
                       v = int (nat_of_digits whole) * SCALE + int (nat_of_digits padded);
                       signed = (if neg then - v else v)
                   in bindE (fitsColumn signed) (\<lambda>_. Inr signed)))"

definition formatAmount :: "amount \<Rightarrow> string" where
  "formatAmount value =
     (let negative = value < 0;
          absv = (if negative then - value else value);
          whole = absv div SCALE;
          frac = absv mod SCALE;
          sign = (if negative then ''-'' else [])
      in if frac = 0 then sign @ string_of_int whole
         else sign @ string_of_int whole @ ''.''
              @ stripTrailing0 (padStart0 DECIMALS (string_of_int frac)))"

text \<open>The arithmetic helpers. \<open>min\<close>, \<open>max\<close>, \<open>abs\<close> and \<open>sum\<close> are names of HOL.\<close>

definition ZERO :: amount where
  "ZERO = 0"

definition sub :: "amount \<Rightarrow> amount \<Rightarrow> amount" where
  "sub a b = a - b"

definition min_amount :: "amount \<Rightarrow> amount \<Rightarrow> amount" where
  "min_amount a b = (if a < b then a else b)"

definition max_amount :: "amount \<Rightarrow> amount \<Rightarrow> amount" where
  "max_amount a b = (if a > b then a else b)"

definition compare_amount :: "amount \<Rightarrow> amount \<Rightarrow> int" where
  "compare_amount a b = (if a < b then -1 else if a > b then 1 else 0)"

datatype rounding = Floor | Ceil | HalfUp

definition divideScaled :: "int \<Rightarrow> int \<Rightarrow> rounding \<Rightarrow> money_error + int" where
  "divideScaled numerator denominator rounding =
     (if denominator = 0 then Inl DivisionByZero
      else let negative = ((numerator < 0) \<noteq> (denominator < 0));
               n = (if numerator < 0 then - numerator else numerator);
               d = (if denominator < 0 then - denominator else denominator);
               q = n div d;
               r = n mod d;
               q' = (if r \<noteq> 0 then
                       (case rounding of
                          Ceil \<Rightarrow> (if \<not> negative then q + 1 else q)
                        | Floor \<Rightarrow> (if negative then q + 1 else q)
                        | HalfUp \<Rightarrow> (if r * 2 \<ge> d then q + 1 else q))
                     else q)
           in Inr (if negative then - q' else q'))"

definition mul :: "amount \<Rightarrow> amount \<Rightarrow> rounding \<Rightarrow> money_error + amount" where
  "mul a b rounding = divideScaled (a * b) SCALE rounding"

definition div_amount :: "amount \<Rightarrow> amount \<Rightarrow> rounding \<Rightarrow> money_error + amount" where
  "div_amount a b rounding = (if b = 0 then Inl DivisionByZero else divideScaled (a * SCALE) b rounding)"

definition mulBps :: "amount \<Rightarrow> js_number \<Rightarrow> rounding \<Rightarrow> money_error + amount" where
  "mulBps amount bps rounding =
     (if \<not> js_is_integer bps \<or> js_lt bps 0 then Inl BadBps
      else divideScaled (amount * js_int bps) 10000 rounding)"

definition sum_amount :: "amount list \<Rightarrow> amount" where
  "sum_amount amounts = foldl (\<lambda>acc a. acc + a) 0 amounts"

text \<open>
  The dust loop of \<open>proRata\<close>: one unit to each index in order until the dust is gone.
\<close>

fun give_dust :: "nat list \<Rightarrow> int \<Rightarrow> amount list \<Rightarrow> amount list" where
  "give_dust [] dust shares = shares"
| "give_dust (i # is) dust shares =
     (if dust = 0 then shares
      else let step = (if dust > 0 then 1 else -1)
           in give_dust is (dust - step) (shares[i := shares ! i + step]))"

text \<open>
  The comparator (larger magnitude first, ties by index) is a strict total order on the
  remainders, so the sort is the stable sort of the index-ordered list by descending magnitude.
\<close>

definition dust_order :: "int list \<Rightarrow> nat list" where
  "dust_order remainders =
     map fst (sort_key (\<lambda>(i, r). - \<bar>r\<bar>) (enumerate 0 remainders))"

definition proRata :: "amount \<Rightarrow> amount list \<Rightarrow> money_error + amount list" where
  "proRata tot weights =
     (if \<exists>w \<in> set weights. w < 0 then Inl NegativeWeight
      else let totalWeight = sum_amount weights
           in if totalWeight \<le> 0 then Inl NonPositiveWeight
              else let shares = map (\<lambda>w. (tot * w) sdiv totalWeight) weights;
                       remainders = map (\<lambda>w. (tot * w) smod totalWeight) weights
                   in Inr (give_dust (dust_order remainders) (tot - sum_amount shares) shares))"

section \<open>Parsing and printing\<close>

lemma SCALE_pos [simp]: "0 < SCALE"
  by (simp add: SCALE_def)

lemma sum_amount_eq [simp]: "sum_amount xs = sum_list xs"
proof -
  have "foldl (\<lambda>acc a. acc + a) s xs = s + sum_list xs" for s
    by (induction xs arbitrary: s) auto
  then show ?thesis by (simp add: sum_amount_def)
qed

lemma js_trim_no_ws: "\<forall>c \<in> set s. \<not> js_ws c \<Longrightarrow> js_trim s = s"
proof (cases "s = []")
  case True
  then show ?thesis by (simp add: js_trim_def)
next
  case False
  assume "\<forall>c \<in> set s. \<not> js_ws c"
  with False have "dropWhile js_ws s = s" and "dropWhile js_ws (rev s) = rev s"
    by (simp_all add: dropWhile_rev_last hd_rev)
  then show ?thesis by (simp add: js_trim_def)
qed

lemma is_digit_not_ws: "is_digit c \<Longrightarrow> \<not> js_ws c"
  by (auto simp: is_digit_def js_ws_def)

lemma amount_punctuation_not_ws: "\<not> js_ws (CHR ''-'')" "\<not> js_ws (CHR ''.'')"
  by (simp_all add: js_ws_def)

lemma amount_punctuation_not_digit: "\<not> is_digit (CHR ''-'')" "\<not> is_digit (CHR ''.'')"
  by (simp_all add: is_digit_def)

lemma is_digit_0: "is_digit (CHR ''0'')"
  by (simp add: is_digit_def)

lemma amount_digits_whole:
  assumes "whole \<noteq> []" "\<forall>c \<in> set whole. is_digit c"
  shows "amount_digits whole = Some (whole, [])"
proof -
  have tw: "takeWhile is_digit whole = whole" and dw: "dropWhile is_digit whole = []"
    using assms(2) by (simp_all add: takeWhile_eq_all_conv)
  show ?thesis unfolding amount_digits_def tw dw using assms(1) by simp
qed

lemma amount_digits_frac:
  assumes "whole \<noteq> []" "\<forall>c \<in> set whole. is_digit c"
    and "frac \<noteq> []" "\<forall>c \<in> set frac. is_digit c"
  shows "amount_digits (whole @ CHR ''.'' # frac) = Some (whole, frac)"
proof -
  have "takeWhile is_digit (whole @ CHR ''.'' # frac) = whole"
    "dropWhile is_digit (whole @ CHR ''.'' # frac) = CHR ''.'' # frac"
    using assms(2) amount_punctuation_not_digit
    by (simp_all add: takeWhile_append2 dropWhile_append2)
  then show ?thesis using assms by (simp add: amount_digits_def list_all_iff)
qed

lemma AMOUNT_RE_unsigned:
  assumes "amount_digits s = Some (w, f)"
  shows "AMOUNT_RE s = Some (False, w, f)"
proof (cases s)
  case Nil
  then show ?thesis using assms by (simp add: amount_digits_def)
next
  case (Cons c cs)
  have "is_digit c"
    using assms Cons by (auto simp: amount_digits_def split: if_splits)
  then show ?thesis
    using assms Cons amount_punctuation_not_digit by (auto simp: AMOUNT_RE_def)
qed

lemma AMOUNT_RE_signed: "amount_digits s = Some (w, f) \<Longrightarrow> AMOUNT_RE (CHR ''-'' # s) = Some (True, w, f)"
  by (simp add: AMOUNT_RE_def)

lemma stripTrailing0_pad:
  "padEnd0 (length s) (stripTrailing0 s) = s"
proof -
  define z where "z = takeWhile (\<lambda>c. c = CHR ''0'') (rev s)"
  have "rev s = z @ dropWhile (\<lambda>c. c = CHR ''0'') (rev s)"
    by (simp add: z_def)
  then have s: "s = stripTrailing0 s @ rev z"
    by (metis rev_append rev_rev_ident stripTrailing0_def)
  have "\<forall>c \<in> set z. c = CHR ''0''"
    unfolding z_def by (metis set_takeWhileD)
  then have "rev z = replicate (length z) (CHR ''0'')"
    by (metis length_rev replicate_length_same set_rev)
  moreover have "length z = length s - length (stripTrailing0 s)"
    by (metis add_diff_cancel_left' length_append length_rev s)
  ultimately show ?thesis using s by (simp add: padEnd0_def)
qed

lemma set_stripTrailing0: "set (stripTrailing0 s) \<subseteq> set s"
  by (auto simp: stripTrailing0_def dest: set_dropWhileD)

lemma nat_of_digits_zeros [simp]: "nat_of_digits (replicate n (CHR ''0'')) = 0"
  by (induction n) (simp_all add: nat_of_digits_append [of "[_]", simplified] digit_val_def)

lemma nat_of_digits_padStart0 [simp]: "nat_of_digits (padStart0 n s) = nat_of_digits s"
  by (simp add: padStart0_def nat_of_digits_append)

lemma stripTrailing0_eq_Nil: "stripTrailing0 s = [] \<Longrightarrow> nat_of_digits s = 0"
  using stripTrailing0_pad [of s] by (metis append_Nil nat_of_digits_zeros padEnd0_def)

text \<open>The printed fraction has at most 18 digits, and padding it back gives its value.\<close>

lemma fraction_round_trip:
  fixes f :: int
  assumes "0 < f" "f < SCALE"
  defines "t \<equiv> stripTrailing0 (padStart0 DECIMALS (string_of_int f))"
  shows "t \<noteq> []" "\<forall>c \<in> set t. is_digit c" "length t \<le> DECIMALS"
    "int (nat_of_digits (padEnd0 DECIMALS t)) = f"
proof -
  define p where "p = padStart0 DECIMALS (string_of_int f)"
  have "nat f < 10 ^ DECIMALS" using assms by (simp add: SCALE_def nat_less_iff)
  then have len: "length p = DECIMALS"
    using assms(1) length_string_of_nat [of "nat f" DECIMALS]
    by (simp add: p_def padStart0_def string_of_int_def DECIMALS_def)
  have val: "nat_of_digits p = nat f" using assms(1) by (simp add: p_def string_of_int_def)
  show "t \<noteq> []"
    using stripTrailing0_eq_Nil [of p] val assms(1) by (auto simp: t_def p_def)
  have "\<forall>c \<in> set p. is_digit c"
    using assms(1) is_digit_0 string_of_nat_digits by (auto simp: p_def padStart0_def string_of_int_def)
  then show "\<forall>c \<in> set t. is_digit c"
    using set_stripTrailing0 [of p] by (auto simp: t_def p_def)
  have pad: "padEnd0 DECIMALS t = p"
    using stripTrailing0_pad [of p] len by (simp add: t_def p_def)
  then show "length t \<le> DECIMALS"
    by (metis append_eq_conv_conj drop_eq_Nil len length_append nat_le_linear padEnd0_def
        length_replicate le_add1)
  show "int (nat_of_digits (padEnd0 DECIMALS t)) = f"
    using pad val assms(1) by simp
qed

lemma parse_unsigned:
  assumes "AMOUNT_RE s = Some (neg, w, f)" "js_trim s = s" "length f \<le> DECIMALS"
    and "v = int (nat_of_digits w) * SCALE + int (nat_of_digits (padEnd0 DECIMALS f))"
  shows "parseAmount (AString s) = bindE (fitsColumn (if neg then - v else v)) (\<lambda>_. Inr (if neg then - v else v))"
  using assms by (simp add: parseAmount_def Let_def)

lemma formatAmount_shape:
  "\<exists>w f. AMOUNT_RE (formatAmount v) = Some (v < 0, w, f) \<and> length f \<le> DECIMALS
     \<and> int (nat_of_digits w) * SCALE + int (nat_of_digits (padEnd0 DECIMALS f)) = \<bar>v\<bar>
     \<and> (\<forall>c \<in> set (formatAmount v). \<not> js_ws c)"
proof -
  define a where "a = \<bar>v\<bar>"
  define w where "w = string_of_nat (nat (a div SCALE))"
  define f where "f = (if a mod SCALE = 0 then [] else stripTrailing0 (padStart0 DECIMALS (string_of_int (a mod SCALE))))"
  define body where "body = (if f = [] then w else w @ CHR ''.'' # f)"
  have a0: "0 \<le> a div SCALE" by (simp add: a_def pos_imp_zdiv_nonneg_iff)
  have wd: "w \<noteq> []" "\<forall>c \<in> set w. is_digit c"
    using string_of_nat_digits by (auto simp: w_def)
  have wi: "string_of_int (a div SCALE) = w" using a0 by (simp add: w_def string_of_int_def)
  have fpos: "a mod SCALE \<noteq> 0 \<Longrightarrow> 0 < a mod SCALE"
    using pos_mod_sign [OF SCALE_pos, of a] by linarith
  note fr = fraction_round_trip [of "a mod SCALE"]
  have fd: "\<forall>c \<in> set f. is_digit c" "length f \<le> DECIMALS"
    "int (nat_of_digits (padEnd0 DECIMALS f)) = a mod SCALE"
    "f = [] \<longleftrightarrow> a mod SCALE = 0"
    using fr fpos by (auto simp: f_def padEnd0_def)
  have body: "amount_digits body = Some (w, f)"
    using amount_digits_whole [OF wd] amount_digits_frac [OF wd] fd(1) by (auto simp: body_def)
  have fmt: "formatAmount v = (if v < 0 then CHR ''-'' # body else body)"
    using wi fd(4) by (auto simp: formatAmount_def Let_def a_def body_def f_def abs_if)
  have re: "AMOUNT_RE (formatAmount v) = Some (v < 0, w, f)"
    using AMOUNT_RE_unsigned [OF body] AMOUNT_RE_signed [OF body] by (simp add: fmt)
  have "int (nat_of_digits w) * SCALE + int (nat_of_digits (padEnd0 DECIMALS f)) = \<bar>v\<bar>"
    using a0 fd(3) by (simp add: w_def a_def)
  moreover have "\<forall>c \<in> set (formatAmount v). \<not> js_ws c"
    using wd(2) fd(1) is_digit_not_ws amount_punctuation_not_ws by (auto simp: fmt body_def)
  ultimately show ?thesis using re fd(2) by blast
qed

section \<open>Rounding\<close>

text \<open>
  \<open>divideScaled\<close> works on magnitudes and fixes the sign afterwards. For every sign of the
  operands its three modes are the mathematical floor, the mathematical ceiling, and rounding to
  nearest with halves away from zero.
\<close>

lemma divideScaled_zero [simp]: "divideScaled n 0 r = Inl DivisionByZero"
  by (simp add: divideScaled_def)

lemma divideScaled_abs:
  assumes "d \<noteq> 0"
  shows "divideScaled n d r =
    Inr ((if (n < 0) \<noteq> (d < 0) then -1 else 1) *
      (\<bar>n\<bar> div \<bar>d\<bar> + (if \<bar>n\<bar> mod \<bar>d\<bar> = 0 then 0 else
         (case r of Ceil \<Rightarrow> of_bool ((n < 0) = (d < 0)) | Floor \<Rightarrow> of_bool ((n < 0) \<noteq> (d < 0))
          | HalfUp \<Rightarrow> of_bool (\<bar>n\<bar> mod \<bar>d\<bar> * 2 \<ge> \<bar>d\<bar>)))))"
  using assms unfolding divideScaled_def Let_def abs_if [symmetric]
  by (cases r) simp_all

lemma divideScaled_neg:
  assumes "d \<noteq> 0" "n \<noteq> 0"
  shows "divideScaled n d r = divideScaled (- n) (- d) r"
proof -
  have "(- n < 0) = (\<not> n < 0)" "(- d < 0) = (\<not> d < 0)" using assms by auto
  then show ?thesis using assms(1) by (simp add: divideScaled_abs)
qed

lemma divideScaled_0_num [simp]: "d \<noteq> 0 \<Longrightarrow> divideScaled 0 d r = Inr 0"
  by (cases r) (simp_all add: divideScaled_abs)

lemma divideScaled_pos:
  assumes "0 < d"
  shows "divideScaled n d Floor = Inr (n div d)" "divideScaled n d Ceil = Inr (- ((- n) div d))"
proof -
  show "divideScaled n d Floor = Inr (n div d)"
  proof (cases "n < 0")
    case True
    define m where "m = - n"
    have "n = - m" "0 < m" using True by (simp_all add: m_def)
    then show ?thesis using assms by (simp add: divideScaled_abs zdiv_zminus1_eq_if)
  next
    case False
    then show ?thesis using assms by (simp add: divideScaled_abs)
  qed
  show "divideScaled n d Ceil = Inr (- ((- n) div d))"
  proof (cases "n < 0")
    case True
    define m where "m = - n"
    have "n = - m" "0 < m" using True by (simp_all add: m_def)
    then show ?thesis using assms by (simp add: divideScaled_abs)
  next
    case False
    then show ?thesis using assms by (simp add: divideScaled_abs zdiv_zminus1_eq_if)
  qed
qed

lemma divideScaled_floor: "d \<noteq> 0 \<Longrightarrow> divideScaled n d Floor = Inr (n div d)"
  using divideScaled_pos(1) [of d n] divideScaled_pos(1) [of "- d" "- n"]
  by (cases "n = 0"; cases "0 < d") (auto simp: divideScaled_neg [of d n])

lemma divideScaled_ceil: "d \<noteq> 0 \<Longrightarrow> divideScaled n d Ceil = Inr (- ((- n) div d))"
  using divideScaled_pos(2) [of d n] divideScaled_pos(2) [of "- d" "- n"]
  by (cases "n = 0"; cases "0 < d") (auto simp: divideScaled_neg [of d n] div_minus_right)

lemma round_half_up_eq:
  fixes n d :: int
  assumes "0 \<le> n" "0 < d"
  shows "(if n mod d * 2 \<ge> d then n div d + 1 else n div d) = (2 * n + d) div (2 * d)"
proof -
  define q where "q = n div d"
  define r where "r = n mod d"
  have n: "n = q * d + r" and r: "0 \<le> r" "r < d"
    using assms by (simp_all add: q_def r_def)
  show ?thesis
  proof (cases "d \<le> r * 2")
    case True
    have "(2 * n + d) div (2 * d) = ((2 * r - d) + (q + 1) * (2 * d)) div (2 * d)"
      by (simp add: n algebra_simps)
    also have "\<dots> = q + 1"
      using r True assms by (subst div_mult_self1) (simp_all add: div_pos_pos_trivial)
    finally show ?thesis using True by (simp add: q_def r_def)
  next
    case False
    have "(2 * n + d) div (2 * d) = ((2 * r + d) + q * (2 * d)) div (2 * d)"
      by (simp add: n algebra_simps)
    also have "\<dots> = q"
      using r False assms by (subst div_mult_self1) (simp_all add: div_pos_pos_trivial)
    finally show ?thesis using False by (simp add: q_def r_def)
  qed
qed

lemma divideScaled_half_up:
  assumes "d \<noteq> 0"
  shows "divideScaled n d HalfUp = Inr (sgn n * sgn d * ((2 * \<bar>n\<bar> + \<bar>d\<bar>) div (2 * \<bar>d\<bar>)))"
proof (cases "n = 0")
  case True
  then show ?thesis using assms by simp
next
  case False
  have "\<bar>n\<bar> div \<bar>d\<bar> + (if \<bar>n\<bar> mod \<bar>d\<bar> = 0 then 0 else of_bool (\<bar>n\<bar> mod \<bar>d\<bar> * 2 \<ge> \<bar>d\<bar>))
      = (2 * \<bar>n\<bar> + \<bar>d\<bar>) div (2 * \<bar>d\<bar>)"
    using round_half_up_eq [of "\<bar>n\<bar>" "\<bar>d\<bar>"] assms by (auto split: if_splits)
  moreover have "(if (n < 0) \<noteq> (d < 0) then -1 else 1) = sgn n * sgn d"
    using False assms by (auto simp: sgn_if)
  ultimately show ?thesis unfolding divideScaled_abs [OF assms] rounding.case by (simp only:)
qed

lemma divideScaled_total: "d \<noteq> 0 \<Longrightarrow> \<exists>q. divideScaled n d r = Inr q"
  by (cases r) (simp_all add: divideScaled_floor divideScaled_ceil divideScaled_half_up)

section \<open>Basis points\<close>

lemma mulBps_int: "0 \<le> b \<Longrightarrow> mulBps a (JSInt b) r = divideScaled (a * b) 10000 r"
  by (simp add: mulBps_def)

lemma mulBps_Inr_iff: "(\<exists>q. mulBps a bps r = Inr q) \<longleftrightarrow> (\<exists>b. bps = JSInt b \<and> 0 \<le> b)"
  using divideScaled_total [of 10000 _ r] by (cases bps) (auto simp: mulBps_def)

text \<open>A ceiled fee at a rate of at most 100\% lies between the exact fee and the amount.\<close>

lemma mulBps_ceil_bounds:
  assumes "mulBps a bps Ceil = Inr fee" "0 \<le> a"
  shows "0 \<le> fee" "a * js_int bps \<le> fee * 10000" "fee * 10000 < a * js_int bps + 10000"
    "js_int bps \<le> 10000 \<Longrightarrow> fee \<le> a"
proof -
  obtain b where b: "bps = JSInt b" "0 \<le> b" using assms mulBps_Inr_iff by metis
  have fee: "fee = - ((- (a * b)) div 10000)"
    using assms b by (simp add: mulBps_int divideScaled_ceil)
  have ab: "0 \<le> a * b" using assms(2) b(2) by simp
  then show "0 \<le> fee" using fee by linarith
  show "a * js_int bps \<le> fee * 10000"
    using fee b(1) by simp
  show "fee * 10000 < a * js_int bps + 10000"
    using fee b(1) by simp
  show "fee \<le> a" if "js_int bps \<le> 10000"
  proof -
    have "a * b \<le> a * 10000" using that b(1) assms(2) by (simp add: mult_left_mono)
    then show ?thesis using fee by linarith
  qed
qed

lemma mulBps_floor_bounds:
  assumes "mulBps a bps Floor = Inr fee" "0 \<le> a"
  shows "0 \<le> fee" "fee * 10000 \<le> a * js_int bps" "js_int bps \<le> 10000 \<Longrightarrow> fee \<le> a"
proof -
  obtain b where b: "bps = JSInt b" "0 \<le> b" using assms mulBps_Inr_iff by metis
  have fee: "fee = (a * b) div 10000"
    using assms b by (simp add: mulBps_int divideScaled_floor)
  have ab: "0 \<le> a * b" using assms(2) b(2) by simp
  then show "0 \<le> fee" using fee by (simp add: pos_imp_zdiv_nonneg_iff)
  show "fee * 10000 \<le> a * js_int bps" using fee b(1) by simp
  show "fee \<le> a" if "js_int bps \<le> 10000"
  proof -
    have "a * b \<le> a * 10000" using that b(1) assms(2) by (simp add: mult_left_mono)
    then show ?thesis using fee by linarith
  qed
qed

section \<open>The pro-rata split\<close>

lemma length_give_dust [simp]: "length (give_dust is dust shares) = length shares"
  by (induction "is" dust shares rule: give_dust.induct) (auto simp: Let_def)

lemma nat_abs_step: "(k::int) \<noteq> 0 \<Longrightarrow> nat \<bar>k\<bar> = Suc (nat \<bar>k - sgn k\<bar>)"
  by (cases "k > 0") (simp_all add: Suc_nat_eq_nat_zadd1)

lemma give_dust_nth:
  assumes "distinct is" "set is \<subseteq> {..<length shares}" "j < length shares"
  shows "give_dust is dust shares ! j =
    shares ! j + (if j \<in> set (take (nat \<bar>dust\<bar>) is) then sgn dust else 0)"
  using assms
proof (induction "is" dust shares rule: give_dust.induct)
  case (1 dust shares)
  then show ?case by simp
next
  case (2 i "is" dust shares)
  show ?case
  proof (cases "dust = 0")
    case True
    then show ?thesis by simp
  next
    case False
    have step: "(if dust > 0 then 1 else -1) = sgn dust" using False by (simp add: sgn_if)
    have IH: "give_dust is (dust - sgn dust) (shares[i := shares ! i + sgn dust]) ! j =
        shares[i := shares ! i + sgn dust] ! j +
          (if j \<in> set (take (nat \<bar>dust - sgn dust\<bar>) is) then sgn (dust - sgn dust) else 0)"
      using "2.IH" [OF False refl] "2.prems" step by simp
    have sg: "dust - sgn dust \<noteq> 0 \<Longrightarrow> sgn (dust - sgn dust) = sgn dust"
      using False by (auto simp: sgn_if)
    have i: "i \<notin> set (take k is)" for k
      using "2.prems"(1) by (auto dest: in_set_takeD)
    show ?thesis
      using IH False step i sg nat_abs_step [OF False] "2.prems"(2,3)
      by (cases "dust - sgn dust = 0") (auto simp: nth_list_update Let_def)
  qed
qed

lemma sum_list_update_int:
  fixes xs :: "int list"
  shows "i < length xs \<Longrightarrow> sum_list (xs[i := v]) = sum_list xs + v - xs ! i"
  by (induction xs arbitrary: i) (auto simp: less_Suc_eq_0_disj)

lemma sum_list_give_dust:
  assumes "distinct is" "set is \<subseteq> {..<length shares}" "nat \<bar>dust\<bar> \<le> length is"
  shows "sum_list (give_dust is dust shares) = sum_list shares + dust"
  using assms
proof (induction "is" dust shares rule: give_dust.induct)
  case (1 dust shares)
  then show ?case by simp
next
  case (2 i "is" dust shares)
  show ?case
  proof (cases "dust = 0")
    case True
    then show ?thesis by simp
  next
    case False
    have step: "(if dust > 0 then 1 else -1) = sgn dust" using False by (simp add: sgn_if)
    have "sum_list (give_dust is (dust - sgn dust) (shares[i := shares ! i + sgn dust])) =
        sum_list (shares[i := shares ! i + sgn dust]) + (dust - sgn dust)"
      using "2.IH" [OF False refl] "2.prems" step nat_abs_step [OF False] by simp
    moreover have "i < length shares" using "2.prems"(2) by auto
    then have "sum_list (shares[i := shares ! i + sgn dust]) = sum_list shares + sgn dust"
      using sum_list_update_int [of i shares "shares ! i + sgn dust"] by simp
    ultimately show ?thesis using False step by (simp add: Let_def)
  qed
qed

lemma dust_order_props:
  "distinct (dust_order rs)" "set (dust_order rs) = {..<length rs}" "length (dust_order rs) = length rs"
proof -
  let ?ps = "sort_key (\<lambda>(i, r). - \<bar>r\<bar>) (enumerate 0 rs)"
  have "mset (map fst ?ps) = image_mset fst (mset (enumerate 0 rs))"
    by (simp only: mset_map mset_sort)
  also have "\<dots> = mset (map fst (enumerate 0 rs))"
    by (simp only: mset_map)
  finally have m: "mset (dust_order rs) = mset [0..<length rs]"
    by (simp only: dust_order_def map_fst_enumerate add_0)
  show "distinct (dust_order rs)" using m mset_eq_imp_distinct_iff distinct_upt by blast
  show "set (dust_order rs) = {..<length rs}" using m by (metis atLeast_upt mset_eq_setD)
  show "length (dust_order rs) = length rs" using m by (metis diff_zero length_upt size_mset)
qed

text \<open>Dust goes to truncated shares only, as long as there is no more dust than truncations.\<close>

lemma dust_order_nonzero:
  assumes "k \<le> length (filter (\<lambda>r. r \<noteq> 0) rs)" "j \<in> set (take k (dust_order rs))"
  shows "rs ! j \<noteq> 0"
proof
  define ps where "ps = sort_key (\<lambda>(i, r). - \<bar>r\<bar>) (enumerate 0 rs)"
  assume zero: "rs ! j = 0"
  obtain p where p: "p < k" "p < length ps" "fst (ps ! p) = j"
    using assms(2) by (auto simp: dust_order_def ps_def[symmetric] in_set_conv_nth)
  have mem: "ps ! p \<in> set (enumerate 0 rs)"
    using p(2) by (metis nth_mem ps_def set_sort)
  then have "ps ! p = (j, 0)"
    using p(3) zero by (auto simp: in_set_enumerate_eq prod_eq_iff)
  moreover have sorted: "sorted (map (\<lambda>(i, r). - \<bar>r\<bar>) ps)"
    by (simp add: ps_def)
  ultimately have tail: "snd (ps ! q) = 0" if "p \<le> q" "q < length ps" for q
    using that p(2) sorted_nth_mono [OF sorted, of p q] by (simp add: case_prod_beta)
  have "filter (\<lambda>x. snd x \<noteq> 0) (drop p ps) = []"
    unfolding filter_empty_conv
  proof
    fix x assume "x \<in> set (drop p ps)"
    then obtain q where "q < length ps - p" "x = ps ! (p + q)"
      by (auto simp: in_set_conv_nth)
    then show "\<not> snd x \<noteq> 0" using tail [of "p + q"] by simp
  qed
  then have "length (filter (\<lambda>x. snd x \<noteq> 0) ps) = length (filter (\<lambda>x. snd x \<noteq> 0) (take p ps))"
    by (metis append_Nil2 append_take_drop_id filter_append)
  also have "\<dots> \<le> p"
    by (metis length_filter_le length_take min.boundedE)
  finally have le: "length (filter (\<lambda>x. snd x \<noteq> 0) ps) \<le> p" .
  have "size (filter_mset (\<lambda>x. snd x \<noteq> 0) (mset ps)) = size (filter_mset (\<lambda>x. snd x \<noteq> 0) (mset (enumerate 0 rs)))"
    by (simp add: ps_def)
  then have "length (filter (\<lambda>x. snd x \<noteq> 0) ps) = length (filter (\<lambda>x. snd x \<noteq> 0) (enumerate 0 rs))"
    by (metis mset_filter size_mset)
  also have "\<dots> = length (filter (\<lambda>r. r \<noteq> 0) (map snd (enumerate 0 rs)))"
    by (simp only: filter_map comp_def length_map)
  finally show False using le p(1) assms(1) by simp
qed

lemma smod_bounds:
  fixes a w :: int
  assumes "0 < w"
  shows "\<bar>a smod w\<bar> < w" "(a sdiv w) * w + a smod w = a" "a smod w = sgn a * \<bar>a smod w\<bar>"
proof -
  have m: "0 \<le> \<bar>a\<bar> mod w" "\<bar>a\<bar> mod w < w" using assms by simp_all
  have e: "a smod w = sgn a * (\<bar>a\<bar> mod w)"
    using assms by (simp add: signed_modulo_int_def)
  have d: "a sdiv w = sgn a * (\<bar>a\<bar> div w)"
    using assms by (simp add: signed_divide_int_def)
  show "\<bar>a smod w\<bar> < w" using m assms by (simp add: e abs_mult sgn_if)
  have "sgn a * (\<bar>a\<bar> div w) * w + sgn a * (\<bar>a\<bar> mod w) = sgn a * (\<bar>a\<bar> div w * w + \<bar>a\<bar> mod w)"
    by (simp only: distrib_left mult.assoc)
  also have "\<dots> = a" by (simp add: mult_sgn_abs)
  finally show "(a sdiv w) * w + a smod w = a" by (simp add: e d)
  show "a smod w = sgn a * \<bar>a smod w\<bar>" using m by (simp add: e abs_mult sgn_if)
qed

lemma sum_list_abs_bound:
  fixes rs :: "int list"
  assumes "\<forall>r \<in> set rs. \<bar>r\<bar> < w" "0 < w"
  shows "(\<Sum>r\<leftarrow>rs. \<bar>r\<bar>) \<le> int (length (filter (\<lambda>r. r \<noteq> 0) rs)) * w"
  using assms by (induction rs) (auto simp: algebra_simps)

text \<open>The untruncated dust times the total weight is the sum of the remainders.\<close>

lemma proRata_dust_eq:
  fixes ws :: "int list"
  assumes "0 < sum_list ws"
  shows "(t - (\<Sum>w\<leftarrow>ws. (t * w) sdiv sum_list ws)) * sum_list ws = (\<Sum>w\<leftarrow>ws. (t * w) smod sum_list ws)"
proof -
  define W where "W = sum_list ws"
  have W: "0 < W" using assms by (simp add: W_def)
  have "t * sum_list vs = (\<Sum>w\<leftarrow>vs. (t * w) sdiv W) * W + (\<Sum>w\<leftarrow>vs. (t * w) smod W)" for vs
  proof (induction vs)
    case Nil
    then show ?case by simp
  next
    case (Cons v vs)
    then show ?case using smod_bounds(2) [OF W, of "t * v"] by (simp add: distrib_left distrib_right)
  qed
  from this [of ws] show ?thesis by (simp add: W_def left_diff_distrib)
qed

lemma proRata_dust_sign:
  fixes ws :: "int list"
  assumes "\<forall>w \<in> set ws. 0 \<le> w" "0 < sum_list ws"
    and "t - (\<Sum>w\<leftarrow>ws. (t * w) sdiv sum_list ws) \<noteq> 0"
  shows "sgn (t - (\<Sum>w\<leftarrow>ws. (t * w) sdiv sum_list ws)) = sgn t"
proof -
  define W where "W = sum_list ws"
  define D where "D = t - (\<Sum>w\<leftarrow>ws. (t * w) sdiv W)"
  have W: "0 < W" using assms(2) by (simp add: W_def)
  have one: "(t * w) smod W = sgn t * \<bar>(t * w) smod W\<bar>" if "0 \<le> w" for w
    using smod_bounds(3) [OF W, of "t * w"] that
    by (cases "w = 0") (simp_all add: sgn_mult)
  have "(\<Sum>w\<leftarrow>vs. (t * w) smod W) = sgn t * (\<Sum>w\<leftarrow>vs. \<bar>(t * w) smod W\<bar>)"
    if "\<forall>w \<in> set vs. 0 \<le> w" for vs
    using that
  proof (induction vs)
    case Nil
    then show ?case by simp
  next
    case (Cons v vs)
    then show ?case using one [of v] by (simp add: distrib_left)
  qed
  then have "D * W = sgn t * (\<Sum>w\<leftarrow>ws. \<bar>(t * w) smod W\<bar>)"
    using proRata_dust_eq [OF assms(2), of t] assms(1) by (simp add: D_def W_def)
  then have "sgn D * sgn W = sgn t * sgn (\<Sum>w\<leftarrow>ws. \<bar>(t * w) smod W\<bar>)"
    by (metis sgn_mult sgn_sgn)
  moreover have "0 \<le> (\<Sum>w\<leftarrow>ws. \<bar>(t * w) smod W\<bar>)"
    by (rule sum_list_nonneg) auto
  moreover have "D \<noteq> 0" using assms(3) by (simp add: D_def W_def)
  ultimately have "sgn D = sgn t"
    using W by (cases "(\<Sum>w\<leftarrow>ws. \<bar>(t * w) smod W\<bar>) = 0") (simp_all add: sgn_if split: if_splits)
  then show ?thesis by (simp add: D_def W_def)
qed

lemma proRata_dust_bound:
  fixes ws :: "int list"
  assumes "0 < sum_list ws"
  shows "nat \<bar>t - (\<Sum>w\<leftarrow>ws. (t * w) sdiv sum_list ws)\<bar>
    \<le> length (filter (\<lambda>r. r \<noteq> 0) (map (\<lambda>w. (t * w) smod sum_list ws) ws))"
proof -
  define W where "W = sum_list ws"
  define D where "D = t - (\<Sum>w\<leftarrow>ws. (t * w) sdiv W)"
  define rs where "rs = map (\<lambda>w. (t * w) smod W) ws"
  have W: "0 < W" using assms by (simp add: W_def)
  have tri: "\<bar>sum_list xs\<bar> \<le> (\<Sum>r\<leftarrow>xs. \<bar>r\<bar>)" for xs :: "int list"
    by (induction xs) auto
  have "\<bar>D * W\<bar> \<le> (\<Sum>r\<leftarrow>rs. \<bar>r\<bar>)"
    using tri [of rs] proRata_dust_eq [OF assms, of t] by (simp add: rs_def D_def W_def)
  also have "\<dots> \<le> int (length (filter (\<lambda>r. r \<noteq> 0) rs)) * W"
    using smod_bounds(1) [OF W] W by (intro sum_list_abs_bound) (auto simp: rs_def)
  finally have "\<bar>D\<bar> * W \<le> int (length (filter (\<lambda>r. r \<noteq> 0) rs)) * W"
    using W by (simp add: abs_mult)
  then have "\<bar>D\<bar> \<le> int (length (filter (\<lambda>r. r \<noteq> 0) rs))"
    using W by simp
  then show ?thesis by (simp add: D_def rs_def W_def)
qed

lemma proRata_Inr:
  "proRata t ws = Inr out \<longleftrightarrow> (\<forall>w \<in> set ws. 0 \<le> w) \<and> 0 < sum_list ws \<and>
     out = give_dust (dust_order (map (\<lambda>w. (t * w) smod sum_list ws) ws))
       (t - sum_list (map (\<lambda>w. (t * w) sdiv sum_list ws) ws))
       (map (\<lambda>w. (t * w) sdiv sum_list ws) ws)"
  by (auto simp: proRata_def Let_def not_less not_le)

lemma proRata_sum:
  assumes "proRata t ws = Inr out"
  shows "sum_list out = t"
proof -
  let ?rs = "map (\<lambda>w. (t * w) smod sum_list ws) ws"
  let ?sh = "map (\<lambda>w. (t * w) sdiv sum_list ws) ws"
  have ok: "0 < sum_list ws"
    and out: "out = give_dust (dust_order ?rs) (t - sum_list ?sh) ?sh"
    using assms by (simp_all add: proRata_Inr)
  have "nat \<bar>t - sum_list ?sh\<bar> \<le> length ?rs"
    using proRata_dust_bound [OF ok, of t] length_filter_le [of "\<lambda>r. r \<noteq> 0" ?rs] by linarith
  then show ?thesis
    using sum_list_give_dust [of "dust_order ?rs" ?sh "t - sum_list ?sh"]
    unfolding out by (simp add: dust_order_props)
qed

lemma proRata_nth:
  assumes "proRata t ws = Inr out" "j < length ws"
  shows "out ! j = (t * ws ! j) sdiv sum_list ws \<or>
    out ! j = (t * ws ! j) sdiv sum_list ws + sgn t \<and> (t * ws ! j) smod sum_list ws \<noteq> 0"
proof -
  let ?rs = "map (\<lambda>w. (t * w) smod sum_list ws) ws"
  let ?sh = "map (\<lambda>w. (t * w) sdiv sum_list ws) ws"
  let ?D = "t - sum_list ?sh"
  have ok: "\<forall>w \<in> set ws. 0 \<le> w" "0 < sum_list ws"
    and out: "out = give_dust (dust_order ?rs) ?D ?sh"
    using assms by (simp_all add: proRata_Inr)
  have nth: "out ! j = ?sh ! j + (if j \<in> set (take (nat \<bar>?D\<bar>) (dust_order ?rs)) then sgn ?D else 0)"
    unfolding out using assms(2) by (intro give_dust_nth) (simp_all add: dust_order_props)
  show ?thesis
  proof (cases "j \<in> set (take (nat \<bar>?D\<bar>) (dust_order ?rs))")
    case True
    then have D: "?D \<noteq> 0" by auto
    have "?rs ! j \<noteq> 0"
      using dust_order_nonzero [OF proRata_dust_bound [OF ok(2), of t] True] .
    then show ?thesis using nth True assms(2) proRata_dust_sign [OF ok D] by simp
  next
    case False
    then show ?thesis using nth assms(2) by simp
  qed
qed

lemma length_proRata: "proRata t ws = Inr out \<Longrightarrow> length out = length ws"
  by (auto simp: proRata_Inr)

lemma proRata_fair:
  assumes "proRata t ws = Inr out" "j < length ws"
  shows "\<bar>out ! j * sum_list ws - t * ws ! j\<bar> < sum_list ws"
proof -
  define W where "W = sum_list ws"
  define a where "a = t * ws ! j"
  have W: "0 < W" and w: "0 \<le> ws ! j" using assms by (simp_all add: proRata_Inr W_def)
  note b = smod_bounds [OF W, of a]
  have sg: "a \<noteq> 0 \<Longrightarrow> sgn a = sgn t" using w by (auto simp: a_def sgn_mult)
  from proRata_nth [OF assms] show ?thesis
  proof
    assume "out ! j = (t * ws ! j) sdiv sum_list ws"
    then have "out ! j * W - a = - (a smod W)" using b(2) by (simp add: a_def W_def)
    then show ?thesis using b(1) by (simp add: a_def W_def)
  next
    assume o: "out ! j = (t * ws ! j) sdiv sum_list ws + sgn t \<and> (t * ws ! j) smod sum_list ws \<noteq> 0"
    then have m: "a smod W \<noteq> 0" by (simp add: a_def W_def)
    then have "a \<noteq> 0" by auto
    then have "out ! j * W - a = sgn t * (W - \<bar>a smod W\<bar>)"
      using o b(2,3) sg by (simp add: a_def W_def algebra_simps)
    moreover have "\<bar>sgn t\<bar> \<le> 1" by (simp add: sgn_if)
    moreover have "0 < W - \<bar>a smod W\<bar>" "W - \<bar>a smod W\<bar> < W" using b(1) m by simp_all
    ultimately have "\<bar>out ! j * W - a\<bar> < W"
      by (simp add: abs_mult sgn_if split: if_splits)
    then show ?thesis by (simp add: a_def W_def)
  qed
qed

lemma proRata_zero_weight:
  assumes "proRata t ws = Inr out" "j < length ws" "ws ! j = 0"
  shows "out ! j = 0"
  using proRata_nth [OF assms(1,2)] assms(3)
  by (simp add: signed_divide_int_def signed_modulo_int_def)

section \<open>Properties\<close>

lemma parse_format:
  "parseAmount (AString (formatAmount v)) = (if \<bar>v\<bar> \<le> MAX_AMOUNT then Inr v else Inl ColumnOverflow)"
proof -
  obtain w f where sh: "AMOUNT_RE (formatAmount v) = Some (v < 0, w, f)" "length f \<le> DECIMALS"
    "int (nat_of_digits w) * SCALE + int (nat_of_digits (padEnd0 DECIMALS f)) = \<bar>v\<bar>"
    "\<forall>c \<in> set (formatAmount v). \<not> js_ws c"
    using formatAmount_shape [of v] by blast
  have "(if v < 0 then - \<bar>v\<bar> else \<bar>v\<bar>) = v" by simp
  then have "parseAmount (AString (formatAmount v)) = bindE (fitsColumn v) (\<lambda>_. Inr v)"
    using parse_unsigned [OF sh(1) js_trim_no_ws [OF sh(4)] sh(2) sh(3) [symmetric]] by simp
  then show ?thesis by (auto simp: fitsColumn_def)
qed

text \<open>C29. Printing and parsing are inverse on the column: reading back the canonical decimal
  string of an amount gives the amount, and the only amounts refused on the way back are those
  that do not fit \<^verbatim>\<open>numeric(38,18)\<close>.\<close>

theorem parse_format_round_trip:
  "parseAmount (AString (formatAmount v)) = (if \<bar>v\<bar> \<le> MAX_AMOUNT then Inr v else Inl ColumnOverflow)"
  by (rule parse_format)

text \<open>Division with an explicit mode: the floor and ceiling modes are the mathematical floor
  and ceiling of the exact quotient for every sign of the operands, half-up rounds the magnitude
  to nearest (ties away from zero), and a zero divisor is the only refusal.\<close>

theorem divideScaled_spec:
  "divideScaled n d r =
     (if d = 0 then Inl DivisionByZero
      else Inr (case r of
                  Floor \<Rightarrow> n div d
                | Ceil \<Rightarrow> - ((- n) div d)
                | HalfUp \<Rightarrow> sgn n * sgn d * ((2 * \<bar>n\<bar> + \<bar>d\<bar>) div (2 * \<bar>d\<bar>))))"
  by (cases r) (simp_all add: divideScaled_floor divideScaled_ceil divideScaled_half_up)

text \<open>C30. The pro-rata split is exact and fair: the shares are as many as the weights, add up to
  the total with nothing lost or created, each is within one smallest unit of its exact share
  \<open>total * weight / totalWeight\<close>, and a zero weight gets nothing.\<close>

theorem proRata_exact:
  assumes "proRata tot weights = Inr shares"
  shows "length shares = length weights \<and> sum_list shares = tot \<and>
    (\<forall>j < length weights. \<bar>shares ! j * sum_list weights - tot * weights ! j\<bar> < sum_list weights
       \<and> (weights ! j = 0 \<longrightarrow> shares ! j = 0))"
  using assms by (simp add: length_proRata proRata_sum proRata_fair proRata_zero_weight)

theorem proRata_exact_witness:
  "proRata 10 [1, 1, 0, 1] = Inr [4, 3, 0, 3] \<and> sum_list [4, 3, 0, 3 :: int] = 10"
proof -
  have "proRata 10 [1, 1, 0, 1] = Inr [4, 3, 0, 3]" by code_simp
  then show ?thesis using proRata_exact by blast
qed

end
