(* ===== verification/Ledger_Types.thy ===== *)
theory Ledger_Types
  imports Money
begin

text \<open>
  \<^verbatim>\<open>packages/ledger-client/src/types.ts\<close>: the shapes of the balance graph. Owners,
  account kinds and their classification, the identifier space of an owner, account references,
  entries, post requests, posted transactions, and the errors a ledger raises. Error messages are
  not modelled; every error class is a constructor of \<open>ledger_error\<close>, and the refused
  wire-schema branches of the HTTP layer are the boolean predicates at the end.
\<close>

section \<open>Owners and kinds\<close>

datatype owner_type = User | Subaccount | Module | House | Treasury

fun owner_type_name :: "owner_type \<Rightarrow> string" where
  "owner_type_name User = ''user''"
| "owner_type_name Subaccount = ''subaccount''"
| "owner_type_name Module = ''module''"
| "owner_type_name House = ''house''"
| "owner_type_name Treasury = ''treasury''"

definition OWNER_TYPES :: "owner_type list" where
  "OWNER_TYPES = [User, Subaccount, Module, House, Treasury]"

datatype owner_id_space = UuidSpace | PlatformSpace

definition UUID_OWNER_TYPES :: "owner_type list" where
  "UUID_OWNER_TYPES = [User, Subaccount]"

text \<open>The two regular expressions of the identifier spaces, as matchers.\<close>

definition is_lower_hex :: "char \<Rightarrow> bool" where
  "is_lower_hex c \<longleftrightarrow> is_digit c \<or> (97 \<le> (of_char c :: nat) \<and> (of_char c :: nat) \<le> 102)"

definition UUID_OWNER_ID_PATTERN :: "string \<Rightarrow> bool" where
  "UUID_OWNER_ID_PATTERN s \<longleftrightarrow> length s = 36 \<and>
     (\<forall>i \<in> set [0..<36]. if i \<in> {8, 13, 18, 23} then s ! i = CHR ''-'' else is_lower_hex (s ! i))"

definition is_lower :: "char \<Rightarrow> bool" where
  "is_lower c \<longleftrightarrow> 97 \<le> (of_char c :: nat) \<and> (of_char c :: nat) \<le> 122"

definition is_upper :: "char \<Rightarrow> bool" where
  "is_upper c \<longleftrightarrow> 65 \<le> (of_char c :: nat) \<and> (of_char c :: nat) \<le> 90"

definition slug_head_char :: "char \<Rightarrow> bool" where
  "slug_head_char c \<longleftrightarrow> is_lower c \<or> is_digit c \<or> c = CHR ''_'' \<or> c = CHR ''-''"

definition slug_seg_char :: "char \<Rightarrow> bool" where
  "slug_seg_char c \<longleftrightarrow> is_upper c \<or> is_lower c \<or> is_digit c \<or> c = CHR ''.'' \<or> c = CHR ''_'' \<or> c = CHR ''-''"

text \<open>The colon-separated segments of a string.\<close>

fun segs :: "string \<Rightarrow> string list" where
  "segs [] = [[]]"
| "segs (c # cs) = (if c = CHR '':'' then [] # segs cs
                    else (case segs cs of [] \<Rightarrow> [[c]] | s # ss \<Rightarrow> (c # s) # ss))"

definition PLATFORM_OWNER_ID_PATTERN :: "string \<Rightarrow> bool" where
  "PLATFORM_OWNER_ID_PATTERN s \<longleftrightarrow> (case segs s of
       [] \<Rightarrow> False
     | h # rest \<Rightarrow> h \<noteq> [] \<and> is_lower (hd h) \<and> list_all slug_head_char h
                   \<and> list_all (\<lambda>t. t \<noteq> [] \<and> list_all slug_seg_char t) rest)"

definition ownerIdSpace :: "owner_type \<Rightarrow> owner_id_space" where
  "ownerIdSpace t = (if List.member UUID_OWNER_TYPES t then UuidSpace else PlatformSpace)"

definition isValidOwnerId :: "owner_type \<Rightarrow> string \<Rightarrow> bool" where
  "isValidOwnerId t ownerId =
     (if ownerIdSpace t = UuidSpace then UUID_OWNER_ID_PATTERN ownerId
      else PLATFORM_OWNER_ID_PATTERN ownerId \<and> \<not> UUID_OWNER_ID_PATTERN ownerId)"

text \<open>\<open>OtherKind\<close> is a kind outside the TypeScript union that still reaches the runtime check.\<close>

datatype account_kind = Available | Hold | Escrow | Stake | Collateral | OtherKind string

fun kind_name :: "account_kind \<Rightarrow> string" where
  "kind_name Available = ''available''"
| "kind_name Hold = ''hold''"
| "kind_name Escrow = ''escrow''"
| "kind_name Stake = ''stake''"
| "kind_name Collateral = ''collateral''"
| "kind_name (OtherKind s) = s"

definition ACCOUNT_KINDS :: "account_kind list" where
  "ACCOUNT_KINDS = [Available, Hold, Escrow, Stake, Collateral]"

datatype kind_class = Spendable | Locked

definition ACCOUNT_KIND_CLASS :: "(account_kind \<times> kind_class) list" where
  "ACCOUNT_KIND_CLASS =
     [(Available, Spendable), (Hold, Locked), (Escrow, Locked), (Stake, Locked), (Collateral, Locked)]"

definition LOCK_KIND_LIST :: "account_kind list" where
  "LOCK_KIND_LIST = filter (\<lambda>k. map_of ACCOUNT_KIND_CLASS k = Some Locked) ACCOUNT_KINDS"

section \<open>Accounts, entries, transactions\<close>

record account_ref =
  ownerType :: owner_type
  ownerId :: string
  assetId :: string
  kind :: account_kind
  purpose :: "string option"

definition accountPurpose :: "account_ref \<Rightarrow> string" where
  "accountPurpose ref = js_trim (case purpose ref of None \<Rightarrow> [] | Some p \<Rightarrow> p)"

datatype direction = Debit | Credit

fun direction_name :: "direction \<Rightarrow> string" where
  "direction_name Debit = ''debit''"
| "direction_name Credit = ''credit''"

text \<open>\<open>Account\<close> extends \<open>AccountRef\<close> by the row's id and its creation time.\<close>

record ledger_account = account_ref +
  acc_id :: string
  acc_createdAt :: string

record entry_input =
  entry_account :: account_ref
  entry_direction :: direction
  entry_amount :: amount

record posted_entry =
  pe_id :: string
  pe_txId :: string
  pe_accountId :: string
  pe_assetId :: string
  pe_direction :: direction
  pe_amount :: amount
  pe_balanceAfter :: amount

text \<open>Values of the free-form \<open>meta\<close> record, as far as the code writes them.\<close>

datatype meta_value = MStr string | MNum js_number | MBool bool | MNull | MList "meta_value list"
  | MObj "(string \<times> meta_value) list"

type_synonym meta_obj = "(string \<times> meta_value) list"

record post_request =
  idempotencyKey :: string
  req_module :: string
  req_reason :: string
  req_entries :: "entry_input list"
  req_meta :: "meta_obj option"
  correlationId :: "string option"

record ledger_tx =
  tx_id :: string
  tx_idempotencyKey :: string
  tx_module :: string
  tx_reason :: string
  tx_meta :: meta_obj
  tx_postedAt :: string
  tx_hash :: string
  tx_previousHash :: "string option"
  tx_entries :: "posted_entry list"
  tx_assetHashes :: "(string \<times> string) list option"
  tx_previousAssetHashes :: "(string \<times> string option) list option"
  tx_crossShardAnchor :: "string option"

record ledger_balance =
  bal_account :: account_ref
  bal_accountId :: string
  bal_amount :: amount

section \<open>Errors\<close>

datatype ledger_error =
    MoneyError money_error
  | PlainError \<comment> \<open>a plain \<open>Error\<close> of a named constructor\<close>
  | LedgerError string \<comment> \<open>code\<close>
  | UnbalancedTransactionError "(string \<times> amount) list"
  | InsufficientFundsError string string amount amount
  | InvalidEntryError
  | OwnerIdentitySpaceError owner_type string

text \<open>The stable code of an error: \<open>LedgerError\<close> and its subclasses carry one.\<close>

fun error_code :: "ledger_error \<Rightarrow> string option" where
  "error_code (MoneyError e) = None"
| "error_code PlainError = None"
| "error_code (LedgerError c) = Some c"
| "error_code (UnbalancedTransactionError off) = Some ''ledger.unbalanced''"
| "error_code (InsufficientFundsError a b c d) = Some ''ledger.insufficient_funds''"
| "error_code InvalidEntryError = Some ''ledger.invalid_entry''"
| "error_code (OwnerIdentitySpaceError t i) = Some ''ledger.owner_identity_space''"

text \<open>Lifting a money computation into the ledger's errors.\<close>

definition moneyE :: "money_error + 'a \<Rightarrow> ledger_error + 'a" where
  "moneyE m = map_sum MoneyError id m"

lemma moneyE_eq_Inr [simp]: "moneyE m = Inr x \<longleftrightarrow> m = Inr x"
  by (cases m) (auto simp: moneyE_def)

section \<open>Wire schemas\<close>

definition accountRefSchema :: "account_ref \<Rightarrow> bool" where
  "accountRefSchema ref \<longleftrightarrow>
     1 \<le> length (ownerId ref) \<and> 1 \<le> length (assetId ref) \<and> length (assetId ref) \<le> 16
     \<and> List.member ACCOUNT_KINDS (kind ref)
     \<and> (case purpose ref of None \<Rightarrow> True | Some p \<Rightarrow> length p \<le> 128)
     \<and> isValidOwnerId (ownerType ref) (ownerId ref)"

text \<open>The regular expression of a wire amount: 1 to 20 digits, then optionally 1 to 18 decimals.\<close>

definition wire_amount :: "string \<Rightarrow> bool" where
  "wire_amount s \<longleftrightarrow> (case amount_digits s of
       None \<Rightarrow> False
     | Some (whole, frac) \<Rightarrow> length whole \<le> 20 \<and> length frac \<le> 18)"

definition entryInputSchema :: "account_ref \<Rightarrow> string \<Rightarrow> bool" where
  "entryInputSchema ref amount \<longleftrightarrow> accountRefSchema ref \<and> wire_amount amount"

definition postRequestSchema ::
  "string \<Rightarrow> string \<Rightarrow> string \<Rightarrow> (account_ref \<times> direction \<times> string) list \<Rightarrow> bool" where
  "postRequestSchema key modul reason entries \<longleftrightarrow>
     8 \<le> length key \<and> length key \<le> 200 \<and> 1 \<le> length modul \<and> 1 \<le> length reason
     \<and> list_all (\<lambda>(ref, d, a). entryInputSchema ref a) entries \<and> 2 \<le> length entries"

section \<open>Facts\<close>

lemma LOCK_KIND_LIST_eq: "LOCK_KIND_LIST = [Hold, Escrow, Stake, Collateral]"
  by code_simp

text \<open>A wire amount always parses, to an unsigned amount.\<close>

lemma wire_amount_no_ws:
  assumes "wire_amount s"
  shows "\<forall>c \<in> set s. \<not> js_ws c"
proof -
  obtain w f where d: "amount_digits s = Some (w, f)"
    using assms by (auto simp: wire_amount_def split: option.splits)
  have s: "s = takeWhile is_digit s @ dropWhile is_digit s" by simp
  have t: "\<forall>c \<in> set (takeWhile is_digit s). is_digit c" by (metis set_takeWhileD)
  have "\<forall>c \<in> set (dropWhile is_digit s). is_digit c \<or> c = CHR ''.''"
    using d by (auto simp: amount_digits_def list_all_iff split: if_splits list.splits dest: set_dropWhileD)
  then have "\<forall>c \<in> set s. is_digit c \<or> c = CHR ''.''"
    using t s by (metis Un_iff set_append)
  then show ?thesis using is_digit_not_ws amount_punctuation_not_ws by blast
qed

lemma amount_digits_all:
  assumes "amount_digits s = Some (w, f)"
  shows "\<forall>c \<in> set w. is_digit c" "\<forall>c \<in> set f. is_digit c"
proof -
  have t: "\<forall>c \<in> set (takeWhile is_digit s). is_digit c" by (metis set_takeWhileD)
  show "\<forall>c \<in> set w. is_digit c" "\<forall>c \<in> set f. is_digit c"
    using assms t by (auto simp: amount_digits_def list_all_iff split: if_splits list.splits)
qed

lemma wire_amount_parses:
  assumes "wire_amount s"
  shows "\<exists>v. parseAmount (AString s) = Inr v \<and> 0 \<le> v \<and> v \<le> MAX_AMOUNT"
proof -
  obtain w f where d: "amount_digits s = Some (w, f)" and len: "length w \<le> 20" "length f \<le> 18"
    using assms by (auto simp: wire_amount_def split: option.splits)
  define v where "v = int (nat_of_digits w) * SCALE + int (nat_of_digits (padEnd0 DECIMALS f))"
  have "nat_of_digits w < 10 ^ length w"
    using amount_digits_all(1) [OF d] by (rule nat_of_digits_less)
  also have "(10 :: nat) ^ length w \<le> 10 ^ 20" using len(1) by (rule power_increasing) simp
  finally have wl: "nat_of_digits w < 10 ^ 20" .
  have "\<forall>c \<in> set (padEnd0 DECIMALS f). is_digit c"
    using amount_digits_all(2) [OF d] is_digit_0 by (auto simp: padEnd0_def)
  then have "nat_of_digits (padEnd0 DECIMALS f) < 10 ^ length (padEnd0 DECIMALS f)"
    by (rule nat_of_digits_less)
  then have fl: "nat_of_digits (padEnd0 DECIMALS f) < 10 ^ 18"
    using len(2) by (simp add: padEnd0_def DECIMALS_def)
  have v: "0 \<le> v" "v \<le> MAX_AMOUNT"
    using wl fl by (simp_all add: v_def SCALE_def DECIMALS_def MAX_AMOUNT_def)
  have "parseAmount (AString s) = bindE (fitsColumn v) (\<lambda>_. Inr v)"
    using parse_unsigned [OF AMOUNT_RE_unsigned [OF d] js_trim_no_ws [OF wire_amount_no_ws [OF assms]] _ v_def]
      len(2) by (simp add: DECIMALS_def)
  then show ?thesis using v by (simp add: fitsColumn_def)
qed

section \<open>Segments\<close>

lemma segs_not_Nil [simp]: "segs s \<noteq> []"
  by (induction s) (auto split: list.splits)

lemma segs_append_colon: "segs (a @ CHR '':'' # b) = segs a @ segs b"
  by (induction a) (auto split: list.splits)

lemma segs_no_colon: "CHR '':'' \<notin> set s \<Longrightarrow> segs s = [s]"
  by (induction s) auto

fun join_colon :: "string list \<Rightarrow> string" where
  "join_colon [] = []"
| "join_colon [s] = s"
| "join_colon (s # ss) = s @ CHR '':'' # join_colon ss"

lemma join_segs: "join_colon (segs s) = s"
proof (induction s)
  case Nil
  then show ?case by simp
next
  case (Cons c s)
  obtain h t where ht: "segs s = h # t" using segs_not_Nil [of s] by (cases "segs s") auto
  then show ?case using Cons by (cases t) auto
qed

lemma segs_inj: "segs a = segs b \<longleftrightarrow> a = b"
  by (metis join_segs)

end
