(* ===== verification/Ledger_Accounts.thy ===== *)
theory Ledger_Accounts
  imports Ledger_Types
begin

text \<open>
  \<^verbatim>\<open>packages/ledger-client/src/accounts.ts\<close>: the named constructors of every account the
  system uses. A lock constructor refuses a blank purpose with a plain error and trims the
  purpose it stamps. The facts at the end say which constructors can fail, that every account
  they return is well formed (locks purposed, spendable pots not), and that the claims of
  different instances never share a pot.
\<close>

section \<open>Constructors\<close>

definition mk_ref :: "owner_type \<Rightarrow> string \<Rightarrow> string \<Rightarrow> account_kind \<Rightarrow> string option \<Rightarrow> account_ref" where
  "mk_ref t i a k p = \<lparr>ownerType = t, ownerId = i, assetId = a, kind = k, purpose = p\<rparr>"

lemma mk_ref_sel [simp]:
  "ownerType (mk_ref t i a k p) = t" "ownerId (mk_ref t i a k p) = i"
  "assetId (mk_ref t i a k p) = a" "kind (mk_ref t i a k p) = k" "purpose (mk_ref t i a k p) = p"
  by (simp_all add: mk_ref_def)

text \<open>The shared shape of the purposed constructors: refuse a blank purpose, stamp it trimmed.\<close>

definition purposed :: "owner_type \<Rightarrow> string \<Rightarrow> string \<Rightarrow> account_kind \<Rightarrow> string \<Rightarrow> ledger_error + account_ref" where
  "purposed t i a k p = (if blank p then Inl PlainError else Inr (mk_ref t i a k (Some (js_trim p))))"

definition userAvailable :: "string \<Rightarrow> string \<Rightarrow> account_ref" where
  "userAvailable userId asset = mk_ref User userId asset Available None"

definition userHold :: "string \<Rightarrow> string \<Rightarrow> string \<Rightarrow> ledger_error + account_ref" where
  "userHold userId asset purp = purposed User userId asset Hold purp"

definition orderHoldAccount :: "string \<Rightarrow> string \<Rightarrow> string \<Rightarrow> ledger_error + account_ref" where
  "orderHoldAccount userId asset orderId = userHold userId asset (''order:'' @ orderId)"

definition withdrawalHoldAccount :: "string \<Rightarrow> string \<Rightarrow> string \<Rightarrow> ledger_error + account_ref" where
  "withdrawalHoldAccount userId asset withdrawalId = userHold userId asset (''withdraw:'' @ withdrawalId)"

definition userEscrow :: "string \<Rightarrow> string \<Rightarrow> string \<Rightarrow> ledger_error + account_ref" where
  "userEscrow userId asset purp = purposed User userId asset Escrow purp"

definition tradeEscrowAccount :: "string \<Rightarrow> string \<Rightarrow> string \<Rightarrow> ledger_error + account_ref" where
  "tradeEscrowAccount sellerId asset tradeId = userEscrow sellerId asset (''trade:'' @ tradeId)"

definition userStake :: "string \<Rightarrow> string \<Rightarrow> string \<Rightarrow> ledger_error + account_ref" where
  "userStake userId asset purp = purposed User userId asset Stake purp"

definition tokenStakeAccount :: "string \<Rightarrow> string \<Rightarrow> string \<Rightarrow> ledger_error + account_ref" where
  "tokenStakeAccount userId asset stakeId = userStake userId asset (''token:stake:'' @ stakeId)"

definition earnStakeAccount :: "string \<Rightarrow> string \<Rightarrow> string \<Rightarrow> ledger_error + account_ref" where
  "earnStakeAccount userId asset positionId = userStake userId asset (''bank:earn:'' @ positionId)"

definition userCollateral :: "string \<Rightarrow> string \<Rightarrow> string \<Rightarrow> ledger_error + account_ref" where
  "userCollateral userId asset purp = purposed User userId asset Collateral purp"

definition loanCollateralAccount :: "string \<Rightarrow> string \<Rightarrow> string \<Rightarrow> ledger_error + account_ref" where
  "loanCollateralAccount userId asset loanId = userCollateral userId asset (''loan:'' @ loanId)"

definition positionCollateralAccount :: "string \<Rightarrow> string \<Rightarrow> string \<Rightarrow> ledger_error + account_ref" where
  "positionCollateralAccount userId asset positionId = userCollateral userId asset (''position:'' @ positionId)"

definition moduleAccount :: "string \<Rightarrow> string \<Rightarrow> string \<Rightarrow> account_ref" where
  "moduleAccount modul purp asset = mk_ref Module (modul @ '':'' @ purp) asset Available None"

definition loanReserve :: "string \<Rightarrow> account_ref" where
  "loanReserve asset = moduleAccount ''bank'' ''loan-reserve'' asset"

definition subAccountAvailable :: "string \<Rightarrow> string \<Rightarrow> account_ref" where
  "subAccountAvailable subAccountId asset = mk_ref Subaccount subAccountId asset Available None"

definition subAccountHold :: "string \<Rightarrow> string \<Rightarrow> string \<Rightarrow> ledger_error + account_ref" where
  "subAccountHold subAccountId asset purp = purposed Subaccount subAccountId asset Hold purp"

definition subAccountCollateral :: "string \<Rightarrow> string \<Rightarrow> string \<Rightarrow> ledger_error + account_ref" where
  "subAccountCollateral subAccountId asset purp = purposed Subaccount subAccountId asset Collateral purp"

definition subAccountPositionCollateral :: "string \<Rightarrow> string \<Rightarrow> string \<Rightarrow> ledger_error + account_ref" where
  "subAccountPositionCollateral subAccountId asset positionId =
     subAccountCollateral subAccountId asset (''position:'' @ positionId)"

definition futuresOrderMarginAccount :: "string \<Rightarrow> string \<Rightarrow> string \<Rightarrow> ledger_error + account_ref" where
  "futuresOrderMarginAccount userId asset orderId = userHold userId asset (''futures-order:'' @ orderId)"

definition subAccountFuturesOrderMargin :: "string \<Rightarrow> string \<Rightarrow> string \<Rightarrow> ledger_error + account_ref" where
  "subAccountFuturesOrderMargin subAccountId asset orderId =
     subAccountHold subAccountId asset (''futures-order:'' @ orderId)"

definition houseFees :: "string \<Rightarrow> string \<Rightarrow> account_ref" where
  "houseFees modul asset = mk_ref House (''fees:'' @ modul) asset Available None"

definition insuranceFund :: "string \<Rightarrow> account_ref" where
  "insuranceFund asset = mk_ref House ''insurance-fund'' asset Available None"

definition futuresLossSink :: "string \<Rightarrow> account_ref" where
  "futuresLossSink asset = mk_ref House ''futures-loss'' asset Available None"

definition rewardsEngine :: "string \<Rightarrow> account_ref" where
  "rewardsEngine asset = mk_ref House ''rewards-engine'' asset Available None"

definition burnAccount :: "string \<Rightarrow> account_ref" where
  "burnAccount asset = mk_ref House ''burn'' asset Available None"

definition marketMaker :: "string \<Rightarrow> account_ref" where
  "marketMaker asset = mk_ref House ''market-maker'' asset Available None"

definition houseHold :: "string \<Rightarrow> string \<Rightarrow> string \<Rightarrow> ledger_error + account_ref" where
  "houseHold owner asset purp = purposed House owner asset Hold purp"

definition marketMakerOrderHoldAccount :: "string \<Rightarrow> string \<Rightarrow> ledger_error + account_ref" where
  "marketMakerOrderHoldAccount asset orderId = houseHold ''market-maker'' asset (''order:'' @ orderId)"

definition merchantClearing :: "string \<Rightarrow> string \<Rightarrow> account_ref" where
  "merchantClearing merchantId asset = mk_ref Module (''pay:clearing:'' @ merchantId) asset Available None"

definition merchantProceeds :: "string \<Rightarrow> string \<Rightarrow> account_ref" where
  "merchantProceeds merchantId asset = mk_ref Module (''pay:proceeds:'' @ merchantId) asset Available None"

text \<open>These two trim the id first and prefix it afterwards.\<close>

definition merchantProceedsPayoutHold :: "string \<Rightarrow> string \<Rightarrow> string \<Rightarrow> ledger_error + account_ref" where
  "merchantProceedsPayoutHold merchantId asset withdrawalId =
     (if blank withdrawalId then Inl PlainError
      else Inr (mk_ref Module (''pay:proceeds:'' @ merchantId) asset Hold
                  (Some (''payout:'' @ js_trim withdrawalId))))"

definition merchantClearingHold :: "string \<Rightarrow> string \<Rightarrow> string \<Rightarrow> ledger_error + account_ref" where
  "merchantClearingHold merchantId asset conversionId =
     (if blank conversionId then Inl PlainError
      else Inr (mk_ref Module (''pay:clearing:'' @ merchantId) asset Hold
                  (Some (''conversion:'' @ js_trim conversionId))))"

definition conversionInventory :: "string \<Rightarrow> account_ref" where
  "conversionInventory asset = mk_ref Treasury ''pay:fx-inventory'' asset Available None"

definition earnPoolReserve :: "string \<Rightarrow> string \<Rightarrow> account_ref" where
  "earnPoolReserve poolId asset = moduleAccount ''bank'' (''earn:'' @ poolId) asset"

definition railBoundary :: "string \<Rightarrow> string \<Rightarrow> account_ref" where
  "railBoundary rail asset = mk_ref Treasury (''rail:'' @ rail) asset Available None"

definition mintBoundary :: "string \<Rightarrow> account_ref" where
  "mintBoundary asset = mk_ref Treasury ''mint'' asset Available None"

definition bridgeBoundary :: "string \<Rightarrow> string \<Rightarrow> account_ref" where
  "bridgeBoundary chain asset = mk_ref Treasury (''bridge:'' @ chain) asset Available None"

definition venueBoundary :: "string \<Rightarrow> string \<Rightarrow> account_ref" where
  "venueBoundary venue asset = mk_ref Treasury (''venue:'' @ venue) asset Available None"

section \<open>Shape of the constructed accounts\<close>

lemma purposed_Inr [simp]:
  "purposed t i a k c = Inr r \<longleftrightarrow> \<not> blank c \<and> r = mk_ref t i a k (Some (js_trim c))"
  by (auto simp: purposed_def)

lemma blank_append [simp]: "blank (a @ b) \<longleftrightarrow> blank a \<and> blank b"
  by (auto simp: blank_iff)

lemma not_blank_Cons: "\<not> js_ws c \<Longrightarrow> blank (c # s) = False"
  by (simp add: blank_iff)

lemmas prefixed_purposes = not_blank_Cons js_ws_def

text \<open>The prefixed claim constructors never fail: the prefix is not blank.\<close>

lemma claim_accounts_total:
  "\<exists>r. orderHoldAccount u a i = Inr r" "\<exists>r. withdrawalHoldAccount u a i = Inr r"
  "\<exists>r. tradeEscrowAccount u a i = Inr r" "\<exists>r. tokenStakeAccount u a i = Inr r"
  "\<exists>r. earnStakeAccount u a i = Inr r" "\<exists>r. loanCollateralAccount u a i = Inr r"
  "\<exists>r. positionCollateralAccount u a i = Inr r" "\<exists>r. subAccountPositionCollateral u a i = Inr r"
  "\<exists>r. futuresOrderMarginAccount u a i = Inr r" "\<exists>r. subAccountFuturesOrderMargin u a i = Inr r"
  "\<exists>r. marketMakerOrderHoldAccount a i = Inr r"
  by (simp_all add: orderHoldAccount_def withdrawalHoldAccount_def tradeEscrowAccount_def
      tokenStakeAccount_def earnStakeAccount_def loanCollateralAccount_def
      positionCollateralAccount_def subAccountPositionCollateral_def futuresOrderMarginAccount_def
      subAccountFuturesOrderMargin_def marketMakerOrderHoldAccount_def userHold_def userEscrow_def
      userStake_def userCollateral_def subAccountCollateral_def subAccountHold_def houseHold_def
      purposed_def prefixed_purposes)

text \<open>Trimming a string with a solid first character keeps the prefix up to a solid character.\<close>

lemma js_trim_prefix:
  assumes "p \<noteq> []" "\<not> js_ws (hd p)" "\<not> js_ws (last p)"
  shows "js_trim (p @ s) = p @ rev (dropWhile js_ws (rev s))"
proof -
  have "dropWhile js_ws (p @ s) = p @ s" using assms by (cases p) auto
  moreover have "dropWhile js_ws (rev s @ rev p) = dropWhile js_ws (rev s) @ rev p"
  proof (cases "\<forall>c \<in> set s. js_ws c")
    case True
    have "dropWhile js_ws (rev p) = rev p" using assms by (intro dropWhile_rev_last) (simp_all add: hd_rev)
    moreover have "dropWhile js_ws (rev s @ rev p) = dropWhile js_ws (rev p)"
      using True by (intro dropWhile_append2) simp
    moreover have "dropWhile js_ws (rev s) = []" using True by (simp add: dropWhile_eq_Nil_all)
    ultimately show ?thesis by simp
  next
    case False
    then obtain c where "c \<in> set (rev s)" "\<not> js_ws c" by auto
    then show ?thesis by (rule dropWhile_append1)
  qed
  ultimately show ?thesis by (simp add: js_trim_def)
qed

end
