(* ===== verification/Json.thy ===== *)
theory Json
  imports Prelude "HOL-Library.Multiset" "HOL-Library.Char_ord" "HOL-Library.List_Lexorder"
begin

text \<open>
  What the ledger uses of \<open>JSON.stringify\<close>, \<open>Array.prototype.sort\<close> on strings and the key
  order of plain objects. The encoders are shown to be self-delimiting, so a canonical encoding
  determines what was encoded.
\<close>

section \<open>Encoders\<close>

definition hex_digit :: "nat \<Rightarrow> char" where
  "hex_digit d = (if d < 10 then char_of (48 + d) else char_of (87 + d))"

definition json_esc :: "char \<Rightarrow> string" where
  "json_esc c =
     (let n = (of_char c :: nat) in
      if n = 34 then [CHR 0x5C, CHR 0x22]
      else if n = 92 then [CHR 0x5C, CHR 0x5C]
      else if n = 8 then [CHR 0x5C, CHR ''b'']
      else if n = 9 then [CHR 0x5C, CHR ''t'']
      else if n = 10 then [CHR 0x5C, CHR ''n'']
      else if n = 12 then [CHR 0x5C, CHR ''f'']
      else if n = 13 then [CHR 0x5C, CHR ''r'']
      else if n < 32 then [CHR 0x5C, CHR ''u'', CHR ''0'', CHR ''0'', hex_digit (n div 16), hex_digit (n mod 16)]
      else [c])"

definition json_string :: "string \<Rightarrow> string" where
  "json_string s = CHR 0x22 # concat (map json_esc s) @ [CHR 0x22]"

definition json_option :: "string option \<Rightarrow> string" where
  "json_option v = (case v of None \<Rightarrow> ''null'' | Some s \<Rightarrow> json_string s)"

text \<open>Items separated by commas, between two brackets.\<close>

fun json_items :: "('a \<Rightarrow> string) \<Rightarrow> 'a list \<Rightarrow> string" where
  "json_items enc [] = []"
| "json_items enc [x] = enc x"
| "json_items enc (x # xs) = enc x @ '','' @ json_items enc xs"

definition json_array :: "('a \<Rightarrow> string) \<Rightarrow> 'a list \<Rightarrow> string" where
  "json_array enc xs = ''['' @ json_items enc xs @ '']''"

text \<open>An object's members, already rendered.\<close>

definition json_member :: "string \<times> string \<Rightarrow> string" where
  "json_member m = json_string (fst m) @ '':'' @ snd m"

definition json_object :: "(string \<times> string) list \<Rightarrow> string" where
  "json_object ms = ''{'' @ json_items json_member ms @ ''}''"

text \<open>
  Own keys of a plain object: canonical array indices first, ascending, then the other keys in
  insertion order.
\<close>

definition is_index_key :: "string \<Rightarrow> bool" where
  "is_index_key s \<longleftrightarrow> s \<noteq> [] \<and> list_all is_digit s \<and> (s = ''0'' \<or> hd s \<noteq> CHR ''0'') \<and> nat_of_digits s < 4294967295"

definition object_entries :: "(string \<times> 'v) list \<Rightarrow> (string \<times> 'v) list" where
  "object_entries m =
     sort_key (\<lambda>e. nat_of_digits (fst e)) (filter (\<lambda>e. is_index_key (fst e)) m)
     @ filter (\<lambda>e. \<not> is_index_key (fst e)) m"

section \<open>Decoding one escaped character\<close>

definition hex_val :: "char \<Rightarrow> nat" where
  "hex_val c = (let n = of_char c in if n < 58 then n - 48 else n - 87)"

definition json_unesc :: "string \<Rightarrow> (char \<times> string) option" where
  "json_unesc s = (case s of
       [] \<Rightarrow> None
     | c # r \<Rightarrow>
         if c \<noteq> CHR 0x5C then Some (c, r)
         else (case r of
                 [] \<Rightarrow> None
               | e # q \<Rightarrow>
                   if e = CHR ''b'' then Some (char_of (8 :: nat), q)
                   else if e = CHR ''t'' then Some (char_of (9 :: nat), q)
                   else if e = CHR ''n'' then Some (char_of (10 :: nat), q)
                   else if e = CHR ''f'' then Some (char_of (12 :: nat), q)
                   else if e = CHR ''r'' then Some (char_of (13 :: nat), q)
                   else if e = CHR ''u'' then Some (char_of (16 * hex_val (q ! 2) + hex_val (q ! 3)), drop 4 q)
                   else Some (e, q)))"

lemma hex_val_hex_digit: "d < 16 \<Longrightarrow> hex_val (hex_digit d) = d"
  by (auto simp: hex_val_def hex_digit_def Let_def)

lemma of_char_slash: "(of_char (CHR 0x5C) :: nat) = 92"
  by simp

lemma char_of_quotes: "char_of (92 :: nat) = CHR 0x5C" "char_of (34 :: nat) = CHR 0x22"
  by code_simp+

lemma json_unesc_esc: "json_unesc (json_esc c @ x) = Some (c, x)"
proof -
  define n where "n = (of_char c :: nat)"
  have c: "c = char_of n" and n: "n < 256" by (simp_all add: n_def)
  have slash: "c = CHR 0x5C \<longleftrightarrow> n = 92"
    unfolding n_def by (metis of_char_slash char_of_char)
  have special: "n \<in> {8, 9, 10, 12, 13, 34, 92} \<Longrightarrow> ?thesis"
    unfolding c json_esc_def by (auto simp: json_unesc_def Let_def char_of_quotes)
  moreover have "n \<notin> {8, 9, 10, 12, 13, 34, 92} \<Longrightarrow> n < 32 \<Longrightarrow> ?thesis"
  proof -
    assume a: "n \<notin> {8, 9, 10, 12, 13, 34, 92}" "n < 32"
    then have "json_esc c = [CHR 0x5C, CHR ''u'', CHR ''0'', CHR ''0'', hex_digit (n div 16), hex_digit (n mod 16)]"
      by (simp add: json_esc_def n_def Let_def)
    moreover have "hex_val (hex_digit (n div 16)) = n div 16" "hex_val (hex_digit (n mod 16)) = n mod 16"
      using a by (auto intro!: hex_val_hex_digit)
    ultimately show ?thesis using c by (simp add: json_unesc_def)
  qed
  moreover have "n \<notin> {8, 9, 10, 12, 13, 34, 92} \<Longrightarrow> \<not> n < 32 \<Longrightarrow> ?thesis"
    using slash by (simp add: json_esc_def n_def [symmetric] Let_def json_unesc_def)
  ultimately show ?thesis by blast
qed

lemma json_esc_delim: "json_esc c @ x = json_esc d @ y \<Longrightarrow> c = d \<and> x = y"
  by (metis Pair_inject json_unesc_esc option.inject)

lemma json_esc_head: "json_esc c = h # t \<Longrightarrow> h \<noteq> CHR 0x22"
proof
  assume a: "json_esc c = h # t" "h = CHR 0x22"
  then have "json_esc c = [c] \<and> (of_char c :: nat) \<noteq> 34"
    by (auto simp: json_esc_def Let_def split: if_splits)
  with a show False by auto
qed

lemma json_esc_not_Nil [simp]: "json_esc c \<noteq> []"
  by (simp add: json_esc_def Let_def)

section \<open>Self-delimiting encodings\<close>

definition self_delim :: "('a \<Rightarrow> string) \<Rightarrow> bool" where
  "self_delim enc \<longleftrightarrow> (\<forall>a b x y. enc a @ x = enc b @ y \<longrightarrow> a = b \<and> x = y)"

lemma self_delimD: "self_delim enc \<Longrightarrow> enc a @ x = enc b @ y \<Longrightarrow> a = b \<and> x = y"
  by (simp add: self_delim_def)

lemma json_string_body:
  "concat (map json_esc s) @ CHR 0x22 # x = concat (map json_esc t) @ CHR 0x22 # y \<Longrightarrow> s = t \<and> x = y"
proof (induction s arbitrary: t)
  case Nil
  show ?case
  proof (cases t)
    case (Cons d t')
    obtain h r where hr: "json_esc d = h # r" by (cases "json_esc d") auto
    then show ?thesis using Nil Cons json_esc_head [OF hr] by simp
  qed (use Nil in simp)
next
  case (Cons c s)
  show ?case
  proof (cases t)
    case Nil
    obtain h r where hr: "json_esc c = h # r" by (cases "json_esc c") auto
    then show ?thesis using Cons.prems Nil json_esc_head [OF hr] by simp
  next
    case t: (Cons d t')
    then have "c = d \<and> concat (map json_esc s) @ CHR 0x22 # x = concat (map json_esc t') @ CHR 0x22 # y"
      using Cons.prems by (intro json_esc_delim) simp
    then show ?thesis using Cons.IH [of t'] t by simp
  qed
qed

lemma json_string_self_delim: "self_delim json_string"
  unfolding self_delim_def by (auto simp: json_string_def dest: json_string_body)

lemma json_items_Cons:
  "xs \<noteq> [] \<Longrightarrow> json_items enc (x # xs) = enc x @ CHR '','' # json_items enc xs"
  by (cases xs) auto

lemma json_items_delim:
  assumes enc: "self_delim enc" and nb: "\<And>a. \<exists>h r. enc a = h # r \<and> h \<noteq> CHR '']''"
  shows "json_items enc xs @ CHR '']'' # u = json_items enc ys @ CHR '']'' # v \<Longrightarrow> xs = ys \<and> u = v"
proof (induction xs arbitrary: ys)
  case Nil
  show ?case
  proof (cases ys)
    case (Cons y ys')
    then show ?thesis using Nil nb [of y] by (cases ys') auto
  qed (use Nil in simp)
next
  case (Cons x xs)
  show ?case
  proof (cases ys)
    case Nil
    then show ?thesis using Cons.prems nb [of x] by (cases xs) auto
  next
    case ys: (Cons y ys')
    define tl where "tl zs = (if zs = [] then [] else CHR '','' # json_items enc zs)" for zs
    have it: "json_items enc (z # zs) = enc z @ tl zs" for z zs
      by (cases zs) (auto simp: tl_def)
    have "x = y \<and> tl xs @ CHR '']'' # u = tl ys' @ CHR '']'' # v"
      using Cons.prems by (intro self_delimD [OF enc]) (simp add: ys it)
    then show ?thesis using Cons.IH [of ys'] ys by (auto simp: tl_def split: if_splits)
  qed
qed

lemma json_array_self_delim:
  assumes "self_delim enc" "\<And>a. \<exists>h r. enc a = h # r \<and> h \<noteq> CHR '']''"
  shows "self_delim (json_array enc)"
  unfolding self_delim_def json_array_def using json_items_delim [OF assms] by auto

lemma json_string_head: "\<exists>h r. json_string a = h # r \<and> h \<noteq> CHR '']''"
  by (simp add: json_string_def)

lemma json_strings_self_delim: "self_delim (json_array json_string)"
  by (rule json_array_self_delim [OF json_string_self_delim json_string_head])

lemma json_array_inj: "json_array json_string xs = json_array json_string ys \<longleftrightarrow> xs = ys"
  using self_delimD [OF json_strings_self_delim, of xs "[]" ys "[]"] by auto

section \<open>Decimal strings are injective\<close>

lemma string_of_nat_inj: "string_of_nat m = string_of_nat n \<longleftrightarrow> m = n"
  by (metis nat_of_digits_string_of_nat)

lemma string_of_int_inj: "string_of_int i = string_of_int j \<longleftrightarrow> i = j"
proof -
  have "string_of_nat n \<noteq> CHR ''-'' # s" for n s
  proof
    assume "string_of_nat n = CHR ''-'' # s"
    then have "is_digit (CHR ''-'')" using string_of_nat_digits [of "CHR ''-''" n] by simp
    then show False by (simp add: is_digit_def)
  qed
  then show ?thesis
    by (auto simp: string_of_int_def string_of_nat_inj split: if_splits dest: sym)
qed

section \<open>Object entries\<close>

lemma mset_object_entries [simp]: "mset (object_entries m) = mset m"
proof -
  have "mset (object_entries m) = filter_mset (\<lambda>e. is_index_key (fst e)) (mset m)
      + filter_mset (\<lambda>e. \<not> is_index_key (fst e)) (mset m)"
    by (simp only: object_entries_def mset_append mset_sort mset_filter)
  also have "\<dots> = mset m" by (rule multiset_partition [symmetric])
  finally show ?thesis .
qed

lemma set_object_entries [simp]: "set (object_entries m) = set m"
  by (rule mset_eq_setD) simp

lemma distinct_object_entries [simp]: "distinct (map fst (object_entries m)) \<longleftrightarrow> distinct (map fst m)"
proof -
  have "mset (map fst (object_entries m)) = mset (map fst m)" by (simp only: mset_map mset_object_entries)
  then show ?thesis by (rule mset_eq_imp_distinct_iff)
qed

lemma map_of_object_entries: "distinct (map fst m) \<Longrightarrow> map_of (object_entries m) = map_of m"
  by (subst map_of_inject_set) simp_all

end
