(* ===== verification/Ledger_Client.thy ===== *)
theory Ledger_Client
  imports Ledger_Accounts Json
begin

text \<open>
  \<^verbatim>\<open>packages/ledger-client/src/client.ts\<close>: the identity key of an account, the checks every
  post passes before it reaches a book, and the fingerprint that tells a retry from a reuse of
  an idempotency key. SHA-256 is a parameter. The facts characterise every check without its
  loop, show when account keys determine accounts, and show what a fingerprint determines.
\<close>

section \<open>Keys and deltas\<close>

definition accountKey :: "account_ref \<Rightarrow> string" where
  "accountKey ref = owner_type_name (ownerType ref) @ '':'' @ ownerId ref @ '':'' @ assetId ref @ '':''
     @ kind_name (kind ref) @ '':'' @ accountPurpose ref"

definition signedDelta :: "entry_input \<Rightarrow> amount" where
  "signedDelta e = (if entry_direction e = Debit then entry_amount e else - entry_amount e)"

section \<open>Checks of a post\<close>

text \<open>The accumulating loop of \<open>assertBalanced\<close>: unsigned and non-zero, then added per asset.\<close>

fun per_asset :: "entry_input list \<Rightarrow> (string \<times> amount) list \<Rightarrow> ledger_error + (string \<times> amount) list" where
  "per_asset [] m = Inr m"
| "per_asset (e # es) m =
     (if entry_amount e < 0 then Inl InvalidEntryError
      else if entry_amount e = 0 then Inl InvalidEntryError
      else let a = assetId (entry_account e)
           in per_asset es (AList.update a (alist_get m a 0 + signedDelta e) m))"

definition assertBalanced :: "entry_input list \<Rightarrow> ledger_error + unit" where
  "assertBalanced entries =
     (if length entries < 2 then Inl InvalidEntryError
      else bindE (per_asset entries [])
        (\<lambda>perAsset. let offenders = filter (\<lambda>p. snd p \<noteq> 0 \<and> assignable (fst p)) perAsset
                     in if offenders \<noteq> [] then Inl (UnbalancedTransactionError offenders) else Inr ()))"

definition LOCK_KINDS :: "account_kind set" where
  "LOCK_KINDS = set LOCK_KIND_LIST"

definition owner_asset_key :: "account_ref \<Rightarrow> string" where
  "owner_asset_key ref = owner_type_name (ownerType ref) @ '':'' @ ownerId ref @ '':'' @ assetId ref"

fun lock_loop ::
  "entry_input list \<Rightarrow> (string \<times> amount) list \<Rightarrow> (string \<times> amount) list
   \<Rightarrow> ledger_error + (string \<times> amount) list \<times> (string \<times> amount) list" where
  "lock_loop [] gain given = Inr (gain, given)"
| "lock_loop (e # es) gain given =
     (let key = owner_asset_key (entry_account e);
          delta = signedDelta e
      in if kind (entry_account e) \<in> LOCK_KINDS then
           lock_loop es (if delta > 0 then AList.update key (alist_get gain key 0 + delta) gain else gain) given
         else if kind (entry_account e) = Available then
           lock_loop es gain (if delta < 0 then AList.update key (alist_get given key 0 - delta) given else given)
         else Inl InvalidEntryError)"

definition assertPairedLocks :: "entry_input list \<Rightarrow> ledger_error + unit" where
  "assertPairedLocks entries =
     bindE (lock_loop entries [] [])
       (\<lambda>(lockGain, availableGiven).
          forE (\<lambda>(key, gained). if alist_get availableGiven key 0 < gained then Inl InvalidEntryError else Inr ())
            lockGain)"

definition assertPurposedLockKinds :: "entry_input list \<Rightarrow> account_kind list \<Rightarrow> ledger_error + unit" where
  "assertPurposedLockKinds entries kinds =
     forE (\<lambda>e. if \<not> List.member kinds (kind (entry_account e)) then Inr ()
               else let purp = js_trim (case purpose (entry_account e) of None \<Rightarrow> [] | Some p \<Rightarrow> p)
                    in if length purp = 0 then Inl InvalidEntryError
                       else if starts_with ''legacy:'' purp then Inl InvalidEntryError
                       else Inr ()) entries"

definition assertPurposedHolds :: "entry_input list \<Rightarrow> ledger_error + unit" where
  "assertPurposedHolds entries = assertPurposedLockKinds entries [Hold]"

definition assertPurposedLocks :: "entry_input list \<Rightarrow> ledger_error + unit" where
  "assertPurposedLocks entries = assertPurposedLockKinds entries LOCK_KIND_LIST"

definition assertAvailableUnpurposed :: "entry_input list \<Rightarrow> ledger_error + unit" where
  "assertAvailableUnpurposed entries =
     forE (\<lambda>e. if kind (entry_account e) \<noteq> Available then Inr ()
               else (case purpose (entry_account e) of
                       None \<Rightarrow> Inr ()
                     | Some p \<Rightarrow> if length (js_trim p) > 0 then Inl InvalidEntryError else Inr ())) entries"

definition assertOwnerIdentifierSpace :: "entry_input list \<Rightarrow> ledger_error + unit" where
  "assertOwnerIdentifierSpace entries =
     forE (\<lambda>e. if \<not> isValidOwnerId (ownerType (entry_account e)) (ownerId (entry_account e))
               then Inl (OwnerIdentitySpaceError (ownerType (entry_account e)) (ownerId (entry_account e)))
               else Inr ()) entries"

definition assertIdempotencyKey :: "string option \<Rightarrow> ledger_error + unit" where
  "assertIdempotencyKey key = (case key of
       None \<Rightarrow> Inl InvalidEntryError
     | Some k \<Rightarrow> if k = [] \<or> length k < 8 then Inl InvalidEntryError else Inr ())"

definition IDEMPOTENCY_CONFLICT_CODE :: string where
  "IDEMPOTENCY_CONFLICT_CODE = ''ledger.idempotency_conflict''"

datatype idempotency_conflict_mode = Refuse | Detect

text \<open>What one entry moves, as the strings the fingerprint encodes.\<close>

definition fingerprint_fields :: "entry_input \<Rightarrow> string list" where
  "fingerprint_fields e =
     [owner_type_name (ownerType (entry_account e)), ownerId (entry_account e), assetId (entry_account e),
      kind_name (kind (entry_account e)),
      js_trim (case purpose (entry_account e) of None \<Rightarrow> [] | Some p \<Rightarrow> p),
      direction_name (entry_direction e), string_of_int (entry_amount e)]"

definition postFingerprint :: "(string \<Rightarrow> string) \<Rightarrow> post_request \<Rightarrow> string" where
  "postFingerprint sha256 request =
     (let entries = sort (map (\<lambda>e. json_array json_string (fingerprint_fields e)) (req_entries request));
          canonical = ''['' @ json_string (req_module request) @ '','' @ json_string (req_reason request) @ '',''
                      @ json_array json_string entries @ '']''
      in sha256 (''ledger-post-body-v1'' @ CHR 0x00 # canonical))"

definition assertValidPost :: "post_request \<Rightarrow> ledger_error + unit" where
  "assertValidPost request =
     bindE (assertIdempotencyKey (Some (idempotencyKey request))) (\<lambda>_.
     bindE (assertOwnerIdentifierSpace (req_entries request)) (\<lambda>_.
     bindE (assertBalanced (req_entries request)) (\<lambda>_.
     bindE (assertPairedLocks (req_entries request)) (\<lambda>_.
     bindE (assertPurposedLocks (req_entries request)) (\<lambda>_.
     assertAvailableUnpurposed (req_entries request))))))"

definition totalDebits :: "entry_input list \<Rightarrow> amount" where
  "totalDebits entries = sum_amount (map entry_amount (filter (\<lambda>e. entry_direction e = Debit) entries))"

section \<open>What the checks mean\<close>

text \<open>The net movement of an asset, and of an account key, in a list of entries.\<close>

definition asset_net :: "entry_input list \<Rightarrow> string \<Rightarrow> amount" where
  "asset_net es a = (\<Sum>e\<leftarrow>filter (\<lambda>e. assetId (entry_account e) = a) es. signedDelta e)"

definition key_net :: "entry_input list \<Rightarrow> string \<Rightarrow> amount" where
  "key_net es k = (\<Sum>e\<leftarrow>filter (\<lambda>e. accountKey (entry_account e) = k) es. signedDelta e)"

lemma asset_net_simps [simp]:
  "asset_net [] a = 0"
  "asset_net (e # es) a = (if assetId (entry_account e) = a then signedDelta e else 0) + asset_net es a"
  by (simp_all add: asset_net_def)

lemma key_net_simps [simp]:
  "key_net [] k = 0"
  "key_net (e # es) k = (if accountKey (entry_account e) = k then signedDelta e else 0) + key_net es k"
  by (simp_all add: key_net_def)

lemma asset_net_append: "asset_net (es @ fs) a = asset_net es a + asset_net fs a"
  by (simp add: asset_net_def)

lemma key_net_append: "key_net (es @ fs) k = key_net es k + key_net fs k"
  by (simp add: key_net_def)

lemma per_asset_Inr:
  "per_asset es m = Inr m' \<Longrightarrow>
     (\<forall>e \<in> set es. 0 < entry_amount e) \<and> (\<forall>a. alist_get m' a 0 = alist_get m a 0 + asset_net es a)
     \<and> (distinct (map fst m) \<longrightarrow> distinct (map fst m'))"
proof (induction es m rule: per_asset.induct)
  case (1 m)
  then show ?case by simp
next
  case (2 e es m)
  then show ?case
    by (auto simp: Let_def alist_get_update distinct_update split: if_splits)
qed

lemma per_asset_total:
  "\<forall>e \<in> set es. 0 < entry_amount e \<Longrightarrow> \<exists>m'. per_asset es m = Inr m'"
  by (induction es m rule: per_asset.induct) (auto simp: Let_def)

lemma per_asset_Inl: "per_asset es m = Inl e \<Longrightarrow> e = InvalidEntryError \<and> (\<exists>x \<in> set es. entry_amount x \<le> 0)"
  by (induction es m rule: per_asset.induct) (auto simp: Let_def split: if_splits)

lemma alist_get_all_zero:
  assumes "distinct (map fst m)"
  shows "(\<forall>p \<in> set m. P (fst p) \<longrightarrow> snd p = (0 :: int)) \<longleftrightarrow> (\<forall>a. P a \<longrightarrow> alist_get m a 0 = 0)"
proof
  assume "\<forall>p \<in> set m. P (fst p) \<longrightarrow> snd p = 0"
  then show "\<forall>a. P a \<longrightarrow> alist_get m a 0 = 0"
    by (auto simp: alist_get_def split: option.splits dest!: map_of_SomeD)
next
  assume z: "\<forall>a. P a \<longrightarrow> alist_get m a 0 = 0"
  show "\<forall>p \<in> set m. P (fst p) \<longrightarrow> snd p = 0"
  proof
    fix p assume "p \<in> set m"
    then have "map_of m (fst p) = Some (snd p)" using assms by (simp add: map_of_is_SomeI)
    then show "P (fst p) \<longrightarrow> snd p = 0" using z [rule_format, of "fst p"] by (simp add: alist_get_def)
  qed
qed

lemma assertBalanced_Inr:
  "assertBalanced es = Inr u \<longleftrightarrow>
     2 \<le> length es \<and> (\<forall>e \<in> set es. 0 < entry_amount e) \<and> (\<forall>a. assignable a \<longrightarrow> asset_net es a = 0)"
proof (cases "per_asset es []")
  case (Inl e)
  then have "\<not> (\<forall>e \<in> set es. 0 < entry_amount e)" using per_asset_Inl [OF Inl] by fastforce
  then show ?thesis using Inl by (simp add: assertBalanced_def)
next
  case (Inr m)
  note f = per_asset_Inr [OF Inr, simplified]
  have "filter (\<lambda>p. snd p \<noteq> 0 \<and> assignable (fst p)) m = [] \<longleftrightarrow> (\<forall>a. assignable a \<longrightarrow> asset_net es a = 0)"
    using f alist_get_all_zero [of m assignable] by (auto simp: filter_empty_conv)
  then show ?thesis using Inr f by (auto simp: assertBalanced_def Let_def)
qed

text \<open>Locked value created and spendable value given up under an owner-and-asset key.\<close>

definition lock_gain :: "entry_input list \<Rightarrow> string \<Rightarrow> amount" where
  "lock_gain es k = (\<Sum>e\<leftarrow>filter (\<lambda>e. owner_asset_key (entry_account e) = k \<and>
     kind (entry_account e) \<in> LOCK_KINDS \<and> 0 < signedDelta e) es. signedDelta e)"

definition available_given :: "entry_input list \<Rightarrow> string \<Rightarrow> amount" where
  "available_given es k = (\<Sum>e\<leftarrow>filter (\<lambda>e. owner_asset_key (entry_account e) = k \<and>
     kind (entry_account e) = Available \<and> signedDelta e < 0) es. - signedDelta e)"

definition known_kind :: "account_kind \<Rightarrow> bool" where
  "known_kind k \<longleftrightarrow> k \<in> LOCK_KINDS \<or> k = Available"

lemma LOCK_KINDS_eq [simp]: "LOCK_KINDS = {Hold, Escrow, Stake, Collateral}"
  by (simp add: LOCK_KINDS_def LOCK_KIND_LIST_eq insert_commute)

lemma lock_gain_simps [simp]:
  "lock_gain [] k = 0"
  "lock_gain (e # es) k = (if owner_asset_key (entry_account e) = k \<and> kind (entry_account e) \<in> LOCK_KINDS \<and>
     0 < signedDelta e then signedDelta e else 0) + lock_gain es k"
  by (simp_all add: lock_gain_def)

lemma available_given_simps [simp]:
  "available_given [] k = 0"
  "available_given (e # es) k = (if owner_asset_key (entry_account e) = k \<and> kind (entry_account e) = Available \<and>
     signedDelta e < 0 then - signedDelta e else 0) + available_given es k"
  by (simp_all add: available_given_def)

lemma lock_loop_Inr:
  "lock_loop es g v = Inr (g', v') \<Longrightarrow>
     (\<forall>e \<in> set es. known_kind (kind (entry_account e)))
     \<and> (\<forall>k. alist_get g' k 0 = alist_get g k 0 + lock_gain es k)
     \<and> (\<forall>k. alist_get v' k 0 = alist_get v k 0 + available_given es k)
     \<and> (distinct (map fst g) \<longrightarrow> distinct (map fst g'))"
proof (induction es g v rule: lock_loop.induct)
  case (1 g v)
  then show ?case by simp
next
  case (2 e es g v)
  consider (lock) "kind (entry_account e) \<in> LOCK_KINDS" | (av) "kind (entry_account e) = Available"
    | (other) "\<not> known_kind (kind (entry_account e))"
    unfolding known_kind_def by blast
  then show ?case
  proof cases
    case lock
    have "known_kind (kind (entry_account e))" "kind (entry_account e) \<noteq> Available"
      using lock by (auto simp: known_kind_def)
    then show ?thesis
      using "2.IH"(1) [OF refl refl lock] "2.prems" lock
      by (auto simp: Let_def alist_get_update distinct_update simp del: LOCK_KINDS_eq)
  next
    case av
    have "kind (entry_account e) \<notin> LOCK_KINDS" "known_kind (kind (entry_account e))"
      using av by (simp_all add: known_kind_def)
    then show ?thesis
      using "2.IH"(2) [OF refl refl _ av] "2.prems" av
      by (auto simp: Let_def alist_get_update simp del: LOCK_KINDS_eq)
  next
    case other
    then show ?thesis using "2.prems" by (auto simp: known_kind_def Let_def simp del: LOCK_KINDS_eq)
  qed
qed

lemma lock_loop_total:
  "\<forall>e \<in> set es. known_kind (kind (entry_account e)) \<Longrightarrow> \<exists>g' v'. lock_loop es g v = Inr (g', v')"
  by (induction es g v rule: lock_loop.induct) (auto simp: Let_def known_kind_def simp del: LOCK_KINDS_eq)

lemma lock_loop_Inl: "lock_loop es g v = Inl e \<Longrightarrow> \<exists>x \<in> set es. \<not> known_kind (kind (entry_account x))"
  using lock_loop_total [of es g v] by fastforce

lemma available_given_nonneg: "0 \<le> available_given es k"
  unfolding available_given_def by (rule sum_list_nonneg) auto

lemma assertPairedLocks_Inr:
  "assertPairedLocks es = Inr u \<longleftrightarrow>
     (\<forall>e \<in> set es. known_kind (kind (entry_account e))) \<and> (\<forall>k. lock_gain es k \<le> available_given es k)"
proof (cases "lock_loop es [] []")
  case (Inl e)
  then show ?thesis using lock_loop_Inl [OF Inl] by (simp add: assertPairedLocks_def)
next
  case (Inr gv)
  obtain g v where gv: "gv = (g, v)" by (cases gv)
  note f = lock_loop_Inr [OF Inr [unfolded gv], simplified]
  have "(\<forall>p \<in> set g. \<not> alist_get v (fst p) 0 < snd p) \<longleftrightarrow> (\<forall>k. lock_gain es k \<le> available_given es k)"
  proof
    assume a: "\<forall>p \<in> set g. \<not> alist_get v (fst p) 0 < snd p"
    show "\<forall>k. lock_gain es k \<le> available_given es k"
    proof
      fix k
      show "lock_gain es k \<le> available_given es k"
      proof (cases "map_of g k")
        case None
        then have "lock_gain es k = 0" using f by (metis alist_get_def option.case(1))
        then show ?thesis using available_given_nonneg by simp
      next
        case (Some x)
        then have "(k, x) \<in> set g" "lock_gain es k = x"
          using f by (auto simp: alist_get_def dest: map_of_SomeD split: option.splits)
        then show ?thesis using a f by fastforce
      qed
    qed
  next
    assume a: "\<forall>k. lock_gain es k \<le> available_given es k"
    show "\<forall>p \<in> set g. \<not> alist_get v (fst p) 0 < snd p"
    proof
      fix p assume "p \<in> set g"
      then have "map_of g (fst p) = Some (snd p)"
        using f by (intro map_of_is_SomeI) simp_all
      then have "alist_get g (fst p) 0 = snd p"
        by (simp add: alist_get_def)
      then show "\<not> alist_get v (fst p) 0 < snd p" using a [rule_format, of "fst p"] f by (simp add: not_less)
    qed
  qed
  then show ?thesis
    using Inr gv f by (simp add: assertPairedLocks_def split_def)
qed

lemma assertPurposedLockKinds_Inr:
  "assertPurposedLockKinds es kinds = Inr u \<longleftrightarrow>
     (\<forall>e \<in> set es. kind (entry_account e) \<in> set kinds \<longrightarrow>
        accountPurpose (entry_account e) \<noteq> [] \<and> \<not> starts_with ''legacy:'' (accountPurpose (entry_account e)))"
  by (auto simp: assertPurposedLockKinds_def Let_def accountPurpose_def List.member_iff)

lemma assertPurposedLocks_Inr:
  "assertPurposedLocks es = Inr u \<longleftrightarrow>
     (\<forall>e \<in> set es. kind (entry_account e) \<in> LOCK_KINDS \<longrightarrow>
        accountPurpose (entry_account e) \<noteq> [] \<and> \<not> starts_with ''legacy:'' (accountPurpose (entry_account e)))"
  by (simp add: assertPurposedLocks_def assertPurposedLockKinds_Inr LOCK_KIND_LIST_eq)

lemma assertAvailableUnpurposed_Inr:
  "assertAvailableUnpurposed es = Inr u \<longleftrightarrow>
     (\<forall>e \<in> set es. kind (entry_account e) = Available \<longrightarrow> accountPurpose (entry_account e) = [])"
proof -
  have t: "js_trim [] = []" by (simp add: js_trim_def)
  show ?thesis
    by (auto simp: assertAvailableUnpurposed_def accountPurpose_def t split: option.splits if_splits)
qed

lemma assertOwnerIdentifierSpace_Inr:
  "assertOwnerIdentifierSpace es = Inr u \<longleftrightarrow>
     (\<forall>e \<in> set es. isValidOwnerId (ownerType (entry_account e)) (ownerId (entry_account e)))"
  by (auto simp: assertOwnerIdentifierSpace_def)

lemma assertIdempotencyKey_Inr: "assertIdempotencyKey (Some k) = Inr u \<longleftrightarrow> 8 \<le> length k"
  by (auto simp: assertIdempotencyKey_def)

text \<open>A reference the checks accept.\<close>

definition good_ref :: "account_ref \<Rightarrow> bool" where
  "good_ref r \<longleftrightarrow> known_kind (kind r) \<and>
     (if kind r = Available then accountPurpose r = []
      else accountPurpose r \<noteq> [] \<and> \<not> starts_with ''legacy:'' (accountPurpose r))"

lemma good_entries_iff:
  "(\<forall>e \<in> set es. good_ref (entry_account e)) \<longleftrightarrow>
     (\<forall>e \<in> set es. known_kind (kind (entry_account e))) \<and>
     assertPurposedLocks es = Inr () \<and> assertAvailableUnpurposed es = Inr ()"
proof -
  have "good_ref r \<longleftrightarrow> known_kind (kind r)
      \<and> (kind r \<in> LOCK_KINDS \<longrightarrow> accountPurpose r \<noteq> [] \<and> \<not> starts_with ''legacy:'' (accountPurpose r))
      \<and> (kind r = Available \<longrightarrow> accountPurpose r = [])" for r
    by (cases "kind r") (simp_all add: good_ref_def known_kind_def)
  then show ?thesis unfolding assertPurposedLocks_Inr assertAvailableUnpurposed_Inr by blast
qed

lemma assertValidPost_Inr:
  "assertValidPost r = Inr u \<longleftrightarrow>
     8 \<le> length (idempotencyKey r) \<and> 2 \<le> length (req_entries r)
     \<and> (\<forall>e \<in> set (req_entries r). isValidOwnerId (ownerType (entry_account e)) (ownerId (entry_account e))
          \<and> 0 < entry_amount e \<and> good_ref (entry_account e))
     \<and> (\<forall>a. assignable a \<longrightarrow> asset_net (req_entries r) a = 0)
     \<and> (\<forall>k. lock_gain (req_entries r) k \<le> available_given (req_entries r) k)"
proof -
  have "assertValidPost r = Inr u \<longleftrightarrow> 8 \<le> length (idempotencyKey r)
     \<and> assertOwnerIdentifierSpace (req_entries r) = Inr () \<and> assertBalanced (req_entries r) = Inr ()
     \<and> assertPairedLocks (req_entries r) = Inr () \<and> assertPurposedLocks (req_entries r) = Inr ()
     \<and> assertAvailableUnpurposed (req_entries r) = Inr ()"
    unfolding assertValidPost_def bindE_eq_Inr assertIdempotencyKey_Inr by (simp add: assertIdempotencyKey_Inr)
  also have "\<dots> \<longleftrightarrow> 8 \<le> length (idempotencyKey r) \<and> assertOwnerIdentifierSpace (req_entries r) = Inr ()
     \<and> assertBalanced (req_entries r) = Inr () \<and> (\<forall>k. lock_gain (req_entries r) k \<le> available_given (req_entries r) k)
     \<and> (\<forall>e \<in> set (req_entries r). good_ref (entry_account e))"
    unfolding assertPairedLocks_Inr good_entries_iff by blast
  finally show ?thesis
    unfolding assertOwnerIdentifierSpace_Inr assertBalanced_Inr by blast
qed

section \<open>When keys determine accounts\<close>

text \<open>
  An account key is a colon-separated string whose parts may contain colons. It determines the
  account when the asset id has no colon and neither it nor a segment of the owner id is the
  name of a kind: the first kind name in the key is then its kind field.
\<close>

definition kind_names :: "string list" where
  "kind_names = map kind_name ACCOUNT_KINDS"

definition key_safe :: "account_ref \<Rightarrow> bool" where
  "key_safe r \<longleftrightarrow> known_kind (kind r) \<and> CHR '':'' \<notin> set (assetId r) \<and> assetId r \<notin> set kind_names
     \<and> (\<forall>s \<in> set (segs (ownerId r)). s \<notin> set kind_names)"

lemma kind_names_eq: "kind_names = [''available'', ''hold'', ''escrow'', ''stake'', ''collateral'']"
  by (simp add: kind_names_def ACCOUNT_KINDS_def)

lemma owner_type_name_facts:
  "segs (owner_type_name t) = [owner_type_name t]" "owner_type_name t \<notin> set kind_names"
  by (cases t; simp add: kind_names_eq)+

lemma owner_type_name_inj: "owner_type_name s = owner_type_name t \<longleftrightarrow> s = t"
  by (cases s; cases t) simp_all

lemma kind_name_facts:
  assumes "known_kind k"
  shows "segs (kind_name k) = [kind_name k]" "kind_name k \<in> set kind_names"
  using assms by (cases k; simp add: known_kind_def kind_names_eq)+

lemma kind_name_inj: "known_kind k \<Longrightarrow> known_kind l \<Longrightarrow> kind_name k = kind_name l \<longleftrightarrow> k = l"
  by (cases k; cases l) (simp_all add: known_kind_def)

lemma segs_accountKey:
  assumes "key_safe r"
  shows "segs (accountKey r) = (owner_type_name (ownerType r) # segs (ownerId r) @ [assetId r])
    @ kind_name (kind r) # segs (accountPurpose r)"
  using assms kind_name_facts(1) [of "kind r"] owner_type_name_facts(1) [of "ownerType r"]
  by (simp add: accountKey_def key_safe_def segs_append_colon segs_no_colon)

lemma accountKey_inj_parts:
  assumes r: "key_safe r" and s: "key_safe s" and k: "accountKey r = accountKey s"
  shows "ownerType r = ownerType s" "ownerId r = ownerId s" "assetId r = assetId s" "kind r = kind s"
    "accountPurpose r = accountPurpose s"
proof -
  define pre where "pre r = owner_type_name (ownerType r) # segs (ownerId r) @ [assetId r]" for r :: account_ref
  let ?P = "\<lambda>x. x \<notin> set kind_names"
  have tw: "takeWhile ?P (segs (accountKey r)) = pre r"
    "dropWhile ?P (segs (accountKey r)) = kind_name (kind r) # segs (accountPurpose r)" if "key_safe r" for r
  proof -
    have e: "segs (accountKey r) = pre r @ kind_name (kind r) # segs (accountPurpose r)"
      using segs_accountKey [OF that] by (simp add: pre_def)
    have all: "\<And>x. x \<in> set (pre r) \<Longrightarrow> ?P x"
      using that owner_type_name_facts(2) by (auto simp: key_safe_def pre_def)
    have kn: "kind_name (kind r) \<in> set kind_names"
      using that kind_name_facts(2) by (simp add: key_safe_def)
    show "takeWhile ?P (segs (accountKey r)) = pre r"
      unfolding e using all kn by (subst takeWhile_append2) auto
    show "dropWhile ?P (segs (accountKey r)) = kind_name (kind r) # segs (accountPurpose r)"
      unfolding e using all kn by (subst dropWhile_append2) auto
  qed
  have p: "pre r = pre s" using tw(1) [OF r] tw(1) [OF s] k by simp
  have d: "kind_name (kind r) # segs (accountPurpose r) = kind_name (kind s) # segs (accountPurpose s)"
    using tw(2) [OF r] tw(2) [OF s] k by simp
  show "ownerType r = ownerType s" "ownerId r = ownerId s" "assetId r = assetId s"
    using p by (simp_all add: pre_def owner_type_name_inj segs_inj)
  show "kind r = kind s" using d r s kind_name_inj by (simp add: key_safe_def)
  show "accountPurpose r = accountPurpose s" using d by (simp add: segs_inj)
qed

lemma accountKey_owner_type: "accountKey r = accountKey s \<Longrightarrow> ownerType r = ownerType s"
proof -
  assume a: "accountKey r = accountKey s"
  have "takeWhile (\<lambda>c. c \<noteq> CHR '':'') (accountKey q) = owner_type_name (ownerType q)" for q
    by (cases "ownerType q") (simp_all add: accountKey_def)
  then show ?thesis using a owner_type_name_inj by metis
qed

section \<open>What a fingerprint determines\<close>

text \<open>The movement of an entry: everything but the spelling of its purpose.\<close>

definition movement :: "entry_input \<Rightarrow> owner_type \<times> string \<times> string \<times> string \<times> string \<times> direction \<times> amount" where
  "movement e = (ownerType (entry_account e), ownerId (entry_account e), assetId (entry_account e),
     kind_name (kind (entry_account e)), accountPurpose (entry_account e), entry_direction e, entry_amount e)"

definition same_body :: "post_request \<Rightarrow> post_request \<Rightarrow> bool" where
  "same_body r s \<longleftrightarrow> req_module r = req_module s \<and> req_reason r = req_reason s
     \<and> mset (map movement (req_entries r)) = mset (map movement (req_entries s))"

definition enc_movement :: "owner_type \<times> string \<times> string \<times> string \<times> string \<times> direction \<times> amount \<Rightarrow> string" where
  "enc_movement = (\<lambda>(t, i, a, k, p, d, v).
     json_array json_string [owner_type_name t, i, a, k, p, direction_name d, string_of_int v])"

lemma enc_movement_inj: "inj enc_movement"
proof (rule injI)
  fix x y assume a: "enc_movement x = enc_movement y"
  obtain t i as k p d v where x: "x = (t, i, as, k, p, d, v)" by (cases x) auto
  obtain t' i' as' k' p' d' v' where y: "y = (t', i', as', k', p', d', v')" by (cases y) auto
  have "direction_name d = direction_name d' \<Longrightarrow> d = d'" by (cases d; cases d') simp_all
  then show "x = y"
    using a unfolding enc_movement_def x y
    by (simp add: json_array_inj owner_type_name_inj string_of_int_inj)
qed

lemma fingerprint_fields_movement:
  "json_array json_string (fingerprint_fields e) = enc_movement (movement e)"
  by (simp add: fingerprint_fields_def enc_movement_def movement_def accountPurpose_def)

lemma postFingerprint_eq_iff:
  assumes "inj sha256"
  shows "postFingerprint sha256 r = postFingerprint sha256 s \<longleftrightarrow> same_body r s"
proof -
  define enc where "enc r = sort (map (\<lambda>e. json_array json_string (fingerprint_fields e)) (req_entries r))"
    for r :: post_request
  have fp: "postFingerprint sha256 r = sha256 (''ledger-post-body-v1'' @ CHR 0x00 # ''['' @
      json_string (req_module r) @ '','' @ json_string (req_reason r) @ '','' @ json_array json_string (enc r) @ '']'')" for r
    by (simp add: postFingerprint_def Let_def enc_def)
  have "postFingerprint sha256 r = postFingerprint sha256 s \<longleftrightarrow>
      json_string (req_module r) @ '','' @ json_string (req_reason r) @ '','' @ json_array json_string (enc r) @ '']'' =
      json_string (req_module s) @ '','' @ json_string (req_reason s) @ '','' @ json_array json_string (enc s) @ '']''"
    unfolding fp by (simp add: inj_eq [OF assms])
  also have "\<dots> \<longleftrightarrow> req_module r = req_module s \<and> req_reason r = req_reason s \<and> enc r = enc s"
    using self_delimD [OF json_string_self_delim] self_delimD [OF json_strings_self_delim]
    by (metis append_Cons append_Nil list.inject)
  also have "enc r = enc s \<longleftrightarrow> mset (map movement (req_entries r)) = mset (map movement (req_entries s))"
  proof -
    have "mset (enc q) = image_mset enc_movement (mset (map movement (req_entries q)))" for q
      by (simp add: enc_def fingerprint_fields_movement multiset.map_comp comp_def)
    moreover have "enc r = enc s \<longleftrightarrow> mset (enc r) = mset (enc s)"
      by (metis enc_def mset_sort properties_for_sort sorted_sort)
    ultimately show ?thesis
      by (metis enc_movement_inj injD multiset.inj_map)
  qed
  finally show ?thesis by (simp add: same_body_def)
qed

end
