(* ===== verification/Ledger_Memory.thy ===== *)
theory Ledger_Memory
  imports Ledger_Client
begin

text \<open>
  \<^verbatim>\<open>packages/ledger-client/src/memory-ledger.ts\<close> and \<^verbatim>\<open>sharding.ts\<close>: the reference ledger.
  The state record has one field per private field of the class; \<open>ml_uuids\<close> and \<open>ml_clock\<close>
  count the draws from \<open>crypto.randomUUID\<close> and \<open>new Date\<close>, which together with SHA-256 are the
  fields of \<open>env\<close>. A date is the string its \<open>toISOString\<close> gives. Every operation returns the
  new state beside its result, a throw included, so what a refused post leaves behind is part of
  the model.
\<close>

section \<open>Environment and state\<close>

record env =
  sha256 :: "string \<Rightarrow> string"
  randomUUID :: "nat \<Rightarrow> string"
  now :: "nat \<Rightarrow> string"

record mem_ledger =
  ml_accounts :: "(string \<times> ledger_account) list"
  ml_balances :: "(string \<times> amount) list"
  ml_txs :: "(string \<times> ledger_tx) list"
  ml_txByKey :: "(string \<times> string) list"
  ml_fingerprintByKey :: "(string \<times> string) list"
  ml_conflict :: idempotency_conflict_mode
  ml_txOrder :: "string list"
  ml_tip :: "string option"
  ml_assetTips :: "(string \<times> string) list"
  ml_uuids :: nat
  ml_clock :: nat

definition empty_ledger :: "idempotency_conflict_mode \<Rightarrow> mem_ledger" where
  "empty_ledger mode = \<lparr>ml_accounts = [], ml_balances = [], ml_txs = [], ml_txByKey = [],
     ml_fingerprintByKey = [], ml_conflict = mode, ml_txOrder = [], ml_tip = None, ml_assetTips = [],
     ml_uuids = 0, ml_clock = 0\<rparr>"

section \<open>Hashes\<close>

definition entry_hash_fields :: "posted_entry \<Rightarrow> (string \<times> string) list" where
  "entry_hash_fields e =
     [(''accountId'', json_string (pe_accountId e)), (''assetId'', json_string (pe_assetId e)),
      (''direction'', json_string (direction_name (pe_direction e))),
      (''amount'', json_string (formatAmount (pe_amount e)))]"

definition hashAssetTx ::
  "(string \<Rightarrow> string) \<Rightarrow> string \<Rightarrow> string \<Rightarrow> string \<Rightarrow> string \<Rightarrow> posted_entry list \<Rightarrow> string \<Rightarrow> string option \<Rightarrow> string" where
  "hashAssetTx sha txId modul reason postedAt entries asset previousHash =
     (let es = map (\<lambda>e. json_object (entry_hash_fields e @ [(''balanceAfter'', json_string (formatAmount (pe_balanceAfter e)))]))
                 (filter (\<lambda>e. pe_assetId e = asset) entries);
          canonical = json_object
            [(''assetId'', json_string asset), (''id'', json_string txId), (''module'', json_string modul),
             (''reason'', json_string reason), (''postedAt'', json_string postedAt), (''entries'', json_array id es)]
      in sha (''ledger-asset-shard'' @ CHR 0x00 # (case previousHash of None \<Rightarrow> [] | Some h \<Rightarrow> h)
              @ CHR 0x00 # canonical))"

definition crossShardAnchor :: "(string \<Rightarrow> string) \<Rightarrow> (string \<times> string) list \<Rightarrow> string" where
  "crossShardAnchor sha tips =
     sha (''ledger-cross-shard-anchor'' @ CHR 0x00 #
       json_array (\<lambda>a. json_array json_string [a, alist_get tips a []]) (sort (map fst tips)))"

definition assetIds :: "posted_entry list \<Rightarrow> string list" where
  "assetIds entries = sort (js_set (map pe_assetId entries))"

definition hashTx ::
  "(string \<Rightarrow> string) \<Rightarrow> string \<Rightarrow> string \<Rightarrow> string \<Rightarrow> string \<Rightarrow> posted_entry list
   \<Rightarrow> (string \<times> string) list option \<Rightarrow> (string \<times> string option) list option \<Rightarrow> string option
   \<Rightarrow> string option \<Rightarrow> string" where
  "hashTx sha txId modul reason postedAt entries assetHashes previousAssetHashes anchor previousHash =
     (let canonical = json_object
        ([(''id'', json_string txId), (''module'', json_string modul), (''reason'', json_string reason),
          (''postedAt'', json_string postedAt),
          (''entries'', json_array (\<lambda>e. json_object (entry_hash_fields e)) entries)]
         @ (case assetHashes of None \<Rightarrow> [] | Some hs \<Rightarrow>
              [(''assetHashes'', json_object (map (\<lambda>(k, v). (k, json_string v)) (object_entries hs)))])
         @ (case previousAssetHashes of None \<Rightarrow> [] | Some hs \<Rightarrow>
              [(''previousAssetHashes'', json_object (map (\<lambda>(k, v). (k, json_option v)) (object_entries hs)))])
         @ (case anchor of None \<Rightarrow> [] | Some h \<Rightarrow> [(''crossShardAnchor'', json_string h)]))
      in sha ((case previousHash of None \<Rightarrow> [] | Some h \<Rightarrow> h) @ '' '' @ canonical))"

text \<open>\<open>hashTx\<close> of a posted transaction, over the fields it stores.\<close>

definition hash_of_tx :: "(string \<Rightarrow> string) \<Rightarrow> ledger_tx \<Rightarrow> string option \<Rightarrow> string" where
  "hash_of_tx sha tx prev =
     hashTx sha (tx_id tx) (tx_module tx) (tx_reason tx) (tx_postedAt tx) (tx_entries tx)
       (tx_assetHashes tx) (tx_previousAssetHashes tx) (tx_crossShardAnchor tx) prev"

section \<open>Posting\<close>

definition canGoNegative :: "account_ref \<Rightarrow> bool" where
  "canGoNegative ref \<longleftrightarrow> ownerType ref = Treasury"

text \<open>The locals of \<open>post\<close> while it stages.\<close>

record stage =
  st_staged :: "(string \<times> amount) list"
  st_pending :: "(string \<times> ledger_account) list"
  st_entries :: "posted_entry list"
  st_uuids :: nat
  st_clock :: nat

definition stageAccount :: "env \<Rightarrow> mem_ledger \<Rightarrow> account_ref \<Rightarrow> stage \<Rightarrow> ledger_account \<times> stage" where
  "stageAccount env ml ref st =
     (let key = accountKey ref in
      case map_of (ml_accounts ml) key of
        Some a \<Rightarrow> (a, st)
      | None \<Rightarrow>
          (case map_of (st_pending st) key of
             Some a \<Rightarrow> (a, st)
           | None \<Rightarrow>
               let a = \<lparr>ownerType = ownerType ref, ownerId = ownerId ref, assetId = assetId ref, kind = kind ref,
                        purpose = purpose ref, acc_id = randomUUID env (st_uuids st),
                        acc_createdAt = now env (st_clock st)\<rparr>
               in (a, st\<lparr>st_pending := AList.update key a (st_pending st),
                         st_uuids := Suc (st_uuids st), st_clock := Suc (st_clock st)\<rparr>)))"

fun stage_entries ::
  "env \<Rightarrow> mem_ledger \<Rightarrow> string \<Rightarrow> entry_input list \<Rightarrow> stage \<Rightarrow> stage \<times> ledger_error option" where
  "stage_entries env ml txId [] st = (st, None)"
| "stage_entries env ml txId (e # es) st =
     (let live = map_of (ml_accounts ml) (accountKey (entry_account e));
          (account, st1) = stageAccount env ml (entry_account e) st;
          held = (case live of None \<Rightarrow> 0 | Some a \<Rightarrow> alist_get (ml_balances ml) (acc_id a) 0);
          current = alist_get (st_staged st1) (acc_id account) held;
          nxt = current + signedDelta e
      in if nxt < 0 \<and> \<not> canGoNegative (entry_account e)
         then (st1, Some (InsufficientFundsError (case live of None \<Rightarrow> [] | Some a \<Rightarrow> acc_id a)
                 (assetId (entry_account e)) (entry_amount e) held))
         else stage_entries env ml txId es
           (st1\<lparr>st_staged := AList.update (acc_id account) nxt (st_staged st1),
                st_entries := st_entries st1 @
                  [\<lparr>pe_id = randomUUID env (st_uuids st1), pe_txId = txId, pe_accountId = acc_id account,
                    pe_assetId = assetId (entry_account e), pe_direction = entry_direction e,
                    pe_amount = entry_amount e, pe_balanceAfter = nxt\<rparr>],
                st_uuids := Suc (st_uuids st1)\<rparr>))"

definition post_asset_hashes :: "env \<Rightarrow> mem_ledger \<Rightarrow> string \<Rightarrow> post_request \<Rightarrow> string \<Rightarrow> posted_entry list \<Rightarrow> (string \<times> string) list" where
  "post_asset_hashes env ml txId request postedAt entries =
     map (\<lambda>a. (a, hashAssetTx (sha256 env) txId (req_module request) (req_reason request) postedAt entries a
                    (map_of (ml_assetTips ml) a))) (filter assignable (assetIds entries))"

definition post_tx :: "env \<Rightarrow> mem_ledger \<Rightarrow> post_request \<Rightarrow> string \<Rightarrow> string \<Rightarrow> posted_entry list \<Rightarrow> ledger_tx" where
  "post_tx env ml request txId postedAt entries =
     (let previousAssetHashes = map (\<lambda>a. (a, map_of (ml_assetTips ml) a)) (filter assignable (assetIds entries));
          assetHashes = post_asset_hashes env ml txId request postedAt entries;
          anchor = crossShardAnchor (sha256 env) assetHashes
      in \<lparr>tx_id = txId, tx_idempotencyKey = idempotencyKey request, tx_module = req_module request,
          tx_reason = req_reason request,
          tx_meta = (case req_meta request of None \<Rightarrow> [] | Some m \<Rightarrow> m), tx_postedAt = postedAt,
          tx_hash = hashTx (sha256 env) txId (req_module request) (req_reason request) postedAt entries
                      (Some assetHashes) (Some previousAssetHashes) (Some anchor) (ml_tip ml),
          tx_previousHash = ml_tip ml, tx_entries = entries, tx_assetHashes = Some assetHashes,
          tx_previousAssetHashes = Some previousAssetHashes, tx_crossShardAnchor = Some anchor\<rparr>)"

definition commit ::
  "env \<Rightarrow> mem_ledger \<Rightarrow> post_request \<Rightarrow> stage \<Rightarrow> (string \<times> string) list \<Rightarrow> ledger_tx \<Rightarrow> mem_ledger" where
  "commit env ml request st assetHashes tx =
     ml\<lparr>ml_assetTips := set_all (object_entries assetHashes) (ml_assetTips ml),
        ml_accounts := set_all (st_pending st) (ml_accounts ml),
        ml_balances := set_all (st_staged st) (ml_balances ml),
        ml_txs := AList.update (tx_id tx) tx (ml_txs ml),
        ml_txByKey := AList.update (tx_idempotencyKey tx) (tx_id tx) (ml_txByKey ml),
        ml_fingerprintByKey :=
          AList.update (tx_idempotencyKey tx) (postFingerprint (sha256 env) request) (ml_fingerprintByKey ml),
        ml_txOrder := ml_txOrder ml @ [tx_id tx],
        ml_tip := Some (tx_hash tx),
        ml_uuids := st_uuids st, ml_clock := Suc (st_clock st)\<rparr>"

text \<open>The part of \<open>post\<close> after the request was validated: stage, hash, commit.\<close>

definition init_stage :: "mem_ledger \<Rightarrow> stage" where
  "init_stage ml = \<lparr>st_staged = [], st_pending = [], st_entries = [], st_uuids = Suc (ml_uuids ml), st_clock = ml_clock ml\<rparr>"

definition book :: "env \<Rightarrow> mem_ledger \<Rightarrow> post_request \<Rightarrow> mem_ledger \<times> (ledger_error + ledger_tx)" where
  "book env ml request =
     (let txId = randomUUID env (ml_uuids ml)
      in case stage_entries env ml txId (req_entries request) (init_stage ml) of
           (st, Some err) \<Rightarrow> (ml\<lparr>ml_uuids := st_uuids st, ml_clock := st_clock st\<rparr>, Inl err)
         | (st, None) \<Rightarrow>
             let postedAt = now env (st_clock st);
                 assetHashes = post_asset_hashes env ml txId request postedAt (st_entries st);
                 tx = post_tx env ml request txId postedAt (st_entries st)
             in (commit env ml request st assetHashes tx, Inr tx))"

definition post :: "env \<Rightarrow> mem_ledger \<Rightarrow> post_request \<Rightarrow> mem_ledger \<times> (ledger_error + ledger_tx)" where
  "post env ml request =
     (case assertIdempotencyKey (Some (idempotencyKey request)) of
        Inl e \<Rightarrow> (ml, Inl e)
      | Inr _ \<Rightarrow>
          (case map_of (ml_txByKey ml) (idempotencyKey request) of
             Some existingId \<Rightarrow>
               if existingId \<noteq> [] then
                 (case map_of (ml_txs ml) existingId of
                    None \<Rightarrow> (ml, Inl (LedgerError ''ledger.corrupt_index''))
                  | Some existing \<Rightarrow>
                      if map_of (ml_fingerprintByKey ml) (idempotencyKey request)
                           \<noteq> Some (postFingerprint (sha256 env) request)
                         \<and> ml_conflict ml = Refuse
                      then (ml, Inl (LedgerError IDEMPOTENCY_CONFLICT_CODE))
                      else (ml, Inr existing))
               else (case assertValidPost request of Inl e \<Rightarrow> (ml, Inl e) | Inr _ \<Rightarrow> book env ml request)
           | None \<Rightarrow> (case assertValidPost request of Inl e \<Rightarrow> (ml, Inl e) | Inr _ \<Rightarrow> book env ml request)))"

section \<open>Reading\<close>

definition balance :: "mem_ledger \<Rightarrow> account_ref \<Rightarrow> ledger_balance" where
  "balance ml ref = (case map_of (ml_accounts ml) (accountKey ref) of
       None \<Rightarrow> \<lparr>bal_account = ref, bal_accountId = [], bal_amount = 0\<rparr>
     | Some a \<Rightarrow> \<lparr>bal_account = ref, bal_accountId = acc_id a, bal_amount = alist_get (ml_balances ml) (acc_id a) 0\<rparr>)"

definition ref_of :: "ledger_account \<Rightarrow> account_ref" where
  "ref_of a = mk_ref (ownerType a) (ownerId a) (assetId a) (kind a) (purpose a)"

definition balances :: "mem_ledger \<Rightarrow> owner_type \<Rightarrow> string \<Rightarrow> ledger_balance list" where
  "balances ml t i =
     map (\<lambda>a. \<lparr>bal_account = ref_of a, bal_accountId = acc_id a, bal_amount = alist_get (ml_balances ml) (acc_id a) 0\<rparr>)
       (filter (\<lambda>a. \<not> (ownerType a \<noteq> t \<or> ownerId a \<noteq> i)) (map snd (ml_accounts ml)))"

definition getTx :: "mem_ledger \<Rightarrow> string \<Rightarrow> ledger_tx option" where
  "getTx ml txId = map_of (ml_txs ml) txId"

definition getTxByKey :: "mem_ledger \<Rightarrow> string \<Rightarrow> ledger_tx option" where
  "getTxByKey ml key = (case map_of (ml_txByKey ml) key of
       None \<Rightarrow> None
     | Some i \<Rightarrow> if i \<noteq> [] then map_of (ml_txs ml) i else None)"

section \<open>Reconciliation\<close>

definition journal :: "mem_ledger \<Rightarrow> ledger_tx list" where
  "journal ml = List.map_filter (map_of (ml_txs ml)) (ml_txOrder ml)"

definition posted_delta :: "posted_entry \<Rightarrow> amount" where
  "posted_delta e = (if pe_direction e = Debit then pe_amount e else - pe_amount e)"

definition replay :: "ledger_tx list \<Rightarrow> (string \<times> amount) list" where
  "replay txs = foldl (\<lambda>m e. AList.update (pe_accountId e) (alist_get m (pe_accountId e) 0 + posted_delta e) m) []
     (concat (map tx_entries txs))"

text \<open>The drift list; the ledger is consistent when it is empty.\<close>

definition reconcile :: "mem_ledger \<Rightarrow> (string \<times> string \<times> string) list" where
  "reconcile ml =
     (let replayed = replay (journal ml);
          ids = js_set (map fst (ml_balances ml) @ map fst replayed)
      in map (\<lambda>i. (i, formatAmount (alist_get (ml_balances ml) i 0), formatAmount (alist_get replayed i 0)))
           (filter (\<lambda>i. alist_get (ml_balances ml) i 0 \<noteq> alist_get replayed i 0) ids))"

fun verify_assets ::
  "env \<Rightarrow> ledger_tx \<Rightarrow> (string \<times> string) list \<Rightarrow> (string \<times> string option) list \<Rightarrow> string list
   \<Rightarrow> (string \<times> string) list \<Rightarrow> (string \<times> string) list option" where
  "verify_assets env tx hs ps [] tips = Some tips"
| "verify_assets env tx hs ps (a # as) tips =
     (let priorTip = map_of tips a;
          claimedParent = alist_get ps a None
      in if claimedParent \<noteq> priorTip then None
         else let expected = hashAssetTx (sha256 env) (tx_id tx) (tx_module tx) (tx_reason tx) (tx_postedAt tx)
                               (tx_entries tx) a priorTip
              in if map_of hs a \<noteq> Some expected then None
                 else verify_assets env tx hs ps as (AList.update a expected tips))"

definition verify_tx ::
  "env \<Rightarrow> string option \<Rightarrow> (string \<times> string) list \<Rightarrow> ledger_tx \<Rightarrow> (string option \<times> (string \<times> string) list) option" where
  "verify_tx env prev tips tx =
     (if tx_previousHash tx \<noteq> prev \<or> tx_hash tx \<noteq> hash_of_tx (sha256 env) tx prev then None
      else if tx_assetHashes tx \<noteq> None \<or> tx_previousAssetHashes tx \<noteq> None \<or> tx_crossShardAnchor tx \<noteq> None then
        (case (tx_assetHashes tx, tx_previousAssetHashes tx) of
           (Some hs, Some ps) \<Rightarrow>
             (case verify_assets env tx hs ps
                     (js_set (assetIds (tx_entries tx) @ map fst (object_entries hs) @ map fst (object_entries ps))) tips of
                None \<Rightarrow> None
              | Some tips' \<Rightarrow>
                  if tx_crossShardAnchor tx \<noteq> Some (crossShardAnchor (sha256 env) hs) then None
                  else Some (Some (tx_hash tx), tips'))
         | _ \<Rightarrow> None)
      else Some (Some (tx_hash tx), tips))"

text \<open>\<open>Inl\<close> names the transaction where the chain breaks, \<open>Inr\<close> carries the final tips.\<close>

fun verify_loop ::
  "env \<Rightarrow> string option \<Rightarrow> (string \<times> string) list \<Rightarrow> ledger_tx list
   \<Rightarrow> string + string option \<times> (string \<times> string) list" where
  "verify_loop env prev tips [] = Inr (prev, tips)"
| "verify_loop env prev tips (tx # txs) =
     (case verify_tx env prev tips tx of
        None \<Rightarrow> Inl (tx_id tx)
      | Some (prev', tips') \<Rightarrow> verify_loop env prev' tips' txs)"

definition verifyChain :: "env \<Rightarrow> mem_ledger \<Rightarrow> string option" where
  "verifyChain env ml = (case verify_loop env None [] (journal ml) of Inl b \<Rightarrow> Some b | Inr _ \<Rightarrow> None)"

definition asset_totals :: "mem_ledger \<Rightarrow> (string \<times> amount) list" where
  "asset_totals ml = foldl (\<lambda>m a. AList.update (assetId a)
       (alist_get m (assetId a) 0 + alist_get (ml_balances ml) (acc_id a) 0) m) []
     (map snd (ml_accounts ml))"

definition totalsByAsset :: "mem_ledger \<Rightarrow> (string \<times> string) list" where
  "totalsByAsset ml = map (\<lambda>(a, t). (a, formatAmount t)) (object_entries (asset_totals ml))"

end
