(* ===== verification/Ledger_Book.thy ===== *)
theory Ledger_Book
  imports Ledger_Memory
begin

text \<open>
  The reference ledger keeps its books. The invariant of its state, that staging adds exactly
  the net movement of the entries to each account, that a committed post preserves the invariant
  (accounts, journal, replay, hash chains, non-negative balances), and that a refused one leaves
  every account, balance and transaction alone. \<open>ledger_client\<close> is the contract of the
  \<open>LedgerClient\<close> interface, interpreted on the reference ledger.
\<close>

section \<open>State invariant\<close>

definition key_balance :: "mem_ledger \<Rightarrow> string \<Rightarrow> amount" where
  "key_balance ml k = (case map_of (ml_accounts ml) k of None \<Rightarrow> 0
     | Some a \<Rightarrow> alist_get (ml_balances ml) (acc_id a) 0)"

lemma balance_key [simp]: "bal_amount (balance ml ref) = key_balance ml (accountKey ref)"
  by (simp add: balance_def key_balance_def split: option.splits)

text \<open>Random ids do not repeat and are not empty.\<close>

definition good_env :: "env \<Rightarrow> bool" where
  "good_env env \<longleftrightarrow> inj (randomUUID env) \<and> (\<forall>n. randomUUID env n \<noteq> [])"

lemma uuid_eq: "good_env env \<Longrightarrow> randomUUID env i = randomUUID env j \<longleftrightarrow> i = j"
  by (simp add: good_env_def inj_eq)

definition accounts_inv :: "env \<Rightarrow> mem_ledger \<Rightarrow> bool" where
  "accounts_inv env ml \<longleftrightarrow>
     distinct (map fst (ml_accounts ml)) \<and> distinct (map fst (ml_balances ml))
     \<and> (\<forall>k a. map_of (ml_accounts ml) k = Some a \<longrightarrow>
          accountKey (ref_of a) = k \<and> (\<exists>j < ml_uuids ml. acc_id a = randomUUID env j))
     \<and> (\<forall>k l a b. map_of (ml_accounts ml) k = Some a \<longrightarrow> map_of (ml_accounts ml) l = Some b \<longrightarrow>
          acc_id a = acc_id b \<longrightarrow> k = l)
     \<and> (\<forall>i v. map_of (ml_balances ml) i = Some v \<longrightarrow> (\<exists>k a. map_of (ml_accounts ml) k = Some a \<and> acc_id a = i))"

definition funds_inv :: "mem_ledger \<Rightarrow> bool" where
  "funds_inv ml \<longleftrightarrow> (\<forall>k a. map_of (ml_accounts ml) k = Some a \<longrightarrow> ownerType a \<noteq> Treasury \<longrightarrow>
     0 \<le> alist_get (ml_balances ml) (acc_id a) 0)"

definition txs_inv :: "env \<Rightarrow> mem_ledger \<Rightarrow> bool" where
  "txs_inv env ml \<longleftrightarrow>
     (\<forall>i \<in> set (ml_txOrder ml). map_of (ml_txs ml) i \<noteq> None)
     \<and> (\<forall>i tx. map_of (ml_txs ml) i = Some tx \<longrightarrow> tx_id tx = i \<and> (\<exists>j < ml_uuids ml. i = randomUUID env j))
     \<and> (\<forall>k i. map_of (ml_txByKey ml) k = Some i \<longrightarrow>
          i \<noteq> [] \<and> (\<exists>tx. map_of (ml_txs ml) i = Some tx \<and> tx_idempotencyKey tx = k))"

definition journal_net :: "ledger_tx list \<Rightarrow> string \<Rightarrow> amount" where
  "journal_net txs i = (\<Sum>e\<leftarrow>filter (\<lambda>e. pe_accountId e = i) (concat (map tx_entries txs)). posted_delta e)"

definition replay_inv :: "mem_ledger \<Rightarrow> bool" where
  "replay_inv ml \<longleftrightarrow> (\<forall>i. alist_get (ml_balances ml) i 0 = journal_net (journal ml) i)"

definition chain_inv :: "env \<Rightarrow> mem_ledger \<Rightarrow> bool" where
  "chain_inv env ml \<longleftrightarrow> (\<exists>tips. verify_loop env None [] (journal ml) = Inr (ml_tip ml, tips)
     \<and> map_of tips = map_of (ml_assetTips ml))"

definition mem_inv :: "env \<Rightarrow> mem_ledger \<Rightarrow> bool" where
  "mem_inv env ml \<longleftrightarrow> good_env env \<and> accounts_inv env ml \<and> funds_inv ml \<and> txs_inv env ml \<and> replay_inv ml"

lemma mem_inv_empty: "good_env env \<Longrightarrow> mem_inv env (empty_ledger m)"
  by (simp add: mem_inv_def empty_ledger_def accounts_inv_def funds_inv_def txs_inv_def replay_inv_def
      journal_def journal_net_def)

section \<open>Staging\<close>

definition acct_lookup :: "mem_ledger \<Rightarrow> stage \<Rightarrow> string \<Rightarrow> ledger_account option" where
  "acct_lookup ml st k = (case map_of (ml_accounts ml) k of Some a \<Rightarrow> Some a | None \<Rightarrow> map_of (st_pending st) k)"

definition staged_value :: "mem_ledger \<Rightarrow> stage \<Rightarrow> string \<Rightarrow> amount" where
  "staged_value ml st i = alist_get (st_staged st) i (alist_get (ml_balances ml) i 0)"

text \<open>The pending accounts: new keys, and ids drawn during this post.\<close>

definition pending_inv :: "env \<Rightarrow> mem_ledger \<Rightarrow> stage \<Rightarrow> bool" where
  "pending_inv env ml st \<longleftrightarrow> ml_uuids ml < st_uuids st \<and> distinct (map fst (st_pending st))
     \<and> (\<forall>k a. map_of (st_pending st) k = Some a \<longrightarrow> map_of (ml_accounts ml) k = None \<and> accountKey (ref_of a) = k
          \<and> (\<exists>j. ml_uuids ml < j \<and> j < st_uuids st \<and> acc_id a = randomUUID env j))
     \<and> (\<forall>k l a b. map_of (st_pending st) k = Some a \<longrightarrow> map_of (st_pending st) l = Some b \<longrightarrow>
          acc_id a = acc_id b \<longrightarrow> k = l)"

text \<open>The staged balances after the entries \<open>seen\<close> were staged.\<close>

definition staged_inv :: "mem_ledger \<Rightarrow> stage \<Rightarrow> entry_input list \<Rightarrow> bool" where
  "staged_inv ml st seen \<longleftrightarrow> distinct (map fst (st_staged st))
     \<and> (\<forall>k a. acct_lookup ml st k = Some a \<longrightarrow>
          staged_value ml st (acc_id a) = key_balance ml k + key_net seen k
          \<and> (ownerType a \<noteq> Treasury \<longrightarrow> 0 \<le> staged_value ml st (acc_id a)))
     \<and> (\<forall>e \<in> set seen. acct_lookup ml st (accountKey (entry_account e)) \<noteq> None)
     \<and> (\<forall>i v. map_of (st_staged st) i = Some v \<longrightarrow> (\<exists>k a. acct_lookup ml st k = Some a \<and> acc_id a = i))
     \<and> (\<forall>i. staged_value ml st i = alist_get (ml_balances ml) i 0
          + (\<Sum>e\<leftarrow>filter (\<lambda>e. pe_accountId e = i) (st_entries st). posted_delta e))
     \<and> map (\<lambda>p. (pe_assetId p, posted_delta p)) (st_entries st)
         = map (\<lambda>e. (assetId (entry_account e), signedDelta e)) seen"

lemma staged_invD:
  assumes "staged_inv ml st seen"
  shows "acct_lookup ml st k = Some a \<Longrightarrow> staged_value ml st (acc_id a) = key_balance ml k + key_net seen k"
    "acct_lookup ml st k = Some a \<Longrightarrow> ownerType a \<noteq> Treasury \<Longrightarrow> 0 \<le> staged_value ml st (acc_id a)"
    "map_of (st_staged st) i = Some v \<Longrightarrow> \<exists>k a. acct_lookup ml st k = Some a \<and> acc_id a = i"
    "e \<in> set seen \<Longrightarrow> acct_lookup ml st (accountKey (entry_account e)) \<noteq> None"
    "staged_value ml st i = alist_get (ml_balances ml) i 0
          + (\<Sum>e\<leftarrow>filter (\<lambda>e. pe_accountId e = i) (st_entries st). posted_delta e)"
  using assms unfolding staged_inv_def by blast+

lemma pending_invD:
  assumes "pending_inv env ml st" "map_of (st_pending st) k = Some a"
  shows "map_of (ml_accounts ml) k = None" "accountKey (ref_of a) = k"
    "\<exists>j. ml_uuids ml < j \<and> j < st_uuids st \<and> acc_id a = randomUUID env j"
  using assms unfolding pending_inv_def by blast+

lemma lookup_id_inj:
  assumes "good_env env" "accounts_inv env ml" "pending_inv env ml st"
    and "acct_lookup ml st k = Some a" "acct_lookup ml st l = Some b" "acc_id a = acc_id b"
  shows "k = l"
proof -
  have live: "\<exists>j < ml_uuids ml. acc_id a = randomUUID env j" if "map_of (ml_accounts ml) k = Some a" for k a
    using assms(2) that by (simp add: accounts_inv_def)
  have pend: "\<exists>j. ml_uuids ml < j \<and> acc_id a = randomUUID env j" if "map_of (st_pending st) k = Some a" for k a
    using assms(3) that unfolding pending_inv_def by blast
  have apart: "acc_id a \<noteq> acc_id b"
    if "map_of (ml_accounts ml) k = Some a" "map_of (st_pending st) l = Some b" for k l a b
    using live [OF that(1)] pend [OF that(2)] by (auto simp: uuid_eq [OF assms(1)])
  show ?thesis
  proof (cases "map_of (ml_accounts ml) k")
    case (Some x)
    then have ka: "map_of (ml_accounts ml) k = Some a" using assms(4) by (simp add: acct_lookup_def)
    then have "map_of (ml_accounts ml) l = Some b"
      using assms(5,6) apart [OF ka] by (auto simp: acct_lookup_def split: option.splits)
    then show ?thesis using ka assms(2,6) unfolding accounts_inv_def by blast
  next
    case None
    then have ka: "map_of (st_pending st) k = Some a" using assms(4) by (simp add: acct_lookup_def)
    then have "map_of (st_pending st) l = Some b"
      using assms(5,6) apart [OF _ ka] by (auto simp: acct_lookup_def split: option.splits)
    then show ?thesis using ka assms(3,6) unfolding pending_inv_def by blast
  qed
qed

text \<open>An id drawn in this post has no balance yet.\<close>

lemma fresh_no_balance:
  assumes "good_env env" "accounts_inv env ml" "ml_uuids ml \<le> j"
  shows "map_of (ml_balances ml) (randomUUID env j) = None"
proof (rule ccontr)
  assume "map_of (ml_balances ml) (randomUUID env j) \<noteq> None"
  then obtain v where "map_of (ml_balances ml) (randomUUID env j) = Some v" by blast
  then obtain k a where ka: "map_of (ml_accounts ml) k = Some a" "acc_id a = randomUUID env j"
    using assms(2) unfolding accounts_inv_def by blast
  then obtain i where "i < ml_uuids ml" "acc_id a = randomUUID env i"
    using assms(2) unfolding accounts_inv_def by blast
  then show False using ka(2) assms(3) by (simp add: uuid_eq [OF assms(1)])
qed

lemma init_stage_inv:
  assumes "funds_inv ml"
  shows "pending_inv env ml (init_stage ml)" "staged_inv ml (init_stage ml) []"
  using assms by (auto simp: pending_inv_def staged_inv_def init_stage_def acct_lookup_def staged_value_def
      key_balance_def funds_inv_def split: option.splits)

lemma stageAccount_lookup:
  assumes "stageAccount env ml ref st = (a, st1)"
  shows "acct_lookup ml st1 (accountKey ref) = Some a"
    "\<And>k. k \<noteq> accountKey ref \<Longrightarrow> acct_lookup ml st1 k = acct_lookup ml st k"
    "\<And>b. acct_lookup ml st (accountKey ref) = Some b \<Longrightarrow> st1 = st \<and> b = a"
    "st_staged st1 = st_staged st" "st_entries st1 = st_entries st" "st_uuids st \<le> st_uuids st1"
    "acct_lookup ml st (accountKey ref) = None \<Longrightarrow> acc_id a = randomUUID env (st_uuids st) \<and> ref_of a = ref"
  using assms
  by (auto simp: stageAccount_def Let_def acct_lookup_def ref_of_def mk_ref_def split: option.splits)

lemma stageAccount_pending_inv:
  assumes "good_env env" "pending_inv env ml st" "stageAccount env ml ref st = (a, st1)"
  shows "pending_inv env ml st1"
proof (cases "acct_lookup ml st (accountKey ref)")
  case (Some b)
  then show ?thesis using stageAccount_lookup(3) [OF assms(3) Some] assms(2) by simp
next
  case None
  have live: "map_of (ml_accounts ml) (accountKey ref) = None" "map_of (st_pending st) (accountKey ref) = None"
    using None by (simp_all add: acct_lookup_def split: option.splits)
  have st1: "st_pending st1 = AList.update (accountKey ref) a (st_pending st)" "st_uuids st1 = Suc (st_uuids st)"
    using assms(3) live by (auto simp: stageAccount_def Let_def)
  note a = stageAccount_lookup(7) [OF assms(3) None]
  have old: "acc_id b \<noteq> acc_id a" if "map_of (st_pending st) k = Some b" for k b
    using pending_invD(3) [OF assms(2) that] a by (auto simp: uuid_eq [OF assms(1)])
  have old': "\<exists>j. ml_uuids ml < j \<and> j < Suc (st_uuids st) \<and> acc_id b = randomUUID env j"
    if "map_of (st_pending st) k = Some b" for k b
    using pending_invD(3) [OF assms(2) that] by (meson less_SucI)
  have lt: "ml_uuids ml < st_uuids st" using assms(2) by (simp add: pending_inv_def)
  let ?k = "accountKey ref"
  show ?thesis
    unfolding pending_inv_def st1
  proof (intro conjI allI impI)
    show "ml_uuids ml < Suc (st_uuids st)" using lt by simp
    show "distinct (map fst (AList.update ?k a (st_pending st)))"
      using assms(2) by (simp add: distinct_update pending_inv_def)
    fix k b assume kb: "map_of (AList.update ?k a (st_pending st)) k = Some b"
    show "map_of (ml_accounts ml) k = None"
      using kb live(1) pending_invD(1) [OF assms(2), of k b] by (auto split: if_splits)
    show "accountKey (ref_of b) = k"
      using kb a pending_invD(2) [OF assms(2), of k b] by (auto split: if_splits)
    show "\<exists>j. ml_uuids ml < j \<and> j < Suc (st_uuids st) \<and> acc_id b = randomUUID env j"
      using kb a lt old' [of k b] by (auto split: if_splits)
    fix l c assume lc: "map_of (AList.update ?k a (st_pending st)) l = Some c" and eq: "acc_id b = acc_id c"
    have "map_of (st_pending st) k = Some b \<Longrightarrow> map_of (st_pending st) l = Some c \<Longrightarrow> k = l"
      using assms(2) eq unfolding pending_inv_def by blast
    then show "k = l"
      using kb lc eq old [of k b] old [of l c] by (auto split: if_splits)
  qed
qed

lemma stageAccount_staged_inv:
  assumes "good_env env" "accounts_inv env ml" "pending_inv env ml st" "staged_inv ml st seen"
    and "stageAccount env ml ref st = (a, st1)"
  shows "staged_inv ml st1 seen"
proof (cases "acct_lookup ml st (accountKey ref)")
  case (Some b)
  then show ?thesis using stageAccount_lookup(3) [OF assms(5) Some] assms(4) by simp
next
  case None
  note lk = stageAccount_lookup [OF assms(5)]
  have a: "acc_id a = randomUUID env (st_uuids st)" using lk(7) [OF None] by simp
  have val: "staged_value ml st1 i = staged_value ml st i" for i by (simp add: staged_value_def lk(4))
  have live: "key_balance ml (accountKey ref) = 0"
    using None by (simp add: acct_lookup_def key_balance_def split: option.splits)
  have net: "key_net seen (accountKey ref) = 0"
  proof -
    have "filter (\<lambda>e. accountKey (entry_account e) = accountKey ref) seen = []"
      using assms(4) None unfolding staged_inv_def by (auto simp: filter_empty_conv)
    then show ?thesis by (simp add: key_net_def)
  qed
  have "st_uuids st \<ge> ml_uuids ml" using assms(3) by (simp add: pending_inv_def)
  then have nb: "map_of (ml_balances ml) (acc_id a) = None"
    unfolding a by (rule fresh_no_balance [OF assms(1,2)])
  have ns: "map_of (st_staged st) (acc_id a) = None"
  proof (rule ccontr)
    assume "map_of (st_staged st) (acc_id a) \<noteq> None"
    then obtain k b where kb: "acct_lookup ml st k = Some b" "acc_id b = acc_id a"
      using assms(4) unfolding staged_inv_def by blast
    then have kb1: "acct_lookup ml st1 k = Some b" using lk(2) [of k] None by (cases "k = accountKey ref") auto
    have "k = accountKey ref"
      using lookup_id_inj [OF assms(1,2) stageAccount_pending_inv [OF assms(1,3,5)] kb1 lk(1) kb(2)] .
    then show False using kb(1) None by simp
  qed
  have v0: "staged_value ml st (acc_id a) = 0" by (simp add: staged_value_def alist_get_def nb ns)
  have grow: "acct_lookup ml st1 k = Some b" if "acct_lookup ml st k = Some b" for k b
    using that lk(2) [of k] None by (cases "k = accountKey ref") auto
  show ?thesis
    unfolding staged_inv_def
  proof (intro conjI allI impI ballI)
    show "distinct (map fst (st_staged st1))" using assms(4) by (simp add: staged_inv_def lk(4))
    fix k b assume kb: "acct_lookup ml st1 k = Some b"
    show "staged_value ml st1 (acc_id b) = key_balance ml k + key_net seen k"
      using kb staged_invD(1) [OF assms(4), of k b] lk(1) lk(2) [of k] v0 live net unfolding val
      by (cases "k = accountKey ref") auto
    assume "ownerType b \<noteq> Treasury"
    then show "0 \<le> staged_value ml st1 (acc_id b)"
      using kb staged_invD(2) [OF assms(4), of k b] lk(1) lk(2) [of k] v0 unfolding val
      by (cases "k = accountKey ref") auto
  next
    fix e assume "e \<in> set seen"
    then show "acct_lookup ml st1 (accountKey (entry_account e)) \<noteq> None"
      using assms(4) grow unfolding staged_inv_def by blast
  next
    fix i v assume "map_of (st_staged st1) i = Some v"
    then show "\<exists>k a. acct_lookup ml st1 k = Some a \<and> acc_id a = i"
      using assms(4) grow unfolding staged_inv_def lk(4) by blast
  qed (use assms(4) in \<open>simp_all add: staged_inv_def val lk(5)\<close>)
qed

lemma acct_lookup_update [simp]:
  "acct_lookup ml (st\<lparr>st_staged := x, st_entries := y, st_uuids := z\<rparr>) = acct_lookup ml st"
  by (simp add: acct_lookup_def fun_eq_iff split: option.splits)

lemma lookup_key:
  assumes "accounts_inv env ml" "pending_inv env ml st" "acct_lookup ml st k = Some a"
  shows "accountKey (ref_of a) = k"
  using assms(1,3) pending_invD(2) [OF assms(2), of k a]
  by (auto simp: acct_lookup_def accounts_inv_def split: option.splits)

text \<open>The balance \<open>held\<close> outside the live book is zero, so the code reads the staged value.\<close>

lemma held_value:
  assumes "good_env env" "accounts_inv env ml" "pending_inv env ml st" "acct_lookup ml st k = Some a"
  shows "alist_get (st_staged st) (acc_id a)
      (case map_of (ml_accounts ml) k of None \<Rightarrow> 0 | Some b \<Rightarrow> alist_get (ml_balances ml) (acc_id b) 0)
    = staged_value ml st (acc_id a)"
proof (cases "map_of (ml_accounts ml) k")
  case (Some b)
  then show ?thesis using assms(4) by (simp add: staged_value_def acct_lookup_def)
next
  case None
  then have "map_of (st_pending st) k = Some a" using assms(4) by (simp add: acct_lookup_def)
  then obtain j where "ml_uuids ml \<le> j" "acc_id a = randomUUID env j"
    using pending_invD(3) [OF assms(3)] by (meson less_imp_le)
  then have "map_of (ml_balances ml) (acc_id a) = None"
    using fresh_no_balance [OF assms(1,2)] by simp
  then show ?thesis using None by (simp add: staged_value_def alist_get_def split: option.splits)
qed

lemma staged_inv_step:
  assumes env: "good_env env" "accounts_inv env ml" "pending_inv env ml st"
    and inv: "staged_inv ml st seen"
    and a: "acct_lookup ml st (accountKey (entry_account e)) = Some a"
    and nxt: "nxt = staged_value ml st (acc_id a) + signedDelta e"
    and ok: "0 \<le> nxt \<or> canGoNegative (entry_account e)"
    and p: "pe_accountId p = acc_id a" "pe_assetId p = assetId (entry_account e)" "posted_delta p = signedDelta e"
  shows "staged_inv ml (st\<lparr>st_staged := AList.update (acc_id a) nxt (st_staged st),
      st_entries := st_entries st @ [p], st_uuids := u\<rparr>) (seen @ [e])" (is "staged_inv ml ?st _")
proof -
  let ?k = "accountKey (entry_account e)"
  have val: "staged_value ml ?st i = (if i = acc_id a then nxt else staged_value ml st i)" for i
    by (simp add: staged_value_def alist_get_update)
  have other: "acc_id b \<noteq> acc_id a" if "acct_lookup ml st k = Some b" "k \<noteq> ?k" for k b
    using lookup_id_inj [OF env that(1) a] that(2) by blast
  have neg: "ownerType a \<noteq> Treasury \<Longrightarrow> 0 \<le> nxt"
  proof -
    assume t: "ownerType a \<noteq> Treasury"
    have "accountKey (ref_of a) = ?k" using lookup_key [OF env(2,3) a] .
    then have "ownerType (ref_of a) = ownerType (entry_account e)" by (rule accountKey_owner_type)
    then show "0 \<le> nxt" using t ok by (simp add: canGoNegative_def ref_of_def)
  qed
  show ?thesis
    unfolding staged_inv_def acct_lookup_update val
  proof (intro conjI allI impI ballI)
    show "distinct (map fst (st_staged ?st))" using inv by (simp add: staged_inv_def distinct_update)
    fix k b assume kb: "acct_lookup ml st k = Some b"
    show "(if acc_id b = acc_id a then nxt else staged_value ml st (acc_id b)) = key_balance ml k + key_net (seen @ [e]) k"
      using staged_invD(1) [OF inv kb] a kb other [OF kb] by (cases "k = ?k") (auto simp: nxt key_net_append)
    assume "ownerType b \<noteq> Treasury"
    then show "0 \<le> (if acc_id b = acc_id a then nxt else staged_value ml st (acc_id b))"
      using staged_invD(2) [OF inv kb] a kb other [OF kb] neg by (cases "k = ?k") auto
  next
    fix f assume "f \<in> set (seen @ [e])"
    then show "acct_lookup ml st (accountKey (entry_account f)) \<noteq> None"
      using staged_invD(4) [OF inv, of f] a by auto
  next
    fix i v assume "map_of (st_staged ?st) i = Some v"
    then show "\<exists>k b. acct_lookup ml st k = Some b \<and> acc_id b = i"
      using staged_invD(3) [OF inv, of i] a by (auto split: if_splits)
  next
    fix i
    show "(if i = acc_id a then nxt else staged_value ml st i) = alist_get (ml_balances ml) i 0
          + (\<Sum>e\<leftarrow>filter (\<lambda>e. pe_accountId e = i) (st_entries ?st). posted_delta e)"
      using staged_invD(5) [OF inv, of i] p by (auto simp: nxt)
  qed (use inv p in \<open>simp add: staged_inv_def\<close>)
qed

lemma pending_inv_update:
  assumes p: "pending_inv env ml st" and u: "st_uuids st \<le> u"
  shows "pending_inv env ml (st\<lparr>st_staged := x, st_entries := y, st_uuids := u\<rparr>)"
proof -
  have "\<exists>j. ml_uuids ml < j \<and> j < u \<and> acc_id a = randomUUID env j" if "map_of (st_pending st) k = Some a" for k a
    using pending_invD(3) [OF p that] u by (meson less_le_trans)
  then show ?thesis using p u unfolding pending_inv_def by auto
qed

text \<open>Every entry is funded when it is reached.\<close>

definition funded :: "mem_ledger \<Rightarrow> entry_input list \<Rightarrow> entry_input list \<Rightarrow> bool" where
  "funded ml seen es \<longleftrightarrow> (\<forall>i < length es. canGoNegative (entry_account (es ! i)) \<or>
     0 \<le> key_balance ml (accountKey (entry_account (es ! i)))
       + key_net (seen @ take (Suc i) es) (accountKey (entry_account (es ! i))))"

lemma funded_Cons:
  "funded ml seen (e # es) \<longleftrightarrow>
     (canGoNegative (entry_account e) \<or>
        0 \<le> key_balance ml (accountKey (entry_account e)) + key_net (seen @ [e]) (accountKey (entry_account e)))
     \<and> funded ml (seen @ [e]) es"
  unfolding funded_def by (auto simp: less_Suc_eq_0_disj)

lemma stage_entries_inv:
  assumes env: "good_env env" "accounts_inv env ml"
    and "pending_inv env ml st" "staged_inv ml st seen" "stage_entries env ml txId es st = (st', res)"
  shows "st_uuids st \<le> st_uuids st'
    \<and> (res = None \<longrightarrow> pending_inv env ml st' \<and> staged_inv ml st' (seen @ es))
    \<and> (res = None \<longleftrightarrow> funded ml seen es)"
  using assms(3-)
proof (induction es arbitrary: st seen)
  case Nil
  then show ?case by (simp add: funded_def)
next
  case (Cons e es)
  let ?k = "accountKey (entry_account e)"
  obtain a st1 where sa: "stageAccount env ml (entry_account e) st = (a, st1)" by fastforce
  note lk = stageAccount_lookup [OF sa]
  have p1: "pending_inv env ml st1" by (rule stageAccount_pending_inv [OF env(1) Cons.prems(1) sa])
  have s1: "staged_inv ml st1 seen" by (rule stageAccount_staged_inv [OF env Cons.prems(1,2) sa])
  define nxt where "nxt = staged_value ml st1 (acc_id a) + signedDelta e"
  have held: "alist_get (st_staged st1) (acc_id a)
      (case map_of (ml_accounts ml) ?k of None \<Rightarrow> 0 | Some b \<Rightarrow> alist_get (ml_balances ml) (acc_id b) 0)
      + signedDelta e = nxt"
    using held_value [OF env p1 lk(1)] by (simp add: nxt_def)
  have nxt_eq: "nxt = key_balance ml ?k + key_net (seen @ [e]) ?k"
    using staged_invD(1) [OF s1 lk(1)] by (simp add: nxt_def key_net_append)
  show ?case
  proof (cases "nxt < 0 \<and> \<not> canGoNegative (entry_account e)")
    case True
    then have "st' = st1 \<and> res \<noteq> None"
      using Cons.prems(3) by (auto simp: sa held Let_def)
    then show ?thesis using lk(6) True nxt_eq by (auto simp: funded_Cons)
  next
    case False
    define pe where "pe = \<lparr>pe_id = randomUUID env (st_uuids st1), pe_txId = txId, pe_accountId = acc_id a,
        pe_assetId = assetId (entry_account e), pe_direction = entry_direction e,
        pe_amount = entry_amount e, pe_balanceAfter = nxt\<rparr>"
    define st2 where "st2 = st1\<lparr>st_staged := AList.update (acc_id a) nxt (st_staged st1),
        st_entries := st_entries st1 @ [pe], st_uuids := Suc (st_uuids st1)\<rparr>"
    have rec: "stage_entries env ml txId es st2 = (st', res)"
      using Cons.prems(3) False by (simp add: sa held Let_def st2_def pe_def)
    have p2: "pending_inv env ml st2" unfolding st2_def by (rule pending_inv_update [OF p1]) simp
    have s2: "staged_inv ml st2 (seen @ [e])"
      unfolding st2_def using False
      by (intro staged_inv_step [OF env p1 s1 lk(1) nxt_def])
        (auto simp: pe_def posted_delta_def signedDelta_def)
    show ?thesis using Cons.IH [OF p2 s2 rec] lk(6) False nxt_eq by (auto simp: st2_def funded_Cons)
  qed
qed

section \<open>Hash chains\<close>

lemma distinct_assetIds [simp]: "distinct (assetIds es)"
  by (simp add: assetIds_def)

lemma verify_assets_ok:
  assumes "distinct as"
    and "\<And>a. a \<in> set as \<Longrightarrow> alist_get ps a None = map_of tips a"
    and "\<And>a. a \<in> set as \<Longrightarrow> map_of hs a = Some (hashAssetTx (sha256 env) (tx_id tx) (tx_module tx) (tx_reason tx)
           (tx_postedAt tx) (tx_entries tx) a (map_of tips a))"
  shows "\<exists>tips'. verify_assets env tx hs ps as tips = Some tips'
    \<and> map_of tips' = (\<lambda>a. if a \<in> set as then map_of hs a else map_of tips a)"
  using assms
proof (induction as arbitrary: tips)
  case Nil
  then show ?case by auto
next
  case (Cons a as)
  define h where "h = hashAssetTx (sha256 env) (tx_id tx) (tx_module tx) (tx_reason tx)
    (tx_postedAt tx) (tx_entries tx) a (map_of tips a)"
  have a: "alist_get ps a None = map_of tips a" "map_of hs a = Some h"
    using Cons.prems(2,3) [of a] by (simp_all add: h_def)
  have keep: "map_of (AList.update a h tips) b = map_of tips b" if "b \<in> set as" for b
    using that Cons.prems(1) by auto
  obtain tips' where t: "verify_assets env tx hs ps as (AList.update a h tips) = Some tips'"
    "map_of tips' = (\<lambda>b. if b \<in> set as then map_of hs b else map_of (AList.update a h tips) b)"
    using Cons.IH [of "AList.update a h tips"] Cons.prems keep by auto
  have "verify_assets env tx hs ps (a # as) tips = Some tips'"
    using a t(1) by (simp add: Let_def h_def [symmetric])
  then show ?case using t(2) a(2) by (auto simp: fun_eq_iff)
qed

lemma map_of_map_pair: "map_of (map (\<lambda>a. (a, f a)) as) a = (if a \<in> set as then Some (f a) else None)"
  by (induction as) auto

lemma verify_post_tx:
  assumes "map_of tips = map_of (ml_assetTips ml)" "list_all assignable (assetIds es)"
  shows "\<exists>tips'. verify_tx env (ml_tip ml) tips (post_tx env ml r txId at es) = Some (Some (tx_hash (post_tx env ml r txId at es)), tips')
    \<and> map_of tips' = map_of (set_all (object_entries (post_asset_hashes env ml txId r at es)) (ml_assetTips ml))"
proof -
  define tx where "tx = post_tx env ml r txId at es"
  define hs where "hs = post_asset_hashes env ml txId r at es"
  define ps where "ps = map (\<lambda>a. (a, map_of (ml_assetTips ml) a)) (assetIds es)"
  have own: "filter assignable (assetIds es) = assetIds es" using assms(2) by (simp add: filter_id_conv list_all_iff)
  define as where "as = js_set (assetIds (tx_entries tx) @ map fst (object_entries hs) @ map fst (object_entries ps))"
  have tx: "tx_assetHashes tx = Some hs" "tx_previousAssetHashes tx = Some ps" "tx_entries tx = es"
    "tx_crossShardAnchor tx = Some (crossShardAnchor (sha256 env) hs)" "tx_previousHash tx = ml_tip ml"
    "tx_hash tx = hash_of_tx (sha256 env) tx (ml_tip ml)"
    by (simp_all add: tx_def post_tx_def hs_def ps_def hash_of_tx_def Let_def own)
  have keys: "map fst hs = assetIds es" "map fst ps = assetIds es"
    by (simp_all add: hs_def ps_def post_asset_hashes_def comp_def own)
  have as: "set as = set (assetIds es)" "distinct as"
    using keys [THEN arg_cong [where f = set]] by (auto simp: as_def tx(3))
  have hs: "map_of hs a = Some (hashAssetTx (sha256 env) (tx_id tx) (tx_module tx) (tx_reason tx)
           (tx_postedAt tx) (tx_entries tx) a (map_of tips a))" if "a \<in> set as" for a
    using that as(1) by (simp add: hs_def post_asset_hashes_def map_of_map_pair assms(1) tx_def post_tx_def Let_def own)
  have ps: "alist_get ps a None = map_of tips a" if "a \<in> set as" for a
    using that as(1) by (simp add: ps_def alist_get_def map_of_map_pair assms(1))
  obtain tips' where t: "verify_assets env tx hs ps as tips = Some tips'"
    "map_of tips' = (\<lambda>a. if a \<in> set as then map_of hs a else map_of tips a)"
    using verify_assets_ok [OF as(2) ps hs] by blast
  have "verify_tx env (ml_tip ml) tips tx = Some (Some (tx_hash tx), tips')"
    using t(1) tx by (simp add: verify_tx_def as_def)
  moreover have "map_of tips' = map_of (set_all (object_entries hs) (ml_assetTips ml))"
  proof
    fix a
    have d: "distinct (map fst hs)" by (simp add: keys)
    have "map_of hs a = None \<longleftrightarrow> a \<notin> set as"
      by (metis as(1) keys(1) list.set_map map_of_eq_None_iff)
    then show "map_of tips' a = map_of (set_all (object_entries hs) (ml_assetTips ml)) a"
      using d by (auto simp: map_of_set_all map_of_object_entries t(2) assms(1) split: option.splits)
  qed
  ultimately show ?thesis unfolding tx_def hs_def by blast
qed

lemma verify_loop_snoc:
  "verify_loop env p t txs = Inr (p', t') \<Longrightarrow> verify_tx env p' t' tx = Some (p'', t'') \<Longrightarrow>
     verify_loop env p t (txs @ [tx]) = Inr (p'', t'')"
  by (induction txs arbitrary: p t) (auto split: option.splits prod.splits)

lemma journal_net_snoc: "journal_net (txs @ [tx]) i =
    journal_net txs i + (\<Sum>e\<leftarrow>filter (\<lambda>e. pe_accountId e = i) (tx_entries tx). posted_delta e)"
  by (simp add: journal_net_def)

section \<open>Committing\<close>

text \<open>A post that staged all its entries, with the transaction it will book.\<close>

definition staged_post :: "env \<Rightarrow> mem_ledger \<Rightarrow> post_request \<Rightarrow> stage \<Rightarrow> ledger_tx \<Rightarrow> mem_ledger \<Rightarrow> bool" where
  "staged_post env ml r st tx ml' \<longleftrightarrow>
     stage_entries env ml (randomUUID env (ml_uuids ml)) (req_entries r) (init_stage ml) = (st, None)
     \<and> pending_inv env ml st \<and> staged_inv ml st (req_entries r)
     \<and> tx = post_tx env ml r (randomUUID env (ml_uuids ml)) (now env (st_clock st)) (st_entries st)
     \<and> ml' = commit env ml r st
         (post_asset_hashes env ml (randomUUID env (ml_uuids ml)) r (now env (st_clock st)) (st_entries st)) tx"

lemma book_cases:
  assumes "mem_inv env ml" "book env ml r = (ml', res)"
  obtains (refused) e u c where "res = Inl e" "\<not> funded ml [] (req_entries r)"
      "ml' = ml\<lparr>ml_uuids := u, ml_clock := c\<rparr>" "ml_uuids ml \<le> u"
  | (booked) st tx where "res = Inr tx" "funded ml [] (req_entries r)" "staged_post env ml r st tx ml'"
proof -
  have g: "good_env env" "accounts_inv env ml" "funds_inv ml" using assms(1) by (simp_all add: mem_inv_def)
  obtain st err where s: "stage_entries env ml (randomUUID env (ml_uuids ml)) (req_entries r) (init_stage ml) = (st, err)"
    by fastforce
  note f = stage_entries_inv [OF g(1,2) init_stage_inv [OF g(3)] s]
  show thesis
  proof (cases err)
    case None
    then show thesis
      using assms(2) s f by (intro booked) (auto simp: book_def Let_def staged_post_def)
  next
    case (Some e)
    then show thesis
      using assms(2) s f by (intro refused) (auto simp: book_def Let_def init_stage_def)
  qed
qed

lemma staged_postD:
  assumes "staged_post env ml r st tx ml'"
  shows "pending_inv env ml st" "staged_inv ml st (req_entries r)"
    "tx_id tx = randomUUID env (ml_uuids ml)" "tx_idempotencyKey tx = idempotencyKey r" "tx_entries tx = st_entries st"
    "ml_uuids ml < st_uuids st" "ml_uuids ml' = st_uuids st"
    "ml_txs ml' = AList.update (tx_id tx) tx (ml_txs ml)"
    "ml_txByKey ml' = AList.update (tx_idempotencyKey tx) (tx_id tx) (ml_txByKey ml)"
    "ml_fingerprintByKey ml' =
       AList.update (tx_idempotencyKey tx) (postFingerprint (sha256 env) r) (ml_fingerprintByKey ml)"
    "ml_txOrder ml' = ml_txOrder ml @ [tx_id tx]" "ml_tip ml' = Some (tx_hash tx)"
    "ml_conflict ml' = ml_conflict ml"
  using assms by (simp_all add: staged_post_def commit_def post_tx_def Let_def pending_inv_def)

lemma commit_accounts:
  assumes "staged_post env ml r st tx ml'"
  shows "map_of (ml_accounts ml') k = acct_lookup ml st k"
proof -
  have p: "pending_inv env ml st" "distinct (map fst (st_pending st))"
    using assms by (simp_all add: staged_post_def pending_inv_def)
  show ?thesis
    using assms p(2) pending_invD(1) [OF p(1)]
    by (auto simp: staged_post_def commit_def map_of_set_all acct_lookup_def split: option.splits)
qed

lemma commit_balances:
  assumes "staged_post env ml r st tx ml'"
  shows "alist_get (ml_balances ml') i 0 = staged_value ml st i"
    "map_of (ml_balances ml') i = (case map_of (st_staged st) i of None \<Rightarrow> map_of (ml_balances ml) i | Some v \<Rightarrow> Some v)"
proof -
  have "distinct (map fst (st_staged st))"
    using assms by (simp add: staged_post_def staged_inv_def)
  then show m: "map_of (ml_balances ml') i = (case map_of (st_staged st) i of None \<Rightarrow> map_of (ml_balances ml) i | Some v \<Rightarrow> Some v)"
    using assms by (simp add: staged_post_def commit_def map_of_set_all)
  show "alist_get (ml_balances ml') i 0 = staged_value ml st i"
    by (simp add: alist_get_def staged_value_def m split: option.splits)
qed

text \<open>The refinement step: a booked post adds to every account key the net of its entries.\<close>

lemma commit_key_balance:
  assumes "staged_post env ml r st tx ml'"
  shows "key_balance ml' k = key_balance ml k + key_net (req_entries r) k"
proof (cases "acct_lookup ml st k")
  case (Some a)
  then show ?thesis
    using staged_invD(1) [OF staged_postD(2) [OF assms] Some]
    by (simp add: key_balance_def [of ml'] commit_accounts [OF assms] commit_balances(1) [OF assms])
next
  case None
  have "filter (\<lambda>e. accountKey (entry_account e) = k) (req_entries r) = []"
    using staged_invD(4) [OF staged_postD(2) [OF assms]] None unfolding filter_empty_conv by blast
  then have "key_net (req_entries r) k = 0" by (simp add: key_net_def)
  moreover have "key_balance ml k = 0"
    using None by (simp add: acct_lookup_def key_balance_def split: option.splits)
  ultimately show ?thesis by (simp add: key_balance_def [of ml'] commit_accounts [OF assms] None)
qed

lemma commit_accounts_inv:
  assumes "mem_inv env ml" "staged_post env ml r st tx ml'"
  shows "accounts_inv env ml'"
proof -
  have g: "good_env env" "accounts_inv env ml" using assms(1) by (simp_all add: mem_inv_def)
  note d = staged_postD [OF assms(2)] and acc = commit_accounts [OF assms(2)]
  have lid: "\<exists>j < ml_uuids ml'. acc_id a = randomUUID env j" if "acct_lookup ml st k = Some a" for k a
  proof (cases "map_of (ml_accounts ml) k")
    case None
    then have "map_of (st_pending st) k = Some a" using that by (simp add: acct_lookup_def)
    then show ?thesis using pending_invD(3) [OF d(1)] d(7) by auto
  next
    case (Some b)
    then have "map_of (ml_accounts ml) k = Some a" using that by (simp add: acct_lookup_def)
    then obtain j where "j < ml_uuids ml" "acc_id a = randomUUID env j"
      using g(2) unfolding accounts_inv_def by blast
    then show ?thesis using d(6,7) by (intro exI [of _ j]) simp
  qed
  have bal: "\<exists>k a. acct_lookup ml st k = Some a \<and> acc_id a = i" if "map_of (ml_balances ml') i = Some v" for i v
  proof (cases "map_of (st_staged st) i")
    case None
    then have "map_of (ml_balances ml) i = Some v" using that commit_balances(2) [OF assms(2), of i] by simp
    then obtain k a where "map_of (ml_accounts ml) k = Some a" "acc_id a = i"
      using g(2) unfolding accounts_inv_def by blast
    then show ?thesis by (auto simp: acct_lookup_def split: option.splits intro!: exI [of _ k])
  next
    case (Some w)
    then show ?thesis using staged_invD(3) [OF d(2)] by blast
  qed
  have "distinct (map fst (ml_accounts ml'))" "distinct (map fst (ml_balances ml'))"
    using assms g(2) by (simp_all add: staged_post_def commit_def distinct_set_all accounts_inv_def)
  then show ?thesis
    unfolding accounts_inv_def acc
    using lookup_key [OF g(2) d(1)] lid lookup_id_inj [OF g d(1)] bal by blast
qed

lemma commit_funds_inv:
  assumes "staged_post env ml r st tx ml'"
  shows "funds_inv ml'"
  unfolding funds_inv_def commit_accounts [OF assms] commit_balances(1) [OF assms]
  using staged_invD(2) [OF staged_postD(2) [OF assms]] by blast

lemma fresh_tx_id:
  assumes "good_env env" "txs_inv env ml"
  shows "map_of (ml_txs ml) (randomUUID env (ml_uuids ml)) = None"
proof (rule ccontr)
  assume "map_of (ml_txs ml) (randomUUID env (ml_uuids ml)) \<noteq> None"
  then obtain j where "j < ml_uuids ml" "randomUUID env (ml_uuids ml) = randomUUID env j"
    using assms(2) unfolding txs_inv_def by blast
  then show False by (simp add: uuid_eq [OF assms(1)])
qed

lemma commit_txs_inv:
  assumes "mem_inv env ml" "staged_post env ml r st tx ml'"
  shows "txs_inv env ml'"
proof -
  have g: "good_env env" "txs_inv env ml" using assms(1) by (simp_all add: mem_inv_def)
  note d = staged_postD [OF assms(2)] and fresh = fresh_tx_id [OF g]
  have ne: "randomUUID env (ml_uuids ml) \<noteq> []" using g(1) by (simp add: good_env_def)
  show ?thesis
    unfolding txs_inv_def
  proof (intro conjI ballI allI impI)
    fix i assume "i \<in> set (ml_txOrder ml')"
    then show "map_of (ml_txs ml') i \<noteq> None" using g(2) by (auto simp: txs_inv_def d)
  next
    fix i t assume a: "map_of (ml_txs ml') i = Some t"
    then show "tx_id t = i" using g(2) by (auto simp: txs_inv_def d(8) split: if_splits)
    show "\<exists>j < ml_uuids ml'. i = randomUUID env j"
    proof (cases "i = randomUUID env (ml_uuids ml)")
      case True
      then show ?thesis using d(6,7) by auto
    next
      case False
      then have "map_of (ml_txs ml) i = Some t" using a by (simp add: d)
      then obtain j where "j < ml_uuids ml" "i = randomUUID env j" using g(2) unfolding txs_inv_def by blast
      then show ?thesis using d(6,7) by (intro exI [of _ j]) simp
    qed
  next
    fix k i assume ki: "map_of (ml_txByKey ml') k = Some i"
    show "i \<noteq> []" using ki g(2) ne by (auto simp: txs_inv_def d split: if_splits)
    show "\<exists>t. map_of (ml_txs ml') i = Some t \<and> tx_idempotencyKey t = k"
    proof (cases "k = idempotencyKey r")
      case True
      then show ?thesis using ki by (simp add: d)
    next
      case False
      then have "map_of (ml_txByKey ml) k = Some i" using ki by (simp add: d)
      then obtain t where t: "map_of (ml_txs ml) i = Some t" "tx_idempotencyKey t = k"
        using g(2) unfolding txs_inv_def by blast
      then have "i \<noteq> randomUUID env (ml_uuids ml)" using fresh by auto
      then show ?thesis using t by (simp add: d)
    qed
  qed
qed

lemma commit_journal:
  assumes "mem_inv env ml" "staged_post env ml r st tx ml'"
  shows "journal ml' = journal ml @ [tx]"
proof -
  have g: "good_env env" "txs_inv env ml" using assms(1) by (simp_all add: mem_inv_def)
  note d = staged_postD [OF assms(2)]
  have "map_of (ml_txs ml') i = map_of (ml_txs ml) i" if "i \<in> set (ml_txOrder ml)" for i
    using that g(2) fresh_tx_id [OF g] by (auto simp: txs_inv_def d)
  then have "List.map_filter (map_of (ml_txs ml')) (ml_txOrder ml) = journal ml"
    unfolding journal_def List.map_filter_def by (intro map_cong filter_cong) auto
  then show ?thesis
    by (simp add: journal_def d(8,11) List.map_filter_def)
qed

lemma commit_mem_inv:
  assumes "mem_inv env ml" "staged_post env ml r st tx ml'"
  shows "mem_inv env ml'"
proof -
  have g: "good_env env" "replay_inv ml" using assms(1) by (simp_all add: mem_inv_def)
  note d = staged_postD [OF assms(2)]
  have "replay_inv ml'"
    unfolding replay_inv_def commit_balances(1) [OF assms(2)] commit_journal [OF assms] journal_net_snoc d(5)
    using staged_invD(5) [OF d(2)] g(2) by (simp add: replay_inv_def)
  then show ?thesis
    using commit_accounts_inv [OF assms] commit_funds_inv [OF assms(2)] commit_txs_inv [OF assms] g(1)
    by (simp add: mem_inv_def)
qed

text \<open>The chains grow by one link, if no entry names the asset id that a plain object cannot hold.\<close>

definition chained_assets :: "post_request \<Rightarrow> bool" where
  "chained_assets r \<longleftrightarrow> (\<forall>e \<in> set (req_entries r). assignable (assetId (entry_account e)))"

lemma commit_chain_inv:
  assumes "mem_inv env ml" "chain_inv env ml" "staged_post env ml r st tx ml'" "chained_assets r"
  shows "chain_inv env ml'"
proof -
  note d = staged_postD [OF assms(3)]
  have "map (\<lambda>p. (pe_assetId p, posted_delta p)) (st_entries st) = map (\<lambda>e. (assetId (entry_account e), signedDelta e)) (req_entries r)"
    using d(2) by (simp add: staged_inv_def)
  then have "map pe_assetId (st_entries st) = map (\<lambda>e. assetId (entry_account e)) (req_entries r)"
    by (metis (no_types, lifting) fst_conv list.map_comp map_eq_conv comp_apply)
  then have "set (assetIds (st_entries st)) = (\<lambda>e. assetId (entry_account e)) ` set (req_entries r)"
    by (metis assetIds_def list.set_map set_sort set_js_set)
  then have own: "list_all assignable (assetIds (st_entries st))" using assms(4) by (auto simp: chained_assets_def list_all_iff)
  obtain tips where t: "verify_loop env None [] (journal ml) = Inr (ml_tip ml, tips)"
    "map_of tips = map_of (ml_assetTips ml)"
    using assms(2) by (auto simp: chain_inv_def)
  from verify_post_tx [OF t(2) own, of env r "randomUUID env (ml_uuids ml)" "now env (st_clock st)"]
  obtain tips' where t': "verify_tx env (ml_tip ml) tips tx = Some (ml_tip ml', tips')"
    "map_of tips' = map_of (ml_assetTips ml')"
    using assms(3) by (auto simp: staged_post_def commit_def)
  show ?thesis
    using verify_loop_snoc [OF t(1) t'(1)] t'(2) by (simp add: chain_inv_def commit_journal [OF assms(1,3)])
qed

section \<open>Posting\<close>

lemma getTxByKey_None:
  "mem_inv env ml \<Longrightarrow> getTxByKey ml k = None \<longleftrightarrow> map_of (ml_txByKey ml) k = None"
  unfolding mem_inv_def txs_inv_def getTxByKey_def by (cases "map_of (ml_txByKey ml) k") force+

text \<open>Equal up to the counters of drawn ids and clock readings.\<close>

definition same_book :: "mem_ledger \<Rightarrow> mem_ledger \<Rightarrow> bool" where
  "same_book ml ml' \<longleftrightarrow> ml' = ml\<lparr>ml_uuids := ml_uuids ml', ml_clock := ml_clock ml'\<rparr>"

lemma same_book_refl [simp]: "same_book ml ml"
  by (simp add: same_book_def)

lemma same_bookD:
  assumes "same_book ml ml'"
  shows "ml_accounts ml' = ml_accounts ml" "ml_balances ml' = ml_balances ml" "ml_txs ml' = ml_txs ml"
    "ml_txByKey ml' = ml_txByKey ml" "ml_fingerprintByKey ml' = ml_fingerprintByKey ml"
    "ml_conflict ml' = ml_conflict ml" "ml_txOrder ml' = ml_txOrder ml" "ml_tip ml' = ml_tip ml"
    "ml_assetTips ml' = ml_assetTips ml"
  using assms unfolding same_book_def by (metis mem_ledger.simps mem_ledger.surjective mem_ledger.update_convs)+

lemma same_book_key_balance: "same_book ml ml' \<Longrightarrow> key_balance ml' = key_balance ml"
  by (simp add: key_balance_def fun_eq_iff same_bookD split: option.split)

lemma same_book_getTxByKey: "same_book ml ml' \<Longrightarrow> getTxByKey ml' = getTxByKey ml"
  by (simp add: getTxByKey_def fun_eq_iff same_bookD split: option.split)

lemma same_book_mem_inv:
  assumes "mem_inv env ml" "same_book ml ml'" "ml_uuids ml \<le> ml_uuids ml'"
  shows "mem_inv env ml'"
proof -
  have j: "journal ml' = journal ml" by (simp add: journal_def same_bookD [OF assms(2)])
  note b = same_bookD [OF assms(2)]
  have up: "(\<exists>j < ml_uuids ml. x = randomUUID env j) \<Longrightarrow> (\<exists>j < ml_uuids ml'. x = randomUUID env j)" for x
    using assms(3) less_le_trans by blast
  have "accounts_inv env ml'"
    using assms(1) up unfolding mem_inv_def accounts_inv_def b by (simp del: map_of_eq_Some_iff)
  moreover have "txs_inv env ml'"
    using assms(1) up unfolding mem_inv_def txs_inv_def b by simp
  ultimately show ?thesis
    using assms(1) unfolding mem_inv_def funds_inv_def replay_inv_def j b by blast
qed

lemma post_cases:
  assumes inv: "mem_inv env ml" and p: "post env ml r = (ml', res)"
  obtains (refused) e where "res = Inl e" "same_book ml ml'" "ml_uuids ml \<le> ml_uuids ml'"
      "getTxByKey ml (idempotencyKey r) = None \<Longrightarrow>
         assertValidPost r \<noteq> Inr () \<or> \<not> funded ml [] (req_entries r)"
  | (retry) tx where "res = Inr tx" "ml' = ml" "getTxByKey ml (idempotencyKey r) = Some tx"
  | (booked) st tx where "res = Inr tx" "getTxByKey ml (idempotencyKey r) = None" "assertValidPost r = Inr ()"
      "funded ml [] (req_entries r)" "staged_post env ml r st tx ml'"
proof (cases "assertIdempotencyKey (Some (idempotencyKey r))")
  case (Inl e)
  then have "assertValidPost r \<noteq> Inr ()" by (simp add: assertValidPost_def)
  then show thesis using p Inl by (intro refused) (auto simp: post_def)
next
  case Inr
  show thesis
  proof (cases "map_of (ml_txByKey ml) (idempotencyKey r)")
    case None
    then have n: "getTxByKey ml (idempotencyKey r) = None" by (simp add: getTxByKey_def)
    show thesis
    proof (cases "assertValidPost r")
      case (Inl e)
      then show thesis using p Inr None by (intro refused) (auto simp: post_def)
    next
      case ok: (Inr u)
      then have b: "book env ml r = (ml', res)" using p Inr None by (simp add: post_def)
      show thesis
        using inv b
      proof (cases rule: book_cases)
        case (refused e u c)
        then show thesis by (intro that(1)) (auto simp: same_book_def)
      next
        case (booked st tx)
        then show thesis using ok n by (intro that(3)) auto
      qed
    qed
  next
    case (Some i)
    have "i \<noteq> [] \<and> (\<exists>tx. map_of (ml_txs ml) i = Some tx)"
      using inv Some unfolding mem_inv_def txs_inv_def by blast
    then obtain tx where i: "i \<noteq> []" "map_of (ml_txs ml) i = Some tx" by blast
    then have g: "getTxByKey ml (idempotencyKey r) = Some tx" using Some by (simp add: getTxByKey_def)
    show thesis
    proof (cases res)
      case (Inl e)
      then show thesis using p Inr Some i g by (intro refused) (auto simp: post_def split: if_splits)
    next
      case Inr': (Inr t)
      then show thesis using p Inr Some i g by (intro retry [of t]) (auto simp: post_def split: if_splits)
    qed
  qed
qed

lemma post_mem_inv: "mem_inv env ml \<Longrightarrow> mem_inv env (fst (post env ml r))"
proof -
  assume inv: "mem_inv env ml"
  obtain ml' res where p: "post env ml r = (ml', res)" by fastforce
  from inv p show ?thesis
    using same_book_mem_inv [OF inv] commit_mem_inv [OF inv]
    by (cases rule: post_cases) (use inv p in auto)
qed

lemma staged_post_getTxByKey:
  assumes "good_env env" "staged_post env ml r st tx ml'" "txs_inv env ml"
  shows "getTxByKey ml' (idempotencyKey r) = Some tx"
    "k \<noteq> idempotencyKey r \<Longrightarrow> getTxByKey ml' k = getTxByKey ml k"
proof -
  note d = staged_postD [OF assms(2)] and fresh = fresh_tx_id [OF assms(1,3)]
  have ne: "randomUUID env (ml_uuids ml) \<noteq> []" using assms(1) by (simp add: good_env_def)
  show "getTxByKey ml' (idempotencyKey r) = Some tx" by (simp add: getTxByKey_def d ne)
  assume k: "k \<noteq> idempotencyKey r"
  have "i \<noteq> randomUUID env (ml_uuids ml)" if "map_of (ml_txByKey ml) k = Some i" for i
    using that fresh assms(3) unfolding txs_inv_def by force
  then show "getTxByKey ml' k = getTxByKey ml k"
    using k by (simp add: getTxByKey_def d split: option.split)
qed

section \<open>The contract of a ledger client\<close>

text \<open>
  \<open>LedgerClient\<close>: what a caller of \<open>post\<close>, \<open>balance\<close> and \<open>getTxByKey\<close> relies on. A refused post
  moves nothing; a booked one moves exactly its entries and is found under its key; a reused key
  answers with the transaction it booked and moves nothing; a valid, funded request under a new
  key is booked; no balance outside the treasury boundary is negative.
\<close>

locale ledger_client =
  fixes ok :: "'s \<Rightarrow> bool"
    and do_post :: "'s \<Rightarrow> post_request \<Rightarrow> 's \<times> (ledger_error + ledger_tx)"
    and amount_at :: "'s \<Rightarrow> account_ref \<Rightarrow> amount"
    and tx_by_key :: "'s \<Rightarrow> string \<Rightarrow> ledger_tx option"
  assumes ok_post: "ok s \<Longrightarrow> ok (fst (do_post s r))"
    and post_refused: "ok s \<Longrightarrow> do_post s r = (s', Inl e) \<Longrightarrow> amount_at s' = amount_at s \<and> tx_by_key s' = tx_by_key s"
    and post_retry: "ok s \<Longrightarrow> tx_by_key s (idempotencyKey r) = Some tx \<Longrightarrow> do_post s r = (s', Inr tx') \<Longrightarrow>
          tx' = tx \<and> amount_at s' = amount_at s \<and> tx_by_key s' = tx_by_key s"
    and post_booked: "ok s \<Longrightarrow> tx_by_key s (idempotencyKey r) = None \<Longrightarrow> do_post s r = (s', Inr tx) \<Longrightarrow>
          (\<forall>ref. amount_at s' ref = amount_at s ref + key_net (req_entries r) (accountKey ref))
          \<and> tx_by_key s' = (tx_by_key s)(idempotencyKey r \<mapsto> tx)"
    and funds_nonneg: "ok s \<Longrightarrow> ownerType ref \<noteq> Treasury \<Longrightarrow> 0 \<le> amount_at s ref"
begin

definition run :: "'s \<Rightarrow> post_request list \<Rightarrow> 's" where
  "run s rs = foldl (\<lambda>s r. fst (do_post s r)) s rs"

text \<open>The requests of a run that moved value, in order.\<close>

fun moved :: "'s \<Rightarrow> post_request list \<Rightarrow> post_request list" where
  "moved s [] = []"
| "moved s (r # rs) =
     (if tx_by_key s (idempotencyKey r) = None \<and> \<not> isl (snd (do_post s r)) then [r] else [])
     @ moved (fst (do_post s r)) rs"

lemma run_simps [simp]: "run s [] = s" "run s (r # rs) = run (fst (do_post s r)) rs"
  by (simp_all add: run_def)

lemma run_ok: "ok s \<Longrightarrow> ok (run s rs)"
  by (induction rs arbitrary: s) (auto simp: ok_post)

lemma tx_stays:
  assumes "ok s" "tx_by_key s k = Some tx"
  shows "tx_by_key (run s rs) k = Some tx"
  using assms
proof (induction rs arbitrary: s)
  case Nil
  then show ?case by simp
next
  case (Cons r rs)
  obtain s' res where p: "do_post s r = (s', res)" by fastforce
  have "tx_by_key s' k = Some tx"
  proof (cases res)
    case (Inl e)
    then show ?thesis using post_refused [OF Cons.prems(1)] p Cons.prems(2) by auto
  next
    case (Inr t)
    then have p': "do_post s r = (s', Inr t)" using p by simp
    show ?thesis
      using post_booked [OF Cons.prems(1) _ p'] post_retry [OF Cons.prems(1) _ p'] Inr Cons.prems(2)
      by (cases "tx_by_key s (idempotencyKey r)") auto
  qed
  then show ?case using Cons.IH [of s'] ok_post [OF Cons.prems(1), of r] p by simp
qed

lemma run_amount:
  assumes "ok s"
  shows "amount_at (run s rs) ref = amount_at s ref + key_net (concat (map req_entries (moved s rs))) (accountKey ref)"
  using assms
proof (induction rs arbitrary: s)
  case Nil
  then show ?case by simp
next
  case (Cons r rs)
  obtain s' res where p: "do_post s r = (s', res)" by fastforce
  have ok': "ok s'" using ok_post [OF Cons.prems, of r] p by simp
  have step: "amount_at s' ref = amount_at s ref +
      key_net (if tx_by_key s (idempotencyKey r) = None \<and> \<not> isl res then req_entries r else []) (accountKey ref)"
  proof (cases res)
    case (Inl e)
    then show ?thesis using post_refused [OF Cons.prems] p by auto
  next
    case (Inr t)
    then have p': "do_post s r = (s', Inr t)" using p by simp
    show ?thesis
      using post_booked [OF Cons.prems _ p'] post_retry [OF Cons.prems _ p'] Inr
      by (cases "tx_by_key s (idempotencyKey r)") auto
  qed
  show ?case using Cons.IH [OF ok'] step p by (simp add: key_net_append)
qed

text \<open>A retry of a booked request, at any later time, answers with the booked transaction or refuses.\<close>

lemma late_retry:
  assumes "ok s" "do_post s r = (s1, Inr tx)" "do_post (run s1 rs) r = (s2, res)"
  shows "(res = Inr tx \<or> (\<exists>e. res = Inl e)) \<and> amount_at s2 = amount_at (run s1 rs)"
proof -
  have ok1: "ok s1" using ok_post [OF assms(1), of r] assms(2) by simp
  have "tx_by_key s1 (idempotencyKey r) = Some tx"
    using post_booked [OF assms(1) _ assms(2)] post_retry [OF assms(1) _ assms(2)]
    by (cases "tx_by_key s (idempotencyKey r)") auto
  then have t: "tx_by_key (run s1 rs) (idempotencyKey r) = Some tx" by (rule tx_stays [OF ok1])
  note ok2 = run_ok [OF ok1, of rs]
  show ?thesis
    using post_retry [OF ok2 t] post_refused [OF ok2] assms(3) by (cases res) auto
qed

text \<open>Two booked requests whose movements cancel restore every balance.\<close>

lemma cancelling_posts:
  assumes "ok s" "tx_by_key s (idempotencyKey r) = None" "do_post s r = (s1, Inr t1)"
    and "tx_by_key s1 (idempotencyKey q) = None" "do_post s1 q = (s2, Inr t2)"
    and "\<And>k. key_net (req_entries q) k = - key_net (req_entries r) k"
  shows "amount_at s2 = amount_at s"
proof
  fix ref
  have "ok s1" using ok_post [OF assms(1), of r] assms(3) by simp
  then have "amount_at s2 ref = amount_at s1 ref + key_net (req_entries q) (accountKey ref)"
    using post_booked [OF _ assms(4,5)] by blast
  moreover have "amount_at s1 ref = amount_at s ref + key_net (req_entries r) (accountKey ref)"
    using post_booked [OF assms(1-3)] by blast
  ultimately show "amount_at s2 ref = amount_at s ref" by (simp add: assms(6))
qed

end

definition ml_ok :: "env \<times> mem_ledger \<Rightarrow> bool" where
  "ml_ok s = mem_inv (fst s) (snd s)"

definition ml_post :: "env \<times> mem_ledger \<Rightarrow> post_request \<Rightarrow> (env \<times> mem_ledger) \<times> (ledger_error + ledger_tx)" where
  "ml_post s r = (let (ml', res) = post (fst s) (snd s) r in ((fst s, ml'), res))"

definition ml_amount :: "env \<times> mem_ledger \<Rightarrow> account_ref \<Rightarrow> amount" where
  "ml_amount s ref = bal_amount (balance (snd s) ref)"

definition ml_by_key :: "env \<times> mem_ledger \<Rightarrow> string \<Rightarrow> ledger_tx option" where
  "ml_by_key s k = getTxByKey (snd s) k"

lemma ml_post_eq: "ml_post s r = ((e, ml'), res) \<longleftrightarrow> e = fst s \<and> post (fst s) (snd s) r = (ml', res)"
  by (auto simp: ml_post_def split: prod.splits)

lemma funds_inv_key_balance:
  assumes "mem_inv env ml" "ownerType ref \<noteq> Treasury"
  shows "0 \<le> key_balance ml (accountKey ref)"
proof (cases "map_of (ml_accounts ml) (accountKey ref)")
  case None
  then show ?thesis by (simp add: key_balance_def)
next
  case (Some a)
  then have "accountKey (ref_of a) = accountKey ref"
    using assms(1) unfolding mem_inv_def accounts_inv_def by blast
  then have "ownerType a = ownerType ref" using accountKey_owner_type [of "ref_of a" ref] by (simp add: ref_of_def)
  then show ?thesis using assms Some unfolding mem_inv_def funds_inv_def by (simp add: key_balance_def)
qed

interpretation ml: ledger_client ml_ok ml_post ml_amount ml_by_key
proof
  fix s r s' and tx :: ledger_tx
  show "ml_ok s \<Longrightarrow> ml_ok (fst (ml_post s r))"
    using post_mem_inv [of "fst s" "snd s" r]
    by (cases "post (fst s) (snd s) r") (simp add: ml_ok_def ml_post_def)
  show "ml_amount s' = ml_amount s \<and> ml_by_key s' = ml_by_key s"
    if ok: "ml_ok s" and p: "ml_post s r = (s', Inl e)" for e
  proof -
    have "post (fst s) (snd s) r = (snd s', Inl e)" using p by (cases s') (simp add: ml_post_eq)
    then have "same_book (snd s) (snd s')"
      by (rule post_cases [OF ok [unfolded ml_ok_def]]) auto
    then show ?thesis
      by (simp add: ml_amount_def ml_by_key_def fun_eq_iff same_book_key_balance same_book_getTxByKey)
  qed
  show "tx' = tx \<and> ml_amount s' = ml_amount s \<and> ml_by_key s' = ml_by_key s"
    if ok: "ml_ok s" and k: "ml_by_key s (idempotencyKey r) = Some tx" and p: "ml_post s r = (s', Inr tx')" for tx'
  proof -
    have "post (fst s) (snd s) r = (snd s', Inr tx')" using p by (cases s') (simp add: ml_post_eq)
    then have "snd s' = snd s \<and> tx' = tx"
      by (rule post_cases [OF ok [unfolded ml_ok_def]]) (use k in \<open>auto simp: ml_by_key_def\<close>)
    then show ?thesis by (simp add: ml_amount_def ml_by_key_def fun_eq_iff)
  qed
  show "(\<forall>ref. ml_amount s' ref = ml_amount s ref + key_net (req_entries r) (accountKey ref))
          \<and> ml_by_key s' = (ml_by_key s)(idempotencyKey r \<mapsto> tx)"
    if ok: "ml_ok s" and k: "ml_by_key s (idempotencyKey r) = None" and p: "ml_post s r = (s', Inr tx)"
  proof -
    have "post (fst s) (snd s) r = (snd s', Inr tx)" using p by (cases s') (simp add: ml_post_eq)
    then obtain st where st: "staged_post (fst s) (snd s) r st tx (snd s')"
      by (rule post_cases [OF ok [unfolded ml_ok_def]]) (use k in \<open>auto simp: ml_by_key_def\<close>)
    have "good_env (fst s)" "txs_inv (fst s) (snd s)" using ok by (simp_all add: ml_ok_def mem_inv_def)
    note g = staged_post_getTxByKey [OF this(1) st this(2)]
    show ?thesis
      using commit_key_balance [OF st] g by (auto simp: ml_amount_def ml_by_key_def fun_eq_iff)
  qed
  show "0 \<le> ml_amount s ref" if "ml_ok s" "ownerType ref \<noteq> Treasury" for ref
    using that funds_inv_key_balance by (simp add: ml_ok_def ml_amount_def)
qed

end
