(* ===== verification/Ledger_Props.thy ===== *)
theory Ledger_Props
  imports Ledger_Book
begin

text \<open>
  What every history of posts against the reference ledger guarantees: the properties of
  \<open>MemoryLedger\<close>, each with a witness on a small book, and the one defect of its account keys.
\<close>

section \<open>Histories\<close>

definition run_posts :: "env \<Rightarrow> mem_ledger \<Rightarrow> post_request list \<Rightarrow> mem_ledger" where
  "run_posts env ml rs = foldl (\<lambda>m r. fst (post env m r)) ml rs"

lemma run_posts_simps [simp]:
  "run_posts env ml [] = ml" "run_posts env ml (r # rs) = run_posts env (fst (post env ml r)) rs"
  by (simp_all add: run_posts_def)

lemma run_posts_snoc: "run_posts env ml (rs @ [r]) = fst (post env (run_posts env ml rs) r)"
  by (simp add: run_posts_def)

lemma run_posts_ml: "ml.run (env, ml) rs = (env, run_posts env ml rs)"
proof (induction rs arbitrary: ml)
  case Nil
  then show ?case by simp
next
  case (Cons r rs)
  have "fst (ml_post (env, ml) r) = (env, fst (post env ml r))"
    by (cases "post env ml r") (simp add: ml_post_def)
  then show ?case using Cons by simp
qed

lemma run_posts_inv: "mem_inv env ml \<Longrightarrow> mem_inv env (run_posts env ml rs)"
  by (induction rs arbitrary: ml) (auto simp: post_mem_inv)

lemma reach_inv: "good_env env \<Longrightarrow> mem_inv env (run_posts env (empty_ledger m) rs)"
  by (simp add: mem_inv_empty run_posts_inv)

section \<open>Totals\<close>

definition keys_of_asset :: "mem_ledger \<Rightarrow> string \<Rightarrow> string set" where
  "keys_of_asset ml a = {k. \<exists>x. map_of (ml_accounts ml) k = Some x \<and> assetId x = a}"

definition asset_total :: "mem_ledger \<Rightarrow> string \<Rightarrow> amount" where
  "asset_total ml a = (\<Sum>k \<in> keys_of_asset ml a. key_balance ml k)"

lemma finite_keys_of_asset [simp]: "finite (keys_of_asset ml a)"
proof (rule finite_subset)
  show "keys_of_asset ml a \<subseteq> dom (map_of (ml_accounts ml))" by (auto simp: keys_of_asset_def)
qed (rule finite_dom_map_of)

lemma sum_key_net:
  "finite K \<Longrightarrow> (\<Sum>k \<in> K. key_net es k) = (\<Sum>e\<leftarrow>filter (\<lambda>e. accountKey (entry_account e) \<in> K) es. signedDelta e)"
  by (induction es) (simp_all add: sum.distrib)

definition safe_accounts :: "mem_ledger \<Rightarrow> bool" where
  "safe_accounts ml \<longleftrightarrow> (\<forall>k a. map_of (ml_accounts ml) k = Some a \<longrightarrow> key_safe (ref_of a))"

lemma stageAccount_refs:
  assumes "stageAccount env ml ref st = (a, st1)" "map_of (st_pending st1) k = Some b"
  shows "map_of (st_pending st) k = Some b \<or> ref_of b = ref"
  using assms by (auto simp: stageAccount_def Let_def ref_of_def mk_ref_def split: option.splits if_splits)

lemma stage_entries_refs:
  "stage_entries env ml txId es st = (st', res) \<Longrightarrow> map_of (st_pending st') k = Some b \<Longrightarrow>
     map_of (st_pending st) k = Some b \<or> ref_of b \<in> entry_account ` set es"
proof (induction es arbitrary: st)
  case Nil
  then show ?case by simp
next
  case (Cons e es)
  obtain a st1 where sa: "stageAccount env ml (entry_account e) st = (a, st1)" by fastforce
  show ?case
    using Cons.prems Cons.IH stageAccount_refs [OF sa, of k b]
    by (auto simp: sa Let_def split: if_splits) fastforce+
qed

lemma commit_safe:
  assumes "mem_inv env ml" "staged_post env ml r st tx ml'" "safe_accounts ml"
    and "\<forall>e \<in> set (req_entries r). key_safe (entry_account e)"
  shows "safe_accounts ml'"
  unfolding safe_accounts_def
proof (intro allI impI)
  fix k a assume "map_of (ml_accounts ml') k = Some a"
  then have "acct_lookup ml st k = Some a" by (simp add: commit_accounts [OF assms(2)])
  then have "map_of (ml_accounts ml) k = Some a \<or> map_of (st_pending st) k = Some a"
    by (auto simp: acct_lookup_def split: option.splits)
  moreover have "map_of (st_pending st) k = Some a \<Longrightarrow> ref_of a \<in> entry_account ` set (req_entries r)"
    using assms(2) stage_entries_refs [of env ml _ "req_entries r" "init_stage ml" st None k a]
    by (auto simp: staged_post_def init_stage_def)
  ultimately show "key_safe (ref_of a)" using assms(3,4) by (auto simp: safe_accounts_def)
qed

lemma commit_asset_total:
  assumes inv: "mem_inv env ml" and sp: "staged_post env ml r st tx ml'" and safe: "safe_accounts ml'"
    and es: "\<forall>e \<in> set (req_entries r). key_safe (entry_account e)"
  shows "asset_total ml' a = asset_total ml a + asset_net (req_entries r) a"
proof -
  have inv': "mem_inv env ml'" by (rule commit_mem_inv [OF inv sp])
  have grow: "map_of (ml_accounts ml') k = Some x" if "map_of (ml_accounts ml) k = Some x" for k x
    using that by (simp add: commit_accounts [OF sp] acct_lookup_def)
  have sub: "keys_of_asset ml a \<subseteq> keys_of_asset ml' a"
    using grow by (auto simp: keys_of_asset_def)
  have new0: "key_balance ml k = 0" if "k \<in> keys_of_asset ml' a - keys_of_asset ml a" for k
  proof (cases "map_of (ml_accounts ml) k")
    case None
    then show ?thesis by (simp add: key_balance_def)
  next
    case (Some x)
    then show ?thesis using that grow by (auto simp: keys_of_asset_def)
  qed
  have mem: "accountKey (entry_account e) \<in> keys_of_asset ml' a \<longleftrightarrow> assetId (entry_account e) = a"
    if em: "e \<in> set (req_entries r)" for e
  proof -
    obtain x where x: "map_of (ml_accounts ml') (accountKey (entry_account e)) = Some x"
      using staged_invD(4) [OF staged_postD(2) [OF sp] em] by (auto simp: commit_accounts [OF sp])
    then have "accountKey (ref_of x) = accountKey (entry_account e)"
      using inv' unfolding mem_inv_def accounts_inv_def by blast
    moreover have "key_safe (ref_of x)" using safe x by (auto simp: safe_accounts_def)
    ultimately have "assetId (ref_of x) = assetId (entry_account e)"
      using es em accountKey_inj_parts(3) by blast
    then show ?thesis using x by (simp add: keys_of_asset_def ref_of_def)
  qed
  have "asset_total ml' a = (\<Sum>k \<in> keys_of_asset ml' a. key_balance ml k) + (\<Sum>k \<in> keys_of_asset ml' a. key_net (req_entries r) k)"
    by (simp add: asset_total_def commit_key_balance [OF sp] sum.distrib)
  also have "(\<Sum>k \<in> keys_of_asset ml' a. key_balance ml k) = asset_total ml a"
    unfolding asset_total_def using sub new0 by (intro sum.mono_neutral_right) auto
  also have "(\<Sum>k \<in> keys_of_asset ml' a. key_net (req_entries r) k) = asset_net (req_entries r) a"
    unfolding sum_key_net [OF finite_keys_of_asset] asset_net_def
    using mem by (metis (mono_tags, lifting) filter_cong)
  finally show ?thesis .
qed

text \<open>Books of unambiguous keys close to zero in every asset that the balance check reports.\<close>

lemma run_posts_totals:
  assumes "good_env env" "\<forall>r \<in> set rs. \<forall>e \<in> set (req_entries r). key_safe (entry_account e)"
  shows "safe_accounts (run_posts env (empty_ledger m) rs) \<and> (\<forall>a. assignable a \<longrightarrow> asset_total (run_posts env (empty_ledger m) rs) a = 0)"
  using assms(2)
proof (induction rs rule: rev_induct)
  case Nil
  then show ?case by (simp add: safe_accounts_def empty_ledger_def asset_total_def keys_of_asset_def)
next
  case (snoc r rs)
  define ml where "ml = run_posts env (empty_ledger m) rs"
  obtain ml' res where p: "post env ml r = (ml', res)" by fastforce
  have inv: "mem_inv env ml" unfolding ml_def by (rule reach_inv [OF assms(1)])
  have IH: "safe_accounts ml" "\<And>a. assignable a \<Longrightarrow> asset_total ml a = 0" using snoc by (simp_all add: ml_def)
  have es: "\<forall>e \<in> set (req_entries r). key_safe (entry_account e)" using snoc.prems by simp
  from inv p have "safe_accounts ml' \<and> (\<forall>a. assignable a \<longrightarrow> asset_total ml' a = 0)"
  proof (cases rule: post_cases)
    case (refused e)
    then show ?thesis
      using IH same_bookD(1) [OF refused(2)] same_book_key_balance [OF refused(2)]
      by (simp add: safe_accounts_def asset_total_def keys_of_asset_def)
  next
    case (retry tx)
    then show ?thesis using IH by simp
  next
    case (booked st tx)
    have "\<forall>a. assignable a \<longrightarrow> asset_net (req_entries r) a = 0" using booked(3) assertValidPost_Inr by metis
    then show ?thesis
      using commit_safe [OF inv booked(5) IH(1) es] commit_asset_total [OF inv booked(5) _ es] IH(2) by simp
  qed
  then show ?case by (simp add: run_posts_snoc ml_def [symmetric] p)
qed

lemma asset_totals_get:
  "alist_get (foldl (\<lambda>m x. AList.update (f x) (alist_get m (f x) 0 + g x) m) m xs) a (0 :: int)
    = alist_get m a 0 + (\<Sum>x\<leftarrow>filter (\<lambda>x. f x = a) xs. g x)"
  by (induction xs arbitrary: m) (simp_all add: alist_get_update)

lemma asset_totals_distinct:
  "distinct (map fst m) \<Longrightarrow>
     distinct (map fst (foldl (\<lambda>m x. AList.update (f x) (alist_get m (f x) (0 :: int) + g x) m) m xs))"
  by (induction xs arbitrary: m) (simp_all add: distinct_update)

lemma asset_totals_total:
  assumes "mem_inv env ml"
  shows "alist_get (asset_totals ml) a 0 = asset_total ml a"
proof -
  define ps where "ps = filter (\<lambda>p. assetId (snd p) = a) (ml_accounts ml)"
  have d: "distinct (map fst (ml_accounts ml))" using assms by (simp add: mem_inv_def accounts_inv_def)
  then have dp: "distinct (map fst ps)" unfolding ps_def by (simp add: distinct_map_filter)
  have kb: "key_balance ml (fst p) = alist_get (ml_balances ml) (acc_id (snd p)) 0" if "p \<in> set ps" for p
  proof -
    have "map_of (ml_accounts ml) (fst p) = Some (snd p)" using that d by (simp add: ps_def map_of_is_SomeI)
    then show ?thesis by (simp add: key_balance_def)
  qed
  have "alist_get (asset_totals ml) a 0 = (\<Sum>p\<leftarrow>ps. alist_get (ml_balances ml) (acc_id (snd p)) 0)"
    unfolding asset_totals_def asset_totals_get ps_def by (simp add: filter_map comp_def)
  also have "\<dots> = (\<Sum>p\<leftarrow>ps. key_balance ml (fst p))" using kb by (metis (no_types, lifting) map_cong)
  also have "\<dots> = (\<Sum>k \<in> set (map fst ps). key_balance ml k)"
    using sum_list_distinct_conv_sum_set [OF dp, of "key_balance ml"] by (simp add: comp_def)
  also have "set (map fst ps) = keys_of_asset ml a"
    using d by (force simp: ps_def keys_of_asset_def map_of_eq_Some_iff)
  finally show ?thesis by (simp add: asset_total_def)
qed

lemma totalsByAsset_zero:
  assumes "mem_inv env ml" "asset_total ml a = 0" "(a, t) \<in> set (totalsByAsset ml)"
  shows "t = ''0''"
proof -
  obtain v where v: "(a, v) \<in> set (asset_totals ml)" "t = formatAmount v"
    using assms(3) by (auto simp: totalsByAsset_def)
  have "distinct (map fst (asset_totals ml))"
    unfolding asset_totals_def by (rule asset_totals_distinct) simp
  then have "alist_get (asset_totals ml) a 0 = v" using v(1) by (simp add: alist_get_def map_of_eq_Some_iff map_of_is_SomeI)
  then have "v = 0" using asset_totals_total [OF assms(1)] assms(2) by simp
  moreover have "formatAmount 0 = ''0''" by code_simp
  ultimately show ?thesis using v(2) by simp
qed

section \<open>Replay and retries\<close>

lemma replay_get: "alist_get (replay txs) i 0 = journal_net txs i"
  unfolding replay_def journal_net_def asset_totals_get by simp

lemma reconcile_ok: "mem_inv env ml \<Longrightarrow> reconcile ml = []"
  by (simp add: reconcile_def Let_def filter_empty_conv replay_get mem_inv_def replay_inv_def)

lemma run_posts_chain:
  assumes "good_env env" "\<forall>r \<in> set rs. chained_assets r"
  shows "chain_inv env (run_posts env (empty_ledger m) rs)"
  using assms(2)
proof (induction rs rule: rev_induct)
  case Nil
  then show ?case by (simp add: chain_inv_def empty_ledger_def journal_def)
next
  case (snoc r rs)
  define ml where "ml = run_posts env (empty_ledger m) rs"
  obtain ml' res where p: "post env ml r = (ml', res)" by fastforce
  have inv: "mem_inv env ml" unfolding ml_def by (rule reach_inv [OF assms(1)])
  have ch: "chain_inv env ml" using snoc by (simp add: ml_def)
  from inv p have "chain_inv env ml'"
  proof (cases rule: post_cases)
    case (refused e)
    then show ?thesis using ch by (simp add: chain_inv_def journal_def same_bookD [OF refused(2)])
  next
    case (retry tx)
    then show ?thesis using ch by simp
  next
    case (booked st tx)
    then show ?thesis using commit_chain_inv [OF inv ch booked(5)] snoc.prems by simp
  qed
  then show ?case by (simp add: run_posts_snoc ml_def [symmetric] p)
qed

lemma verifyChain_ok: "chain_inv env ml \<Longrightarrow> verifyChain env ml = None"
  by (auto simp: verifyChain_def chain_inv_def)

text \<open>What a successful post leaves under its key, and that later posts keep it.\<close>

definition answers :: "env \<Rightarrow> post_request \<Rightarrow> ledger_tx \<Rightarrow> mem_ledger \<Rightarrow> bool" where
  "answers env r tx ml \<longleftrightarrow> 8 \<le> length (idempotencyKey r) \<and> getTxByKey ml (idempotencyKey r) = Some tx \<and>
     (map_of (ml_fingerprintByKey ml) (idempotencyKey r) = Some (postFingerprint (sha256 env) r) \<or> ml_conflict ml = Detect)"

lemma answers_post: "answers env r tx ml \<Longrightarrow> post env ml r = (ml, Inr tx)"
  by (auto simp: answers_def post_def assertIdempotencyKey_def getTxByKey_def split: option.splits if_splits)

lemma post_Inr_key: "post env ml r = (ml', Inr tx) \<Longrightarrow> 8 \<le> length (idempotencyKey r)"
  by (auto simp: post_def assertIdempotencyKey_def split: option.splits if_splits sum.splits)

lemma post_answers:
  assumes "mem_inv env ml" "post env ml r = (ml', Inr tx)"
  shows "answers env r tx ml'"
  using assms
proof (cases rule: post_cases)
  case (retry t)
  have "map_of (ml_fingerprintByKey ml) (idempotencyKey r) = Some (postFingerprint (sha256 env) r) \<or> ml_conflict ml = Detect"
    using retry assms(2)
    by (cases "ml_conflict ml") (auto simp: post_def getTxByKey_def split: option.splits sum.splits if_splits)
  then show ?thesis using retry post_Inr_key [OF assms(2)] by (simp add: answers_def)
next
  case (booked st t)
  have g: "good_env env" "txs_inv env ml" using assms(1) by (simp_all add: mem_inv_def)
  show ?thesis
    using booked staged_post_getTxByKey(1) [OF g(1) booked(5) g(2)] post_Inr_key [OF assms(2)]
    by (simp add: answers_def staged_postD [OF booked(5)])
qed simp

lemma answers_stays:
  assumes "mem_inv env ml" "answers env r tx ml"
  shows "answers env r tx (fst (post env ml q))"
proof -
  obtain ml' res where p: "post env ml q = (ml', res)" by fastforce
  from assms(1) p have "answers env r tx ml'"
  proof (cases rule: post_cases)
    case (refused e)
    then show ?thesis
      using assms(2) same_bookD [OF refused(2)] same_book_getTxByKey [OF refused(2)] by (simp add: answers_def)
  next
    case (retry t)
    then show ?thesis using assms(2) by simp
  next
    case (booked st t)
    have g: "good_env env" "txs_inv env ml" using assms(1) by (simp_all add: mem_inv_def)
    have k: "idempotencyKey r \<noteq> idempotencyKey q" using booked(2) assms(2) by (auto simp: answers_def)
    then show ?thesis
      using assms(2) staged_post_getTxByKey(2) [OF g(1) booked(5) g(2) k]
      by (simp add: answers_def staged_postD [OF booked(5)])
  qed
  then show ?thesis by (simp add: p)
qed

lemma post_conflict_mode: "ml_conflict (fst (post env ml r)) = ml_conflict ml"
  by (simp add: post_def book_def commit_def Let_def split: sum.splits option.splits prod.splits)

lemma run_conflict_mode: "ml_conflict (run_posts env ml rs) = ml_conflict ml"
  by (induction rs arbitrary: ml) (simp_all add: post_conflict_mode)

text \<open>A key that answers one request refuses another body under it.\<close>

lemma answers_other_body:
  assumes "answers env r tx ml" "ml_conflict ml = Refuse" "idempotencyKey q = idempotencyKey r"
    and "postFingerprint (sha256 env) q \<noteq> postFingerprint (sha256 env) r"
  shows "post env ml q = (ml, Inl (LedgerError IDEMPOTENCY_CONFLICT_CODE))"
  using assms
  by (auto simp: answers_def post_def assertIdempotencyKey_def getTxByKey_def split: option.splits if_splits)

lemma answers_cong:
  "answers env r tx ml \<Longrightarrow> idempotencyKey q = idempotencyKey r \<Longrightarrow>
     postFingerprint (sha256 env) q = postFingerprint (sha256 env) r \<Longrightarrow> answers env q tx ml"
  by (simp add: answers_def)

lemma answers_run: "mem_inv env ml \<Longrightarrow> answers env r tx ml \<Longrightarrow> answers env r tx (run_posts env ml qs)"
  by (induction qs arbitrary: ml) (auto simp: answers_stays post_mem_inv)

text \<open>A post under an unused key is accepted exactly when it is valid and funded.\<close>

lemma accepts_iff:
  assumes "mem_inv env ml" "getTxByKey ml (idempotencyKey r) = None"
  shows "(\<exists>tx. snd (post env ml r) = Inr tx) \<longleftrightarrow> assertValidPost r = Inr () \<and> funded ml [] (req_entries r)"
proof -
  obtain ml' res where p: "post env ml r = (ml', res)" by fastforce
  from assms(1) p show ?thesis
    by (cases rule: post_cases) (use assms(2) p in auto)
qed

section \<open>A small book\<close>

definition demo_env :: env where
  "demo_env = \<lparr>sha256 = id, randomUUID = (\<lambda>n. CHR ''u'' # string_of_nat n), now = string_of_nat\<rparr>"

definition demo_user :: string where
  "demo_user = ''00000000-0000-0000-0000-000000000001''"

definition demo_entry :: "direction \<Rightarrow> account_ref \<Rightarrow> amount \<Rightarrow> entry_input" where
  "demo_entry d ref a = \<lparr>entry_account = ref, entry_direction = d, entry_amount = a\<rparr>"

definition demo_post :: "string \<Rightarrow> account_ref \<Rightarrow> account_ref \<Rightarrow> amount \<Rightarrow> post_request" where
  "demo_post key frm to a = \<lparr>idempotencyKey = key, req_module = ''demo'', req_reason = ''demo.move'',
     req_entries = [demo_entry Credit frm a, demo_entry Debit to a], req_meta = None, correlationId = None\<rparr>"

definition demo_deposit :: post_request where
  "demo_deposit = demo_post ''deposit:1'' (railBoundary ''sandbox'' ''USDT'') (userAvailable demo_user ''USDT'') 500"

definition demo_overdraft :: post_request where
  "demo_overdraft = demo_post ''overdraft:1'' (userAvailable demo_user ''USDT'') (houseFees ''trade'' ''USDT'') 700"

lemma good_demo_env: "good_env demo_env"
  by (simp add: good_env_def demo_env_def inj_def string_of_nat_inj)

definition demo_book :: mem_ledger where
  "demo_book = run_posts demo_env (empty_ledger Refuse) []"

lemma demo_book_inv: "mem_inv demo_env demo_book"
  unfolding demo_book_def by (rule reach_inv [OF good_demo_env])

lemma demo_valid: "assertValidPost demo_deposit = Inr ()" "assertValidPost demo_overdraft = Inr ()"
  by code_simp+

lemma demo_funded: "funded demo_book [] (req_entries demo_deposit)" "\<not> funded demo_book [] (req_entries demo_overdraft)"
  by code_simp+

lemma demo_unused: "getTxByKey demo_book k = None"
  by (simp add: demo_book_def empty_ledger_def getTxByKey_def)

lemma demo_booked: "\<exists>ml' tx. post demo_env demo_book demo_deposit = (ml', Inr tx)"
  using accepts_iff [OF demo_book_inv demo_unused, of demo_deposit] demo_valid(1) demo_funded(1)
  by (metis prod.collapse)

lemma demo_refused: "\<exists>ml' e. post demo_env demo_book demo_overdraft = (ml', Inl e)"
  using accepts_iff [OF demo_book_inv demo_unused, of demo_overdraft] demo_funded(2)
  by (metis prod.collapse sum.exhaust)

lemma demo_amounts: "bal_amount (balance demo_book (userAvailable demo_user ''USDT'')) = 0"
    "key_net (req_entries demo_deposit) (accountKey (userAvailable demo_user ''USDT'')) = 500"
  by code_simp+

section \<open>Properties\<close>

text \<open>C5. A post under a key the ledger has not booked is accepted exactly when the request passes
  \<open>assertValidPost\<close> and every entry, in order, leaves its account non-negative or draws on the
  treasury boundary. This holds on every book a history of posts can reach.\<close>

theorem post_accepts_iff:
  assumes "good_env env" "getTxByKey (run_posts env (empty_ledger m) rs) (idempotencyKey r) = None"
  shows "(\<exists>tx. snd (post env (run_posts env (empty_ledger m) rs) r) = Inr tx)
    \<longleftrightarrow> assertValidPost r = Inr () \<and> funded (run_posts env (empty_ledger m) rs) [] (req_entries r)"
  by (rule accepts_iff [OF reach_inv [OF assms(1)] assms(2)])

theorem post_accepts_iff_witness:
  "good_env demo_env \<and> (\<exists>tx. snd (post demo_env demo_book demo_deposit) = Inr tx)
   \<and> \<not> (\<exists>tx. snd (post demo_env demo_book demo_overdraft) = Inr tx)"
  using post_accepts_iff [OF good_demo_env, of Refuse "[]"] demo_unused demo_valid demo_funded good_demo_env
  unfolding demo_book_def by blast

text \<open>C2. Refinement of the balance sheet: a booked post changes the balance of every account by
  exactly the net of the entries on its key, is found under its idempotency key and ends the
  journal.\<close>

theorem post_moves_entries:
  assumes "good_env env" "getTxByKey (run_posts env (empty_ledger m) rs) (idempotencyKey r) = None"
    and "post env (run_posts env (empty_ledger m) rs) r = (ml', Inr tx)"
  shows "(\<forall>ref. bal_amount (balance ml' ref) =
        bal_amount (balance (run_posts env (empty_ledger m) rs) ref) + key_net (req_entries r) (accountKey ref))
    \<and> getTxByKey ml' (idempotencyKey r) = Some tx
    \<and> journal ml' = journal (run_posts env (empty_ledger m) rs) @ [tx]"
proof -
  note inv = reach_inv [OF assms(1), of m rs]
  from inv assms(3) show ?thesis
  proof (cases rule: post_cases)
    case (booked st t)
    have "txs_inv env (run_posts env (empty_ledger m) rs)" using inv by (simp add: mem_inv_def)
    then show ?thesis
      using booked commit_key_balance [OF booked(5)] commit_journal [OF inv booked(5)]
        staged_post_getTxByKey(1) [OF assms(1) booked(5)] by simp
  qed (use assms(2) in auto)
qed

theorem post_moves_entries_witness:
  "\<exists>ml' tx. post demo_env demo_book demo_deposit = (ml', Inr tx)
     \<and> bal_amount (balance ml' (userAvailable demo_user ''USDT'')) = 500 \<and> journal ml' = [tx]"
proof -
  obtain ml' tx where p: "post demo_env demo_book demo_deposit = (ml', Inr tx)" using demo_booked by blast
  have "journal demo_book = []" by (simp add: demo_book_def empty_ledger_def journal_def)
  then show ?thesis
    using post_moves_entries [OF good_demo_env, of Refuse "[]"] demo_unused p demo_amounts
    unfolding demo_book_def by fastforce
qed

text \<open>A refused post is atomic: whatever the state and whatever the reason, no account is
  opened and no balance, transaction, index or hash tip changes.\<close>

theorem refused_post_changes_nothing:
  assumes "post env ml r = (ml', Inl e)"
  shows "ml_accounts ml' = ml_accounts ml \<and> ml_balances ml' = ml_balances ml \<and> ml_txs ml' = ml_txs ml
    \<and> ml_txByKey ml' = ml_txByKey ml \<and> ml_fingerprintByKey ml' = ml_fingerprintByKey ml
    \<and> ml_txOrder ml' = ml_txOrder ml \<and> ml_tip ml' = ml_tip ml \<and> ml_assetTips ml' = ml_assetTips ml"
  using assms
  by (auto simp: post_def book_def Let_def split: sum.splits option.splits if_splits prod.splits)

text \<open>C9. Idempotency: once a post succeeded, posting the same request again, after any further
  history, returns the original transaction and changes nothing.\<close>

theorem retry_returns_original:
  assumes "good_env env" "post env (run_posts env (empty_ledger m) rs) r = (ml', Inr tx)"
  shows "post env (run_posts env ml' qs) r = (run_posts env ml' qs, Inr tx)"
proof -
  note inv = reach_inv [OF assms(1), of m rs]
  have "mem_inv env ml'" using post_mem_inv [OF inv, of r] assms(2) by simp
  then show ?thesis
    using answers_run post_answers [OF inv assms(2)] answers_post by blast
qed

theorem retry_returns_original_witness:
  "\<exists>ml' tx. post demo_env demo_book demo_deposit = (ml', Inr tx)
     \<and> post demo_env (run_posts demo_env ml' [demo_overdraft]) demo_deposit = (run_posts demo_env ml' [demo_overdraft], Inr tx)"
proof -
  obtain ml' tx where p: "post demo_env demo_book demo_deposit = (ml', Inr tx)" using demo_booked by blast
  show ?thesis
    using retry_returns_original [OF good_demo_env p [unfolded demo_book_def], of "[demo_overdraft]"] p by blast
qed

text \<open>C14. A reused idempotency key is told apart from a retry: with a collision-free digest, a
  ledger in \<open>refuse\<close> mode answers a booked key with the original transaction exactly when the
  new body moves the same value (module, reason, and the same multiset of account, direction and
  amount; order, meta and purpose padding do not matter), and refuses with
  \<^verbatim>\<open>ledger.idempotency_conflict\<close> otherwise. Nothing moves in either case.\<close>

theorem reused_key_refused:
  assumes "good_env env" "inj (sha256 env)" "idempotencyKey q = idempotencyKey r"
    and "post env (run_posts env (empty_ledger Refuse) rs) r = (ml', Inr tx)"
  shows "post env (run_posts env ml' qs) q =
    (run_posts env ml' qs, if same_body q r then Inr tx else Inl (LedgerError IDEMPOTENCY_CONFLICT_CODE))"
proof -
  let ?ml = "run_posts env ml' qs"
  note inv = reach_inv [OF assms(1), of Refuse rs]
  have "mem_inv env ml'" using post_mem_inv [OF inv, of r] assms(4) by simp
  then have ans: "answers env r tx ?ml" using answers_run post_answers [OF inv assms(4)] by blast
  have "ml_conflict ml' = ml_conflict (run_posts env (empty_ledger Refuse) rs)"
    using post_conflict_mode [of env "run_posts env (empty_ledger Refuse) rs" r] assms(4) by simp
  then have ref: "ml_conflict ?ml = Refuse" by (simp add: run_conflict_mode empty_ledger_def)
  note fp = postFingerprint_eq_iff [OF assms(2), of q r]
  show ?thesis
    using fp answers_post [OF answers_cong [OF ans assms(3)]] answers_other_body [OF ans ref assms(3)] by auto
qed

theorem reused_key_refused_witness:
  "\<exists>ml' tx. post demo_env demo_book demo_deposit = (ml', Inr tx)
     \<and> post demo_env ml' (demo_deposit\<lparr>req_reason := ''other''\<rparr>) = (ml', Inl (LedgerError ''ledger.idempotency_conflict''))"
proof -
  obtain ml' tx where p: "post demo_env demo_book demo_deposit = (ml', Inr tx)" using demo_booked by blast
  let ?q = "demo_deposit\<lparr>req_reason := ''other''\<rparr>"
  have "inj (sha256 demo_env)" by (simp add: demo_env_def)
  moreover have "idempotencyKey ?q = idempotencyKey demo_deposit" "\<not> same_body ?q demo_deposit"
    by (simp_all add: same_body_def demo_deposit_def demo_post_def)
  ultimately show ?thesis
    using reused_key_refused [OF good_demo_env _ _ p [unfolded demo_book_def], of ?q "[]"] p
    by (auto simp: IDEMPOTENCY_CONFLICT_CODE_def)
qed

text \<open>C4. After every history of posts, accepted or refused, replaying the journal reproduces the
  live balances and no account outside the treasury boundary is negative; and if no request names
  the asset id \<^verbatim>\<open>__proto__\<close>, the hash chains verify end to end.\<close>

theorem books_reconcile:
  assumes "good_env env"
  shows "reconcile (run_posts env (empty_ledger m) rs) = []
    \<and> (\<forall>ref. ownerType ref \<noteq> Treasury \<longrightarrow> 0 \<le> bal_amount (balance (run_posts env (empty_ledger m) rs) ref))
    \<and> ((\<forall>r \<in> set rs. chained_assets r) \<longrightarrow> verifyChain env (run_posts env (empty_ledger m) rs) = None)"
  using reconcile_ok [OF reach_inv [OF assms]] verifyChain_ok [OF run_posts_chain [OF assms]]
    funds_inv_key_balance [OF reach_inv [OF assms]] by simp

theorem books_reconcile_witness:
  "good_env demo_env \<and> reconcile (run_posts demo_env (empty_ledger Refuse) [demo_deposit, demo_overdraft]) = []
   \<and> verifyChain demo_env (run_posts demo_env (empty_ledger Refuse) [demo_deposit, demo_overdraft]) = None"
proof -
  have "\<forall>r \<in> set [demo_deposit, demo_overdraft]. chained_assets r" by code_simp
  then show ?thesis using books_reconcile [OF good_demo_env] good_demo_env by blast
qed

text \<open>C15. The books close: in a history whose account references have unambiguous keys, every
  asset nets to zero across all accounts, except the asset id \<^verbatim>\<open>__proto__\<close>, which the balance check
  does not see.\<close>

theorem totals_close:
  assumes "good_env env" "\<forall>r \<in> set rs. \<forall>e \<in> set (req_entries r). key_safe (entry_account e)"
  shows "list_all (\<lambda>p. fst p = ''__proto__'' \<or> snd p = ''0'') (totalsByAsset (run_posts env (empty_ledger m) rs))"
proof -
  have z: "\<forall>a. assignable a \<longrightarrow> asset_total (run_posts env (empty_ledger m) rs) a = 0" using run_posts_totals [OF assms] by blast
  show ?thesis using totalsByAsset_zero [OF reach_inv [OF assms(1)]] z by (fastforce simp: list_all_iff assignable_def)
qed

theorem totals_close_witness:
  "list_all (\<lambda>p. fst p = ''__proto__'' \<or> snd p = ''0'') (totalsByAsset (run_posts demo_env (empty_ledger Refuse) [demo_deposit, demo_overdraft]))"
proof -
  have k: "\<forall>r \<in> set [demo_deposit, demo_overdraft]. \<forall>e \<in> set (req_entries r). key_safe (entry_account e)" by code_simp
  show ?thesis using totals_close [OF good_demo_env k, of Refuse] .
qed


definition demo_proto :: entry_input where
  "demo_proto = \<lparr>entry_account = userAvailable demo_user ''__proto__'', entry_direction = Debit, entry_amount = 7\<rparr>"


text \<open>The checks of a post, without their loops: a request is valid exactly when its key has
  eight characters, it has two entries or more, every entry is positive and names an owner of
  the declared identifier space and a pot of a known kind that carries a purpose if and only if
  it is a lock, every asset but \<^verbatim>\<open>__proto__\<close> nets to zero, and no owner locks more of an asset than the same owner
  gives up from its available balance.\<close>

theorem assertValidPost_spec:
  "assertValidPost r = Inr () \<longleftrightarrow>
     8 \<le> length (idempotencyKey r) \<and> 2 \<le> length (req_entries r)
     \<and> (\<forall>e \<in> set (req_entries r). isValidOwnerId (ownerType (entry_account e)) (ownerId (entry_account e))
          \<and> 0 < entry_amount e \<and> good_ref (entry_account e))
     \<and> (\<forall>a. assignable a \<longrightarrow> asset_net (req_entries r) a = 0)
     \<and> (\<forall>k. lock_gain (req_entries r) k \<le> available_given (req_entries r) k)"
  by (rule assertValidPost_Inr)

text \<open>Account keys identify accounts: over references whose asset id has no colon and is not
  the name of a kind, and whose owner id has no segment that is the name of a kind, two keys are
  equal exactly when owner, asset, kind and trimmed purpose are.\<close>

theorem accountKey_identifies:
  assumes "key_safe r" "key_safe s"
  shows "accountKey r = accountKey s \<longleftrightarrow> ownerType r = ownerType s \<and> ownerId r = ownerId s
    \<and> assetId r = assetId s \<and> kind r = kind s \<and> accountPurpose r = accountPurpose s"
  using accountKey_inj_parts [OF assms] by (metis accountKey_def)

lemma js_trim_ends:
  assumes "p \<noteq> []" "\<not> js_ws (hd p)" "\<not> js_ws (last p)"
  shows "js_trim p = p"
proof -
  have "dropWhile js_ws p = p" "dropWhile js_ws (rev p) = rev p"
    using assms by (simp_all add: dropWhile_eq_self_iff hd_rev)
  then show ?thesis by (simp add: js_trim_def)
qed

text \<open>C27. Without that condition they do not: a house account in one asset, whose lock is stamped with a purpose that
  names a second asset and the kind again, has the key of a house account of another owner in the second asset. Both
  have the shape that posts require, and in every ledger they are one balance.\<close>

theorem accountKey_collision:
  assumes "isValidOwnerId House i" "isValidOwnerId House (i @ '':'' @ a @ '':hold'')"
    and "b \<noteq> []" "\<not> js_ws (hd b)" "p \<noteq> []" "\<not> js_ws (hd p)" "\<not> js_ws (last p)"
    and "\<not> starts_with ''legacy:'' (b @ '':hold:'' @ p)" "\<not> starts_with ''legacy:'' p"
    and "r = mk_ref House i a Hold (Some (b @ '':hold:'' @ p))" "s = mk_ref House (i @ '':'' @ a @ '':hold'') b Hold (Some p)"
  shows "good_ref r \<and> good_ref s \<and> ownerId r \<noteq> ownerId s
    \<and> accountKey r = accountKey s \<and> (\<forall>ml. bal_amount (balance ml r) = bal_amount (balance ml s))"
proof -
  have t: "js_trim (b @ '':hold:'' @ p) = b @ '':hold:'' @ p" by (rule js_trim_ends) (use assms(3-7) in simp_all)
  have tp: "js_trim p = p" by (rule js_trim_ends [OF assms(5-7)])
  have k: "accountKey r = accountKey s" using t tp by (simp add: assms(10,11) accountKey_def accountPurpose_def)
  show ?thesis
    using assms(5,8,9) k t tp by (simp add: assms(10,11) good_ref_def known_kind_def accountPurpose_def)
qed

theorem accountKey_collision_witness:
  "\<forall>ml. bal_amount (balance ml (mk_ref House ''a'' ''USDT'' Hold (Some ''BTC:hold:d''))) = bal_amount (balance ml (mk_ref House ''a:USDT:hold'' ''BTC'' Hold (Some ''d'')))"
proof -
  have v: "isValidOwnerId House ''a''" "isValidOwnerId House (''a'' @ '':'' @ ''USDT'' @ '':hold'')" by code_simp+
  show ?thesis using accountKey_collision [OF v, of "''BTC''" "''d''", OF _ _ _ _ _ _ _ refl refl]
    by (simp add: js_ws_def starts_with_def)
qed

end
