(* ===== verification/Recipes_Trade.thy ===== *)
theory Recipes_Trade
  imports Ledger_Client
begin

text \<open>
  \<^verbatim>\<open>packages/ledger-client/src/recipes\<close>, the trading side of \<open>index.ts\<close> with
  \<open>order-hold-amend.ts\<close>, \<open>futures-order-margin.ts\<close> and \<open>fill-correction.ts\<close>: each recipe turns a
  business event into the one post that books it. The fields of an input interface are the
  arguments of its recipe, in order; an absent optional field is \<open>None\<close>. Every throw is a
  branch; the text of a message is not modelled.
\<close>

section \<open>Shared helpers\<close>

definition debit :: "account_ref \<Rightarrow> amount \<Rightarrow> entry_input" where
  "debit account amount = \<lparr>entry_account = account, entry_direction = Debit, entry_amount = amount\<rparr>"

definition credit :: "account_ref \<Rightarrow> amount \<Rightarrow> entry_input" where
  "credit account amount = \<lparr>entry_account = account, entry_direction = Credit, entry_amount = amount\<rparr>"

definition requirePositive :: "amount \<Rightarrow> ledger_error + unit" where
  "requirePositive value = (if value \<le> 0 then Inl InvalidEntryError else Inr ())"

definition requireNonNegative :: "amount \<Rightarrow> ledger_error + unit" where
  "requireNonNegative value = (if value < 0 then Inl InvalidEntryError else Inr ())"

definition require_text :: "string \<Rightarrow> ledger_error + string" where
  "require_text value = (if blank value then Inl InvalidEntryError else Inr value)"

text \<open>The returned object literal of a recipe.\<close>

definition mk_post :: "string \<Rightarrow> string \<Rightarrow> string \<Rightarrow> meta_obj \<Rightarrow> entry_input list \<Rightarrow> post_request" where
  "mk_post key modul reason meta entries =
     \<lparr>idempotencyKey = key, req_module = modul, req_reason = reason, req_entries = entries,
      req_meta = Some meta, correlationId = None\<rparr>"

text \<open>A conditional spread \<open>...(amount > 0n ? [entry] : [])\<close>.\<close>

definition when_pos :: "amount \<Rightarrow> entry_input \<Rightarrow> entry_input list" where
  "when_pos amount e = (if amount > 0 then [e] else [])"

definition namedSubAccount :: "string option \<Rightarrow> string" where
  "namedSubAccount sid = (case sid of None \<Rightarrow> [] | Some s \<Rightarrow> js_trim s)"

definition sub_meta :: "string \<Rightarrow> meta_obj" where
  "sub_meta sid = (if sid = [] then [] else [(''subAccountId'', MStr sid)])"

definition seq_string :: "js_number option \<Rightarrow> string" where
  "seq_string s = js_string (case s of None \<Rightarrow> JSInt 0 | Some n \<Rightarrow> n)"

section \<open>Deposits and withdrawals\<close>

definition depositCreditedAccount :: "string \<Rightarrow> string \<Rightarrow> string option \<Rightarrow> account_ref" where
  "depositCreditedAccount userId asset subId =
     (let sid = namedSubAccount subId
      in if sid \<noteq> [] then subAccountAvailable sid asset else userAvailable userId asset)"

definition assertDepositConfirmed :: "bool option \<Rightarrow> ledger_error + unit" where
  "assertDepositConfirmed confirmed = (if confirmed = Some False then Inl InvalidEntryError else Inr ())"

definition deposit ::
  "string \<Rightarrow> string \<Rightarrow> amount \<Rightarrow> string \<Rightarrow> string \<Rightarrow> string option \<Rightarrow> bool option \<Rightarrow> ledger_error + post_request" where
  "deposit userId asset amount rail railRef subId confirmed =
     bindE (requirePositive amount) (\<lambda>_.
     bindE (assertDepositConfirmed confirmed) (\<lambda>_.
     Inr (mk_post (''deposit:'' @ rail @ '':'' @ railRef) ''ledger'' ''deposit.credited''
       ([(''rail'', MStr rail), (''railRef'', MStr railRef)] @ sub_meta (namedSubAccount subId))
       [credit (railBoundary rail asset) amount, debit (depositCreditedAccount userId asset subId) amount])))"

definition depositReverse ::
  "string \<Rightarrow> string \<Rightarrow> amount \<Rightarrow> string \<Rightarrow> string \<Rightarrow> string option \<Rightarrow> bool option \<Rightarrow> string \<Rightarrow> ledger_error + post_request" where
  "depositReverse userId asset amount rail railRef subId confirmed depositId =
     bindE (requirePositive amount) (\<lambda>_.
     bindE (assertDepositConfirmed confirmed) (\<lambda>_.
     let did = js_trim depositId in
     if did = [] then Inl InvalidEntryError
     else Inr (mk_post (''deposit.reverse:'' @ did) ''ledger'' ''deposit.reversed''
       ([(''rail'', MStr rail), (''railRef'', MStr railRef), (''depositId'', MStr did)] @ sub_meta (namedSubAccount subId))
       [debit (railBoundary rail asset) amount, credit (depositCreditedAccount userId asset subId) amount])))"

definition marketMakerSeedFund :: "string \<Rightarrow> amount \<Rightarrow> string \<Rightarrow> string option \<Rightarrow> ledger_error + post_request" where
  "marketMakerSeedFund asset amount seedId railOpt =
     bindE (requirePositive amount) (\<lambda>_.
     let rail = (case railOpt of None \<Rightarrow> ''mm-seed'' | Some r \<Rightarrow> r) in
     Inr (mk_post (''mm.seed.fund:'' @ seedId @ '':'' @ asset) ''trade'' ''mm.seed.funded''
       [(''seedId'', MStr seedId), (''rail'', MStr rail)]
       [credit (railBoundary rail asset) amount, debit (marketMaker asset) amount]))"

definition withdrawHold :: "string \<Rightarrow> string \<Rightarrow> amount \<Rightarrow> string \<Rightarrow> string \<Rightarrow> ledger_error + post_request" where
  "withdrawHold userId asset amount rail withdrawalId =
     bindE (requirePositive amount) (\<lambda>_.
     bindE (withdrawalHoldAccount userId asset withdrawalId) (\<lambda>hold.
     Inr (mk_post (''withdraw.hold:'' @ withdrawalId) ''ledger'' ''withdraw.held''
       [(''rail'', MStr rail), (''withdrawalId'', MStr withdrawalId)]
       [credit (userAvailable userId asset) amount, debit hold amount])))"

definition withdrawSettle :: "string \<Rightarrow> string \<Rightarrow> amount \<Rightarrow> string \<Rightarrow> string \<Rightarrow> ledger_error + post_request" where
  "withdrawSettle userId asset amount rail withdrawalId =
     bindE (requirePositive amount) (\<lambda>_.
     bindE (withdrawalHoldAccount userId asset withdrawalId) (\<lambda>hold.
     Inr (mk_post (''withdraw.settle:'' @ withdrawalId) ''ledger'' ''withdraw.settled''
       [(''rail'', MStr rail), (''withdrawalId'', MStr withdrawalId)]
       [credit hold amount, debit (railBoundary rail asset) amount])))"

definition withdrawReverse :: "string \<Rightarrow> string \<Rightarrow> amount \<Rightarrow> string \<Rightarrow> string \<Rightarrow> ledger_error + post_request" where
  "withdrawReverse userId asset amount rail withdrawalId =
     bindE (requirePositive amount) (\<lambda>_.
     bindE (withdrawalHoldAccount userId asset withdrawalId) (\<lambda>hold.
     Inr (mk_post (''withdraw.reverse:'' @ withdrawalId) ''ledger'' ''withdraw.reversed''
       [(''rail'', MStr rail), (''withdrawalId'', MStr withdrawalId)]
       [credit hold amount, debit (userAvailable userId asset) amount])))"

section \<open>Spot trading\<close>

datatype side = Buy | Sell

fun side_name :: "side \<Rightarrow> string" where
  "side_name Buy = ''buy''"
| "side_name Sell = ''sell''"

definition tradeFill ::
  "string \<Rightarrow> string \<Rightarrow> string \<Rightarrow> string \<Rightarrow> string \<Rightarrow> string \<Rightarrow> string \<Rightarrow> amount \<Rightarrow> amount \<Rightarrow> side
   \<Rightarrow> js_number \<Rightarrow> js_number \<Rightarrow> ledger_error + post_request" where
  "tradeFill fillId makerId takerId makerOrderId takerOrderId baseAsset quoteAsset qty quoteAmount takerSide
     makerFeeBps takerFeeBps =
     bindE (requirePositive qty) (\<lambda>_.
     bindE (requirePositive quoteAmount) (\<lambda>_.
     let takerBuys = (takerSide = Buy);
         takerPaysAsset = (if takerBuys then quoteAsset else baseAsset);
         takerPaysAmount = (if takerBuys then quoteAmount else qty);
         makerPaysAsset = (if takerBuys then baseAsset else quoteAsset);
         makerPaysAmount = (if takerBuys then qty else quoteAmount)
     in bindE (moneyE (mulBps makerPaysAmount takerFeeBps Ceil)) (\<lambda>takerFee.
        bindE (moneyE (mulBps takerPaysAmount makerFeeBps Ceil)) (\<lambda>makerFee.
        let takerReceives = sub makerPaysAmount takerFee;
            makerReceives = sub takerPaysAmount makerFee
        in if takerReceives \<le> 0 \<or> makerReceives \<le> 0 then Inl InvalidEntryError
           else bindE (orderHoldAccount takerId takerPaysAsset takerOrderId) (\<lambda>takerHold.
                bindE (orderHoldAccount makerId makerPaysAsset makerOrderId) (\<lambda>makerHold.
                Inr (mk_post (''trade.fill:'' @ fillId) ''trade'' ''trade.fill''
                  [(''fillId'', MStr fillId), (''takerSide'', MStr (side_name takerSide)),
                   (''makerFeeBps'', MNum makerFeeBps), (''takerFeeBps'', MNum takerFeeBps),
                   (''makerOrderId'', MStr makerOrderId), (''takerOrderId'', MStr takerOrderId)]
                  ([credit takerHold takerPaysAmount, debit (userAvailable makerId takerPaysAsset) makerReceives]
                   @ when_pos makerFee (debit (houseFees ''trade'' takerPaysAsset) makerFee)
                   @ [credit makerHold makerPaysAmount, debit (userAvailable takerId makerPaysAsset) takerReceives]
                   @ when_pos takerFee (debit (houseFees ''trade'' makerPaysAsset) takerFee)))))))))"

definition orderHold :: "string \<Rightarrow> string \<Rightarrow> string \<Rightarrow> amount \<Rightarrow> ledger_error + post_request" where
  "orderHold orderId userId asset amount =
     bindE (requirePositive amount) (\<lambda>_.
     bindE (orderHoldAccount userId asset orderId) (\<lambda>hold.
     Inr (mk_post (''order.hold:'' @ orderId) ''trade'' ''order.hold'' [(''orderId'', MStr orderId)]
       [credit (userAvailable userId asset) amount, debit hold amount])))"

definition orderHoldRelease ::
  "string \<Rightarrow> string \<Rightarrow> string \<Rightarrow> amount \<Rightarrow> js_number option \<Rightarrow> ledger_error + post_request" where
  "orderHoldRelease orderId userId asset amount sequence =
     bindE (requirePositive amount) (\<lambda>_.
     bindE (orderHoldAccount userId asset orderId) (\<lambda>hold.
     Inr (mk_post (''order.release:'' @ orderId @ '':'' @ seq_string sequence) ''trade'' ''order.hold.released''
       [(''orderId'', MStr orderId)]
       [credit hold amount, debit (userAvailable userId asset) amount])))"

definition orderHoldAmend ::
  "string \<Rightarrow> string \<Rightarrow> string \<Rightarrow> amount \<Rightarrow> js_number \<Rightarrow> ledger_error + post_request" where
  "orderHoldAmend orderId userId asset amount sequence =
     bindE (require_text orderId) (\<lambda>_.
     bindE (require_text userId) (\<lambda>_.
     bindE (require_text asset) (\<lambda>_.
     if \<not> js_is_integer sequence \<or> js_lt sequence 1 then Inl InvalidEntryError
     else if amount \<le> 0 then Inl InvalidEntryError
     else bindE (orderHoldAccount userId asset orderId) (\<lambda>hold.
     Inr (mk_post (''order.hold.amend:'' @ orderId @ '':'' @ js_string sequence) ''trade'' ''order.hold.amend''
       [(''orderId'', MStr orderId), (''sequence'', MNum sequence)]
       [credit (userAvailable userId asset) amount, debit hold amount])))))"

definition marketMakerOrderHold :: "string \<Rightarrow> string \<Rightarrow> amount \<Rightarrow> ledger_error + post_request" where
  "marketMakerOrderHold orderId asset amount =
     bindE (requirePositive amount) (\<lambda>_.
     bindE (marketMakerOrderHoldAccount asset orderId) (\<lambda>hold.
     Inr (mk_post (''order.hold.mm:'' @ orderId) ''trade'' ''order.hold.mm''
       [(''orderId'', MStr orderId), (''house'', MStr ''market-maker'')]
       [credit (marketMaker asset) amount, debit hold amount])))"

definition marketMakerOrderHoldRelease ::
  "string \<Rightarrow> string \<Rightarrow> amount \<Rightarrow> js_number option \<Rightarrow> ledger_error + post_request" where
  "marketMakerOrderHoldRelease orderId asset amount sequence =
     bindE (requirePositive amount) (\<lambda>_.
     bindE (marketMakerOrderHoldAccount asset orderId) (\<lambda>hold.
     Inr (mk_post (''order.release.mm:'' @ orderId @ '':'' @ seq_string sequence) ''trade'' ''order.hold.mm.released''
       [(''orderId'', MStr orderId), (''house'', MStr ''market-maker'')]
       [credit hold amount, debit (marketMaker asset) amount])))"

definition marketMakerMakerFill ::
  "string \<Rightarrow> string \<Rightarrow> string \<Rightarrow> string \<Rightarrow> string \<Rightarrow> string \<Rightarrow> amount \<Rightarrow> amount \<Rightarrow> side
   \<Rightarrow> js_number \<Rightarrow> js_number \<Rightarrow> ledger_error + post_request" where
  "marketMakerMakerFill fillId takerId makerOrderId takerOrderId baseAsset quoteAsset qty quoteAmount takerSide
     makerFeeBps takerFeeBps =
     bindE (requirePositive qty) (\<lambda>_.
     bindE (requirePositive quoteAmount) (\<lambda>_.
     let takerBuys = (takerSide = Buy);
         takerPaysAsset = (if takerBuys then quoteAsset else baseAsset);
         takerPaysAmount = (if takerBuys then quoteAmount else qty);
         makerPaysAsset = (if takerBuys then baseAsset else quoteAsset);
         makerPaysAmount = (if takerBuys then qty else quoteAmount)
     in bindE (moneyE (mulBps makerPaysAmount takerFeeBps Ceil)) (\<lambda>takerFee.
        bindE (moneyE (mulBps takerPaysAmount makerFeeBps Ceil)) (\<lambda>makerFee.
        let takerReceives = sub makerPaysAmount takerFee;
            makerReceives = sub takerPaysAmount makerFee
        in if takerReceives \<le> 0 \<or> makerReceives \<le> 0 then Inl InvalidEntryError
           else bindE (orderHoldAccount takerId takerPaysAsset takerOrderId) (\<lambda>takerHold.
                bindE (marketMakerOrderHoldAccount makerPaysAsset makerOrderId) (\<lambda>makerHold.
                Inr (mk_post (''trade.fill.mm-maker:'' @ fillId) ''trade'' ''trade.fill.mm_maker''
                  [(''fillId'', MStr fillId), (''takerSide'', MStr (side_name takerSide)),
                   (''makerFeeBps'', MNum makerFeeBps), (''takerFeeBps'', MNum takerFeeBps),
                   (''makerOrderId'', MStr makerOrderId), (''takerOrderId'', MStr takerOrderId),
                   (''house'', MStr ''market-maker'')]
                  ([credit takerHold takerPaysAmount, debit (marketMaker takerPaysAsset) makerReceives]
                   @ when_pos makerFee (debit (houseFees ''trade'' takerPaysAsset) makerFee)
                   @ [credit makerHold makerPaysAmount, debit (userAvailable takerId makerPaysAsset) takerReceives]
                   @ when_pos takerFee (debit (houseFees ''trade'' makerPaysAsset) takerFee)))))))))"

definition tradeFillFeeCorrection ::
  "string \<Rightarrow> string \<Rightarrow> string \<Rightarrow> string \<Rightarrow> amount \<Rightarrow> ledger_error + post_request" where
  "tradeFillFeeCorrection fillIdRaw correctionIdRaw userId asset difference =
     (if difference \<le> 0 then Inl InvalidEntryError
      else let fillId = js_trim fillIdRaw; correctionId = js_trim correctionIdRaw in
        if fillId = [] then Inl InvalidEntryError
        else if correctionId = [] then Inl InvalidEntryError
        else if blank userId then Inl InvalidEntryError
        else if blank asset then Inl InvalidEntryError
        else let key = ''trade.fill.fee.correction:'' @ fillId @ '':'' @ correctionId in
          if key = ''trade.fill:'' @ fillId then Inl InvalidEntryError
          else Inr (mk_post key ''trade'' ''trade.fill.fee.correction''
                 [(''fillId'', MStr fillId), (''correctionId'', MStr correctionId)]
                 [credit (houseFees ''trade'' asset) difference, debit (userAvailable userId asset) difference]))"

definition refusePostedFillPriceEdit :: "string \<Rightarrow> amount option \<Rightarrow> amount option \<Rightarrow> ledger_error + post_request" where
  "refusePostedFillPriceEdit fillId price qty = Inl InvalidEntryError"

section \<open>Futures\<close>

definition marginPots ::
  "string \<Rightarrow> string \<Rightarrow> string \<Rightarrow> string option \<Rightarrow> ledger_error + string \<times> account_ref \<times> account_ref" where
  "marginPots userId asset positionId subId =
     (let sid = namedSubAccount subId in
      if sid \<noteq> [] then
        bindE (subAccountPositionCollateral sid asset positionId) (\<lambda>c. Inr (sid, subAccountAvailable sid asset, c))
      else bindE (positionCollateralAccount userId asset positionId) (\<lambda>c. Inr ([], userAvailable userId asset, c)))"

definition futuresMarginLock ::
  "string \<Rightarrow> string \<Rightarrow> string \<Rightarrow> amount \<Rightarrow> string option \<Rightarrow> ledger_error + post_request" where
  "futuresMarginLock positionId userId asset amount subId =
     bindE (requirePositive amount) (\<lambda>_.
     bindE (marginPots userId asset positionId subId) (\<lambda>(sid, available, collateral).
     Inr (mk_post (''futures.margin.lock:'' @ positionId) ''trade'' ''futures.margin.lock''
       ((''positionId'', MStr positionId) # sub_meta sid)
       [credit available amount, debit collateral amount])))"

definition futuresMarginAdd ::
  "string \<Rightarrow> string \<Rightarrow> string \<Rightarrow> amount \<Rightarrow> string option \<Rightarrow> js_number \<Rightarrow> ledger_error + post_request" where
  "futuresMarginAdd positionId userId asset amount subId sequence =
     bindE (requirePositive amount) (\<lambda>_.
     if js_lt sequence 1 then Inl InvalidEntryError
     else bindE (marginPots userId asset positionId subId) (\<lambda>(sid, available, collateral).
     Inr (mk_post (''futures.margin.add:'' @ positionId @ '':'' @ js_string sequence) ''trade'' ''futures.margin.add''
       ([(''positionId'', MStr positionId), (''sequence'', MNum sequence)] @ sub_meta sid)
       [credit available amount, debit collateral amount])))"

definition futuresMarginRelease ::
  "string \<Rightarrow> string \<Rightarrow> string \<Rightarrow> amount \<Rightarrow> string option \<Rightarrow> js_number option \<Rightarrow> amount option
   \<Rightarrow> ledger_error + post_request" where
  "futuresMarginRelease positionId userId asset amount subId sequence feeOpt =
     (let fee = (case feeOpt of None \<Rightarrow> 0 | Some f \<Rightarrow> f) in
      if fee < 0 then Inl InvalidEntryError
      else bindE (if fee = 0 then requirePositive amount
                  else if amount < 0 then Inl InvalidEntryError else Inr ()) (\<lambda>_.
           bindE (marginPots userId asset positionId subId) (\<lambda>(sid, available, collateral).
           Inr (mk_post (''futures.margin.release:'' @ positionId @ '':'' @ seq_string sequence) ''trade''
             ''futures.margin.release''
             ([(''positionId'', MStr positionId)] @ (if fee > 0 then [(''fee'', MStr (string_of_int fee))] else [])
              @ sub_meta sid)
             ([credit collateral (amount + fee)]
              @ when_pos amount (debit available amount)
              @ when_pos fee (debit (houseFees ''trade'' asset) fee))))))"

definition futuresRealizeLoss ::
  "string \<Rightarrow> string \<Rightarrow> string \<Rightarrow> amount \<Rightarrow> amount \<Rightarrow> string \<Rightarrow> string option \<Rightarrow> string option
   \<Rightarrow> ledger_error + post_request" where
  "futuresRealizeLoss positionId userId asset fromMargin fromInsurance lossId subId drawSubId =
     (let named = namedSubAccount subId; draw = namedSubAccount drawSubId in
      if draw \<noteq> [] \<and> draw \<noteq> named then Inl InvalidEntryError
      else if fromMargin < 0 \<or> fromInsurance < 0 then Inl InvalidEntryError
      else let tot = fromMargin + fromInsurance in
        bindE (requirePositive tot) (\<lambda>_.
        bindE (if named \<noteq> [] then subAccountPositionCollateral named asset positionId
               else positionCollateralAccount userId asset positionId) (\<lambda>collateral.
        Inr (mk_post (''futures.loss:'' @ lossId) ''trade'' ''futures.loss.realized''
          ([(''positionId'', MStr positionId), (''fromMargin'', MStr (string_of_int fromMargin)),
            (''fromInsurance'', MStr (string_of_int fromInsurance))] @ sub_meta named)
          (when_pos fromMargin (credit collateral fromMargin)
           @ when_pos fromInsurance (credit (insuranceFund asset) fromInsurance)
           @ [debit (futuresLossSink asset) tot])))))"

definition futuresRealizeProfit :: "string \<Rightarrow> string \<Rightarrow> string \<Rightarrow> amount \<Rightarrow> string \<Rightarrow> ledger_error + post_request" where
  "futuresRealizeProfit positionId userId asset amount profitId =
     bindE (requirePositive amount) (\<lambda>_.
     Inr (mk_post (''futures.profit:'' @ profitId) ''trade'' ''futures.profit.realized''
       [(''positionId'', MStr positionId), (''amount'', MStr (string_of_int amount))]
       [credit (futuresLossSink asset) amount, debit (userAvailable userId asset) amount]))"

definition futuresFundingPay ::
  "string \<Rightarrow> string \<Rightarrow> string \<Rightarrow> string \<Rightarrow> string \<Rightarrow> string \<Rightarrow> amount \<Rightarrow> ledger_error + post_request" where
  "futuresFundingPay fundingId payerUserId payerPositionId payeeUserId payeePositionId asset amount =
     bindE (requirePositive amount) (\<lambda>_.
     bindE (positionCollateralAccount payerUserId asset payerPositionId) (\<lambda>c.
     Inr (mk_post (''futures.funding:'' @ fundingId) ''trade'' ''futures.funding.paid''
       [(''fundingId'', MStr fundingId), (''payerPositionId'', MStr payerPositionId),
        (''payeePositionId'', MStr payeePositionId)]
       [credit c amount, debit (userAvailable payeeUserId asset) amount])))"

definition futuresInsuranceTopup :: "string \<Rightarrow> string \<Rightarrow> amount \<Rightarrow> ledger_error + post_request" where
  "futuresInsuranceTopup topupId asset amount =
     bindE (requirePositive amount) (\<lambda>_.
     Inr (mk_post (''futures.insurance.topup:'' @ topupId) ''trade'' ''futures.insurance.topup''
       [(''topupId'', MStr topupId)]
       [credit (houseFees ''trade'' asset) amount, debit (insuranceFund asset) amount]))"

section \<open>Margin of resting futures orders\<close>

definition orderPots ::
  "string \<Rightarrow> string \<Rightarrow> string \<Rightarrow> string option \<Rightarrow> ledger_error + string \<times> string \<times> account_ref \<times> account_ref" where
  "orderPots orderId userId asset subId =
     bindE (require_text orderId) (\<lambda>_.
     bindE (require_text asset) (\<lambda>_.
     let sid = namedSubAccount subId in
     if sid \<noteq> [] then
       bindE (subAccountFuturesOrderMargin sid asset orderId) (\<lambda>m. Inr (orderId, sid, subAccountAvailable sid asset, m))
     else bindE (require_text userId) (\<lambda>_.
          bindE (futuresOrderMarginAccount userId asset orderId) (\<lambda>m. Inr (orderId, [], userAvailable userId asset, m)))))"

definition requireSequence_opt :: "js_number option \<Rightarrow> ledger_error + js_number" where
  "requireSequence_opt sequence =
     (let v = (case sequence of None \<Rightarrow> JSInt 0 | Some n \<Rightarrow> n)
      in if \<not> js_is_integer v \<or> js_lt v 0 then Inl InvalidEntryError else Inr v)"

definition futuresOrderMarginHold ::
  "string \<Rightarrow> string \<Rightarrow> string \<Rightarrow> amount \<Rightarrow> string option \<Rightarrow> ledger_error + post_request" where
  "futuresOrderMarginHold orderId userId asset amount subId =
     bindE (orderPots orderId userId asset subId) (\<lambda>(oid, sid, available, orderMargin).
     bindE (requirePositive amount) (\<lambda>_.
     Inr (mk_post (''futures.order.margin.hold:'' @ oid) ''trade'' ''futures.order.margin.hold''
       ((''orderId'', MStr oid) # sub_meta sid)
       [credit available amount, debit orderMargin amount])))"

definition futuresOrderMarginRelease ::
  "string \<Rightarrow> string \<Rightarrow> string \<Rightarrow> amount \<Rightarrow> string option \<Rightarrow> js_number option \<Rightarrow> ledger_error + post_request" where
  "futuresOrderMarginRelease orderId userId asset amount subId sequence =
     bindE (orderPots orderId userId asset subId) (\<lambda>(oid, sid, available, orderMargin).
     bindE (requirePositive amount) (\<lambda>_.
     bindE (requireSequence_opt sequence) (\<lambda>seq.
     Inr (mk_post (''futures.order.margin.release:'' @ oid @ '':'' @ js_string seq) ''trade'' ''futures.order.margin.release''
       ([(''orderId'', MStr oid), (''sequence'', MNum seq)] @ sub_meta sid)
       [credit orderMargin amount, debit available amount]))))"

definition futuresOrderMarginApply ::
  "string \<Rightarrow> string \<Rightarrow> string \<Rightarrow> string \<Rightarrow> string \<Rightarrow> amount \<Rightarrow> amount option \<Rightarrow> amount option \<Rightarrow> string option
   \<Rightarrow> ledger_error + post_request" where
  "futuresOrderMarginApply orderId userId asset positionId fillId amount releaseOpt feeOpt subId =
     bindE (orderPots orderId userId asset subId) (\<lambda>(oid, sid, available, orderMargin).
     bindE (require_text positionId) (\<lambda>_.
     bindE (require_text fillId) (\<lambda>_.
     bindE (requirePositive amount) (\<lambda>_.
     let release = (case releaseOpt of None \<Rightarrow> 0 | Some r \<Rightarrow> r);
         fee = (case feeOpt of None \<Rightarrow> 0 | Some f \<Rightarrow> f)
     in if release < 0 then Inl InvalidEntryError
        else if fee < 0 then Inl InvalidEntryError
        else bindE (if sid \<noteq> [] then subAccountPositionCollateral sid asset positionId
                    else positionCollateralAccount userId asset positionId) (\<lambda>collateral.
        Inr (mk_post (''futures.fill:'' @ fillId) ''trade'' ''futures.order.margin.applied''
          ([(''orderId'', MStr oid), (''positionId'', MStr positionId), (''fillId'', MStr fillId),
            (''amount'', MStr (string_of_int amount)), (''released'', MStr (string_of_int release))]
           @ (if fee > 0 then [(''fee'', MStr (string_of_int fee))] else []) @ sub_meta sid)
          ([credit orderMargin (amount + release + fee), debit available (amount + release),
            credit available amount, debit collateral amount]
           @ when_pos fee (debit (houseFees ''trade'' asset) fee))))))))"

end
