(* ===== verification/Recipes_Pay.thy ===== *)
theory Recipes_Pay
  imports Recipes_Trade
begin

text \<open>
  \<^verbatim>\<open>packages/ledger-client/src/recipes\<close>: peer-to-peer escrow with \<open>escrow-dispute-law.ts\<close>,
  merchant payments, refunds and payouts, token staking, emission, burns, fees and rewards of
  \<open>index.ts\<close>, and \<open>chargeback.ts\<close>, \<open>conversion.ts\<close>, \<open>market.ts\<close>, \<open>pay-received-hold.ts\<close>.
\<close>

section \<open>Escrow\<close>

definition NATURAL_PERSON_ID :: "string \<Rightarrow> bool" where
  "NATURAL_PERSON_ID s = UUID_OWNER_ID_PATTERN s"

definition isNaturalPersonId :: "string option \<Rightarrow> bool" where
  "isNaturalPersonId i = (case i of None \<Rightarrow> False | Some s \<Rightarrow> NATURAL_PERSON_ID s)"

definition ascii_lower :: "char \<Rightarrow> char" where
  "ascii_lower c = (if is_upper c then char_of ((of_char c :: nat) + 32) else c)"

text \<open>\<open>/^(system:|timer:|timeout$|backstop$|auto(?:-refund)?$|automation:)/i\<close>\<close>

definition FORBIDDEN_MACHINE_RESOLUTION :: "string \<Rightarrow> bool" where
  "FORBIDDEN_MACHINE_RESOLUTION s =
     (let l = map ascii_lower s in
      starts_with ''system:'' l \<or> starts_with ''timer:'' l \<or> l = ''timeout'' \<or> l = ''backstop''
      \<or> l = ''auto'' \<or> l = ''auto-refund'' \<or> starts_with ''automation:'' l)"

record escrow_ruling =
  rul_disputeId :: string
  rul_rulingBy :: string
  rul_notes :: "string option"

definition assertEscrowDisputeRuling :: "escrow_ruling option \<Rightarrow> ledger_error + unit" where
  "assertEscrowDisputeRuling ruling = (case ruling of
       None \<Rightarrow> Inr ()
     | Some r \<Rightarrow>
         if js_trim (rul_disputeId r) = [] then Inl InvalidEntryError
         else if js_trim (rul_rulingBy r) = [] then Inl InvalidEntryError
         else if \<not> isNaturalPersonId (Some (js_trim (rul_rulingBy r))) then Inl InvalidEntryError
         else Inr ())"

definition assertEscrowRefundResolution :: "string option \<Rightarrow> ledger_error + unit" where
  "assertEscrowRefundResolution resolution = (case resolution of
       None \<Rightarrow> Inr ()
     | Some s \<Rightarrow>
         let value = js_trim s in
         if value = [] then Inr ()
         else if FORBIDDEN_MACHINE_RESOLUTION value \<or> map ascii_lower value = ''system:p2p-backstop''
         then Inl InvalidEntryError else Inr ())"

definition disputeRulingMeta :: "escrow_ruling option \<Rightarrow> meta_obj" where
  "disputeRulingMeta ruling = (case ruling of
       None \<Rightarrow> []
     | Some r \<Rightarrow>
         [(''disputeId'', MStr (js_trim (rul_disputeId r))), (''rulingBy'', MStr (js_trim (rul_rulingBy r)))]
         @ (case rul_notes r of
              None \<Rightarrow> []
            | Some n \<Rightarrow> if js_trim n \<noteq> [] then [(''rulingNotes'', MStr (js_trim n))] else []))"

definition escrowLock :: "string \<Rightarrow> string \<Rightarrow> string \<Rightarrow> string \<Rightarrow> amount \<Rightarrow> ledger_error + post_request" where
  "escrowLock tradeId sellerId buyerId asset amount =
     bindE (requirePositive amount) (\<lambda>_.
     bindE (tradeEscrowAccount sellerId asset tradeId) (\<lambda>escrow.
     Inr (mk_post (''p2p.escrow.lock:'' @ tradeId) ''p2p'' ''p2p.escrow.lock'' [(''tradeId'', MStr tradeId)]
       [credit (userAvailable sellerId asset) amount, debit escrow amount])))"

definition escrowRelease ::
  "string \<Rightarrow> string \<Rightarrow> string \<Rightarrow> string \<Rightarrow> amount \<Rightarrow> js_number option \<Rightarrow> escrow_ruling option
   \<Rightarrow> ledger_error + post_request" where
  "escrowRelease tradeId sellerId buyerId asset amount feeBpsOpt ruling =
     bindE (requirePositive amount) (\<lambda>_.
     bindE (assertEscrowDisputeRuling ruling) (\<lambda>_.
     (case feeBpsOpt of
        None \<Rightarrow> Inl InvalidEntryError
      | Some feeBps \<Rightarrow>
          if \<not> js_is_integer feeBps \<or> js_lt feeBps 0 \<or> js_gt feeBps 9999 then Inl InvalidEntryError
          else bindE (moneyE (mulBps amount feeBps Ceil)) (\<lambda>fee.
            let toBuyer = sub amount fee in
            if toBuyer \<le> 0 then Inl InvalidEntryError
            else bindE (tradeEscrowAccount sellerId asset tradeId) (\<lambda>escrow.
            Inr (mk_post (''p2p.escrow.release:'' @ tradeId) ''p2p'' ''p2p.escrow.release''
              ([(''tradeId'', MStr tradeId), (''feeBps'', MNum feeBps)] @ disputeRulingMeta ruling)
              ([credit escrow amount, debit (userAvailable buyerId asset) toBuyer]
               @ when_pos fee (debit (houseFees ''p2p'' asset) fee))))))))"

definition escrowRefund ::
  "string \<Rightarrow> string \<Rightarrow> string \<Rightarrow> string \<Rightarrow> amount \<Rightarrow> string option \<Rightarrow> escrow_ruling option
   \<Rightarrow> ledger_error + post_request" where
  "escrowRefund tradeId sellerId buyerId asset amount resolutionOpt ruling =
     bindE (requirePositive amount) (\<lambda>_.
     bindE (assertEscrowRefundResolution resolutionOpt) (\<lambda>_.
     bindE (assertEscrowDisputeRuling ruling) (\<lambda>_.
     let resolution = (case resolutionOpt of None \<Rightarrow> ''cancelled'' | Some s \<Rightarrow> s) in
     bindE (tradeEscrowAccount sellerId asset tradeId) (\<lambda>escrow.
     Inr (mk_post (''p2p.escrow.refund:'' @ tradeId) ''p2p'' ''p2p.escrow.refund''
       ([(''tradeId'', MStr tradeId), (''resolution'', MStr resolution)] @ disputeRulingMeta ruling)
       [credit escrow amount, debit (userAvailable sellerId asset) amount])))))"

section \<open>Merchant payments\<close>

definition paymentCapture ::
  "string \<Rightarrow> string \<Rightarrow> string \<Rightarrow> amount \<Rightarrow> string \<Rightarrow> string \<Rightarrow> ledger_error + post_request" where
  "paymentCapture paymentId merchantId asset amount rail railRef =
     bindE (requirePositive amount) (\<lambda>_.
     Inr (mk_post (''payment.capture:'' @ paymentId) ''pay'' ''payment.captured''
       [(''paymentId'', MStr paymentId), (''merchantId'', MStr merchantId), (''rail'', MStr rail), (''railRef'', MStr railRef)]
       [credit (railBoundary rail asset) amount, debit (merchantClearing merchantId asset) amount]))"

definition merchantSettlement ::
  "string \<Rightarrow> string \<Rightarrow> string \<Rightarrow> string \<Rightarrow> amount \<Rightarrow> amount \<Rightarrow> ledger_error + post_request" where
  "merchantSettlement merchantId merchantUserId window asset gross fee =
     bindE (requirePositive gross) (\<lambda>_.
     if fee < 0 then Inl InvalidEntryError
     else let net = sub gross fee in
       bindE (requirePositive net) (\<lambda>_.
       Inr (mk_post (''settlement:'' @ merchantId @ '':'' @ window @ '':'' @ asset) ''pay'' ''pay.settled''
         [(''merchantId'', MStr merchantId), (''window'', MStr window), (''assetId'', MStr asset)]
         ([credit (merchantClearing merchantId asset) gross, debit (merchantProceeds merchantId asset) net]
          @ when_pos fee (debit (houseFees ''pay'' asset) fee)))))"

datatype refund_source = Clearing | Settled

fun source_name :: "refund_source \<Rightarrow> string" where
  "source_name Clearing = ''clearing''"
| "source_name Settled = ''settled''"

datatype settled_pot = ProceedsPot | UserPot

definition refundPot ::
  "string \<Rightarrow> string \<Rightarrow> string \<Rightarrow> refund_source \<Rightarrow> settled_pot option \<Rightarrow> account_ref" where
  "refundPot merchantId merchantUserId asset source settledPot =
     (if source = Clearing then merchantClearing merchantId asset
      else if settledPot = Some UserPot then userAvailable merchantUserId asset
      else merchantProceeds merchantId asset)"

definition paymentRefund ::
  "string \<Rightarrow> string \<Rightarrow> string \<Rightarrow> string \<Rightarrow> string \<Rightarrow> amount \<Rightarrow> string \<Rightarrow> refund_source \<Rightarrow> settled_pot option
   \<Rightarrow> ledger_error + post_request" where
  "paymentRefund refundId paymentId merchantId merchantUserId asset amount rail source settledPot =
     bindE (requirePositive amount) (\<lambda>_.
     Inr (mk_post (''payment.refund:'' @ paymentId @ '':'' @ refundId) ''pay'' ''payment.refunded''
       [(''paymentId'', MStr paymentId), (''refundId'', MStr refundId), (''source'', MStr (source_name source)), (''rail'', MStr rail)]
       [credit (refundPot merchantId merchantUserId asset source settledPot) amount, debit (railBoundary rail asset) amount]))"

definition paymentRefundReverse ::
  "string \<Rightarrow> string \<Rightarrow> string \<Rightarrow> string \<Rightarrow> string \<Rightarrow> amount \<Rightarrow> string \<Rightarrow> refund_source \<Rightarrow> settled_pot option
   \<Rightarrow> ledger_error + post_request" where
  "paymentRefundReverse refundId paymentId merchantId merchantUserId asset amount rail source settledPot =
     bindE (requirePositive amount) (\<lambda>_.
     Inr (mk_post (''payment.refund.reverse:'' @ paymentId @ '':'' @ refundId) ''pay'' ''payment.refund.reversed''
       [(''paymentId'', MStr paymentId), (''refundId'', MStr refundId), (''source'', MStr (source_name source)), (''rail'', MStr rail)]
       [credit (railBoundary rail asset) amount, debit (refundPot merchantId merchantUserId asset source settledPot) amount]))"

text \<open>The recipe \<open>merchantProceedsPayoutHold\<close> shares its name with the account it locks.\<close>

definition payout_meta :: "string \<Rightarrow> string \<Rightarrow> string \<Rightarrow> meta_obj" where
  "payout_meta merchantId rail withdrawalId =
     [(''merchantId'', MStr merchantId), (''rail'', MStr rail), (''withdrawalId'', MStr withdrawalId)]"

definition merchantProceedsPayoutHold_recipe ::
  "string \<Rightarrow> string \<Rightarrow> amount \<Rightarrow> string \<Rightarrow> string \<Rightarrow> ledger_error + post_request" where
  "merchantProceedsPayoutHold_recipe merchantId asset amount rail withdrawalId =
     bindE (requirePositive amount) (\<lambda>_.
     bindE (merchantProceedsPayoutHold merchantId asset withdrawalId) (\<lambda>hold.
     Inr (mk_post (''pay.proceeds.payout.hold:'' @ withdrawalId) ''pay'' ''pay.proceeds.payout.held''
       (payout_meta merchantId rail withdrawalId)
       [credit (merchantProceeds merchantId asset) amount, debit hold amount])))"

definition merchantProceedsPayoutSettle ::
  "string \<Rightarrow> string \<Rightarrow> amount \<Rightarrow> string \<Rightarrow> string \<Rightarrow> ledger_error + post_request" where
  "merchantProceedsPayoutSettle merchantId asset amount rail withdrawalId =
     bindE (requirePositive amount) (\<lambda>_.
     bindE (merchantProceedsPayoutHold merchantId asset withdrawalId) (\<lambda>hold.
     Inr (mk_post (''pay.proceeds.payout.settle:'' @ withdrawalId) ''pay'' ''pay.proceeds.payout.settled''
       (payout_meta merchantId rail withdrawalId)
       [credit hold amount, debit (railBoundary rail asset) amount])))"

definition merchantProceedsPayoutReverse ::
  "string \<Rightarrow> string \<Rightarrow> amount \<Rightarrow> string \<Rightarrow> string \<Rightarrow> ledger_error + post_request" where
  "merchantProceedsPayoutReverse merchantId asset amount rail withdrawalId =
     bindE (requirePositive amount) (\<lambda>_.
     bindE (merchantProceedsPayoutHold merchantId asset withdrawalId) (\<lambda>hold.
     Inr (mk_post (''pay.proceeds.payout.reverse:'' @ withdrawalId) ''pay'' ''pay.proceeds.payout.reversed''
       (payout_meta merchantId rail withdrawalId)
       [credit hold amount, debit (merchantProceeds merchantId asset) amount])))"

section \<open>Token\<close>

datatype stake_tier = Flex | M3 | M12

fun tier_name :: "stake_tier \<Rightarrow> string" where
  "tier_name Flex = ''flex''"
| "tier_name M3 = ''m3''"
| "tier_name M12 = ''m12''"

definition stake :: "string \<Rightarrow> string \<Rightarrow> string \<Rightarrow> amount \<Rightarrow> stake_tier \<Rightarrow> ledger_error + post_request" where
  "stake stakeId userId asset amount tier =
     bindE (requirePositive amount) (\<lambda>_.
     bindE (tokenStakeAccount userId asset stakeId) (\<lambda>pot.
     Inr (mk_post (''token.stake:'' @ stakeId) ''token'' ''token.stake''
       [(''stakeId'', MStr stakeId), (''tier'', MStr (tier_name tier))]
       [credit (userAvailable userId asset) amount, debit pot amount])))"

definition unstake :: "string \<Rightarrow> string \<Rightarrow> string \<Rightarrow> amount \<Rightarrow> stake_tier \<Rightarrow> ledger_error + post_request" where
  "unstake stakeId userId asset amount tier =
     bindE (requirePositive amount) (\<lambda>_.
     bindE (tokenStakeAccount userId asset stakeId) (\<lambda>pot.
     Inr (mk_post (''token.unstake:'' @ stakeId) ''token'' ''token.unstake''
       [(''stakeId'', MStr stakeId), (''tier'', MStr (tier_name tier))]
       [credit pot amount, debit (userAvailable userId asset) amount])))"

definition mintEmission :: "js_number \<Rightarrow> string \<Rightarrow> amount \<Rightarrow> account_ref \<Rightarrow> ledger_error + post_request" where
  "mintEmission epoch asset amount destination =
     bindE (requirePositive amount) (\<lambda>_.
     Inr (mk_post (''token.emission:'' @ asset @ '':'' @ js_string epoch) ''token'' ''token.emission''
       [(''epoch'', MNum epoch), (''assetId'', MStr asset)]
       [credit (mintBoundary asset) amount, debit destination amount]))"

definition burn :: "string \<Rightarrow> string \<Rightarrow> amount \<Rightarrow> account_ref \<Rightarrow> ledger_error + post_request" where
  "burn runId asset amount frm =
     bindE (requirePositive amount) (\<lambda>_.
     Inr (mk_post (''token.burn:'' @ asset @ '':'' @ runId) ''token'' ''token.burn''
       [(''runId'', MStr runId), (''assetId'', MStr asset)]
       [credit frm amount, debit (burnAccount asset) amount]))"

datatype fee_mode = AssetFee string amount | TokenFee string amount js_number

definition feeCharge ::
  "string \<Rightarrow> string \<Rightarrow> string \<Rightarrow> string option \<Rightarrow> fee_mode \<Rightarrow> ledger_error + post_request" where
  "feeCharge chargeId userId modul reasonOpt mode =
     (let reason = (case reasonOpt of None \<Rightarrow> ''fee.charged'' | Some r \<Rightarrow> r);
          key = ''fee:'' @ modul @ '':'' @ chargeId
      in case mode of
           AssetFee asset amount \<Rightarrow>
             bindE (requirePositive amount) (\<lambda>_.
             Inr (mk_post key modul reason [(''mode'', MStr ''asset'')]
               [credit (userAvailable userId asset) amount, debit (houseFees modul asset) amount]))
         | TokenFee tokenAsset grossTokenAmount discountBps \<Rightarrow>
             bindE (requirePositive grossTokenAmount) (\<lambda>_.
             if js_lt discountBps 0 \<or> js_ge discountBps 10000 then Inl InvalidEntryError
             else bindE (moneyE (mulBps grossTokenAmount discountBps Ceil)) (\<lambda>discount.
               let net = sub grossTokenAmount discount in
               bindE (requirePositive net) (\<lambda>_.
               Inr (mk_post key modul reason
                 [(''mode'', MStr ''token''), (''discountBps'', MNum discountBps), (''gross'', MStr (string_of_int grossTokenAmount))]
                 [credit (userAvailable userId tokenAsset) net, debit (houseFees modul tokenAsset) net])))))"

definition sweepFeesToRewards :: "string \<Rightarrow> string \<Rightarrow> string \<Rightarrow> amount \<Rightarrow> ledger_error + post_request" where
  "sweepFeesToRewards windowId sourceModule asset amount =
     bindE (requirePositive amount) (\<lambda>_.
     Inr (mk_post (''token.fee.sweep:'' @ windowId @ '':'' @ sourceModule @ '':'' @ asset) ''token'' ''token.fee.swept''
       [(''windowId'', MStr windowId), (''sourceModule'', MStr sourceModule)]
       [credit (houseFees sourceModule asset) amount, debit (rewardsEngine asset) amount]))"

definition rewardPay :: "string \<Rightarrow> string \<Rightarrow> string \<Rightarrow> amount \<Rightarrow> string \<Rightarrow> ledger_error + post_request" where
  "rewardPay rewardId userId asset amount reason =
     bindE (requirePositive amount) (\<lambda>_.
     Inr (mk_post (''reward:'' @ rewardId) ''token'' reason [(''rewardId'', MStr rewardId)]
       [credit (rewardsEngine asset) amount, debit (userAvailable userId asset) amount]))"

section \<open>Chargebacks\<close>

definition settledLeg :: "string \<Rightarrow> string \<Rightarrow> string \<Rightarrow> settled_pot option \<Rightarrow> account_ref" where
  "settledLeg merchantId merchantUserId asset settledPot =
     (if settledPot = Some UserPot then userAvailable merchantUserId asset else merchantProceeds merchantId asset)"

definition chargebackTotal :: "amount \<Rightarrow> amount \<Rightarrow> ledger_error + amount" where
  "chargebackTotal fromClearing fromMerchantBalance =
     bindE (requireNonNegative fromClearing) (\<lambda>_.
     bindE (requireNonNegative fromMerchantBalance) (\<lambda>_.
     let tot = sum_amount [fromClearing, fromMerchantBalance] in
     bindE (requirePositive tot) (\<lambda>_. Inr tot)))"

definition chargeback_meta :: "string \<Rightarrow> string \<Rightarrow> string \<Rightarrow> string \<Rightarrow> meta_obj" where
  "chargeback_meta disputeId paymentId merchantId rail =
     [(''disputeId'', MStr disputeId), (''paymentId'', MStr paymentId), (''merchantId'', MStr merchantId), (''rail'', MStr rail)]"

definition chargebackOpen ::
  "string \<Rightarrow> string \<Rightarrow> string \<Rightarrow> string \<Rightarrow> string \<Rightarrow> string \<Rightarrow> amount \<Rightarrow> amount \<Rightarrow> settled_pot option
   \<Rightarrow> ledger_error + post_request" where
  "chargebackOpen disputeId paymentId merchantId merchantUserId asset rail fromClearing fromMerchantBalance settledPot =
     bindE (chargebackTotal fromClearing fromMerchantBalance) (\<lambda>tot.
     Inr (mk_post (''pay.chargeback.open:'' @ disputeId) ''pay'' ''pay.chargeback.opened''
       (chargeback_meta disputeId paymentId merchantId rail
        @ [(''fromClearing'', MStr (string_of_int fromClearing)), (''fromMerchantBalance'', MStr (string_of_int fromMerchantBalance))])
       (when_pos fromClearing (credit (merchantClearing merchantId asset) fromClearing)
        @ when_pos fromMerchantBalance (credit (settledLeg merchantId merchantUserId asset settledPot) fromMerchantBalance)
        @ [debit (railBoundary rail asset) tot])))"

definition chargebackShortfall ::
  "string \<Rightarrow> string \<Rightarrow> string \<Rightarrow> string \<Rightarrow> string \<Rightarrow> amount \<Rightarrow> ledger_error + post_request" where
  "chargebackShortfall disputeId paymentId merchantId asset rail amount =
     bindE (requirePositive amount) (\<lambda>_.
     Inr (mk_post (''pay.chargeback.shortfall:'' @ disputeId) ''pay'' ''pay.chargeback.shortfall.covered''
       (chargeback_meta disputeId paymentId merchantId rail)
       [credit (insuranceFund asset) amount, debit (railBoundary rail asset) amount]))"

definition chargebackWon ::
  "string \<Rightarrow> string \<Rightarrow> string \<Rightarrow> string \<Rightarrow> string \<Rightarrow> string \<Rightarrow> amount \<Rightarrow> amount \<Rightarrow> settled_pot option
   \<Rightarrow> ledger_error + post_request" where
  "chargebackWon disputeId paymentId merchantId merchantUserId asset rail fromClearing fromMerchantBalance settledPot =
     bindE (chargebackTotal fromClearing fromMerchantBalance) (\<lambda>tot.
     Inr (mk_post (''pay.chargeback.won:'' @ disputeId) ''pay'' ''pay.chargeback.won''
       (chargeback_meta disputeId paymentId merchantId rail
        @ [(''fromClearing'', MStr (string_of_int fromClearing)), (''fromMerchantBalance'', MStr (string_of_int fromMerchantBalance))])
       ([credit (railBoundary rail asset) tot]
        @ when_pos fromClearing (debit (merchantClearing merchantId asset) fromClearing)
        @ when_pos fromMerchantBalance (debit (settledLeg merchantId merchantUserId asset settledPot) fromMerchantBalance))))"

definition chargebackShortfallRecovered ::
  "string \<Rightarrow> string \<Rightarrow> string \<Rightarrow> string \<Rightarrow> string \<Rightarrow> amount \<Rightarrow> ledger_error + post_request" where
  "chargebackShortfallRecovered disputeId paymentId merchantId asset rail amount =
     bindE (requirePositive amount) (\<lambda>_.
     Inr (mk_post (''pay.chargeback.shortfall.recovered:'' @ disputeId) ''pay'' ''pay.chargeback.shortfall.recovered''
       (chargeback_meta disputeId paymentId merchantId rail)
       [credit (railBoundary rail asset) amount, debit (insuranceFund asset) amount]))"

section \<open>Currency conversion\<close>

definition assertId :: "string \<Rightarrow> ledger_error + unit" where
  "assertId conversionId = (if blank conversionId then Inl InvalidEntryError else Inr ())"

definition assertInput ::
  "string \<Rightarrow> string \<Rightarrow> string \<Rightarrow> string \<Rightarrow> amount \<Rightarrow> amount \<Rightarrow> amount \<Rightarrow> amount \<Rightarrow> ledger_error + unit" where
  "assertInput conversionId venueId fromAsset toAsset fromAmount toAmount feeAmount spreadAmount =
     bindE (assertId conversionId) (\<lambda>_.
     if blank venueId then Inl InvalidEntryError
     else if fromAsset = toAsset then Inl InvalidEntryError
     else bindE (requirePositive fromAmount) (\<lambda>_.
          bindE (requirePositive toAmount) (\<lambda>_.
          bindE (requireNonNegative feeAmount) (\<lambda>_.
          requireNonNegative spreadAmount))))"

definition assertHold :: "string \<Rightarrow> string \<Rightarrow> string \<Rightarrow> amount \<Rightarrow> ledger_error + unit" where
  "assertHold conversionId merchantId fromAsset amount =
     bindE (assertId conversionId) (\<lambda>_.
     if blank merchantId then Inl InvalidEntryError
     else if blank fromAsset then Inl InvalidEntryError
     else requirePositive amount)"

definition conversion_meta :: "string \<Rightarrow> string \<Rightarrow> string \<Rightarrow> string \<Rightarrow> string \<Rightarrow> meta_obj" where
  "conversion_meta conversionId merchantId venueId fromAsset toAsset =
     [(''conversionId'', MStr conversionId), (''merchantId'', MStr merchantId), (''venueId'', MStr venueId),
      (''fromAsset'', MStr fromAsset), (''toAsset'', MStr toAsset)]"

definition fxConversion ::
  "string \<Rightarrow> string \<Rightarrow> string \<Rightarrow> string \<Rightarrow> string \<Rightarrow> string \<Rightarrow> amount \<Rightarrow> amount \<Rightarrow> amount \<Rightarrow> amount
   \<Rightarrow> ledger_error + post_request" where
  "fxConversion conversionId merchantId merchantUserId venueId fromAsset toAsset fromAmount toAmount feeAmount spreadAmount =
     bindE (assertInput conversionId venueId fromAsset toAsset fromAmount toAmount feeAmount spreadAmount) (\<lambda>_.
     let grossTo = toAmount + feeAmount + spreadAmount in
     bindE (merchantClearingHold merchantId fromAsset conversionId) (\<lambda>hold.
     Inr (mk_post (''pay.conversion:'' @ conversionId) ''pay'' ''pay.conversion.booked''
       (conversion_meta conversionId merchantId venueId fromAsset toAsset)
       ([credit hold fromAmount, debit (venueBoundary venueId fromAsset) fromAmount,
         credit (venueBoundary venueId toAsset) grossTo, debit (userAvailable merchantUserId toAsset) toAmount]
        @ when_pos feeAmount (debit (houseFees ''pay'' toAsset) feeAmount)
        @ when_pos spreadAmount (debit (houseFees ''pay'' toAsset) spreadAmount)))))"

definition fxConversionReverse ::
  "string \<Rightarrow> string \<Rightarrow> string \<Rightarrow> string \<Rightarrow> string \<Rightarrow> string \<Rightarrow> amount \<Rightarrow> amount \<Rightarrow> amount \<Rightarrow> amount
   \<Rightarrow> ledger_error + post_request" where
  "fxConversionReverse conversionId merchantId merchantUserId venueId fromAsset toAsset fromAmount toAmount feeAmount spreadAmount =
     bindE (assertInput conversionId venueId fromAsset toAsset fromAmount toAmount feeAmount spreadAmount) (\<lambda>_.
     let grossTo = toAmount + feeAmount + spreadAmount in
     Inr (mk_post (''pay.conversion.reverse:'' @ conversionId) ''pay'' ''pay.conversion.reversed''
       (conversion_meta conversionId merchantId venueId fromAsset toAsset)
       ([debit (merchantClearing merchantId fromAsset) fromAmount, credit (conversionInventory fromAsset) fromAmount,
         credit (userAvailable merchantUserId toAsset) toAmount, debit (conversionInventory toAsset) grossTo]
        @ when_pos feeAmount (credit (houseFees ''pay'' toAsset) feeAmount)
        @ when_pos spreadAmount (credit (houseFees ''pay'' toAsset) spreadAmount))))"

definition fxConversionHold :: "string \<Rightarrow> string \<Rightarrow> string \<Rightarrow> amount \<Rightarrow> ledger_error + post_request" where
  "fxConversionHold conversionId merchantId fromAsset amount =
     bindE (assertHold conversionId merchantId fromAsset amount) (\<lambda>_.
     bindE (merchantClearingHold merchantId fromAsset conversionId) (\<lambda>hold.
     Inr (mk_post (''pay.conversion.hold:'' @ conversionId) ''pay'' ''pay.conversion.held''
       [(''conversionId'', MStr conversionId), (''merchantId'', MStr merchantId), (''fromAsset'', MStr fromAsset)]
       [credit (merchantClearing merchantId fromAsset) amount, debit hold amount])))"

datatype late_funding = FundMerchant | FundInventory | FundOther string

fun funding_name :: "late_funding \<Rightarrow> string" where
  "funding_name FundMerchant = ''merchant''"
| "funding_name FundInventory = ''inventory''"
| "funding_name (FundOther s) = s"

definition fxConversionLateFill ::
  "string \<Rightarrow> string \<Rightarrow> string \<Rightarrow> string \<Rightarrow> string \<Rightarrow> string \<Rightarrow> amount \<Rightarrow> amount \<Rightarrow> amount \<Rightarrow> amount
   \<Rightarrow> string \<Rightarrow> late_funding \<Rightarrow> ledger_error + post_request" where
  "fxConversionLateFill conversionId merchantId merchantUserId venueId fromAsset toAsset fromAmount toAmount feeAmount
     spreadAmount auditIdRaw funding =
     bindE (assertInput conversionId venueId fromAsset toAsset fromAmount toAmount feeAmount spreadAmount) (\<lambda>_.
     if blank auditIdRaw then Inl InvalidEntryError
     else if funding \<noteq> FundMerchant \<and> funding \<noteq> FundInventory then Inl InvalidEntryError
     else let auditId = js_trim auditIdRaw;
              grossTo = toAmount + feeAmount + spreadAmount;
              meta = [(''auditId'', MStr auditId), (''conversionId'', MStr conversionId), (''merchantId'', MStr merchantId),
                      (''venueId'', MStr venueId), (''funding'', MStr (funding_name funding)),
                      (''fromAsset'', MStr fromAsset), (''toAsset'', MStr toAsset)]
       in if funding = FundInventory then
            Inr (mk_post (''pay.conversion.late:'' @ auditId) ''pay'' ''pay.conversion.late_shortfall'' meta
              [credit (conversionInventory fromAsset) fromAmount, debit (venueBoundary venueId fromAsset) fromAmount,
               credit (venueBoundary venueId toAsset) grossTo, debit (conversionInventory toAsset) grossTo])
          else
            Inr (mk_post (''pay.conversion.late:'' @ auditId) ''pay'' ''pay.conversion.late_booked'' meta
              ([credit (merchantClearing merchantId fromAsset) fromAmount, debit (venueBoundary venueId fromAsset) fromAmount,
                credit (venueBoundary venueId toAsset) grossTo, debit (userAvailable merchantUserId toAsset) toAmount]
               @ when_pos feeAmount (debit (houseFees ''pay'' toAsset) feeAmount)
               @ when_pos spreadAmount (debit (houseFees ''pay'' toAsset) spreadAmount))))"

definition fxConversionRelease ::
  "string \<Rightarrow> string \<Rightarrow> string \<Rightarrow> amount \<Rightarrow> js_number option \<Rightarrow> ledger_error + post_request" where
  "fxConversionRelease conversionId merchantId fromAsset amount sequence =
     bindE (assertHold conversionId merchantId fromAsset amount) (\<lambda>_.
     bindE (merchantClearingHold merchantId fromAsset conversionId) (\<lambda>hold.
     Inr (mk_post (''pay.conversion.release:'' @ conversionId @ '':'' @ seq_string sequence) ''pay'' ''pay.conversion.released''
       [(''conversionId'', MStr conversionId), (''merchantId'', MStr merchantId), (''fromAsset'', MStr fromAsset)]
       [credit hold amount, debit (merchantClearing merchantId fromAsset) amount])))"

section \<open>Marketplace\<close>

definition requireId_trim :: "string \<Rightarrow> ledger_error + string" where
  "requireId_trim value = (let t = js_trim value in if t = [] then Inl InvalidEntryError else Inr t)"

definition marketPurchase ::
  "string \<Rightarrow> string \<Rightarrow> string \<Rightarrow> string \<Rightarrow> string \<Rightarrow> amount \<Rightarrow> js_number \<Rightarrow> ledger_error + post_request" where
  "marketPurchase purchaseIdRaw listingIdRaw buyerIdRaw vendorIdRaw assetRaw price commissionBps =
     bindE (requirePositive price) (\<lambda>_.
     if \<not> js_is_integer commissionBps \<or> js_lt commissionBps 0 \<or> js_gt commissionBps 9999 then Inl InvalidEntryError
     else bindE (requireId_trim purchaseIdRaw) (\<lambda>purchaseId.
          bindE (requireId_trim buyerIdRaw) (\<lambda>buyerId.
          bindE (requireId_trim vendorIdRaw) (\<lambda>vendorUserId.
          bindE (requireId_trim assetRaw) (\<lambda>asset.
          bindE (requireId_trim listingIdRaw) (\<lambda>listingId.
          if buyerId = vendorUserId then Inl InvalidEntryError
          else bindE (moneyE (mulBps price commissionBps Floor)) (\<lambda>commission.
            let vendorNet = sub price commission in
            if vendorNet \<le> 0 then Inl InvalidEntryError
            else Inr (mk_post (''market.purchase:'' @ purchaseId) ''market'' ''market.purchase''
              [(''purchaseId'', MStr purchaseId), (''listingId'', MStr listingId), (''commissionBps'', MNum commissionBps),
               (''commission'', MStr (string_of_int commission)), (''vendorNet'', MStr (string_of_int vendorNet))]
              ([credit (userAvailable buyerId asset) price, debit (userAvailable vendorUserId asset) vendorNet]
               @ when_pos commission (debit (houseFees ''market'' asset) commission))))))))))"

definition section_13 :: string where
  "section_13 = [CHR 0xA7, CHR ''1'', CHR ''3'']"

definition marketListingFee :: "string \<Rightarrow> string \<Rightarrow> string \<Rightarrow> amount \<Rightarrow> ledger_error + post_request" where
  "marketListingFee listingIdRaw vendorUserId asset amount =
     bindE (requireId_trim listingIdRaw) (\<lambda>listingId.
     bindE (requireId_trim vendorUserId) (\<lambda>_.
     bindE (requireId_trim asset) (\<lambda>_.
     bindE (requirePositive amount) (\<lambda>_.
     Inr (mk_post (''market.listing_fee:'' @ listingId) ''market'' ''market.listing_fee''
       [(''listingId'', MStr listingId), (''vendorUserId'', MStr vendorUserId), (''amount'', MStr (string_of_int amount)),
        (''socket'', MStr section_13)]
       [credit (userAvailable vendorUserId asset) amount, debit (houseFees ''market'' asset) amount])))))"

definition marketPremiumPlacement ::
  "string \<Rightarrow> string \<Rightarrow> string \<Rightarrow> string \<Rightarrow> amount \<Rightarrow> ledger_error + post_request" where
  "marketPremiumPlacement placementIdRaw listingId vendorUserId asset amount =
     bindE (requireId_trim placementIdRaw) (\<lambda>placementId.
     bindE (requireId_trim listingId) (\<lambda>_.
     bindE (requireId_trim vendorUserId) (\<lambda>_.
     bindE (requireId_trim asset) (\<lambda>_.
     bindE (requirePositive amount) (\<lambda>_.
     Inr (mk_post (''market.premium_placement:'' @ placementId) ''market'' ''market.premium_placement''
       [(''placementId'', MStr placementId), (''listingId'', MStr listingId), (''vendorUserId'', MStr vendorUserId),
        (''amount'', MStr (string_of_int amount)), (''socket'', MStr section_13)]
       [credit (userAvailable vendorUserId asset) amount, debit (houseFees ''market'' asset) amount]))))))"

section \<open>Holds on received funds\<close>

definition payReceivedHoldAccount :: "string \<Rightarrow> string \<Rightarrow> string \<Rightarrow> ledger_error + account_ref" where
  "payReceivedHoldAccount userId asset holdId = userHold userId asset (''pay:recv:'' @ holdId)"

text \<open>\<open>PayReceivedPartialError\<close> is an \<open>InvalidEntryError\<close> with its own message.\<close>

definition requireWhole :: "amount \<Rightarrow> amount \<Rightarrow> ledger_error + unit" where
  "requireWhole amount heldAmount =
     bindE (requirePositive amount) (\<lambda>_.
     bindE (requirePositive heldAmount) (\<lambda>_.
     if amount \<noteq> heldAmount then Inl InvalidEntryError else Inr ()))"

definition recv_pots ::
  "string \<Rightarrow> string \<Rightarrow> string \<Rightarrow> ledger_error + string \<times> string \<times> string \<times> account_ref \<times> account_ref" where
  "recv_pots holdIdRaw userIdRaw assetRaw =
     bindE (requireId_trim holdIdRaw) (\<lambda>holdId.
     bindE (requireId_trim userIdRaw) (\<lambda>userId.
     bindE (requireId_trim assetRaw) (\<lambda>asset.
     bindE (payReceivedHoldAccount userId asset holdId) (\<lambda>hold.
     Inr (holdId, userId, asset, hold, userAvailable userId asset)))))"

definition payReceivedHold :: "string \<Rightarrow> string \<Rightarrow> string \<Rightarrow> amount \<Rightarrow> ledger_error + post_request" where
  "payReceivedHold holdIdRaw userIdRaw assetRaw amount =
     bindE (requirePositive amount) (\<lambda>_.
     bindE (recv_pots holdIdRaw userIdRaw assetRaw) (\<lambda>(holdId, userId, asset, hold, available).
     Inr (mk_post (''pay.recv.hold:'' @ holdId) ''bank'' ''pay.recv.held'' [(''holdId'', MStr holdId)]
       [credit available amount, debit hold amount])))"

definition payReceivedRelease :: "string \<Rightarrow> string \<Rightarrow> string \<Rightarrow> amount \<Rightarrow> amount \<Rightarrow> ledger_error + post_request" where
  "payReceivedRelease holdIdRaw userIdRaw assetRaw amount heldAmount =
     bindE (requireWhole amount heldAmount) (\<lambda>_.
     bindE (recv_pots holdIdRaw userIdRaw assetRaw) (\<lambda>(holdId, userId, asset, hold, available).
     Inr (mk_post (''pay.recv.release:'' @ holdId) ''bank'' ''pay.recv.released'' [(''holdId'', MStr holdId)]
       [credit hold amount, debit available amount])))"

definition payReceivedReturn ::
  "string \<Rightarrow> string \<Rightarrow> string \<Rightarrow> amount \<Rightarrow> amount \<Rightarrow> string \<Rightarrow> ledger_error + post_request" where
  "payReceivedReturn holdIdRaw userIdRaw assetRaw amount heldAmount payerRaw =
     bindE (requireWhole amount heldAmount) (\<lambda>_.
     bindE (recv_pots holdIdRaw userIdRaw assetRaw) (\<lambda>(holdId, userId, asset, hold, available).
     bindE (requireId_trim payerRaw) (\<lambda>payerUserId.
     if payerUserId = userId then Inl InvalidEntryError
     else Inr (mk_post (''pay.recv.return:'' @ holdId) ''bank'' ''pay.recv.returned''
       [(''holdId'', MStr holdId), (''payerUserId'', MStr payerUserId)]
       [credit hold amount, debit (userAvailable payerUserId asset) amount]))))"

end
