(* ===== verification/Recipes_Bank.thy ===== *)
theory Recipes_Bank
  imports Recipes_Pay
begin

text \<open>
  \<^verbatim>\<open>packages/ledger-client/src/recipes\<close>: \<open>bank.ts\<close>, \<open>loans.ts\<close>, \<open>bank-transfer-reversal.ts\<close> and
  \<open>sub-accounts.ts\<close>.
\<close>

section \<open>Transfers\<close>

text \<open>\<open>KsOther\<close> is a key space outside the declared union that reaches the runtime check.\<close>

datatype key_space = KsOwn | KsP2p | KsSched | KsRail | KsOther string

fun key_space_name :: "key_space \<Rightarrow> string" where
  "key_space_name KsOwn = ''own''"
| "key_space_name KsP2p = ''p2p''"
| "key_space_name KsSched = ''sched''"
| "key_space_name KsRail = ''rail''"
| "key_space_name (KsOther s) = s"

definition BANK_TRANSFER_KEY_SPACES :: "key_space list" where
  "BANK_TRANSFER_KEY_SPACES = [KsOwn, KsP2p, KsSched, KsRail]"

datatype transfer_kind = Manual | Scheduled

definition requireOccurrence :: "js_number \<Rightarrow> ledger_error + unit" where
  "requireOccurrence occurrence =
     (if \<not> js_is_integer occurrence \<or> js_lt occurrence 0 then Inl InvalidEntryError else Inr ())"

definition bankTransferKey :: "key_space \<Rightarrow> string \<Rightarrow> js_number \<Rightarrow> ledger_error + string" where
  "bankTransferKey space transferId occurrence =
     (if \<not> List.member BANK_TRANSFER_KEY_SPACES space then Inl InvalidEntryError
      else if js_trim transferId = [] then Inl InvalidEntryError
      else bindE (requireOccurrence occurrence) (\<lambda>_.
           Inr (''bank.transfer.'' @ key_space_name space @ '':'' @ transferId @ '':'' @ js_string occurrence)))"

definition legacyBankTransferKey :: "string \<Rightarrow> js_number \<Rightarrow> string" where
  "legacyBankTransferKey transferId occurrence = ''bank.transfer:'' @ transferId @ '':'' @ js_string occurrence"

definition bankTransfer ::
  "string \<Rightarrow> js_number \<Rightarrow> account_ref \<Rightarrow> account_ref \<Rightarrow> amount \<Rightarrow> transfer_kind \<Rightarrow> key_space option
   \<Rightarrow> ledger_error + post_request" where
  "bankTransfer transferId occurrence frm to amount knd keySpace =
     bindE (requirePositive amount) (\<lambda>_.
     if assetId frm \<noteq> assetId to then Inl InvalidEntryError
     else if accountKey frm = accountKey to then Inl InvalidEntryError
     else if kind frm \<noteq> Available \<or> kind to \<noteq> Available then Inl InvalidEntryError
     else bindE (requireOccurrence occurrence) (\<lambda>_.
       if keySpace \<noteq> None \<and> (keySpace = Some KsSched) \<noteq> (knd = Scheduled) then Inl InvalidEntryError
       else bindE (case keySpace of
                     None \<Rightarrow> Inr (legacyBankTransferKey transferId occurrence)
                   | Some ks \<Rightarrow> bankTransferKey ks transferId occurrence) (\<lambda>key.
       Inr (mk_post key ''bank'' (if knd = Scheduled then ''bank.transfer.scheduled'' else ''bank.transfer.manual'')
         [(''transferId'', MStr transferId), (''occurrence'', MNum occurrence)]
         [credit frm amount, debit to amount]))))"

section \<open>Earn pools\<close>

definition earnDeposit :: "string \<Rightarrow> string \<Rightarrow> string \<Rightarrow> string \<Rightarrow> amount \<Rightarrow> ledger_error + post_request" where
  "earnDeposit positionId poolId userId asset amount =
     bindE (requirePositive amount) (\<lambda>_.
     bindE (earnStakeAccount userId asset positionId) (\<lambda>pot.
     Inr (mk_post (''bank.earn.deposit:'' @ positionId) ''bank'' ''bank.earn.deposited''
       [(''positionId'', MStr positionId), (''poolId'', MStr poolId)]
       [credit (userAvailable userId asset) amount, debit pot amount])))"

definition earnWithdraw :: "string \<Rightarrow> string \<Rightarrow> string \<Rightarrow> string \<Rightarrow> amount \<Rightarrow> ledger_error + post_request" where
  "earnWithdraw positionId poolId userId asset amount =
     bindE (requirePositive amount) (\<lambda>_.
     bindE (earnStakeAccount userId asset positionId) (\<lambda>pot.
     Inr (mk_post (''bank.earn.withdraw:'' @ positionId) ''bank'' ''bank.earn.withdrawn''
       [(''positionId'', MStr positionId), (''poolId'', MStr poolId)]
       [credit pot amount, debit (userAvailable userId asset) amount])))"

definition earnPoolFund ::
  "string \<Rightarrow> string \<Rightarrow> string \<Rightarrow> amount \<Rightarrow> account_ref option \<Rightarrow> ledger_error + post_request" where
  "earnPoolFund poolId fundingId asset amount fromOpt =
     bindE (requirePositive amount) (\<lambda>_.
     if (case fromOpt of None \<Rightarrow> False | Some f \<Rightarrow> assetId f \<noteq> asset) then Inl InvalidEntryError
     else Inr (mk_post (''bank.earn.fund:'' @ poolId @ '':'' @ fundingId) ''bank'' ''bank.earn.pool.funded''
       [(''poolId'', MStr poolId), (''fundingId'', MStr fundingId)]
       [credit (case fromOpt of None \<Rightarrow> houseFees ''bank'' asset | Some f \<Rightarrow> f) amount,
        debit (earnPoolReserve poolId asset) amount]))"

text \<open>\<open>/^\d{4}-\d{2}-\d{2}$/\<close>\<close>

definition ISO_DATE :: "string \<Rightarrow> bool" where
  "ISO_DATE s \<longleftrightarrow> length s = 10 \<and>
     (\<forall>i \<in> set [0..<10]. if i \<in> {4, 7} then s ! i = CHR ''-'' else is_digit (s ! i))"

definition gregorianLeapYear :: "nat \<Rightarrow> bool" where
  "gregorianLeapYear year \<longleftrightarrow> year mod 400 = 0 \<or> (year mod 4 = 0 \<and> year mod 100 \<noteq> 0)"

definition writtenCalendarIndex :: "string \<Rightarrow> nat \<Rightarrow> nat \<Rightarrow> nat" where
  "writtenCalendarIndex date start stop =
     foldl (\<lambda>index i. index * 10 + digit_val (date ! i)) 0 [start..<stop]"

definition daysInGregorianMonth :: "nat \<Rightarrow> nat \<Rightarrow> nat option" where
  "daysInGregorianMonth year month =
     (if month \<in> {1, 3, 5, 7, 8, 10, 12} then Some 31
      else if month \<in> {4, 6, 9, 11} then Some 30
      else if month = 2 then Some (if gregorianLeapYear year then 29 else 28)
      else None)"

definition accrualCalendarDay :: "string \<Rightarrow> bool" where
  "accrualCalendarDay date =
     (if \<not> ISO_DATE date then False
      else let year = writtenCalendarIndex date 0 4;
               month = writtenCalendarIndex date 5 7;
               day = writtenCalendarIndex date 8 10
           in if day < 1 then False
              else (case daysInGregorianMonth year month of None \<Rightarrow> False | Some len \<Rightarrow> day \<le> len))"

definition earnInterest ::
  "string \<Rightarrow> string \<Rightarrow> string \<Rightarrow> (string \<times> amount) list \<Rightarrow> ledger_error + post_request" where
  "earnInterest poolId date asset payouts =
     (if \<not> accrualCalendarDay date then Inl InvalidEntryError
      else if payouts = [] then Inl InvalidEntryError
      else bindE (forE (\<lambda>(userId, amount). requirePositive amount) payouts) (\<lambda>_.
        let tot = sum_amount (map snd payouts) in
        Inr (mk_post (''bank.interest:'' @ poolId @ '':'' @ date) ''bank'' ''bank.earn.interest''
          [(''poolId'', MStr poolId), (''date'', MStr date), (''recipients'', MNum (JSInt (int (length payouts))))]
          (credit (earnPoolReserve poolId asset) tot
           # map (\<lambda>(userId, amount). debit (userAvailable userId asset) amount) payouts))))"

section \<open>Business banking\<close>

definition businessApprovalHoldFor :: "account_ref \<Rightarrow> string \<Rightarrow> ledger_error + account_ref" where
  "businessApprovalHoldFor frm approvalId =
     (let purp = ''business-approval:'' @ approvalId in
      if kind frm \<noteq> Available then Inl InvalidEntryError
      else if ownerType frm = User then userHold (ownerId frm) (assetId frm) purp
      else if ownerType frm = Subaccount then subAccountHold (ownerId frm) (assetId frm) purp
      else Inl InvalidEntryError)"

definition businessApprovalHold :: "string \<Rightarrow> account_ref \<Rightarrow> amount \<Rightarrow> ledger_error + post_request" where
  "businessApprovalHold approvalId frm amount =
     bindE (requirePositive amount) (\<lambda>_.
     bindE (businessApprovalHoldFor frm approvalId) (\<lambda>hold.
     if assetId frm \<noteq> assetId hold then Inl InvalidEntryError
     else Inr (mk_post (''bank.business.hold:'' @ approvalId) ''bank'' ''bank.business.approval.held''
       [(''approvalId'', MStr approvalId)] [credit frm amount, debit hold amount])))"

definition businessApprovalRelease :: "string \<Rightarrow> account_ref \<Rightarrow> amount \<Rightarrow> ledger_error + post_request" where
  "businessApprovalRelease approvalId frm amount =
     bindE (requirePositive amount) (\<lambda>_.
     bindE (businessApprovalHoldFor frm approvalId) (\<lambda>hold.
     Inr (mk_post (''bank.business.release:'' @ approvalId) ''bank'' ''bank.business.approval.released''
       [(''approvalId'', MStr approvalId)] [credit hold amount, debit frm amount])))"

definition businessApprovalSettle ::
  "string \<Rightarrow> account_ref \<Rightarrow> account_ref \<Rightarrow> amount \<Rightarrow> ledger_error + post_request" where
  "businessApprovalSettle approvalId frm to amount =
     bindE (requirePositive amount) (\<lambda>_.
     if kind to \<noteq> Available then Inl InvalidEntryError
     else if assetId frm \<noteq> assetId to then Inl InvalidEntryError
     else bindE (businessApprovalHoldFor frm approvalId) (\<lambda>hold.
     Inr (mk_post (''bank.business.settle:'' @ approvalId) ''bank'' ''bank.business.approval.settled''
       [(''approvalId'', MStr approvalId)] [credit hold amount, debit to amount])))"

text \<open>The loop over the recipients, with the set of keys seen so far.\<close>

fun payroll_lines :: "string \<Rightarrow> string list \<Rightarrow> (account_ref \<times> amount) list \<Rightarrow> ledger_error + unit" where
  "payroll_lines asset seen [] = Inr ()"
| "payroll_lines asset seen ((to, amount) # rest) =
     bindE (requirePositive amount) (\<lambda>_.
     if kind to \<noteq> Available then Inl InvalidEntryError
     else if assetId to \<noteq> asset then Inl InvalidEntryError
     else if List.member seen (accountKey to) then Inl InvalidEntryError
     else payroll_lines asset (accountKey to # seen) rest)"

definition businessPayroll ::
  "string \<Rightarrow> account_ref \<Rightarrow> (account_ref \<times> amount) list \<Rightarrow> ledger_error + post_request" where
  "businessPayroll payrollId frm recipients =
     (if recipients = [] then Inl InvalidEntryError
      else if kind frm \<noteq> Available then Inl InvalidEntryError
      else bindE (payroll_lines (assetId frm) [accountKey frm] recipients) (\<lambda>_.
        let tot = sum_amount (map snd recipients) in
        Inr (mk_post (''bank.business.payroll:'' @ payrollId) ''bank'' ''bank.business.payroll.settled''
          [(''payrollId'', MStr payrollId), (''recipients'', MNum (JSInt (int (length recipients))))]
          (credit frm tot # map (\<lambda>(to, amount). debit to amount) recipients))))"

section \<open>Loans\<close>

definition requireSequence :: "js_number \<Rightarrow> ledger_error + unit" where
  "requireSequence value = (if \<not> js_is_integer value \<or> js_lt value 0 then Inl InvalidEntryError else Inr ())"

definition requireId :: "string \<Rightarrow> ledger_error + unit" where
  "requireId value = (if js_trim value = [] then Inl InvalidEntryError else Inr ())"

definition loanCollateralLock ::
  "string \<Rightarrow> string \<Rightarrow> string \<Rightarrow> amount \<Rightarrow> js_number \<Rightarrow> ledger_error + post_request" where
  "loanCollateralLock loanId userId collateralAsset amount sequence =
     bindE (requireId loanId) (\<lambda>_.
     bindE (requireId userId) (\<lambda>_.
     bindE (requireId collateralAsset) (\<lambda>_.
     bindE (requirePositive amount) (\<lambda>_.
     bindE (requireSequence sequence) (\<lambda>_.
     bindE (loanCollateralAccount userId collateralAsset loanId) (\<lambda>pot.
     Inr (mk_post (''bank.loan.collateral.lock:'' @ loanId @ '':'' @ js_string sequence) ''bank'' ''loan.collateral.locked''
       [(''loanId'', MStr loanId), (''sequence'', MNum sequence)]
       [credit (userAvailable userId collateralAsset) amount, debit pot amount])))))))"

definition loanCollateralRelease ::
  "string \<Rightarrow> string \<Rightarrow> string \<Rightarrow> amount \<Rightarrow> js_number \<Rightarrow> ledger_error + post_request" where
  "loanCollateralRelease loanId userId collateralAsset amount sequence =
     bindE (requireId loanId) (\<lambda>_.
     bindE (requireId userId) (\<lambda>_.
     bindE (requireId collateralAsset) (\<lambda>_.
     bindE (requirePositive amount) (\<lambda>_.
     bindE (requireSequence sequence) (\<lambda>_.
     bindE (loanCollateralAccount userId collateralAsset loanId) (\<lambda>pot.
     Inr (mk_post (''bank.loan.collateral.release:'' @ loanId @ '':'' @ js_string sequence) ''bank'' ''loan.collateral.released''
       [(''loanId'', MStr loanId), (''sequence'', MNum sequence)]
       [credit pot amount, debit (userAvailable userId collateralAsset) amount])))))))"

definition loanDraw :: "string \<Rightarrow> string \<Rightarrow> string \<Rightarrow> amount \<Rightarrow> ledger_error + post_request" where
  "loanDraw loanId userId debtAsset princ =
     bindE (requireId loanId) (\<lambda>_.
     bindE (requireId userId) (\<lambda>_.
     bindE (requireId debtAsset) (\<lambda>_.
     bindE (requirePositive princ) (\<lambda>_.
     Inr (mk_post (''bank.loan.draw:'' @ loanId) ''bank'' ''loan.drawn'' [(''loanId'', MStr loanId)]
       [credit (loanReserve debtAsset) princ, debit (userAvailable userId debtAsset) princ])))))"

definition loanRepay ::
  "string \<Rightarrow> string \<Rightarrow> string \<Rightarrow> amount \<Rightarrow> amount \<Rightarrow> js_number \<Rightarrow> ledger_error + post_request" where
  "loanRepay loanId userId debtAsset princ interest sequence =
     bindE (requireId loanId) (\<lambda>_.
     bindE (requireId userId) (\<lambda>_.
     bindE (requireId debtAsset) (\<lambda>_.
     bindE (requireNonNegative princ) (\<lambda>_.
     bindE (requireNonNegative interest) (\<lambda>_.
     bindE (requireSequence sequence) (\<lambda>_.
     let tot = princ + interest in
     bindE (requirePositive tot) (\<lambda>_.
     Inr (mk_post (''bank.loan.repay:'' @ loanId @ '':'' @ js_string sequence) ''bank'' ''loan.repaid''
       [(''loanId'', MStr loanId), (''sequence'', MNum sequence), (''principal'', MStr (string_of_int princ)),
        (''interest'', MStr (string_of_int interest))]
       ([credit (userAvailable userId debtAsset) tot]
        @ when_pos princ (debit (loanReserve debtAsset) princ)
        @ when_pos interest (debit (houseFees ''bank'' debtAsset) interest))))))))))"

definition loanLiquidate ::
  "string \<Rightarrow> string \<Rightarrow> js_number \<Rightarrow> string \<Rightarrow> amount \<Rightarrow> string \<Rightarrow> amount \<Rightarrow> amount \<Rightarrow> amount \<Rightarrow> amount \<Rightarrow> amount
   \<Rightarrow> account_ref \<Rightarrow> account_ref \<Rightarrow> amount \<Rightarrow> ledger_error + post_request" where
  "loanLiquidate loanId userId tranche collateralAsset collateralSold debtAsset proceeds principalRepaid interestRepaid
     penalty surplusToBorrower collateralTo proceedsFrom markPrice =
     bindE (requireId loanId) (\<lambda>_.
     bindE (requireId userId) (\<lambda>_.
     bindE (requireId collateralAsset) (\<lambda>_.
     bindE (requireId debtAsset) (\<lambda>_.
     bindE (requireSequence tranche) (\<lambda>_.
     bindE (requirePositive collateralSold) (\<lambda>_.
     bindE (requirePositive proceeds) (\<lambda>_.
     bindE (requirePositive markPrice) (\<lambda>_.
     bindE (requireNonNegative principalRepaid) (\<lambda>_.
     bindE (requireNonNegative interestRepaid) (\<lambda>_.
     bindE (requireNonNegative penalty) (\<lambda>_.
     bindE (requireNonNegative surplusToBorrower) (\<lambda>_.
     if collateralAsset = debtAsset then Inl InvalidEntryError
     else if sum_amount [principalRepaid, interestRepaid, penalty, surplusToBorrower] \<noteq> proceeds then Inl InvalidEntryError
     else if assetId collateralTo \<noteq> collateralAsset then Inl InvalidEntryError
     else if assetId proceedsFrom \<noteq> debtAsset then Inl InvalidEntryError
     else let house = interestRepaid + penalty in
       bindE (loanCollateralAccount userId collateralAsset loanId) (\<lambda>pot.
       Inr (mk_post (''bank.loan.liquidate:'' @ loanId @ '':'' @ js_string tranche) ''bank'' ''loan.liquidated''
         [(''loanId'', MStr loanId), (''tranche'', MNum tranche), (''markPrice'', MStr (string_of_int markPrice)),
          (''collateralSold'', MStr (string_of_int collateralSold)), (''proceeds'', MStr (string_of_int proceeds))]
         ([credit pot collateralSold, debit collateralTo collateralSold, credit proceedsFrom proceeds]
          @ when_pos principalRepaid (debit (loanReserve debtAsset) principalRepaid)
          @ when_pos house (debit (houseFees ''bank'' debtAsset) house)
          @ when_pos surplusToBorrower (debit (userAvailable userId debtAsset) surplusToBorrower))))))))))))))))"

definition loanBadDebt :: "string \<Rightarrow> string \<Rightarrow> amount \<Rightarrow> ledger_error + post_request" where
  "loanBadDebt loanId debtAsset shortfall =
     bindE (requireId loanId) (\<lambda>_.
     bindE (requireId debtAsset) (\<lambda>_.
     bindE (requirePositive shortfall) (\<lambda>_.
     Inr (mk_post (''bank.loan.baddebt:'' @ loanId) ''bank'' ''loan.bad_debt.covered'' [(''loanId'', MStr loanId)]
       [credit (insuranceFund debtAsset) shortfall, debit (loanReserve debtAsset) shortfall]))))"

definition loanReserveFund :: "string \<Rightarrow> string \<Rightarrow> amount \<Rightarrow> account_ref option \<Rightarrow> ledger_error + post_request" where
  "loanReserveFund fundingId debtAsset amount fromOpt =
     bindE (requireId fundingId) (\<lambda>_.
     bindE (requireId debtAsset) (\<lambda>_.
     bindE (requirePositive amount) (\<lambda>_.
     if (case fromOpt of None \<Rightarrow> False | Some f \<Rightarrow> assetId f \<noteq> debtAsset) then Inl InvalidEntryError
     else Inr (mk_post (''bank.loan.reserve.fund:'' @ debtAsset @ '':'' @ fundingId) ''bank'' ''loan.reserve.funded''
       [(''fundingId'', MStr fundingId)]
       [credit (case fromOpt of None \<Rightarrow> houseFees ''bank'' debtAsset | Some f \<Rightarrow> f) amount,
        debit (loanReserve debtAsset) amount]))))"

section \<open>Consented reversals and sub-accounts\<close>

definition bankTransferReversalKey :: "key_space \<Rightarrow> string \<Rightarrow> js_number \<Rightarrow> ledger_error + string" where
  "bankTransferReversalKey space transferId occurrence =
     (if space = KsRail \<or> \<not> List.member BANK_TRANSFER_KEY_SPACES space then Inl InvalidEntryError
      else if js_trim transferId = [] then Inl InvalidEntryError
      else if \<not> js_is_integer occurrence \<or> js_lt occurrence 0 then Inl InvalidEntryError
      else Inr (''bank.transfer.reverse:'' @ key_space_name space @ '':'' @ js_trim transferId @ '':'' @ js_string occurrence))"

text \<open>\<open>BankTransferReversalError\<close> overrides the code of the invalid-entry error it extends.\<close>

definition bankTransferReversal ::
  "key_space \<Rightarrow> string \<Rightarrow> js_number \<Rightarrow> string \<Rightarrow> account_ref \<Rightarrow> account_ref \<Rightarrow> amount \<Rightarrow> amount
   \<Rightarrow> ledger_error + post_request" where
  "bankTransferReversal originalKeySpace transferId occurrence consentId originalFrom originalTo originalAmount amount =
     bindE (requirePositive amount) (\<lambda>_.
     bindE (requirePositive originalAmount) (\<lambda>_.
     if amount \<noteq> originalAmount then Inl (LedgerError ''bank.transfer.partial_reversal'')
     else bindE (bankTransferReversalKey originalKeySpace transferId occurrence) (\<lambda>key.
       if js_trim consentId = [] then Inl (LedgerError ''bank.transfer.consent_missing'')
       else if assetId originalFrom \<noteq> assetId originalTo then Inl InvalidEntryError
       else if accountKey originalFrom = accountKey originalTo then Inl InvalidEntryError
       else if kind originalFrom \<noteq> Available \<or> kind originalTo \<noteq> Available then Inl InvalidEntryError
       else Inr (mk_post key ''bank'' ''bank.transfer.reversed''
         [(''keySpace'', MStr (key_space_name originalKeySpace)), (''transferId'', MStr (js_trim transferId)),
          (''occurrence'', MNum occurrence), (''consentId'', MStr (js_trim consentId))]
         [credit originalTo amount, debit originalFrom amount]))))"

definition subAccountTransfer ::
  "string \<Rightarrow> string \<Rightarrow> string \<Rightarrow> string \<Rightarrow> amount \<Rightarrow> ledger_error + post_request" where
  "subAccountTransfer transferId fromSubAccountId toSubAccountId asset amount =
     bindE (requirePositive amount) (\<lambda>_.
     if transferId = [] then Inl InvalidEntryError
     else if fromSubAccountId = [] \<or> toSubAccountId = [] then Inl InvalidEntryError
     else if fromSubAccountId = toSubAccountId then Inl InvalidEntryError
     else if asset = [] then Inl InvalidEntryError
     else Inr (mk_post (''identity.sub_account.transfer:'' @ transferId) ''identity'' ''identity.sub_account.transfer''
       [(''transferId'', MStr transferId), (''fromSubAccountId'', MStr fromSubAccountId), (''toSubAccountId'', MStr toSubAccountId)]
       [credit (subAccountAvailable fromSubAccountId asset) amount, debit (subAccountAvailable toSubAccountId asset) amount]))"

end
