(* ===== verification/Recipes.thy ===== *)
theory Recipes
  imports Recipes_Bank
begin

text \<open>
  The table \<open>recipes\<close> of \<^verbatim>\<open>packages/ledger-client/src/recipes/index.ts\<close>, and what all its
  recipes share: every request a recipe issues passes the value checks of a post, its idempotency
  key belongs to that recipe alone, and the recipes that undo one another cancel account by
  account.
\<close>

section \<open>Accounts of the recipes\<close>

lemma good_ref_available [simp]: "good_ref (mk_ref t i a Available None)"
  by (simp add: good_ref_def known_kind_def accountPurpose_def js_trim_def)

lemma accountPurpose_mk_ref [simp]: "accountPurpose (mk_ref t i a k (Some p)) = js_trim p"
  by (simp add: accountPurpose_def)

lemma js_trim_Cons2:
  assumes "\<not> js_ws c" "\<not> js_ws d"
  shows "\<exists>t. js_trim (c # d # s) = c # d # t"
proof -
  have "js_trim ([c, d] @ s) = [c, d] @ rev (dropWhile js_ws (rev s))"
    by (rule js_trim_prefix) (use assms in simp_all)
  then show ?thesis by simp
qed

text \<open>A claim whose first characters are solid and do not begin \<open>legacy:\<close>.\<close>

lemma good_claim:
  assumes "k \<in> LOCK_KINDS" "\<not> js_ws c" "\<not> js_ws d" "(c, d) \<noteq> (CHR ''l'', CHR ''e'')"
  shows "good_ref (mk_ref t i a k (Some (js_trim (c # d # s))))" "good_ref (mk_ref t i a k (Some (c # d # s)))"
proof -
  obtain u where u: "js_trim (c # d # s) = c # d # u" using js_trim_Cons2 [OF assms(2,3)] by blast
  have "\<not> starts_with ''legacy:'' (c # d # u)" using assms(4) by (auto simp: starts_with_def)
  moreover have "known_kind k" "k \<noteq> Available" using assms(1) by (auto simp: known_kind_def)
  moreover have "js_trim (c # d # u) = c # d # u" using u by (metis js_trim_idem)
  ultimately show "good_ref (mk_ref t i a k (Some (js_trim (c # d # s))))"
    "good_ref (mk_ref t i a k (Some (c # d # s)))"
    using u by (simp_all add: good_ref_def)
qed

lemma solid_chars [simp]:
  "\<not> js_ws (CHR ''a'')" "\<not> js_ws (CHR ''b'')" "\<not> js_ws (CHR ''c'')" "\<not> js_ws (CHR ''f'')" "\<not> js_ws (CHR ''i'')"
  "\<not> js_ws (CHR ''l'')" "\<not> js_ws (CHR ''o'')" "\<not> js_ws (CHR ''p'')" "\<not> js_ws (CHR ''r'')" "\<not> js_ws (CHR ''t'')"
  "\<not> js_ws (CHR ''u'')" "\<not> js_ws (CHR ''w'')"
  by (simp_all add: js_ws_def)

lemma not_blank_solid [simp]: "\<not> js_ws c \<Longrightarrow> blank (c # s) = False"
  by (simp add: blank_iff)

lemmas account_defs =
  userAvailable_def userHold_def orderHoldAccount_def withdrawalHoldAccount_def userEscrow_def
  tradeEscrowAccount_def userStake_def tokenStakeAccount_def earnStakeAccount_def userCollateral_def
  loanCollateralAccount_def positionCollateralAccount_def moduleAccount_def loanReserve_def
  subAccountAvailable_def subAccountHold_def subAccountCollateral_def subAccountPositionCollateral_def
  futuresOrderMarginAccount_def subAccountFuturesOrderMargin_def houseFees_def insuranceFund_def
  futuresLossSink_def rewardsEngine_def burnAccount_def marketMaker_def houseHold_def
  marketMakerOrderHoldAccount_def merchantClearing_def merchantProceeds_def
  merchantProceedsPayoutHold_def merchantClearingHold_def conversionInventory_def earnPoolReserve_def
  railBoundary_def mintBoundary_def bridgeBoundary_def venueBoundary_def payReceivedHoldAccount_def

lemmas guard_defs =
  requirePositive_def requireNonNegative_def require_text_def assertDepositConfirmed_def
  requireSequence_opt_def requireOccurrence_def requireSequence_def requireId_def requireId_trim_def
  assertId_def assertInput_def assertHold_def chargebackTotal_def requireWhole_def

section \<open>Valid entries\<close>

definition valid_entries :: "entry_input list \<Rightarrow> bool" where
  "valid_entries es \<longleftrightarrow> assertBalanced es = Inr () \<and> assertPairedLocks es = Inr ()
     \<and> assertPurposedLocks es = Inr () \<and> assertAvailableUnpurposed es = Inr ()"

lemma valid_entries_iff:
  "valid_entries es \<longleftrightarrow> 2 \<le> length es \<and> (\<forall>e \<in> set es. 0 < entry_amount e \<and> good_ref (entry_account e))
     \<and> (\<forall>a. assignable a \<longrightarrow> asset_net es a = 0) \<and> (\<forall>k. lock_gain es k \<le> available_given es k)"
  unfolding valid_entries_def assertBalanced_Inr assertPairedLocks_Inr
  using good_entries_iff [of es] by blast

lemma entry_simps [simp]:
  "entry_account (debit r a) = r" "entry_account (credit r a) = r" "entry_amount (debit r a) = a"
  "entry_amount (credit r a) = a" "signedDelta (debit r a) = a" "signedDelta (credit r a) = - a"
  "entry_direction (debit r a) = Debit" "entry_direction (credit r a) = Credit"
  by (simp_all add: debit_def credit_def signedDelta_def)

lemma mk_post_simps [simp]:
  "req_entries (mk_post k m r meta es) = es" "idempotencyKey (mk_post k m r meta es) = k"
  "req_module (mk_post k m r meta es) = m" "req_reason (mk_post k m r meta es) = r"
  by (simp_all add: mk_post_def)

lemma when_pos_set: "e \<in> set (when_pos a f) \<longleftrightarrow> 0 < a \<and> e = f"
  by (auto simp: when_pos_def)

lemma asset_net_when_pos: "asset_net (when_pos a e) x = (if 0 < a then asset_net [e] x else 0)"
  by (simp add: when_pos_def)

lemma no_lock_gain:
  assumes "\<forall>e \<in> set es. kind (entry_account e) \<in> LOCK_KINDS \<longrightarrow> signedDelta e \<le> 0"
  shows "lock_gain es k \<le> available_given es k"
proof -
  have "filter (\<lambda>e. owner_asset_key (entry_account e) = k \<and> kind (entry_account e) \<in> LOCK_KINDS \<and> 0 < signedDelta e) es = []"
    using assms by (auto simp: filter_empty_conv simp del: LOCK_KINDS_eq)
  then have "lock_gain es k = 0" by (simp add: lock_gain_def)
  then show ?thesis using available_given_nonneg by simp
qed

text \<open>Entries that lock nothing only have to be positive, well formed and balanced.\<close>

lemma valid_unlocking:
  assumes "2 \<le> length es" "\<forall>e \<in> set es. 0 < entry_amount e \<and> good_ref (entry_account e)"
    and "\<forall>e \<in> set es. kind (entry_account e) \<in> LOCK_KINDS \<longrightarrow> signedDelta e \<le> 0" "\<forall>a. asset_net es a = 0"
  shows "valid_entries es"
  using assms no_lock_gain [OF assms(3)] by (simp add: valid_entries_iff)

text \<open>One amount from one account to another, which may be a lock of the same owner.\<close>

lemma valid_move:
  assumes "0 < a" "good_ref f" "good_ref t" "assetId f = assetId t"
    and "kind t = Available \<or> kind f = Available \<and> ownerType f = ownerType t \<and> ownerId f = ownerId t"
  shows "valid_entries [credit f a, debit t a]" "valid_entries [debit t a, credit f a]"
proof -
  have "owner_asset_key f = owner_asset_key t" if "kind t \<noteq> Available"
    using that assms(4,5) by (auto simp: owner_asset_key_def)
  then show "valid_entries [credit f a, debit t a]" "valid_entries [debit t a, credit f a]"
    using assms by (auto simp: valid_entries_iff)
qed

section \<open>The table\<close>

text \<open>
  \<open>recipe_post name pre req\<close>: recipe \<open>name\<close> issues \<open>req\<close>. \<open>pre\<close> is what the caller owes when it
  passes accounts of its own: they are well formed, and where the recipe does not check it
  itself, spendable or in the recipe's asset.
\<close>

definition spendable :: "account_ref \<Rightarrow> bool" where
  "spendable r \<longleftrightarrow> good_ref r \<and> kind r = Available"

inductive recipe_post :: "string \<Rightarrow> bool \<Rightarrow> post_request \<Rightarrow> bool" where
  "deposit u a v rail ref sid conf = Inr q \<Longrightarrow> recipe_post ''deposit'' True q"
| "depositReverse u a v rail ref sid conf did = Inr q \<Longrightarrow> recipe_post ''depositReverse'' True q"
| "marketMakerSeedFund a v sid rail = Inr q \<Longrightarrow> recipe_post ''marketMakerSeedFund'' True q"
| "withdrawHold u a v rail w = Inr q \<Longrightarrow> recipe_post ''withdrawHold'' True q"
| "withdrawSettle u a v rail w = Inr q \<Longrightarrow> recipe_post ''withdrawSettle'' True q"
| "withdrawReverse u a v rail w = Inr q \<Longrightarrow> recipe_post ''withdrawReverse'' True q"
| "tradeFill f m t mo to' b qa qty qamt s mf tf = Inr q \<Longrightarrow> recipe_post ''tradeFill'' True q"
| "tradeFillFeeCorrection f c u a d = Inr q \<Longrightarrow> recipe_post ''tradeFillFeeCorrection'' True q"
| "orderHold oid u a v = Inr q \<Longrightarrow> recipe_post ''orderHold'' True q"
| "orderHoldRelease oid u a v sq = Inr q \<Longrightarrow> recipe_post ''orderHoldRelease'' True q"
| "orderHoldAmend oid u a v s = Inr q \<Longrightarrow> recipe_post ''orderHoldAmend'' True q"
| "marketMakerOrderHold oid a v = Inr q \<Longrightarrow> recipe_post ''marketMakerOrderHold'' True q"
| "marketMakerOrderHoldRelease oid a v sq = Inr q \<Longrightarrow> recipe_post ''marketMakerOrderHoldRelease'' True q"
| "marketMakerMakerFill f t mo to' b qa qty qamt s mf tf = Inr q \<Longrightarrow> recipe_post ''marketMakerMakerFill'' True q"
| "futuresMarginLock p u a v sid = Inr q \<Longrightarrow> recipe_post ''futuresMarginLock'' True q"
| "futuresMarginAdd p u a v sid s = Inr q \<Longrightarrow> recipe_post ''futuresMarginAdd'' True q"
| "futuresMarginRelease p u a v sid sq fee = Inr q \<Longrightarrow> recipe_post ''futuresMarginRelease'' True q"
| "futuresOrderMarginHold oid u a v sid = Inr q \<Longrightarrow> recipe_post ''futuresOrderMarginHold'' True q"
| "futuresOrderMarginRelease oid u a v sid sq = Inr q \<Longrightarrow> recipe_post ''futuresOrderMarginRelease'' True q"
| "futuresOrderMarginApply oid u a p f v rel fee sid = Inr q \<Longrightarrow> recipe_post ''futuresOrderMarginApply'' True q"
| "futuresRealizeLoss p u a fm fi l sid dsid = Inr q \<Longrightarrow> recipe_post ''futuresRealizeLoss'' True q"
| "futuresRealizeProfit p u a v pr = Inr q \<Longrightarrow> recipe_post ''futuresRealizeProfit'' True q"
| "futuresFundingPay f pu pp eu ep a v = Inr q \<Longrightarrow> recipe_post ''futuresFundingPay'' True q"
| "futuresInsuranceTopup t a v = Inr q \<Longrightarrow> recipe_post ''futuresInsuranceTopup'' True q"
| "escrowLock t s b a v = Inr q \<Longrightarrow> recipe_post ''escrowLock'' True q"
| "escrowRelease t s b a v fee rul = Inr q \<Longrightarrow> recipe_post ''escrowRelease'' True q"
| "escrowRefund t s b a v res rul = Inr q \<Longrightarrow> recipe_post ''escrowRefund'' True q"
| "paymentCapture p m a v rail ref = Inr q \<Longrightarrow> recipe_post ''paymentCapture'' True q"
| "merchantSettlement m mu w a g fee' = Inr q \<Longrightarrow> recipe_post ''merchantSettlement'' True q"
| "paymentRefund r p m mu a v rail src pot = Inr q \<Longrightarrow> recipe_post ''paymentRefund'' True q"
| "paymentRefundReverse r p m mu a v rail src pot = Inr q \<Longrightarrow> recipe_post ''paymentRefundReverse'' True q"
| "merchantProceedsPayoutHold_recipe m a v rail w = Inr q \<Longrightarrow> recipe_post ''merchantProceedsPayoutHold'' True q"
| "merchantProceedsPayoutSettle m a v rail w = Inr q \<Longrightarrow> recipe_post ''merchantProceedsPayoutSettle'' True q"
| "merchantProceedsPayoutReverse m a v rail w = Inr q \<Longrightarrow> recipe_post ''merchantProceedsPayoutReverse'' True q"
| "chargebackOpen d p m mu a rail fc fb pot = Inr q \<Longrightarrow> recipe_post ''chargebackOpen'' True q"
| "chargebackShortfall d p m a rail v = Inr q \<Longrightarrow> recipe_post ''chargebackShortfall'' True q"
| "chargebackWon d p m mu a rail fc fb pot = Inr q \<Longrightarrow> recipe_post ''chargebackWon'' True q"
| "chargebackShortfallRecovered d p m a rail v = Inr q \<Longrightarrow> recipe_post ''chargebackShortfallRecovered'' True q"
| "stake sk u a v tier = Inr q \<Longrightarrow> recipe_post ''stake'' True q"
| "unstake sk u a v tier = Inr q \<Longrightarrow> recipe_post ''unstake'' True q"
| "mintEmission ep a v dst = Inr q \<Longrightarrow> recipe_post ''mintEmission'' (spendable dst \<and> assetId dst = a) q"
| "burn rid a v frm = Inr q \<Longrightarrow> recipe_post ''burn'' (good_ref frm \<and> assetId frm = a) q"
| "feeCharge c u m rs mode = Inr q \<Longrightarrow> recipe_post ''feeCharge'' True q"
| "sweepFeesToRewards w m a v = Inr q \<Longrightarrow> recipe_post ''sweepFeesToRewards'' True q"
| "rewardPay r u a v rs' = Inr q \<Longrightarrow> recipe_post ''rewardPay'' True q"
| "loanCollateralLock l u a v s = Inr q \<Longrightarrow> recipe_post ''loanCollateralLock'' True q"
| "loanCollateralRelease l u a v s = Inr q \<Longrightarrow> recipe_post ''loanCollateralRelease'' True q"
| "loanDraw l u a v = Inr q \<Longrightarrow> recipe_post ''loanDraw'' True q"
| "loanRepay l u a v i s = Inr q \<Longrightarrow> recipe_post ''loanRepay'' True q"
| "loanLiquidate l u tr ca cs da pr pp ip pen sur cto pfrom mark = Inr q \<Longrightarrow>
     recipe_post ''loanLiquidate'' (spendable cto \<and> good_ref pfrom) q"
| "loanBadDebt l a v = Inr q \<Longrightarrow> recipe_post ''loanBadDebt'' True q"
| "loanReserveFund f a v src' = Inr q \<Longrightarrow> recipe_post ''loanReserveFund'' (pred_option good_ref src') q"
| "bankTransfer t occ frm to v knd ks = Inr q \<Longrightarrow> recipe_post ''bankTransfer'' (good_ref frm \<and> good_ref to) q"
| "earnDeposit p pool u a v = Inr q \<Longrightarrow> recipe_post ''earnDeposit'' True q"
| "earnWithdraw p pool u a v = Inr q \<Longrightarrow> recipe_post ''earnWithdraw'' True q"
| "earnPoolFund pool f a v src' = Inr q \<Longrightarrow> recipe_post ''earnPoolFund'' (pred_option good_ref src') q"
| "earnInterest pool d a ps = Inr q \<Longrightarrow> recipe_post ''earnInterest'' True q"
| "businessApprovalHold ap frm v = Inr q \<Longrightarrow> recipe_post ''businessApprovalHold'' (good_ref frm) q"
| "businessApprovalRelease ap frm v = Inr q \<Longrightarrow> recipe_post ''businessApprovalRelease'' (good_ref frm) q"
| "businessApprovalSettle ap frm to v = Inr q \<Longrightarrow> recipe_post ''businessApprovalSettle'' (good_ref frm \<and> good_ref to) q"
| "businessPayroll pid frm rcs = Inr q \<Longrightarrow>
     recipe_post ''businessPayroll'' (good_ref frm \<and> (\<forall>r \<in> set rcs. good_ref (fst r))) q"
| "subAccountTransfer t sf st a v = Inr q \<Longrightarrow> recipe_post ''subAccountTransfer'' True q"
| "payReceivedHold h u a v = Inr q \<Longrightarrow> recipe_post ''payReceivedHold'' True q"
| "payReceivedRelease h u a v hv = Inr q \<Longrightarrow> recipe_post ''payReceivedRelease'' True q"
| "payReceivedReturn h u a v hv pu = Inr q \<Longrightarrow> recipe_post ''payReceivedReturn'' True q"
| "bankTransferReversal ks' t occ cons frm to ov v = Inr q \<Longrightarrow> recipe_post ''bankTransferReversal'' (good_ref frm \<and> good_ref to) q"
| "marketPurchase p l b vu a pr' comm = Inr q \<Longrightarrow> recipe_post ''marketPurchase'' True q"
| "marketListingFee l vu a v = Inr q \<Longrightarrow> recipe_post ''marketListingFee'' True q"
| "marketPremiumPlacement p l vu a v = Inr q \<Longrightarrow> recipe_post ''marketPremiumPlacement'' True q"
| "fxConversion c m mu v' fa ta famt tamt fee' spr = Inr q \<Longrightarrow> recipe_post ''fxConversion'' True q"
| "fxConversionHold c m fa v = Inr q \<Longrightarrow> recipe_post ''fxConversionHold'' True q"
| "fxConversionRelease c m fa v sq = Inr q \<Longrightarrow> recipe_post ''fxConversionRelease'' True q"
| "fxConversionReverse c m mu v' fa ta famt tamt fee' spr = Inr q \<Longrightarrow> recipe_post ''fxConversionReverse'' True q"
| "fxConversionLateFill c m mu v' fa ta famt tamt fee' spr aud fund = Inr q \<Longrightarrow> recipe_post ''fxConversionLateFill'' True q"

section \<open>Recipes that move one amount\<close>

named_theorems recipe_valid \<open>entries of the recipes are valid\<close>

lemma deposit_valid [recipe_valid]: "deposit u a v rail ref sid conf = Inr q \<Longrightarrow> valid_entries (req_entries q)"
  by (auto simp: deposit_def depositCreditedAccount_def guard_defs account_defs good_claim Let_def intro!: valid_move split: if_splits option.splits fee_mode.splits)

lemma depositReverse_valid [recipe_valid]: "depositReverse u a v rail ref sid conf did = Inr q \<Longrightarrow> valid_entries (req_entries q)"
  by (auto simp: depositReverse_def depositCreditedAccount_def guard_defs account_defs good_claim Let_def intro!: valid_move split: if_splits option.splits fee_mode.splits)

lemma marketMakerSeedFund_valid [recipe_valid]: "marketMakerSeedFund a v sid rail = Inr q \<Longrightarrow> valid_entries (req_entries q)"
  by (auto simp: marketMakerSeedFund_def guard_defs account_defs good_claim Let_def intro!: valid_move split: if_splits option.splits fee_mode.splits)

lemma withdrawHold_valid [recipe_valid]: "withdrawHold u a v rail w = Inr q \<Longrightarrow> valid_entries (req_entries q)"
  by (auto simp: withdrawHold_def guard_defs account_defs good_claim Let_def intro!: valid_move split: if_splits option.splits fee_mode.splits)

lemma withdrawSettle_valid [recipe_valid]: "withdrawSettle u a v rail w = Inr q \<Longrightarrow> valid_entries (req_entries q)"
  by (auto simp: withdrawSettle_def guard_defs account_defs good_claim Let_def intro!: valid_move split: if_splits option.splits fee_mode.splits)

lemma withdrawReverse_valid [recipe_valid]: "withdrawReverse u a v rail w = Inr q \<Longrightarrow> valid_entries (req_entries q)"
  by (auto simp: withdrawReverse_def guard_defs account_defs good_claim Let_def intro!: valid_move split: if_splits option.splits fee_mode.splits)

lemma tradeFillFeeCorrection_valid [recipe_valid]: "tradeFillFeeCorrection f c u a d = Inr q \<Longrightarrow> valid_entries (req_entries q)"
  by (auto simp: tradeFillFeeCorrection_def guard_defs account_defs good_claim Let_def intro!: valid_move split: if_splits option.splits fee_mode.splits)

lemma orderHold_valid [recipe_valid]: "orderHold oid u a v = Inr q \<Longrightarrow> valid_entries (req_entries q)"
  by (auto simp: orderHold_def guard_defs account_defs good_claim Let_def intro!: valid_move split: if_splits option.splits fee_mode.splits)

lemma orderHoldRelease_valid [recipe_valid]: "orderHoldRelease oid u a v sq = Inr q \<Longrightarrow> valid_entries (req_entries q)"
  by (auto simp: orderHoldRelease_def guard_defs account_defs good_claim Let_def intro!: valid_move split: if_splits option.splits fee_mode.splits)

lemma orderHoldAmend_valid [recipe_valid]: "orderHoldAmend oid u a v s = Inr q \<Longrightarrow> valid_entries (req_entries q)"
  by (auto simp: orderHoldAmend_def guard_defs account_defs good_claim Let_def intro!: valid_move split: if_splits option.splits fee_mode.splits)

lemma marketMakerOrderHold_valid [recipe_valid]: "marketMakerOrderHold oid a v = Inr q \<Longrightarrow> valid_entries (req_entries q)"
  by (auto simp: marketMakerOrderHold_def guard_defs account_defs good_claim Let_def intro!: valid_move split: if_splits option.splits fee_mode.splits)

lemma marketMakerOrderHoldRelease_valid [recipe_valid]: "marketMakerOrderHoldRelease oid a v sq = Inr q \<Longrightarrow> valid_entries (req_entries q)"
  by (auto simp: marketMakerOrderHoldRelease_def guard_defs account_defs good_claim Let_def intro!: valid_move split: if_splits option.splits fee_mode.splits)

lemma futuresMarginLock_valid [recipe_valid]: "futuresMarginLock p u a v sid = Inr q \<Longrightarrow> valid_entries (req_entries q)"
  by (auto simp: futuresMarginLock_def marginPots_def guard_defs account_defs good_claim Let_def intro!: valid_move split: if_splits option.splits fee_mode.splits)

lemma futuresMarginAdd_valid [recipe_valid]: "futuresMarginAdd p u a v sid s = Inr q \<Longrightarrow> valid_entries (req_entries q)"
  by (auto simp: futuresMarginAdd_def marginPots_def guard_defs account_defs good_claim Let_def intro!: valid_move split: if_splits option.splits fee_mode.splits)

lemma futuresOrderMarginHold_valid [recipe_valid]: "futuresOrderMarginHold oid u a v sid = Inr q \<Longrightarrow> valid_entries (req_entries q)"
  by (auto simp: futuresOrderMarginHold_def orderPots_def guard_defs account_defs good_claim Let_def intro!: valid_move split: if_splits option.splits fee_mode.splits)

lemma futuresOrderMarginRelease_valid [recipe_valid]: "futuresOrderMarginRelease oid u a v sid sq = Inr q \<Longrightarrow> valid_entries (req_entries q)"
  by (auto simp: futuresOrderMarginRelease_def orderPots_def guard_defs account_defs good_claim Let_def intro!: valid_move split: if_splits option.splits fee_mode.splits)

lemma futuresRealizeProfit_valid [recipe_valid]: "futuresRealizeProfit p u a v pr = Inr q \<Longrightarrow> valid_entries (req_entries q)"
  by (auto simp: futuresRealizeProfit_def guard_defs account_defs good_claim Let_def intro!: valid_move split: if_splits option.splits fee_mode.splits)

lemma futuresFundingPay_valid [recipe_valid]: "futuresFundingPay f pu pp eu ep a v = Inr q \<Longrightarrow> valid_entries (req_entries q)"
  by (auto simp: futuresFundingPay_def guard_defs account_defs good_claim Let_def intro!: valid_move split: if_splits option.splits fee_mode.splits)

lemma futuresInsuranceTopup_valid [recipe_valid]: "futuresInsuranceTopup t a v = Inr q \<Longrightarrow> valid_entries (req_entries q)"
  by (auto simp: futuresInsuranceTopup_def guard_defs account_defs good_claim Let_def intro!: valid_move split: if_splits option.splits fee_mode.splits)

lemma escrowLock_valid [recipe_valid]: "escrowLock t s b a v = Inr q \<Longrightarrow> valid_entries (req_entries q)"
  by (auto simp: escrowLock_def guard_defs account_defs good_claim Let_def intro!: valid_move split: if_splits option.splits fee_mode.splits)

lemma escrowRefund_valid [recipe_valid]: "escrowRefund t s b a v res rul = Inr q \<Longrightarrow> valid_entries (req_entries q)"
  by (auto simp: escrowRefund_def guard_defs account_defs good_claim Let_def intro!: valid_move split: if_splits option.splits fee_mode.splits)

lemma paymentCapture_valid [recipe_valid]: "paymentCapture p m a v rail ref = Inr q \<Longrightarrow> valid_entries (req_entries q)"
  by (auto simp: paymentCapture_def guard_defs account_defs good_claim Let_def intro!: valid_move split: if_splits option.splits fee_mode.splits)

lemma paymentRefund_valid [recipe_valid]: "paymentRefund r p m mu a v rail src pot = Inr q \<Longrightarrow> valid_entries (req_entries q)"
  by (auto simp: paymentRefund_def refundPot_def guard_defs account_defs good_claim Let_def intro!: valid_move split: if_splits option.splits fee_mode.splits)

lemma paymentRefundReverse_valid [recipe_valid]: "paymentRefundReverse r p m mu a v rail src pot = Inr q \<Longrightarrow> valid_entries (req_entries q)"
  by (auto simp: paymentRefundReverse_def refundPot_def guard_defs account_defs good_claim Let_def intro!: valid_move split: if_splits option.splits fee_mode.splits)

lemma merchantProceedsPayoutHold_valid [recipe_valid]: "merchantProceedsPayoutHold_recipe m a v rail w = Inr q \<Longrightarrow> valid_entries (req_entries q)"
  by (auto simp: merchantProceedsPayoutHold_recipe_def guard_defs account_defs good_claim Let_def intro!: valid_move split: if_splits option.splits fee_mode.splits)

lemma merchantProceedsPayoutSettle_valid [recipe_valid]: "merchantProceedsPayoutSettle m a v rail w = Inr q \<Longrightarrow> valid_entries (req_entries q)"
  by (auto simp: merchantProceedsPayoutSettle_def guard_defs account_defs good_claim Let_def intro!: valid_move split: if_splits option.splits fee_mode.splits)

lemma merchantProceedsPayoutReverse_valid [recipe_valid]: "merchantProceedsPayoutReverse m a v rail w = Inr q \<Longrightarrow> valid_entries (req_entries q)"
  by (auto simp: merchantProceedsPayoutReverse_def guard_defs account_defs good_claim Let_def intro!: valid_move split: if_splits option.splits fee_mode.splits)

lemma chargebackShortfall_valid [recipe_valid]: "chargebackShortfall d p m a rail v = Inr q \<Longrightarrow> valid_entries (req_entries q)"
  by (auto simp: chargebackShortfall_def guard_defs account_defs good_claim Let_def intro!: valid_move split: if_splits option.splits fee_mode.splits)

lemma chargebackShortfallRecovered_valid [recipe_valid]: "chargebackShortfallRecovered d p m a rail v = Inr q \<Longrightarrow> valid_entries (req_entries q)"
  by (auto simp: chargebackShortfallRecovered_def guard_defs account_defs good_claim Let_def intro!: valid_move split: if_splits option.splits fee_mode.splits)

lemma stake_valid [recipe_valid]: "stake sk u a v tier = Inr q \<Longrightarrow> valid_entries (req_entries q)"
  by (auto simp: stake_def guard_defs account_defs good_claim Let_def intro!: valid_move split: if_splits option.splits fee_mode.splits)

lemma unstake_valid [recipe_valid]: "unstake sk u a v tier = Inr q \<Longrightarrow> valid_entries (req_entries q)"
  by (auto simp: unstake_def guard_defs account_defs good_claim Let_def intro!: valid_move split: if_splits option.splits fee_mode.splits)

lemma mintEmission_valid [recipe_valid]: "mintEmission ep a v dst = Inr q \<Longrightarrow> (spendable dst \<and> assetId dst = a) \<Longrightarrow> valid_entries (req_entries q)"
  by (auto simp: mintEmission_def spendable_def guard_defs account_defs good_claim Let_def intro!: valid_move split: if_splits option.splits fee_mode.splits)

lemma burn_valid [recipe_valid]: "burn rid a v frm = Inr q \<Longrightarrow> (good_ref frm \<and> assetId frm = a) \<Longrightarrow> valid_entries (req_entries q)"
  by (auto simp: burn_def guard_defs account_defs good_claim Let_def intro!: valid_move split: if_splits option.splits fee_mode.splits)

lemma feeCharge_valid [recipe_valid]: "feeCharge c u m rs mode = Inr q \<Longrightarrow> valid_entries (req_entries q)"
  by (auto simp: feeCharge_def guard_defs account_defs good_claim Let_def intro!: valid_move split: if_splits option.splits fee_mode.splits)

lemma sweepFeesToRewards_valid [recipe_valid]: "sweepFeesToRewards w m a v = Inr q \<Longrightarrow> valid_entries (req_entries q)"
  by (auto simp: sweepFeesToRewards_def guard_defs account_defs good_claim Let_def intro!: valid_move split: if_splits option.splits fee_mode.splits)

lemma rewardPay_valid [recipe_valid]: "rewardPay r u a v rs' = Inr q \<Longrightarrow> valid_entries (req_entries q)"
  by (auto simp: rewardPay_def guard_defs account_defs good_claim Let_def intro!: valid_move split: if_splits option.splits fee_mode.splits)

lemma loanCollateralLock_valid [recipe_valid]: "loanCollateralLock l u a v s = Inr q \<Longrightarrow> valid_entries (req_entries q)"
  by (auto simp: loanCollateralLock_def guard_defs account_defs good_claim Let_def intro!: valid_move split: if_splits option.splits fee_mode.splits)

lemma loanCollateralRelease_valid [recipe_valid]: "loanCollateralRelease l u a v s = Inr q \<Longrightarrow> valid_entries (req_entries q)"
  by (auto simp: loanCollateralRelease_def guard_defs account_defs good_claim Let_def intro!: valid_move split: if_splits option.splits fee_mode.splits)

lemma loanDraw_valid [recipe_valid]: "loanDraw l u a v = Inr q \<Longrightarrow> valid_entries (req_entries q)"
  by (auto simp: loanDraw_def guard_defs account_defs good_claim Let_def intro!: valid_move split: if_splits option.splits fee_mode.splits)

lemma loanBadDebt_valid [recipe_valid]: "loanBadDebt l a v = Inr q \<Longrightarrow> valid_entries (req_entries q)"
  by (auto simp: loanBadDebt_def guard_defs account_defs good_claim Let_def intro!: valid_move split: if_splits option.splits fee_mode.splits)

lemma loanReserveFund_valid [recipe_valid]: "loanReserveFund f a v src' = Inr q \<Longrightarrow> (pred_option good_ref src') \<Longrightarrow> valid_entries (req_entries q)"
  by (auto simp: loanReserveFund_def guard_defs account_defs good_claim Let_def intro!: valid_move split: if_splits option.splits fee_mode.splits)

lemma bankTransfer_valid [recipe_valid]: "bankTransfer t occ frm to v knd ks = Inr q \<Longrightarrow> (good_ref frm \<and> good_ref to) \<Longrightarrow> valid_entries (req_entries q)"
  by (auto simp: bankTransfer_def guard_defs account_defs good_claim Let_def intro!: valid_move split: if_splits option.splits fee_mode.splits)

lemma earnDeposit_valid [recipe_valid]: "earnDeposit p pool u a v = Inr q \<Longrightarrow> valid_entries (req_entries q)"
  by (auto simp: earnDeposit_def guard_defs account_defs good_claim Let_def intro!: valid_move split: if_splits option.splits fee_mode.splits)

lemma earnWithdraw_valid [recipe_valid]: "earnWithdraw p pool u a v = Inr q \<Longrightarrow> valid_entries (req_entries q)"
  by (auto simp: earnWithdraw_def guard_defs account_defs good_claim Let_def intro!: valid_move split: if_splits option.splits fee_mode.splits)

lemma earnPoolFund_valid [recipe_valid]: "earnPoolFund pool f a v src' = Inr q \<Longrightarrow> (pred_option good_ref src') \<Longrightarrow> valid_entries (req_entries q)"
  by (auto simp: earnPoolFund_def guard_defs account_defs good_claim Let_def intro!: valid_move split: if_splits option.splits fee_mode.splits)

lemma businessApprovalHold_valid [recipe_valid]: "businessApprovalHold ap frm v = Inr q \<Longrightarrow> (good_ref frm) \<Longrightarrow> valid_entries (req_entries q)"
  by (auto simp: businessApprovalHold_def businessApprovalHoldFor_def guard_defs account_defs good_claim Let_def intro!: valid_move split: if_splits option.splits fee_mode.splits)

lemma businessApprovalRelease_valid [recipe_valid]: "businessApprovalRelease ap frm v = Inr q \<Longrightarrow> (good_ref frm) \<Longrightarrow> valid_entries (req_entries q)"
  by (auto simp: businessApprovalRelease_def businessApprovalHoldFor_def guard_defs account_defs good_claim Let_def intro!: valid_move split: if_splits option.splits fee_mode.splits)

lemma businessApprovalSettle_valid [recipe_valid]: "businessApprovalSettle ap frm to v = Inr q \<Longrightarrow> (good_ref frm \<and> good_ref to) \<Longrightarrow> valid_entries (req_entries q)"
  by (auto simp: businessApprovalSettle_def businessApprovalHoldFor_def guard_defs account_defs good_claim Let_def intro!: valid_move split: if_splits option.splits fee_mode.splits)

lemma subAccountTransfer_valid [recipe_valid]: "subAccountTransfer t sf st a v = Inr q \<Longrightarrow> valid_entries (req_entries q)"
  by (auto simp: subAccountTransfer_def guard_defs account_defs good_claim Let_def intro!: valid_move split: if_splits option.splits fee_mode.splits)

lemma payReceivedHold_valid [recipe_valid]: "payReceivedHold h u a v = Inr q \<Longrightarrow> valid_entries (req_entries q)"
  by (auto simp: payReceivedHold_def recv_pots_def guard_defs account_defs good_claim Let_def intro!: valid_move split: if_splits option.splits fee_mode.splits)

lemma payReceivedRelease_valid [recipe_valid]: "payReceivedRelease h u a v hv = Inr q \<Longrightarrow> valid_entries (req_entries q)"
  by (auto simp: payReceivedRelease_def recv_pots_def guard_defs account_defs good_claim Let_def intro!: valid_move split: if_splits option.splits fee_mode.splits)

lemma payReceivedReturn_valid [recipe_valid]: "payReceivedReturn h u a v hv pu = Inr q \<Longrightarrow> valid_entries (req_entries q)"
  by (auto simp: payReceivedReturn_def recv_pots_def guard_defs account_defs good_claim Let_def intro!: valid_move split: if_splits option.splits fee_mode.splits)

lemma bankTransferReversal_valid [recipe_valid]: "bankTransferReversal ks' t occ cons frm to ov v = Inr q \<Longrightarrow> (good_ref frm \<and> good_ref to) \<Longrightarrow> valid_entries (req_entries q)"
  by (auto simp: bankTransferReversal_def guard_defs account_defs good_claim Let_def intro!: valid_move split: if_splits option.splits fee_mode.splits)

lemma marketListingFee_valid [recipe_valid]: "marketListingFee l vu a v = Inr q \<Longrightarrow> valid_entries (req_entries q)"
  by (auto simp: marketListingFee_def guard_defs account_defs good_claim Let_def intro!: valid_move split: if_splits option.splits fee_mode.splits)

lemma marketPremiumPlacement_valid [recipe_valid]: "marketPremiumPlacement p l vu a v = Inr q \<Longrightarrow> valid_entries (req_entries q)"
  by (auto simp: marketPremiumPlacement_def guard_defs account_defs good_claim Let_def intro!: valid_move split: if_splits option.splits fee_mode.splits)

lemma fxConversionHold_valid [recipe_valid]: "fxConversionHold c m fa v = Inr q \<Longrightarrow> valid_entries (req_entries q)"
  by (auto simp: fxConversionHold_def guard_defs account_defs good_claim Let_def intro!: valid_move split: if_splits option.splits fee_mode.splits)

lemma fxConversionRelease_valid [recipe_valid]: "fxConversionRelease c m fa v sq = Inr q \<Longrightarrow> valid_entries (req_entries q)"
  by (auto simp: fxConversionRelease_def guard_defs account_defs good_claim Let_def intro!: valid_move split: if_splits option.splits fee_mode.splits)

section \<open>Recipes with several legs\<close>

lemma mulBps_nonneg: "mulBps a b Ceil = Inr f \<Longrightarrow> \<not> a \<le> 0 \<Longrightarrow> 0 \<le> f" "mulBps a b Floor = Inr f \<Longrightarrow> \<not> a \<le> 0 \<Longrightarrow> 0 \<le> f"
  using mulBps_ceil_bounds(1) [of a b f] mulBps_floor_bounds(1) [of a b f] by auto

lemmas split_simps = when_pos_set asset_net_append asset_net_when_pos sub_def

lemma escrowRelease_valid [recipe_valid]: "escrowRelease t s b a v fee rul = Inr q \<Longrightarrow> valid_entries (req_entries q)"
  by (auto simp: escrowRelease_def guard_defs account_defs good_claim Let_def split_simps
      intro!: valid_unlocking split: if_splits option.splits dest: mulBps_nonneg)

text \<open>The six legs of a fill: each side pays from its hold, and what the other side receives and
  the fee on it make up the payment.\<close>

lemma fill_valid:
  assumes "\<not> tp \<le> 0" "\<not> mp \<le> 0" "mulBps mp tb Ceil = Inr tf" "mulBps tp mb Ceil = Inr mf"
    and "\<not> sub mp tf \<le> 0" "\<not> sub tp mf \<le> 0"
    and "good_ref th" "assetId th = ta" "good_ref mh" "assetId mh = ma"
    and "spendable mr" "assetId mr = ta" "spendable tr" "assetId tr = ma"
    and "spendable h1" "assetId h1 = ta" "spendable h2" "assetId h2 = ma"
  shows "valid_entries ([credit th tp, debit mr (sub tp mf)] @ when_pos mf (debit h1 mf)
    @ [credit mh mp, debit tr (sub mp tf)] @ when_pos tf (debit h2 tf))"
proof -
  have fees: "0 \<le> tf" "0 \<le> mf" using mulBps_nonneg(1) assms(1-4) by blast+
  show ?thesis
    by (rule valid_unlocking) (use assms fees in \<open>auto simp: split_simps spendable_def split: if_splits\<close>)
qed

lemma tradeFill_valid [recipe_valid]: "tradeFill f m t mo to' b qa qty qamt s mf tf = Inr q \<Longrightarrow> valid_entries (req_entries q)"
  by (auto simp: tradeFill_def guard_defs account_defs good_claim spendable_def Let_def
      intro!: fill_valid [simplified] split: if_splits)

lemma marketMakerMakerFill_valid [recipe_valid]: "marketMakerMakerFill f t mo to' b qa qty qamt s mf tf = Inr q \<Longrightarrow> valid_entries (req_entries q)"
  by (auto simp: marketMakerMakerFill_def guard_defs account_defs good_claim spendable_def Let_def
      intro!: fill_valid [simplified] split: if_splits)

lemma futuresMarginRelease_valid [recipe_valid]: "futuresMarginRelease p u a v sid sq fee = Inr q \<Longrightarrow> valid_entries (req_entries q)"
  by (auto simp: futuresMarginRelease_def marginPots_def guard_defs account_defs good_claim Let_def split_simps when_pos_def
      intro!: valid_unlocking split: if_splits option.splits)

lemma futuresRealizeLoss_valid [recipe_valid]: "futuresRealizeLoss p u a fm fi l sid dsid = Inr q \<Longrightarrow> valid_entries (req_entries q)"
  by (auto simp: futuresRealizeLoss_def guard_defs account_defs good_claim Let_def split_simps when_pos_def
      intro!: valid_unlocking split: if_splits option.splits)

lemma merchantSettlement_valid [recipe_valid]: "merchantSettlement m mu w a g fee = Inr q \<Longrightarrow> valid_entries (req_entries q)"
  by (auto simp: merchantSettlement_def guard_defs account_defs good_claim Let_def split_simps
      intro!: valid_unlocking split: if_splits option.splits)

lemma chargebackOpen_valid [recipe_valid]: "chargebackOpen d p m mu a rail fc fb pot = Inr q \<Longrightarrow> valid_entries (req_entries q)"
  by (auto simp: chargebackOpen_def settledLeg_def guard_defs account_defs good_claim Let_def split_simps when_pos_def
      intro!: valid_unlocking split: if_splits option.splits)

lemma chargebackWon_valid [recipe_valid]: "chargebackWon d p m mu a rail fc fb pot = Inr q \<Longrightarrow> valid_entries (req_entries q)"
  by (auto simp: chargebackWon_def settledLeg_def guard_defs account_defs good_claim Let_def split_simps when_pos_def
      intro!: valid_unlocking split: if_splits option.splits)

lemma loanRepay_valid [recipe_valid]: "loanRepay l u a v i s = Inr q \<Longrightarrow> valid_entries (req_entries q)"
  by (auto simp: loanRepay_def guard_defs account_defs good_claim Let_def split_simps when_pos_def
      intro!: valid_unlocking split: if_splits option.splits)

lemma marketPurchase_valid [recipe_valid]: "marketPurchase p l b vu a pr comm = Inr q \<Longrightarrow> valid_entries (req_entries q)"
  by (auto simp: marketPurchase_def guard_defs account_defs good_claim Let_def split_simps
      intro!: valid_unlocking split: if_splits option.splits dest: mulBps_nonneg)

lemma fxConversion_valid [recipe_valid]: "fxConversion c m mu v fa ta famt tamt fee spr = Inr q \<Longrightarrow> valid_entries (req_entries q)"
  by (auto simp: fxConversion_def guard_defs account_defs good_claim Let_def split_simps
      intro!: valid_unlocking split: if_splits option.splits)

lemma fxConversionReverse_valid [recipe_valid]: "fxConversionReverse c m mu v fa ta famt tamt fee spr = Inr q \<Longrightarrow> valid_entries (req_entries q)"
  by (auto simp: fxConversionReverse_def guard_defs account_defs good_claim Let_def split_simps
      intro!: valid_unlocking split: if_splits option.splits)

lemma fxConversionLateFill_valid [recipe_valid]: "fxConversionLateFill c m mu v fa ta famt tamt fee spr aud fund = Inr q \<Longrightarrow> valid_entries (req_entries q)"
  by (auto simp: fxConversionLateFill_def guard_defs account_defs good_claim Let_def split_simps
      intro!: valid_unlocking split: if_splits option.splits)

lemma loanLiquidate_valid [recipe_valid]: "loanLiquidate l u tr ca cs da pr pp ip pen sur cto pfrom mark = Inr q \<Longrightarrow>
   spendable cto \<and> good_ref pfrom \<Longrightarrow> valid_entries (req_entries q)"
  by (auto simp: loanLiquidate_def spendable_def guard_defs account_defs good_claim Let_def split_simps
      intro!: valid_unlocking split: if_splits option.splits)

lemma futuresOrderMarginApply_valid [recipe_valid]:
  "futuresOrderMarginApply oid u a p f v rel fee sid = Inr q \<Longrightarrow> valid_entries (req_entries q)"
  by (auto simp: futuresOrderMarginApply_def orderPots_def guard_defs account_defs good_claim Let_def split_simps when_pos_def
      valid_entries_iff owner_asset_key_def split: if_splits option.splits)

lemma asset_net_map_debit:
  "asset_net (map (\<lambda>(r, v). debit (f r) v) ps) x = (\<Sum>p\<leftarrow>filter (\<lambda>p. assetId (f (fst p)) = x) ps. snd p)"
  by (induction ps) auto

text \<open>One payer and a list of spendable payees in the payer's asset.\<close>

lemma valid_payouts:
  assumes "ps \<noteq> []" "\<forall>p \<in> set ps. 0 < snd p" "good_ref frm"
    and "\<forall>p \<in> set ps. spendable (f (fst p)) \<and> assetId (f (fst p)) = assetId frm"
  shows "valid_entries (credit frm (sum_list (map snd ps)) # map (\<lambda>(r, v). debit (f r) v) ps)"
proof (rule valid_unlocking)
  obtain p ps' where p: "ps = p # ps'" using assms(1) by (cases ps) auto
  have "0 \<le> sum_list (map snd ps')" using assms(2) p by (intro sum_list_nonneg) auto
  then have tot: "0 < sum_list (map snd ps)" using assms(2) p by simp
  show "\<forall>e \<in> set (credit frm (sum_list (map snd ps)) # map (\<lambda>(r, v). debit (f r) v) ps).
      0 < entry_amount e \<and> good_ref (entry_account e)"
    using assms tot by (auto simp: spendable_def)
  show "\<forall>e \<in> set (credit frm (sum_list (map snd ps)) # map (\<lambda>(r, v). debit (f r) v) ps).
      kind (entry_account e) \<in> LOCK_KINDS \<longrightarrow> signedDelta e \<le> 0"
    using assms tot by (auto simp: spendable_def)
  show "\<forall>a. asset_net (credit frm (sum_list (map snd ps)) # map (\<lambda>(r, v). debit (f r) v) ps) a = 0"
  proof
    fix a
    have "filter (\<lambda>p. assetId (f (fst p)) = a) ps = (if assetId frm = a then ps else [])"
      using assms(4) by (auto simp: filter_empty_conv filter_id_conv)
    then show "asset_net (credit frm (sum_list (map snd ps)) # map (\<lambda>(r, v). debit (f r) v) ps) a = 0"
      by (simp add: asset_net_map_debit)
  qed
qed (use assms(1) in \<open>cases ps, auto\<close>)

lemma earnInterest_valid [recipe_valid]:
  assumes "earnInterest pool d a ps = Inr q"
  shows "valid_entries (req_entries q)"
proof -
  have c: "ps \<noteq> []" "\<forall>p \<in> set ps. 0 < snd p"
    and q: "req_entries q = credit (earnPoolReserve pool a) (sum_list (map snd ps)) # map (\<lambda>(u, v). debit (userAvailable u a) v) ps"
    using assms by (auto simp: earnInterest_def requirePositive_def Let_def case_prod_beta split: if_splits)
  show ?thesis
    unfolding q by (rule valid_payouts [OF c]) (simp_all add: account_defs spendable_def)
qed

lemma payroll_lines_Inr:
  "payroll_lines a seen rs = Inr u \<Longrightarrow> \<forall>r \<in> set rs. 0 < snd r \<and> kind (fst r) = Available \<and> assetId (fst r) = a"
  by (induction a seen rs rule: payroll_lines.induct) (auto simp: requirePositive_def split: if_splits)

lemma businessPayroll_valid [recipe_valid]:
  "businessPayroll pid frm rcs = Inr q \<Longrightarrow> good_ref frm \<and> (\<forall>r \<in> set rcs. good_ref (fst r)) \<Longrightarrow> valid_entries (req_entries q)"
  using valid_payouts [of rcs frm id] payroll_lines_Inr [of "assetId frm" "[accountKey frm]" rcs]
  by (auto simp: businessPayroll_def spendable_def Let_def split: if_splits)

lemma recipe_post_valid: "recipe_post name pre q \<Longrightarrow> pre \<Longrightarrow> valid_entries (req_entries q)"
  by (induction rule: recipe_post.induct) ((erule recipe_valid, assumption) | erule recipe_valid)+

section \<open>Idempotency keys\<close>

text \<open>The part of a key before its first colon names the recipe.\<close>

definition key_tag :: "post_request \<Rightarrow> string" where
  "key_tag q = takeWhile (\<lambda>c. c \<noteq> CHR '':'') (idempotencyKey q)"

named_theorems recipe_tag \<open>key tags of the recipes\<close>

lemma deposit_tag [recipe_tag]: "deposit u a v rail ref sid conf = Inr q \<Longrightarrow> key_tag q = ''deposit''"
  by (auto simp: deposit_def guard_defs key_tag_def Let_def split: if_splits option.splits fee_mode.splits)

lemma depositReverse_tag [recipe_tag]: "depositReverse u a v rail ref sid conf did = Inr q \<Longrightarrow> key_tag q = ''deposit.reverse''"
  by (auto simp: depositReverse_def guard_defs key_tag_def Let_def split: if_splits option.splits fee_mode.splits)

lemma marketMakerSeedFund_tag [recipe_tag]: "marketMakerSeedFund a v sid rail = Inr q \<Longrightarrow> key_tag q = ''mm.seed.fund''"
  by (auto simp: marketMakerSeedFund_def guard_defs key_tag_def Let_def split: if_splits option.splits fee_mode.splits)

lemma withdrawHold_tag [recipe_tag]: "withdrawHold u a v rail w = Inr q \<Longrightarrow> key_tag q = ''withdraw.hold''"
  by (auto simp: withdrawHold_def guard_defs key_tag_def Let_def split: if_splits option.splits fee_mode.splits)

lemma withdrawSettle_tag [recipe_tag]: "withdrawSettle u a v rail w = Inr q \<Longrightarrow> key_tag q = ''withdraw.settle''"
  by (auto simp: withdrawSettle_def guard_defs key_tag_def Let_def split: if_splits option.splits fee_mode.splits)

lemma withdrawReverse_tag [recipe_tag]: "withdrawReverse u a v rail w = Inr q \<Longrightarrow> key_tag q = ''withdraw.reverse''"
  by (auto simp: withdrawReverse_def guard_defs key_tag_def Let_def split: if_splits option.splits fee_mode.splits)

lemma tradeFill_tag [recipe_tag]: "tradeFill f m t mo to' b qa qty qamt s mf tf = Inr q \<Longrightarrow> key_tag q = ''trade.fill''"
  by (auto simp: tradeFill_def guard_defs key_tag_def Let_def split: if_splits option.splits fee_mode.splits)

lemma tradeFillFeeCorrection_tag [recipe_tag]: "tradeFillFeeCorrection f c u a d = Inr q \<Longrightarrow> key_tag q = ''trade.fill.fee.correction''"
  by (auto simp: tradeFillFeeCorrection_def guard_defs key_tag_def Let_def split: if_splits option.splits fee_mode.splits)

lemma orderHold_tag [recipe_tag]: "orderHold oid u a v = Inr q \<Longrightarrow> key_tag q = ''order.hold''"
  by (auto simp: orderHold_def guard_defs key_tag_def Let_def split: if_splits option.splits fee_mode.splits)

lemma orderHoldRelease_tag [recipe_tag]: "orderHoldRelease oid u a v sq = Inr q \<Longrightarrow> key_tag q = ''order.release''"
  by (auto simp: orderHoldRelease_def guard_defs key_tag_def Let_def split: if_splits option.splits fee_mode.splits)

lemma orderHoldAmend_tag [recipe_tag]: "orderHoldAmend oid u a v s = Inr q \<Longrightarrow> key_tag q = ''order.hold.amend''"
  by (auto simp: orderHoldAmend_def guard_defs key_tag_def Let_def split: if_splits option.splits fee_mode.splits)

lemma marketMakerOrderHold_tag [recipe_tag]: "marketMakerOrderHold oid a v = Inr q \<Longrightarrow> key_tag q = ''order.hold.mm''"
  by (auto simp: marketMakerOrderHold_def guard_defs key_tag_def Let_def split: if_splits option.splits fee_mode.splits)

lemma marketMakerOrderHoldRelease_tag [recipe_tag]: "marketMakerOrderHoldRelease oid a v sq = Inr q \<Longrightarrow> key_tag q = ''order.release.mm''"
  by (auto simp: marketMakerOrderHoldRelease_def guard_defs key_tag_def Let_def split: if_splits option.splits fee_mode.splits)

lemma marketMakerMakerFill_tag [recipe_tag]: "marketMakerMakerFill f t mo to' b qa qty qamt s mf tf = Inr q \<Longrightarrow> key_tag q = ''trade.fill.mm-maker''"
  by (auto simp: marketMakerMakerFill_def guard_defs key_tag_def Let_def split: if_splits option.splits fee_mode.splits)

lemma futuresMarginLock_tag [recipe_tag]: "futuresMarginLock p u a v sid = Inr q \<Longrightarrow> key_tag q = ''futures.margin.lock''"
  by (auto simp: futuresMarginLock_def marginPots_def guard_defs key_tag_def Let_def split: if_splits option.splits fee_mode.splits)

lemma futuresMarginAdd_tag [recipe_tag]: "futuresMarginAdd p u a v sid s = Inr q \<Longrightarrow> key_tag q = ''futures.margin.add''"
  by (auto simp: futuresMarginAdd_def marginPots_def guard_defs key_tag_def Let_def split: if_splits option.splits fee_mode.splits)

lemma futuresMarginRelease_tag [recipe_tag]: "futuresMarginRelease p u a v sid sq fee = Inr q \<Longrightarrow> key_tag q = ''futures.margin.release''"
  by (auto simp: futuresMarginRelease_def marginPots_def guard_defs key_tag_def Let_def split: if_splits option.splits fee_mode.splits)

lemma futuresOrderMarginHold_tag [recipe_tag]: "futuresOrderMarginHold oid u a v sid = Inr q \<Longrightarrow> key_tag q = ''futures.order.margin.hold''"
  by (auto simp: futuresOrderMarginHold_def orderPots_def guard_defs key_tag_def Let_def split: if_splits option.splits fee_mode.splits)

lemma futuresOrderMarginRelease_tag [recipe_tag]: "futuresOrderMarginRelease oid u a v sid sq = Inr q \<Longrightarrow> key_tag q = ''futures.order.margin.release''"
  by (auto simp: futuresOrderMarginRelease_def orderPots_def guard_defs key_tag_def Let_def split: if_splits option.splits fee_mode.splits)

lemma futuresOrderMarginApply_tag [recipe_tag]: "futuresOrderMarginApply oid u a p f v rel fee sid = Inr q \<Longrightarrow> key_tag q = ''futures.fill''"
  by (auto simp: futuresOrderMarginApply_def orderPots_def guard_defs key_tag_def Let_def split: if_splits option.splits fee_mode.splits)

lemma futuresRealizeLoss_tag [recipe_tag]: "futuresRealizeLoss p u a fm fi l sid dsid = Inr q \<Longrightarrow> key_tag q = ''futures.loss''"
  by (auto simp: futuresRealizeLoss_def guard_defs key_tag_def Let_def split: if_splits option.splits fee_mode.splits)

lemma futuresRealizeProfit_tag [recipe_tag]: "futuresRealizeProfit p u a v pr = Inr q \<Longrightarrow> key_tag q = ''futures.profit''"
  by (auto simp: futuresRealizeProfit_def guard_defs key_tag_def Let_def split: if_splits option.splits fee_mode.splits)

lemma futuresFundingPay_tag [recipe_tag]: "futuresFundingPay f pu pp eu ep a v = Inr q \<Longrightarrow> key_tag q = ''futures.funding''"
  by (auto simp: futuresFundingPay_def guard_defs key_tag_def Let_def split: if_splits option.splits fee_mode.splits)

lemma futuresInsuranceTopup_tag [recipe_tag]: "futuresInsuranceTopup t a v = Inr q \<Longrightarrow> key_tag q = ''futures.insurance.topup''"
  by (auto simp: futuresInsuranceTopup_def guard_defs key_tag_def Let_def split: if_splits option.splits fee_mode.splits)

lemma escrowLock_tag [recipe_tag]: "escrowLock t s b a v = Inr q \<Longrightarrow> key_tag q = ''p2p.escrow.lock''"
  by (auto simp: escrowLock_def guard_defs key_tag_def Let_def split: if_splits option.splits fee_mode.splits)

lemma escrowRelease_tag [recipe_tag]: "escrowRelease t s b a v fee rul = Inr q \<Longrightarrow> key_tag q = ''p2p.escrow.release''"
  by (auto simp: escrowRelease_def guard_defs key_tag_def Let_def split: if_splits option.splits fee_mode.splits)

lemma escrowRefund_tag [recipe_tag]: "escrowRefund t s b a v res rul = Inr q \<Longrightarrow> key_tag q = ''p2p.escrow.refund''"
  by (auto simp: escrowRefund_def guard_defs key_tag_def Let_def split: if_splits option.splits fee_mode.splits)

lemma paymentCapture_tag [recipe_tag]: "paymentCapture p m a v rail ref = Inr q \<Longrightarrow> key_tag q = ''payment.capture''"
  by (auto simp: paymentCapture_def guard_defs key_tag_def Let_def split: if_splits option.splits fee_mode.splits)

lemma merchantSettlement_tag [recipe_tag]: "merchantSettlement m mu w a g fee' = Inr q \<Longrightarrow> key_tag q = ''settlement''"
  by (auto simp: merchantSettlement_def guard_defs key_tag_def Let_def split: if_splits option.splits fee_mode.splits)

lemma paymentRefund_tag [recipe_tag]: "paymentRefund r p m mu a v rail src pot = Inr q \<Longrightarrow> key_tag q = ''payment.refund''"
  by (auto simp: paymentRefund_def guard_defs key_tag_def Let_def split: if_splits option.splits fee_mode.splits)

lemma paymentRefundReverse_tag [recipe_tag]: "paymentRefundReverse r p m mu a v rail src pot = Inr q \<Longrightarrow> key_tag q = ''payment.refund.reverse''"
  by (auto simp: paymentRefundReverse_def guard_defs key_tag_def Let_def split: if_splits option.splits fee_mode.splits)

lemma merchantProceedsPayoutHold_tag [recipe_tag]: "merchantProceedsPayoutHold_recipe m a v rail w = Inr q \<Longrightarrow> key_tag q = ''pay.proceeds.payout.hold''"
  by (auto simp: merchantProceedsPayoutHold_recipe_def guard_defs key_tag_def Let_def split: if_splits option.splits fee_mode.splits)

lemma merchantProceedsPayoutSettle_tag [recipe_tag]: "merchantProceedsPayoutSettle m a v rail w = Inr q \<Longrightarrow> key_tag q = ''pay.proceeds.payout.settle''"
  by (auto simp: merchantProceedsPayoutSettle_def guard_defs key_tag_def Let_def split: if_splits option.splits fee_mode.splits)

lemma merchantProceedsPayoutReverse_tag [recipe_tag]: "merchantProceedsPayoutReverse m a v rail w = Inr q \<Longrightarrow> key_tag q = ''pay.proceeds.payout.reverse''"
  by (auto simp: merchantProceedsPayoutReverse_def guard_defs key_tag_def Let_def split: if_splits option.splits fee_mode.splits)

lemma chargebackOpen_tag [recipe_tag]: "chargebackOpen d p m mu a rail fc fb pot = Inr q \<Longrightarrow> key_tag q = ''pay.chargeback.open''"
  by (auto simp: chargebackOpen_def guard_defs key_tag_def Let_def split: if_splits option.splits fee_mode.splits)

lemma chargebackShortfall_tag [recipe_tag]: "chargebackShortfall d p m a rail v = Inr q \<Longrightarrow> key_tag q = ''pay.chargeback.shortfall''"
  by (auto simp: chargebackShortfall_def guard_defs key_tag_def Let_def split: if_splits option.splits fee_mode.splits)

lemma chargebackWon_tag [recipe_tag]: "chargebackWon d p m mu a rail fc fb pot = Inr q \<Longrightarrow> key_tag q = ''pay.chargeback.won''"
  by (auto simp: chargebackWon_def guard_defs key_tag_def Let_def split: if_splits option.splits fee_mode.splits)

lemma chargebackShortfallRecovered_tag [recipe_tag]: "chargebackShortfallRecovered d p m a rail v = Inr q \<Longrightarrow> key_tag q = ''pay.chargeback.shortfall.recovered''"
  by (auto simp: chargebackShortfallRecovered_def guard_defs key_tag_def Let_def split: if_splits option.splits fee_mode.splits)

lemma stake_tag [recipe_tag]: "stake sk u a v tier = Inr q \<Longrightarrow> key_tag q = ''token.stake''"
  by (auto simp: stake_def guard_defs key_tag_def Let_def split: if_splits option.splits fee_mode.splits)

lemma unstake_tag [recipe_tag]: "unstake sk u a v tier = Inr q \<Longrightarrow> key_tag q = ''token.unstake''"
  by (auto simp: unstake_def guard_defs key_tag_def Let_def split: if_splits option.splits fee_mode.splits)

lemma mintEmission_tag [recipe_tag]: "mintEmission ep a v dst = Inr q \<Longrightarrow> key_tag q = ''token.emission''"
  by (auto simp: mintEmission_def guard_defs key_tag_def Let_def split: if_splits option.splits fee_mode.splits)

lemma burn_tag [recipe_tag]: "burn rid a v frm = Inr q \<Longrightarrow> key_tag q = ''token.burn''"
  by (auto simp: burn_def guard_defs key_tag_def Let_def split: if_splits option.splits fee_mode.splits)

lemma feeCharge_tag [recipe_tag]: "feeCharge c u m rs mode = Inr q \<Longrightarrow> key_tag q = ''fee''"
  by (auto simp: feeCharge_def guard_defs key_tag_def Let_def split: if_splits option.splits fee_mode.splits)

lemma sweepFeesToRewards_tag [recipe_tag]: "sweepFeesToRewards w m a v = Inr q \<Longrightarrow> key_tag q = ''token.fee.sweep''"
  by (auto simp: sweepFeesToRewards_def guard_defs key_tag_def Let_def split: if_splits option.splits fee_mode.splits)

lemma rewardPay_tag [recipe_tag]: "rewardPay r u a v rs' = Inr q \<Longrightarrow> key_tag q = ''reward''"
  by (auto simp: rewardPay_def guard_defs key_tag_def Let_def split: if_splits option.splits fee_mode.splits)

lemma loanCollateralLock_tag [recipe_tag]: "loanCollateralLock l u a v s = Inr q \<Longrightarrow> key_tag q = ''bank.loan.collateral.lock''"
  by (auto simp: loanCollateralLock_def guard_defs key_tag_def Let_def split: if_splits option.splits fee_mode.splits)

lemma loanCollateralRelease_tag [recipe_tag]: "loanCollateralRelease l u a v s = Inr q \<Longrightarrow> key_tag q = ''bank.loan.collateral.release''"
  by (auto simp: loanCollateralRelease_def guard_defs key_tag_def Let_def split: if_splits option.splits fee_mode.splits)

lemma loanDraw_tag [recipe_tag]: "loanDraw l u a v = Inr q \<Longrightarrow> key_tag q = ''bank.loan.draw''"
  by (auto simp: loanDraw_def guard_defs key_tag_def Let_def split: if_splits option.splits fee_mode.splits)

lemma loanRepay_tag [recipe_tag]: "loanRepay l u a v i s = Inr q \<Longrightarrow> key_tag q = ''bank.loan.repay''"
  by (auto simp: loanRepay_def guard_defs key_tag_def Let_def split: if_splits option.splits fee_mode.splits)

lemma loanLiquidate_tag [recipe_tag]: "loanLiquidate l u tr ca cs da pr pp ip pen sur cto pfrom mark = Inr q \<Longrightarrow> key_tag q = ''bank.loan.liquidate''"
  by (auto simp: loanLiquidate_def guard_defs key_tag_def Let_def split: if_splits option.splits fee_mode.splits)

lemma loanBadDebt_tag [recipe_tag]: "loanBadDebt l a v = Inr q \<Longrightarrow> key_tag q = ''bank.loan.baddebt''"
  by (auto simp: loanBadDebt_def guard_defs key_tag_def Let_def split: if_splits option.splits fee_mode.splits)

lemma loanReserveFund_tag [recipe_tag]: "loanReserveFund f a v src' = Inr q \<Longrightarrow> key_tag q = ''bank.loan.reserve.fund''"
  by (auto simp: loanReserveFund_def guard_defs key_tag_def Let_def split: if_splits option.splits fee_mode.splits)

lemma earnDeposit_tag [recipe_tag]: "earnDeposit p pool u a v = Inr q \<Longrightarrow> key_tag q = ''bank.earn.deposit''"
  by (auto simp: earnDeposit_def guard_defs key_tag_def Let_def split: if_splits option.splits fee_mode.splits)

lemma earnWithdraw_tag [recipe_tag]: "earnWithdraw p pool u a v = Inr q \<Longrightarrow> key_tag q = ''bank.earn.withdraw''"
  by (auto simp: earnWithdraw_def guard_defs key_tag_def Let_def split: if_splits option.splits fee_mode.splits)

lemma earnPoolFund_tag [recipe_tag]: "earnPoolFund pool f a v src' = Inr q \<Longrightarrow> key_tag q = ''bank.earn.fund''"
  by (auto simp: earnPoolFund_def guard_defs key_tag_def Let_def split: if_splits option.splits fee_mode.splits)

lemma earnInterest_tag [recipe_tag]: "earnInterest pool d a ps = Inr q \<Longrightarrow> key_tag q = ''bank.interest''"
  by (auto simp: earnInterest_def guard_defs key_tag_def Let_def split: if_splits option.splits fee_mode.splits)

lemma businessApprovalHold_tag [recipe_tag]: "businessApprovalHold ap frm v = Inr q \<Longrightarrow> key_tag q = ''bank.business.hold''"
  by (auto simp: businessApprovalHold_def guard_defs key_tag_def Let_def split: if_splits option.splits fee_mode.splits)

lemma businessApprovalRelease_tag [recipe_tag]: "businessApprovalRelease ap frm v = Inr q \<Longrightarrow> key_tag q = ''bank.business.release''"
  by (auto simp: businessApprovalRelease_def guard_defs key_tag_def Let_def split: if_splits option.splits fee_mode.splits)

lemma businessApprovalSettle_tag [recipe_tag]: "businessApprovalSettle ap frm to v = Inr q \<Longrightarrow> key_tag q = ''bank.business.settle''"
  by (auto simp: businessApprovalSettle_def guard_defs key_tag_def Let_def split: if_splits option.splits fee_mode.splits)

lemma businessPayroll_tag [recipe_tag]: "businessPayroll pid frm rcs = Inr q \<Longrightarrow> key_tag q = ''bank.business.payroll''"
  by (auto simp: businessPayroll_def guard_defs key_tag_def Let_def split: if_splits option.splits fee_mode.splits)

lemma subAccountTransfer_tag [recipe_tag]: "subAccountTransfer t sf st a v = Inr q \<Longrightarrow> key_tag q = ''identity.sub_account.transfer''"
  by (auto simp: subAccountTransfer_def guard_defs key_tag_def Let_def split: if_splits option.splits fee_mode.splits)

lemma payReceivedHold_tag [recipe_tag]: "payReceivedHold h u a v = Inr q \<Longrightarrow> key_tag q = ''pay.recv.hold''"
  by (auto simp: payReceivedHold_def recv_pots_def guard_defs key_tag_def Let_def split: if_splits option.splits fee_mode.splits)

lemma payReceivedRelease_tag [recipe_tag]: "payReceivedRelease h u a v hv = Inr q \<Longrightarrow> key_tag q = ''pay.recv.release''"
  by (auto simp: payReceivedRelease_def recv_pots_def guard_defs key_tag_def Let_def split: if_splits option.splits fee_mode.splits)

lemma payReceivedReturn_tag [recipe_tag]: "payReceivedReturn h u a v hv pu = Inr q \<Longrightarrow> key_tag q = ''pay.recv.return''"
  by (auto simp: payReceivedReturn_def recv_pots_def guard_defs key_tag_def Let_def split: if_splits option.splits fee_mode.splits)

lemma bankTransferReversal_tag [recipe_tag]: "bankTransferReversal ks' t occ cons frm to ov v = Inr q \<Longrightarrow> key_tag q = ''bank.transfer.reverse''"
  by (auto simp: bankTransferReversal_def bankTransferReversalKey_def guard_defs key_tag_def Let_def split: if_splits option.splits fee_mode.splits)

lemma marketPurchase_tag [recipe_tag]: "marketPurchase p l b vu a pr' comm = Inr q \<Longrightarrow> key_tag q = ''market.purchase''"
  by (auto simp: marketPurchase_def guard_defs key_tag_def Let_def split: if_splits option.splits fee_mode.splits)

lemma marketListingFee_tag [recipe_tag]: "marketListingFee l vu a v = Inr q \<Longrightarrow> key_tag q = ''market.listing_fee''"
  by (auto simp: marketListingFee_def guard_defs key_tag_def Let_def split: if_splits option.splits fee_mode.splits)

lemma marketPremiumPlacement_tag [recipe_tag]: "marketPremiumPlacement p l vu a v = Inr q \<Longrightarrow> key_tag q = ''market.premium_placement''"
  by (auto simp: marketPremiumPlacement_def guard_defs key_tag_def Let_def split: if_splits option.splits fee_mode.splits)

lemma fxConversion_tag [recipe_tag]: "fxConversion c m mu v' fa ta famt tamt fee' spr = Inr q \<Longrightarrow> key_tag q = ''pay.conversion''"
  by (auto simp: fxConversion_def guard_defs key_tag_def Let_def split: if_splits option.splits fee_mode.splits)

lemma fxConversionHold_tag [recipe_tag]: "fxConversionHold c m fa v = Inr q \<Longrightarrow> key_tag q = ''pay.conversion.hold''"
  by (auto simp: fxConversionHold_def guard_defs key_tag_def Let_def split: if_splits option.splits fee_mode.splits)

lemma fxConversionRelease_tag [recipe_tag]: "fxConversionRelease c m fa v sq = Inr q \<Longrightarrow> key_tag q = ''pay.conversion.release''"
  by (auto simp: fxConversionRelease_def guard_defs key_tag_def Let_def split: if_splits option.splits fee_mode.splits)

lemma fxConversionReverse_tag [recipe_tag]: "fxConversionReverse c m mu v' fa ta famt tamt fee' spr = Inr q \<Longrightarrow> key_tag q = ''pay.conversion.reverse''"
  by (auto simp: fxConversionReverse_def guard_defs key_tag_def Let_def split: if_splits option.splits fee_mode.splits)

lemma fxConversionLateFill_tag [recipe_tag]: "fxConversionLateFill c m mu v' fa ta famt tamt fee' spr aud fund = Inr q \<Longrightarrow> key_tag q = ''pay.conversion.late''"
  by (auto simp: fxConversionLateFill_def guard_defs key_tag_def Let_def split: if_splits option.splits fee_mode.splits)

lemma bankTransfer_tag:
  "bankTransfer t occ frm to v knd ks = Inr q \<Longrightarrow>
     key_tag q \<in> {''bank.transfer'', ''bank.transfer.own'', ''bank.transfer.p2p'', ''bank.transfer.sched'', ''bank.transfer.rail''}"
  by (auto simp: bankTransfer_def guard_defs bankTransferKey_def BANK_TRANSFER_KEY_SPACES_def legacyBankTransferKey_def
      List.member_iff key_tag_def Let_def split: if_splits option.splits)

definition tag_table :: "(string \<times> string) list" where
  "tag_table =
    [(''deposit'', ''deposit''),
     (''deposit.reverse'', ''depositReverse''),
     (''mm.seed.fund'', ''marketMakerSeedFund''),
     (''withdraw.hold'', ''withdrawHold''),
     (''withdraw.settle'', ''withdrawSettle''),
     (''withdraw.reverse'', ''withdrawReverse''),
     (''trade.fill'', ''tradeFill''),
     (''trade.fill.fee.correction'', ''tradeFillFeeCorrection''),
     (''order.hold'', ''orderHold''),
     (''order.release'', ''orderHoldRelease''),
     (''order.hold.amend'', ''orderHoldAmend''),
     (''order.hold.mm'', ''marketMakerOrderHold''),
     (''order.release.mm'', ''marketMakerOrderHoldRelease''),
     (''trade.fill.mm-maker'', ''marketMakerMakerFill''),
     (''futures.margin.lock'', ''futuresMarginLock''),
     (''futures.margin.add'', ''futuresMarginAdd''),
     (''futures.margin.release'', ''futuresMarginRelease''),
     (''futures.order.margin.hold'', ''futuresOrderMarginHold''),
     (''futures.order.margin.release'', ''futuresOrderMarginRelease''),
     (''futures.fill'', ''futuresOrderMarginApply''),
     (''futures.loss'', ''futuresRealizeLoss''),
     (''futures.profit'', ''futuresRealizeProfit''),
     (''futures.funding'', ''futuresFundingPay''),
     (''futures.insurance.topup'', ''futuresInsuranceTopup''),
     (''p2p.escrow.lock'', ''escrowLock''),
     (''p2p.escrow.release'', ''escrowRelease''),
     (''p2p.escrow.refund'', ''escrowRefund''),
     (''payment.capture'', ''paymentCapture''),
     (''settlement'', ''merchantSettlement''),
     (''payment.refund'', ''paymentRefund''),
     (''payment.refund.reverse'', ''paymentRefundReverse''),
     (''pay.proceeds.payout.hold'', ''merchantProceedsPayoutHold''),
     (''pay.proceeds.payout.settle'', ''merchantProceedsPayoutSettle''),
     (''pay.proceeds.payout.reverse'', ''merchantProceedsPayoutReverse''),
     (''pay.chargeback.open'', ''chargebackOpen''),
     (''pay.chargeback.shortfall'', ''chargebackShortfall''),
     (''pay.chargeback.won'', ''chargebackWon''),
     (''pay.chargeback.shortfall.recovered'', ''chargebackShortfallRecovered''),
     (''token.stake'', ''stake''),
     (''token.unstake'', ''unstake''),
     (''token.emission'', ''mintEmission''),
     (''token.burn'', ''burn''),
     (''fee'', ''feeCharge''),
     (''token.fee.sweep'', ''sweepFeesToRewards''),
     (''reward'', ''rewardPay''),
     (''bank.loan.collateral.lock'', ''loanCollateralLock''),
     (''bank.loan.collateral.release'', ''loanCollateralRelease''),
     (''bank.loan.draw'', ''loanDraw''),
     (''bank.loan.repay'', ''loanRepay''),
     (''bank.loan.liquidate'', ''loanLiquidate''),
     (''bank.loan.baddebt'', ''loanBadDebt''),
     (''bank.loan.reserve.fund'', ''loanReserveFund''),
     (''bank.earn.deposit'', ''earnDeposit''),
     (''bank.earn.withdraw'', ''earnWithdraw''),
     (''bank.earn.fund'', ''earnPoolFund''),
     (''bank.interest'', ''earnInterest''),
     (''bank.business.hold'', ''businessApprovalHold''),
     (''bank.business.release'', ''businessApprovalRelease''),
     (''bank.business.settle'', ''businessApprovalSettle''),
     (''bank.business.payroll'', ''businessPayroll''),
     (''identity.sub_account.transfer'', ''subAccountTransfer''),
     (''pay.recv.hold'', ''payReceivedHold''),
     (''pay.recv.release'', ''payReceivedRelease''),
     (''pay.recv.return'', ''payReceivedReturn''),
     (''bank.transfer.reverse'', ''bankTransferReversal''),
     (''market.purchase'', ''marketPurchase''),
     (''market.listing_fee'', ''marketListingFee''),
     (''market.premium_placement'', ''marketPremiumPlacement''),
     (''pay.conversion'', ''fxConversion''),
     (''pay.conversion.hold'', ''fxConversionHold''),
     (''pay.conversion.release'', ''fxConversionRelease''),
     (''pay.conversion.reverse'', ''fxConversionReverse''),
     (''pay.conversion.late'', ''fxConversionLateFill''),
     (''bank.transfer'', ''bankTransfer''),
     (''bank.transfer.own'', ''bankTransfer''),
     (''bank.transfer.p2p'', ''bankTransfer''),
     (''bank.transfer.sched'', ''bankTransfer''),
     (''bank.transfer.rail'', ''bankTransfer'')]"

definition recipe_of_tag :: "string \<Rightarrow> string option" where
  "recipe_of_tag t = map_of tag_table t"

lemma tag_table_distinct: "distinct (map fst tag_table)"
  by code_simp

lemma tag_table_lookup: "list_all (\<lambda>(t, n). recipe_of_tag t = Some n) tag_table"
  using tag_table_distinct by (auto simp: list_all_iff recipe_of_tag_def map_of_is_SomeI)

lemmas tag_lookups = tag_table_lookup [unfolded tag_table_def list.pred_inject prod.case]

lemma recipe_post_tag: "recipe_post name pre q \<Longrightarrow> recipe_of_tag (key_tag q) = Some name"
proof (induction rule: recipe_post.induct)
  case (53 t occ frm to v knd ks q)
  then show ?case using bankTransfer_tag [OF 53] by (auto simp only: insert_iff empty_iff tag_lookups)
qed (drule recipe_tag, simp only: tag_lookups)+

section \<open>Compensation\<close>

text \<open>Calls that lock, hold or pay, with the call that takes it back.\<close>

inductive undo_call :: "ledger_error + post_request \<Rightarrow> ledger_error + post_request \<Rightarrow> bool" where
  "\<not> blank did \<Longrightarrow> undo_call (deposit u a v rail ref sid conf) (depositReverse u a v rail ref sid conf did)"
| "undo_call (withdrawHold u a v rail w) (withdrawReverse u a v rail w)"
| "undo_call (orderHold oid u a v) (orderHoldRelease oid u a v sq)"
| "undo_call (marketMakerOrderHold oid a v) (marketMakerOrderHoldRelease oid a v sq)"
| "undo_call (futuresMarginLock p u a v sid) (futuresMarginRelease p u a v sid sq None)"
| "undo_call (futuresOrderMarginHold oid u a v sid) (futuresOrderMarginRelease oid u a v sid None)"
| "undo_call (escrowLock t s b a v) (escrowRefund t s b a v None None)"
| "undo_call (paymentRefund r p m mu a v rail src pot) (paymentRefundReverse r p m mu a v rail src pot)"
| "undo_call (merchantProceedsPayoutHold_recipe m a v rail w) (merchantProceedsPayoutReverse m a v rail w)"
| "undo_call (chargebackOpen d p m mu a rail fc fb pot) (chargebackWon d p m mu a rail fc fb pot)"
| "undo_call (chargebackShortfall d p m a rail v) (chargebackShortfallRecovered d p m a rail v)"
| "undo_call (stake sk u a v tier) (unstake sk u a v tier)"
| "undo_call (loanCollateralLock l u a v n) (loanCollateralRelease l u a v n)"
| "undo_call (earnDeposit p pool u a v) (earnWithdraw p pool u a v)"
| "undo_call (businessApprovalHold ap frm v) (businessApprovalRelease ap frm v)"
| "undo_call (payReceivedHold h u a v) (payReceivedRelease h u a v v)"
| "undo_call (fxConversionHold c m fa v) (fxConversionRelease c m fa v sq)"
| "ks \<noteq> KsRail \<Longrightarrow> \<not> blank cons \<Longrightarrow>
     undo_call (bankTransfer t occ frm to v knd (Some ks)) (bankTransferReversal ks t occ cons frm to v v)"

lemma key_net_when_pos: "key_net (when_pos a e) k = (if 0 < a then key_net [e] k else 0)"
  by (simp add: when_pos_def)

lemmas undo_defs = deposit_def depositReverse_def withdrawHold_def withdrawReverse_def orderHold_def orderHoldRelease_def
  marketMakerOrderHold_def marketMakerOrderHoldRelease_def futuresMarginLock_def futuresMarginRelease_def marginPots_def
  futuresOrderMarginHold_def futuresOrderMarginRelease_def orderPots_def escrowLock_def escrowRefund_def
  assertEscrowRefundResolution_def assertEscrowDisputeRuling_def paymentRefund_def paymentRefundReverse_def
  merchantProceedsPayoutHold_recipe_def merchantProceedsPayoutReverse_def chargebackOpen_def chargebackWon_def
  chargebackShortfall_def chargebackShortfallRecovered_def stake_def unstake_def loanCollateralLock_def
  loanCollateralRelease_def earnDeposit_def earnWithdraw_def businessApprovalHold_def businessApprovalRelease_def
  payReceivedHold_def payReceivedRelease_def recv_pots_def fxConversionHold_def fxConversionRelease_def
  bankTransfer_def bankTransferReversal_def bankTransferKey_def bankTransferReversalKey_def

lemma undo_call_cancels:
  "undo_call c c' \<Longrightarrow> c = Inr q \<Longrightarrow>
     \<exists>q'. c' = Inr q' \<and> (\<forall>k. key_net (req_entries q') k = - key_net (req_entries q) k)"
  by (induction rule: undo_call.induct)
    (auto simp: undo_defs guard_defs Let_def key_net_append key_net_when_pos blank_def split: if_splits option.splits)

section \<open>Economics of a fill\<close>

text \<open>What an owner gains in an asset over all its accounts.\<close>

definition owner_net :: "entry_input list \<Rightarrow> owner_type \<Rightarrow> string \<Rightarrow> string \<Rightarrow> amount" where
  "owner_net es t i a = (\<Sum>e\<leftarrow>filter (\<lambda>e. ownerType (entry_account e) = t \<and> ownerId (entry_account e) = i
     \<and> assetId (entry_account e) = a) es. signedDelta e)"

lemma owner_net_simps [simp]:
  "owner_net [] t i a = 0"
  "owner_net (e # es) t i a = (if ownerType (entry_account e) = t \<and> ownerId (entry_account e) = i
     \<and> assetId (entry_account e) = a then signedDelta e else 0) + owner_net es t i a"
  "owner_net (es @ fs) t i a = owner_net es t i a + owner_net fs t i a"
  by (simp_all add: owner_net_def)

lemma owner_net_when_pos: "owner_net (when_pos v e) t i a = (if 0 < v then owner_net [e] t i a else 0)"
  by (simp add: when_pos_def)

lemma tradeFill_fees:
  assumes "tradeFill f m t mo to' b qa qty qamt s mf tf = Inr q"
    and "tp = (if s = Buy then qamt else qty)" "mp = (if s = Buy then qty else qamt)"
    and "ta = (if s = Buy then qa else b)" "ma = (if s = Buy then b else qa)"
  obtains takerFee makerFee where
    "mulBps mp tf Ceil = Inr takerFee" "mulBps tp mf Ceil = Inr makerFee" "0 \<le> takerFee" "0 \<le> makerFee"
    "takerFee < mp" "makerFee < tp"
    "m \<noteq> t \<Longrightarrow> ta \<noteq> ma \<Longrightarrow>
       owner_net (req_entries q) User t ta = - tp \<and> owner_net (req_entries q) User m ta = tp - makerFee
       \<and> owner_net (req_entries q) User m ma = - mp \<and> owner_net (req_entries q) User t ma = mp - takerFee
       \<and> owner_net (req_entries q) House ''fees:trade'' ta = makerFee
       \<and> owner_net (req_entries q) House ''fees:trade'' ma = takerFee"
proof -
  obtain takerFee makerFee where f: "mulBps mp tf Ceil = Inr takerFee" "mulBps tp mf Ceil = Inr makerFee"
    "\<not> tp \<le> 0" "\<not> mp \<le> 0" "\<not> sub mp takerFee \<le> 0" "\<not> sub tp makerFee \<le> 0"
    and q: "req_entries q = [credit (mk_ref User t ta Hold (Some (js_trim (''order:'' @ to')))) tp,
        debit (userAvailable m ta) (sub tp makerFee)]
      @ when_pos makerFee (debit (houseFees ''trade'' ta) makerFee)
      @ [credit (mk_ref User m ma Hold (Some (js_trim (''order:'' @ mo)))) mp, debit (userAvailable t ma) (sub mp takerFee)]
      @ when_pos takerFee (debit (houseFees ''trade'' ma) takerFee)"
    using assms by (cases s) (auto simp: tradeFill_def guard_defs Let_def orderHoldAccount_def userHold_def split: if_splits)
  have fees: "0 \<le> takerFee" "0 \<le> makerFee" using mulBps_nonneg(1) f(1-4) by blast+
  show thesis
  proof (rule that [OF f(1,2) fees])
    show "takerFee < mp" "makerFee < tp" using f(5,6) by (simp_all add: sub_def)
    assume "m \<noteq> t" "ta \<noteq> ma"
    then show "owner_net (req_entries q) User t ta = - tp \<and> owner_net (req_entries q) User m ta = tp - makerFee
       \<and> owner_net (req_entries q) User m ma = - mp \<and> owner_net (req_entries q) User t ma = mp - takerFee
       \<and> owner_net (req_entries q) House ''fees:trade'' ta = makerFee
       \<and> owner_net (req_entries q) House ''fees:trade'' ma = takerFee"
      unfolding q using fees by (auto simp: owner_net_when_pos userAvailable_def houseFees_def sub_def)
  qed
qed

section \<open>Properties\<close>

text \<open>C31. Every request that any of the 74 recipes issues passes the value checks of a post: positive
  entries, every asset netting to zero, locks funded from the same owner's available balance,
  every lock purposed and no spendable pot purposed. A recipe that books to accounts passed by the
  caller needs these to satisfy the condition \<open>pre\<close> of its row in the table: they are well formed, the account of an emission or a burn
  is in the asset of the recipe, and the account that receives an emission or seized collateral is spendable.
  Without it the claim fails: an emission to an account in another asset does not balance.\<close>

theorem recipes_issue_valid_posts:
  assumes "recipe_post name pre q" "pre"
  shows "assertBalanced (req_entries q) = Inr () \<and> assertPairedLocks (req_entries q) = Inr ()
    \<and> assertPurposedLocks (req_entries q) = Inr () \<and> assertAvailableUnpurposed (req_entries q) = Inr ()"
  using recipe_post_valid [OF assms] by (simp add: valid_entries_def)

theorem recipes_issue_valid_posts_witness:
  "\<exists>q. orderHold ''o-1'' ''u-1'' ''USDT'' 250 = Inr q \<and> assertPairedLocks (req_entries q) = Inr ()"
proof -
  obtain q where q: "orderHold ''o-1'' ''u-1'' ''USDT'' 250 = Inr q"
    by (simp add: orderHold_def guard_defs account_defs)
  then have "recipe_post ''orderHold'' True q" by (rule recipe_post.intros)
  then show ?thesis using recipes_issue_valid_posts q by blast
qed

text \<open>C32. Idempotency keys of different recipes never collide: two requests with the same key
  were issued by the same recipe.\<close>

theorem recipe_keys_disjoint:
  assumes "recipe_post name pre q" "recipe_post name' pre' q'" "idempotencyKey q = idempotencyKey q'"
  shows "name = name'"
  using recipe_post_tag [OF assms(1)] recipe_post_tag [OF assms(2)] assms(3) by (simp add: key_tag_def)

theorem recipe_keys_disjoint_witness:
  "\<exists>q q'. orderHold ''o-1'' ''u-1'' ''USDT'' 250 = Inr q \<and> orderHoldRelease ''o-1'' ''u-1'' ''USDT'' 250 None = Inr q'
     \<and> idempotencyKey q \<noteq> idempotencyKey q'"
proof -
  obtain q q' where q: "orderHold ''o-1'' ''u-1'' ''USDT'' 250 = Inr q"
    "orderHoldRelease ''o-1'' ''u-1'' ''USDT'' 250 None = Inr q'"
    by (simp add: orderHold_def orderHoldRelease_def guard_defs account_defs)
  have "recipe_post ''orderHold'' True q" using q(1) by (rule recipe_post.intros)
  moreover have "recipe_post ''orderHoldRelease'' True q'" using q(2) by (rule recipe_post.intros)
  ultimately have "idempotencyKey q = idempotencyKey q' \<Longrightarrow> ''orderHold'' = ''orderHoldRelease''"
    by (rule recipe_keys_disjoint)
  then show ?thesis using q by auto
qed

text \<open>Compensation exists and is exact: whenever a hold, lock, payment or transfer was issued,
  the recipe that takes it back accepts the same input and moves the opposite net on every
  account.\<close>

theorem compensation_is_exact:
  assumes "undo_call c c'" "c = Inr q"
  shows "\<exists>q'. c' = Inr q' \<and> (\<forall>k. key_net (req_entries q') k = - key_net (req_entries q) k)"
  by (rule undo_call_cancels [OF assms])

text \<open>C33. Economics of a spot fill between two users in two assets: each side pays exactly its
  amount, receives the other side's amount less its fee, and the house receives exactly the two
  fees; a fee is the ceiling of its basis-point rate and strictly less than what it is taken
  from.\<close>

theorem tradeFill_economics:
  assumes "tradeFill fillId maker taker mo to' base quote qty quoteAmount side mbps tbps = Inr q" "maker \<noteq> taker"
    and "base \<noteq> quote"
  shows "\<exists>takerFee makerFee.
    (let tp = (if side = Buy then quoteAmount else qty); mp = (if side = Buy then qty else quoteAmount);
         ta = (if side = Buy then quote else base); ma = (if side = Buy then base else quote)
     in mp * js_int tbps \<le> takerFee * 10000 \<and> takerFee * 10000 < mp * js_int tbps + 10000 \<and> takerFee < mp
        \<and> tp * js_int mbps \<le> makerFee * 10000 \<and> makerFee * 10000 < tp * js_int mbps + 10000 \<and> makerFee < tp
        \<and> owner_net (req_entries q) User taker ta = - tp \<and> owner_net (req_entries q) User maker ta = tp - makerFee
        \<and> owner_net (req_entries q) User maker ma = - mp \<and> owner_net (req_entries q) User taker ma = mp - takerFee
        \<and> owner_net (req_entries q) House ''fees:trade'' ta = makerFee
        \<and> owner_net (req_entries q) House ''fees:trade'' ma = takerFee)"
proof -
  define tp mp ta ma where d: "tp = (if side = Buy then quoteAmount else qty)" "mp = (if side = Buy then qty else quoteAmount)"
    "ta = (if side = Buy then quote else base)" "ma = (if side = Buy then base else quote)"
  have ne: "ta \<noteq> ma" using assms(3) by (auto simp: d)
  obtain takerFee makerFee where
    f: "mulBps mp tbps Ceil = Inr takerFee" "mulBps tp mbps Ceil = Inr makerFee" "0 \<le> takerFee" "0 \<le> makerFee"
      "takerFee < mp" "makerFee < tp"
    and o: "owner_net (req_entries q) User taker ta = - tp \<and> owner_net (req_entries q) User maker ta = tp - makerFee
       \<and> owner_net (req_entries q) User maker ma = - mp \<and> owner_net (req_entries q) User taker ma = mp - takerFee
       \<and> owner_net (req_entries q) House ''fees:trade'' ta = makerFee
       \<and> owner_net (req_entries q) House ''fees:trade'' ma = takerFee"
    using tradeFill_fees [OF assms(1) d] assms(2) ne by metis
  have "0 \<le> mp" "0 \<le> tp" using f by simp_all
  then show ?thesis
    using f o mulBps_ceil_bounds(2,3) [OF f(1)] mulBps_ceil_bounds(2,3) [OF f(2)]
    by (auto simp: Let_def d [symmetric] intro!: exI [of _ takerFee] exI [of _ makerFee])
qed

theorem tradeFill_economics_witness:
  "\<exists>q. tradeFill ''f'' ''m'' ''t'' ''1'' ''2'' ''BTC'' ''USD'' 1000 50000 Buy (JSInt 10) (JSInt 20) = Inr q
     \<and> owner_net (req_entries q) User ''t'' ''USD'' = - 50000"
proof -
  obtain q where q: "tradeFill ''f'' ''m'' ''t'' ''1'' ''2'' ''BTC'' ''USD'' 1000 50000 Buy (JSInt 10) (JSInt 20) = Inr q"
    by (simp add: tradeFill_def guard_defs account_defs mulBps_def moneyE_def divideScaled_def Let_def sub_def)
  show ?thesis using tradeFill_economics [OF q] q by (auto simp: Let_def)
qed

end
