(* ===== verification/Match_Types.thy ===== *)
theory Match_Types
  imports Json Money
begin

text \<open>
  Data of the matching engine, from \<^verbatim>\<open>services/svc-matching/src/engine/types.ts\<close> and the
  interfaces at the head of \<^verbatim>\<open>book.ts\<close>.

  \<^item> An optional boolean is read by the book only through \<open>=== true\<close>, so it is a \<open>bool\<close>;
    an optional amount or string is an \<open>option\<close> when \<open>undefined\<close> and \<open>null\<close> are read alike.
    \<open>displayQty\<close> is told apart (\<open>None\<close> is \<open>undefined\<close>, \<open>Some None\<close> is \<open>null\<close>).
  \<^item> A \<open>RestingOrder\<close> object is shared between a price level and the index. The model keeps it
    once, in the index, and a level holds the ids of its orders.
  \<^item> Sequence and version numbers are \<open>nat\<close>. Messages of refusals are not modelled, only codes.
\<close>

section \<open>Orders\<close>

datatype order_side = BuySide | SellSide

datatype time_in_force = GTC | IOC | FOK | PO | MOC | GTD | GTT

datatype order_type = Market | Limit | Stop | StopLimit

datatype trigger_by = ByLast | ByMark | ByIndex

datatype trigger_role = Legacy | TakeProfit | StopLoss

datatype instrument_kind = OptionInstrument | OptionComboInstrument

record engine_order =
  o_orderId :: string
  o_accountId :: string
  o_type :: order_type
  o_side :: order_side
  o_qty :: amount
  o_price :: "amount option"
  o_stopPrice :: "amount option"
  o_tif :: time_in_force
  o_sessionId :: "string option"
  o_expireAt :: "string option"
  o_ocoSiblingId :: "string option"
  o_reduceOnly :: bool
  o_triggerRole :: "trigger_role option"
  o_triggerBy :: "trigger_by option"
  o_instrument :: "instrument_kind option"
  o_positionQty :: "amount option"
  o_displayQty :: "amount option option"
  o_iceberg :: bool
  o_trail :: "amount option"
  o_mark :: "amount option"
  o_minQty :: "amount option"
  o_aon :: bool
  o_peg :: bool
  o_midpoint :: bool
  o_relative :: bool
  o_reference :: "amount option"
  o_offset :: "amount option"
  o_auction :: bool
  o_benchmark :: bool
  o_collar :: bool
  o_min :: "amount option"
  o_max :: "amount option"
  o_minNotional :: "amount option"
  o_spread :: bool

record engine_amend =
  a_orderId :: string
  a_expectedVersion :: nat
  a_qty :: "amount option"
  a_price :: "amount option"
  a_stopPrice :: "amount option"
  a_tif :: "time_in_force option"
  a_expireAt :: "string option"

section \<open>Results\<close>

text \<open>The reject codes the book itself issues; an activation guard may answer with another.\<close>

datatype reject_code =
    InvalidQty | InvalidPrice | MissingPrice | UnexpectedPrice | MissingStopPrice | UnexpectedStopPrice
  | InvalidTif | DuplicateOrderId | PostOnlyWouldCross | MocWouldTake | FokUnfillable | OrderNotFound
  | VersionMismatch | OcoSiblingTerminal | InvalidOcoSibling | EngineClockMissing | MissingExpireAt
  | AlreadyExpired | WouldIncreasePosition | TriggerWrongSide | MissingLastPrice | OptionTriggerUnsupported
  | IcebergDisplayMissing | IcebergDisplayNotSmaller | MinQtyExceedsQty | AonIceberg | MidpointUnsupported
  | MissingReference | MissingOffset | AuctionUnsupported | BenchmarkUnsupported | MissingCollar | OutsideCollar
  | MissingNotional | BelowMinNotional | SelfTradeIdentity | SpreadOrderUnsupported | OtherReject string

datatype cancel_reason =
    Requested | SelfTradePrevention | IocRemainder | MarketRemainder | TriggerRejected | OcoSiblingFilled
  | Expired | WouldIncreasePositionCancel | ReduceOnlyDisplaced | SessionDead | HoldUnconfirmed

record fill =
  f_sequence :: nat
  f_makerOrderId :: string
  f_makerAccountId :: string
  f_takerOrderId :: string
  f_takerAccountId :: string
  f_takerSide :: order_side
  f_price :: amount
  f_qty :: amount

datatype resting_kind = BookKind | StopKind

record resting_ref =
  rr_kind :: resting_kind
  rr_orderId :: string
  rr_accountId :: string
  rr_side :: order_side
  rr_price :: amount
  rr_remaining :: amount
  rr_sequence :: nat
  rr_version :: nat

record cancelled_ref =
  c_orderId :: string
  c_accountId :: string
  c_remainingQty :: amount
  c_sequence :: nat
  c_reason :: cancel_reason

record surveillance_case =
  sc_accountId :: string
  sc_marketId :: string
  sc_reason :: string

record trigger_fact =
  tf_by :: trigger_by
  tf_stopPrice :: amount
  tf_reference :: amount

record trigger_outcome =
  t_orderId :: string
  t_trigger :: "trigger_fact option"
  t_sequence :: nat
  t_fills :: "fill list"
  t_resting :: "resting_ref option"
  t_cancellations :: "cancelled_ref list"
  t_rejected :: "reject_code option"
  t_cases :: "surveillance_case list"

record submit_result =
  s_accepted :: bool
  s_sequence :: "nat option"
  s_fills :: "fill list"
  s_resting :: "resting_ref option"
  s_rejected :: "reject_code option"
  s_cancellations :: "cancelled_ref list"
  s_triggered :: "trigger_outcome list"
  s_cases :: "surveillance_case list"

record cancel_result =
  cr_cancelled :: bool
  cr_orderId :: string
  cr_sequence :: "nat option"
  cr_cancellation :: "cancelled_ref option"

datatype amend_priority = Retained | Lost

record amend_result =
  ar_accepted :: bool
  ar_orderId :: string
  ar_sequence :: "nat option"
  ar_version :: "nat option"
  ar_priority :: "amend_priority option"
  ar_fills :: "fill list"
  ar_resting :: "resting_ref option"
  ar_rejected :: "reject_code option"
  ar_cancellations :: "cancelled_ref list"
  ar_triggered :: "trigger_outcome list"
  ar_cases :: "surveillance_case list"

section \<open>State of a book\<close>

record resting_order =
  r_orderId :: string
  r_accountId :: string
  r_side :: order_side
  r_price :: amount
  r_remaining :: amount
  r_sequence :: nat
  r_version :: nat
  r_ocoSiblingId :: "string option"
  r_expireAt :: "string option"
  r_sessionId :: "string option"
  r_reduceOnly :: bool
  r_postOnly :: bool
  r_displayPeak :: "amount option"
  r_displayRemaining :: "amount option"
  r_minQty :: "amount option"
  r_aon :: bool

text \<open>\<open>st_limit\<close> tells \<open>'stop_limit'\<close> from \<open>'stop'\<close>.\<close>

record stop_order =
  st_orderId :: string
  st_accountId :: string
  st_limit :: bool
  st_side :: order_side
  st_qty :: amount
  st_price :: "amount option"
  st_stopPrice :: amount
  st_tif :: time_in_force
  st_sequence :: nat
  st_version :: nat
  st_ocoSiblingId :: "string option"
  st_expireAt :: "string option"
  st_sessionId :: "string option"
  st_reduceOnly :: bool
  st_triggerBy :: trigger_by
  st_triggerRole :: trigger_role
  st_minQty :: "amount option"
  st_aon :: bool
  st_trail :: "amount option"
  st_peak :: "amount option"

record effective_order =
  e_orderId :: string
  e_accountId :: string
  e_side :: order_side
  e_qty :: amount
  e_price :: "amount option"
  e_tif :: time_in_force
  e_ocoSiblingId :: "string option"
  e_expireAt :: "string option"
  e_sessionId :: "string option"
  e_reduceOnly :: bool
  e_displayQty :: "amount option"
  e_minQty :: "amount option"
  e_aon :: bool

type_synonym price_level = "amount \<times> string list"

text \<open>
  \<open>lastMove\<close> is compared by object identity, so a move carries the number of the object;
  \<open>b_moves\<close> counts the move objects made. \<open>depthCache\<close> holds the sequence and limit it was made
  for and the two printed sides.
\<close>

record depth_cache =
  dc_sequence :: nat
  dc_limit :: nat
  dc_bids :: "(string \<times> string) list"
  dc_asks :: "(string \<times> string) list"

record order_book =
  b_marketId :: string
  b_sequence :: nat
  b_bids :: "price_level list"
  b_asks :: "price_level list"
  b_stops :: "stop_order list"
  b_index :: "(string \<times> resting_order) list"
  b_acceptedIds :: "string list"
  b_ocoMembers :: "string list"
  b_lastTradePrice :: "amount option"
  b_previousTradePrice :: "amount option"
  b_lastMove :: "(nat \<times> amount option \<times> amount) option"
  b_moves :: nat
  b_markPrice :: "amount option"
  b_indexPrice :: "amount option"
  b_futuresPositions :: "(string \<times> amount) list"
  b_positions :: "(string \<times> amount) list"
  b_surveillanceCases :: "surveillance_case list"
  b_depthCache :: "depth_cache option"

text \<open>What the book takes from outside \<^verbatim>\<open>book.ts\<close>: whether the spread book has announced itself on
  the prototype, \<open>Date.parse\<close> in milliseconds (\<open>None\<close> is \<open>NaN\<close>), and the registered option
  activation guard.\<close>

record match_env =
  spread_hitch :: bool
  date_parse :: "string \<Rightarrow> int option"
  option_guard :: "order_book \<Rightarrow> engine_order \<Rightarrow> reject_code option"

text \<open>A JavaScript string that is present and not empty.\<close>

definition truthy :: "string option \<Rightarrow> bool" where
  "truthy s \<longleftrightarrow> (case s of None \<Rightarrow> False | Some t \<Rightarrow> t \<noteq> [])"

lemma truthy_simps [simp]: "truthy None = False" "truthy (Some t) = (t \<noteq> [])"
  by (simp_all add: truthy_def)

text \<open>\<open>Set.add\<close> on an insertion-ordered set.\<close>

definition set_add :: "'a \<Rightarrow> 'a list \<Rightarrow> 'a list" where
  "set_add x xs = (if x \<in> set xs then xs else xs @ [x])"

lemma set_set_add [simp]: "set (set_add x xs) = insert x (set xs)"
  by (auto simp: set_add_def)

text \<open>\<open>splice(i, 1)\<close> and \<open>splice(i, 0, x)\<close>.\<close>

definition splice_out :: "nat \<Rightarrow> 'a list \<Rightarrow> 'a list" where
  "splice_out i xs = take i xs @ drop (Suc i) xs"

definition splice_in :: "nat \<Rightarrow> 'a \<Rightarrow> 'a list \<Rightarrow> 'a list" where
  "splice_in i x xs = take i xs @ x # drop i xs"

text \<open>A stable sort by a comparator that is a total preorder.\<close>

fun insert_by :: "('a \<Rightarrow> 'a \<Rightarrow> bool) \<Rightarrow> 'a \<Rightarrow> 'a list \<Rightarrow> 'a list" where
  "insert_by le x [] = [x]"
| "insert_by le x (y # ys) = (if le x y then x # y # ys else y # insert_by le x ys)"

definition sort_by :: "('a \<Rightarrow> 'a \<Rightarrow> bool) \<Rightarrow> 'a list \<Rightarrow> 'a list" where
  "sort_by le xs = foldr (insert_by le) xs []"

lemma set_sort_by [simp]: "set (sort_by le xs) = set xs"
proof -
  have "set (insert_by le x ys) = insert x (set ys)" for x :: 'a and ys
    by (induction ys) auto
  then show ?thesis by (induction xs) (auto simp: sort_by_def)
qed

text \<open>\<open>findIndex\<close>, \<open>None\<close> where it gives \<open>-1\<close>.\<close>

fun find_index :: "('a \<Rightarrow> bool) \<Rightarrow> 'a list \<Rightarrow> nat option" where
  "find_index P [] = None"
| "find_index P (x # xs) = (if P x then Some 0 else map_option Suc (find_index P xs))"

lemma find_index_Some: "find_index P xs = Some i \<Longrightarrow> i < length xs \<and> P (xs ! i)"
  by (induction xs arbitrary: i) (auto split: if_splits)

lemma find_index_None: "find_index P xs = None \<longleftrightarrow> (\<forall>x \<in> set xs. \<not> P x)"
  by (induction xs) auto

lemma set_splice_out: "set (splice_out i xs) \<subseteq> set xs"
  by (auto simp: splice_out_def dest: in_set_takeD in_set_dropD)

lemma length_splice_out: "i < length xs \<Longrightarrow> length (splice_out i xs) = length xs - 1"
  by (simp add: splice_out_def)

lemma set_splice_in: "set (splice_in i x xs) = insert x (set xs)"
  unfolding splice_in_def by (metis Un_insert_right append_take_drop_id list.simps(15) set_append)

lemma splice_out_mid: "splice_out (length xs) (xs @ y # ys) = xs @ ys"
  by (simp add: splice_out_def)

lemma splice_in_mid: "splice_in (length xs) y (xs @ ys) = xs @ y # ys"
  by (simp add: splice_in_def)

end
