(* ===== verification/Match_Rules.thy ===== *)
theory Match_Rules
  imports Match_Types
begin

text \<open>
  The order rules the book calls, one group per file of
  \<^verbatim>\<open>services/svc-matching/src/engine\<close>: \<^verbatim>\<open>aon.ts\<close>, \<^verbatim>\<open>min-qty.ts\<close>, \<^verbatim>\<open>iceberg.ts\<close>,
  \<^verbatim>\<open>surveillance-case.ts\<close>, \<^verbatim>\<open>self-trade.ts\<close>, \<^verbatim>\<open>peg.ts\<close>, \<^verbatim>\<open>auction.ts\<close>, \<^verbatim>\<open>collar.ts\<close>,
  \<^verbatim>\<open>min-notional.ts\<close>, \<^verbatim>\<open>mass-cancel.ts\<close> and \<^verbatim>\<open>session.ts\<close>. A refusal is its code.
\<close>

section \<open>All or none\<close>

definition readAon :: "engine_order \<Rightarrow> bool" where
  "readAon order = o_aon order"

definition aonIcebergRefuse :: "bool \<Rightarrow> bool \<Rightarrow> reject_code option" where
  "aonIcebergRefuse aon iceberg = (if \<not> aon \<or> \<not> iceberg then None else Some AonIceberg)"

definition clipMeetsAon :: "amount \<Rightarrow> amount \<Rightarrow> bool \<Rightarrow> bool" where
  "clipMeetsAon clip remaining aon = (if \<not> aon then True else remaining \<le> clip)"

definition canFillAon :: "amount \<Rightarrow> amount \<Rightarrow> bool \<Rightarrow> bool" where
  "canFillAon fillable qty aon = (if \<not> aon then True else qty \<le> fillable)"

section \<open>Minimum quantity\<close>

definition readMinQty :: "amount option \<Rightarrow> amount option" where
  "readMinQty m = (case m of None \<Rightarrow> None | Some q \<Rightarrow> if q \<le> 0 then None else Some q)"

definition minQtyRefuse :: "amount \<Rightarrow> amount option \<Rightarrow> reject_code option" where
  "minQtyRefuse qty minQty =
     (case minQty of None \<Rightarrow> None | Some m \<Rightarrow> if qty < m then Some MinQtyExceedsQty else None)"

definition clipMeetsMinQty :: "amount \<Rightarrow> amount \<Rightarrow> amount option \<Rightarrow> bool" where
  "clipMeetsMinQty clip remainingAfter minQty =
     (case minQty of
        None \<Rightarrow> 0 < clip
      | Some m \<Rightarrow>
          if m \<le> 0 then 0 < clip
          else if clip < m then False
          else if 0 < remainingAfter \<and> remainingAfter < m then False
          else True)"

definition bothSidesMeetMinQty :: "amount \<Rightarrow> amount \<Rightarrow> amount option \<Rightarrow> amount \<Rightarrow> amount option \<Rightarrow> bool" where
  "bothSidesMeetMinQty clip takerAfter takerMinQty makerAfter makerMinQty \<longleftrightarrow>
     clipMeetsMinQty clip takerAfter takerMinQty \<and> clipMeetsMinQty clip makerAfter makerMinQty"

lemma clipMeetsMinQty_pos: "clipMeetsMinQty clip rest m \<Longrightarrow> 0 < clip"
  by (auto simp: clipMeetsMinQty_def split: option.splits if_splits)

lemma bothSides_pos: "bothSidesMeetMinQty clip ta tm ma mm \<Longrightarrow> 0 < clip"
  using clipMeetsMinQty_pos by (auto simp: bothSidesMeetMinQty_def)

lemma readMinQty_idem [simp]: "readMinQty (readMinQty m) = readMinQty m"
  by (auto simp: readMinQty_def split: option.splits)

section \<open>Iceberg\<close>

definition icebergDisplayRefuse :: "amount \<Rightarrow> amount option \<Rightarrow> reject_code option" where
  "icebergDisplayRefuse qty displayQty =
     (case displayQty of
        None \<Rightarrow> Some IcebergDisplayMissing
      | Some d \<Rightarrow> if d \<le> 0 then Some IcebergDisplayMissing
                   else if qty \<le> d then Some IcebergDisplayNotSmaller else None)"

definition visibleRemaining :: "amount \<Rightarrow> amount option \<Rightarrow> amount" where
  "visibleRemaining remaining displayRemaining =
     (case displayRemaining of None \<Rightarrow> remaining | Some d \<Rightarrow> min_amount d remaining)"

definition refillDisplay :: "amount \<Rightarrow> amount \<Rightarrow> amount" where
  "refillDisplay peak remaining = min_amount peak remaining"

definition hiddenRemaining :: "amount \<Rightarrow> amount option \<Rightarrow> amount" where
  "hiddenRemaining remaining displayRemaining =
     (case displayRemaining of None \<Rightarrow> 0 | Some d \<Rightarrow> if d < remaining then remaining - d else 0)"

definition wantsIceberg :: "engine_order \<Rightarrow> bool" where
  "wantsIceberg order \<longleftrightarrow> o_iceberg order \<or> o_displayQty order \<noteq> None"

lemma min_amount_min [simp]: "min_amount a b = min a b"
  by (simp add: min_amount_def)

lemma visible_hidden:
  "0 \<le> rem \<Longrightarrow> visibleRemaining rem d + hiddenRemaining rem d = rem"
  by (auto simp: visibleRemaining_def hiddenRemaining_def split: option.splits)

section \<open>Surveillance cases\<close>

definition SURVEILLANCE_REASONS :: "string list" where
  "SURVEILLANCE_REASONS = [''self_trade'', ''spoofing'', ''layering'']"

definition readRequired :: "string option \<Rightarrow> string option" where
  "readRequired raw = (case raw of None \<Rightarrow> None | Some s \<Rightarrow> if js_trim s = [] then None else Some (js_trim s))"

datatype surveillance_refuse =
  MissingAccount | MissingMarket | MissingReason | UnknownPattern | AutoCloseForbidden | InventedSanction

definition openSurveillanceCase ::
  "string option \<Rightarrow> string option \<Rightarrow> string option \<Rightarrow> surveillance_refuse + surveillance_case" where
  "openSurveillanceCase accountId marketId reason =
     (case readRequired accountId of None \<Rightarrow> Inl MissingAccount
      | Some acc \<Rightarrow>
        (case readRequired marketId of None \<Rightarrow> Inl MissingMarket
         | Some mkt \<Rightarrow>
           (case readRequired reason of None \<Rightarrow> Inl MissingReason
            | Some r \<Rightarrow>
              if r \<notin> set SURVEILLANCE_REASONS then Inl UnknownPattern
              else Inr \<lparr>sc_accountId = acc, sc_marketId = mkt, sc_reason = r\<rparr>)))"

definition closeSurveillanceCase :: surveillance_refuse where
  "closeSurveillanceCase = AutoCloseForbidden"

definition fineSurveillanceCase :: surveillance_refuse where
  "fineSurveillanceCase = InventedSanction"

definition punishSurveillanceCase :: surveillance_refuse where
  "punishSurveillanceCase = InventedSanction"

section \<open>Self-trade prevention\<close>

definition stpIdentityPresent :: "string \<Rightarrow> bool" where
  "stpIdentityPresent accountId \<longleftrightarrow> 0 < length (js_trim accountId)"

definition stpIdentityRefuse :: "string \<Rightarrow> reject_code option" where
  "stpIdentityRefuse accountId = (if stpIdentityPresent accountId then None else Some SelfTradeIdentity)"

definition isSelfTrade :: "string \<Rightarrow> string \<Rightarrow> bool" where
  "isSelfTrade takerAccountId makerAccountId \<longleftrightarrow>
     stpIdentityPresent takerAccountId \<and> stpIdentityPresent makerAccountId \<and> takerAccountId = makerAccountId"

definition selfTradeExpire :: "string \<Rightarrow> string \<Rightarrow> amount \<Rightarrow> nat \<Rightarrow> cancelled_ref" where
  "selfTradeExpire orderId accountId remainingQty sequence =
     \<lparr>c_orderId = orderId, c_accountId = accountId, c_remainingQty = remainingQty, c_sequence = sequence,
      c_reason = SelfTradePrevention\<rparr>"

definition selfTradeSurveillanceCase :: "string \<Rightarrow> string \<Rightarrow> surveillance_refuse + surveillance_case" where
  "selfTradeSurveillanceCase accountId marketId =
     openSurveillanceCase (Some accountId) (Some marketId) (Some ''self_trade'')"

section \<open>Peg and relative orders\<close>

definition readReference :: "engine_order \<Rightarrow> amount option" where
  "readReference order = (case o_reference order of None \<Rightarrow> None | Some r \<Rightarrow> if r \<le> 0 then None else Some r)"

definition readOffset :: "engine_order \<Rightarrow> amount option" where
  "readOffset order = o_offset order"

definition midpointRefuse :: "bool \<Rightarrow> reject_code option" where
  "midpointRefuse midpoint = (if \<not> midpoint then None else Some MidpointUnsupported)"

definition referenceRefuse :: "amount option \<Rightarrow> reject_code option" where
  "referenceRefuse reference = (if reference \<noteq> None then None else Some MissingReference)"

definition offsetRefuse :: "amount option \<Rightarrow> reject_code option" where
  "offsetRefuse offset = (if offset \<noteq> None then None else Some MissingOffset)"

definition pegPrice :: "amount \<Rightarrow> amount \<Rightarrow> amount" where
  "pegPrice reference offset = reference + offset"

definition bindPegRelative :: "engine_order \<Rightarrow> engine_order" where
  "bindPegRelative order =
     (if \<not> o_peg order \<and> \<not> o_relative order then order
      else case (readReference order, readOffset order) of
        (Some reference, Some offset) \<Rightarrow>
          order\<lparr>o_type := Limit, o_price := Some (pegPrice reference offset), o_stopPrice := None\<rparr>
      | _ \<Rightarrow> order)"

text \<open>\<open>a ?? b\<close> on refusals.\<close>

definition or_else :: "'a option \<Rightarrow> 'a option \<Rightarrow> 'a option" where
  "or_else a b = (case a of None \<Rightarrow> b | Some x \<Rightarrow> Some x)"

lemma or_else_simps [simp]: "or_else None b = b" "or_else (Some x) b = Some x"
  by (simp_all add: or_else_def)

lemma or_else_None [simp]: "or_else a b = None \<longleftrightarrow> a = None \<and> b = None"
  by (cases a) simp_all

definition pegIntentRefuse :: "engine_order \<Rightarrow> reject_code option" where
  "pegIntentRefuse order =
     or_else (midpointRefuse (o_midpoint order))
       (if \<not> o_peg order \<and> \<not> o_relative order then None
        else or_else (referenceRefuse (readReference order)) (offsetRefuse (readOffset order)))"

section \<open>Auction and benchmark intent\<close>

definition auctionRefuse :: "bool \<Rightarrow> reject_code option" where
  "auctionRefuse auction = (if \<not> auction then None else Some AuctionUnsupported)"

definition benchmarkRefuse :: "bool \<Rightarrow> reject_code option" where
  "benchmarkRefuse benchmark = (if \<not> benchmark then None else Some BenchmarkUnsupported)"

definition auctionIntentRefuse :: "engine_order \<Rightarrow> reject_code option" where
  "auctionIntentRefuse order = or_else (auctionRefuse (o_auction order)) (benchmarkRefuse (o_benchmark order))"

section \<open>Collars\<close>

definition readMin :: "engine_order \<Rightarrow> amount option" where
  "readMin order = (case o_min order of None \<Rightarrow> None | Some m \<Rightarrow> if m \<le> 0 then None else Some m)"

definition readMax :: "engine_order \<Rightarrow> amount option" where
  "readMax order = (case o_max order of None \<Rightarrow> None | Some m \<Rightarrow> if m \<le> 0 then None else Some m)"

definition missingCollarRefuse :: "amount option \<Rightarrow> amount option \<Rightarrow> reject_code option" where
  "missingCollarRefuse mn mx = (if mn \<noteq> None \<and> mx \<noteq> None then None else Some MissingCollar)"

definition outsideCollarRefuse :: "amount option \<Rightarrow> amount \<Rightarrow> amount \<Rightarrow> reject_code option" where
  "outsideCollarRefuse price mn mx =
     (case price of None \<Rightarrow> Some OutsideCollar | Some p \<Rightarrow> if p < mn \<or> mx < p then Some OutsideCollar else None)"

definition collarIntentRefuse :: "engine_order \<Rightarrow> reject_code option" where
  "collarIntentRefuse order =
     (if \<not> o_collar order then None
      else case (readMin order, readMax order) of
        (Some mn, Some mx) \<Rightarrow> outsideCollarRefuse (o_price order) mn mx
      | (mn, mx) \<Rightarrow> missingCollarRefuse mn mx)"

section \<open>Minimum notional\<close>

definition readMinNotional :: "engine_order \<Rightarrow> amount option" where
  "readMinNotional order = (case o_minNotional order of None \<Rightarrow> None | Some m \<Rightarrow> if m \<le> 0 then None else Some m)"

text \<open>\<open>mul\<close> divides by \<open>SCALE\<close>, which is not zero, so it does not throw.\<close>

definition callerNotional :: "amount \<Rightarrow> amount option \<Rightarrow> amount option" where
  "callerNotional qty price =
     (case price of None \<Rightarrow> None
      | Some p \<Rightarrow> if p \<le> 0 \<or> qty \<le> 0 then None
                   else (case mul qty p Floor of Inl _ \<Rightarrow> None | Inr v \<Rightarrow> Some v))"

lemma mul_floor_returns: "\<exists>v. mul qty p Floor = Inr v"
  by (simp add: mul_def SCALE_def DECIMALS_def divideScaled_floor)

definition minNotionalIntentRefuse :: "engine_order \<Rightarrow> reject_code option" where
  "minNotionalIntentRefuse order =
     (case readMinNotional order of None \<Rightarrow> None
      | Some floor \<Rightarrow>
        (case callerNotional (o_qty order) (o_price order) of
           None \<Rightarrow> Some MissingNotional
         | Some notional \<Rightarrow> if notional < floor then Some BelowMinNotional else None))"

section \<open>Mass cancel and sessions\<close>

definition readSessionId :: "string option \<Rightarrow> string option" where
  "readSessionId raw = (case raw of None \<Rightarrow> None | Some s \<Rightarrow> if js_trim s = [] then None else Some (js_trim s))"

record live_owned =
  lo_orderId :: string
  lo_accountId :: string
  lo_sequence :: nat
  lo_side :: order_side

definition ownedOrderIds :: "string \<Rightarrow> live_owned list \<Rightarrow> order_side option \<Rightarrow> string list" where
  "ownedOrderIds accountId live side =
     (if accountId = [] then []
      else map lo_orderId (sort_key lo_sequence
        (filter (\<lambda>row. side = None \<or> side = Some (lo_side row)) (filter (\<lambda>row. lo_accountId row = accountId) live))))"

record live_session =
  ls_orderId :: string
  ls_sessionId :: "string option"
  ls_sequence :: nat

definition sessionOrderIds :: "string \<Rightarrow> live_session list \<Rightarrow> string list" where
  "sessionOrderIds sessionId live =
     (if sessionId = [] then []
      else map ls_orderId (sort_key ls_sequence (filter (\<lambda>row. ls_sessionId row = Some sessionId) live)))"

end
