(* ===== verification/Match_Book.thy ===== *)
theory Match_Book
  imports Match_Rules
begin

text \<open>
  The order book of \<^verbatim>\<open>services/svc-matching/src/engine/book.ts\<close>, method by method: levels and the
  binary search, positions and reduce-only reservations, OCO links, the match loop, stops, and the
  public operations. Every method takes the book and returns it with its result. Loops are
  recursive functions; the match loop and the two stop loops come with their termination proofs.
\<close>

section \<open>Levels\<close>

definition nextSequence :: "order_book \<Rightarrow> order_book \<times> nat" where
  "nextSequence b = (let n = b_sequence b + 1 in (b\<lparr>b_sequence := n\<rparr>, n))"

definition bump :: "order_book \<Rightarrow> order_book" where
  "bump b = b\<lparr>b_sequence := Suc (b_sequence b)\<rparr>"

lemma nextSequence_eq: "nextSequence b = (bump b, Suc (b_sequence b))"
  by (simp add: nextSequence_def bump_def Let_def)

definition levels_of :: "order_side \<Rightarrow> order_book \<Rightarrow> price_level list" where
  "levels_of s b = (if s = BuySide then b_bids b else b_asks b)"

definition set_levels :: "order_side \<Rightarrow> price_level list \<Rightarrow> order_book \<Rightarrow> order_book" where
  "set_levels s ls b = (if s = BuySide then b\<lparr>b_bids := ls\<rparr> else b\<lparr>b_asks := ls\<rparr>)"

definition opposite :: "order_side \<Rightarrow> order_side" where
  "opposite s = (if s = BuySide then SellSide else BuySide)"

text \<open>Mutation of a resting order through any of its references.\<close>

definition upd_resting :: "string \<Rightarrow> (resting_order \<Rightarrow> resting_order) \<Rightarrow> order_book \<Rightarrow> order_book" where
  "upd_resting i f b = b\<lparr>b_index := map (\<lambda>(k, r). (k, if k = i then f r else r)) (b_index b)\<rparr>"

definition upd_stop :: "string \<Rightarrow> (stop_order \<Rightarrow> stop_order) \<Rightarrow> order_book \<Rightarrow> order_book" where
  "upd_stop i f b = (case find_index (\<lambda>s. st_orderId s = i) (b_stops b) of
       None \<Rightarrow> b | Some k \<Rightarrow> b\<lparr>b_stops := (b_stops b)[k := f (b_stops b ! k)]\<rparr>)"

definition get_resting :: "order_book \<Rightarrow> string \<Rightarrow> resting_order option" where
  "get_resting b i = map_of (b_index b) i"

definition get_stop :: "order_book \<Rightarrow> string \<Rightarrow> stop_order option" where
  "get_stop b i = List.find (\<lambda>s. st_orderId s = i) (b_stops b)"

function locate_loop :: "price_level list \<Rightarrow> amount \<Rightarrow> bool \<Rightarrow> nat \<Rightarrow> nat \<Rightarrow> nat \<times> bool" where
  "locate_loop levels price descending lo hi =
     (if lo < hi then
        let mid = (lo + hi) div 2; p = fst (levels ! mid) in
        if p = price then (mid, True)
        else if (if descending then price < p else p < price)
          then locate_loop levels price descending (mid + 1) hi
          else locate_loop levels price descending lo mid
      else (lo, False))"
  by pat_completeness auto
termination
  by (relation "measure (\<lambda>(levels, price, descending, lo, hi). hi - lo)") auto

declare locate_loop.simps [simp del]

definition locate :: "price_level list \<Rightarrow> amount \<Rightarrow> bool \<Rightarrow> nat \<times> bool" where
  "locate levels price descending = locate_loop levels price descending 0 (length levels)"

definition bestBid :: "order_book \<Rightarrow> amount option" where
  "bestBid b = (case b_bids b of [] \<Rightarrow> None | l # _ \<Rightarrow> Some (fst l))"

definition bestAsk :: "order_book \<Rightarrow> amount option" where
  "bestAsk b = (case b_asks b of [] \<Rightarrow> None | l # _ \<Rightarrow> Some (fst l))"

definition isNeverPrintedEmpty :: "order_book \<Rightarrow> bool" where
  "isNeverPrintedEmpty b \<longleftrightarrow> b_lastTradePrice b = None \<and> b_index b = [] \<and> b_stops b = []"

definition crossesLevel :: "order_side \<Rightarrow> amount \<Rightarrow> amount \<Rightarrow> bool" where
  "crossesLevel side limitPrice levelPrice \<longleftrightarrow>
     (if side = BuySide then levelPrice \<le> limitPrice else limitPrice \<le> levelPrice)"

definition wouldCross :: "order_book \<Rightarrow> order_side \<Rightarrow> amount \<Rightarrow> bool" where
  "wouldCross b side price \<longleftrightarrow>
     (if side = BuySide then (case bestAsk b of None \<Rightarrow> False | Some ask \<Rightarrow> ask \<le> price)
      else (case bestBid b of None \<Rightarrow> False | Some bid \<Rightarrow> price \<le> bid))"

definition toRestingRef :: "resting_order \<Rightarrow> resting_ref" where
  "toRestingRef r = \<lparr>rr_kind = BookKind, rr_orderId = r_orderId r, rr_accountId = r_accountId r, rr_side = r_side r,
     rr_price = r_price r, rr_remaining = r_remaining r, rr_sequence = r_sequence r, rr_version = r_version r\<rparr>"

definition stop_ref :: "stop_order \<Rightarrow> resting_ref" where
  "stop_ref s = \<lparr>rr_kind = StopKind, rr_orderId = st_orderId s, rr_accountId = st_accountId s, rr_side = st_side s,
     rr_price = st_stopPrice s, rr_remaining = st_qty s, rr_sequence = st_sequence s, rr_version = st_version s\<rparr>"

definition rest :: "order_book \<Rightarrow> effective_order \<Rightarrow> amount \<Rightarrow> nat \<Rightarrow> nat \<Rightarrow> order_book \<times> resting_ref" where
  "rest b order remaining sequence version =
     (let price = (case e_price order of Some p \<Rightarrow> p | None \<Rightarrow> 0);
          resting = \<lparr>r_orderId = e_orderId order, r_accountId = e_accountId order, r_side = e_side order,
            r_price = price, r_remaining = remaining, r_sequence = sequence, r_version = version,
            r_ocoSiblingId = e_ocoSiblingId order, r_expireAt = e_expireAt order, r_sessionId = e_sessionId order,
            r_reduceOnly = e_reduceOnly order, r_postOnly = (e_tif order = PO),
            r_displayPeak = e_displayQty order,
            r_displayRemaining = (case e_displayQty order of None \<Rightarrow> None | Some d \<Rightarrow> Some (min_amount d remaining)),
            r_minQty = e_minQty order, r_aon = e_aon order\<rparr>;
          levels = levels_of (e_side order) b;
          (position, found) = locate levels price (e_side order = BuySide);
          levels' = (if found then levels[position := (fst (levels ! position), snd (levels ! position) @ [e_orderId order])]
                     else splice_in position (price, [e_orderId order]) levels);
          b1 = set_levels (e_side order) levels' b
      in (b1\<lparr>b_index := AList.update (e_orderId order) resting (b_index b1)\<rparr>, toRestingRef resting))"

definition removeResting :: "order_book \<Rightarrow> resting_order \<Rightarrow> order_book" where
  "removeResting b resting =
     (let levels = levels_of (r_side resting) b;
          (position, found) = locate levels (r_price resting) (r_side resting = BuySide)
      in if \<not> found then b
         else let orders = remove1 (r_orderId resting) (snd (levels ! position));
                  levels' = (if orders = [] then splice_out position levels
                             else levels[position := (fst (levels ! position), orders)]);
                  b1 = set_levels (r_side resting) levels' b
              in b1\<lparr>b_index := AList.delete (r_orderId resting) (b_index b1)\<rparr>)"

definition take_stop :: "nat \<Rightarrow> order_book \<Rightarrow> order_book" where
  "take_stop k b = b\<lparr>b_stops := splice_out k (b_stops b)\<rparr>"

text \<open>
  Several methods remove a live order by id, from the index or else from the stops, and report it
  with the sequence of the removal. The reason differs.
\<close>

definition pull :: "cancel_reason \<Rightarrow> order_book \<Rightarrow> string \<Rightarrow> order_book \<times> cancelled_ref option" where
  "pull reason b orderId =
     (case get_resting b orderId of
        Some resting \<Rightarrow>
          (let (b', sequence) = nextSequence (removeResting b resting)
           in (b', Some \<lparr>c_orderId = orderId, c_accountId = r_accountId resting, c_remainingQty = r_remaining resting,
                c_sequence = sequence, c_reason = reason\<rparr>))
      | None \<Rightarrow>
          (case find_index (\<lambda>s. st_orderId s = orderId) (b_stops b) of
             Some k \<Rightarrow>
               (let stop = b_stops b ! k; (b', sequence) = nextSequence (take_stop k b)
                in (b', Some \<lparr>c_orderId = orderId, c_accountId = st_accountId stop, c_remainingQty = st_qty stop,
                     c_sequence = sequence, c_reason = reason\<rparr>))
           | None \<Rightarrow> (b, None)))"

fun pull_all :: "cancel_reason \<Rightarrow> order_book \<Rightarrow> string list \<Rightarrow> order_book \<times> cancelled_ref list" where
  "pull_all reason b [] = (b, [])"
| "pull_all reason b (i # is) =
     (let (b1, c) = pull reason b i; (b2, cs) = pull_all reason b1 is
      in (b2, (case c of None \<Rightarrow> cs | Some x \<Rightarrow> x # cs)))"

section \<open>Liveness and OCO links\<close>

definition isLive :: "order_book \<Rightarrow> string \<Rightarrow> bool" where
  "isLive b i \<longleftrightarrow> get_resting b i \<noteq> None \<or> i \<in> st_orderId ` set (b_stops b)"

definition hasAccepted :: "order_book \<Rightarrow> string \<Rightarrow> bool" where
  "hasAccepted b i \<longleftrightarrow> i \<in> set (b_acceptedIds b)"

definition rememberAccepted :: "string \<Rightarrow> order_book \<Rightarrow> order_book" where
  "rememberAccepted i b = b\<lparr>b_acceptedIds := set_add i (b_acceptedIds b)\<rparr>"

definition forgetAccepted :: "string \<Rightarrow> order_book \<Rightarrow> order_book" where
  "forgetAccepted i b = b\<lparr>b_acceptedIds := removeAll i (b_acceptedIds b)\<rparr>"

definition add_oco_member :: "string \<Rightarrow> order_book \<Rightarrow> order_book" where
  "add_oco_member i b = b\<lparr>b_ocoMembers := set_add i (b_ocoMembers b)\<rparr>"

definition isOcoTerminal :: "order_book \<Rightarrow> string \<Rightarrow> bool" where
  "isOcoTerminal b i \<longleftrightarrow> i \<in> set (b_ocoMembers b) \<and> \<not> isLive b i"

definition ocoTerminalIds :: "order_book \<Rightarrow> string list" where
  "ocoTerminalIds b = sort (filter (\<lambda>i. \<not> isLive b i) (b_ocoMembers b))"

definition terminalAcceptedIds :: "order_book \<Rightarrow> string list" where
  "terminalAcceptedIds b = sort (filter (\<lambda>i. \<not> isLive b i) (b_acceptedIds b))"

definition rememberOco :: "string \<Rightarrow> string option \<Rightarrow> order_book \<Rightarrow> order_book" where
  "rememberOco orderId sibling b = (if \<not> truthy sibling then b else add_oco_member orderId b)"

definition linkLiveSibling :: "string \<Rightarrow> string option \<Rightarrow> order_book \<Rightarrow> order_book" where
  "linkLiveSibling orderId sibling b =
     (case sibling of
        None \<Rightarrow> b
      | Some sid \<Rightarrow>
          if sid = [] then b
          else let b1 = upd_resting sid (\<lambda>r. if r_ocoSiblingId r = None then r\<lparr>r_ocoSiblingId := Some orderId\<rparr> else r) b;
                   b2 = upd_stop sid (\<lambda>s. if st_ocoSiblingId s = None then s\<lparr>st_ocoSiblingId := Some orderId\<rparr> else s) b1
               in if isLive b2 sid then add_oco_member sid b2 else b2)"

text \<open>The order a fill belongs to: its id, its sibling, and whether its type is \<open>'stop_limit'\<close>.\<close>

type_synonym incoming = "string \<times> string option \<times> bool"

definition siblingOf :: "order_book \<Rightarrow> string \<Rightarrow> incoming \<Rightarrow> string option" where
  "siblingOf b orderId incoming =
     (if fst incoming = orderId \<and> truthy (fst (snd incoming)) then fst (snd incoming)
      else case get_resting b orderId of
        Some r \<Rightarrow> if truthy (r_ocoSiblingId r) then r_ocoSiblingId r
                  else (case get_stop b orderId of None \<Rightarrow> None | Some s \<Rightarrow> st_ocoSiblingId s)
      | None \<Rightarrow> (case get_stop b orderId of None \<Rightarrow> None | Some s \<Rightarrow> st_ocoSiblingId s))"

definition pullOcoSibling :: "order_book \<Rightarrow> string \<Rightarrow> order_book \<times> cancelled_ref option" where
  "pullOcoSibling b orderId = pull OcoSiblingFilled b orderId"

definition clearOcoLink :: "string \<Rightarrow> order_book \<Rightarrow> order_book" where
  "clearOcoLink orderId b =
     upd_stop orderId (\<lambda>s. s\<lparr>st_ocoSiblingId := None\<rparr>) (upd_resting orderId (\<lambda>r. r\<lparr>r_ocoSiblingId := None\<rparr>) b)"

definition pullOcoLink ::
  "string \<Rightarrow> incoming \<Rightarrow> order_book \<times> string list \<times> cancelled_ref list \<Rightarrow> order_book \<times> string list \<times> cancelled_ref list" where
  "pullOcoLink orderId incoming st =
     (let (b, fired, cancelled) = st in
      if orderId \<in> set fired then (b, fired, cancelled)
      else
        let fired1 = set_add orderId fired in
        case siblingOf b orderId incoming of
          None \<Rightarrow> (b, fired1, cancelled)
        | Some sibling \<Rightarrow>
            if sibling = [] \<or> sibling \<in> set fired1 then (b, fired1, cancelled)
            else (case pullOcoSibling b sibling of
                (b1, Some c) \<Rightarrow> (clearOcoLink orderId (add_oco_member sibling b1), set_add sibling fired1, cancelled @ [c])
              | (b1, None) \<Rightarrow> (clearOcoLink orderId b1, fired1, cancelled)))"

definition cancelOcoSiblings :: "order_book \<Rightarrow> fill list \<Rightarrow> incoming \<Rightarrow> order_book \<times> cancelled_ref list" where
  "cancelOcoSiblings b fills incoming =
     (let (b', fired, cancelled) =
        (if fills = [] then
           (if snd (snd incoming) \<and> get_resting b (fst incoming) \<noteq> None
            then pullOcoLink (fst incoming) incoming (b, [], []) else (b, [], []))
         else foldl (\<lambda>st f. pullOcoLink (f_takerOrderId f) incoming (pullOcoLink (f_makerOrderId f) incoming st)) (b, [], []) fills)
      in (b', cancelled))"

section \<open>Positions and reduce-only\<close>

definition netPosition :: "order_book \<Rightarrow> string \<Rightarrow> amount" where
  "netPosition b acc = alist_get (b_positions b) acc 0"

definition fill_signed :: "fill \<Rightarrow> amount" where
  "fill_signed f = (if f_takerSide f = BuySide then f_qty f else - f_qty f)"

definition netAfterFills :: "order_book \<Rightarrow> string \<Rightarrow> fill list \<Rightarrow> amount" where
  "netAfterFills b acc fills =
     foldl (\<lambda>net f. let net1 = (if f_takerAccountId f = acc then net + fill_signed f else net)
                     in (if f_makerAccountId f = acc then net1 - fill_signed f else net1)) (netPosition b acc) fills"

definition openQty :: "amount \<Rightarrow> order_side \<Rightarrow> amount" where
  "openQty net side = (if side = SellSide then (if 0 < net then net else 0) else (if net < 0 then - net else 0))"

definition resting_rows :: "order_book \<Rightarrow> resting_order list" where
  "resting_rows b = map snd (b_index b)"

definition reservedReduceOnly :: "order_book \<Rightarrow> string \<Rightarrow> order_side \<Rightarrow> string option \<Rightarrow> amount" where
  "reservedReduceOnly b acc side except =
     sum_list (map r_remaining (filter (\<lambda>r. r_reduceOnly r \<and> r_accountId r = acc \<and> r_side r = side
         \<and> Some (r_orderId r) \<noteq> except) (resting_rows b)))
     + sum_list (map st_qty (filter (\<lambda>s. st_reduceOnly s \<and> st_accountId s = acc \<and> st_side s = side
         \<and> Some (st_orderId s) \<noteq> except) (b_stops b)))"

definition signedPosition :: "order_book \<Rightarrow> string \<Rightarrow> amount option \<Rightarrow> amount" where
  "signedPosition b acc override =
     (case override of Some q \<Rightarrow> q
      | None \<Rightarrow> (case map_of (b_futuresPositions b) acc of Some q \<Rightarrow> q | None \<Rightarrow> netPosition b acc))"

definition reducibleQty :: "order_book \<Rightarrow> string \<Rightarrow> order_side \<Rightarrow> string option \<Rightarrow> amount" where
  "reducibleQty b acc side except =
     (let open' = openQty (signedPosition b acc None) side; reserved = reservedReduceOnly b acc side except
      in if reserved < open' then open' - reserved else 0)"

definition wouldIncreasePosition :: "order_book \<Rightarrow> string \<Rightarrow> order_side \<Rightarrow> amount \<Rightarrow> string option \<Rightarrow> bool" where
  "wouldIncreasePosition b acc side qty except \<longleftrightarrow> reducibleQty b acc side except < qty"

record reduce_row =
  row_orderId :: string
  row_qty :: amount
  row_price :: "amount option"
  row_sequence :: nat
  row_stop :: bool

definition reduceOnlyRows :: "order_book \<Rightarrow> string \<Rightarrow> order_side \<Rightarrow> string \<Rightarrow> reduce_row list" where
  "reduceOnlyRows b acc side except =
     map (\<lambda>r. \<lparr>row_orderId = r_orderId r, row_qty = r_remaining r, row_price = Some (r_price r),
            row_sequence = r_sequence r, row_stop = False\<rparr>)
       (filter (\<lambda>r. r_reduceOnly r \<and> r_accountId r = acc \<and> r_side r = side \<and> r_orderId r \<noteq> except) (resting_rows b))
     @ map (\<lambda>s. \<lparr>row_orderId = st_orderId s, row_qty = st_qty s,
            row_price = (case st_price s of Some p \<Rightarrow> Some p | None \<Rightarrow> Some (st_stopPrice s)),
            row_sequence = st_sequence s, row_stop = True\<rparr>)
       (filter (\<lambda>s. st_reduceOnly s \<and> st_accountId s = acc \<and> st_side s = side \<and> st_orderId s \<noteq> except) (b_stops b))"

definition incomingPrice :: "engine_order \<Rightarrow> amount option" where
  "incomingPrice order = (if o_type order = Stop \<or> o_type order = StopLimit then None else o_price order)"

definition moreAggressive :: "order_side \<Rightarrow> amount option \<Rightarrow> amount option \<Rightarrow> bool" where
  "moreAggressive side nxt prior \<longleftrightarrow>
     (case (nxt, prior) of (Some n, Some p) \<Rightarrow> (if side = SellSide then n < p else p < n) | _ \<Rightarrow> False)"

definition compareLeastAggressive :: "order_side \<Rightarrow> reduce_row \<Rightarrow> reduce_row \<Rightarrow> int" where
  "compareLeastAggressive side x y =
     (case (row_price x, row_price y) of
        (None, None) \<Rightarrow> int (row_sequence y) - int (row_sequence x)
      | (None, Some q) \<Rightarrow> 1
      | (Some p, None) \<Rightarrow> - 1
      | (Some p, Some q) \<Rightarrow>
          if p = q then int (row_sequence y) - int (row_sequence x)
          else if side = SellSide then (if q < p then - 1 else 1)
          else (if p < q then - 1 else 1))"

definition incomingReduceOnlyRefused :: "order_book \<Rightarrow> engine_order \<Rightarrow> bool" where
  "incomingReduceOnlyRefused b order \<longleftrightarrow>
     (let open' = openQty (signedPosition b (o_accountId order) (o_positionQty order)) (o_side order) in
      if open' < o_qty order then True
      else let blocking = filter (\<lambda>row. row_stop row \<or> \<not> moreAggressive (o_side order) (incomingPrice order) (row_price row))
                 (reduceOnlyRows b (o_accountId order) (o_side order) (o_orderId order))
           in open' < o_qty order + sum_list (map row_qty blocking))"

text \<open>The displaced rows are removed as their kind says: a book row from the index only, a stop row
  from the stops only.\<close>

definition pullReduceOnlyRow :: "order_book \<Rightarrow> reduce_row \<Rightarrow> order_book \<times> cancelled_ref option" where
  "pullReduceOnlyRow b row =
     (if \<not> row_stop row then
        (case get_resting b (row_orderId row) of
           None \<Rightarrow> (b, None)
         | Some resting \<Rightarrow>
             let (b', sequence) = nextSequence (removeResting b resting)
             in (b', Some \<lparr>c_orderId = r_orderId resting, c_accountId = r_accountId resting,
                  c_remainingQty = r_remaining resting, c_sequence = sequence, c_reason = ReduceOnlyDisplaced\<rparr>))
      else
        (case find_index (\<lambda>s. st_orderId s = row_orderId row) (b_stops b) of
           None \<Rightarrow> (b, None)
         | Some k \<Rightarrow>
             let stop = b_stops b ! k; (b', sequence) = nextSequence (take_stop k b)
             in (b', Some \<lparr>c_orderId = st_orderId stop, c_accountId = st_accountId stop,
                  c_remainingQty = st_qty stop, c_sequence = sequence, c_reason = ReduceOnlyDisplaced\<rparr>)))"

fun displace_loop ::
  "amount \<Rightarrow> amount \<Rightarrow> order_book \<Rightarrow> amount \<Rightarrow> reduce_row list \<Rightarrow> order_book \<times> cancelled_ref list" where
  "displace_loop qty open' b reserved [] = (b, [])"
| "displace_loop qty open' b reserved (row # rows) =
     (if qty + reserved \<le> open' then (b, [])
      else case pullReduceOnlyRow b row of
        (b1, None) \<Rightarrow> displace_loop qty open' b1 reserved rows
      | (b1, Some c) \<Rightarrow> (let (b2, cs) = displace_loop qty open' b1 (reserved - row_qty row) rows in (b2, c # cs)))"

definition displaceReduceOnly :: "order_book \<Rightarrow> engine_order \<Rightarrow> order_book \<times> cancelled_ref list" where
  "displaceReduceOnly b order =
     (if \<not> o_reduceOnly order \<or> incomingPrice order = None then (b, [])
      else let open' = openQty (signedPosition b (o_accountId order) (o_positionQty order)) (o_side order) in
        if open' < o_qty order then (b, [])
        else let rows = reduceOnlyRows b (o_accountId order) (o_side order) (o_orderId order);
                 less = filter (\<lambda>row. \<not> row_stop row \<and> moreAggressive (o_side order) (incomingPrice order) (row_price row)) rows
             in displace_loop (o_qty order) open' b (sum_list (map row_qty rows))
                  (sort_by (\<lambda>x y. compareLeastAggressive (o_side order) x y \<le> 0) less))"

definition addPosition :: "string \<Rightarrow> amount \<Rightarrow> order_book \<Rightarrow> order_book" where
  "addPosition acc delta b =
     (let nxt = alist_get (b_positions b) acc 0 + delta
      in b\<lparr>b_positions := (if nxt = 0 then AList.delete acc (b_positions b) else AList.update acc nxt (b_positions b))\<rparr>)"

definition applyFillsToPosition :: "fill list \<Rightarrow> order_book \<Rightarrow> order_book" where
  "applyFillsToPosition fills b =
     foldl (\<lambda>b f. addPosition (f_makerAccountId f) (- fill_signed f) (addPosition (f_takerAccountId f) (fill_signed f) b)) b fills"

definition cancelReduceOnlyDue :: "order_book \<Rightarrow> order_book \<times> cancelled_ref list" where
  "cancelReduceOnlyDue b =
     pull_all WouldIncreasePositionCancel b
       (map r_orderId (filter (\<lambda>r. r_reduceOnly r \<and>
            wouldIncreasePosition b (r_accountId r) (r_side r) (r_remaining r) (Some (r_orderId r))) (resting_rows b))
        @ map st_orderId (filter (\<lambda>s. st_reduceOnly s \<and>
            wouldIncreasePosition b (st_accountId s) (st_side s) (st_qty s) (Some (st_orderId s))) (b_stops b)))"

end
