(* ===== verification/Match_Engine.thy ===== *)
theory Match_Engine
  imports Match_Book
begin

text \<open>
  The match loop of \<^verbatim>\<open>book.ts\<close>, its dry run \<open>fillableQty\<close>, the execution of an order, the
  activation of stops, and the public operations \<open>submit\<close>, \<open>cancel\<close>, \<open>amend\<close> and the rest.
\<close>

section \<open>How much would fill\<close>

record fillable_state =
  q_total :: amount
  q_remaining :: amount
  q_removed :: "string list"
  q_fills :: "fill list"

definition mk_fill :: "nat \<Rightarrow> resting_order \<Rightarrow> effective_order \<Rightarrow> amount \<Rightarrow> fill" where
  "mk_fill sequence maker order qty =
     \<lparr>f_sequence = sequence, f_makerOrderId = r_orderId maker, f_makerAccountId = r_accountId maker,
      f_takerOrderId = e_orderId order, f_takerAccountId = e_accountId order, f_takerSide = e_side order,
      f_price = r_price maker, f_qty = qty\<rparr>"

definition incoming_of :: "effective_order \<Rightarrow> incoming" where
  "incoming_of order = (e_orderId order, e_ocoSiblingId order, False)"

definition add_removed :: "string option \<Rightarrow> string list \<Rightarrow> string list" where
  "add_removed s xs = (if truthy s then set_add (the s) xs else xs)"

text \<open>The inner loop over the orders of a level; \<open>True\<close> means that the method returned.\<close>

fun fillable_orders :: "order_book \<Rightarrow> effective_order \<Rightarrow> string list \<Rightarrow> fillable_state \<Rightarrow> fillable_state \<times> bool" where
  "fillable_orders b order [] st = (st, False)"
| "fillable_orders b order (mk # ids) st =
     (if q_remaining st = 0 then (st, True)
      else if mk \<in> set (q_removed st) then fillable_orders b order ids st
      else case get_resting b mk of
        None \<Rightarrow> (st, True)
      | Some maker \<Rightarrow>
          if \<not> stpIdentityPresent (e_accountId order) \<or> \<not> stpIdentityPresent (r_accountId maker) then (st, True)
          else if isSelfTrade (e_accountId order) (r_accountId maker) then fillable_orders b order ids st
          else
            let clip0 = min_amount (q_remaining st) (visibleRemaining (r_remaining maker) (r_displayRemaining maker)) in
            if clip0 = 0 then (st, True)
            else
              let open' = openQty (netAfterFills b (r_accountId maker) (q_fills st)) (r_side maker) in
              if r_reduceOnly maker \<and> open' = 0 then fillable_orders b order ids st
              else
                let clip = (if r_reduceOnly maker then min_amount clip0 open' else clip0) in
                if \<not> clipMeetsAon clip (r_remaining maker) (r_aon maker) then (st, True)
                else if \<not> bothSidesMeetMinQty clip (q_remaining st - clip) (readMinQty (e_minQty order))
                       (r_remaining maker - clip) (readMinQty (r_minQty maker)) then (st, True)
                else
                  fillable_orders b order ids
                    \<lparr>q_total = q_total st + clip, q_remaining = q_remaining st - clip,
                     q_removed = add_removed (siblingOf b (e_orderId order) (incoming_of order))
                       (add_removed (siblingOf b mk (incoming_of order)) (q_removed st)),
                     q_fills = q_fills st @ [mk_fill 0 maker order clip]\<rparr>)"

fun fillable_levels :: "order_book \<Rightarrow> effective_order \<Rightarrow> price_level list \<Rightarrow> fillable_state \<Rightarrow> fillable_state" where
  "fillable_levels b order [] st = st"
| "fillable_levels b order ((p, ids) # ls) st =
     (if (case e_price order of None \<Rightarrow> False | Some lim \<Rightarrow> \<not> crossesLevel (e_side order) lim p) then st
      else case fillable_orders b order ids st of
        (st', True) \<Rightarrow> st'
      | (st', False) \<Rightarrow> fillable_levels b order ls st')"

definition fillableQty :: "order_book \<Rightarrow> effective_order \<Rightarrow> amount" where
  "fillableQty b order = q_total (fillable_levels b order (levels_of (opposite (e_side order)) b)
     \<lparr>q_total = 0, q_remaining = e_qty order, q_removed = [], q_fills = []\<rparr>)"

definition checkViability :: "order_book \<Rightarrow> effective_order \<Rightarrow> reject_code option" where
  "checkViability b order =
     (if e_tif order = PO \<and> (case e_price order of None \<Rightarrow> False | Some p \<Rightarrow> wouldCross b (e_side order) p)
        then Some PostOnlyWouldCross
      else if e_tif order = MOC \<and> (case e_price order of None \<Rightarrow> False | Some p \<Rightarrow> wouldCross b (e_side order) p)
        then Some MocWouldTake
      else if e_tif order = FOK \<and> fillableQty b order < e_qty order then Some FokUnfillable
      else None)"

section \<open>The match loop\<close>

record match_state =
  m_book :: order_book
  m_fills :: "fill list"
  m_remaining :: amount
  m_cancellations :: "cancelled_ref list"
  m_cases :: "surveillance_case list"
  m_sliced :: "string list"
  m_fired :: "string list"

text \<open>
  One pass of the loop body over the head of level \<open>i\<close>, with how the loops go on: leave both
  (\<open>Halt\<close>), look at the same level index again (\<open>Again\<close>), or step to the next level (\<open>Advance\<close>).
  The source removes an emptied level when it leaves the inner loop or at the removal; the model
  removes it at the removal, which is the same since nothing looks at the levels in between.
\<close>

datatype match_next = Halt | Again | Advance

text \<open>\<open>level.orders.shift()\<close>, \<open>index.delete\<close>, and the level goes when it is empty.\<close>

definition drop_head :: "order_side \<Rightarrow> nat \<Rightarrow> string \<Rightarrow> order_book \<Rightarrow> order_book" where
  "drop_head s i mk b =
     (let levels = levels_of s b; orders = tl (snd (levels ! i));
          b1 = set_levels s (if orders = [] then splice_out i levels else levels[i := (fst (levels ! i), orders)]) b
      in b1\<lparr>b_index := AList.delete mk (b_index b1)\<rparr>)"

definition pullReduceOnlyMaker :: "order_side \<Rightarrow> nat \<Rightarrow> resting_order \<Rightarrow> match_state \<Rightarrow> match_state" where
  "pullReduceOnlyMaker s i maker ms =
     (let (b, sequence) = nextSequence (m_book ms)
      in ms\<lparr>m_book := drop_head s i (r_orderId maker) b,
            m_cancellations := m_cancellations ms @ [\<lparr>c_orderId = r_orderId maker, c_accountId = r_accountId maker,
              c_remainingQty = r_remaining maker, c_sequence = sequence, c_reason = WouldIncreasePositionCancel\<rparr>]\<rparr>)"

definition expire_self_trade :: "order_side \<Rightarrow> nat \<Rightarrow> resting_order \<Rightarrow> match_state \<Rightarrow> match_state" where
  "expire_self_trade s i maker ms =
     (let (b, sequence) = nextSequence (m_book ms);
          opened = (case selfTradeSurveillanceCase (r_accountId maker) (b_marketId b) of Inl _ \<Rightarrow> [] | Inr c \<Rightarrow> [c]);
          b1 = b\<lparr>b_surveillanceCases := b_surveillanceCases b @ opened\<rparr>
      in ms\<lparr>m_book := drop_head s i (r_orderId maker) b1,
            m_cancellations := m_cancellations ms @ [selfTradeExpire (r_orderId maker) (r_accountId maker) (r_remaining maker) sequence],
            m_cases := m_cases ms @ opened\<rparr>)"

definition rotate_level :: "order_side \<Rightarrow> nat \<Rightarrow> string \<Rightarrow> order_book \<Rightarrow> order_book" where
  "rotate_level s i mk b =
     (let levels = levels_of s b
      in set_levels s (levels[i := (fst (levels ! i), tl (snd (levels ! i)) @ [mk])]) b)"

definition take_qty :: "amount \<Rightarrow> resting_order \<Rightarrow> resting_order" where
  "take_qty qty r = r\<lparr>r_remaining := r_remaining r - qty,
     r_displayRemaining := map_option (\<lambda>d. d - qty) (r_displayRemaining r)\<rparr>"

text \<open>The trade itself: print the fill, take the quantity off both sides, pull the OCO siblings.\<close>

definition trade :: "effective_order \<Rightarrow> resting_order \<Rightarrow> amount \<Rightarrow> match_state \<Rightarrow> match_state" where
  "trade order maker qty ms =
     (let (b, sequence) = nextSequence (m_book ms);
          b1 = upd_resting (r_orderId maker) (take_qty qty) b;
          (b2, fired, cancelled) =
            pullOcoLink (e_orderId order) (incoming_of order)
              (pullOcoLink (r_orderId maker) (incoming_of order) (b1, m_fired ms, m_cancellations ms))
      in ms\<lparr>m_book := b2, m_fills := m_fills ms @ [mk_fill sequence maker order qty],
            m_remaining := m_remaining ms - qty, m_fired := fired, m_cancellations := cancelled\<rparr>)"

text \<open>What becomes of the maker after the trade.\<close>

definition settle_maker :: "order_side \<Rightarrow> nat \<Rightarrow> resting_order \<Rightarrow> match_state \<Rightarrow> match_state" where
  "settle_maker s i maker ms =
     (if r_remaining maker = 0 then ms\<lparr>m_book := drop_head s i (r_orderId maker) (m_book ms)\<rparr>
      else if r_reduceOnly maker \<and> openQty (netAfterFills (m_book ms) (r_accountId maker) (m_fills ms)) (r_side maker) = 0
        then pullReduceOnlyMaker s i maker ms
      else case (r_displayRemaining maker, r_displayPeak maker) of
        (Some d, Some peak) \<Rightarrow>
          if d = 0 then
            ms\<lparr>m_book := rotate_level s i (r_orderId maker)
                 (upd_resting (r_orderId maker) (\<lambda>r. r\<lparr>r_displayRemaining := Some (refillDisplay peak (r_remaining maker))\<rparr>) (m_book ms)),
               m_sliced := set_add (r_orderId maker) (m_sliced ms)\<rparr>
          else ms
      | _ \<Rightarrow> ms)"

definition match_maker :: "effective_order \<Rightarrow> nat \<Rightarrow> resting_order \<Rightarrow> match_state \<Rightarrow> match_state \<times> match_next" where
  "match_maker order i maker ms =
     (let s = opposite (e_side order) in
      if r_orderId maker \<in> set (m_sliced ms) then (ms, Advance)
      else if \<not> stpIdentityPresent (e_accountId order) \<or> \<not> stpIdentityPresent (r_accountId maker) then (ms, Halt)
      else if isSelfTrade (e_accountId order) (r_accountId maker) then (expire_self_trade s i maker ms, Again)
      else
        let qty0 = min_amount (m_remaining ms) (visibleRemaining (r_remaining maker) (r_displayRemaining maker)) in
        if qty0 = 0 then (ms, Halt)
        else
          let open' = openQty (netAfterFills (m_book ms) (r_accountId maker) (m_fills ms)) (r_side maker) in
          if r_reduceOnly maker \<and> open' = 0 then (pullReduceOnlyMaker s i maker ms, Again)
          else
            let qty = (if r_reduceOnly maker \<and> open' < qty0 then open' else qty0) in
            if \<not> clipMeetsAon qty (r_remaining maker) (r_aon maker) then (ms, Halt)
            else if \<not> bothSidesMeetMinQty qty (m_remaining ms - qty) (readMinQty (e_minQty order))
                   (r_remaining maker - qty) (readMinQty (r_minQty maker)) then (ms, Halt)
            else (settle_maker s i (take_qty qty maker) (trade order maker qty ms), Again))"

definition match_iter :: "effective_order \<Rightarrow> nat \<Rightarrow> match_state \<Rightarrow> match_state \<times> match_next" where
  "match_iter order i ms =
     (let s = opposite (e_side order); levels = levels_of s (m_book ms) in
      if m_remaining ms \<le> 0 \<or> length levels \<le> i then (ms, Halt)
      else if (case e_price order of None \<Rightarrow> False | Some lim \<Rightarrow> \<not> crossesLevel (e_side order) lim (fst (levels ! i))) then (ms, Halt)
      else case snd (levels ! i) of
        [] \<Rightarrow> (ms\<lparr>m_book := set_levels s (splice_out i levels) (m_book ms)\<rparr>, Again)
      | mk # _ \<Rightarrow> (case get_resting (m_book ms) mk of None \<Rightarrow> (ms, Halt) | Some maker \<Rightarrow> match_maker order i maker ms))"

text \<open>Every pass that goes on takes quantity off the taker, or an order off the opposite side, or
  moves on to a later level.\<close>

definition side_orders :: "order_side \<Rightarrow> order_book \<Rightarrow> nat" where
  "side_orders s b = (\<Sum>l\<leftarrow>levels_of s b. length (snd l))"

definition match_measure :: "effective_order \<Rightarrow> nat \<Rightarrow> match_state \<Rightarrow> nat \<times> nat \<times> nat" where
  "match_measure order i ms = (nat (m_remaining ms), side_orders (opposite (e_side order)) (m_book ms),
     length (levels_of (opposite (e_side order)) (m_book ms)) - i)"

lemma levels_of_set [simp]:
  "levels_of s (set_levels s ls b) = ls" "s \<noteq> t \<Longrightarrow> levels_of s (set_levels t ls b) = levels_of s b"
  by (auto simp: levels_of_def set_levels_def) (metis order_side.exhaust)+

lemma levels_of_upd [simp]:
  "levels_of s (b\<lparr>b_index := x\<rparr>) = levels_of s b" "levels_of s (b\<lparr>b_sequence := n\<rparr>) = levels_of s b"
  "levels_of s (b\<lparr>b_surveillanceCases := c\<rparr>) = levels_of s b"
  by (simp_all add: levels_of_def)

lemma sum_length_splice_out:
  "i < length ls \<Longrightarrow> (\<Sum>l\<leftarrow>splice_out i ls. length (snd l)) = (\<Sum>l\<leftarrow>ls. length (snd l)) - length (snd (ls ! i))"
proof -
  assume i: "i < length ls"
  have "(\<Sum>l\<leftarrow>ls. length (snd l)) = (\<Sum>l\<leftarrow>take i ls @ ls ! i # drop (Suc i) ls. length (snd l))"
    using i by (simp add: id_take_nth_drop [symmetric])
  then show ?thesis by (simp add: splice_out_def)
qed

lemma sum_length_update:
  assumes "i < length ls"
  shows "(\<Sum>l\<leftarrow>ls[i := (p, xs)]. length (snd l)) + length (snd (ls ! i)) = (\<Sum>l\<leftarrow>ls. length (snd l)) + length xs"
proof -
  have "(\<Sum>l\<leftarrow>ls. length (snd l)) = (\<Sum>l\<leftarrow>take i ls @ ls ! i # drop (Suc i) ls. length (snd l))"
    using assms by (simp add: id_take_nth_drop [symmetric])
  then show ?thesis using assms by (simp add: upd_conv_take_nth_drop)
qed

lemma drop_head_shrinks:
  assumes "i < length (levels_of s b0)" "snd (levels_of s b0 ! i) \<noteq> []" "levels_of s b = levels_of s b0"
  shows "side_orders s (drop_head s i mk b) < side_orders s b0"
proof -
  obtain x xs where l: "snd (levels_of s b0 ! i) = x # xs" using assms(2) by (meson neq_Nil_conv)
  have "length (snd (levels_of s b0 ! i)) \<le> (\<Sum>l\<leftarrow>levels_of s b0. length (snd l))"
    using sum_length_update [OF assms(1), of "fst (levels_of s b0 ! i)" "[]"] by simp
  then show ?thesis
    using sum_length_update [OF assms(1), of "fst (levels_of s b0 ! i)" xs] sum_length_splice_out [OF assms(1)]
    unfolding side_orders_def drop_head_def Let_def assms(3) by (auto simp: l)
qed

lemma trade_remaining [simp]: "m_remaining (trade order maker qty ms) = m_remaining ms - qty"
  by (simp add: trade_def Let_def split: prod.splits)

lemma settle_remaining [simp]: "m_remaining (settle_maker s i maker ms) = m_remaining ms"
  by (simp add: settle_maker_def pullReduceOnlyMaker_def Let_def split: prod.splits option.splits)

text \<open>The outcomes of one pass.\<close>

lemma match_maker_cases:
  assumes "match_maker order i maker ms = (ms', nxt)"
  obtains (sliced) "r_orderId maker \<in> set (m_sliced ms)" "ms' = ms" "nxt = Advance"
  | (halt) "r_orderId maker \<notin> set (m_sliced ms)" "ms' = ms" "nxt = Halt"
  | (self) "r_orderId maker \<notin> set (m_sliced ms)" "isSelfTrade (e_accountId order) (r_accountId maker)"
      "ms' = expire_self_trade (opposite (e_side order)) i maker ms" "nxt = Again"
  | (pulled) "r_orderId maker \<notin> set (m_sliced ms)" "\<not> isSelfTrade (e_accountId order) (r_accountId maker)"
      "r_reduceOnly maker" "openQty (netAfterFills (m_book ms) (r_accountId maker) (m_fills ms)) (r_side maker) = 0"
      "ms' = pullReduceOnlyMaker (opposite (e_side order)) i maker ms" "nxt = Again"
  | (traded) qty where "r_orderId maker \<notin> set (m_sliced ms)" "e_accountId order \<noteq> r_accountId maker" "0 < qty"
      "qty \<le> m_remaining ms" "qty \<le> visibleRemaining (r_remaining maker) (r_displayRemaining maker)"
      "r_reduceOnly maker \<Longrightarrow> qty \<le> openQty (netAfterFills (m_book ms) (r_accountId maker) (m_fills ms)) (r_side maker)"
      "clipMeetsAon qty (r_remaining maker) (r_aon maker)"
      "bothSidesMeetMinQty qty (m_remaining ms - qty) (readMinQty (e_minQty order)) (r_remaining maker - qty) (readMinQty (r_minQty maker))"
      "ms' = settle_maker (opposite (e_side order)) i (take_qty qty maker) (trade order maker qty ms)" "nxt = Again"
proof -
  define op where "op = openQty (netAfterFills (m_book ms) (r_accountId maker) (m_fills ms)) (r_side maker)"
  define q0 where "q0 = min (m_remaining ms) (visibleRemaining (r_remaining maker) (r_displayRemaining maker))"
  define q where "q = (if r_reduceOnly maker \<and> op < q0 then op else q0)"
  have acc: "e_accountId order \<noteq> r_accountId maker"
    if "stpIdentityPresent (e_accountId order)" "stpIdentityPresent (r_accountId maker)"
      "\<not> isSelfTrade (e_accountId order) (r_accountId maker)"
    using that by (auto simp: isSelfTrade_def)
  have q: "q \<le> m_remaining ms" "q \<le> visibleRemaining (r_remaining maker) (r_displayRemaining maker)" "r_reduceOnly maker \<Longrightarrow> q \<le> op"
    by (auto simp: q_def q0_def)
  note e = assms [unfolded match_maker_def Let_def min_amount_min, folded op_def, folded q0_def, folded q_def]
  show ?thesis
  proof (cases "r_orderId maker \<in> set (m_sliced ms)")
    case True
    with e show ?thesis by (intro sliced) auto
  next
    case ns: False
    note e = e [unfolded if_not_P [OF ns]]
    show ?thesis
    proof (cases "\<not> stpIdentityPresent (e_accountId order) \<or> \<not> stpIdentityPresent (r_accountId maker)")
      case True
      with e ns show ?thesis by (intro halt) auto
    next
      case stp: False
      note e = e [unfolded if_not_P [OF stp]]
      show ?thesis
      proof (cases "isSelfTrade (e_accountId order) (r_accountId maker)")
        case True
        with e ns show ?thesis by (intro self) auto
      next
        case st: False
        note e = e [unfolded if_not_P [OF st]]
        have acc': "e_accountId order \<noteq> r_accountId maker" using acc stp st by blast
        show ?thesis
        proof (cases "q0 = 0")
          case True
          with e ns show ?thesis by (intro halt) auto
        next
          case q0: False
          note e = e [unfolded if_not_P [OF q0]]
          show ?thesis
          proof (cases "r_reduceOnly maker \<and> op = 0")
            case True
            with e ns st show ?thesis by (intro pulled) (auto simp: op_def)
          next
            case ro: False
            note e = e [unfolded if_not_P [OF ro]]
            show ?thesis
            proof (cases "clipMeetsAon q (r_remaining maker) (r_aon maker) \<and> bothSidesMeetMinQty q (m_remaining ms - q)
                (readMinQty (e_minQty order)) (r_remaining maker - q) (readMinQty (r_minQty maker))")
              case True
              with e ns acc' q bothSides_pos show ?thesis by (intro traded [of q, folded op_def]) auto
            next
              case False
              with e ns show ?thesis by (intro halt) (auto split: if_splits)
            qed
          qed
        qed
      qed
    qed
  qed
qed

lemma match_maker_decreases:
  assumes "match_maker order i maker ms = (ms', nxt)" "nxt \<noteq> Halt" "0 < m_remaining ms"
    and i: "i < length (levels_of (opposite (e_side order)) (m_book ms))"
    and ne: "snd (levels_of (opposite (e_side order)) (m_book ms) ! i) \<noteq> []"
  shows "(match_measure order (if nxt = Advance then Suc i else i) ms', match_measure order i ms)
    \<in> less_than <*lex*> less_than <*lex*> less_than"
  using assms(1)
proof (cases rule: match_maker_cases)
  case self
  then show ?thesis
    using drop_head_shrinks [OF i ne, of _ "r_orderId maker"]
    by (simp add: expire_self_trade_def match_measure_def Let_def nextSequence_def)
next
  case pulled
  then show ?thesis
    using drop_head_shrinks [OF i ne, of _ "r_orderId maker"]
    by (simp add: pullReduceOnlyMaker_def match_measure_def Let_def nextSequence_def)
qed (use assms in \<open>auto simp: match_measure_def\<close>)

lemma match_iter_cases:
  assumes "match_iter order i ms = (ms', nxt)"
  obtains (halt) "ms' = ms" "nxt = Halt"
  | (gone) "0 < m_remaining ms" "i < length (levels_of (opposite (e_side order)) (m_book ms))"
      "snd (levels_of (opposite (e_side order)) (m_book ms) ! i) = []" "nxt = Again"
      "ms' = ms\<lparr>m_book := set_levels (opposite (e_side order))
         (splice_out i (levels_of (opposite (e_side order)) (m_book ms))) (m_book ms)\<rparr>"
  | (maker) mk ids maker where "0 < m_remaining ms" "i < length (levels_of (opposite (e_side order)) (m_book ms))"
      "\<And>lim. e_price order = Some lim \<Longrightarrow>
         crossesLevel (e_side order) lim (fst (levels_of (opposite (e_side order)) (m_book ms) ! i))"
      "snd (levels_of (opposite (e_side order)) (m_book ms) ! i) = mk # ids"
      "get_resting (m_book ms) mk = Some maker" "match_maker order i maker ms = (ms', nxt)"
proof (cases "m_remaining ms \<le> 0 \<or> length (levels_of (opposite (e_side order)) (m_book ms)) \<le> i
    \<or> (\<exists>lim. e_price order = Some lim
      \<and> \<not> crossesLevel (e_side order) lim (fst (levels_of (opposite (e_side order)) (m_book ms) ! i)))")
  case True
  with assms show ?thesis by (intro halt) (auto simp: match_iter_def Let_def split: if_splits)
next
  case go: False
  then have e: "(case snd (levels_of (opposite (e_side order)) (m_book ms) ! i) of
        [] \<Rightarrow> (ms\<lparr>m_book := set_levels (opposite (e_side order))
           (splice_out i (levels_of (opposite (e_side order)) (m_book ms))) (m_book ms)\<rparr>, Again)
      | mk # _ \<Rightarrow> (case get_resting (m_book ms) mk of None \<Rightarrow> (ms, Halt) | Some maker \<Rightarrow> match_maker order i maker ms)) = (ms', nxt)"
    using assms by (simp add: match_iter_def Let_def split: option.splits)
  show ?thesis
  proof (cases "snd (levels_of (opposite (e_side order)) (m_book ms) ! i)")
    case Nil
    with e go show ?thesis by (intro gone) auto
  next
    case (Cons mk ids)
    note e = e [unfolded Cons list.case]
    show ?thesis
    proof (cases "get_resting (m_book ms) mk")
      case None
      with e show ?thesis by (intro halt) auto
    next
      case (Some r)
      with e go Cons show ?thesis by (intro maker [of mk ids r]) auto
    qed
  qed
qed

lemma match_iter_decreases:
  assumes "match_iter order i ms = (ms', nxt)" "nxt \<noteq> Halt"
  shows "(match_measure order (if nxt = Advance then Suc i else i) ms', match_measure order i ms)
    \<in> less_than <*lex*> less_than <*lex*> less_than"
  using assms(1)
proof (cases rule: match_iter_cases)
  case gone
  then show ?thesis by (simp add: match_measure_def side_orders_def length_splice_out sum_length_splice_out)
next
  case (maker mk ids r)
  then show ?thesis using match_maker_decreases [OF maker(6) assms(2) maker(1,2)] by simp
qed (use assms(2) in simp)

function match_loop :: "effective_order \<Rightarrow> nat \<Rightarrow> match_state \<Rightarrow> match_state" where
  "match_loop order i ms =
     (let r = match_iter order i ms in
      case snd r of Halt \<Rightarrow> fst r | Again \<Rightarrow> match_loop order i (fst r) | Advance \<Rightarrow> match_loop order (Suc i) (fst r))"
  by pat_completeness auto
termination
proof (relation "inv_image (less_than <*lex*> less_than <*lex*> less_than) (\<lambda>(order, i, ms). match_measure order i ms)")
  show "wf (inv_image (less_than <*lex*> less_than <*lex*> less_than) (\<lambda>(order, i, ms). match_measure order i ms))"
    by (intro wf_inv_image wf_lex_prod wf_less_than)
next
  fix order i ms r
  assume "r = match_iter order i ms" "snd r = Again"
  then have "match_iter order i ms = (fst r, Again)" by (metis prod.collapse)
  then show "((order, i, fst r), (order, i, ms)) \<in> inv_image (less_than <*lex*> less_than <*lex*> less_than)
      (\<lambda>(order, i, ms). match_measure order i ms)"
    using match_iter_decreases by fastforce
next
  fix order i ms r
  assume "r = match_iter order i ms" "snd r = Advance"
  then have "match_iter order i ms = (fst r, Advance)" by (metis prod.collapse)
  then show "((order, Suc i, fst r), (order, i, ms)) \<in> inv_image (less_than <*lex*> less_than <*lex*> less_than)
      (\<lambda>(order, i, ms). match_measure order i ms)"
    using match_iter_decreases by fastforce
qed

declare match_loop.simps [simp del]

definition match_init :: "order_book \<Rightarrow> effective_order \<Rightarrow> match_state" where
  "match_init b order = \<lparr>m_book = b, m_fills = [], m_remaining = e_qty order, m_cancellations = [], m_cases = [],
     m_sliced = [], m_fired = []\<rparr>"

definition match :: "order_book \<Rightarrow> effective_order \<Rightarrow> match_state" where
  "match b order = match_loop order 0 (match_init b order)"

end
