(* ===== verification/Match_Ops.thy ===== *)
theory Match_Ops
  imports Match_Engine
begin

text \<open>
  Execution of orders, stop orders and the public operations of \<^verbatim>\<open>book.ts\<close>.
\<close>

section \<open>Execution\<close>

record execution =
  x_fills :: "fill list"
  x_resting :: "resting_ref option"
  x_cancellations :: "cancelled_ref list"
  x_cases :: "surveillance_case list"

definition can_rest :: "effective_order \<Rightarrow> bool" where
  "can_rest order \<longleftrightarrow> e_price order \<noteq> None \<and> e_tif order \<in> {GTC, PO, MOC, GTD, GTT}"

definition execute :: "order_book \<Rightarrow> effective_order \<Rightarrow> nat \<Rightarrow> nat \<Rightarrow> order_book \<times> execution" where
  "execute b order sequence version =
     (let ms = (if \<not> e_aon order \<or> canFillAon (fillableQty b order) (e_qty order) True
                then match b order else match_init b order);
          x = \<lparr>x_fills = m_fills ms, x_resting = None, x_cancellations = m_cancellations ms, x_cases = m_cases ms\<rparr>
      in if 0 < m_remaining ms then
           (if can_rest order then
              (let (b1, ref) = rest (m_book ms) order (m_remaining ms) sequence version
               in (b1, x\<lparr>x_resting := Some ref\<rparr>))
            else
              (let (b1, n) = nextSequence (m_book ms)
               in (b1, x\<lparr>x_cancellations := m_cancellations ms @ [\<lparr>c_orderId = e_orderId order,
                    c_accountId = e_accountId order, c_remainingQty = m_remaining ms, c_sequence = n,
                    c_reason = (if e_price order = None then MarketRemainder else IocRemainder)\<rparr>]\<rparr>)))
         else (m_book ms, x))"

definition recordPrints :: "fill list \<Rightarrow> order_book \<Rightarrow> order_book" where
  "recordPrints fills b =
     (if fills = [] then b
      else let price = f_price (last fills); previous = b_lastTradePrice b
           in b\<lparr>b_previousTradePrice := previous, b_lastTradePrice := Some price,
                b_lastMove := Some (b_moves b, previous, price), b_moves := Suc (b_moves b)\<rparr>)"

text \<open>The steps every execution is followed by: prints, positions, and the reduce-only orders that no
  longer fit the position.\<close>

definition settle_fills :: "fill list \<Rightarrow> order_book \<Rightarrow> order_book \<times> cancelled_ref list" where
  "settle_fills fills b = cancelReduceOnlyDue (applyFillsToPosition fills (recordPrints fills b))"

section \<open>Triggers\<close>

definition movedThrough :: "order_side \<Rightarrow> amount \<Rightarrow> trigger_role \<Rightarrow> amount option \<Rightarrow> amount option \<Rightarrow> bool" where
  "movedThrough side stopPrice role previous nxt =
     (case nxt of None \<Rightarrow> False
      | Some n \<Rightarrow>
        if role = Legacy then (if side = BuySide then stopPrice \<le> n else n \<le> stopPrice)
        else (case previous of
            None \<Rightarrow>
              if side = SellSide \<and> role = TakeProfit then stopPrice \<le> n
              else if side = SellSide then n \<le> stopPrice
              else if role = TakeProfit then n \<le> stopPrice
              else stopPrice \<le> n
          | Some p \<Rightarrow>
              if n = p then False
              else if side = SellSide \<and> role = TakeProfit then p < n \<and> p \<le> stopPrice \<and> stopPrice \<le> n
              else if side = SellSide then n < p \<and> stopPrice \<le> p \<and> n \<le> stopPrice
              else if role = TakeProfit then n < p \<and> stopPrice \<le> p \<and> n \<le> stopPrice
              else p < n \<and> p \<le> stopPrice \<and> stopPrice \<le> n))"

definition isTriggered :: "order_book \<Rightarrow> order_side \<Rightarrow> amount \<Rightarrow> trigger_by \<Rightarrow> trigger_role \<Rightarrow> bool" where
  "isTriggered b side stopPrice by' role =
     (case b_lastMove b of None \<Rightarrow> False
      | Some (_, previous, nxt) \<Rightarrow> by' = ByLast \<and> movedThrough side stopPrice role previous (Some nxt))"

definition alreadyAtStop :: "order_book \<Rightarrow> order_side \<Rightarrow> amount \<Rightarrow> trigger_by \<Rightarrow> trigger_role \<Rightarrow> bool" where
  "alreadyAtStop b side stopPrice by' role =
     (case b_lastTradePrice b of None \<Rightarrow> False
      | Some lp \<Rightarrow>
          if by' \<noteq> ByLast \<or> role = TakeProfit then False
          else if role = Legacy then (if side = BuySide then stopPrice \<le> lp else lp \<le> stopPrice)
          else lp = stopPrice)"

definition armedThrough :: "order_book \<Rightarrow> order_side \<Rightarrow> amount \<Rightarrow> trigger_by \<Rightarrow> trigger_role \<Rightarrow> bool" where
  "armedThrough b side stopPrice by' role =
     (case b_lastTradePrice b of None \<Rightarrow> False
      | Some lp \<Rightarrow>
          if by' \<noteq> ByLast then False
          else if role = TakeProfit then (if side = SellSide then stopPrice \<le> lp else lp \<le> stopPrice)
          else (if side = BuySide then stopPrice \<le> lp else lp \<le> stopPrice))"

definition legacyLevelTriggered :: "order_book \<Rightarrow> stop_order \<Rightarrow> bool" where
  "legacyLevelTriggered b s =
     (case b_lastTradePrice b of None \<Rightarrow> False
      | Some lp \<Rightarrow> st_triggerRole s = Legacy \<and> st_triggerBy s = ByLast
          \<and> (if st_side s = BuySide then st_stopPrice s \<le> lp else lp \<le> st_stopPrice s))"

definition activationOrder :: "stop_order \<Rightarrow> engine_order" where
  "activationOrder s = \<lparr>o_orderId = st_orderId s, o_accountId = st_accountId s,
     o_type = (if st_limit s then Limit else Market), o_side = st_side s, o_qty = st_qty s,
     o_price = (if st_limit s then st_price s else None), o_stopPrice = None, o_tif = st_tif s,
     o_sessionId = None, o_expireAt = None, o_ocoSiblingId = st_ocoSiblingId s, o_reduceOnly = st_reduceOnly s,
     o_triggerRole = None, o_triggerBy = None, o_instrument = None, o_positionQty = None, o_displayQty = None,
     o_iceberg = False, o_trail = None, o_mark = None, o_minQty = st_minQty s, o_aon = st_aon s, o_peg = False,
     o_midpoint = False, o_relative = False, o_reference = None, o_offset = None, o_auction = False,
     o_benchmark = False, o_collar = False, o_min = None, o_max = None, o_minNotional = None, o_spread = False\<rparr>"

definition stop_effective :: "stop_order \<Rightarrow> string option \<Rightarrow> effective_order" where
  "stop_effective s expireAt = \<lparr>e_orderId = st_orderId s, e_accountId = st_accountId s, e_side = st_side s, e_qty = st_qty s,
     e_price = (if st_limit s then st_price s else None), e_tif = st_tif s, e_ocoSiblingId = st_ocoSiblingId s,
     e_expireAt = expireAt, e_sessionId = st_sessionId s, e_reduceOnly = st_reduceOnly s, e_displayQty = None,
     e_minQty = st_minQty s, e_aon = st_aon s\<rparr>"

definition refused_trigger :: "stop_order \<Rightarrow> reject_code \<Rightarrow> order_book \<Rightarrow> order_book \<times> trigger_outcome" where
  "refused_trigger s code b =
     (let (b', n) = nextSequence b
      in (b', \<lparr>t_orderId = st_orderId s, t_trigger = None, t_sequence = n, t_fills = [], t_resting = None,
           t_cancellations = [\<lparr>c_orderId = st_orderId s, c_accountId = st_accountId s, c_remainingQty = st_qty s,
             c_sequence = n, c_reason = TriggerRejected\<rparr>],
           t_rejected = Some code, t_cases = []\<rparr>))"

definition activate :: "match_env \<Rightarrow> order_book \<Rightarrow> stop_order \<Rightarrow> order_book \<times> trigger_outcome" where
  "activate env b s =
     (let effective = stop_effective s (st_expireAt s) in
      case checkViability b effective of
        Some code \<Rightarrow> refused_trigger s code b
      | None \<Rightarrow>
          (case option_guard env b (activationOrder s) of
             Some code \<Rightarrow> refused_trigger s code b
           | None \<Rightarrow>
               (let (b1, sequence) = nextSequence b;
                    (b2, x) = execute b1 effective sequence (st_version s);
                    (b3, reduceCancels) = settle_fills (x_fills x) b2;
                    (b4, ocoCancels) = cancelOcoSiblings b3 (x_fills x) (st_orderId s, st_ocoSiblingId s, st_limit s)
                in (b4, \<lparr>t_orderId = st_orderId s, t_trigger = None, t_sequence = sequence, t_fills = x_fills x,
                      t_resting = x_resting x, t_cancellations = x_cancellations x @ reduceCancels @ ocoCancels,
                      t_rejected = None, t_cases = x_cases x\<rparr>))))"

definition triggerFact :: "trigger_by \<Rightarrow> amount \<Rightarrow> amount \<Rightarrow> trigger_fact" where
  "triggerFact by' stopPrice reference = \<lparr>tf_by = by', tf_stopPrice = stopPrice, tf_reference = reference\<rparr>"

definition fire :: "match_env \<Rightarrow> order_book \<Rightarrow> stop_order \<Rightarrow> amount \<Rightarrow> order_book \<times> trigger_outcome" where
  "fire env b s reference =
     (let (b', t) = activate env b s
      in (b', t\<lparr>t_trigger := Some (triggerFact (st_triggerBy s) (st_stopPrice s) reference)\<rparr>))"

text \<open>The last trade price where the code has just tested that there is one.\<close>

definition last_trade :: "order_book \<Rightarrow> amount" where
  "last_trade b = (case b_lastTradePrice b of Some p \<Rightarrow> p | None \<Rightarrow> 0)"

subsection \<open>Stops only ever leave\<close>

text \<open>What identifies a stop and its trigger, over the stops of a book, and what a book remembers of prints.\<close>

definition stop_key :: "stop_order \<Rightarrow> string \<times> order_side \<times> amount \<times> trigger_by \<times> trigger_role" where
  "stop_key s = (st_orderId s, st_side s, st_stopPrice s, st_triggerBy s, st_triggerRole s)"

abbreviation stop_keys :: "order_book \<Rightarrow> (string \<times> order_side \<times> amount \<times> trigger_by \<times> trigger_role) multiset" where
  "stop_keys b \<equiv> image_mset stop_key (mset (b_stops b))"

definition prints_of :: "order_book \<Rightarrow> amount option \<times> (nat \<times> amount option \<times> amount) option \<times> nat" where
  "prints_of b = (b_lastTradePrice b, b_lastMove b, b_moves b)"

text \<open>A step that may take stops out, adds none, changes no trigger and prints nothing.\<close>

definition quiet :: "order_book \<Rightarrow> order_book \<Rightarrow> bool" where
  "quiet b b' \<longleftrightarrow> stop_keys b' \<subseteq># stop_keys b \<and> prints_of b' = prints_of b"

lemma quiet_refl [simp]: "quiet b b"
  by (simp add: quiet_def)

lemma quiet_trans: "quiet b c \<Longrightarrow> quiet c d \<Longrightarrow> quiet b d"
  using subset_mset.order_trans by (auto simp: quiet_def)

lemma quiet_same: "b_stops b' = b_stops b \<Longrightarrow> prints_of b' = prints_of b \<Longrightarrow> quiet b b'"
  by (simp add: quiet_def)

lemma mset_splice_out: "mset (splice_out k xs) \<subseteq># mset xs"
proof (cases "k < length xs")
  case True
  then have "mset xs = mset (take k xs @ xs ! k # drop (Suc k) xs)" using id_take_nth_drop [of k xs] by simp
  then show ?thesis by (simp add: splice_out_def)
qed (simp add: splice_out_def)

lemma stops_simps [simp]:
  "b_stops (set_levels s ls b) = b_stops b" "b_stops (upd_resting i f b) = b_stops b"
  "b_stops (removeResting b r) = b_stops b" "b_stops (drop_head s k mk b) = b_stops b"
  "b_stops (rotate_level s k mk b) = b_stops b" "b_stops (bump b) = b_stops b"
  "b_stops (recordPrints fs b) = b_stops b" "b_stops (addPosition a d b) = b_stops b"
  "b_stops (add_oco_member i b) = b_stops b" "b_stops (fst (rest b order rem n v)) = b_stops b"
  "b_stops (take_stop k b) = splice_out k (b_stops b)" "b_stops (rememberAccepted i b) = b_stops b"
  by (simp_all add: set_levels_def upd_resting_def removeResting_def drop_head_def rotate_level_def bump_def
      recordPrints_def addPosition_def add_oco_member_def rest_def take_stop_def rememberAccepted_def Let_def case_prod_beta)

lemma prints_simps [simp]:
  "prints_of (set_levels s ls b) = prints_of b" "prints_of (upd_resting i f b) = prints_of b"
  "prints_of (removeResting b r) = prints_of b" "prints_of (drop_head s k mk b) = prints_of b"
  "prints_of (rotate_level s k mk b) = prints_of b" "prints_of (bump b) = prints_of b" "prints_of (addPosition a d b) = prints_of b"
  "prints_of (add_oco_member i b) = prints_of b" "prints_of (fst (rest b order rem n v)) = prints_of b"
  "prints_of (take_stop k b) = prints_of b" "prints_of (upd_stop i g b) = prints_of b"
  "prints_of (b\<lparr>b_surveillanceCases := cs\<rparr>) = prints_of b"
  by (simp_all add: prints_of_def set_levels_def upd_resting_def upd_stop_def removeResting_def drop_head_def rotate_level_def bump_def
      addPosition_def add_oco_member_def rest_def take_stop_def Let_def case_prod_beta split: option.splits)

lemma stops_applyFills [simp]: "b_stops (applyFillsToPosition fs b) = b_stops b" "prints_of (applyFillsToPosition fs b) = prints_of b"
  unfolding applyFillsToPosition_def by (induction fs arbitrary: b) simp_all

lemma quiet_unlink: "quiet b (upd_stop i (\<lambda>s. s\<lparr>st_ocoSiblingId := None\<rparr>) b)"
proof -
  have "map stop_key (xs[k := (xs ! k)\<lparr>st_ocoSiblingId := None\<rparr>]) = map stop_key xs" for k xs
    by (cases "k < length xs") (simp_all add: map_update stop_key_def list_update_same_conv list_update_beyond)
  then have "stop_keys (upd_stop i (\<lambda>s. s\<lparr>st_ocoSiblingId := None\<rparr>) b) = stop_keys b"
    unfolding upd_stop_def by (auto split: option.splits simp flip: mset_map)
  then show ?thesis by (simp add: quiet_def)
qed

lemma quiet_pull: "quiet b (fst (pull reason b i))"
  by (auto simp: pull_def Let_def nextSequence_eq quiet_def image_mset_subseteq_mono mset_splice_out split: option.splits)

lemma quiet_pull_all: "quiet b (fst (pull_all reason b is))"
proof (induction "is" arbitrary: b)
  case (Cons i "is")
  then show ?case using quiet_trans [OF quiet_pull [of b reason i]] by (simp add: Let_def case_prod_beta)
qed simp

lemma quiet_pullOcoLink: "quiet (fst st) (fst (pullOcoLink i inc st))"
proof -
  obtain b fired cs where st: "st = (b, fired, cs)" by (cases st) auto
  have clear: "quiet b (clearOcoLink i b1)" if "quiet b b1" for b1
    using quiet_trans [OF that] quiet_trans [OF quiet_same quiet_unlink, of "upd_resting i (\<lambda>r. r\<lparr>r_ocoSiblingId := None\<rparr>) b1" b1]
    by (simp add: clearOcoLink_def)
  have "quiet b1 (add_oco_member sib b1)" for b1 sib by (rule quiet_same) simp_all
  then have "quiet b (add_oco_member sib (fst (pull OcoSiblingFilled b sib)))" for sib using quiet_trans [OF quiet_pull] by blast
  then show ?thesis
    using clear quiet_pull [of b OcoSiblingFilled] unfolding st
    by (auto simp: pullOcoLink_def Let_def pullOcoSibling_def split: option.splits prod.splits) (metis fst_conv)+
qed

lemma quiet_cancelOcoSiblings: "quiet b (fst (cancelOcoSiblings b fills inc))"
proof -
  have "quiet (fst st) (fst (foldl (\<lambda>st f. pullOcoLink (f_takerOrderId f) inc (pullOcoLink (f_makerOrderId f) inc st)) st fills))" for st
  proof (induction fills arbitrary: st)
    case (Cons f fills)
    show ?case using quiet_trans [OF quiet_trans [OF quiet_pullOcoLink quiet_pullOcoLink] Cons] by simp
  qed simp
  from this [of "(b, [], [])"] show ?thesis
    using quiet_pullOcoLink [of "(b, [], [])" "fst inc" inc] by (auto simp: cancelOcoSiblings_def Let_def case_prod_beta)
qed

lemma settle_fills_prints:
  "stop_keys (fst (settle_fills fs b)) \<subseteq># stop_keys b \<and> prints_of (fst (settle_fills fs b)) = prints_of (recordPrints fs b)"
  using quiet_pull_all [of "applyFillsToPosition fs (recordPrints fs b)" WouldIncreasePositionCancel]
  by (simp add: settle_fills_def cancelReduceOnlyDue_def quiet_def)

text \<open>What one pass of the match loop keeps, the whole loop keeps.\<close>

lemma match_loop_keeps:
  assumes "P i ms" "\<And>i ms ms' nxt. P i ms \<Longrightarrow> match_iter order i ms = (ms', nxt) \<Longrightarrow> P (if nxt = Advance then Suc i else i) ms'"
  shows "\<exists>j. P j (match_loop order i ms)"
  using assms
proof (induction order i ms rule: match_loop.induct)
  case (1 order i ms)
  obtain ms' nxt where it: "match_iter order i ms = (ms', nxt)" by fastforce
  have P: "P (if nxt = Advance then Suc i else i) ms'" using 1(4) [OF 1(3) it] .
  show ?case
  proof (cases nxt)
    case Halt
    then show ?thesis using P it by (auto simp: match_loop.simps [of order i ms] Let_def)
  next
    case Again
    have "\<exists>j. P j (match_loop order i (fst (match_iter order i ms)))"
      by (rule 1(1)) (use it Again P 1(4) in auto)
    then show ?thesis using it Again by (simp add: match_loop.simps [of order i ms] Let_def)
  next
    case Advance
    have "\<exists>j. P j (match_loop order (Suc i) (fst (match_iter order i ms)))"
      by (rule 1(2)) (use it Advance P 1(4) in auto)
    then show ?thesis using it Advance by (simp add: match_loop.simps [of order i ms] Let_def)
  qed
qed

lemma match_loop_invariant:
  assumes "P ms" "\<And>i ms ms' nxt. P ms \<Longrightarrow> match_iter order i ms = (ms', nxt) \<Longrightarrow> P ms'"
  shows "P (match_loop order i ms)"
  using match_loop_keeps [where P = "\<lambda>i ms. P ms"] assms by blast

lemma quiet_trade: "quiet (m_book ms) (m_book (trade order maker qty ms))"
proof -
  let ?b = "upd_resting (r_orderId maker) (take_qty qty) (bump (m_book ms))"
  let ?s = "pullOcoLink (r_orderId maker) (incoming_of order) (?b, m_fired ms, m_cancellations ms)"
  have "m_book (trade order maker qty ms) = fst (pullOcoLink (e_orderId order) (incoming_of order) ?s)"
    by (simp add: trade_def Let_def nextSequence_eq case_prod_beta)
  moreover have "quiet (m_book ms) ?b" by (rule quiet_same) simp_all
  ultimately show ?thesis
    using quiet_trans [OF quiet_trans [OF _ quiet_pullOcoLink] quiet_pullOcoLink, of "m_book ms" "(?b, m_fired ms, m_cancellations ms)"] by simp
qed

lemma quiet_settle_maker: "quiet (m_book ms) (m_book (settle_maker s i maker ms))"
  by (rule quiet_same) (simp_all add: settle_maker_def pullReduceOnlyMaker_def Let_def nextSequence_eq split: option.splits)

lemma quiet_match_maker:
  assumes "match_maker order i maker ms = (ms', nxt)"
  shows "quiet (m_book ms) (m_book ms')"
  using assms
proof (cases rule: match_maker_cases)
  case self
  then show ?thesis by (intro quiet_same) (simp_all add: expire_self_trade_def Let_def nextSequence_eq)
next
  case pulled
  then show ?thesis by (intro quiet_same) (simp_all add: pullReduceOnlyMaker_def Let_def nextSequence_eq)
next
  case (traded qty)
  then show ?thesis using quiet_trans [OF quiet_trade quiet_settle_maker] by simp
qed simp_all

lemma quiet_match_iter:
  assumes "match_iter order i ms = (ms', nxt)"
  shows "quiet (m_book ms) (m_book ms')"
  using assms
proof (cases rule: match_iter_cases)
  case gone
  then show ?thesis by (intro quiet_same) simp_all
qed (simp_all add: quiet_match_maker)

lemma quiet_match: "quiet b (m_book (match b order))"
proof -
  have "quiet b (m_book (match_loop order 0 (match_init b order)))"
    by (rule match_loop_invariant [where P = "\<lambda>ms. quiet b (m_book ms)"])
      (auto simp: match_init_def dest: quiet_match_iter intro: quiet_trans)
  then show ?thesis by (simp add: match_def)
qed

lemma quiet_execute: "quiet b (fst (execute b order n v))"
proof -
  let ?ms = "if \<not> e_aon order \<or> canFillAon (fillableQty b order) (e_qty order) True then match b order else match_init b order"
  have "quiet b (m_book ?ms)" using quiet_match [of b order] by (simp add: match_init_def)
  moreover have "quiet (m_book ?ms) (fst (execute b order n v))"
    by (rule quiet_same) (simp_all add: execute_def Let_def nextSequence_eq case_prod_beta)
  ultimately show ?thesis by (rule quiet_trans)
qed

text \<open>A stop that fires takes no other stop in; it prints at most once, and then with a new stamp.\<close>

lemma activate_prints:
  "stop_keys (fst (activate env b s)) \<subseteq># stop_keys b \<and> (\<exists>fs. prints_of (fst (activate env b s)) = prints_of (recordPrints fs b))"
proof -
  let ?x = "execute (bump b) (stop_effective s (st_expireAt s)) (Suc (b_sequence b)) (st_version s)"
  let ?f = "settle_fills (x_fills (snd ?x)) (fst ?x)"
  have x: "stop_keys (fst ?x) \<subseteq># stop_keys b" "prints_of (fst ?x) = prints_of b"
    using quiet_execute [of "bump b"] by (simp_all add: quiet_def)
  have r: "prints_of (recordPrints fs b1) = prints_of (recordPrints fs b)" if "prints_of b1 = prints_of b" for fs b1
    using that by (simp add: recordPrints_def prints_of_def Let_def)
  have c: "stop_keys (fst (cancelOcoSiblings (fst ?f) (x_fills (snd ?x)) inc)) \<subseteq># stop_keys b"
    "prints_of (fst (cancelOcoSiblings (fst ?f) (x_fills (snd ?x)) inc)) = prints_of (recordPrints (x_fills (snd ?x)) b)" for inc
    using quiet_cancelOcoSiblings [of "fst ?f" "x_fills (snd ?x)" inc] settle_fills_prints [of "x_fills (snd ?x)" "fst ?x"] x r [OF x(2)]
    by (auto simp: quiet_def intro: subset_mset.order_trans)
  have n: "recordPrints [] b = b" by (simp add: recordPrints_def)
  show ?thesis
    using c n by (auto simp: activate_def refused_trigger_def Let_def nextSequence_eq case_prod_beta split: option.splits intro: exI [of _ "[]"])
qed

lemma fire_prints:
  "stop_keys (fst (fire env b s p)) \<subseteq># stop_keys b" "\<exists>fs. prints_of (fst (fire env b s p)) = prints_of (recordPrints fs b)"
  "t_orderId (snd (fire env b s p)) = st_orderId s"
proof -
  have "t_orderId (snd (activate env b s)) = st_orderId s"
    by (simp add: activate_def refused_trigger_def Let_def nextSequence_eq case_prod_beta split: option.splits)
  then show "stop_keys (fst (fire env b s p)) \<subseteq># stop_keys b" "\<exists>fs. prints_of (fst (fire env b s p)) = prints_of (recordPrints fs b)"
    "t_orderId (snd (fire env b s p)) = st_orderId s"
    using activate_prints [of env b s] by (simp_all add: fire_def Let_def case_prod_beta)
qed

lemma length_fire: "length (b_stops (fst (fire env b s p))) \<le> length (b_stops b)"
  using size_mset_mono [OF fire_prints(1) [of env b s p]] by simp

section \<open>Draining the stops\<close>

text \<open>Each round takes one stop out and fires it, until no stop is reached.\<close>

function drainLegacyStops :: "match_env \<Rightarrow> order_book \<Rightarrow> trigger_outcome list \<Rightarrow> order_book \<times> trigger_outcome list" where
  "drainLegacyStops env b outcomes =
     (case find_index (legacyLevelTriggered b) (b_stops b) of
        None \<Rightarrow> (b, outcomes)
      | Some k \<Rightarrow>
          let r = fire env (take_stop k b) (b_stops b ! k) (last_trade b)
          in drainLegacyStops env (fst r) (outcomes @ [snd r]))"
  by pat_completeness auto
termination
proof (relation "measure (\<lambda>(env, b, outcomes). length (b_stops b))")
  fix env b and outcomes :: "trigger_outcome list" and k r
  assume k: "find_index (legacyLevelTriggered b) (b_stops b) = Some k"
    and r: "r = fire env (take_stop k b) (b_stops b ! k) (last_trade b)"
  have "k < length (b_stops b)" using find_index_Some [OF k] by simp
  then show "((env, fst r, outcomes @ [snd r]), env, b, outcomes) \<in> measure (\<lambda>(env, b, outcomes). length (b_stops b))"
    using length_fire [of env "take_stop k b" "b_stops b ! k" "last_trade b"] by (simp add: r length_splice_out)
qed simp

declare drainLegacyStops.simps [simp del]

fun fire_all :: "match_env \<Rightarrow> order_book \<Rightarrow> stop_order list \<Rightarrow> amount \<Rightarrow> trigger_outcome list \<Rightarrow> order_book \<times> trigger_outcome list" where
  "fire_all env b [] reference outcomes = (b, outcomes)"
| "fire_all env b (s # ss) reference outcomes =
     (let r = fire env b s reference in fire_all env (fst r) ss reference (outcomes @ [snd r]))"

text \<open>The source collects the batch from the end of the stops and reverses it, so the batch is in
  the order of the stops.\<close>

definition moved_stop :: "amount option \<Rightarrow> amount \<Rightarrow> stop_order \<Rightarrow> bool" where
  "moved_stop previous nxt s \<longleftrightarrow> st_triggerBy s = ByLast \<and> st_triggerRole s \<in> {TakeProfit, StopLoss}
     \<and> movedThrough (st_side s) (st_stopPrice s) (st_triggerRole s) previous (Some nxt)"

lemma length_drainLegacyStops: "length (b_stops (fst (drainLegacyStops env b outs))) \<le> length (b_stops b)"
proof (induction env b outs rule: drainLegacyStops.induct)
  case (1 env b outs)
  show ?case
  proof (cases "find_index (legacyLevelTriggered b) (b_stops b)")
    case None
    then show ?thesis by (simp add: drainLegacyStops.simps [of env b])
  next
    case (Some k)
    then have "k < length (b_stops b)" using find_index_Some by blast
    then show ?thesis
      using 1 [OF Some refl] length_fire [of env "take_stop k b" "b_stops b ! k" "last_trade b"]
      by (simp add: drainLegacyStops.simps [of env b] Some Let_def length_splice_out)
  qed
qed

lemma length_fire_all: "length (b_stops (fst (fire_all env b ss p outs))) \<le> length (b_stops b)"
proof (induction ss arbitrary: b outs)
  case (Cons s ss)
  then show ?case using length_fire [of env b s p] order.trans by (fastforce simp: Let_def)
qed simp

function drain_moves :: "match_env \<Rightarrow> order_book \<Rightarrow> trigger_outcome list \<Rightarrow> order_book \<times> trigger_outcome list" where
  "drain_moves env b outcomes =
     (case b_lastMove b of
        None \<Rightarrow> (b, outcomes)
      | Some (stamp, previous, nxt) \<Rightarrow>
          let batch = filter (moved_stop previous nxt) (b_stops b) in
          if batch = [] then (b, outcomes)
          else
            let b1 = b\<lparr>b_stops := filter (\<lambda>s. \<not> moved_stop previous nxt s) (b_stops b)\<rparr>;
                r = fire_all env b1 batch nxt outcomes
            in if map_option fst (b_lastMove (fst r)) = Some stamp then r
               else let l = drainLegacyStops env (fst r) (snd r) in drain_moves env (fst l) (snd l))"
  by pat_completeness auto
termination
proof (relation "measure (\<lambda>(env, b, outcomes). length (b_stops b))")
  fix env b and outcomes :: "trigger_outcome list" and mv stamp pn previous nxt batch b1 r l
  assume batch: "batch = filter (moved_stop previous nxt) (b_stops b)" "batch \<noteq> []"
    and b1: "b1 = b\<lparr>b_stops := filter (\<lambda>s. \<not> moved_stop previous nxt s) (b_stops b)\<rparr>"
    and r: "r = fire_all env b1 batch nxt outcomes" and l: "l = drainLegacyStops env (fst r) (snd r)"
  have "length (b_stops b1) + length batch = length (b_stops b)"
    using sum_length_filter_compl [of "moved_stop previous nxt" "b_stops b"] by (simp add: batch b1)
  moreover have "0 < length batch" using batch(2) by simp
  ultimately show "((env, fst l, snd l), env, b, outcomes) \<in> measure (\<lambda>(env, b, outcomes). length (b_stops b))"
    using length_fire_all [of env b1 batch nxt outcomes] length_drainLegacyStops [of env "fst r" "snd r"]
    by (simp add: r l case_prod_beta del: length_greater_0_conv)
qed simp

declare drain_moves.simps [simp del]

definition drainStops :: "match_env \<Rightarrow> order_book \<Rightarrow> order_book \<times> trigger_outcome list" where
  "drainStops env b = (let l = drainLegacyStops env b [] in drain_moves env (fst l) (snd l))"

function drainReference ::
  "match_env \<Rightarrow> trigger_by \<Rightarrow> amount option \<Rightarrow> amount \<Rightarrow> order_book \<Rightarrow> trigger_outcome list \<Rightarrow> order_book \<times> trigger_outcome list" where
  "drainReference env source previous nxt b outcomes =
     (case find_index (\<lambda>s. st_triggerBy s = source
         \<and> movedThrough (st_side s) (st_stopPrice s) (st_triggerRole s) previous (Some nxt)) (b_stops b) of
        None \<Rightarrow> (b, outcomes)
      | Some k \<Rightarrow>
          let r = fire env (take_stop k b) (b_stops b ! k) nxt
          in drainReference env source previous nxt (fst r) (outcomes @ [snd r]))"
  by pat_completeness auto
termination
proof (relation "measure (\<lambda>(env, source, previous, nxt, b, outcomes). length (b_stops b))")
  fix env source previous nxt b and outcomes :: "trigger_outcome list" and k r
  assume k: "find_index (\<lambda>s. st_triggerBy s = source
         \<and> movedThrough (st_side s) (st_stopPrice s) (st_triggerRole s) previous (Some nxt)) (b_stops b) = Some k"
    and r: "r = fire env (take_stop k b) (b_stops b ! k) nxt"
  have "k < length (b_stops b)" using find_index_Some [OF k] by simp
  then show "((env, source, previous, nxt, fst r, outcomes @ [snd r]), env, source, previous, nxt, b, outcomes)
      \<in> measure (\<lambda>(env, source, previous, nxt, b, outcomes). length (b_stops b))"
    using length_fire [of env "take_stop k b" "b_stops b ! k" nxt] by (simp add: r length_splice_out)
qed simp

declare drainReference.simps [simp del]

end
