(* ===== verification/Match_Api.thy ===== *)
theory Match_Api
  imports Match_Ops
begin

text \<open>
  The public operations of \<open>OrderBook\<close> in \<^verbatim>\<open>book.ts\<close>: validation, \<open>submit\<close>, \<open>cancel\<close>, mass
  cancels, \<open>amend\<close>, expiry, trigger references and the read methods.
\<close>

section \<open>Validation\<close>

fun order_type_name :: "order_type \<Rightarrow> string" where
  "order_type_name Market = ''market''"
| "order_type_name Limit = ''limit''"
| "order_type_name Stop = ''stop''"
| "order_type_name StopLimit = ''stop_limit''"

definition OPTION_TRIGGER_TYPES :: "string list" where
  "OPTION_TRIGGER_TYPES = [''stop'', ''stop_limit'', ''stop_market'', ''take_profit'', ''take_limit'', ''take_market'', ''trailing_stop'']"

definition readTriggerBy :: "engine_order \<Rightarrow> trigger_by" where
  "readTriggerBy order = (case o_triggerBy order of Some ByMark \<Rightarrow> ByMark | Some ByIndex \<Rightarrow> ByIndex | _ \<Rightarrow> ByLast)"

definition readTriggerRole :: "engine_order \<Rightarrow> trigger_role" where
  "readTriggerRole order = (case o_triggerRole order of Some TakeProfit \<Rightarrow> TakeProfit | Some StopLoss \<Rightarrow> StopLoss | _ \<Rightarrow> Legacy)"

definition is_stop_type :: "order_type \<Rightarrow> bool" where
  "is_stop_type t \<longleftrightarrow> t = Stop \<or> t = StopLimit"

definition is_priced_type :: "order_type \<Rightarrow> bool" where
  "is_priced_type t \<longleftrightarrow> t = Limit \<or> t = StopLimit"

text \<open>A check that refuses with a code, and the first refusal of a sequence of checks.\<close>

definition refuse_if :: "bool \<Rightarrow> reject_code \<Rightarrow> reject_code option" where
  "refuse_if c code = (if c then Some code else None)"

lemma refuse_if_None [simp]: "refuse_if c code = None \<longleftrightarrow> \<not> c"
  by (simp add: refuse_if_def)

primrec first_refusal :: "reject_code option list \<Rightarrow> reject_code option" where
  "first_refusal [] = None"
| "first_refusal (r # rs) = or_else r (first_refusal rs)"

lemma first_refusal_None [simp]: "first_refusal rs = None \<longleftrightarrow> (\<forall>r \<in> set rs. r = None)"
  by (induction rs) auto

definition check_sibling :: "order_book \<Rightarrow> engine_order \<Rightarrow> reject_code option" where
  "check_sibling b order =
     (case o_ocoSiblingId order of
        None \<Rightarrow> None
      | Some sibling \<Rightarrow>
          if sibling = o_orderId order \<or> sibling = [] then Some InvalidOcoSibling
          else if isOcoTerminal b sibling then Some OcoSiblingTerminal
          else None)"

definition check_price :: "engine_order \<Rightarrow> reject_code option" where
  "check_price order =
     (if is_priced_type (o_type order) then
        (case o_price order of
           None \<Rightarrow> Some MissingPrice
         | Some p \<Rightarrow> if p \<le> 0 \<and> \<not> o_spread order then Some InvalidPrice else None)
      else if o_price order \<noteq> None then Some UnexpectedPrice else None)"

definition check_stop_price :: "engine_order \<Rightarrow> reject_code option" where
  "check_stop_price order =
     (if is_stop_type (o_type order) then
        (case o_stopPrice order of
           None \<Rightarrow> Some MissingStopPrice
         | Some p \<Rightarrow> if p \<le> 0 then Some InvalidPrice else None)
      else if o_stopPrice order \<noteq> None then Some UnexpectedStopPrice else None)"

definition check_take_profit :: "order_book \<Rightarrow> engine_order \<Rightarrow> reject_code option" where
  "check_take_profit b order =
     (case o_stopPrice order of
        None \<Rightarrow> None
      | Some sp \<Rightarrow>
          if o_triggerRole order = Some TakeProfit \<and> is_stop_type (o_type order) then
            (case b_lastTradePrice b of
               None \<Rightarrow> Some MissingLastPrice
             | Some lp \<Rightarrow>
                 if o_side order = SellSide \<and> sp \<le> lp then Some TriggerWrongSide
                 else if o_side order = BuySide \<and> lp \<le> sp then Some TriggerWrongSide
                 else None)
          else None)"

definition check_expiry :: "match_env \<Rightarrow> engine_order \<Rightarrow> int option \<Rightarrow> reject_code option" where
  "check_expiry env order now' =
     (if o_tif order = GTD \<or> o_tif order = GTT then
        (if o_type order = Market then Some InvalidTif
         else if \<not> truthy (o_expireAt order) then Some MissingExpireAt
         else (case date_parse env (the (o_expireAt order)) of
             None \<Rightarrow> Some MissingExpireAt
           | Some expireMs \<Rightarrow>
               (case now' of
                  None \<Rightarrow> Some EngineClockMissing
                | Some t \<Rightarrow> if expireMs \<le> t then Some AlreadyExpired else None)))
      else None)"

definition check_iceberg :: "engine_order \<Rightarrow> reject_code option" where
  "check_iceberg order =
     (if wantsIceberg order then
        or_else (icebergDisplayRefuse (o_qty order) (case o_displayQty order of None \<Rightarrow> None | Some d \<Rightarrow> d))
          (refuse_if (o_price order = None) MissingPrice)
      else None)"

definition validate :: "match_env \<Rightarrow> order_book \<Rightarrow> engine_order \<Rightarrow> int option \<Rightarrow> reject_code option" where
  "validate env b order now' =
     first_refusal
       [refuse_if (o_spread order \<and> \<not> spread_hitch env) SpreadOrderUnsupported,
        refuse_if (o_instrument order \<noteq> None \<and> order_type_name (o_type order) \<in> set OPTION_TRIGGER_TYPES) OptionTriggerUnsupported,
        stpIdentityRefuse (o_accountId order),
        refuse_if (o_qty order \<le> 0) InvalidQty,
        refuse_if (hasAccepted b (o_orderId order) \<or> isLive b (o_orderId order)) DuplicateOrderId,
        check_sibling b order,
        check_price order,
        check_stop_price order,
        check_take_profit b order,
        refuse_if (o_tif order = PO \<and> \<not> is_priced_type (o_type order)) InvalidTif,
        refuse_if (o_tif order = MOC \<and> \<not> is_priced_type (o_type order)) InvalidTif,
        check_expiry env order now',
        refuse_if (o_reduceOnly order \<and> incomingReduceOnlyRefused b order) WouldIncreasePosition,
        check_iceberg order,
        minQtyRefuse (o_qty order) (readMinQty (o_minQty order)),
        aonIcebergRefuse (readAon order) (wantsIceberg order),
        pegIntentRefuse order,
        auctionIntentRefuse order,
        collarIntentRefuse order,
        minNotionalIntentRefuse order]"

section \<open>Expiry\<close>

definition is_due :: "match_env \<Rightarrow> int \<Rightarrow> string option \<Rightarrow> bool" where
  "is_due env t expireAt \<longleftrightarrow> truthy expireAt \<and>
     (case date_parse env (the expireAt) of None \<Rightarrow> False | Some ms \<Rightarrow> ms \<le> t)"

definition dueExpiry :: "match_env \<Rightarrow> order_book \<Rightarrow> int \<Rightarrow> string list" where
  "dueExpiry env b t = sort (map r_orderId (filter (\<lambda>r. is_due env t (r_expireAt r)) (resting_rows b))
     @ map st_orderId (filter (\<lambda>s. is_due env t (st_expireAt s)) (b_stops b)))"

definition expireDue :: "match_env \<Rightarrow> order_book \<Rightarrow> int \<Rightarrow> order_book \<times> cancelled_ref list" where
  "expireDue env b t = pull_all Expired b (dueExpiry env b t)"

definition expire_first :: "match_env \<Rightarrow> order_book \<Rightarrow> int option \<Rightarrow> order_book \<times> cancelled_ref list" where
  "expire_first env b now' = (case now' of None \<Rightarrow> (b, []) | Some t \<Rightarrow> expireDue env b t)"

section \<open>Submission\<close>

definition trailPeak :: "amount option \<Rightarrow> amount option \<Rightarrow> amount option \<times> amount option" where
  "trailPeak tr mark =
     (case (tr, mark) of
        (Some t, Some m) \<Rightarrow> if 0 < t \<and> 0 < m then (Some t, Some m) else (None, None)
      | _ \<Rightarrow> (None, None))"

definition toEffective :: "engine_order \<Rightarrow> effective_order" where
  "toEffective order = \<lparr>e_orderId = o_orderId order, e_accountId = o_accountId order, e_side = o_side order,
     e_qty = o_qty order, e_price = (if is_priced_type (o_type order) then o_price order else None), e_tif = o_tif order,
     e_ocoSiblingId = o_ocoSiblingId order, e_expireAt = o_expireAt order, e_sessionId = readSessionId (o_sessionId order),
     e_reduceOnly = o_reduceOnly order, e_displayQty = (case o_displayQty order of None \<Rightarrow> None | Some d \<Rightarrow> d),
     e_minQty = readMinQty (o_minQty order), e_aon = readAon order\<rparr>"

definition rejected :: "reject_code \<Rightarrow> submit_result" where
  "rejected code = \<lparr>s_accepted = False, s_sequence = None, s_fills = [], s_resting = None, s_rejected = Some code,
     s_cancellations = [], s_triggered = [], s_cases = []\<rparr>"

definition collectSurveillance :: "surveillance_case list \<Rightarrow> trigger_outcome list \<Rightarrow> surveillance_case list" where
  "collectSurveillance fromMatch triggered = fromMatch @ concat (map t_cases triggered)"

definition mk_stop :: "engine_order \<Rightarrow> nat \<Rightarrow> stop_order" where
  "mk_stop order sequence =
     (let walked = trailPeak (o_trail order) (o_mark order)
      in \<lparr>st_orderId = o_orderId order, st_accountId = o_accountId order, st_limit = (o_type order = StopLimit),
          st_side = o_side order, st_qty = o_qty order, st_price = o_price order,
          st_stopPrice = (case o_stopPrice order of Some p \<Rightarrow> p | None \<Rightarrow> 0), st_tif = o_tif order,
          st_sequence = sequence, st_version = 1, st_ocoSiblingId = o_ocoSiblingId order, st_expireAt = o_expireAt order,
          st_sessionId = readSessionId (o_sessionId order), st_reduceOnly = o_reduceOnly order,
          st_triggerBy = readTriggerBy order, st_triggerRole = readTriggerRole order,
          st_minQty = readMinQty (o_minQty order), st_aon = readAon order, st_trail = fst walked, st_peak = snd walked\<rparr>)"

text \<open>\<open>rememberAccepted\<close>, \<open>rememberOco\<close> and \<open>linkLiveSibling\<close>, in that order.\<close>

definition remember_order :: "engine_order \<Rightarrow> order_book \<Rightarrow> order_book" where
  "remember_order order b =
     linkLiveSibling (o_orderId order) (o_ocoSiblingId order)
       (rememberOco (o_orderId order) (o_ocoSiblingId order) (rememberAccepted (o_orderId order) b))"

definition submit_stop :: "order_book \<Rightarrow> engine_order \<Rightarrow> cancelled_ref list \<Rightarrow> order_book \<times> submit_result" where
  "submit_stop b order expired =
     (let (b1, displaced) = displaceReduceOnly b order;
          (b2, sequence) = nextSequence b1;
          stop = mk_stop order sequence;
          b3 = remember_order order (b2\<lparr>b_stops := b_stops b2 @ [stop]\<rparr>)
      in (b3, \<lparr>s_accepted = True, s_sequence = Some sequence, s_fills = [], s_resting = Some (stop_ref stop),
           s_rejected = None, s_cancellations = displaced @ expired, s_triggered = [], s_cases = []\<rparr>))"

definition submit_now ::
  "match_env \<Rightarrow> order_book \<Rightarrow> engine_order \<Rightarrow> cancelled_ref list \<Rightarrow> trigger_fact option \<Rightarrow> order_book \<times> submit_result" where
  "submit_now env b order expired arrival =
     (let effective = toEffective order in
      case checkViability b effective of
        Some code \<Rightarrow>
          (if e_tif effective = MOC \<and> code = MocWouldTake then rememberAccepted (o_orderId order) b else b, rejected code)
      | None \<Rightarrow>
          (let (b1, displaced) = displaceReduceOnly b order;
               (b2, sequence) = nextSequence b1;
               (b3, x) = execute b2 effective sequence 1;
               (b4, reduceCancels) = settle_fills (x_fills x) b3;
               b5 = remember_order order b4;
               (b6, ocoCancels) = cancelOcoSiblings b5 (x_fills x)
                 (o_orderId order, o_ocoSiblingId order, o_type order = StopLimit);
               (b7, triggered) = drainStops env b6
           in (b7\<lparr>b_lastMove := None\<rparr>,
               \<lparr>s_accepted = True, s_sequence = Some sequence, s_fills = x_fills x, s_resting = x_resting x, s_rejected = None,
                s_cancellations = displaced @ expired @ x_cancellations x @ reduceCancels @ ocoCancels,
                s_triggered = (case arrival of
                    Some a \<Rightarrow> \<lparr>t_orderId = o_orderId order, t_trigger = Some a, t_sequence = sequence, t_fills = [],
                      t_resting = None, t_cancellations = [], t_rejected = None, t_cases = []\<rparr> # triggered
                  | None \<Rightarrow> triggered),
                s_cases = collectSurveillance (x_cases x) triggered\<rparr>)))"

definition note_position :: "engine_order \<Rightarrow> order_book \<Rightarrow> order_book" where
  "note_position order b =
     (case o_positionQty order of None \<Rightarrow> b
      | Some q \<Rightarrow> b\<lparr>b_futuresPositions := AList.update (o_accountId order) q (b_futuresPositions b)\<rparr>)"

definition submit :: "match_env \<Rightarrow> order_book \<Rightarrow> engine_order \<Rightarrow> int option \<Rightarrow> order_book \<times> submit_result" where
  "submit env b incoming now' =
     (case pegIntentRefuse incoming of
        Some code \<Rightarrow> (b, rejected code)
      | None \<Rightarrow>
          let order = bindPegRelative incoming; b0 = note_position order b in
          case validate env b0 order now' of
            Some code \<Rightarrow> (b0, rejected code)
          | None \<Rightarrow>
              (let (b1, expired) = expire_first env b0 now';
                   isStop = is_stop_type (o_type order);
                   sp = (case o_stopPrice order of Some p \<Rightarrow> p | None \<Rightarrow> 0);
                   triggersNow = isStop \<and>
                     (isTriggered b1 (o_side order) sp (readTriggerBy order) (readTriggerRole order)
                      \<or> alreadyAtStop b1 (o_side order) sp (readTriggerBy order) (readTriggerRole order));
                   arrival = (if triggersNow then map_option (triggerFact (readTriggerBy order) sp) (b_lastTradePrice b1) else None)
               in if isStop \<and> \<not> triggersNow then submit_stop b1 order expired
                  else submit_now env b1 order expired arrival))"

definition preview :: "match_env \<Rightarrow> order_book \<Rightarrow> engine_order \<Rightarrow> submit_result" where
  "preview env b incoming =
     (case pegIntentRefuse incoming of
        Some code \<Rightarrow> rejected code
      | None \<Rightarrow>
          (case validate env b (bindPegRelative incoming) None of
             Some code \<Rightarrow> rejected code
           | None \<Rightarrow> \<lparr>s_accepted = True, s_sequence = None, s_fills = [], s_resting = None, s_rejected = None,
               s_cancellations = [], s_triggered = [], s_cases = []\<rparr>))"

section \<open>Cancellation\<close>

definition cancel :: "order_book \<Rightarrow> string \<Rightarrow> cancel_reason \<Rightarrow> order_book \<times> cancel_result" where
  "cancel b orderId reason =
     (case pull reason b orderId of
        (b1, Some c) \<Rightarrow> (forgetAccepted orderId b1,
          \<lparr>cr_cancelled = True, cr_orderId = orderId, cr_sequence = Some (c_sequence c), cr_cancellation = Some c\<rparr>)
      | (b1, None) \<Rightarrow> (b1, \<lparr>cr_cancelled = False, cr_orderId = orderId, cr_sequence = None, cr_cancellation = None\<rparr>))"

fun cancel_ids :: "order_book \<Rightarrow> cancel_reason \<Rightarrow> string list \<Rightarrow> order_book \<times> cancelled_ref list" where
  "cancel_ids b reason [] = (b, [])"
| "cancel_ids b reason (i # is) =
     (let (b1, r) = cancel b i reason; (b2, cs) = cancel_ids b1 reason is
      in (b2, (case cr_cancellation r of None \<Rightarrow> cs | Some c \<Rightarrow> c # cs)))"

definition live_owned_rows :: "order_book \<Rightarrow> live_owned list" where
  "live_owned_rows b =
     map (\<lambda>r. \<lparr>lo_orderId = r_orderId r, lo_accountId = r_accountId r, lo_sequence = r_sequence r, lo_side = r_side r\<rparr>) (resting_rows b)
     @ map (\<lambda>s. \<lparr>lo_orderId = st_orderId s, lo_accountId = st_accountId s, lo_sequence = st_sequence s, lo_side = st_side s\<rparr>) (b_stops b)"

definition cancelAccount :: "order_book \<Rightarrow> string \<Rightarrow> order_side option \<Rightarrow> order_book \<times> cancelled_ref list" where
  "cancelAccount b accountId side = cancel_ids b Requested (ownedOrderIds accountId (live_owned_rows b) side)"

definition live_session_rows :: "order_book \<Rightarrow> live_session list" where
  "live_session_rows b =
     map (\<lambda>r. \<lparr>ls_orderId = r_orderId r, ls_sessionId = r_sessionId r, ls_sequence = r_sequence r\<rparr>) (resting_rows b)
     @ map (\<lambda>s. \<lparr>ls_orderId = st_orderId s, ls_sessionId = st_sessionId s, ls_sequence = st_sequence s\<rparr>) (b_stops b)"

definition cancelSession :: "order_book \<Rightarrow> string \<Rightarrow> order_book \<times> cancelled_ref list" where
  "cancelSession b sessionId = cancel_ids b SessionDead (sessionOrderIds sessionId (live_session_rows b))"

section \<open>Amendment\<close>

definition refusedAmend :: "string \<Rightarrow> reject_code \<Rightarrow> amend_result" where
  "refusedAmend orderId code = \<lparr>ar_accepted = False, ar_orderId = orderId, ar_sequence = None, ar_version = None,
     ar_priority = None, ar_fills = [], ar_resting = None, ar_rejected = Some code, ar_cancellations = [],
     ar_triggered = [], ar_cases = []\<rparr>"

definition retained :: "resting_ref \<Rightarrow> amend_priority \<Rightarrow> amend_result" where
  "retained ref priority = \<lparr>ar_accepted = True, ar_orderId = rr_orderId ref, ar_sequence = Some (rr_sequence ref),
     ar_version = Some (rr_version ref), ar_priority = Some priority, ar_fills = [], ar_resting = Some ref,
     ar_rejected = None, ar_cancellations = [], ar_triggered = [], ar_cases = []\<rparr>"

definition amended_resting :: "resting_order \<Rightarrow> engine_amend \<Rightarrow> amount \<Rightarrow> time_in_force \<Rightarrow> resting_order" where
  "amended_resting r cmd qty tif =
     r\<lparr>r_expireAt := (case a_expireAt cmd of None \<Rightarrow> r_expireAt r | Some x \<Rightarrow> Some x),
       r_postOnly := (r_postOnly r \<or> tif = PO), r_remaining := qty, r_version := r_version r + 1\<rparr>"

definition amendResting :: "match_env \<Rightarrow> order_book \<Rightarrow> resting_order \<Rightarrow> engine_amend \<Rightarrow> order_book \<times> amend_result" where
  "amendResting env b resting cmd =
     (let qty = (case a_qty cmd of Some q \<Rightarrow> q | None \<Rightarrow> r_remaining resting);
          price = (case a_price cmd of Some p \<Rightarrow> p | None \<Rightarrow> r_price resting);
          tif = (case a_tif cmd of Some t \<Rightarrow> t | None \<Rightarrow> if r_postOnly resting then PO else GTC)
      in if a_expectedVersion cmd \<noteq> r_version resting then (b, refusedAmend (a_orderId cmd) VersionMismatch)
      else if a_stopPrice cmd \<noteq> None then (b, refusedAmend (a_orderId cmd) UnexpectedStopPrice)
      else if qty \<le> 0 then (b, refusedAmend (a_orderId cmd) InvalidQty)
      else if price \<le> 0 then (b, refusedAmend (a_orderId cmd) InvalidPrice)
      else if r_reduceOnly resting \<and> wouldIncreasePosition b (r_accountId resting) (r_side resting) qty (Some (r_orderId resting))
        then (b, refusedAmend (a_orderId cmd) WouldIncreasePosition)
      else if price = r_price resting \<and> \<not> (tif = IOC \<or> tif = FOK) \<and> qty \<le> r_remaining resting then
        (case minQtyRefuse qty (r_minQty resting) of
           Some code \<Rightarrow> (b, refusedAmend (a_orderId cmd) code)
         | None \<Rightarrow>
             (let b1 = upd_resting (r_orderId resting) (\<lambda>r. amended_resting r cmd qty tif) b
              in (bump b1, retained (toRestingRef (amended_resting resting cmd qty tif)) Retained)))
      else
        let effective = \<lparr>e_orderId = r_orderId resting, e_accountId = r_accountId resting, e_side = r_side resting,
              e_qty = qty, e_price = Some price, e_tif = tif, e_ocoSiblingId = r_ocoSiblingId resting,
              e_expireAt = (case a_expireAt cmd of Some x \<Rightarrow> Some x | None \<Rightarrow> r_expireAt resting),
              e_sessionId = r_sessionId resting, e_reduceOnly = r_reduceOnly resting, e_displayQty = r_displayPeak resting,
              e_minQty = r_minQty resting, e_aon = r_aon resting\<rparr>
        in case checkViability b effective of
          Some code \<Rightarrow> (b, refusedAmend (a_orderId cmd) code)
        | None \<Rightarrow>
            (let nextVersion = r_version resting + 1;
                 (b2, sequence) = nextSequence (removeResting b resting);
                 (b3, x) = execute b2 effective sequence nextVersion;
                 (b4, reduceCancels) = settle_fills (x_fills x) b3;
                 (b5, ocoCancels) = cancelOcoSiblings b4 (x_fills x) (r_orderId resting, r_ocoSiblingId resting, False);
                 (b6, triggered) = drainStops env b5
             in (b6\<lparr>b_lastMove := None\<rparr>,
                 \<lparr>ar_accepted = True, ar_orderId = a_orderId cmd,
                  ar_sequence = Some (case x_resting x of Some ref \<Rightarrow> rr_sequence ref | None \<Rightarrow> sequence),
                  ar_version = Some (case x_resting x of Some ref \<Rightarrow> rr_version ref | None \<Rightarrow> nextVersion),
                  ar_priority = Some Lost, ar_fills = x_fills x, ar_resting = x_resting x, ar_rejected = None,
                  ar_cancellations = x_cancellations x @ reduceCancels @ ocoCancels, ar_triggered = triggered,
                  ar_cases = collectSurveillance (x_cases x) triggered\<rparr>)))"

definition remove_stop_id :: "string \<Rightarrow> order_book \<Rightarrow> order_book" where
  "remove_stop_id i b = (case find_index (\<lambda>s. st_orderId s = i) (b_stops b) of None \<Rightarrow> b | Some k \<Rightarrow> take_stop k b)"

definition amended_stop :: "stop_order \<Rightarrow> engine_amend \<Rightarrow> amount \<Rightarrow> stop_order" where
  "amended_stop s cmd qty =
     s\<lparr>st_expireAt := (case a_expireAt cmd of None \<Rightarrow> st_expireAt s | Some x \<Rightarrow> Some x),
       st_qty := qty, st_version := st_version s + 1\<rparr>"

definition amendStop :: "match_env \<Rightarrow> order_book \<Rightarrow> stop_order \<Rightarrow> engine_amend \<Rightarrow> order_book \<times> amend_result" where
  "amendStop env b stop cmd =
     (let qty = (case a_qty cmd of Some q \<Rightarrow> q | None \<Rightarrow> st_qty stop);
          price = (case a_price cmd of Some p \<Rightarrow> Some p | None \<Rightarrow> st_price stop);
          stopPrice = (case a_stopPrice cmd of Some p \<Rightarrow> p | None \<Rightarrow> st_stopPrice stop);
          tif = (case a_tif cmd of Some t \<Rightarrow> t | None \<Rightarrow> st_tif stop)
      in if a_expectedVersion cmd \<noteq> st_version stop then (b, refusedAmend (a_orderId cmd) VersionMismatch)
      else if \<not> st_limit stop \<and> a_price cmd \<noteq> None then (b, refusedAmend (a_orderId cmd) UnexpectedPrice)
      else if qty \<le> 0 then (b, refusedAmend (a_orderId cmd) InvalidQty)
      else if stopPrice \<le> 0 then (b, refusedAmend (a_orderId cmd) InvalidPrice)
      else if st_limit stop \<and> price = None then (b, refusedAmend (a_orderId cmd) MissingPrice)
      else if st_limit stop \<and> the price \<le> 0 then (b, refusedAmend (a_orderId cmd) InvalidPrice)
      else if st_reduceOnly stop \<and> wouldIncreasePosition b (st_accountId stop) (st_side stop) qty (Some (st_orderId stop))
        then (b, refusedAmend (a_orderId cmd) WouldIncreasePosition)
      else if stopPrice = st_stopPrice stop \<and> price = st_price stop \<and> tif = st_tif stop \<and> \<not> (tif = IOC \<or> tif = FOK)
          \<and> qty \<le> st_qty stop then
        (let b1 = upd_stop (st_orderId stop) (\<lambda>s. amended_stop s cmd qty) b
         in (bump b1, retained (stop_ref (amended_stop stop cmd qty)) Retained))
      else
        let updated = stop\<lparr>st_qty := qty, st_price := price, st_stopPrice := stopPrice, st_tif := tif,
              st_version := st_version stop + 1\<rparr>;
            effective = stop_effective updated (case a_expireAt cmd of Some x \<Rightarrow> Some x | None \<Rightarrow> st_expireAt updated)
        in if armedThrough b (st_side updated) (st_stopPrice updated) (st_triggerBy updated) (st_triggerRole updated)
              \<or> isTriggered b (st_side updated) (st_stopPrice updated) (st_triggerBy updated) (st_triggerRole updated) then
          (case checkViability b effective of
             Some code \<Rightarrow> (b, refusedAmend (a_orderId cmd) code)
           | None \<Rightarrow>
               (let (b1, triggered) = fire env (remove_stop_id (st_orderId stop) b) updated (last_trade b);
                    (b2, cascade) = drainStops env b1
                in (b2\<lparr>b_lastMove := None\<rparr>,
                    \<lparr>ar_accepted = True, ar_orderId = a_orderId cmd,
                     ar_sequence = Some (case t_resting triggered of Some ref \<Rightarrow> rr_sequence ref | None \<Rightarrow> t_sequence triggered),
                     ar_version = Some (case t_resting triggered of Some ref \<Rightarrow> rr_version ref | None \<Rightarrow> st_version updated),
                     ar_priority = Some Lost, ar_fills = t_fills triggered, ar_resting = t_resting triggered,
                     ar_rejected = t_rejected triggered, ar_cancellations = t_cancellations triggered,
                     ar_triggered = triggered # cascade,
                     ar_cases = collectSurveillance (t_cases triggered) cascade\<rparr>)))
        else
          (let (b1, sequence) = nextSequence (remove_stop_id (st_orderId stop) b);
               lost = updated\<lparr>st_sequence := sequence\<rparr>
           in (b1\<lparr>b_stops := b_stops b1 @ [lost]\<rparr>, retained (stop_ref lost) Lost)))"

definition amend :: "match_env \<Rightarrow> order_book \<Rightarrow> engine_amend \<Rightarrow> int option \<Rightarrow> order_book \<times> amend_result" where
  "amend env b cmd now' =
     (let (b1, expired) = expire_first env b now';
          (b2, result) =
            (case get_resting b1 (a_orderId cmd) of
               Some resting \<Rightarrow> amendResting env b1 resting cmd
             | None \<Rightarrow>
                 (case get_stop b1 (a_orderId cmd) of
                    Some stop \<Rightarrow> amendStop env b1 stop cmd
                  | None \<Rightarrow>
                      (b1, refusedAmend (a_orderId cmd)
                         (if a_orderId cmd \<in> c_orderId ` set expired then AlreadyExpired else OrderNotFound))))
      in (b2, result\<lparr>ar_cancellations := expired @ ar_cancellations result\<rparr>))"

section \<open>Trigger references and reading\<close>

definition applyTriggerReference ::
  "match_env \<Rightarrow> order_book \<Rightarrow> trigger_by \<Rightarrow> amount option \<Rightarrow> order_book \<times> trigger_outcome list" where
  "applyTriggerReference env b source price =
     (let previous = (if source = ByMark then b_markPrice b else b_indexPrice b);
          set_ref = (\<lambda>p. if source = ByMark then b\<lparr>b_markPrice := p\<rparr> else b\<lparr>b_indexPrice := p\<rparr>)
      in case price of
        None \<Rightarrow> (set_ref None, [])
      | Some p \<Rightarrow> if p \<le> 0 then (set_ref None, []) else drainReference env source previous p (set_ref (Some p)) [])"

definition noteFuturesPosition :: "order_book \<Rightarrow> string \<Rightarrow> amount \<Rightarrow> order_book" where
  "noteFuturesPosition b acc qty = b\<lparr>b_futuresPositions := AList.update acc qty (b_futuresPositions b)\<rparr>"

definition noteStopPeak :: "order_book \<Rightarrow> string \<Rightarrow> amount \<Rightarrow> order_book \<times> bool" where
  "noteStopPeak b orderId peak =
     (if peak \<le> 0 then (b, False)
      else case get_stop b orderId of
        None \<Rightarrow> (b, False)
      | Some s \<Rightarrow>
          (case st_trail s of
             None \<Rightarrow> (b, False)
           | Some t \<Rightarrow> if t \<le> 0 then (b, False) else (upd_stop orderId (\<lambda>s. s\<lparr>st_peak := Some peak\<rparr>) b, True)))"

definition stopWouldTrigger :: "order_book \<Rightarrow> order_side \<Rightarrow> amount \<Rightarrow> bool" where
  "stopWouldTrigger b side stopPrice =
     (case b_lastTradePrice b of None \<Rightarrow> False | Some lp \<Rightarrow> if side = BuySide then stopPrice \<le> lp else lp \<le> stopPrice)"

record amend_target =
  at_stop :: bool
  at_side :: order_side
  at_price :: "amount option"
  at_stopPrice :: "amount option"
  at_tif :: time_in_force

definition amendTarget :: "order_book \<Rightarrow> string \<Rightarrow> amend_target option" where
  "amendTarget b orderId =
     (case get_resting b orderId of
        Some r \<Rightarrow> Some \<lparr>at_stop = False, at_side = r_side r, at_price = Some (r_price r), at_stopPrice = None,
          at_tif = (if r_postOnly r then PO else GTC)\<rparr>
      | None \<Rightarrow> map_option (\<lambda>s. \<lparr>at_stop = True, at_side = st_side s, at_price = st_price s,
          at_stopPrice = Some (st_stopPrice s), at_tif = st_tif s\<rparr>) (get_stop b orderId))"

text \<open>\<open>depth\<close> throws when no limit is given, which is \<open>None\<close> here; it answers from its cache when
  that was made for the same sequence and limit.\<close>

definition fold_levels :: "order_book \<Rightarrow> nat \<Rightarrow> price_level list \<Rightarrow> (string \<times> string) list" where
  "fold_levels b n levels =
     map (\<lambda>l. (formatAmount (fst l),
        formatAmount (\<Sum>i\<leftarrow>snd l. case get_resting b i of None \<Rightarrow> 0 | Some r \<Rightarrow> visibleRemaining (r_remaining r) (r_displayRemaining r))))
       (take n levels)"

record depth_view =
  dv_bids :: "(string \<times> string) list"
  dv_asks :: "(string \<times> string) list"
  dv_sequence :: nat

definition depth :: "order_book \<Rightarrow> nat option \<Rightarrow> (order_book \<times> depth_view) option" where
  "depth b limit =
     (case limit of None \<Rightarrow> None
      | Some n \<Rightarrow>
          let fresh = (let bids = fold_levels b n (b_bids b); asks = fold_levels b n (b_asks b)
                in (b\<lparr>b_depthCache := Some \<lparr>dc_sequence = b_sequence b, dc_limit = n, dc_bids = bids, dc_asks = asks\<rparr>\<rparr>,
                    \<lparr>dv_bids = bids, dv_asks = asks, dv_sequence = b_sequence b\<rparr>))
          in Some (case b_depthCache b of
              None \<Rightarrow> fresh
            | Some c \<Rightarrow> if dc_sequence c = b_sequence b \<and> dc_limit c = n
                then (b, \<lparr>dv_bids = dc_bids c, dv_asks = dc_asks c, dv_sequence = b_sequence b\<rparr>) else fresh))"

definition new_book :: "string \<Rightarrow> order_book" where
  "new_book marketId = \<lparr>b_marketId = marketId, b_sequence = 0, b_bids = [], b_asks = [], b_stops = [], b_index = [],
     b_acceptedIds = [], b_ocoMembers = [], b_lastTradePrice = None, b_previousTradePrice = None, b_lastMove = None,
     b_moves = 0, b_markPrice = None, b_indexPrice = None, b_futuresPositions = [], b_positions = [],
     b_surveillanceCases = [], b_depthCache = None\<rparr>"

end
