(* ===== verification/Match_Wf.thy ===== *)
theory Match_Wf
  imports Match_Api
begin

text \<open>
  The shape of an order book and what keeps it. Levels are sorted by price priority and hold each
  live order exactly once, under its own side and price; ids are unique over orders and stops. The
  binary search is compared with sorted insertion and deletion, every primitive change is shown to
  keep the shape, and the composite methods follow.
\<close>

section \<open>Sorted levels\<close>

text \<open>\<open>better s p q\<close>: on side \<open>s\<close> a level at \<open>p\<close> comes before a level at \<open>q\<close>.\<close>

definition better :: "order_side \<Rightarrow> amount \<Rightarrow> amount \<Rightarrow> bool" where
  "better s p q \<longleftrightarrow> (if s = BuySide then q < p else p < q)"

lemma better_irrefl [simp]: "\<not> better s p p"
  by (simp add: better_def)

lemma better_trans: "better s p q \<Longrightarrow> better s q r \<Longrightarrow> better s p r"
  by (auto simp: better_def split: if_splits)

lemma better_asym: "better s p q \<Longrightarrow> \<not> better s q p"
  by (auto simp: better_def split: if_splits)

lemma better_cases: "p = q \<or> better s p q \<or> better s q p"
  by (auto simp: better_def)

abbreviation sorted_levels :: "order_side \<Rightarrow> price_level list \<Rightarrow> bool" where
  "sorted_levels s ls \<equiv> sorted_wrt (better s) (map fst ls)"

lemma sorted_levels_nth:
  "sorted_levels s ls \<Longrightarrow> i < j \<Longrightarrow> j < length ls \<Longrightarrow> better s (fst (ls ! i)) (fst (ls ! j))"
  using sorted_wrt_nth_less [of "better s" "map fst ls" i j] by simp

text \<open>What the search knows: every level before \<open>lo\<close> is better than the price, every level from
  \<open>hi\<close> on is worse.\<close>

lemma locate_loop_correct:
  assumes "locate_loop ls p (s = BuySide) lo hi = (k, found)" "sorted_levels s ls" "hi \<le> length ls" "lo \<le> hi"
    and "\<forall>j<lo. better s (fst (ls ! j)) p" "\<forall>j<length ls. hi \<le> j \<longrightarrow> better s p (fst (ls ! j))"
  shows "if found then k < length ls \<and> fst (ls ! k) = p
    else k \<le> length ls \<and> (\<forall>j<k. better s (fst (ls ! j)) p) \<and> (\<forall>j<length ls. k \<le> j \<longrightarrow> better s p (fst (ls ! j)))"
  using assms
proof (induction ls p "s = BuySide" lo hi rule: locate_loop.induct)
  case (1 ls p lo hi)
  show ?case
  proof (cases "lo < hi")
    case False
    then show ?thesis using "1.prems" by (simp add: locate_loop.simps [of ls p])
  next
    case lt: True
    define mid where "mid = (lo + hi) div 2"
    have mid: "lo \<le> mid" "mid < hi" "mid < length ls" using lt "1.prems"(3) by (auto simp: mid_def)
    have eq: "(if fst (ls ! mid) = p then (mid, True)
        else if (if s = BuySide then p < fst (ls ! mid) else fst (ls ! mid) < p)
          then locate_loop ls p (s = BuySide) (mid + 1) hi
          else locate_loop ls p (s = BuySide) lo mid) = (k, found)"
      using "1.prems"(1) lt unfolding locate_loop.simps [of ls p "s = BuySide" lo hi]
      by (simp only: if_True Let_def mid_def [symmetric])
    consider (hit) "fst (ls ! mid) = p" | (left) "better s (fst (ls ! mid)) p" | (right) "better s p (fst (ls ! mid))"
      using better_cases [of "fst (ls ! mid)" p s] by blast
    then show ?thesis
    proof cases
      case hit
      then show ?thesis using eq lt mid by auto
    next
      case left
      have c: "fst (ls ! mid) \<noteq> p" "if s = BuySide then p < fst (ls ! mid) else fst (ls ! mid) < p"
        using left by (auto simp: better_def split: if_splits)
      have "\<forall>j<mid + 1. better s (fst (ls ! j)) p"
        using left sorted_levels_nth [OF "1.prems"(2) _ mid(3)] better_trans by (metis less_antisym Suc_eq_plus1)
      moreover have "locate_loop ls p (s = BuySide) (mid + 1) hi = (k, found)"
        using eq unfolding if_not_P [OF c(1)] if_P [OF c(2)] .
      ultimately show ?thesis
        using mid "1.prems" by (intro "1.hyps"(1) [OF lt mid_def refl c]) auto
    next
      case right
      have c: "fst (ls ! mid) \<noteq> p" "\<not> (if s = BuySide then p < fst (ls ! mid) else fst (ls ! mid) < p)"
        using right by (auto simp: better_def split: if_splits)
      have "\<forall>j<length ls. mid \<le> j \<longrightarrow> better s p (fst (ls ! j))"
        using right sorted_levels_nth [OF "1.prems"(2)] better_trans by (metis le_neq_implies_less)
      moreover have "locate_loop ls p (s = BuySide) lo mid = (k, found)"
        using eq unfolding if_not_P [OF c(1)] if_not_P [OF c(2)] .
      ultimately show ?thesis
        using mid "1.prems" by (intro "1.hyps"(2) [OF lt mid_def refl c]) auto
    qed
  qed
qed

lemma locate_correct:
  assumes "locate ls p (s = BuySide) = (k, found)" "sorted_levels s ls"
  shows "found \<Longrightarrow> k < length ls \<and> fst (ls ! k) = p"
    and "\<not> found \<Longrightarrow> k \<le> length ls \<and> (\<forall>j<k. better s (fst (ls ! j)) p) \<and> (\<forall>j<length ls. k \<le> j \<longrightarrow> better s p (fst (ls ! j)))"
  using locate_loop_correct [of ls p s 0 "length ls" k found] assms by (auto simp: locate_def)

lemma locate_found_iff:
  assumes "locate ls p (s = BuySide) = (k, found)" "sorted_levels s ls"
  shows "found \<longleftrightarrow> p \<in> fst ` set ls"
proof
  assume found
  then show "p \<in> fst ` set ls" using locate_correct(1) [OF assms] by (metis image_eqI nth_mem)
next
  assume "p \<in> fst ` set ls"
  then obtain j where "j < length ls" "fst (ls ! j) = p" by (auto simp: in_set_conv_nth)
  then show found using locate_correct(2) [OF assms] better_irrefl by (metis not_le_imp_less)
qed

section \<open>Reference insertion and deletion\<close>

definition remove_id :: "string \<Rightarrow> price_level list \<Rightarrow> price_level list" where
  "remove_id i ls = filter (\<lambda>l. snd l \<noteq> []) (map (\<lambda>l. (fst l, remove1 i (snd l))) ls)"

fun insert_id :: "order_side \<Rightarrow> amount \<Rightarrow> string \<Rightarrow> price_level list \<Rightarrow> price_level list" where
  "insert_id s p i [] = [(p, [i])]"
| "insert_id s p i ((q, ids) # ls) =
     (if q = p then (q, ids @ [i]) # ls
      else if better s p q then (p, [i]) # (q, ids) # ls
      else (q, ids) # insert_id s p i ls)"

lemma set_remove_id:
  "(p, ids') \<in> set (remove_id i ls) \<longleftrightarrow> (\<exists>ids. (p, ids) \<in> set ls \<and> ids' = remove1 i ids \<and> ids' \<noteq> [])"
  by (force simp: remove_id_def)

lemma sorted_remove_id: "sorted_levels s ls \<Longrightarrow> sorted_levels s (remove_id i ls)"
proof (induction ls)
  case (Cons l ls)
  have "fst ` set (remove_id i ls) \<subseteq> fst ` set ls" by (force simp: remove_id_def)
  then show ?case using Cons by (auto simp: remove_id_def)
qed (simp add: remove_id_def)

lemma remove_id_absent: "\<forall>l \<in> set ls. snd l \<noteq> [] \<and> i \<notin> set (snd l) \<Longrightarrow> remove_id i ls = ls"
  by (induction ls) (auto simp: remove_id_def remove1_idem)

lemma remove_id_append [simp]: "remove_id i (xs @ ys) = remove_id i xs @ remove_id i ys"
  by (simp add: remove_id_def)

lemma remove_at_is_remove_id:
  assumes "k < length ls" "\<forall>l \<in> set ls. snd l \<noteq> []" "\<forall>j < length ls. j \<noteq> k \<longrightarrow> i \<notin> set (snd (ls ! j))"
  shows "(if remove1 i (snd (ls ! k)) = [] then splice_out k ls else ls[k := (fst (ls ! k), remove1 i (snd (ls ! k)))]) = remove_id i ls"
proof -
  define xs l ys where d: "xs = take k ls" "l = ls ! k" "ys = drop (Suc k) ls"
  have ls: "ls = xs @ l # ys" using assms(1) by (simp add: d id_take_nth_drop)
  have len: "length xs = k" using assms(1) by (simp add: d)
  have x: "remove_id i xs = xs"
  proof (rule remove_id_absent, intro ballI conjI)
    fix m assume m: "m \<in> set xs"
    then obtain j where "j < k" "m = ls ! j" using len by (auto simp: in_set_conv_nth ls nth_append)
    then show "i \<notin> set (snd m)" using assms(1,3) by auto
    show "snd m \<noteq> []" using m assms(2) by (auto simp: ls)
  qed
  have y: "remove_id i ys = ys"
  proof (rule remove_id_absent, intro ballI conjI)
    fix m assume m: "m \<in> set ys"
    then obtain j where "j < length ys" "m = ys ! j" by (auto simp: in_set_conv_nth)
    then have "Suc (k + j) < length ls" "m = ls ! Suc (k + j)" by (simp_all add: d)
    then show "i \<notin> set (snd m)" using assms(3) by (metis less_add_Suc1 less_irrefl)
    show "snd m \<noteq> []" using m assms(2) by (auto simp: ls)
  qed
  have "remove_id i ls = xs @ (if remove1 i (snd l) = [] then [] else [(fst l, remove1 i (snd l))]) @ ys"
    using x y by (simp add: ls) (simp add: remove_id_def)
  then show ?thesis
    using len by (simp add: ls splice_out_def list_update_append nth_append)
qed

lemma insert_id_found:
  "sorted_levels s ls \<Longrightarrow> k < length ls \<Longrightarrow> fst (ls ! k) = p \<Longrightarrow>
     insert_id s p i ls = ls[k := (p, snd (ls ! k) @ [i])]"
proof (induction ls arbitrary: k)
  case (Cons l ls)
  obtain q ids where l: "l = (q, ids)" by fastforce
  show ?case
  proof (cases k)
    case 0
    then show ?thesis using Cons.prems by (simp add: l)
  next
    case (Suc j)
    have "better s q p" using Cons.prems Suc by (auto simp: l)
    then have "q \<noteq> p" "\<not> better s p q" using better_asym by auto
    then show ?thesis using Cons Suc by (simp add: l)
  qed
qed simp

lemma insert_id_new:
  "k \<le> length ls \<Longrightarrow> \<forall>j<k. better s (fst (ls ! j)) p \<Longrightarrow> \<forall>j<length ls. k \<le> j \<longrightarrow> better s p (fst (ls ! j)) \<Longrightarrow>
     insert_id s p i ls = splice_in k (p, [i]) ls"
proof (induction ls arbitrary: k)
  case (Cons l ls)
  obtain q ids where l: "l = (q, ids)" by fastforce
  show ?case
  proof (cases k)
    case 0
    then have "better s p q" using Cons.prems(3) by (auto simp: l)
    then show ?thesis using 0 better_irrefl by (auto simp: l splice_in_def)
  next
    case (Suc j)
    have b: "better s q p" using Cons.prems(2) Suc by (auto simp: l)
    have "insert_id s p i ls = splice_in j (p, [i]) ls"
      by (rule Cons.IH) (use Cons.prems Suc in \<open>auto simp: nth_Cons' split: if_splits dest: spec [of _ "Suc _"]\<close>)
    then show ?thesis using b better_asym [OF b] by (auto simp: l Suc splice_in_def)
  qed
qed (simp add: splice_in_def)

lemma set_insert_id:
  "(q, jds) \<in> set (insert_id s p i ls) \<Longrightarrow>
     (q, jds) \<in> set ls \<or> q = p \<and> (jds = [i] \<or> (\<exists>ids. (p, ids) \<in> set ls \<and> jds = ids @ [i]))"
  by (induction s p i ls rule: insert_id.induct) (auto split: if_splits)

lemma insert_id_keeps: "(q, jds) \<in> set ls \<Longrightarrow> \<exists>kds. (q, kds) \<in> set (insert_id s p i ls) \<and> set jds \<subseteq> set kds"
proof (induction s p i ls rule: insert_id.induct)
  case (2 s p i q' ids ls)
  consider "(q, jds) = (q', ids)" | "(q, jds) \<in> set ls" using "2.prems" by auto
  then show ?case
  proof cases
    case 1
    then have "(q, ids @ [i]) \<in> set (insert_id s p i ((q', ids) # ls)) \<or> (q, ids) \<in> set (insert_id s p i ((q', ids) # ls))" by auto
    moreover have "set jds \<subseteq> set (ids @ [i])" "set jds \<subseteq> set ids" using 1 by auto
    ultimately show ?thesis by blast
  next
    case 2
    then show ?thesis using "2.IH" by (cases "q' = p \<or> better s p q'") auto
  qed
qed simp

lemma insert_id_has: "\<exists>ids. (p, ids) \<in> set (insert_id s p i ls) \<and> i \<in> set ids"
  by (induction s p i ls rule: insert_id.induct) auto

lemma fst_insert_id: "fst ` set (insert_id s p i ls) = insert p (fst ` set ls)"
  by (induction s p i ls rule: insert_id.induct) auto

lemma sorted_insert_id: "sorted_levels s ls \<Longrightarrow> sorted_levels s (insert_id s p i ls)"
proof (induction ls)
  case (Cons l ls)
  obtain q ids where l: "l = (q, ids)" by fastforce
  have ball: "\<forall>x \<in> fst ` set ls. better s q x" and srt: "sorted_levels s ls" using Cons.prems by (auto simp: l)
  consider (eq) "q = p" | (lt) "q \<noteq> p" "better s p q" | (gt) "q \<noteq> p" "better s q p"
    using better_cases by blast
  then show ?case
  proof cases
    case eq
    then show ?thesis using Cons.prems by (simp add: l)
  next
    case lt
    then have "\<forall>x \<in> fst ` set ls. better s p x" using ball better_trans by blast
    then show ?thesis using lt ball srt by (simp add: l)
  next
    case gt
    have "\<forall>x \<in> fst ` set (insert_id s p i ls). better s q x" using ball gt by (simp add: fst_insert_id)
    then show ?thesis using gt Cons.IH [OF srt] better_asym [OF gt(2)] by (simp add: l)
  qed
qed simp

end
