(* ===== verification/Match_Inv.thy ===== *)
theory Match_Inv
  imports Match_Wf
begin

text \<open>
  Well-formed books and the primitive changes that keep them well formed.
\<close>

section \<open>Well-formed books\<close>

definition level_ok :: "order_side \<Rightarrow> order_book \<Rightarrow> bool" where
  "level_ok s b \<longleftrightarrow> sorted_levels s (levels_of s b)
     \<and> (\<forall>l \<in> set (levels_of s b). snd l \<noteq> [] \<and> distinct (snd l)
         \<and> (\<forall>i \<in> set (snd l). \<exists>r. get_resting b i = Some r \<and> r_side r = s \<and> r_price r = fst l))"

definition indexed_ok :: "order_book \<Rightarrow> bool" where
  "indexed_ok b \<longleftrightarrow> distinct (map fst (b_index b)) \<and>
     (\<forall>i r. get_resting b i = Some r \<longrightarrow>
        r_orderId r = i \<and> (\<exists>ids. (r_price r, ids) \<in> set (levels_of (r_side r) b) \<and> i \<in> set ids))"

definition stops_ok :: "order_book \<Rightarrow> bool" where
  "stops_ok b \<longleftrightarrow> distinct (map st_orderId (b_stops b)) \<and> (\<forall>s \<in> set (b_stops b). get_resting b (st_orderId s) = None)"

definition book_wf :: "order_book \<Rightarrow> bool" where
  "book_wf b \<longleftrightarrow> (\<forall>s. level_ok s b) \<and> indexed_ok b \<and> stops_ok b"

lemma sorted_level_eq:
  assumes "sorted_levels s ls" "(p, ids) \<in> set ls" "(p, jds) \<in> set ls"
  shows "ids = jds"
proof -
  obtain i j where "i < length ls" "ls ! i = (p, ids)" "j < length ls" "ls ! j = (p, jds)"
    using assms(2,3) by (auto simp: in_set_conv_nth)
  then show ?thesis
    using sorted_levels_nth [OF assms(1), of i j] sorted_levels_nth [OF assms(1), of j i]
    by (cases i j rule: linorder_cases) auto
qed

lemma wf_get:
  assumes "book_wf b" "get_resting b i = Some r"
  shows "r_orderId r = i" "\<exists>ids. (r_price r, ids) \<in> set (levels_of (r_side r) b) \<and> i \<in> set ids"
  using assms by (auto simp: book_wf_def indexed_ok_def)

lemma wf_level:
  assumes "book_wf b" "(p, ids) \<in> set (levels_of s b)"
  shows "ids \<noteq> []" "distinct ids" "i \<in> set ids \<Longrightarrow> \<exists>r. get_resting b i = Some r \<and> r_side r = s \<and> r_price r = p"
  using assms by (fastforce simp: book_wf_def level_ok_def)+

lemma wf_sorted: "book_wf b \<Longrightarrow> sorted_levels s (levels_of s b)"
  by (simp add: book_wf_def level_ok_def)

lemma wf_level_mem:
  assumes "book_wf b" "get_resting b i = Some r" "(p, ids) \<in> set (levels_of s b)"
  shows "i \<in> set ids \<longleftrightarrow> s = r_side r \<and> p = r_price r"
proof
  assume "i \<in> set ids"
  then show "s = r_side r \<and> p = r_price r" using wf_level(3) [OF assms(1,3)] assms(2) by fastforce
next
  assume a: "s = r_side r \<and> p = r_price r"
  obtain jds where "(r_price r, jds) \<in> set (levels_of (r_side r) b)" "i \<in> set jds"
    using wf_get(2) [OF assms(1,2)] by blast
  then show "i \<in> set ids" using sorted_level_eq [OF wf_sorted [OF assms(1)]] a assms(3) by blast
qed

section \<open>Removing an order\<close>

definition without :: "string \<Rightarrow> order_book \<Rightarrow> order_book" where
  "without i b = b\<lparr>b_bids := remove_id i (b_bids b), b_asks := remove_id i (b_asks b), b_index := AList.delete i (b_index b)\<rparr>"

lemma levels_without [simp]: "levels_of s (without i b) = remove_id i (levels_of s b)"
  by (simp add: levels_of_def without_def)

lemma get_without [simp]: "get_resting (without i b) j = (if j = i then None else get_resting b j)"
  by (simp add: get_resting_def without_def delete_conv)

lemma without_fields [simp]:
  "b_stops (without i b) = b_stops b" "b_sequence (without i b) = b_sequence b" "b_marketId (without i b) = b_marketId b"
  "b_positions (without i b) = b_positions b" "b_futuresPositions (without i b) = b_futuresPositions b"
  "b_lastTradePrice (without i b) = b_lastTradePrice b" "b_lastMove (without i b) = b_lastMove b"
  "b_index (without i b) = AList.delete i (b_index b)" "b_depthCache (without i b) = b_depthCache b"
  by (simp_all add: without_def)

lemma index_set_levels [simp]: "b_index (set_levels s ls b) = b_index b"
  by (simp add: set_levels_def)

lemma opposite_neq [simp]: "opposite s \<noteq> s" "s \<noteq> opposite s" "opposite (opposite s) = s"
  by (cases s; simp add: opposite_def)+

lemma wf_absent_other_side:
  assumes "book_wf b" "get_resting b i = Some r" "s \<noteq> r_side r"
  shows "remove_id i (levels_of s b) = levels_of s b"
proof (rule remove_id_absent, intro ballI)
  fix l assume "l \<in> set (levels_of s b)"
  then show "snd l \<noteq> [] \<and> i \<notin> set (snd l)"
    using wf_level(1) [OF assms(1)] wf_level_mem [OF assms(1,2)] assms(3) by (metis prod.collapse)
qed

text \<open>Taking an order out of its level, in place, is removing its id everywhere.\<close>

lemma take_out:
  assumes "book_wf b" "get_resting b i = Some r" "k < length (levels_of (r_side r) b)"
    and "fst (levels_of (r_side r) b ! k) = r_price r"
  shows "(set_levels (r_side r) (if remove1 i (snd (levels_of (r_side r) b ! k)) = []
       then splice_out k (levels_of (r_side r) b)
       else (levels_of (r_side r) b)[k := (fst (levels_of (r_side r) b ! k), remove1 i (snd (levels_of (r_side r) b ! k)))]) b)
     \<lparr>b_index := AList.delete i (b_index b)\<rparr> = without i b"
proof -
  let ?s = "r_side r" let ?ls = "levels_of ?s b"
  have nth: "(fst (?ls ! j), snd (?ls ! j)) \<in> set ?ls" if "j < length ?ls" for j using that by simp
  have "(if remove1 i (snd (?ls ! k)) = [] then splice_out k ?ls else ?ls[k := (fst (?ls ! k), remove1 i (snd (?ls ! k)))])
      = remove_id i ?ls"
  proof (rule remove_at_is_remove_id [OF assms(3)])
    show "\<forall>l \<in> set ?ls. snd l \<noteq> []" using wf_level(1) [OF assms(1)] by (metis prod.collapse)
    show "\<forall>j < length ?ls. j \<noteq> k \<longrightarrow> i \<notin> set (snd (?ls ! j))"
    proof (intro allI impI)
      fix j assume j: "j < length ?ls" "j \<noteq> k"
      then have "fst (?ls ! j) \<noteq> r_price r"
        using sorted_levels_nth [OF wf_sorted [OF assms(1)], of j k ?s] sorted_levels_nth [OF wf_sorted [OF assms(1)], of k j ?s]
          assms(3,4) by (metis better_irrefl linorder_neqE_nat)
      then show "i \<notin> set (snd (?ls ! j))" using wf_level_mem [OF assms(1,2) nth [OF j(1)]] by simp
    qed
  qed
  moreover have "remove_id i (levels_of (opposite ?s) b) = levels_of (opposite ?s) b"
    using wf_absent_other_side [OF assms(1,2)] by simp
  ultimately show ?thesis
    by (auto simp: set_levels_def without_def levels_of_def opposite_def split: if_splits)
qed

lemma removeResting_without:
  assumes "book_wf b" "get_resting b i = Some r"
  shows "removeResting b r = without i b"
proof -
  obtain k found where l: "locate (levels_of (r_side r) b) (r_price r) (r_side r = BuySide) = (k, found)" by fastforce
  have f: found using locate_found_iff [OF l wf_sorted [OF assms(1)]] wf_get(2) [OF assms] by force
  have k: "k < length (levels_of (r_side r) b)" "fst (levels_of (r_side r) b ! k) = r_price r"
    using locate_correct(1) [OF l wf_sorted [OF assms(1)] f] by simp_all
  show ?thesis
    unfolding take_out [OF assms k, symmetric] by (simp add: removeResting_def Let_def l f wf_get(1) [OF assms])
qed

lemma drop_head_without:
  assumes "book_wf b" "k < length (levels_of s b)" "snd (levels_of s b ! k) = mk # ids"
  shows "drop_head s k mk b = without mk b"
proof -
  have mem: "(fst (levels_of s b ! k), mk # ids) \<in> set (levels_of s b)"
    using assms(2,3) by (metis nth_mem prod.collapse)
  then obtain r where r: "get_resting b mk = Some r" "r_side r = s" "r_price r = fst (levels_of s b ! k)"
    using wf_level(3) [OF assms(1) mem] by auto
  have k: "k < length (levels_of (r_side r) b)" "fst (levels_of (r_side r) b ! k) = r_price r"
    using assms(2) r by simp_all
  show ?thesis
    unfolding take_out [OF assms(1) r(1) k, symmetric] by (simp add: drop_head_def Let_def r(2) assms(3))
qed

lemma wf_without:
  assumes "book_wf b"
  shows "book_wf (without i b)"
  unfolding book_wf_def
proof (intro conjI allI)
  fix s
  show "level_ok s (without i b)"
    unfolding level_ok_def
  proof (intro conjI ballI)
    show "sorted_levels s (levels_of s (without i b))" using sorted_remove_id wf_sorted [OF assms] by simp
    fix l assume "l \<in> set (levels_of s (without i b))"
    then obtain ids where l: "(fst l, ids) \<in> set (levels_of s b)" "snd l = remove1 i ids" "snd l \<noteq> []"
      using set_remove_id [of "fst l" "snd l" i "levels_of s b"] by auto
    show "snd l \<noteq> []" "distinct (snd l)" using l wf_level(2) [OF assms l(1)] by simp_all
    fix j assume "j \<in> set (snd l)"
    then have "j \<in> set ids" "j \<noteq> i" using l wf_level(2) [OF assms l(1)] by auto
    then show "\<exists>r. get_resting (without i b) j = Some r \<and> r_side r = s \<and> r_price r = fst l"
      using wf_level(3) [OF assms l(1)] by simp
  qed
next
  show "indexed_ok (without i b)"
    unfolding indexed_ok_def
  proof (intro conjI allI impI)
    show "distinct (map fst (b_index (without i b)))"
      using assms by (simp add: book_wf_def indexed_ok_def distinct_delete)
    fix j r assume "get_resting (without i b) j = Some r"
    then have j: "j \<noteq> i" "get_resting b j = Some r" by (simp_all split: if_splits)
    obtain ids where ids: "(r_price r, ids) \<in> set (levels_of (r_side r) b)" "j \<in> set ids" using wf_get(2) [OF assms j(2)] by blast
    moreover have m: "j \<in> set (remove1 i ids)" using ids j(1) by simp
    ultimately have "(r_price r, remove1 i ids) \<in> set (remove_id i (levels_of (r_side r) b))"
      unfolding set_remove_id by (metis empty_iff list.set(1))
    then show "r_orderId r = j" "\<exists>ids. (r_price r, ids) \<in> set (levels_of (r_side r) (without i b)) \<and> j \<in> set ids"
      using wf_get(1) [OF assms j(2)] m by auto
  qed
  show "stops_ok (without i b)" using assms by (simp add: book_wf_def stops_ok_def)
qed

section \<open>Resting an order\<close>

lemma rest_levels:
  assumes "book_wf b"
  shows "levels_of s (fst (rest b order rem n v)) =
    (if s = e_side order then insert_id s (case e_price order of Some p \<Rightarrow> p | None \<Rightarrow> 0) (e_orderId order) (levels_of s b)
     else levels_of s b)"
proof -
  let ?p = "case e_price order of Some p \<Rightarrow> p | None \<Rightarrow> 0" let ?ls = "levels_of (e_side order) b"
  obtain k found where l: "locate ?ls ?p (e_side order = BuySide) = (k, found)" by fastforce
  note c = locate_correct [OF l wf_sorted [OF assms]]
  have "(if found then ?ls[k := (fst (?ls ! k), snd (?ls ! k) @ [e_orderId order])] else splice_in k (?p, [e_orderId order]) ?ls)
     = insert_id (e_side order) ?p (e_orderId order) ?ls"
    using c insert_id_found [OF wf_sorted [OF assms], of k _ ?p] insert_id_new [of k ?ls "e_side order" ?p] by (cases found) auto
  then show ?thesis by (simp add: rest_def Let_def l)
qed

lemma get_rest:
  "get_resting (fst (rest b order rem n v)) i =
    (if i = e_orderId order then Some \<lparr>r_orderId = e_orderId order, r_accountId = e_accountId order, r_side = e_side order,
            r_price = (case e_price order of Some p \<Rightarrow> p | None \<Rightarrow> 0), r_remaining = rem, r_sequence = n, r_version = v,
            r_ocoSiblingId = e_ocoSiblingId order, r_expireAt = e_expireAt order, r_sessionId = e_sessionId order,
            r_reduceOnly = e_reduceOnly order, r_postOnly = (e_tif order = PO),
            r_displayPeak = e_displayQty order,
            r_displayRemaining = (case e_displayQty order of None \<Rightarrow> None | Some d \<Rightarrow> Some (min_amount d rem)),
            r_minQty = e_minQty order, r_aon = e_aon order\<rparr>
     else get_resting b i)"
  by (simp add: rest_def Let_def case_prod_beta get_resting_def set_levels_def)

lemma rest_index: "b_index (fst (rest b order rem n v)) = AList.update (e_orderId order)
    (the (get_resting (fst (rest b order rem n v)) (e_orderId order))) (b_index b)"
  unfolding get_rest by (simp add: rest_def Let_def case_prod_beta set_levels_def)

lemma wf_rest:
  assumes "book_wf b" "get_resting b (e_orderId order) = None" "e_orderId order \<notin> st_orderId ` set (b_stops b)"
  shows "book_wf (fst (rest b order rem n v))"
proof -
  let ?i = "e_orderId order" let ?p = "case e_price order of Some p \<Rightarrow> p | None \<Rightarrow> 0" let ?s = "e_side order"
  let ?b = "fst (rest b order rem n v)"
  note lv = rest_levels [OF assms(1), of _ order rem n v]
  have fresh: "?i \<notin> set ids" if "(q, ids) \<in> set (levels_of s b)" for q ids s
    using wf_level(3) [OF assms(1) that] assms(2) by fastforce
  have "level_ok s ?b" for s
    unfolding level_ok_def
  proof (intro conjI ballI)
    show "sorted_levels s (levels_of s ?b)" using wf_sorted [OF assms(1), of s] sorted_insert_id by (auto simp: lv)
    fix l assume l: "l \<in> set (levels_of s ?b)"
    then consider (old) "(fst l, snd l) \<in> set (levels_of s b)"
      | (new) "s = ?s" "fst l = ?p" "snd l = [?i]"
      | (grown) ids where "s = ?s" "fst l = ?p" "(?p, ids) \<in> set (levels_of s b)" "snd l = ids @ [?i]"
      using set_insert_id [of "fst l" "snd l" ?s ?p ?i "levels_of ?s b"] by (auto simp: lv split: if_splits)
    then have "snd l \<noteq> [] \<and> distinct (snd l) \<and> (\<forall>j \<in> set (snd l). \<exists>r. get_resting ?b j = Some r \<and> r_side r = s \<and> r_price r = fst l)"
    proof cases
      case old
      then show ?thesis using wf_level [OF assms(1) old] fresh [OF old] by (auto simp: get_rest)
    next
      case new
      then show ?thesis by (auto simp: get_rest)
    next
      case grown
      then show ?thesis using wf_level [OF assms(1) grown(3)] fresh [OF grown(3)] by (auto simp: get_rest)
    qed
    then show "snd l \<noteq> []" "distinct (snd l)"
      "\<And>j. j \<in> set (snd l) \<Longrightarrow> \<exists>r. get_resting ?b j = Some r \<and> r_side r = s \<and> r_price r = fst l" by auto
  qed
  moreover have "indexed_ok ?b"
    unfolding indexed_ok_def
  proof (intro conjI allI impI)
    show "distinct (map fst (b_index ?b))"
      using assms(1) by (simp add: rest_index book_wf_def indexed_ok_def distinct_update)
    fix j r assume j: "get_resting ?b j = Some r"
    show "r_orderId r = j" using j wf_get(1) [OF assms(1)] by (auto simp: get_rest split: if_splits)
    show "\<exists>ids. (r_price r, ids) \<in> set (levels_of (r_side r) ?b) \<and> j \<in> set ids"
    proof (cases "j = ?i")
      case True
      then show ?thesis using j insert_id_has [of ?p ?s ?i "levels_of ?s b"] by (auto simp: get_rest lv)
    next
      case False
      then have "get_resting b j = Some r" using j by (simp add: get_rest)
      then obtain ids where "(r_price r, ids) \<in> set (levels_of (r_side r) b)" "j \<in> set ids" using wf_get(2) [OF assms(1)] by blast
      then show ?thesis using insert_id_keeps [of "r_price r" ids "levels_of ?s b" ?s ?p ?i] by (auto simp: lv) blast
    qed
  qed
  moreover have "stops_ok ?b"
    using assms by (auto simp: book_wf_def stops_ok_def get_rest) (metis image_eqI)
  ultimately show ?thesis by (simp add: book_wf_def)
qed

section \<open>Changing an order in place\<close>

lemma map_of_map_snd: "map_of (map (\<lambda>(k, v). (k, g k v)) m) k = map_option (g k) (map_of m k)"
  by (induction m) auto

lemma get_upd_resting [simp]:
  "get_resting (upd_resting i f b) j = map_option (\<lambda>r. if j = i then f r else r) (get_resting b j)"
  unfolding get_resting_def upd_resting_def using map_of_map_snd [of "\<lambda>k r. if k = i then f r else r" "b_index b" j]
  by (simp add: if_distrib [of Some] cong: if_cong)

lemma levels_upd_resting [simp]: "levels_of s (upd_resting i f b) = levels_of s b"
  by (simp add: upd_resting_def)

lemma fst_index_upd [simp]: "map fst (b_index (upd_resting i f b)) = map fst (b_index b)"
  by (simp add: upd_resting_def comp_def case_prod_beta)

lemma wf_upd_resting:
  assumes "book_wf b" "\<And>r. get_resting b i = Some r \<Longrightarrow> r_orderId (f r) = r_orderId r \<and> r_side (f r) = r_side r \<and> r_price (f r) = r_price r"
  shows "book_wf (upd_resting i f b)"
proof -
  have "level_ok s (upd_resting i f b)" for s
    using assms(1) assms(2) unfolding book_wf_def level_ok_def by (simp add: Bex_def) (metis option.simps(9))
  moreover have "indexed_ok (upd_resting i f b)"
    using assms(1) assms(2) unfolding book_wf_def indexed_ok_def by (auto split: if_splits)
  moreover have "stops_ok (upd_resting i f b)"
    using assms(1) unfolding book_wf_def stops_ok_def by simp
  ultimately show ?thesis by (simp add: book_wf_def)
qed

lemma wf_cong:
  assumes "b_bids b' = b_bids b" "b_asks b' = b_asks b" "b_index b' = b_index b" "map st_orderId (b_stops b') = map st_orderId (b_stops b)"
  shows "book_wf b' = book_wf b"
proof -
  have l: "levels_of s b' = levels_of s b" "get_resting b' i = get_resting b i" for s i
    using assms by (simp_all add: levels_of_def get_resting_def)
  have "(\<forall>s \<in> set (b_stops b'). get_resting b (st_orderId s) = None) = (\<forall>s \<in> set (b_stops b). get_resting b (st_orderId s) = None)"
    using arg_cong [OF assms(4), of "\<lambda>xs. \<forall>x \<in> set xs. get_resting b x = None"] by simp
  then show ?thesis by (simp add: book_wf_def level_ok_def indexed_ok_def stops_ok_def l assms(3,4))
qed

lemma ids_upd_stop:
  assumes "\<And>s. st_orderId (f s) = st_orderId s"
  shows "map st_orderId (b_stops (upd_stop i f b)) = map st_orderId (b_stops b)"
  using assms by (auto simp: upd_stop_def map_update dest: find_index_Some split: option.splits)
    (metis find_index_Some list_update_id map_update nth_map)

lemma upd_stop_fields [simp]:
  "b_bids (upd_stop i f b) = b_bids b" "b_asks (upd_stop i f b) = b_asks b" "b_index (upd_stop i f b) = b_index b"
  "b_sequence (upd_stop i f b) = b_sequence b"
  by (simp_all add: upd_stop_def split: option.splits)

lemma get_upd_stop [simp]: "get_resting (upd_stop i f b) j = get_resting b j" "levels_of s (upd_stop i f b) = levels_of s b"
  by (simp_all add: get_resting_def levels_of_def)

lemma wf_upd_stop: "book_wf b \<Longrightarrow> (\<And>s. st_orderId (f s) = st_orderId s) \<Longrightarrow> book_wf (upd_stop i f b)"
  using wf_cong [of "upd_stop i f b" b] ids_upd_stop [of f i b] by simp

lemma distinct_splice_out:
  assumes "distinct (map f xs)"
  shows "distinct (map f (splice_out k xs))"
proof (cases "k < length xs")
  case True
  then have "distinct (map f (take k xs @ xs ! k # drop (Suc k) xs))" using assms by (simp add: id_take_nth_drop [symmetric])
  then show ?thesis by (simp add: splice_out_def)
qed (use assms in \<open>simp add: splice_out_def\<close>)

lemma take_stop_fields [simp]:
  "levels_of s (take_stop k b) = levels_of s b" "get_resting (take_stop k b) i = get_resting b i"
  "b_index (take_stop k b) = b_index b" "b_sequence (take_stop k b) = b_sequence b"
  by (simp_all add: take_stop_def levels_of_def get_resting_def)

lemma wf_take_stop: "book_wf b \<Longrightarrow> book_wf (take_stop k b)"
  using set_splice_out [of k "b_stops b"] distinct_splice_out [of st_orderId "b_stops b" k]
  by (auto simp: book_wf_def level_ok_def indexed_ok_def stops_ok_def)

lemma wf_rotate:
  assumes "book_wf b" "k < length (levels_of s b)" "snd (levels_of s b ! k) = mk # ids"
  shows "book_wf (rotate_level s k mk b)"
proof -
  let ?l = "levels_of s b ! k"
  have nth: "(fst ?l, mk # ids) \<in> set (levels_of s b)" using assms(2,3) by (metis nth_mem prod.collapse)
  have lv: "levels_of t (rotate_level s k mk b) = (if t = s then (levels_of s b)[k := (fst ?l, ids @ [mk])] else levels_of t b)" for t
    by (simp add: rotate_level_def Let_def assms(3))
  have g: "get_resting (rotate_level s k mk b) i = get_resting b i" for i
    by (simp add: rotate_level_def Let_def get_resting_def)
  have fst_upd: "map fst ((levels_of s b)[k := (fst ?l, ids @ [mk])]) = map fst (levels_of s b)"
    using assms(2) by (simp add: map_update) (metis list_update_id nth_map)
  have "level_ok t (rotate_level s k mk b)" for t
    unfolding level_ok_def
  proof (intro conjI ballI)
    show "sorted_levels t (levels_of t (rotate_level s k mk b))" using wf_sorted [OF assms(1)] by (auto simp: lv fst_upd)
    fix l assume "l \<in> set (levels_of t (rotate_level s k mk b))"
    then consider "l \<in> set (levels_of t b)" | "t = s" "l = (fst ?l, ids @ [mk])"
      using set_update_subset_insert [of "levels_of s b" k "(fst ?l, ids @ [mk])"] by (auto simp: lv split: if_splits)
    then have "snd l \<noteq> [] \<and> distinct (snd l) \<and> (\<forall>j \<in> set (snd l). \<exists>r. get_resting b j = Some r \<and> r_side r = t \<and> r_price r = fst l)"
      using assms(1) wf_level [OF assms(1) nth] by cases (auto simp: book_wf_def level_ok_def)
    then show "snd l \<noteq> []" "distinct (snd l)"
      "\<And>j. j \<in> set (snd l) \<Longrightarrow> \<exists>r. get_resting (rotate_level s k mk b) j = Some r \<and> r_side r = t \<and> r_price r = fst l"
      by (auto simp: g)
  qed
  moreover have "indexed_ok (rotate_level s k mk b)"
    unfolding indexed_ok_def g
  proof (intro conjI allI impI)
    show "distinct (map fst (b_index (rotate_level s k mk b)))"
      using assms(1) by (simp add: rotate_level_def Let_def book_wf_def indexed_ok_def)
    fix i r assume r: "get_resting b i = Some r"
    show "r_orderId r = i" using wf_get(1) [OF assms(1) r] .
    obtain jds where j: "(r_price r, jds) \<in> set (levels_of (r_side r) b)" "i \<in> set jds" using wf_get(2) [OF assms(1) r] by blast
    then obtain m where m: "m < length (levels_of (r_side r) b)" "levels_of (r_side r) b ! m = (r_price r, jds)"
      by (auto simp: in_set_conv_nth)
    show "\<exists>ids'. (r_price r, ids') \<in> set (levels_of (r_side r) (rotate_level s k mk b)) \<and> i \<in> set ids'"
    proof (cases "r_side r = s \<and> m = k")
      case True
      then have "(r_price r, ids @ [mk]) \<in> set (levels_of (r_side r) (rotate_level s k mk b))" "i \<in> set (ids @ [mk])"
        using m j assms(2,3) by (auto simp: lv set_update_memI)
      then show ?thesis by blast
    next
      case False
      then have "levels_of (r_side r) (rotate_level s k mk b) ! m = (r_price r, jds)" "m < length (levels_of (r_side r) (rotate_level s k mk b))"
        using m by (auto simp: lv nth_list_update)
      then show ?thesis using j(2) by (metis nth_mem)
    qed
  qed
  moreover have "stops_ok (rotate_level s k mk b)"
    using assms(1) by (simp add: book_wf_def stops_ok_def g)
  ultimately show ?thesis by (simp add: book_wf_def)
qed

end
