(* ===== verification/Match_Steps.thy ===== *)
theory Match_Steps
  imports Match_Inv
begin

text \<open>
  How the composite methods change a well-formed book. \<open>evolves\<close> collects what every removal,
  relinking and renumbering keeps; the match loop has an invariant of its own, because it takes
  orders off the head of a level by index while an OCO pull may remove other orders of that side.
\<close>

section \<open>Live orders\<close>

definition live_ids :: "order_book \<Rightarrow> string set" where
  "live_ids b = {i. get_resting b i \<noteq> None} \<union> st_orderId ` set (b_stops b)"

lemma isLive_iff: "isLive b i \<longleftrightarrow> i \<in> live_ids b"
  by (auto simp: isLive_def live_ids_def)

text \<open>A live order has something left, and shows something if it is an iceberg.\<close>

definition live_ok :: "resting_order \<Rightarrow> bool" where
  "live_ok r \<longleftrightarrow> 0 < r_remaining r \<and>
     (case r_displayRemaining r of None \<Rightarrow> r_displayPeak r = None
      | Some d \<Rightarrow> 0 < d \<and> (\<exists>p. r_displayPeak r = Some p \<and> 0 < p))"

definition good_but :: "string set \<Rightarrow> order_book \<Rightarrow> bool" where
  "good_but X b \<longleftrightarrow> (\<forall>i r. get_resting b i = Some r \<longrightarrow> i \<notin> X \<longrightarrow> live_ok r) \<and> (\<forall>s \<in> set (b_stops b). 0 < st_qty s)"

definition evolves :: "order_book \<Rightarrow> order_book \<Rightarrow> bool" where
  "evolves b b' \<longleftrightarrow> (book_wf b \<longrightarrow>
     book_wf b' \<and> live_ids b' \<subseteq> live_ids b \<and> b_sequence b \<le> b_sequence b' \<and> b_positions b' = b_positions b
     \<and> b_marketId b' = b_marketId b \<and> b_depthCache b' = b_depthCache b \<and> (\<forall>X. good_but X b \<longrightarrow> good_but X b'))"

lemma evolves_refl [simp, intro]: "evolves b b"
  by (simp add: evolves_def)

lemma evolves_trans: "evolves b c \<Longrightarrow> evolves c d \<Longrightarrow> evolves b d"
  unfolding evolves_def by (metis order.trans)

lemma evolvesD:
  assumes "evolves b b'" "book_wf b"
  shows "book_wf b'" "live_ids b' \<subseteq> live_ids b" "b_sequence b \<le> b_sequence b'" "b_positions b' = b_positions b"
    "b_depthCache b' = b_depthCache b" "good_but X b \<Longrightarrow> good_but X b'" "b_marketId b' = b_marketId b"
  using assms by (simp_all add: evolves_def)

text \<open>Changes outside levels, index and stops.\<close>

lemma evolves_frame:
  assumes "b_bids b' = b_bids b" "b_asks b' = b_asks b" "b_index b' = b_index b" "b_stops b' = b_stops b"
    and "b_sequence b \<le> b_sequence b'" "b_positions b' = b_positions b" "b_marketId b' = b_marketId b" "b_depthCache b' = b_depthCache b"
  shows "evolves b b'"
  using assms wf_cong [of b' b] by (simp add: evolves_def live_ids_def good_but_def get_resting_def)

lemma bump_fields [simp]:
  "levels_of s (bump b) = levels_of s b" "get_resting (bump b) i = get_resting b i" "b_sequence (bump b) = Suc (b_sequence b)"
  "b_index (bump b) = b_index b" "b_positions (bump b) = b_positions b" "b_marketId (bump b) = b_marketId b"
  "b_bids (bump b) = b_bids b" "b_asks (bump b) = b_asks b" "b_depthCache (bump b) = b_depthCache b"
  by (simp_all add: bump_def levels_of_def get_resting_def)

lemma evolves_bump [simp, intro]: "evolves b (bump b)"
  by (rule evolves_frame) simp_all

lemma evolves_without: "evolves b (without i b)"
  unfolding evolves_def
  by (auto simp: wf_without live_ids_def good_but_def split: if_splits)

lemma evolves_removeResting: "get_resting b i = Some r \<Longrightarrow> evolves b (removeResting b r)"
  using removeResting_without evolves_without unfolding evolves_def by metis

lemma evolves_take_stop: "evolves b (take_stop k b)"
  unfolding evolves_def
  using wf_take_stop [of b k] set_splice_out [of k "b_stops b"]
  by (auto simp: live_ids_def good_but_def) (auto simp: take_stop_def)

lemma evolves_relink:
  assumes "\<And>r. f r = r\<lparr>r_ocoSiblingId := r_ocoSiblingId (f r)\<rparr>"
  shows "evolves b (upd_resting i f b)"
proof -
  have f: "r_orderId (f r) = r_orderId r" "r_side (f r) = r_side r" "r_price (f r) = r_price r" "live_ok (f r) = live_ok r" for r
    by (subst assms; simp add: live_ok_def cong: option.case_cong)+
  have "book_wf b \<Longrightarrow> book_wf (upd_resting i f b)" by (rule wf_upd_resting) (simp_all add: f)
  then show ?thesis
    unfolding evolves_def
    by (auto simp: live_ids_def good_but_def f split: if_splits) (auto simp: upd_resting_def)
qed

lemma evolves_upd_stop:
  assumes "\<And>s. st_orderId (f s) = st_orderId s" "\<And>s. 0 < st_qty s \<Longrightarrow> 0 < st_qty (f s)"
  shows "evolves b (upd_stop i f b)"
proof -
  have ids: "st_orderId ` set (b_stops (upd_stop i f b)) = st_orderId ` set (b_stops b)"
    using ids_upd_stop [of f i b] assms(1) by (metis list.set_map)
  have qty: "\<forall>s \<in> set (b_stops (upd_stop i f b)). 0 < st_qty s" if a: "\<forall>s \<in> set (b_stops b). 0 < st_qty s"
  proof (cases "find_index (\<lambda>s. st_orderId s = i) (b_stops b)")
    case None
    then show ?thesis using a by (simp add: upd_stop_def)
  next
    case (Some k)
    then have "k < length (b_stops b)" using find_index_Some by blast
    then have "0 < st_qty (f (b_stops b ! k))" using a assms(2) by simp
    then show ?thesis using a Some set_update_subset_insert [of "b_stops b" k] by (auto simp: upd_stop_def)
  qed
  show ?thesis
    unfolding evolves_def
    using wf_upd_stop [OF _ assms(1)] ids qty
    by (auto simp: live_ids_def good_but_def) (auto simp: upd_stop_def split: option.splits)
qed

section \<open>Pulling orders\<close>

lemma evolves_pull: "evolves b (fst (pull reason b i))"
proof (cases "get_resting b i")
  case None
  show ?thesis
    using evolves_trans [OF evolves_take_stop evolves_bump] by (simp add: pull_def None Let_def nextSequence_eq split: option.splits)
next
  case (Some r)
  then show ?thesis
    using evolves_trans [OF evolves_removeResting [OF Some] evolves_bump] by (simp add: pull_def Some Let_def nextSequence_eq)
qed

lemma evolves_pull_all: "evolves b (fst (pull_all reason b is))"
proof (induction "is" arbitrary: b)
  case (Cons i "is")
  then show ?case using evolves_trans [OF evolves_pull [of b reason i] Cons.IH] by (simp add: Let_def case_prod_beta)
qed simp

lemma evolves_clearOcoLink: "evolves b (clearOcoLink i b)"
  unfolding clearOcoLink_def by (rule evolves_trans [OF evolves_relink evolves_upd_stop]) simp_all

lemma evolves_add_oco_member: "evolves b (add_oco_member i b)"
  by (rule evolves_frame) (simp_all add: add_oco_member_def)

lemma evolves_rememberAccepted: "evolves b (rememberAccepted i b)"
  by (rule evolves_frame) (simp_all add: rememberAccepted_def)

lemma evolves_pullOcoLink: "evolves (fst st) (fst (pullOcoLink i inc st))"
proof -
  obtain b fired cs where st: "st = (b, fired, cs)" by (cases st) auto
  show ?thesis
  proof (cases "i \<in> set fired \<or> siblingOf b i inc = None")
    case True
    then show ?thesis by (auto simp: st pullOcoLink_def Let_def)
  next
    case False
    then obtain sib where sib: "siblingOf b i inc = Some sib" by blast
    obtain b1 c where p: "pull OcoSiblingFilled b sib = (b1, c)" by fastforce
    have "evolves b (clearOcoLink i b1)" "evolves b (clearOcoLink i (add_oco_member sib b1))"
      using evolves_pull [of b OcoSiblingFilled sib] evolves_clearOcoLink evolves_add_oco_member evolves_trans
      unfolding p fst_conv by blast+
    then show ?thesis
      using False sib p by (cases c) (simp_all add: st pullOcoLink_def Let_def pullOcoSibling_def)
  qed
qed

lemma evolves_cancelOcoSiblings: "evolves b (fst (cancelOcoSiblings b fills inc))"
proof -
  have "evolves (fst st) (fst (foldl (\<lambda>st f. pullOcoLink (f_takerOrderId f) inc (pullOcoLink (f_makerOrderId f) inc st)) st fills))" for st
  proof (induction fills arbitrary: st)
    case (Cons f fills)
    note step = evolves_trans [OF evolves_pullOcoLink [of st "f_makerOrderId f" inc] evolves_pullOcoLink]
    show ?case unfolding foldl_Cons by (rule evolves_trans [OF step Cons.IH])
  qed simp
  from this [of "(b, [], [])"] show ?thesis
    using evolves_pullOcoLink [of "(b, [], [])" "fst inc" inc]
    by (auto simp: cancelOcoSiblings_def Let_def case_prod_beta)
qed

lemma evolves_cancelReduceOnlyDue: "evolves b (fst (cancelReduceOnlyDue b))"
  unfolding cancelReduceOnlyDue_def by (rule evolves_pull_all)

lemma evolves_pullReduceOnlyRow: "evolves b (fst (pullReduceOnlyRow b row))"
proof (cases "row_stop row")
  case True
  then show ?thesis
    using evolves_trans [OF evolves_take_stop evolves_bump] by (simp add: pullReduceOnlyRow_def Let_def nextSequence_eq split: option.splits)
next
  case False
  then show ?thesis
    using evolves_trans [OF evolves_removeResting evolves_bump]
    by (auto simp: pullReduceOnlyRow_def Let_def nextSequence_eq split: option.splits)
qed

lemma evolves_displace_loop: "evolves b (fst (displace_loop qty op b res rows))"
proof (induction rows arbitrary: b res)
  case (Cons row rows)
  obtain b1 c where p: "pullReduceOnlyRow b row = (b1, c)" by fastforce
  have "evolves b (fst (displace_loop qty op b1 r rows))" for r
    using evolves_trans [OF evolves_pullReduceOnlyRow [of b row]] Cons.IH p by (metis fst_conv)
  then show ?case by (cases c) (simp_all add: p Let_def case_prod_beta)
qed simp

lemma evolves_displaceReduceOnly: "evolves b (fst (displaceReduceOnly b order))"
  by (simp add: displaceReduceOnly_def Let_def evolves_displace_loop)

lemma evolves_linkLiveSibling: "evolves b (linkLiveSibling i sib b)"
proof (cases sib)
  case (Some sid)
  let ?b2 = "upd_stop sid (\<lambda>s. if st_ocoSiblingId s = None then s\<lparr>st_ocoSiblingId := Some i\<rparr> else s)
     (upd_resting sid (\<lambda>r. if r_ocoSiblingId r = None then r\<lparr>r_ocoSiblingId := Some i\<rparr> else r) b)"
  have "evolves b ?b2" by (rule evolves_trans [OF evolves_relink evolves_upd_stop]) simp_all
  then show ?thesis
    using evolves_trans evolves_add_oco_member by (auto simp: linkLiveSibling_def Some Let_def)
qed (simp add: linkLiveSibling_def)

lemma evolves_remember_order: "evolves b (remember_order order b)"
  unfolding remember_order_def rememberOco_def
  using evolves_linkLiveSibling evolves_rememberAccepted evolves_add_oco_member evolves_trans by (smt (verit))

lemma evolves_expire_first: "evolves b (fst (expire_first env b t))"
  by (cases t) (simp_all add: expire_first_def expireDue_def evolves_pull_all)

end
