(* ===== verification/Match_Loop.thy ===== *)
theory Match_Loop
  imports Match_Steps
begin

text \<open>
  The match loop on well-formed books: the loop invariant, and what a finished match guarantees of
  its fills.
\<close>

section \<open>Pruning levels\<close>

definition prune :: "string set \<Rightarrow> price_level list \<Rightarrow> price_level list" where
  "prune D ls = filter (\<lambda>l. snd l \<noteq> []) (map (\<lambda>l. (fst l, filter (\<lambda>i. i \<notin> D) (snd l))) ls)"

lemma prune_Nil [simp]: "prune D [] = []"
  by (simp add: prune_def)

lemma prune_append [simp]: "prune D (xs @ ys) = prune D xs @ prune D ys"
  by (simp add: prune_def)

lemma prune_Cons: "prune D (l # ls) = (let ids = filter (\<lambda>i. i \<notin> D) (snd l) in if ids = [] then prune D ls else (fst l, ids) # prune D ls)"
  by (simp add: prune_def Let_def)

lemma prune_prune: "prune D (prune E ls) = prune (D \<union> E) ls"
proof (induction ls)
  case (Cons l ls)
  have "filter (\<lambda>i. i \<notin> D) (filter (\<lambda>i. i \<notin> E) (snd l)) = filter (\<lambda>i. i \<notin> D \<union> E) (snd l)"
    by (simp add: conj_commute)
  then show ?case using Cons by (auto simp: prune_Cons Let_def filter_empty_conv)
qed simp

lemma prune_absent: "\<forall>l \<in> set ls. snd l \<noteq> [] \<and> set (snd l) \<inter> D = {} \<Longrightarrow> prune D ls = ls"
proof (induction ls)
  case (Cons l ls)
  then have "filter (\<lambda>i. i \<notin> D) (snd l) = snd l" by (auto intro: filter_True)
  then show ?case using Cons by (simp add: prune_Cons Let_def)
qed simp

lemma remove_id_prune: "\<forall>l \<in> set ls. distinct (snd l) \<Longrightarrow> remove_id i ls = prune {i} ls"
  unfolding remove_id_def prune_def
  by (rule arg_cong [of _ _ "filter (\<lambda>l. snd l \<noteq> [])"]) (simp add: distinct_remove1_removeAll removeAll_filter_not_eq eq_commute)

lemma set_prune: "(p, ids) \<in> set (prune D ls) \<longleftrightarrow> (\<exists>jds. (p, jds) \<in> set ls \<and> ids = filter (\<lambda>i. i \<notin> D) jds \<and> ids \<noteq> [])"
  by (force simp: prune_def)

lemma wf_nonempty: "book_wf b \<Longrightarrow> l \<in> set (levels_of s b) \<Longrightarrow> snd l \<noteq> [] \<and> distinct (snd l)"
  by (metis prod.collapse wf_level(1,2))

lemma wf_prune_empty [simp]: "book_wf b \<Longrightarrow> prune {} (levels_of s b) = levels_of s b"
  by (rule prune_absent) (simp add: wf_nonempty)

lemma wf_levels_without: "book_wf b \<Longrightarrow> levels_of s (without i b) = prune {i} (levels_of s b)"
  by (simp add: remove_id_prune wf_nonempty)

section \<open>Effect of an OCO pull\<close>

definition unlink_if :: "bool \<Rightarrow> resting_order \<Rightarrow> resting_order" where
  "unlink_if c r = (if c then r\<lparr>r_ocoSiblingId := None\<rparr> else r)"

lemma clearOcoLink_fields [simp]:
  "levels_of s (clearOcoLink i b) = levels_of s b"
  "get_resting (clearOcoLink i b) j = map_option (unlink_if (j = i)) (get_resting b j)"
  by (simp_all add: clearOcoLink_def unlink_if_def [abs_def])

lemma oco_member_fields [simp]:
  "levels_of s (add_oco_member i b) = levels_of s b" "get_resting (add_oco_member i b) j = get_resting b j"
  by (simp_all add: add_oco_member_def levels_of_def get_resting_def)

lemma unlink_if_fields [simp]:
  "r_orderId (unlink_if c r) = r_orderId r" "r_accountId (unlink_if c r) = r_accountId r" "r_side (unlink_if c r) = r_side r"
  "r_price (unlink_if c r) = r_price r" "r_remaining (unlink_if c r) = r_remaining r" "r_displayPeak (unlink_if c r) = r_displayPeak r"
  "r_displayRemaining (unlink_if c r) = r_displayRemaining r" "r_reduceOnly (unlink_if c r) = r_reduceOnly r"
  "r_minQty (unlink_if c r) = r_minQty r" "r_aon (unlink_if c r) = r_aon r" "unlink_if False = (\<lambda>r. r)"
  by (simp_all add: unlink_if_def [abs_def])

lemma live_ok_unlink [simp]: "live_ok (unlink_if c r) = live_ok r"
  by (simp add: live_ok_def cong: option.case_cong)

lemma pull_effect:
  assumes "book_wf b" "pull reason b i = (b', c)"
  shows "levels_of s b' = prune {i} (levels_of s b)" "get_resting b' j = (if j = i then None else get_resting b j)"
proof -
  have "levels_of s b' = prune {i} (levels_of s b) \<and> get_resting b' j = (if j = i then None else get_resting b j)"
  proof (cases "get_resting b i")
    case None
    have "i \<notin> set (snd l)" if "l \<in> set (levels_of s b)" for l
      using that wf_level(3) [OF assms(1), of "fst l" "snd l"] None by fastforce
    then have "prune {i} (levels_of s b) = levels_of s b" using wf_nonempty [OF assms(1)] by (intro prune_absent) auto
    then show ?thesis using assms(2) None by (auto simp: pull_def Let_def nextSequence_eq split: option.splits)
  next
    case (Some r)
    then show ?thesis
      using assms(2) wf_levels_without [OF assms(1)] removeResting_without [OF assms(1) Some]
      by (auto simp: pull_def Let_def nextSequence_eq simp del: levels_without)
  qed
  then show "levels_of s b' = prune {i} (levels_of s b)" "get_resting b' j = (if j = i then None else get_resting b j)" by simp_all
qed

lemma pullOcoLink_effect:
  assumes "book_wf b" "pullOcoLink i inc (b, fired, cs) = (b', fired', cs')"
  obtains D c where "D \<inter> insert i (set fired) = {}" "set fired' = insert i (set fired) \<union> D"
    "\<And>s. levels_of s b' = prune D (levels_of s b)"
    "\<And>j. get_resting b' j = (if j \<in> D then None else map_option (unlink_if (c \<and> j = i)) (get_resting b j))"
proof (cases "i \<in> set fired \<or> (case siblingOf b i inc of None \<Rightarrow> True | Some sib \<Rightarrow> sib = [] \<or> sib \<in> insert i (set fired))")
  case True
  then have "b' = b" "set fired' = insert i (set fired)"
    using assms(2) by (auto simp: pullOcoLink_def Let_def split: option.splits if_splits)
  then show ?thesis using assms(1) by (intro that [of "{}" False]) (simp_all add: option.map_ident)
next
  case False
  then obtain sib where sib: "siblingOf b i inc = Some sib" "sib \<noteq> []" "sib \<notin> insert i (set fired)" "i \<notin> set fired"
    by (auto split: option.splits)
  obtain b1 c where p: "pull OcoSiblingFilled b sib = (b1, c)" by fastforce
  note eff = pull_effect [OF assms(1) p]
  show ?thesis
  proof (cases c)
    case None
    have "b1 = b" "get_resting b sib = None"
      using p None by (auto simp: pull_def Let_def nextSequence_eq split: option.splits)
    then have b': "b' = clearOcoLink i b" "set fired' = insert i (set fired)"
      using assms(2) sib p None by (auto simp: pullOcoLink_def pullOcoSibling_def Let_def)
    show ?thesis
      by (rule that [of "{}" True]) (use b' assms(1) in simp_all)
  next
    case (Some x)
    then have b': "b' = clearOcoLink i (add_oco_member sib b1)" "set fired' = insert sib (insert i (set fired))"
      using assms(2) sib p by (auto simp: pullOcoLink_def pullOcoSibling_def Let_def)
    show ?thesis
      by (rule that [of "{sib}" True]) (use b' sib eff in auto)
  qed
qed

text \<open>The trade on maker \<open>mk\<close>: other orders may vanish, but none that already filled.\<close>

lemma trade_effect:
  assumes "book_wf (m_book ms)" "get_resting (m_book ms) (r_orderId maker) = Some maker"
    and "ms' = trade order maker qty ms" "e_orderId order \<notin> live_ids (m_book ms)"
  obtains D where "D \<inter> insert (r_orderId maker) (set (m_fired ms)) = {}"
    "set (m_fired ms') = insert (e_orderId order) (insert (r_orderId maker) (set (m_fired ms))) \<union> D"
    "\<And>s. levels_of s (m_book ms') = prune D (levels_of s (m_book ms))"
    "\<exists>c. get_resting (m_book ms') (r_orderId maker) = Some (unlink_if c (take_qty qty maker))"
    "\<And>j. j \<noteq> r_orderId maker \<Longrightarrow> get_resting (m_book ms') j = (if j \<in> D then None else get_resting (m_book ms) j)"
    "evolves (upd_resting (r_orderId maker) (take_qty qty) (bump (m_book ms))) (m_book ms')"
    "m_sliced ms' = m_sliced ms" "m_fills ms' = m_fills ms @ [mk_fill (Suc (b_sequence (m_book ms))) maker order qty]"
proof -
  let ?mk = "r_orderId maker" let ?t = "e_orderId order" let ?inc = "incoming_of order"
  define b1 where "b1 = upd_resting ?mk (take_qty qty) (bump (m_book ms))"
  obtain b2 f2 c2 where p2: "pullOcoLink ?mk ?inc (b1, m_fired ms, m_cancellations ms) = (b2, f2, c2)" by (metis prod_cases3)
  obtain b3 f3 c3 where p3: "pullOcoLink ?t ?inc (b2, f2, c2) = (b3, f3, c3)" by (metis prod_cases3)
  have ms': "m_book ms' = b3" "m_fired ms' = f3" "m_sliced ms' = m_sliced ms"
    "m_fills ms' = m_fills ms @ [mk_fill (Suc (b_sequence (m_book ms))) maker order qty]"
    by (simp_all add: assms(3) trade_def Let_def nextSequence_eq b1_def [symmetric] p2 p3)
  have wf1: "book_wf b1"
    unfolding b1_def
    by (rule wf_upd_resting) (use evolvesD(1) [OF evolves_bump assms(1)] in \<open>simp_all add: take_qty_def\<close>)
  have ev: "evolves b1 b2" "evolves b2 b3"
    using evolves_pullOcoLink [of "(b1, m_fired ms, m_cancellations ms)" ?mk ?inc] evolves_pullOcoLink [of "(b2, f2, c2)" ?t ?inc]
    by (simp_all add: p2 p3)
  have wf2: "book_wf b2" using evolvesD(1) [OF ev(1) wf1] .
  obtain D c where D: "D \<inter> insert ?mk (set (m_fired ms)) = {}" "set f2 = insert ?mk (set (m_fired ms)) \<union> D"
    "\<And>s. levels_of s b2 = prune D (levels_of s b1)"
    "\<And>j. get_resting b2 j = (if j \<in> D then None else map_option (unlink_if (c \<and> j = ?mk)) (get_resting b1 j))"
    by (rule pullOcoLink_effect [OF wf1 p2]) blast
  obtain E d where E: "E \<inter> insert ?t (set f2) = {}" "set f3 = insert ?t (set f2) \<union> E"
    "\<And>s. levels_of s b3 = prune E (levels_of s b2)"
    "\<And>j. get_resting b3 j = (if j \<in> E then None else map_option (unlink_if (d \<and> j = ?t)) (get_resting b2 j))"
    by (rule pullOcoLink_effect [OF wf2 p3]) blast
  have t: "get_resting (m_book ms) ?t = None" using assms(4) by (auto simp: live_ids_def)
  have g1: "get_resting b1 j = map_option (\<lambda>r. if j = ?mk then take_qty qty r else r) (get_resting (m_book ms) j)" for j
    by (simp add: b1_def)
  show ?thesis
  proof (rule that [of "E \<union> D"])
    show "(E \<union> D) \<inter> insert ?mk (set (m_fired ms)) = {}" using D(1,2) E(1) by auto
    show "set (m_fired ms') = insert ?t (insert ?mk (set (m_fired ms))) \<union> (E \<union> D)" using D(2) E(2) ms' by auto
    show "levels_of s (m_book ms') = prune (E \<union> D) (levels_of s (m_book ms))" for s
      unfolding ms' E(3) D(3) prune_prune by (simp add: b1_def)
    show "\<exists>c. get_resting (m_book ms') ?mk = Some (unlink_if c (take_qty qty maker))"
    proof -
      have "?mk \<notin> D" "?mk \<notin> E" "?mk \<noteq> ?t" using D(1,2) E(1) t assms(2) by auto
      then show ?thesis using D(4) [of ?mk] E(4) [of ?mk] g1 [of ?mk] assms(2) unfolding ms' by (auto simp: option.map_ident)
    qed
    show "get_resting (m_book ms') j = (if j \<in> E \<union> D then None else get_resting (m_book ms) j)" if j: "j \<noteq> ?mk" for j
      using D(4) [of j] E(4) [of j] g1 [of j] t j unfolding ms' by (cases "j = ?t") (simp_all add: option.map_ident)
    show "evolves (upd_resting ?mk (take_qty qty) (bump (m_book ms))) (m_book ms')"
      using evolves_trans [OF ev] unfolding ms' b1_def .
  qed (use ms' in simp_all)
qed

section \<open>The loop invariant\<close>

text \<open>The levels before the index hold only orders already sliced in this match, and in the levels
  from the index on the sliced orders come last.\<close>

definition slice_le :: "string set \<Rightarrow> string \<Rightarrow> string \<Rightarrow> bool" where
  "slice_le S x y \<longleftrightarrow> (x \<in> S \<longrightarrow> y \<in> S)"

definition shape :: "string set \<Rightarrow> nat \<Rightarrow> price_level list \<Rightarrow> bool" where
  "shape S i ls \<longleftrightarrow> i \<le> length ls \<and> (\<forall>l \<in> set (take i ls). set (snd l) \<subseteq> S) \<and> (\<forall>l \<in> set (drop i ls). sorted_wrt (slice_le S) (snd l))"

lemma shape_prune:
  assumes "shape S i ls" "D \<inter> S = {}" "\<forall>l \<in> set ls. snd l \<noteq> []"
  shows "shape S i (prune D ls)" "take i (prune D ls) = take i ls" "drop i (prune D ls) = prune D (drop i ls)"
proof -
  have pre: "prune D (take i ls) = take i ls"
    using assms by (intro prune_absent) (auto simp: shape_def dest: in_set_takeD)
  have e: "prune D ls = take i ls @ prune D (drop i ls)"
    using prune_append [of D "take i ls" "drop i ls"] pre by simp
  have len: "length (take i ls) = i" using assms(1) by (simp add: shape_def)
  show t: "take i (prune D ls) = take i ls" "drop i (prune D ls) = prune D (drop i ls)" using e len by simp_all
  have "sorted_wrt (slice_le S) (snd l)" if l: "l \<in> set (prune D (drop i ls))" for l
  proof -
    obtain jds where "(fst l, jds) \<in> set (drop i ls)" "snd l = filter (\<lambda>i. i \<notin> D) jds"
      using set_prune [of "fst l" "snd l" D "drop i ls"] l by auto
    then show ?thesis using assms(1) by (auto simp: shape_def sorted_wrt_filter)
  qed
  then show "shape S i (prune D ls)" using t assms(1) e len by (auto simp: shape_def)
qed

lemma shape_head:
  assumes "i < length ls" "snd (ls ! i) = mk # ids"
  shows "drop i ls = (fst (ls ! i), mk # ids) # drop (Suc i) ls"
  using assms Cons_nth_drop_Suc [OF assms(1)] by (metis prod.collapse)

lemma prune_head:
  assumes "shape S i ls" "D \<inter> S = {}" "\<forall>l \<in> set ls. snd l \<noteq> []" "i < length ls" "snd (ls ! i) = mk # ids" "mk \<notin> D"
  shows "i < length (prune D ls)" "prune D ls ! i = (fst (ls ! i), mk # filter (\<lambda>i. i \<notin> D) ids)"
proof -
  have d: "drop i (prune D ls) = (fst (ls ! i), mk # filter (\<lambda>i. i \<notin> D) ids) # prune D (drop (Suc i) ls)"
    unfolding shape_prune(3) [OF assms(1-3)] shape_head [OF assms(4,5)] by (simp add: prune_Cons assms(6))
  then show i: "i < length (prune D ls)" by (metis drop_eq_Nil2 list.distinct(1) not_le_imp_less)
  show "prune D ls ! i = (fst (ls ! i), mk # filter (\<lambda>i. i \<notin> D) ids)"
    using d Cons_nth_drop_Suc [OF i] by simp
qed

lemma shape_advance:
  assumes "shape S i ls" "i < length ls" "snd (ls ! i) = mk # ids" "mk \<in> S"
  shows "shape S (Suc i) ls"
proof -
  have "sorted_wrt (slice_le S) (mk # ids)" using assms(1) shape_head [OF assms(2,3)] by (simp add: shape_def)
  then have "set (mk # ids) \<subseteq> S" using assms(4) by (auto simp: slice_le_def)
  then show ?thesis
    using assms(1,2,3) shape_head [OF assms(2,3)] by (auto simp: shape_def take_Suc_conv_app_nth)
qed

lemma shape_rotate:
  assumes "shape S i ls" "i < length ls" "snd (ls ! i) = mk # ids" "mk \<notin> S" "mk \<notin> set ids"
    and "\<forall>l \<in> set (drop (Suc i) ls). mk \<notin> set (snd l)"
  shows "shape (insert mk S) i (ls[i := (p, ids @ [mk])])"
proof -
  have srt: "sorted_wrt (slice_le S) (mk # ids)" "\<forall>l \<in> set (drop (Suc i) ls). sorted_wrt (slice_le S) (snd l)"
    using assms(1) shape_head [OF assms(2,3)] by (simp_all add: shape_def)
  have mono: "sorted_wrt (slice_le (insert mk S)) xs" if "sorted_wrt (slice_le S) xs" "mk \<notin> set xs" for xs
    using that by (induction xs) (auto simp: slice_le_def)
  have "sorted_wrt (slice_le (insert mk S)) (ids @ [mk])"
    using mono [of ids] srt(1) assms(5) by (auto simp: sorted_wrt_append slice_le_def)
  moreover have "drop i (ls[i := (p, ids @ [mk])]) = (p, ids @ [mk]) # drop (Suc i) ls"
    using assms(2) by (simp add: drop_update_swap Cons_nth_drop_Suc [symmetric])
  ultimately show ?thesis
    using assms(1,2,6) srt(2) mono by (auto simp: shape_def)
qed

abbreviation opp_levels :: "effective_order \<Rightarrow> order_book \<Rightarrow> price_level list" where
  "opp_levels order b \<equiv> levels_of (opposite (e_side order)) b"

definition match_inv :: "effective_order \<Rightarrow> nat \<Rightarrow> match_state \<Rightarrow> bool" where
  "match_inv order i ms \<longleftrightarrow> book_wf (m_book ms) \<and> good_but {} (m_book ms) \<and> e_orderId order \<notin> live_ids (m_book ms)
     \<and> set (m_sliced ms) \<subseteq> set (m_fired ms) \<and> shape (set (m_sliced ms)) i (opp_levels order (m_book ms))"

text \<open>Taking the head of the level at the index out of the book.\<close>

lemma drop_head_inv:
  assumes "book_wf b" "good_but {mk} b" "shape S i (levels_of s b)" "i < length (levels_of s b)"
    and "snd (levels_of s b ! i) = mk # ids" "mk \<notin> S"
  shows "drop_head s i mk b = without mk b" "book_wf (without mk b)" "good_but {} (without mk b)"
    "shape S i (levels_of s (without mk b))" "live_ids (without mk b) \<subseteq> live_ids b"
proof -
  show "drop_head s i mk b = without mk b" by (rule drop_head_without [OF assms(1,4,5)])
  show "book_wf (without mk b)" by (rule wf_without [OF assms(1)])
  show "good_but {} (without mk b)" using assms(2) by (auto simp: good_but_def split: if_splits)
  show "shape S i (levels_of s (without mk b))"
    unfolding wf_levels_without [OF assms(1)]
    by (rule shape_prune(1) [OF assms(3)]) (use assms(6) wf_nonempty [OF assms(1)] in auto)
  show "live_ids (without mk b) \<subseteq> live_ids b" by (auto simp: live_ids_def)
qed

lemma good_but_mono: "good_but X b \<Longrightarrow> X \<subseteq> Y \<Longrightarrow> good_but Y b"
  by (auto simp: good_but_def)

lemma good_but_fix: "good_but {mk} b \<Longrightarrow> (\<And>r. get_resting b mk = Some r \<Longrightarrow> live_ok r) \<Longrightarrow> good_but {} b"
  by (auto simp: good_but_def)

lemma take_qty_live:
  assumes "live_ok r" "0 < q" "q \<le> visibleRemaining (r_remaining r) (r_displayRemaining r)" "r_remaining (take_qty q r) \<noteq> 0"
  shows "0 < r_remaining (take_qty q r)"
    "\<not> (\<exists>peak. r_displayRemaining (take_qty q r) = Some 0 \<and> r_displayPeak r = Some peak) \<Longrightarrow> live_ok (take_qty q r)"
    "r_displayPeak r = Some peak \<Longrightarrow> live_ok (unlink_if c (take_qty q r)\<lparr>r_displayRemaining := Some (refillDisplay peak (r_remaining (take_qty q r)))\<rparr>)"
  using assms by (auto simp: live_ok_def take_qty_def visibleRemaining_def refillDisplay_def split: option.splits)

lemma r_orderId_take_qty [simp]: "r_orderId (take_qty q r) = r_orderId r" "r_displayPeak (take_qty q r) = r_displayPeak r"
  "r_accountId (take_qty q r) = r_accountId r" "r_side (take_qty q r) = r_side r" "r_reduceOnly (take_qty q r) = r_reduceOnly r"
  "r_price (take_qty q r) = r_price r"
  by (simp_all add: take_qty_def)

lemma settle_inv:
  assumes "book_wf (m_book ms)" "good_but {mk} (m_book ms)" "e_orderId order \<notin> live_ids (m_book ms)"
    and "set (m_sliced ms) \<subseteq> set (m_fired ms)" "mk \<in> set (m_fired ms)" "mk \<notin> set (m_sliced ms)"
    and "shape (set (m_sliced ms)) i (opp_levels order (m_book ms))" "i < length (opp_levels order (m_book ms))"
    and "snd (opp_levels order (m_book ms) ! i) = mk # ids"
    and "get_resting (m_book ms) mk = Some (unlink_if c (take_qty q maker))" "r_orderId maker = mk" "live_ok maker" "0 < q"
    and "q \<le> visibleRemaining (r_remaining maker) (r_displayRemaining maker)"
  shows "match_inv order i (settle_maker (opposite (e_side order)) i (take_qty q maker) ms)"
proof -
  let ?s = "opposite (e_side order)" let ?b = "m_book ms" let ?m = "take_qty q maker"
  note dh = drop_head_inv [OF assms(1,2,7,8,9,6)]
  consider (filled) "r_remaining ?m = 0"
    | (closed) "r_remaining ?m \<noteq> 0" "r_reduceOnly maker \<and> openQty (netAfterFills ?b (r_accountId maker) (m_fills ms)) (r_side maker) = 0"
    | (slice) peak where "r_remaining ?m \<noteq> 0" "r_displayRemaining ?m = Some 0" "r_displayPeak maker = Some peak"
        "\<not> (r_reduceOnly maker \<and> openQty (netAfterFills ?b (r_accountId maker) (m_fills ms)) (r_side maker) = 0)"
    | (keep) "r_remaining ?m \<noteq> 0" "\<not> (\<exists>peak. r_displayRemaining ?m = Some 0 \<and> r_displayPeak maker = Some peak)"
        "\<not> (r_reduceOnly maker \<and> openQty (netAfterFills ?b (r_accountId maker) (m_fills ms)) (r_side maker) = 0)"
    by blast
  then show ?thesis
  proof cases
    case filled
    then have "settle_maker ?s i ?m ms = ms\<lparr>m_book := without mk ?b\<rparr>" using dh(1) assms(11) by (simp add: settle_maker_def)
    then show ?thesis using dh assms(3,4) by (auto simp: match_inv_def)
  next
    case closed
    have wf: "book_wf (bump ?b)" "good_but {mk} (bump ?b)" using evolvesD [OF evolves_bump assms(1)] assms(2) by blast+
    have dh': "drop_head ?s i mk (bump ?b) = without mk (bump ?b)" "book_wf (without mk (bump ?b))"
      "good_but {} (without mk (bump ?b))" "shape (set (m_sliced ms)) i (levels_of ?s (without mk (bump ?b)))"
      "live_ids (without mk (bump ?b)) \<subseteq> live_ids (bump ?b)"
      using drop_head_inv [OF wf, of "set (m_sliced ms)" i ?s ids] assms(6-9) by simp_all
    have "live_ids (bump ?b) = live_ids ?b" by (simp add: live_ids_def)
    then show ?thesis
      using closed dh' assms(3,4,11) by (auto simp: settle_maker_def pullReduceOnlyMaker_def match_inv_def Let_def nextSequence_eq)
  next
    case (slice peak)
    let ?f = "\<lambda>r. r\<lparr>r_displayRemaining := Some (refillDisplay peak (r_remaining ?m))\<rparr>"
    let ?u = "upd_resting mk ?f ?b"
    have e: "settle_maker ?s i ?m ms = ms\<lparr>m_book := rotate_level ?s i mk ?u, m_sliced := set_add mk (m_sliced ms)\<rparr>"
      using slice assms(11) by (auto simp: settle_maker_def)
    have wfu: "book_wf ?u" by (rule wf_upd_resting [OF assms(1)]) simp
    have wf: "book_wf (rotate_level ?s i mk ?u)" by (rule wf_rotate [OF wfu]) (use assms(8,9) in simp_all)
    have g: "get_resting (rotate_level ?s i mk b) j = get_resting b j" for b j
      by (simp add: rotate_level_def Let_def get_resting_def)
    have lv: "levels_of ?s (rotate_level ?s i mk ?u) = (opp_levels order ?b)[i := (fst (opp_levels order ?b ! i), ids @ [mk])]"
      by (simp add: rotate_level_def Let_def assms(9))
    have "good_but {mk} (rotate_level ?s i mk ?u)" using assms(2) by (auto simp: good_but_def g split: if_splits)
    then have good: "good_but {} (rotate_level ?s i mk ?u)"
      by (rule good_but_fix) (use take_qty_live(3) [OF assms(12-14) slice(1,3), of c] assms(10) in \<open>simp add: g\<close>)
    have mem: "opp_levels order ?b ! i \<in> set (opp_levels order ?b)" using assms(8) by simp
    have nd: "mk \<notin> set ids" using wf_nonempty [OF assms(1) mem] assms(9) by simp
    have later: "\<forall>l \<in> set (drop (Suc i) (opp_levels order ?b)). mk \<notin> set (snd l)"
    proof
      fix l assume "l \<in> set (drop (Suc i) (opp_levels order ?b))"
      then obtain k where k: "i < k" "k < length (opp_levels order ?b)" "l = opp_levels order ?b ! k"
        by (auto simp: in_set_conv_nth) (metis add_Suc less_add_Suc1 less_diff_conv add.commute)
      then have "fst l \<noteq> fst (opp_levels order ?b ! i)"
        using sorted_levels_nth [OF wf_sorted [OF assms(1)] k(1,2)] better_irrefl by metis
      then show "mk \<notin> set (snd l)"
        using wf_level_mem [OF assms(1,10), of "fst l" "snd l" ?s] wf_level_mem [OF assms(1,10), of "fst (opp_levels order ?b ! i)" "mk # ids" ?s]
          mem assms(9) k by (metis list.set_intros(1) nth_mem prod.collapse)
    qed
    have "shape (set (set_add mk (m_sliced ms))) i (opp_levels order (rotate_level ?s i mk ?u))"
      unfolding lv set_set_add by (rule shape_rotate [OF assms(7-9,6) nd later])
    moreover have "live_ids (rotate_level ?s i mk ?u) = live_ids ?b" by (simp add: live_ids_def g)
    ultimately show ?thesis using wf good assms(3-5) by (simp add: e match_inv_def)
  next
    case keep
    then have "settle_maker ?s i ?m ms = ms" by (auto simp: settle_maker_def split: option.splits)
    moreover have "good_but {} ?b"
      using assms(2) by (rule good_but_fix)
        (use take_qty_live(2) [OF assms(12-14) keep(1,2)] assms(10) in simp)
    ultimately show ?thesis using assms by (simp add: match_inv_def)
  qed
qed

lemma match_iter_inv:
  assumes "match_inv order i ms" "match_iter order i ms = (ms', nxt)"
  shows "match_inv order (if nxt = Advance then Suc i else i) ms'"
  using assms(2)
proof (cases rule: match_iter_cases)
  case gone
  then have False using wf_nonempty [of "m_book ms" "opp_levels order (m_book ms) ! i" "opposite (e_side order)"] assms(1)
    by (simp add: match_inv_def)
  then show ?thesis ..
next
  case (maker mk ids r)
  let ?s = "opposite (e_side order)"
  have inv: "book_wf (m_book ms)" "good_but {} (m_book ms)" "e_orderId order \<notin> live_ids (m_book ms)"
    "set (m_sliced ms) \<subseteq> set (m_fired ms)" "shape (set (m_sliced ms)) i (opp_levels order (m_book ms))"
    using assms(1) by (simp_all add: match_inv_def)
  have id: "r_orderId r = mk" using wf_get(1) [OF inv(1) maker(5)] .
  have ne: "\<forall>l \<in> set (opp_levels order (m_book ms)). snd l \<noteq> []" using wf_nonempty [OF inv(1)] by blast
  have drop: "match_inv order i (ms\<lparr>m_book := drop_head ?s i mk b, m_cancellations := cs, m_cases := ca\<rparr>)"
    if b: "b_bids b = b_bids (m_book ms)" "b_asks b = b_asks (m_book ms)" "b_index b = b_index (m_book ms)" "b_stops b = b_stops (m_book ms)"
      and mk: "mk \<notin> set (m_sliced ms)" for b cs ca
  proof -
    have eq: "levels_of s b = levels_of s (m_book ms)" "get_resting b j = get_resting (m_book ms) j" for s j
      using b by (simp_all add: levels_of_def get_resting_def)
    have w: "book_wf b" "good_but {mk} b" "live_ids b = live_ids (m_book ms)"
      using wf_cong [of b "m_book ms"] b inv(1,2) by (simp_all add: good_but_def live_ids_def eq)
    show ?thesis
      using drop_head_inv [OF w(1,2), of "set (m_sliced ms)" i ?s ids] w(3) maker(2,4) inv(3-5) mk by (auto simp: eq match_inv_def)
  qed
  from maker(6) show ?thesis
  proof (cases rule: match_maker_cases)
    case sliced
    then show ?thesis using assms(1) shape_advance [OF inv(5) maker(2,4)] id by (simp add: match_inv_def)
  next
    case halt
    then show ?thesis using assms(1) by simp
  next
    case self
    then show ?thesis using drop id by (simp add: expire_self_trade_def Let_def nextSequence_eq)
  next
    case pulled
    then show ?thesis
      using drop [of "bump (m_book ms)" "m_cases ms" "m_cancellations ms'"] id
      by (simp add: pullReduceOnlyMaker_def Let_def nextSequence_eq)
  next
    case (traded qty)
    define t where "t = trade order r qty ms"
    have "get_resting (m_book ms) (r_orderId r) = Some r" using maker(5) id by simp
    then obtain D where D: "D \<inter> insert mk (set (m_fired ms)) = {}"
      "set (m_fired t) = insert (e_orderId order) (insert mk (set (m_fired ms))) \<union> D"
      "\<And>s. levels_of s (m_book t) = prune D (levels_of s (m_book ms))"
      "\<exists>c. get_resting (m_book t) mk = Some (unlink_if c (take_qty qty r))"
      "evolves (upd_resting mk (take_qty qty) (bump (m_book ms))) (m_book t)" "m_sliced t = m_sliced ms"
      using trade_effect [OF inv(1) _ t_def inv(3)] id by metis
    let ?b1 = "upd_resting mk (take_qty qty) (bump (m_book ms))"
    have w1: "book_wf ?b1" by (rule wf_upd_resting) (use evolvesD(1) [OF evolves_bump inv(1)] in simp_all)
    have "good_but {mk} ?b1" using inv(2) by (auto simp: good_but_def split: if_splits)
    then have w: "book_wf (m_book t)" "good_but {mk} (m_book t)" using evolvesD [OF D(5) w1] by blast+
    have l: "e_orderId order \<notin> live_ids (m_book t)"
      using evolvesD(2) [OF D(5) w1] inv(3) by (auto simp: live_ids_def)
    have DS: "D \<inter> set (m_sliced ms) = {}" using D(1) inv(4) by auto
    note ph = prune_head [OF inv(5) DS ne maker(2,4)] and sp = shape_prune(1) [OF inv(5) DS ne]
    have lr: "live_ok r" using inv(2) maker(5) by (auto simp: good_but_def)
    obtain c where c: "get_resting (m_book t) mk = Some (unlink_if c (take_qty qty r))" using D(4) by blast
    have "match_inv order i (settle_maker ?s i (take_qty qty r) t)"
      by (rule settle_inv [OF w l, where ids = "filter (\<lambda>i. i \<notin> D) ids", OF _ _ _ _ _ _ c id lr traded(3,5)])
        (use D inv(4) traded(1) id sp ph in auto)
    then show ?thesis using traded by (simp add: t_def)
  qed
qed (use assms(1) in simp)

lemma unsliced [simp]: "sorted_wrt (slice_le {}) xs"
  by (induction xs) (simp_all add: slice_le_def)

lemma match_inv_init:
  assumes "book_wf b" "good_but {} b" "e_orderId order \<notin> live_ids b"
  shows "match_inv order 0 (match_init b order)"
  using assms by (simp add: match_inv_def match_init_def shape_def)

lemma match_inv_match:
  assumes "book_wf b" "good_but {} b" "e_orderId order \<notin> live_ids b"
  obtains j where "match_inv order j (match b order)"
  using match_loop_keeps [where P = "match_inv order", OF match_inv_init [OF assms]] match_iter_inv
  unfolding match_def by blast

end
