(* ===== verification/Match_Fills.thy ===== *)
theory Match_Fills
  imports Match_Loop
begin

text \<open>
  What a match does, step by step and as a whole: conservation of quantity on both sides, price
  limits and price priority, no self trades, strictly increasing sequence numbers.
\<close>

section \<open>Steps of the loop\<close>

text \<open>What every step keeps of the book around the levels.\<close>

definition later :: "order_book \<Rightarrow> order_book \<Rightarrow> bool" where
  "later b b' \<longleftrightarrow> live_ids b' \<subseteq> live_ids b \<and> b_sequence b \<le> b_sequence b' \<and> b_positions b' = b_positions b
     \<and> b_marketId b' = b_marketId b \<and> b_depthCache b' = b_depthCache b"

lemma later_refl [simp]: "later b b"
  by (simp add: later_def)

lemma later_trans: "later b c \<Longrightarrow> later c d \<Longrightarrow> later b d"
  by (auto simp: later_def)

lemma evolves_later: "evolves b b' \<Longrightarrow> book_wf b \<Longrightarrow> later b b'"
  by (simp add: evolves_def later_def)

lemma later_cong:
  assumes "\<And>j r. get_resting b' j = Some r \<Longrightarrow> get_resting b j \<noteq> None" "b_stops b' = b_stops b" "b_sequence b \<le> b_sequence b'"
    "b_positions b' = b_positions b" "b_marketId b' = b_marketId b" "b_depthCache b' = b_depthCache b"
  shows "later b b'"
proof -
  have "live_ids b' \<subseteq> live_ids b" unfolding live_ids_def using assms(1,2) by auto
  then show ?thesis using assms by (simp add: later_def)
qed

lemma upd_resting_fields [simp]:
  "b_sequence (upd_resting i f b) = b_sequence b" "b_positions (upd_resting i f b) = b_positions b"
  "b_marketId (upd_resting i f b) = b_marketId b" "b_depthCache (upd_resting i f b) = b_depthCache b"
  by (simp_all add: upd_resting_def)

lemma drop_head_fields [simp]:
  "b_sequence (drop_head s i mk b) = b_sequence b" "b_positions (drop_head s i mk b) = b_positions b"
  "b_marketId (drop_head s i mk b) = b_marketId b" "b_depthCache (drop_head s i mk b) = b_depthCache b"
  "get_resting (drop_head s i mk b) j = (if j = mk then None else get_resting b j)"
  by (simp_all add: drop_head_def Let_def set_levels_def get_resting_def delete_conv)

lemma cases_fields [simp]:
  "get_resting (b\<lparr>b_surveillanceCases := c\<rparr>) j = get_resting b j"
  by (simp add: get_resting_def)

lemma rotate_fields [simp]:
  "b_sequence (rotate_level s i mk b) = b_sequence b" "b_positions (rotate_level s i mk b) = b_positions b"
  "b_marketId (rotate_level s i mk b) = b_marketId b" "b_depthCache (rotate_level s i mk b) = b_depthCache b"
  "get_resting (rotate_level s i mk b) j = get_resting b j"
  by (simp_all add: rotate_level_def Let_def set_levels_def get_resting_def)

lemma drop_update_here: "i < length ls \<Longrightarrow> drop i (ls[i := x]) = x # drop (Suc i) ls"
  by (simp add: drop_update_swap Cons_nth_drop_Suc [symmetric])

lemma drop_splice_out: "i < length ls \<Longrightarrow> drop i (splice_out i ls) = drop (Suc i) ls"
  by (simp add: splice_out_def)

lemma settle_maker_cases:
  obtains (drop) "settle_maker s i maker ms = ms\<lparr>m_book := drop_head s i (r_orderId maker) (m_book ms)\<rparr>"
  | (closed) cs where "settle_maker s i maker ms = ms\<lparr>m_book := drop_head s i (r_orderId maker) (bump (m_book ms)), m_cancellations := cs\<rparr>"
  | (slice) d where "settle_maker s i maker ms = ms\<lparr>m_book := rotate_level s i (r_orderId maker)
       (upd_resting (r_orderId maker) (\<lambda>r. r\<lparr>r_displayRemaining := Some d\<rparr>) (m_book ms)), m_sliced := set_add (r_orderId maker) (m_sliced ms)\<rparr>"
  | (keep) "settle_maker s i maker ms = ms"
  unfolding settle_maker_def pullReduceOnlyMaker_def Let_def nextSequence_eq
  by (cases "r_remaining maker = 0"; cases "r_reduceOnly maker \<and> openQty (netAfterFills (m_book ms) (r_accountId maker) (m_fills ms)) (r_side maker) = 0";
      cases "r_displayRemaining maker"; cases "r_displayPeak maker"; cases "r_displayRemaining maker = Some 0") auto

text \<open>Settling a maker touches that maker only.\<close>

lemma settle_fields:
  assumes "r_orderId maker = mk"
  shows "later (m_book ms) (m_book (settle_maker s i maker ms))"
    "j \<noteq> mk \<Longrightarrow> get_resting (m_book (settle_maker s i maker ms)) j = get_resting (m_book ms) j"
    "get_resting (m_book (settle_maker s i maker ms)) mk = Some r' \<Longrightarrow>
      \<exists>r. get_resting (m_book ms) mk = Some r \<and> (r' = r \<or> (\<exists>d. r' = r\<lparr>r_displayRemaining := d\<rparr>))"
    "m_fills (settle_maker s i maker ms) = m_fills ms" "m_fired (settle_maker s i maker ms) = m_fired ms"
proof -
  show "later (m_book ms) (m_book (settle_maker s i maker ms))"
    by (cases s i maker ms rule: settle_maker_cases) (simp_all, (rule later_cong; auto split: if_splits)+)
  show "j \<noteq> mk \<Longrightarrow> get_resting (m_book (settle_maker s i maker ms)) j = get_resting (m_book ms) j"
    using assms by (cases s i maker ms rule: settle_maker_cases) (simp_all add: option.map_ident)
  show "get_resting (m_book (settle_maker s i maker ms)) mk = Some r' \<Longrightarrow>
      \<exists>r. get_resting (m_book ms) mk = Some r \<and> (r' = r \<or> (\<exists>d. r' = r\<lparr>r_displayRemaining := d\<rparr>))"
    using assms by (cases s i maker ms rule: settle_maker_cases) auto
  show "m_fills (settle_maker s i maker ms) = m_fills ms" "m_fired (settle_maker s i maker ms) = m_fired ms"
    by (cases s i maker ms rule: settle_maker_cases; simp)+
qed

lemma settle_later_levels:
  assumes "i < length (levels_of s (m_book ms))" "snd (levels_of s (m_book ms) ! i) = mk # ids" "r_orderId maker = mk"
  shows "fst ` set (drop i (levels_of s (m_book (settle_maker s i maker ms)))) \<subseteq> fst ` set (drop i (levels_of s (m_book ms)))"
proof -
  have d: "drop i (levels_of s (m_book ms)) = levels_of s (m_book ms) ! i # drop (Suc i) (levels_of s (m_book ms))"
    using Cons_nth_drop_Suc [OF assms(1)] by simp
  show ?thesis
    using assms(1,2)
    by (cases s i maker ms rule: settle_maker_cases)
      (auto simp: drop_head_def rotate_level_def Let_def drop_update_here drop_splice_out d)
qed

lemma match_iter_step:
  assumes "match_inv order i ms" "match_iter order i ms = (ms', nxt)"
  obtains (quiet) "ms' = ms"
  | (removed) mk r where "get_resting (m_book ms) mk = Some r" "nxt = Again"
      "\<And>j. get_resting (m_book ms') j = (if j = mk then None else get_resting (m_book ms) j)"
      "m_fills ms' = m_fills ms" "m_remaining ms' = m_remaining ms" "later (m_book ms) (m_book ms')"
      "fst ` set (drop i (opp_levels order (m_book ms'))) \<subseteq> fst ` set (drop i (opp_levels order (m_book ms)))"
  | (traded) mk r qty D where "get_resting (m_book ms) mk = Some r" "nxt = Again" "r_orderId r = mk" "0 < qty"
      "qty \<le> m_remaining ms" "qty \<le> r_remaining r" "e_accountId order \<noteq> r_accountId r" "r_side r = opposite (e_side order)"
      "\<And>lim. e_price order = Some lim \<Longrightarrow> crossesLevel (e_side order) lim (r_price r)"
      "i < length (opp_levels order (m_book ms))" "fst (opp_levels order (m_book ms) ! i) = r_price r"
      "m_remaining ms' = m_remaining ms - qty"
      "m_fills ms' = m_fills ms @ [mk_fill (Suc (b_sequence (m_book ms))) r order qty]"
      "mk \<notin> D" "\<And>j. j \<noteq> mk \<Longrightarrow> get_resting (m_book ms') j = (if j \<in> D then None else get_resting (m_book ms) j)"
      "\<And>r'. get_resting (m_book ms') mk = Some r' \<Longrightarrow> r_remaining r' = r_remaining r - qty \<and> r_price r' = r_price r
         \<and> r_accountId r' = r_accountId r \<and> r_side r' = r_side r \<and> r_reduceOnly r' = r_reduceOnly r"
      "later (m_book ms) (m_book ms')" "b_sequence (m_book ms) < b_sequence (m_book ms')"
      "fst ` set (drop i (opp_levels order (m_book ms'))) \<subseteq> fst ` set (drop i (opp_levels order (m_book ms)))"
      "r_reduceOnly r \<Longrightarrow> qty \<le> openQty (netAfterFills (m_book ms) (r_accountId r) (m_fills ms)) (r_side r)"
  using assms(2)
proof (cases rule: match_iter_cases)
  case gone
  then have False using wf_nonempty [of "m_book ms" "opp_levels order (m_book ms) ! i" "opposite (e_side order)"] assms(1)
    by (simp add: match_inv_def)
  then show ?thesis ..
next
  case halt
  then show ?thesis using quiet by simp
next
  case (maker mk ids r)
  let ?s = "opposite (e_side order)" let ?ls = "opp_levels order (m_book ms)"
  have inv: "book_wf (m_book ms)" "good_but {} (m_book ms)" "e_orderId order \<notin> live_ids (m_book ms)"
    "set (m_sliced ms) \<subseteq> set (m_fired ms)" "shape (set (m_sliced ms)) i ?ls"
    using assms(1) by (simp_all add: match_inv_def)
  have id: "r_orderId r = mk" using wf_get(1) [OF inv(1) maker(5)] .
  have ne: "\<forall>l \<in> set ?ls. snd l \<noteq> []" using wf_nonempty [OF inv(1)] by blast
  have mem: "(fst (?ls ! i), mk # ids) \<in> set ?ls" using maker(2,4) by (metis nth_mem prod.collapse)
  have rp: "r_side r = ?s" "r_price r = fst (?ls ! i)" using wf_level_mem [OF inv(1) maker(5) mem] by auto
  have ro: "levels_of ?s (drop_head ?s i mk b) = (if ids = [] then splice_out i ?ls else ?ls[i := (fst (?ls ! i), ids)])"
    if "levels_of ?s b = ?ls" for b using that maker(4) by (simp add: drop_head_def Let_def)
  have sub: "fst ` set (drop i (levels_of ?s (drop_head ?s i mk b))) \<subseteq> fst ` set (drop i ?ls)" if "levels_of ?s b = ?ls" for b
    using maker(2) unfolding ro [OF that] Cons_nth_drop_Suc [OF maker(2), symmetric]
    by (auto simp: drop_update_here drop_splice_out)
  from maker(6) show ?thesis
  proof (cases rule: match_maker_cases)
    case self
    show ?thesis
      by (rule removed [OF maker(5) self(4)])
        (use id self(3) sub in \<open>auto simp: expire_self_trade_def Let_def nextSequence_eq intro!: later_cong split: if_splits\<close>)
  next
    case pulled
    show ?thesis
      by (rule removed [OF maker(5) pulled(6)])
        (use id pulled(5) sub in \<open>auto simp: pullReduceOnlyMaker_def Let_def nextSequence_eq intro!: later_cong split: if_splits\<close>)
  next
    case (traded qty)
    define t where "t = trade order r qty ms"
    have "get_resting (m_book ms) (r_orderId r) = Some r" using maker(5) id by simp
    then obtain D where D: "D \<inter> insert mk (set (m_fired ms)) = {}"
      "\<And>s. levels_of s (m_book t) = prune D (levels_of s (m_book ms))"
      "\<exists>c. get_resting (m_book t) mk = Some (unlink_if c (take_qty qty r))"
      "\<And>j. j \<noteq> mk \<Longrightarrow> get_resting (m_book t) j = (if j \<in> D then None else get_resting (m_book ms) j)"
      "evolves (upd_resting mk (take_qty qty) (bump (m_book ms))) (m_book t)"
      "m_fills t = m_fills ms @ [mk_fill (Suc (b_sequence (m_book ms))) r order qty]"
      using trade_effect [OF inv(1) _ t_def inv(3)] id by metis
    let ?b1 = "upd_resting mk (take_qty qty) (bump (m_book ms))"
    have w1: "book_wf ?b1" by (rule wf_upd_resting) (use evolvesD(1) [OF evolves_bump inv(1)] in simp_all)
    have lt: "later ?b1 (m_book t)" by (rule evolves_later [OF D(5) w1])
    have l1: "later (m_book ms) ?b1" by (rule later_cong) auto
    have DS: "D \<inter> set (m_sliced ms) = {}" using D(1) inv(4) by auto
    note ph = prune_head [OF inv(5) DS ne maker(2,4)] and dp = shape_prune(3) [OF inv(5) DS ne]
    have m: "r_orderId (take_qty qty r) = mk" using id by simp
    note sf = settle_fields [OF m, where ms = t and s = ?s and i = i]
    have ms': "ms' = settle_maker ?s i (take_qty qty r) t" using traded by (simp add: t_def)
    have pr: "fst ` set (drop i (opp_levels order (m_book ms'))) \<subseteq> fst ` set (drop i ?ls)"
    proof -
      have "fst ` set (drop i (opp_levels order (m_book ms'))) \<subseteq> fst ` set (drop i (levels_of ?s (m_book t)))"
        unfolding ms' by (rule settle_later_levels [where ids = "filter (\<lambda>i. i \<notin> D) ids" and mk = mk]) (use ph D(1) m in \<open>auto simp: D(2)\<close>)
      moreover have "fst ` set (prune D (drop i ?ls)) \<subseteq> fst ` set (drop i ?ls)" by (force simp: prune_def)
      ultimately show ?thesis unfolding D(2) dp by blast
    qed
    have vis: "visibleRemaining (r_remaining r) (r_displayRemaining r) \<le> r_remaining r"
      by (auto simp: visibleRemaining_def split: option.splits)
    show ?thesis
    proof (rule that(3) [OF maker(5) traded(10) id traded(3,4), of D])
      show "later (m_book ms) (m_book ms')" unfolding ms' using later_trans [OF later_trans [OF l1 lt] sf(1)] .
      show "b_sequence (m_book ms) < b_sequence (m_book ms')"
        using lt sf(1) unfolding ms' by (auto simp: later_def)
      show "r_remaining r' = r_remaining r - qty \<and> r_price r' = r_price r \<and> r_accountId r' = r_accountId r \<and> r_side r' = r_side r
          \<and> r_reduceOnly r' = r_reduceOnly r"
        if "get_resting (m_book ms') mk = Some r'" for r'
        using that D(3) sf(3) unfolding ms' by (auto simp: take_qty_def)
      show "get_resting (m_book ms') j = (if j \<in> D then None else get_resting (m_book ms) j)" if "j \<noteq> mk" for j
        using that D(4) sf(2) unfolding ms' by simp
    qed (use traded vis rp maker D sf pr ms' in \<open>auto simp: t_def\<close>)
  qed (use quiet in simp_all)
qed

section \<open>Fills of a match\<close>

definition filled_on :: "string \<Rightarrow> fill list \<Rightarrow> amount" where
  "filled_on j fs = (\<Sum>f\<leftarrow>filter (\<lambda>f. f_makerOrderId f = j) fs. f_qty f)"

lemma filled_on_snoc [simp]: "filled_on j (fs @ [f]) = filled_on j fs + (if f_makerOrderId f = j then f_qty f else 0)"
  by (simp add: filled_on_def)

lemma filled_on_Nil [simp]: "filled_on j [] = 0"
  by (simp add: filled_on_def)

text \<open>A fill of \<open>order\<close> against an order of \<open>b\<close>, at that order's price and within the limit.\<close>

definition fair_fill :: "order_book \<Rightarrow> effective_order \<Rightarrow> fill \<Rightarrow> bool" where
  "fair_fill b order f \<longleftrightarrow> 0 < f_qty f \<and> f_takerOrderId f = e_orderId order \<and> f_takerAccountId f = e_accountId order
     \<and> f_takerSide f = e_side order \<and> f_makerAccountId f \<noteq> e_accountId order
     \<and> (\<forall>lim. e_price order = Some lim \<longrightarrow> crossesLevel (e_side order) lim (f_price f))
     \<and> (\<exists>r. get_resting b (f_makerOrderId f) = Some r \<and> r_price r = f_price f \<and> r_accountId r = f_makerAccountId f
          \<and> r_side r = opposite (e_side order))"

text \<open>Earlier fills have smaller sequence numbers and prices at least as good for the taker.\<close>

definition before_fill :: "effective_order \<Rightarrow> fill \<Rightarrow> fill \<Rightarrow> bool" where
  "before_fill order f g \<longleftrightarrow> f_sequence f < f_sequence g \<and> \<not> better (opposite (e_side order)) (f_price g) (f_price f)"

definition fills_ok :: "order_book \<Rightarrow> effective_order \<Rightarrow> nat \<Rightarrow> match_state \<Rightarrow> bool" where
  "fills_ok b0 order i ms \<longleftrightarrow>
     e_qty order = (\<Sum>f\<leftarrow>m_fills ms. f_qty f) + m_remaining ms \<and> 0 \<le> m_remaining ms
     \<and> (\<forall>f \<in> set (m_fills ms). fair_fill b0 order f \<and> b_sequence b0 < f_sequence f \<and> f_sequence f \<le> b_sequence (m_book ms)
         \<and> (\<forall>p \<in> fst ` set (drop i (opp_levels order (m_book ms))). \<not> better (opposite (e_side order)) p (f_price f)))
     \<and> sorted_wrt (before_fill order) (m_fills ms)
     \<and> (\<forall>j r. get_resting (m_book ms) j = Some r \<longrightarrow> (\<exists>r0. get_resting b0 j = Some r0
          \<and> r_remaining r + filled_on j (m_fills ms) = r_remaining r0 \<and> r_price r = r_price r0
          \<and> r_accountId r = r_accountId r0 \<and> r_side r = r_side r0))
     \<and> (\<forall>j r0. get_resting b0 j = Some r0 \<longrightarrow> filled_on j (m_fills ms) \<le> r_remaining r0)
     \<and> later b0 (m_book ms)"

lemma fills_ok_init:
  assumes "good_but {} b" "0 \<le> e_qty order"
  shows "fills_ok b order i (match_init b order)"
  using assms by (force simp: fills_ok_def match_init_def good_but_def live_ok_def)

lemma crossing_level_worse:
  assumes "book_wf b" "i < length (levels_of s b)" "p \<in> fst ` set (drop i (levels_of s b))"
  shows "\<not> better s p (fst (levels_of s b ! i))"
proof -
  obtain k where "i + k < length (levels_of s b)" "p = fst (levels_of s b ! (i + k))"
    using assms(3) by (auto simp: in_set_conv_nth less_diff_conv add.commute) (metis fst_conv)
  then show ?thesis
    using sorted_levels_nth [OF wf_sorted [OF assms(1)], of i "i + k" s] better_asym by (cases "k = 0") auto
qed

lemma fills_ok_trade:
  assumes ok: "fills_ok b0 order i ms" and wf: "book_wf (m_book ms)"
    and mk: "get_resting (m_book ms) mk = Some r" "r_orderId r = mk" "0 < qty" "qty \<le> m_remaining ms" "qty \<le> r_remaining r"
      "e_accountId order \<noteq> r_accountId r" "r_side r = opposite (e_side order)"
      "\<And>lim. e_price order = Some lim \<Longrightarrow> crossesLevel (e_side order) lim (r_price r)"
      "i < length (opp_levels order (m_book ms))" "fst (opp_levels order (m_book ms) ! i) = r_price r"
      "m_remaining ms' = m_remaining ms - qty"
      "m_fills ms' = m_fills ms @ [mk_fill (Suc (b_sequence (m_book ms))) r order qty]"
      "\<And>j. j \<noteq> mk \<Longrightarrow> get_resting (m_book ms') j = (if j \<in> D then None else get_resting (m_book ms) j)"
      "\<And>r'. get_resting (m_book ms') mk = Some r' \<Longrightarrow> r_remaining r' = r_remaining r - qty \<and> r_price r' = r_price r
         \<and> r_accountId r' = r_accountId r \<and> r_side r' = r_side r \<and> r_reduceOnly r' = r_reduceOnly r"
      "later (m_book ms) (m_book ms')" "b_sequence (m_book ms) < b_sequence (m_book ms')"
      "fst ` set (drop i (opp_levels order (m_book ms'))) \<subseteq> fst ` set (drop i (opp_levels order (m_book ms)))"
  shows "fills_ok b0 order i ms'"
proof -
  let ?f = "mk_fill (Suc (b_sequence (m_book ms))) r order qty"
  have f: "f_qty ?f = qty" "f_makerOrderId ?f = mk" "f_price ?f = r_price r" "f_sequence ?f = Suc (b_sequence (m_book ms))"
    by (simp_all add: mk_fill_def mk(2))
  obtain r0 where r0: "get_resting b0 mk = Some r0" "r_remaining r + filled_on mk (m_fills ms) = r_remaining r0"
    "r_price r = r_price r0" "r_accountId r = r_accountId r0" "r_side r = r_side r0"
    using ok mk(1) unfolding fills_ok_def by metis
  have fair: "fair_fill b0 order ?f" using mk r0 by (auto simp: fair_fill_def mk_fill_def)
  have seq: "b_sequence b0 \<le> b_sequence (m_book ms)" using ok by (simp add: fills_ok_def later_def)
  have worse: "\<not> better (opposite (e_side order)) p (r_price r)" if "p \<in> fst ` set (drop i (opp_levels order (m_book ms)))" for p
    using crossing_level_worse [OF wf mk(9) that] mk(10) by simp
  have here: "r_price r \<in> fst ` set (drop i (opp_levels order (m_book ms)))"
    using Cons_nth_drop_Suc [OF mk(9)] mk(10) by (metis image_eqI list.set_intros(1))
  have old: "\<forall>f \<in> set (m_fills ms). before_fill order f ?f"
    using ok here unfolding fills_ok_def before_fill_def f less_Suc_eq_le by blast
  have books: "\<exists>r0. get_resting b0 j = Some r0 \<and> r_remaining r' + filled_on j (m_fills ms') = r_remaining r0
      \<and> r_price r' = r_price r0 \<and> r_accountId r' = r_accountId r0 \<and> r_side r' = r_side r0"
    if g: "get_resting (m_book ms') j = Some r'" for j r'
  proof (cases "j = mk")
    case True
    then show ?thesis using mk(14) [of r'] g r0 by (auto simp: mk(12) f)
  next
    case False
    then have "get_resting (m_book ms) j = Some r'" using g mk(13) [OF False] by (simp split: if_splits)
    then show ?thesis using ok False unfolding fills_ok_def mk(12) filled_on_snoc f by auto
  qed
  have caps: "filled_on j (m_fills ms') \<le> r_remaining q" if "get_resting b0 j = Some q" for j q
    using that ok r0 mk(5) unfolding fills_ok_def mk(12) filled_on_snoc f by (cases "j = mk") auto
  show ?thesis
    unfolding fills_ok_def
  proof (intro conjI)
    show "e_qty order = (\<Sum>f\<leftarrow>m_fills ms'. f_qty f) + m_remaining ms'" "0 \<le> m_remaining ms'"
      using ok mk(4) by (simp_all add: fills_ok_def mk(11,12) f)
    show "sorted_wrt (before_fill order) (m_fills ms')"
      using ok old by (simp add: fills_ok_def mk(12) sorted_wrt_append)
    show "later b0 (m_book ms')" using ok later_trans mk(15) by (auto simp: fills_ok_def)
    show "\<forall>f \<in> set (m_fills ms'). fair_fill b0 order f \<and> b_sequence b0 < f_sequence f \<and> f_sequence f \<le> b_sequence (m_book ms')
         \<and> (\<forall>p \<in> fst ` set (drop i (opp_levels order (m_book ms'))). \<not> better (opposite (e_side order)) p (f_price f))"
    proof
      fix g assume "g \<in> set (m_fills ms')"
      then consider "g \<in> set (m_fills ms)" | "g = ?f" by (auto simp: mk(12))
      then show "fair_fill b0 order g \<and> b_sequence b0 < f_sequence g \<and> f_sequence g \<le> b_sequence (m_book ms')
         \<and> (\<forall>p \<in> fst ` set (drop i (opp_levels order (m_book ms'))). \<not> better (opposite (e_side order)) p (f_price g))"
      proof cases
        case 1
        then show ?thesis using ok mk(16,17) unfolding fills_ok_def by fastforce
      next
        case 2
        then show ?thesis using fair seq mk(16,17) worse by (auto simp: f)
      qed
    qed
  qed (use books caps in blast)+
qed

lemma fills_ok_iter:
  assumes "match_inv order i ms" "fills_ok b0 order i ms" "match_iter order i ms = (ms', nxt)"
  shows "fills_ok b0 order (if nxt = Advance then Suc i else i) ms'"
  using assms(1,3)
proof (cases rule: match_iter_step)
  case quiet
  have "set (drop (Suc i) ls) \<subseteq> set (drop i ls)" for ls :: "price_level list" by (simp add: set_drop_subset_set_drop)
  then show ?thesis using assms(2) unfolding quiet fills_ok_def by (auto simp: image_iff)
next
  case (removed mk r)
  have "later b0 (m_book ms')" using later_trans removed(6) assms(2) by (auto simp: fills_ok_def)
  moreover have "b_sequence (m_book ms) \<le> b_sequence (m_book ms')" using removed(6) by (simp add: later_def)
  ultimately show ?thesis
    using assms(2) removed(2-5,7) unfolding fills_ok_def by (simp add: subset_iff) (fastforce split: if_splits)
next
  case (traded mk r qty D)
  have "book_wf (m_book ms)" using assms(1) by (simp add: match_inv_def)
  then have "fills_ok b0 order i ms'"
    by (rule fills_ok_trade [OF assms(2) _ traded(1,3-13,15-19)])
  then show ?thesis using traded(2) by simp
qed

lemma match_fills_ok:
  assumes "book_wf b" "good_but {} b" "e_orderId order \<notin> live_ids b" "0 \<le> e_qty order"
  obtains j where "match_inv order j (match b order)" "fills_ok b order j (match b order)"
proof -
  have "\<exists>j. match_inv order j (match_loop order 0 (match_init b order)) \<and> fills_ok b order j (match_loop order 0 (match_init b order))"
    by (rule match_loop_keeps [where P = "\<lambda>i ms. match_inv order i ms \<and> fills_ok b order i ms"])
      (use match_inv_init [OF assms(1-3)] fills_ok_init [OF assms(2,4)] match_iter_inv fills_ok_iter in blast)+
  then show ?thesis using that unfolding match_def by blast
qed

end
