(* ===== verification/Match_Reach.thy ===== *)
theory Match_Reach
  imports Match_Fills
begin

text \<open>
  The invariant of a book and that every public operation keeps it: well-formed levels, live orders
  with something left, and positions that sum to zero over all accounts.
\<close>

section \<open>Positions\<close>

definition position_sum :: "order_book \<Rightarrow> amount" where
  "position_sum b = (\<Sum>p\<leftarrow>b_positions b. snd p)"

definition positions_ok :: "order_book \<Rightarrow> bool" where
  "positions_ok b \<longleftrightarrow> distinct (map fst (b_positions b)) \<and> position_sum b = 0 \<and> (\<forall>p \<in> set (b_positions b). snd p \<noteq> 0)"

lemma delete_absent: "k \<notin> fst ` set m \<Longrightarrow> AList.delete k m = m"
  by (induction m) auto

lemma set_delete_subset: "set (AList.delete k m) \<subseteq> set m"
  by (induction m) auto

lemma sum_delete: "distinct (map fst m) \<Longrightarrow> (\<Sum>p\<leftarrow>AList.delete k m. snd p) = (\<Sum>p\<leftarrow>m. snd p) - (alist_get m k 0 :: int)"
proof (induction m)
  case (Cons p m)
  obtain x y where p: "p = (x, y)" by fastforce
  show ?case
  proof (cases "x = k")
    case True
    then have "AList.delete k m = m" using Cons.prems delete_absent [of k m] by (simp add: p)
    then show ?thesis using True by (simp add: p alist_get_def)
  next
    case False
    then show ?thesis using Cons by (simp add: p alist_get_def)
  qed
qed (simp add: alist_get_def)

lemma sum_update:
  "distinct (map fst m) \<Longrightarrow> (\<Sum>p\<leftarrow>AList.update k v m. snd p) = (\<Sum>p\<leftarrow>m. snd p) - alist_get m k 0 + (v :: int)"
proof (induction m)
  case (Cons p m)
  then show ?case by (cases p) (auto simp: alist_get_def)
qed (simp add: alist_get_def)

lemma addPosition_net: "netPosition (addPosition acc d b) a = netPosition b a + (if a = acc then d else 0)"
  by (simp add: netPosition_def addPosition_def Let_def alist_get_def delete_conv)

lemma addPosition_sum:
  assumes "distinct (map fst (b_positions b))"
  shows "position_sum (addPosition acc d b) = position_sum b + d"
  using sum_delete [OF assms, of acc] sum_update [OF assms, of acc]
  by (simp add: position_sum_def addPosition_def Let_def)

lemma addPosition_shape:
  assumes "distinct (map fst (b_positions b))" "\<forall>p \<in> set (b_positions b). snd p \<noteq> 0"
  shows "distinct (map fst (b_positions (addPosition acc d b)))" "\<forall>p \<in> set (b_positions (addPosition acc d b)). snd p \<noteq> 0"
proof -
  show "distinct (map fst (b_positions (addPosition acc d b)))"
    using assms(1) by (simp add: addPosition_def Let_def distinct_delete distinct_update)
  have u: "snd p \<noteq> 0" if "p \<in> set (AList.update acc v m)" "v \<noteq> 0" "\<forall>p \<in> set m. snd p \<noteq> 0" for p v and m :: "(string \<times> int) list"
    using that by (induction m) (auto split: if_splits)
  show "\<forall>p \<in> set (b_positions (addPosition acc d b)). snd p \<noteq> 0"
    unfolding addPosition_def Let_def using assms(2) u set_delete_subset [of acc "b_positions b"] by auto
qed

lemma applyFills_Cons: "applyFillsToPosition (f # fs) b = applyFillsToPosition fs
    (addPosition (f_makerAccountId f) (- fill_signed f) (addPosition (f_takerAccountId f) (fill_signed f) b))"
  by (simp add: applyFillsToPosition_def)

definition positions_sum_to :: "amount \<Rightarrow> order_book \<Rightarrow> bool" where
  "positions_sum_to t b \<longleftrightarrow> distinct (map fst (b_positions b)) \<and> position_sum b = t \<and> (\<forall>p \<in> set (b_positions b). snd p \<noteq> 0)"

lemma positions_add: "positions_sum_to t b \<Longrightarrow> positions_sum_to (t + d) (addPosition acc d b)"
  unfolding positions_sum_to_def using addPosition_shape [of b acc d] addPosition_sum [of b acc d] by blast

lemma applyFills_ok: "positions_ok b \<Longrightarrow> positions_ok (applyFillsToPosition fs b)"
proof (induction fs arbitrary: b)
  case (Cons f fs)
  have "positions_sum_to 0 b" using Cons.prems by (simp add: positions_sum_to_def positions_ok_def)
  from positions_add [OF positions_add [OF this]]
  have "positions_ok (addPosition (f_makerAccountId f) (- fill_signed f) (addPosition (f_takerAccountId f) (fill_signed f) b))"
    unfolding positions_sum_to_def positions_ok_def by fastforce
  then show ?case unfolding applyFills_Cons by (rule Cons.IH)
qed (simp add: applyFillsToPosition_def)

section \<open>The invariant\<close>

definition book_inv :: "order_book \<Rightarrow> bool" where
  "book_inv b \<longleftrightarrow> book_wf b \<and> good_but {} b \<and> positions_ok b"

text \<open>What an operation that only removes or relabels orders guarantees.\<close>

definition preserves :: "order_book \<Rightarrow> order_book \<Rightarrow> bool" where
  "preserves b b' \<longleftrightarrow> (book_inv b \<longrightarrow> book_inv b' \<and> live_ids b' \<subseteq> live_ids b \<and> b_sequence b \<le> b_sequence b')"

lemma preserves_refl [simp]: "preserves b b"
  by (simp add: preserves_def)

lemma preserves_trans: "preserves b c \<Longrightarrow> preserves c d \<Longrightarrow> preserves b d"
  by (auto simp: preserves_def)

lemma evolves_preserves: "evolves b b' \<Longrightarrow> preserves b b'"
  by (auto simp: evolves_def preserves_def book_inv_def positions_ok_def position_sum_def)

lemma preservesD:
  assumes "preserves b b'" "book_inv b"
  shows "book_inv b'" "live_ids b' \<subseteq> live_ids b" "b_sequence b \<le> b_sequence b'"
  using assms by (simp_all add: preserves_def)

lemma positions_frame:
  assumes "b_bids b' = b_bids b" "b_asks b' = b_asks b" "b_index b' = b_index b" "b_stops b' = b_stops b"
    "b_sequence b \<le> b_sequence b'" "positions_ok b \<Longrightarrow> positions_ok b'"
  shows "preserves b b'"
  using assms wf_cong [of b' b] by (simp add: preserves_def book_inv_def good_but_def live_ids_def get_resting_def)

lemma addPosition_frame [simp]:
  "b_bids (addPosition a d b) = b_bids b" "b_asks (addPosition a d b) = b_asks b" "b_index (addPosition a d b) = b_index b"
  "b_sequence (addPosition a d b) = b_sequence b" "b_depthCache (addPosition a d b) = b_depthCache b"
  by (simp_all add: addPosition_def Let_def)

lemma applyFills_frame [simp]:
  "b_bids (applyFillsToPosition fs b) = b_bids b" "b_asks (applyFillsToPosition fs b) = b_asks b"
  "b_index (applyFillsToPosition fs b) = b_index b" "b_sequence (applyFillsToPosition fs b) = b_sequence b"
  "b_depthCache (applyFillsToPosition fs b) = b_depthCache b"
  unfolding applyFillsToPosition_def by (induction fs arbitrary: b) simp_all

lemma recordPrints_frame [simp]:
  "b_bids (recordPrints fs b) = b_bids b" "b_asks (recordPrints fs b) = b_asks b" "b_index (recordPrints fs b) = b_index b"
  "b_sequence (recordPrints fs b) = b_sequence b" "b_positions (recordPrints fs b) = b_positions b"
  "b_depthCache (recordPrints fs b) = b_depthCache b"
  by (simp_all add: recordPrints_def Let_def)

lemma preserves_settle_fills: "preserves b (fst (settle_fills fs b))"
proof -
  have "preserves b (applyFillsToPosition fs (recordPrints fs b))"
    using applyFills_ok [of "recordPrints fs b" fs]
    by (intro positions_frame) (simp_all add: positions_ok_def position_sum_def)
  then show ?thesis
    unfolding settle_fills_def using preserves_trans evolves_preserves [OF evolves_cancelReduceOnlyDue] by blast
qed

text \<open>What an operation that may leave the order \<open>i\<close> in the book guarantees.\<close>

definition admits :: "string \<Rightarrow> order_book \<Rightarrow> order_book \<Rightarrow> bool" where
  "admits i b b' \<longleftrightarrow> book_inv b' \<and> live_ids b' \<subseteq> insert i (live_ids b) \<and> b_sequence b \<le> b_sequence b'"

lemma admits_preserves: "admits i b c \<Longrightarrow> preserves c d \<Longrightarrow> admits i b d"
  by (auto simp: admits_def preserves_def)

lemma preserves_admits: "book_inv b \<Longrightarrow> preserves b c \<Longrightarrow> admits i c d \<Longrightarrow> admits i b d"
  by (auto simp: admits_def preserves_def)

definition sound_order :: "effective_order \<Rightarrow> bool" where
  "sound_order order \<longleftrightarrow> 0 < e_qty order \<and> (\<forall>d. e_displayQty order = Some d \<longrightarrow> 0 < d)"

lemma rest_fields [simp]:
  "b_sequence (fst (rest b order rem n v)) = b_sequence b" "b_positions (fst (rest b order rem n v)) = b_positions b"
  by (simp_all add: rest_def Let_def case_prod_beta set_levels_def)

lemma rest_admits:
  assumes "book_inv b" "e_orderId order \<notin> live_ids b" "0 < rem" "\<forall>d. e_displayQty order = Some d \<longrightarrow> 0 < d"
  shows "admits (e_orderId order) b (fst (rest b order rem n v))"
proof -
  have "book_wf (fst (rest b order rem n v))"
    by (rule wf_rest) (use assms(1,2) in \<open>auto simp: book_inv_def live_ids_def\<close>)
  moreover have "good_but {} (fst (rest b order rem n v))"
    using assms unfolding good_but_def get_rest book_inv_def by (auto simp: live_ok_def split: option.splits)
  moreover have "live_ids (fst (rest b order rem n v)) \<subseteq> insert (e_orderId order) (live_ids b)"
    by (auto simp: live_ids_def get_rest split: if_splits)
  ultimately show ?thesis using assms(1) by (simp add: admits_def book_inv_def positions_ok_def position_sum_def)
qed

definition executed :: "order_book \<Rightarrow> effective_order \<Rightarrow> match_state" where
  "executed b order = (if \<not> e_aon order \<or> canFillAon (fillableQty b order) (e_qty order) True
     then match b order else match_init b order)"

lemma executed_ok:
  assumes "book_inv b" "e_orderId order \<notin> live_ids b" "0 < e_qty order"
  obtains j where "match_inv order j (executed b order)" "fills_ok b order j (executed b order)"
proof (cases "\<not> e_aon order \<or> canFillAon (fillableQty b order) (e_qty order) True")
  case True
  then show ?thesis
    using match_fills_ok [of b order] assms that by (auto simp: executed_def book_inv_def)
next
  case False
  then have "executed b order = match_init b order" by (simp add: executed_def)
  then show ?thesis
    using that [of 0] match_inv_init [of b order] fills_ok_init [of b order 0] assms by (auto simp: book_inv_def)
qed

lemma executed_inv:
  assumes "book_inv b" "e_orderId order \<notin> live_ids b" "0 < e_qty order"
  shows "book_inv (m_book (executed b order))" "live_ids (m_book (executed b order)) \<subseteq> live_ids b"
    "b_sequence b \<le> b_sequence (m_book (executed b order))" "e_orderId order \<notin> live_ids (m_book (executed b order))"
proof -
  obtain j where j: "match_inv order j (executed b order)" "fills_ok b order j (executed b order)"
    using executed_ok [OF assms] by blast
  then show "book_inv (m_book (executed b order))" "live_ids (m_book (executed b order)) \<subseteq> live_ids b"
    "b_sequence b \<le> b_sequence (m_book (executed b order))" "e_orderId order \<notin> live_ids (m_book (executed b order))"
    using assms(1) by (auto simp: match_inv_def fills_ok_def later_def book_inv_def positions_ok_def position_sum_def)
qed

lemma execute_admits:
  assumes "book_inv b" "e_orderId order \<notin> live_ids b" "sound_order order"
  shows "admits (e_orderId order) b (fst (execute b order n v))"
proof -
  have q: "0 < e_qty order" using assms(3) by (simp add: sound_order_def)
  note e = executed_inv [OF assms(1,2) q]
  have fin: "admits (e_orderId order) b (m_book (executed b order))" using e by (auto simp: admits_def)
  have "preserves b (m_book (executed b order))" using e by (simp add: preserves_def)
  then have rested: "admits (e_orderId order) b (fst (rest (m_book (executed b order)) order (m_remaining (executed b order)) n v))"
    if "0 < m_remaining (executed b order)"
    using preserves_admits [OF assms(1)] rest_admits [OF e(1,4) that] assms(3) by (auto simp: sound_order_def)
  show ?thesis
    using fin rested admits_preserves [OF fin evolves_preserves [OF evolves_bump]]
    unfolding execute_def executed_def [symmetric] Let_def nextSequence_eq by (simp add: case_prod_beta)
qed

end
