(* ===== verification/Match_Public.thy ===== *)
theory Match_Public
  imports Match_Reach
begin

text \<open>
  Every public operation of \<open>OrderBook\<close> keeps the invariant of the book: the triggers and the loops
  that drain them, submission, cancellation, amendment and the setters.
\<close>

section \<open>Triggers\<close>

lemma preserves_evolves_trans: "preserves b c \<Longrightarrow> evolves c d \<Longrightarrow> preserves b d"
  using preserves_trans evolves_preserves by blast

lemma take_stop_gone:
  assumes "book_inv b" "k < length (b_stops b)"
  shows "st_orderId (b_stops b ! k) \<notin> live_ids (take_stop k b)" "0 < st_qty (b_stops b ! k)"
    "live_ids b = insert (st_orderId (b_stops b ! k)) (live_ids (take_stop k b))"
proof -
  have s: "distinct (map st_orderId (b_stops b))" "\<forall>s \<in> set (b_stops b). get_resting b (st_orderId s) = None"
    "\<forall>s \<in> set (b_stops b). 0 < st_qty s"
    using assms(1) by (auto simp: book_inv_def book_wf_def stops_ok_def good_but_def)
  have l: "b_stops b = take k (b_stops b) @ b_stops b ! k # drop (Suc k) (b_stops b)" using assms(2) by (rule id_take_nth_drop)
  have d: "distinct (map st_orderId (take k (b_stops b) @ b_stops b ! k # drop (Suc k) (b_stops b)))" using s(1) l by metis
  show "st_orderId (b_stops b ! k) \<notin> live_ids (take_stop k b)"
    using d s(2) assms(2) by (auto simp: live_ids_def splice_out_def)
  show "0 < st_qty (b_stops b ! k)" using s(3) assms(2) by simp
  have "st_orderId ` set (b_stops b) = insert (st_orderId (b_stops b ! k)) (st_orderId ` set (splice_out k (b_stops b)))"
    by (subst l) (auto simp: splice_out_def)
  then show "live_ids b = insert (st_orderId (b_stops b ! k)) (live_ids (take_stop k b))"
    by (simp add: live_ids_def)
qed

lemma preserves_cancelOco: "preserves b (fst (cancelOcoSiblings b fs inc))"
  by (rule evolves_preserves [OF evolves_cancelOcoSiblings])

lemma activate_admits:
  assumes "book_inv b" "st_orderId s \<notin> live_ids b" "0 < st_qty s"
  shows "admits (st_orderId s) b (fst (activate env b s))"
proof -
  let ?e = "stop_effective s (st_expireAt s)"
  let ?x = "execute (bump b) ?e (Suc (b_sequence b)) (st_version s)"
  have pb: "preserves b (bump b)" by (rule evolves_preserves) simp
  then have bumped: "admits (st_orderId s) b (bump b)" using preservesD [OF pb assms(1)] by (auto simp: admits_def)
  have "admits (e_orderId ?e) (bump b) (fst ?x)"
    by (rule execute_admits) (use preservesD [OF pb assms(1)] assms in \<open>auto simp: sound_order_def stop_effective_def\<close>)
  then have x: "admits (st_orderId s) b (fst ?x)" using preserves_admits [OF assms(1) pb] by (simp add: stop_effective_def)
  show ?thesis
    using bumped admits_preserves [OF admits_preserves [OF x preserves_settle_fills] preserves_cancelOco]
    by (simp add: activate_def refused_trigger_def Let_def nextSequence_eq case_prod_beta split: option.splits)
qed

lemma fst_fire: "fst (fire env b s p) = fst (activate env b s)"
  by (simp add: fire_def Let_def case_prod_beta)

text \<open>Taking a stop out and firing it leaves no order that was not there before.\<close>

lemma preserves_fire_stop:
  assumes "k < length (b_stops b)"
  shows "preserves b (fst (fire env (take_stop k b) (b_stops b ! k) p))"
  unfolding preserves_def
proof
  assume inv: "book_inv b"
  note gone = take_stop_gone [OF inv assms]
  have "preserves b (take_stop k b)" by (rule evolves_preserves [OF evolves_take_stop])
  note t = preservesD [OF this inv]
  show "book_inv (fst (fire env (take_stop k b) (b_stops b ! k) p)) \<and>
    live_ids (fst (fire env (take_stop k b) (b_stops b ! k) p)) \<subseteq> live_ids b \<and>
    b_sequence b \<le> b_sequence (fst (fire env (take_stop k b) (b_stops b ! k) p))"
    using activate_admits [OF t(1) gone(1,2)] t gone(3) unfolding fst_fire admits_def by (auto intro: order.trans)
qed

lemma preserves_drainLegacyStops: "preserves b (fst (drainLegacyStops env b outs))"
proof (induction env b outs rule: drainLegacyStops.induct)
  case (1 env b outs)
  show ?case
  proof (cases "find_index (legacyLevelTriggered b) (b_stops b)")
    case None
    then show ?thesis by (simp add: drainLegacyStops.simps [of env b])
  next
    case (Some k)
    then have "k < length (b_stops b)" using find_index_Some by blast
    then show ?thesis
      using preserves_trans [OF preserves_fire_stop 1 [OF Some refl]] by (simp add: drainLegacyStops.simps [of env b] Some Let_def)
  qed
qed

lemma preserves_drainReference: "preserves b (fst (drainReference env source previous nxt b outs))"
proof (induction env source previous nxt b outs rule: drainReference.induct)
  case (1 env source previous nxt b outs)
  let ?P = "\<lambda>s. st_triggerBy s = source \<and> movedThrough (st_side s) (st_stopPrice s) (st_triggerRole s) previous (Some nxt)"
  show ?case
  proof (cases "find_index ?P (b_stops b)")
    case None
    then show ?thesis by (simp add: drainReference.simps [of env source previous nxt b])
  next
    case (Some k)
    then have "k < length (b_stops b)" using find_index_Some by blast
    then show ?thesis
      using preserves_trans [OF preserves_fire_stop 1 [OF Some refl]]
      by (simp add: drainReference.simps [of env source previous nxt b] Some Let_def)
  qed
qed

text \<open>A batch is taken out as a whole and then fired stop by stop.\<close>

definition admits_all :: "string set \<Rightarrow> order_book \<Rightarrow> order_book \<Rightarrow> bool" where
  "admits_all X b b' \<longleftrightarrow> book_inv b' \<and> live_ids b' \<subseteq> X \<union> live_ids b \<and> b_sequence b \<le> b_sequence b'"

lemma admits_all_step: "admits i b c \<Longrightarrow> admits_all X c d \<Longrightarrow> admits_all (insert i X) b d"
  unfolding admits_all_def admits_def by (meson Un_least Un_upper1 insert_is_Un insert_subset le_trans order.trans subset_insertI sup_ge2 sup_mono order_refl)

lemma disjoint_insert: "A \<subseteq> insert x B \<Longrightarrow> x \<notin> C \<Longrightarrow> C \<inter> B = {} \<Longrightarrow> C \<inter> A = {}"
  by blast

lemma fire_all_admits:
  assumes "book_inv b" "distinct (map st_orderId ss)" "st_orderId ` set ss \<inter> live_ids b = {}" "\<forall>s \<in> set ss. 0 < st_qty s"
  shows "admits_all (st_orderId ` set ss) b (fst (fire_all env b ss p outs))"
  using assms
proof (induction ss arbitrary: b outs)
  case (Cons s ss)
  let ?b1 = "fst (fire env b s p)"
  have a: "admits (st_orderId s) b ?b1" unfolding fst_fire by (rule activate_admits) (use Cons.prems in simp_all)
  have "live_ids ?b1 \<subseteq> insert (st_orderId s) (live_ids b)" "st_orderId s \<notin> st_orderId ` set ss"
    "st_orderId ` set ss \<inter> live_ids b = {}"
    using a Cons.prems(2,3) by (simp_all add: admits_def)
  then have "st_orderId ` set ss \<inter> live_ids ?b1 = {}" by (rule disjoint_insert)
  moreover have "book_inv ?b1" using a by (simp add: admits_def)
  moreover have "distinct (map st_orderId ss)" "\<forall>s \<in> set ss. 0 < st_qty s" using Cons.prems(2,4) by simp_all
  ultimately have r: "admits_all (st_orderId ` set ss) ?b1 (fst (fire_all env ?b1 ss p (outs @ [snd (fire env b s p)])))"
    using Cons.IH by blast
  have "admits_all (st_orderId ` set (s # ss)) b (fst (fire_all env ?b1 ss p (outs @ [snd (fire env b s p)])))"
    using admits_all_step [OF a r] by simp
  then show ?case by (simp add: Let_def)
qed (simp add: admits_all_def)

lemma filter_stops_inv:
  assumes "book_inv b"
  shows "book_inv (b\<lparr>b_stops := filter P (b_stops b)\<rparr>)"
    "st_orderId ` set (filter (\<lambda>s. \<not> P s) (b_stops b)) \<inter> live_ids (b\<lparr>b_stops := filter P (b_stops b)\<rparr>) = {}"
    "live_ids b = st_orderId ` set (filter (\<lambda>s. \<not> P s) (b_stops b)) \<union> live_ids (b\<lparr>b_stops := filter P (b_stops b)\<rparr>)"
proof -
  have s: "distinct (map st_orderId (b_stops b))" "\<forall>s \<in> set (b_stops b). get_resting b (st_orderId s) = None"
    using assms by (auto simp: book_inv_def book_wf_def stops_ok_def)
  have g: "get_resting (b\<lparr>b_stops := ss\<rparr>) = get_resting b" "levels_of sd (b\<lparr>b_stops := ss\<rparr>) = levels_of sd b" for ss sd
    by (auto simp: get_resting_def levels_of_def)
  show "book_inv (b\<lparr>b_stops := filter P (b_stops b)\<rparr>)"
    using assms by (auto simp: book_inv_def book_wf_def level_ok_def indexed_ok_def stops_ok_def good_but_def g distinct_map_filter
        positions_ok_def position_sum_def)
  have "inj_on st_orderId (set (b_stops b))" using s(1) by (simp add: distinct_map)
  then show "st_orderId ` set (filter (\<lambda>s. \<not> P s) (b_stops b)) \<inter> live_ids (b\<lparr>b_stops := filter P (b_stops b)\<rparr>) = {}"
    using s(2) by (auto simp: live_ids_def g dest: inj_onD)
  show "live_ids b = st_orderId ` set (filter (\<lambda>s. \<not> P s) (b_stops b)) \<union> live_ids (b\<lparr>b_stops := filter P (b_stops b)\<rparr>)"
    by (auto simp: live_ids_def g)
qed

lemma preserves_batch:
  "preserves b (fst (fire_all env (b\<lparr>b_stops := filter (\<lambda>s. \<not> P s) (b_stops b)\<rparr>) (filter P (b_stops b)) p outs))"
  unfolding preserves_def
proof
  let ?b1 = "b\<lparr>b_stops := filter (\<lambda>s. \<not> P s) (b_stops b)\<rparr>"
  assume inv: "book_inv b"
  have "distinct (map st_orderId (filter P (b_stops b)))" "\<forall>s \<in> set (filter P (b_stops b)). 0 < st_qty s"
    using inv by (auto simp: book_inv_def book_wf_def stops_ok_def good_but_def distinct_map_filter)
  then have "admits_all (st_orderId ` set (filter P (b_stops b))) ?b1 (fst (fire_all env ?b1 (filter P (b_stops b)) p outs))"
    by (intro fire_all_admits) (use filter_stops_inv [OF inv, of "\<lambda>s. \<not> P s"] in auto)
  then show "book_inv (fst (fire_all env ?b1 (filter P (b_stops b)) p outs)) \<and>
      live_ids (fst (fire_all env ?b1 (filter P (b_stops b)) p outs)) \<subseteq> live_ids b \<and>
      b_sequence b \<le> b_sequence (fst (fire_all env ?b1 (filter P (b_stops b)) p outs))"
    using filter_stops_inv(3) [OF inv, of "\<lambda>s. \<not> P s"] by (simp add: admits_all_def)
qed

lemma preserves_drain_moves: "preserves b (fst (drain_moves env b outs))"
proof (induction env b outs rule: drain_moves.induct)
  case (1 env b outs)
  show ?case
  proof (cases "b_lastMove b")
    case None
    then show ?thesis by (simp add: drain_moves.simps [of env b])
  next
    case (Some mv)
    obtain stamp previous nxt where mv: "mv = (stamp, previous, nxt)" by (cases mv) auto
    let ?r = "fire_all env (b\<lparr>b_stops := filter (\<lambda>s. \<not> moved_stop previous nxt s) (b_stops b)\<rparr>)
       (filter (moved_stop previous nxt) (b_stops b)) nxt outs"
    let ?l = "drainLegacyStops env (fst ?r) (snd ?r)"
    have r: "preserves b (fst ?r)" by (rule preserves_batch)
    have l: "preserves b (fst ?l)" using preserves_trans [OF r preserves_drainLegacyStops] .
    show ?thesis
    proof (cases "filter (moved_stop previous nxt) (b_stops b) = [] \<or> map_option fst (b_lastMove (fst ?r)) = Some stamp")
      case True
      then show ?thesis using r by (auto simp: drain_moves.simps [of env b] Some mv Let_def)
    next
      case False
      then have "preserves (fst ?l) (fst (drain_moves env (fst ?l) (snd ?l)))"
        using 1 [OF Some mv [symmetric] refl refl _ refl refl _ refl] by blast
      then show ?thesis using False preserves_trans [OF l] by (simp add: drain_moves.simps [of env b] Some mv Let_def)
    qed
  qed
qed

lemma preserves_drainStops: "preserves b (fst (drainStops env b))"
  unfolding drainStops_def Let_def
  by (rule preserves_trans [OF preserves_drainLegacyStops preserves_drain_moves])

lemma preserves_no_move: "preserves b (b\<lparr>b_lastMove := None\<rparr>)"
  by (rule positions_frame) (simp_all add: positions_ok_def position_sum_def)

section \<open>Submission\<close>

lemma add_stop_admits:
  assumes "book_inv b" "st_orderId s \<notin> live_ids b" "0 < st_qty s"
  shows "admits (st_orderId s) b (b\<lparr>b_stops := b_stops b @ [s]\<rparr>)"
proof -
  let ?b = "b\<lparr>b_stops := b_stops b @ [s]\<rparr>"
  have g: "get_resting ?b = get_resting b" "levels_of sd ?b = levels_of sd b" for sd
    by (auto simp: get_resting_def levels_of_def)
  have "book_wf ?b"
    using assms by (auto simp: book_inv_def book_wf_def level_ok_def indexed_ok_def stops_ok_def g live_ids_def)
  moreover have "good_but {} ?b" "positions_ok ?b"
    using assms by (auto simp: book_inv_def good_but_def g positions_ok_def position_sum_def)
  ultimately show ?thesis by (auto simp: admits_def book_inv_def live_ids_def g)
qed

lemma validate_None:
  assumes "validate env b order t = None"
  shows "0 < o_qty order" "o_orderId order \<notin> live_ids b" "sound_order (toEffective order)"
proof -
  note v = assms [unfolded validate_def first_refusal_None]
  show q: "0 < o_qty order" "o_orderId order \<notin> live_ids b" using v by (simp_all add: isLive_iff)
  have "check_iceberg order = None" using v by simp
  then have "\<forall>d. e_displayQty (toEffective order) = Some d \<longrightarrow> 0 < d"
    by (auto simp: check_iceberg_def wantsIceberg_def toEffective_def icebergDisplayRefuse_def split: option.splits if_splits)
  then show "sound_order (toEffective order)" using q(1) by (simp add: sound_order_def toEffective_def)
qed

lemma preserves_displace: "preserves b (fst (displaceReduceOnly b order))"
  by (rule evolves_preserves [OF evolves_displaceReduceOnly])

lemma preserves_remember: "preserves b (remember_order order b)"
  by (rule evolves_preserves [OF evolves_remember_order])

lemma preserves_bump: "preserves b (bump b)"
  by (rule evolves_preserves) simp

lemma submit_stop_admits:
  assumes "book_inv b" "o_orderId order \<notin> live_ids b" "0 < o_qty order"
  shows "admits (o_orderId order) b (fst (submit_stop b order expired))"
proof -
  let ?b2 = "bump (fst (displaceReduceOnly b order))"
  let ?s = "mk_stop order (b_sequence ?b2)"
  have p: "preserves b ?b2" by (rule preserves_trans [OF preserves_displace preserves_bump])
  have s: "st_orderId (mk_stop order n) = o_orderId order" "st_qty (mk_stop order n) = o_qty order" for n by (simp_all add: mk_stop_def Let_def)
  have "admits (st_orderId ?s) ?b2 (?b2\<lparr>b_stops := b_stops ?b2 @ [?s]\<rparr>)"
    by (rule add_stop_admits) (use preservesD [OF p assms(1)] assms s in auto)
  then have "admits (o_orderId order) b (?b2\<lparr>b_stops := b_stops ?b2 @ [?s]\<rparr>)"
    using preserves_admits [OF assms(1) p] by (simp add: s)
  from admits_preserves [OF this preserves_remember] show ?thesis
    by (simp add: submit_stop_def Let_def nextSequence_eq case_prod_beta)
qed

lemma submit_now_admits:
  assumes "book_inv b" "o_orderId order \<notin> live_ids b" "sound_order (toEffective order)"
  shows "admits (o_orderId order) b (fst (submit_now env b order expired arrival))"
proof -
  let ?e = "toEffective order" let ?b2 = "bump (fst (displaceReduceOnly b order))"
  let ?x = "execute ?b2 ?e (Suc (b_sequence (fst (displaceReduceOnly b order)))) 1"
  have p: "preserves b ?b2" by (rule preserves_trans [OF preserves_displace preserves_bump])
  have "admits (e_orderId ?e) ?b2 (fst ?x)"
    by (rule execute_admits) (use preservesD [OF p assms(1)] assms in \<open>auto simp: toEffective_def\<close>)
  then have x: "admits (o_orderId order) b (fst ?x)"
    using preserves_admits [OF assms(1) p] by (simp add: toEffective_def)
  note done_ = admits_preserves [OF admits_preserves [OF admits_preserves [OF admits_preserves
    [OF admits_preserves [OF x preserves_settle_fills] preserves_remember] preserves_cancelOco] preserves_drainStops] preserves_no_move]
  have "admits (o_orderId order) b b" "admits (o_orderId order) b (rememberAccepted (o_orderId order) b)"
    using assms(1) preservesD [OF evolves_preserves [OF evolves_rememberAccepted] assms(1)] by (auto simp: admits_def)
  then show ?thesis
    using done_ by (simp add: submit_now_def Let_def nextSequence_eq case_prod_beta split: option.splits)
qed

lemma frame_fields:
  "b_bids (note_position order b) = b_bids b" "b_asks (note_position order b) = b_asks b" "b_index (note_position order b) = b_index b"
  "b_stops (note_position order b) = b_stops b" "b_sequence (note_position order b) = b_sequence b"
  "b_positions (note_position order b) = b_positions b"
  by (simp_all add: note_position_def split: option.splits)

lemma preserves_note_position: "preserves b (note_position order b)"
  by (rule positions_frame) (simp_all add: frame_fields positions_ok_def position_sum_def)

lemma preserves_expire_first: "preserves b (fst (expire_first env b t))"
  by (rule evolves_preserves [OF evolves_expire_first])

lemma admits_refl: "book_inv b \<Longrightarrow> admits i b b"
  by (auto simp: admits_def)

lemma preserves_imp_admits: "book_inv b \<Longrightarrow> preserves b c \<Longrightarrow> admits i b c"
  by (auto simp: admits_def preserves_def)

lemma bindPeg_id [simp]: "o_orderId (bindPegRelative order) = o_orderId order"
  by (simp add: bindPegRelative_def split: option.splits)

lemma submit_admits:
  assumes "book_inv b"
  shows "admits (o_orderId order) b (fst (submit env b order t))"
proof (cases "pegIntentRefuse order")
  case None
  let ?o = "bindPegRelative order" let ?b0 = "note_position ?o b" let ?e = "expire_first env ?b0 t"
  have p0: "preserves b ?b0" by (rule preserves_note_position)
  have p1: "preserves b (fst ?e)" by (rule preserves_trans [OF p0 preserves_expire_first])
  show ?thesis
  proof (cases "validate env ?b0 ?o t")
    case None
    note v = validate_None [OF None]
    have n: "o_orderId ?o \<notin> live_ids (fst ?e)"
      using v(2) preservesD(2) [OF preserves_expire_first preservesD(1) [OF p0 assms]] by blast
    note i = preservesD(1) [OF p1 assms]
    have "admits (o_orderId order) b (fst (submit_stop (fst ?e) ?o x))" for x
      using preserves_admits [OF assms p1] submit_stop_admits [OF i n v(1)] by simp
    moreover have "admits (o_orderId order) b (fst (submit_now env (fst ?e) ?o x a))" for x a
      using preserves_admits [OF assms p1] submit_now_admits [OF i n v(3)] by simp
    ultimately show ?thesis
      using None \<open>pegIntentRefuse order = None\<close> by (simp add: submit_def Let_def case_prod_beta)
  next
    case (Some code)
    then show ?thesis using \<open>pegIntentRefuse order = None\<close> preserves_imp_admits [OF assms p0] by (simp add: submit_def Let_def)
  qed
qed (simp add: submit_def admits_refl assms)

section \<open>Cancellation\<close>

lemma evolves_forgetAccepted: "evolves b (forgetAccepted i b)"
  by (rule evolves_frame) (simp_all add: forgetAccepted_def)

lemma preserves_cancel: "preserves b (fst (cancel b i reason))"
proof -
  obtain b1 c where p: "pull reason b i = (b1, c)" by fastforce
  then have "preserves b b1" using evolves_preserves [OF evolves_pull [of b reason i]] by simp
  then show ?thesis
    using preserves_evolves_trans [OF _ evolves_forgetAccepted] by (cases c) (simp_all add: cancel_def p)
qed

lemma preserves_cancel_ids: "preserves b (fst (cancel_ids b reason is))"
proof (induction "is" arbitrary: b)
  case (Cons i "is")
  then show ?case using preserves_trans [OF preserves_cancel [of b i reason] Cons.IH] by (simp add: Let_def case_prod_beta)
qed simp

section \<open>Amendment\<close>

lemma get_stop_index:
  assumes "get_stop b i = Some s"
  obtains k where "find_index (\<lambda>s. st_orderId s = i) (b_stops b) = Some k" "k < length (b_stops b)" "b_stops b ! k = s" "st_orderId s = i"
proof -
  have "\<exists>k. find_index P xs = Some k \<and> k < length xs \<and> xs ! k = s \<and> P s" if "List.find P xs = Some s" for P and xs :: "stop_order list"
    using that by (induction xs) (fastforce split: if_splits)+
  then show ?thesis using that assms unfolding get_stop_def by blast
qed

text \<open>An order taken out and put back under its own id adds no id.\<close>

lemma readmit_preserves:
  assumes "book_inv b \<Longrightarrow> book_inv c \<and> live_ids b = insert i (live_ids c) \<and> b_sequence b = b_sequence c"
    and "book_inv b \<Longrightarrow> book_inv c \<Longrightarrow> i \<notin> live_ids c \<Longrightarrow> admits i c d" "book_inv b \<Longrightarrow> i \<notin> live_ids c"
  shows "preserves b d"
  using assms by (auto simp: preserves_def admits_def)

lemma removeResting_inv:
  assumes "book_inv b" "get_resting b i = Some r"
  shows "book_inv (removeResting b r)" "live_ids b = insert i (live_ids (removeResting b r))"
    "b_sequence (removeResting b r) = b_sequence b" "i \<notin> live_ids (removeResting b r)"
proof -
  have wf: "book_wf b" using assms(1) by (simp add: book_inv_def)
  have e: "removeResting b r = without i b" using removeResting_without [OF wf assms(2)] .
  show "book_inv (removeResting b r)"
    using preservesD(1) [OF evolves_preserves [OF evolves_without] assms(1)] by (simp add: e)
  show "live_ids b = insert i (live_ids (removeResting b r))" using assms(2) by (auto simp: e live_ids_def split: if_splits)
  show "b_sequence (removeResting b r) = b_sequence b" by (simp add: e)
  have "\<forall>s \<in> set (b_stops b). get_resting b (st_orderId s) = None" using wf by (simp add: book_wf_def stops_ok_def)
  then have "i \<notin> st_orderId ` set (b_stops b)" using assms(2) by auto
  then show "i \<notin> live_ids (removeResting b r)" by (simp add: e live_ids_def)
qed

lemma live_ok_amended: "live_ok r \<Longrightarrow> 0 < qty \<Longrightarrow> live_ok (amended_resting r cmd qty tif)"
  by (simp add: live_ok_def amended_resting_def cong: option.case_cong)

lemma preserves_amended:
  assumes "0 < qty"
  shows "preserves b (upd_resting i (\<lambda>r. amended_resting r cmd qty tif) b)"
  unfolding preserves_def
proof
  let ?f = "\<lambda>r. amended_resting r cmd qty tif" let ?b = "upd_resting i ?f b"
  assume inv: "book_inv b"
  have "book_wf ?b"
    by (rule wf_upd_resting) (use inv in \<open>simp_all add: book_inv_def amended_resting_def\<close>)
  moreover have "good_but {} ?b"
    using inv assms by (auto simp: book_inv_def good_but_def live_ok_amended split: if_splits)
  moreover have "live_ids ?b \<subseteq> live_ids b" by (auto simp: live_ids_def)
  ultimately show "book_inv ?b \<and> live_ids ?b \<subseteq> live_ids b \<and> b_sequence b \<le> b_sequence ?b"
    using inv by (simp add: book_inv_def positions_ok_def position_sum_def)
qed

lemma preserves_reexecute:
  assumes "get_resting b i = Some r" "e_orderId e = i" "book_inv b \<Longrightarrow> sound_order e"
  shows "preserves b (fst (execute (bump (removeResting b r)) e n v))"
proof (rule readmit_preserves [where c = "removeResting b r" and i = i])
  show "book_inv b \<Longrightarrow> i \<notin> live_ids (removeResting b r)" using removeResting_inv(4) assms(1) by blast
  show "book_inv b \<Longrightarrow> book_inv (removeResting b r) \<and> live_ids b = insert i (live_ids (removeResting b r))
      \<and> b_sequence b = b_sequence (removeResting b r)" using removeResting_inv(1,2,3) [OF _ assms(1)] by simp
  assume a: "book_inv b" "book_inv (removeResting b r)" "i \<notin> live_ids (removeResting b r)"
  note p = preservesD [OF preserves_bump a(2)]
  have "admits (e_orderId e) (bump (removeResting b r)) (fst (execute (bump (removeResting b r)) e n v))"
    by (rule execute_admits) (use p a assms in auto)
  then show "admits i (removeResting b r) (fst (execute (bump (removeResting b r)) e n v))"
    using preserves_admits [OF a(2) preserves_bump] assms(2) by blast
qed

lemma live_peak: "book_inv b \<Longrightarrow> get_resting b i = Some r \<Longrightarrow> r_displayPeak r = Some d \<Longrightarrow> 0 < d"
proof -
  assume a: "book_inv b" "get_resting b i = Some r" "r_displayPeak r = Some d"
  then have "live_ok r" by (auto simp: book_inv_def good_but_def)
  then show "0 < d" using a(3) by (auto simp: live_ok_def split: option.splits)
qed

lemma preserves_if:
  "(c \<Longrightarrow> preserves b (fst x)) \<Longrightarrow> (\<not> c \<Longrightarrow> preserves b (fst y)) \<Longrightarrow> preserves b (fst (if c then x else y))"
  by simp

lemma preserves_case:
  "(x = None \<Longrightarrow> preserves b (fst g)) \<Longrightarrow> (\<And>c. x = Some c \<Longrightarrow> preserves b (fst (f c))) \<Longrightarrow>
    preserves b (fst (case x of None \<Rightarrow> g | Some c \<Rightarrow> f c))"
  by (simp split: option.splits)

lemmas preserves_branch = preserves_if preserves_case

lemma preserves_amendResting:
  assumes "get_resting b (a_orderId cmd) = Some r" "r_orderId r = a_orderId cmd"
  shows "preserves b (fst (amendResting env b r cmd))"
proof -
  let ?qty = "case a_qty cmd of Some q \<Rightarrow> q | None \<Rightarrow> r_remaining r"
  have ex: "preserves b (fst (execute (bump (removeResting b r)) e n v))"
    if "e_orderId e = r_orderId r" "0 < e_qty e" "e_displayQty e = r_displayPeak r" for e n v
    by (rule preserves_reexecute [OF assms(1)]) (use that assms(2) live_peak [OF _ assms(1)] in \<open>auto simp: sound_order_def\<close>)
  note tail = preserves_trans [OF preserves_trans [OF preserves_trans [OF preserves_trans [OF ex preserves_settle_fills] preserves_cancelOco]
    preserves_drainStops] preserves_no_move]
  show ?thesis
    unfolding amendResting_def Let_def nextSequence_eq case_prod_beta
    by (intro preserves_branch; unfold fst_conv not_le)
      (assumption | rule preserves_refl tail preserves_trans [OF preserves_amended preserves_bump] | simp)+
qed

lemma remove_stop_gone:
  assumes "get_stop b i = Some s" "book_inv b"
  shows "book_inv (remove_stop_id i b)" "live_ids b = insert i (live_ids (remove_stop_id i b))"
    "b_sequence (remove_stop_id i b) = b_sequence b" "i \<notin> live_ids (remove_stop_id i b)"
proof -
  obtain k where k: "find_index (\<lambda>s. st_orderId s = i) (b_stops b) = Some k" "k < length (b_stops b)" "b_stops b ! k = s" "st_orderId s = i"
    using get_stop_index [OF assms(1)] .
  have e: "remove_stop_id i b = take_stop k b" by (simp add: remove_stop_id_def k(1))
  show "book_inv (remove_stop_id i b)" "live_ids b = insert i (live_ids (remove_stop_id i b))"
    "b_sequence (remove_stop_id i b) = b_sequence b" "i \<notin> live_ids (remove_stop_id i b)"
    using take_stop_gone [OF assms(2) k(2)] preservesD(1) [OF evolves_preserves [OF evolves_take_stop] assms(2)]
    by (simp_all add: e k)
qed

lemma preserves_refire:
  assumes "get_stop b i = Some s" "st_orderId u = i" "0 < st_qty u"
  shows "preserves b (fst (fire env (remove_stop_id i b) u p))"
  by (rule readmit_preserves [where c = "remove_stop_id i b" and i = i])
    (use remove_stop_gone [OF assms(1)] activate_admits [of "remove_stop_id i b" u env] assms(2,3) in \<open>auto simp: fst_fire\<close>)

lemma preserves_requeue:
  assumes "get_stop b i = Some s" "st_orderId u = i" "0 < st_qty u"
  shows "preserves b (bump (remove_stop_id i b)\<lparr>b_stops := b_stops (remove_stop_id i b) @ [u]\<rparr>)"
proof (rule readmit_preserves [where c = "remove_stop_id i b" and i = i])
  let ?c = "remove_stop_id i b"
  assume a: "book_inv ?c" "i \<notin> live_ids ?c"
  note p = preservesD [OF preserves_bump a(1)]
  have "admits (st_orderId u) (bump ?c) (bump ?c\<lparr>b_stops := b_stops (bump ?c) @ [u]\<rparr>)"
    by (rule add_stop_admits) (use p a assms in auto)
  from preserves_admits [OF a(1) preserves_bump this]
  show "admits i ?c (bump ?c\<lparr>b_stops := b_stops ?c @ [u]\<rparr>)" using assms(2) by simp
qed (use remove_stop_gone [OF assms(1)] in auto)

lemma preserves_amendStop:
  assumes "get_stop b (a_orderId cmd) = Some s"
  shows "preserves b (fst (amendStop env b s cmd))"
proof -
  have id: "st_orderId s = a_orderId cmd" using get_stop_index [OF assms] by blast
  have up: "preserves b (bump (upd_stop (st_orderId s) (\<lambda>s. amended_stop s cmd qty) b))" if "0 < qty" for qty
    using that by (intro preserves_trans [OF evolves_preserves [OF evolves_upd_stop] preserves_bump]) (simp_all add: amended_stop_def)
  have fires: "preserves b (fst (drainStops env (fst (fire env (remove_stop_id (st_orderId s) b) u p)))\<lparr>b_lastMove := None\<rparr>)"
    if "st_orderId u = st_orderId s" "0 < st_qty u" for u p
    by (rule preserves_trans [OF preserves_trans [OF preserves_refire preserves_drainStops] preserves_no_move]) (use assms id that in auto)
  have queue: "preserves b (bump (remove_stop_id (st_orderId s) b)\<lparr>b_stops := b_stops (bump (remove_stop_id (st_orderId s) b)) @ [u]\<rparr>)"
    if "st_orderId u = st_orderId s" "0 < st_qty u" for u
    using preserves_requeue [of b "st_orderId s" s u] assms id that by simp
  show ?thesis
    unfolding amendStop_def Let_def nextSequence_eq case_prod_beta
    by (intro preserves_branch; unfold fst_conv snd_conv not_le) (assumption | rule preserves_refl up fires queue | simp)+
qed

lemma preserves_amend: "preserves b (fst (amend env b cmd t))"
proof -
  let ?b1 = "fst (expire_first env b t)"
  note e = preserves_expire_first [of b env t]
  show ?thesis
  proof (cases "get_resting ?b1 (a_orderId cmd)")
    case None
    then have "preserves ?b1 (fst (amend env b cmd t))"
      using preserves_amendStop by (cases "get_stop ?b1 (a_orderId cmd)") (auto simp: amend_def Let_def case_prod_beta)
    then show ?thesis using preserves_trans [OF e] by blast
  next
    case (Some r)
    show ?thesis
      unfolding preserves_def
    proof
      assume "book_inv b"
      note i = preservesD [OF e this]
      have "r_orderId r = a_orderId cmd" using wf_get(1) Some i(1) by (auto simp: book_inv_def)
      from preservesD [OF preserves_amendResting [OF Some this, of env] i(1)] i(2,3)
      show "book_inv (fst (amend env b cmd t)) \<and> live_ids (fst (amend env b cmd t)) \<subseteq> live_ids b
          \<and> b_sequence b \<le> b_sequence (fst (amend env b cmd t))"
        using Some by (simp add: amend_def Let_def case_prod_beta)
    qed
  qed
qed

section \<open>Reachable books\<close>

lemma preserves_reference: "preserves b (fst (applyTriggerReference env b source price))"
proof -
  have r: "preserves b (b\<lparr>b_markPrice := p\<rparr>)" "preserves b (b\<lparr>b_indexPrice := p\<rparr>)" for p
    by (rule positions_frame; simp add: positions_ok_def position_sum_def)+
  show ?thesis
    unfolding applyTriggerReference_def Let_def
    by (intro preserves_branch) (auto simp: r intro: preserves_trans [OF _ preserves_drainReference])
qed

lemma preserves_noteStopPeak: "preserves b (fst (noteStopPeak b i peak))"
  unfolding noteStopPeak_def by (intro preserves_branch) (simp_all add: evolves_preserves [OF evolves_upd_stop])

lemma preserves_noteFutures: "preserves b (noteFuturesPosition b acc qty)"
  by (rule positions_frame) (simp_all add: noteFuturesPosition_def positions_ok_def position_sum_def)

lemma preserves_depth: "depth b limit = Some (b', v) \<Longrightarrow> preserves b b'"
  by (auto simp: depth_def Let_def positions_ok_def position_sum_def intro!: positions_frame split: option.splits if_splits)

lemmas preserves_public = preserves_cancel [THEN preservesD(1)] preserves_cancel_ids [THEN preservesD(1)]
  preserves_amend [THEN preservesD(1)] preserves_reference [THEN preservesD(1)] preserves_noteFutures [THEN preservesD(1)]
  preserves_noteStopPeak [THEN preservesD(1)]

inductive reachable :: "order_book \<Rightarrow> bool" where
  fresh: "reachable (new_book marketId)"
| submits: "reachable b \<Longrightarrow> reachable (fst (submit env b order t))"
| cancels: "reachable b \<Longrightarrow> reachable (fst (cancel b orderId reason))"
| cancels_account: "reachable b \<Longrightarrow> reachable (fst (cancelAccount b accountId side))"
| cancels_session: "reachable b \<Longrightarrow> reachable (fst (cancelSession b sessionId))"
| amends: "reachable b \<Longrightarrow> reachable (fst (amend env b cmd t))"
| references: "reachable b \<Longrightarrow> reachable (fst (applyTriggerReference env b source price))"
| futures: "reachable b \<Longrightarrow> reachable (noteFuturesPosition b accountId qty)"
| peaks: "reachable b \<Longrightarrow> reachable (fst (noteStopPeak b orderId peak))"
| depths: "reachable b \<Longrightarrow> depth b limit = Some (b', view) \<Longrightarrow> reachable b'"

lemma new_book_inv: "book_inv (new_book m)"
proof -
  have "levels_of s (new_book m) = []" for s by (simp add: levels_of_def new_book_def)
  then show ?thesis
    by (simp add: book_inv_def book_wf_def level_ok_def indexed_ok_def stops_ok_def good_but_def positions_ok_def
        position_sum_def get_resting_def new_book_def)
qed

lemma reachable_inv: "reachable b \<Longrightarrow> book_inv b"
proof (induction rule: reachable.induct)
  case (submits b env order t)
  then show ?case using submit_admits by (simp add: admits_def)
next
  case (depths b limit b' view)
  then show ?case using preserves_depth preservesD(1) by blast
qed (simp_all add: new_book_inv cancelAccount_def cancelSession_def preserves_public)

end
