(* ===== verification/Match_Props.thy ===== *)
theory Match_Props
  imports Match_Public
begin

text \<open>
  The properties of the matching engine: what a match does to both sides, what the order types
  promise, what a cancellation removes, and that every reachable book is well formed.
\<close>

section \<open>A small market\<close>

definition demo_limit :: "string \<Rightarrow> string \<Rightarrow> order_side \<Rightarrow> amount \<Rightarrow> amount \<Rightarrow> time_in_force \<Rightarrow> engine_order" where
  "demo_limit i acc side qty price tif = \<lparr>o_orderId = i, o_accountId = acc, o_type = Limit, o_side = side, o_qty = qty,
     o_price = Some price, o_stopPrice = None, o_tif = tif, o_sessionId = None, o_expireAt = None, o_ocoSiblingId = None,
     o_reduceOnly = False, o_triggerRole = None, o_triggerBy = None, o_instrument = None, o_positionQty = None,
     o_displayQty = None, o_iceberg = False, o_trail = None, o_mark = None, o_minQty = None, o_aon = False, o_peg = False,
     o_midpoint = False, o_relative = False, o_reference = None, o_offset = None, o_auction = False, o_benchmark = False,
     o_collar = False, o_min = None, o_max = None, o_minNotional = None, o_spread = False\<rparr>"

definition demo_market_env :: match_env where
  "demo_market_env = \<lparr>spread_hitch = False, date_parse = (\<lambda>s. None), option_guard = (\<lambda>b order. None)\<rparr>"

text \<open>Two asks of one account at 101 and 100, and one of another at 100.\<close>

definition demo_asks :: order_book where
  "demo_asks = fst (submit demo_market_env (fst (submit demo_market_env (fst (submit demo_market_env (new_book ''BTC-USDT'')
     (demo_limit ''a1'' ''ann'' SellSide 5 101 GTC) None)) (demo_limit ''a2'' ''ann'' SellSide 3 100 GTC) None))
     (demo_limit ''b1'' ''bob'' SellSide 4 100 GTC) None)"

lemma demo_asks_reachable: "reachable demo_asks"
  unfolding demo_asks_def by (rule reachable.submits reachable.fresh)+

definition demo_traded :: order_book where
  "demo_traded = fst (submit demo_market_env demo_asks (demo_limit ''c1'' ''cat'' BuySide 6 101 GTC) None)"

lemma demo_traded_reachable: "reachable demo_traded"
  unfolding demo_traded_def by (rule reachable.submits [OF demo_asks_reachable])

definition demo_taker :: effective_order where
  "demo_taker = toEffective (demo_limit ''c1'' ''cat'' BuySide 6 101 GTC)"

section \<open>Reachable books\<close>

text \<open>C6. Every book that the public operations can reach is well formed: the levels of each side are
  strictly sorted by price and not empty, each order stands once in the level of its side and price
  and in the index, stop orders are disjoint from resting orders, every live order has a positive
  quantity (and an iceberg a positive display), and the positions sum to zero.\<close>

theorem reachable_book_inv: "reachable b \<Longrightarrow> book_inv b"
  by (rule reachable_inv)

theorem reachable_book_inv_witness: "book_inv demo_traded"
  by (rule reachable_book_inv [OF demo_traded_reachable])

text \<open>Trading moves positions between accounts and never creates them: over all accounts of a
  reachable book they sum to zero, with one entry per account.\<close>

lemma positions_sum_zero: "reachable b \<Longrightarrow> (\<Sum>p\<leftarrow>b_positions b. snd p) = 0 \<and> distinct (map fst (b_positions b))"
  using reachable_inv [of b] by (simp add: book_inv_def positions_ok_def position_sum_def)

section \<open>Price levels\<close>

text \<open>The binary search \<open>locate\<close> over the sorted levels of a side finds what a linear scan finds:
  the position is the number of levels with a better price, and \<open>found\<close> says that the price has a level.\<close>

theorem locate_linear:
  assumes "sorted_levels s ls"
  shows "locate ls p (s = BuySide) = (length (takeWhile (\<lambda>l. better s (fst l) p) ls), p \<in> fst ` set ls)"
proof -
  obtain k found where l: "locate ls p (s = BuySide) = (k, found)" by fastforce
  note c = locate_correct [OF l assms]
  have f: "found \<longleftrightarrow> p \<in> fst ` set ls" by (rule locate_found_iff [OF l assms])
  have k: "k \<le> length ls" "\<forall>j<k. better s (fst (ls ! j)) p" "k < length ls \<Longrightarrow> \<not> better s (fst (ls ! k)) p"
    using c sorted_levels_nth [OF assms] better_asym by (cases found; fastforce)+
  have "takeWhile (\<lambda>l. better s (fst l) p) ls = take k ls" using k by (intro takeWhile_eq_take_P_nth) auto
  then have "length (takeWhile (\<lambda>l. better s (fst l) p) ls) = k" using k(1) by simp
  then show ?thesis using l f by simp
qed

section \<open>Matching\<close>

text \<open>C3. A match accounts for every unit of the taker and of every maker: what fills and what remains
  add up to the order, no maker gives more than it had and what is left of it is what it did not give.
  Every fill is at the price of a resting order of the other side, within the limit of the taker,
  never between orders of one account, and the fills come in increasing sequence and from better to
  worse prices.\<close>

theorem match_conserves:
  assumes "book_inv b" "\<not> isLive b (e_orderId order)" "0 < e_qty order" "ms = match b order"
  shows "(\<Sum>f\<leftarrow>m_fills ms. f_qty f) + m_remaining ms = e_qty order \<and> 0 \<le> m_remaining ms
    \<and> list_all (fair_fill b order) (m_fills ms) \<and> sorted_wrt (before_fill order) (m_fills ms)
    \<and> (\<forall>j r0. get_resting b j = Some r0 \<longrightarrow> filled_on j (m_fills ms) \<le> r_remaining r0)
    \<and> (\<forall>j r. get_resting (m_book ms) j = Some r \<longrightarrow>
         (\<exists>r0. get_resting b j = Some r0 \<and> r_remaining r = r_remaining r0 - filled_on j (m_fills ms)))"
proof -
  obtain j where "fills_ok b order j ms"
    using match_fills_ok [of b order] assms by (auto simp: book_inv_def isLive_iff)
  then show ?thesis by (force simp: fills_ok_def list_all_iff)
qed

theorem match_conserves_witness:
  "(\<Sum>f\<leftarrow>m_fills (match demo_asks demo_taker). f_qty f) + m_remaining (match demo_asks demo_taker) = 6
    \<and> map (\<lambda>f. (f_makerOrderId f, f_price f, f_qty f)) (m_fills (match demo_asks demo_taker)) = [(''a2'', 100, 3), (''b1'', 100, 3)]"
proof
  have d: "\<not> isLive demo_asks (e_orderId demo_taker)" "e_qty demo_taker = 6" by code_simp+
  show "(\<Sum>f\<leftarrow>m_fills (match demo_asks demo_taker). f_qty f) + m_remaining (match demo_asks demo_taker) = 6"
    using match_conserves [OF reachable_inv [OF demo_asks_reachable] d(1) _ refl] d(2) by simp
  show "map (\<lambda>f. (f_makerOrderId f, f_price f, f_qty f)) (m_fills (match demo_asks demo_taker)) = [(''a2'', 100, 3), (''b1'', 100, 3)]"
    by code_simp
qed

section \<open>Reduce-only makers\<close>

text \<open>Every fill against a reduce-only order of \<open>b\<close> is at most what was open before it.\<close>

definition reduce_only_ok :: "order_book \<Rightarrow> fill list \<Rightarrow> bool" where
  "reduce_only_ok b fs \<longleftrightarrow> (\<forall>k < length fs. case get_resting b (f_makerOrderId (fs ! k)) of None \<Rightarrow> True
     | Some r \<Rightarrow> r_reduceOnly r \<longrightarrow> f_qty (fs ! k) \<le> openQty (netAfterFills b (r_accountId r) (take k fs)) (r_side r))"

lemma reduce_only_snoc:
  assumes "reduce_only_ok b fs" "get_resting b (f_makerOrderId f) = Some r"
    "r_reduceOnly r \<Longrightarrow> f_qty f \<le> openQty (netAfterFills b (r_accountId r) fs) (r_side r)"
  shows "reduce_only_ok b (fs @ [f])"
  unfolding reduce_only_ok_def
proof (intro allI impI)
  fix k assume "k < length (fs @ [f])"
  then consider "k < length fs" | "k = length fs" by fastforce
  then show "case get_resting b (f_makerOrderId ((fs @ [f]) ! k)) of None \<Rightarrow> True
     | Some r \<Rightarrow> r_reduceOnly r \<longrightarrow> f_qty ((fs @ [f]) ! k) \<le> openQty (netAfterFills b (r_accountId r) (take k (fs @ [f]))) (r_side r)"
    using assms by cases (auto simp: reduce_only_ok_def nth_append split: option.splits)
qed

lemma netAfterFills_book: "b_positions b' = b_positions b \<Longrightarrow> netAfterFills b' acc fs = netAfterFills b acc fs"
  by (simp add: netAfterFills_def netPosition_def)

text \<open>Loop invariant: the fills so far respect the open quantities, and a surviving maker is still
  the order of \<open>b\<close> in account, side and reduce-only flag.\<close>

definition reduce_inv :: "order_book \<Rightarrow> match_state \<Rightarrow> bool" where
  "reduce_inv b ms \<longleftrightarrow> reduce_only_ok b (m_fills ms) \<and> b_positions (m_book ms) = b_positions b
     \<and> (\<forall>j r. get_resting (m_book ms) j = Some r \<longrightarrow> (\<exists>r0. get_resting b j = Some r0 \<and> r_accountId r0 = r_accountId r
         \<and> r_side r0 = r_side r \<and> r_reduceOnly r0 = r_reduceOnly r))"

lemma reduce_inv_iter:
  assumes "match_inv order i ms" "reduce_inv b ms" "match_iter order i ms = (ms', nxt)"
  shows "reduce_inv b ms'"
  using assms(1,3)
proof (cases rule: match_iter_step)
  case quiet
  then show ?thesis using assms(2) by simp
next
  case (removed mk r)
  then show ?thesis using assms(2) by (auto simp: reduce_inv_def later_def split: if_splits)
next
  case (traded mk r qty D)
  let ?f = "mk_fill (Suc (b_sequence (m_book ms))) r order qty"
  have f: "f_makerOrderId ?f = mk" "f_qty ?f = qty" using traded(3) by (simp_all add: mk_fill_def)
  obtain r0 where r0: "get_resting b mk = Some r0" "r_accountId r0 = r_accountId r" "r_side r0 = r_side r" "r_reduceOnly r0 = r_reduceOnly r"
    using assms(2) traded(1) by (auto simp: reduce_inv_def)
  have pos: "b_positions (m_book ms) = b_positions b" using assms(2) by (simp add: reduce_inv_def)
  have "reduce_only_ok b (m_fills ms @ [?f])"
    by (rule reduce_only_snoc [where r = r0])
      (use assms(2) r0 traded(20) netAfterFills_book [OF pos] in \<open>simp_all add: f reduce_inv_def\<close>)
  moreover have "\<exists>q. get_resting b j = Some q \<and> r_accountId q = r_accountId r' \<and> r_side q = r_side r' \<and> r_reduceOnly q = r_reduceOnly r'"
    if "get_resting (m_book ms') j = Some r'" for j r'
  proof (cases "j = mk")
    case True
    then show ?thesis using traded(16) that r0 by simp
  next
    case False
    then show ?thesis using traded(15) [OF False] that assms(2) by (auto simp: reduce_inv_def split: if_splits)
  qed
  ultimately show ?thesis using assms(2) traded(13,17) by (simp add: reduce_inv_def later_def)
qed

lemma match_reduce_only_net:
  assumes "book_inv b" "\<not> isLive b (e_orderId order)"
  shows "reduce_only_ok b (m_fills (match b order))"
proof -
  let ?P = "\<lambda>i ms. match_inv order i ms \<and> reduce_inv b ms"
  have "match_inv order 0 (match_init b order)" using assms match_inv_init [of b order] by (simp add: book_inv_def isLive_iff)
  moreover have "reduce_inv b (match_init b order)" by (simp add: reduce_inv_def reduce_only_ok_def match_init_def)
  ultimately have "?P 0 (match_init b order)" by blast
  then have "\<exists>j. ?P j (match_loop order 0 (match_init b order))"
    by (rule match_loop_keeps [where P = ?P]) (use match_iter_inv reduce_inv_iter in blast)
  then show ?thesis by (simp add: match_def reduce_inv_def)
qed

text \<open>The position that the reduce-only checks of the book read, moved on by fills.\<close>

definition position_delta :: "string \<Rightarrow> fill \<Rightarrow> amount" where
  "position_delta acc f = (if f_takerAccountId f = acc then fill_signed f else 0) - (if f_makerAccountId f = acc then fill_signed f else 0)"

definition position_after :: "order_book \<Rightarrow> string \<Rightarrow> fill list \<Rightarrow> amount" where
  "position_after b acc fs = signedPosition b acc None + (\<Sum>f\<leftarrow>fs. position_delta acc f)"

lemma netAfterFills_sum: "netAfterFills b acc fs = netPosition b acc + (\<Sum>f\<leftarrow>fs. position_delta acc f)"
proof -
  have "foldl (\<lambda>net f. let net1 = (if f_takerAccountId f = acc then net + fill_signed f else net)
      in (if f_makerAccountId f = acc then net1 - fill_signed f else net1)) n fs = n + (\<Sum>f\<leftarrow>fs. position_delta acc f)" for n
    by (induction fs arbitrary: n) (simp_all add: position_delta_def Let_def)
  then show ?thesis by (simp add: netAfterFills_def)
qed

text \<open>C35. A reduce-only order in the book never gives more than the open position of its account, when the account has no
  explicit futures position noted: each fill against it is at most what the fills before it left open, and after it
  the position is closed in part or in full and has not turned. An explicit
  position is outside: the match loop does not read it.\<close>

theorem match_reduce_only:
  assumes "book_inv b" "\<not> isLive b (e_orderId order)" "0 < e_qty order" "fs = m_fills (match b order)" "k < length fs"
    and "get_resting b (f_makerOrderId (fs ! k)) = Some r" "r_reduceOnly r" "map_of (b_futuresPositions b) (r_accountId r) = None"
  shows "f_qty (fs ! k) \<le> openQty (position_after b (r_accountId r) (take k fs)) (r_side r)
    \<and> (if r_side r = SellSide then 0 \<le> position_after b (r_accountId r) (take (Suc k) fs)
       else position_after b (r_accountId r) (take (Suc k) fs) \<le> 0)"
proof -
  let ?f = "fs ! k" and ?p = "position_after b (r_accountId r)"
  obtain j where "fills_ok b order j (match b order)"
    using match_fills_ok [of b order] assms(1-3) by (auto simp: book_inv_def isLive_iff)
  then have fair: "fair_fill b order ?f" using assms(4,5) by (auto simp: fills_ok_def)
  have "netAfterFills b (r_accountId r) fs' = ?p fs'" for fs'
    using assms(8) by (simp add: netAfterFills_sum position_after_def signedPosition_def)
  then have le: "f_qty ?f \<le> openQty (?p (take k fs)) (r_side r)"
    using match_reduce_only_net [OF assms(1,2)] assms(4-7) by (auto simp: reduce_only_ok_def)
  have "?p (take (Suc k) fs) = ?p (take k fs) + position_delta (r_accountId r) ?f"
    using assms(5) by (simp add: position_after_def take_Suc_conv_app_nth)
  moreover have q: "0 < f_qty ?f" and acc: "f_makerAccountId ?f = r_accountId r" "f_takerAccountId ?f \<noteq> r_accountId r"
    and side: "r_side r = opposite (f_takerSide ?f)"
    using fair assms(6) unfolding fair_fill_def by auto
  have "position_delta (r_accountId r) ?f = (if r_side r = SellSide then - f_qty ?f else f_qty ?f)"
    using acc side by (cases "f_takerSide ?f") (simp_all add: position_delta_def fill_signed_def opposite_def)
  ultimately show ?thesis using le q by (simp add: openQty_def split: if_splits)
qed

definition demo_reducing :: order_book where
  "demo_reducing = fst (submit demo_market_env demo_traded ((demo_limit ''c2'' ''cat'' SellSide 6 110 GTC)\<lparr>o_reduceOnly := True\<rparr>) None)"

definition demo_buyer :: effective_order where
  "demo_buyer = toEffective (demo_limit ''d1'' ''dan'' BuySide 10 110 GTC)"

theorem match_reduce_only_witness:
  "let fs = m_fills (match demo_reducing demo_buyer) in map f_makerOrderId fs = [''b1'', ''a1'', ''c2''] \<and> f_qty (fs ! 2) = 4
    \<and> f_qty (fs ! 2) \<le> openQty (position_after demo_reducing ''cat'' (take 2 fs)) SellSide \<and> 0 \<le> position_after demo_reducing ''cat'' (take 3 fs)"
proof -
  let ?fs = "m_fills (match demo_reducing demo_buyer)"
  have "reachable demo_reducing" unfolding demo_reducing_def by (rule reachable.submits [OF demo_traded_reachable])
  then have inv: "book_inv demo_reducing" by (rule reachable_inv)
  have fs: "map f_makerOrderId ?fs = [''b1'', ''a1'', ''c2'']" "f_qty (?fs ! 2) = 4" by code_simp+
  have k: "2 < length ?fs" using arg_cong [OF fs(1), of length] by simp
  have "map f_makerOrderId ?fs ! 2 = ''c2''" unfolding fs(1) by simp
  then have c2: "f_makerOrderId (?fs ! 2) = ''c2''" using k by simp
  have o: "\<not> isLive demo_reducing (e_orderId demo_buyer)" "0 < e_qty demo_buyer" by code_simp+
  have "case get_resting demo_reducing ''c2'' of None \<Rightarrow> False
    | Some r \<Rightarrow> r_reduceOnly r \<and> r_accountId r = ''cat'' \<and> r_side r = SellSide \<and> map_of (b_futuresPositions demo_reducing) (r_accountId r) = None" by code_simp
  then obtain r where r: "get_resting demo_reducing (f_makerOrderId (?fs ! 2)) = Some r" "r_reduceOnly r"
    "map_of (b_futuresPositions demo_reducing) (r_accountId r) = None" "r_accountId r = ''cat''" "r_side r = SellSide"
    by (auto simp: c2 split: option.splits)
  from match_reduce_only [OF inv o refl k r(1-3)] show ?thesis using fs r(4,5) by (simp add: Let_def numeral_3_eq_3)
qed

section \<open>Order types\<close>

lemma execute_unrested: "\<not> can_rest e \<Longrightarrow> x_resting (snd (execute b e n v)) = None"
  by (simp add: execute_def Let_def nextSequence_eq case_prod_beta)

text \<open>An immediate-or-cancel, fill-or-kill or market order never rests: whatever its submission
  returns, there is no resting order in it.\<close>

theorem immediate_never_rests:
  assumes "o_type order = Limit \<and> o_tif order \<in> {IOC, FOK} \<or> o_type order = Market" "\<not> o_peg order" "\<not> o_relative order"
  shows "s_resting (snd (submit env b order t)) = None"
proof -
  have o: "bindPegRelative order = order" using assms(2,3) by (simp add: bindPegRelative_def)
  have "\<not> can_rest (toEffective order)" using assms(1) by (auto simp: can_rest_def toEffective_def is_priced_type_def)
  then have "s_resting (snd (submit_now env c order ex arr)) = None" for c ex arr
    using execute_unrested by (simp add: submit_now_def rejected_def Let_def nextSequence_eq case_prod_beta split: option.splits)
  moreover have "\<not> is_stop_type (o_type order)" using assms(1) by (auto simp: is_stop_type_def)
  ultimately show ?thesis
    by (simp add: submit_def o rejected_def Let_def case_prod_beta split: option.splits)
qed

section \<open>Cancellation\<close>

lemma live_ids_bump [simp]: "live_ids (bump b) = live_ids b" "live_ids (forgetAccepted i b) = live_ids b"
  by (simp_all add: live_ids_def forgetAccepted_def get_resting_def)

lemma forget_fields [simp]:
  "levels_of s (forgetAccepted i b) = levels_of s b" "get_resting (forgetAccepted i b) j = get_resting b j"
  "b_sequence (forgetAccepted i b) = b_sequence b" "b_stops (forgetAccepted i b) = b_stops b"
  by (simp_all add: forgetAccepted_def levels_of_def get_resting_def)

lemma absent_remove_id:
  assumes "book_wf b" "get_resting b i = None"
  shows "remove_id i (levels_of s b) = levels_of s b"
  using wf_level(3) [OF assms(1)] wf_nonempty [OF assms(1)] assms(2) by (intro remove_id_absent) fastforce

text \<open>What \<open>pull\<close> does, by where the order is.\<close>

lemma pull_cases:
  assumes "book_inv b"
  obtains (resting) r where "get_resting b i = Some r" "pull reason b i = (bump (without i b), Some \<lparr>c_orderId = i,
      c_accountId = r_accountId r, c_remainingQty = r_remaining r, c_sequence = Suc (b_sequence b), c_reason = reason\<rparr>)"
    "i \<notin> live_ids (without i b)" "live_ids b = insert i (live_ids (without i b))"
  | (stop) k where "get_resting b i = None" "k < length (b_stops b)" "st_orderId (b_stops b ! k) = i"
    "pull reason b i = (bump (take_stop k b), Some \<lparr>c_orderId = i, c_accountId = st_accountId (b_stops b ! k),
      c_remainingQty = st_qty (b_stops b ! k), c_sequence = Suc (b_sequence b), c_reason = reason\<rparr>)"
    "i \<notin> live_ids (take_stop k b)" "live_ids b = insert i (live_ids (take_stop k b))"
  | (gone) "i \<notin> live_ids b" "pull reason b i = (b, None)"
proof (cases "get_resting b i")
  case (Some r)
  have e: "removeResting b r = without i b" using removeResting_without Some assms by (auto simp: book_inv_def)
  show ?thesis
    using removeResting_inv [OF assms Some] Some
    by (intro resting [OF Some]) (simp_all add: e pull_def Let_def nextSequence_eq)
next
  case None
  show ?thesis
  proof (cases "find_index (\<lambda>s. st_orderId s = i) (b_stops b)")
    case (Some k)
    then have k: "k < length (b_stops b)" "st_orderId (b_stops b ! k) = i" using find_index_Some by blast+
    show ?thesis
      using take_stop_gone [OF assms k(1)] k Some None by (intro stop [OF None k]) (simp_all add: pull_def Let_def nextSequence_eq)
  next
    case (None)
    then have "i \<notin> live_ids b" using \<open>get_resting b i = None\<close> by (auto simp: live_ids_def find_index_None)
    then show ?thesis using None \<open>get_resting b i = None\<close> by (intro gone) (simp_all add: pull_def)
  qed
qed

text \<open>Cancelling a live order takes exactly that order out of the book: it is no longer live, the
  levels are those without its id, every other order is as before, and the cancellation takes the
  next sequence number. Cancelling an order that is not live changes nothing and says so.\<close>

theorem cancel_exact:
  assumes "book_inv b" "cancel b i reason = (b', r)"
  shows "(isLive b i \<longrightarrow> cr_cancelled r \<and> cr_sequence r = Some (b_sequence b') \<and> b_sequence b' = Suc (b_sequence b) \<and> \<not> isLive b' i
      \<and> (\<forall>s. levels_of s b' = remove_id i (levels_of s b))
      \<and> (\<forall>j. j \<noteq> i \<longrightarrow> get_resting b' j = get_resting b j \<and> (j \<in> live_ids b' \<longleftrightarrow> j \<in> live_ids b)))
    \<and> (\<not> isLive b i \<longrightarrow> b' = b \<and> \<not> cr_cancelled r)"
  using assms(1)
proof (cases rule: pull_cases [where i = i and reason = reason])
  case (resting q)
  then have b': "b' = forgetAccepted i (bump (without i b))" "cr_cancelled r" "cr_sequence r = Some (Suc (b_sequence b))"
    using assms(2) by (auto simp: cancel_def)
  show ?thesis using b' resting(3,4) by (simp add: isLive_iff)
next
  case (stop k)
  have "remove_id i (levels_of s b) = levels_of s b" for s
    using absent_remove_id stop(1) assms(1) by (auto simp: book_inv_def)
  moreover have "b' = forgetAccepted i (bump (take_stop k b))" "cr_cancelled r" "cr_sequence r = Some (Suc (b_sequence b))"
    using assms(2) stop(4) by (auto simp: cancel_def)
  ultimately show ?thesis using stop(5,6) by (simp add: isLive_iff)
next
  case gone
  then show ?thesis using assms(2) by (auto simp: cancel_def isLive_iff)
qed

section \<open>Mass cancellation\<close>

lemma splice_out_filter:
  assumes "distinct (map f xs)" "k < length xs"
  shows "splice_out k xs = filter (\<lambda>x. f x \<noteq> f (xs ! k)) xs"
proof -
  have "distinct (map f (take k xs @ xs ! k # drop (Suc k) xs))" using assms by (simp add: id_take_nth_drop [symmetric])
  then have "filter (\<lambda>x. f x \<noteq> f (xs ! k)) (take k xs) = take k xs" "filter (\<lambda>x. f x \<noteq> f (xs ! k)) (drop (Suc k) xs) = drop (Suc k) xs"
    by (auto simp: filter_id_conv image_iff)
  then have "splice_out k xs = filter (\<lambda>x. f x \<noteq> f (xs ! k)) (take k xs @ xs ! k # drop (Suc k) xs)"
    by (simp add: splice_out_def)
  then show ?thesis using assms(2) by (simp add: id_take_nth_drop [symmetric])
qed

text \<open>The book without a set of orders, as far as orders go.\<close>

definition cancelled_to :: "order_book \<Rightarrow> string set \<Rightarrow> order_book \<Rightarrow> bool" where
  "cancelled_to b X b' \<longleftrightarrow> book_inv b' \<and> (\<forall>j. get_resting b' j = (if j \<in> X then None else get_resting b j))
     \<and> b_stops b' = filter (\<lambda>s. st_orderId s \<notin> X) (b_stops b)"

lemma cancel_step:
  assumes "book_inv b"
  shows "cancelled_to b {i} (fst (cancel b i reason))"
    "i \<in> live_ids b \<Longrightarrow> map_option c_orderId (cr_cancellation (snd (cancel b i reason))) = Some i"
proof -
  have inv: "book_inv (fst (cancel b i reason))" by (rule preservesD(1) [OF preserves_cancel assms])
  have d: "distinct (map st_orderId (b_stops b))" "\<forall>s \<in> set (b_stops b). get_resting b (st_orderId s) = None"
    using assms by (auto simp: book_inv_def book_wf_def stops_ok_def)
  have "(\<forall>j. get_resting (fst (cancel b i reason)) j = (if j \<in> {i} then None else get_resting b j))
      \<and> b_stops (fst (cancel b i reason)) = filter (\<lambda>s. st_orderId s \<notin> {i}) (b_stops b)
      \<and> (i \<in> live_ids b \<longrightarrow> map_option c_orderId (cr_cancellation (snd (cancel b i reason))) = Some i)"
    using assms
  proof (cases rule: pull_cases [where i = i and reason = reason])
    case (resting r)
    have "filter (\<lambda>s. st_orderId s \<noteq> i) (b_stops b) = b_stops b" using d(2) resting(1) by (auto simp: filter_id_conv)
    then show ?thesis using resting(2) by (simp add: cancel_def)
  next
    case (stop k)
    then show ?thesis using splice_out_filter [OF d(1) stop(2)] by (simp add: cancel_def)
  next
    case gone
    then have "filter (\<lambda>s. st_orderId s \<noteq> i) (b_stops b) = b_stops b" by (auto simp: filter_id_conv live_ids_def)
    then show ?thesis using gone by (simp add: cancel_def live_ids_def)
  qed
  then show "cancelled_to b {i} (fst (cancel b i reason))"
    "i \<in> live_ids b \<Longrightarrow> map_option c_orderId (cr_cancellation (snd (cancel b i reason))) = Some i"
    using inv unfolding cancelled_to_def by blast+
qed

lemma cancel_ids_effect:
  assumes "book_inv b" "distinct is" "set is \<subseteq> live_ids b"
  shows "cancelled_to b (set is) (fst (cancel_ids b reason is)) \<and> map c_orderId (snd (cancel_ids b reason is)) = is"
  using assms
proof (induction "is" arbitrary: b)
  case Nil
  then show ?case by (simp add: cancelled_to_def)
next
  case (Cons i "is")
  let ?b1 = "fst (cancel b i reason)"
  have c: "cancelled_to b {i} ?b1" by (rule cancel_step [OF Cons.prems(1)])
  have one: "map_option c_orderId (cr_cancellation (snd (cancel b i reason))) = Some i"
    by (rule cancel_step [OF Cons.prems(1)]) (use Cons.prems in simp)
  have "book_inv ?b1" "distinct is" "set is \<subseteq> live_ids ?b1"
    using c Cons.prems by (auto simp: cancelled_to_def live_ids_def)
  from Cons.IH [OF this] have "cancelled_to ?b1 (set is) (fst (cancel_ids ?b1 reason is))"
    "map c_orderId (snd (cancel_ids ?b1 reason is)) = is" by blast+
  moreover from this(1) c have "cancelled_to b (set (i # is)) (fst (cancel_ids ?b1 reason is))"
    by (auto simp: cancelled_to_def intro: filter_cong)
  ultimately show ?case using one by (auto simp: Let_def case_prod_beta split: option.splits)
qed

lemma index_get: "book_inv b \<Longrightarrow> (i, r) \<in> set (b_index b) \<longleftrightarrow> get_resting b i = Some r"
  by (simp add: book_inv_def book_wf_def indexed_ok_def get_resting_def)

lemma row_ids:
  assumes "book_inv b"
  shows "map r_orderId (resting_rows b) = map fst (b_index b)" "distinct (map r_orderId (resting_rows b) @ map st_orderId (b_stops b))"
    "r \<in> set (resting_rows b) \<longleftrightarrow> get_resting b (r_orderId r) = Some r"
proof -
  have id: "r_orderId r = i" if "(i, r) \<in> set (b_index b)" for i r
    using that index_get [OF assms] wf_get(1) assms by (auto simp: book_inv_def)
  then show e: "map r_orderId (resting_rows b) = map fst (b_index b)" by (auto simp: resting_rows_def)
  show "r \<in> set (resting_rows b) \<longleftrightarrow> get_resting b (r_orderId r) = Some r"
  proof
    assume "r \<in> set (resting_rows b)"
    then obtain i where "(i, r) \<in> set (b_index b)" by (auto simp: resting_rows_def)
    then show "get_resting b (r_orderId r) = Some r" using id index_get [OF assms] by metis
  next
    assume "get_resting b (r_orderId r) = Some r"
    then have "(r_orderId r, r) \<in> set (b_index b)" using index_get [OF assms] by simp
    then show "r \<in> set (resting_rows b)" unfolding resting_rows_def by force
  qed
  have "fst p \<noteq> st_orderId s" if "p \<in> set (b_index b)" "s \<in> set (b_stops b)" for p s
    using that index_get [OF assms, of "fst p" "snd p"] assms by (auto simp: book_inv_def book_wf_def stops_ok_def)
  then show "distinct (map r_orderId (resting_rows b) @ map st_orderId (b_stops b))"
    using assms unfolding e by (auto simp: book_inv_def book_wf_def stops_ok_def indexed_ok_def)
qed

text \<open>Cancelling an account takes out all its live orders of the given side (of both sides when no side
  is given), resting and stop alike, and no other order: the remaining resting orders and stops are
  exactly those that do not match, and one cancellation is reported per order, oldest first.\<close>

theorem cancelAccount_exact:
  assumes "book_inv b" "accountId \<noteq> []" "cancelAccount b accountId side = (b', cs)"
  shows "(\<forall>i r. get_resting b' i = Some r \<longleftrightarrow>
      get_resting b i = Some r \<and> \<not> (r_accountId r = accountId \<and> (side = None \<or> side = Some (r_side r))))
    \<and> b_stops b' = filter (\<lambda>s. \<not> (st_accountId s = accountId \<and> (side = None \<or> side = Some (st_side s)))) (b_stops b)
    \<and> map c_orderId cs = ownedOrderIds accountId (live_owned_rows b) side"
proof -
  let ?ids = "ownedOrderIds accountId (live_owned_rows b) side"
  let ?own = "\<lambda>row. lo_accountId row = accountId \<and> (side = None \<or> side = Some (lo_side row))"
  have ids: "map lo_orderId (live_owned_rows b) = map r_orderId (resting_rows b) @ map st_orderId (b_stops b)"
    by (simp add: live_owned_rows_def comp_def)
  have set: "set ?ids = lo_orderId ` {row \<in> set (live_owned_rows b). ?own row}"
    using assms(2) by (auto simp: ownedOrderIds_def)
  have "distinct (map lo_orderId (live_owned_rows b))" unfolding ids by (rule row_ids(2) [OF assms(1)])
  then have inj: "inj_on lo_orderId (set (live_owned_rows b))" "distinct (live_owned_rows b)" by (simp_all add: distinct_map)
  have dist: "distinct ?ids"
    using inj by (auto simp: ownedOrderIds_def distinct_map intro: inj_on_subset)
  have live: "set ?ids \<subseteq> live_ids b"
  proof -
    have "set ?ids \<subseteq> lo_orderId ` set (live_owned_rows b)" unfolding set by blast
    also have "\<dots> = set (map r_orderId (resting_rows b) @ map st_orderId (b_stops b))" unfolding ids [symmetric] by simp
    also have "\<dots> \<subseteq> live_ids b" using row_ids(3) [OF assms(1)] by (auto simp: live_ids_def)
    finally show ?thesis .
  qed
  have eff: "cancelled_to b (set ?ids) b'" "map c_orderId cs = ?ids"
    using cancel_ids_effect [OF assms(1) dist live, of Requested] assms(3) by (simp_all add: cancelAccount_def)
  have mem: "lo_orderId row \<in> set ?ids \<longleftrightarrow> ?own row" if "row \<in> set (live_owned_rows b)" for row
    using that inj(1) unfolding set by (auto dest: inj_onD)
  have rr: "i \<in> set ?ids \<longleftrightarrow> r_accountId r = accountId \<and> (side = None \<or> side = Some (r_side r))" if "get_resting b i = Some r" for i r
  proof -
    have "r_orderId r = i" using wf_get(1) that assms(1) by (auto simp: book_inv_def)
    moreover have "r \<in> set (resting_rows b)" using row_ids(3) [OF assms(1), of r] that calculation by simp
    then have "\<lparr>lo_orderId = r_orderId r, lo_accountId = r_accountId r, lo_sequence = r_sequence r, lo_side = r_side r\<rparr> \<in> set (live_owned_rows b)"
      unfolding live_owned_rows_def set_append set_map by blast
    from mem [OF this] show ?thesis using calculation by simp
  qed
  have ss: "st_orderId s \<in> set ?ids \<longleftrightarrow> st_accountId s = accountId \<and> (side = None \<or> side = Some (st_side s))" if "s \<in> set (b_stops b)" for s
  proof -
    have "\<lparr>lo_orderId = st_orderId s, lo_accountId = st_accountId s, lo_sequence = st_sequence s, lo_side = st_side s\<rparr> \<in> set (live_owned_rows b)"
      using that by (simp add: live_owned_rows_def)
    from mem [OF this] show ?thesis by simp
  qed
  have "b_stops b' = filter (\<lambda>s. \<not> (st_accountId s = accountId \<and> (side = None \<or> side = Some (st_side s)))) (b_stops b)"
    using eff(1) ss by (auto simp: cancelled_to_def intro: filter_cong)
  then show ?thesis using eff rr unfolding cancelled_to_def by auto
qed

section \<open>Draining stops\<close>

text \<open>The outcomes so far and the stops still waiting, as ids.\<close>

definition fired_or_waiting :: "order_book \<times> trigger_outcome list \<Rightarrow> string multiset" where
  "fired_or_waiting r = mset (map t_orderId (snd r)) + mset (map st_orderId (b_stops (fst r)))"

lemma waiting_ids:
  assumes "stop_keys b' \<subseteq># stop_keys b"
  shows "mset (map st_orderId (b_stops b')) \<subseteq># mset (map st_orderId (b_stops b))"
proof -
  have "mset (map st_orderId (b_stops c)) = image_mset fst (stop_keys c)" for c by (simp add: stop_key_def image_mset.compositionality comp_def)
  then show ?thesis using image_mset_subseteq_mono [OF assms, of fst] by simp
qed

lemma fire_once:
  assumes "k < length (b_stops b)"
  shows "fired_or_waiting (fst (fire env (take_stop k b) (b_stops b ! k) p), outs @ [snd (fire env (take_stop k b) (b_stops b ! k) p)])
    \<subseteq># fired_or_waiting (b, outs)"
proof -
  have "mset (b_stops b) = mset (take k (b_stops b) @ b_stops b ! k # drop (Suc k) (b_stops b))"
    using id_take_nth_drop [OF assms] by simp
  then have "mset (map st_orderId (b_stops b)) = add_mset (st_orderId (b_stops b ! k)) (mset (map st_orderId (splice_out k (b_stops b))))"
    by (simp add: splice_out_def)
  then show ?thesis
    using waiting_ids [OF fire_prints(1) [of env "take_stop k b" "b_stops b ! k" p]] by (simp add: fired_or_waiting_def fire_prints(3))
qed

lemma legacy_once: "fired_or_waiting (drainLegacyStops env b outs) \<subseteq># fired_or_waiting (b, outs)"
proof (induction env b outs rule: drainLegacyStops.induct)
  case (1 env b outs)
  show ?case
  proof (cases "find_index (legacyLevelTriggered b) (b_stops b)")
    case None
    then show ?thesis by (simp add: drainLegacyStops.simps [of env b])
  next
    case (Some k)
    then have "k < length (b_stops b)" using find_index_Some by blast
    from subset_mset.order_trans [OF 1 [OF Some refl] fire_once [OF this]] show ?thesis
      by (simp add: drainLegacyStops.simps [of env b] Some Let_def)
  qed
qed

lemma fire_all_once:
  "fired_or_waiting (fire_all env b ss p outs) \<subseteq># mset (map st_orderId ss) + fired_or_waiting (b, outs)
   \<and> stop_keys (fst (fire_all env b ss p outs)) \<subseteq># stop_keys b"
proof (induction ss arbitrary: b outs)
  case (Cons s ss)
  let ?r = "fire env b s p"
  have r: "stop_keys (fst ?r) \<subseteq># stop_keys b" "t_orderId (snd ?r) = st_orderId s" by (rule fire_prints)+
  have "fired_or_waiting (fst ?r, outs @ [snd ?r]) \<subseteq># add_mset (st_orderId s) (fired_or_waiting (b, outs))"
    using waiting_ids [OF r(1)] r(2) by (simp add: fired_or_waiting_def)
  then have "mset (map st_orderId ss) + fired_or_waiting (fst ?r, outs @ [snd ?r]) \<subseteq># mset (map st_orderId (s # ss)) + fired_or_waiting (b, outs)"
    by (simp add: subset_mset.add_left_mono)
  then show ?case using Cons [of "fst ?r" "outs @ [snd ?r]"] r(1) by (auto simp: Let_def intro: subset_mset.order_trans)
qed simp

text \<open>The batch of a move, fired from the book without it.\<close>

lemma batch_once:
  assumes "b1 = b\<lparr>b_stops := filter (\<lambda>s. \<not> P s) (b_stops b)\<rparr>"
  shows "fired_or_waiting (fire_all env b1 (filter P (b_stops b)) p outs) \<subseteq># fired_or_waiting (b, outs)"
proof -
  have "mset (map st_orderId (filter P (b_stops b))) + mset (map st_orderId (filter (\<lambda>s. \<not> P s) (b_stops b))) = mset (map st_orderId (b_stops b))"
    by (simp add: mset_filter flip: image_mset_union)
  then have "mset (map st_orderId (filter P (b_stops b))) + fired_or_waiting (b1, outs) = fired_or_waiting (b, outs)"
    by (simp add: fired_or_waiting_def assms)
  then show ?thesis using fire_all_once [of env b1 "filter P (b_stops b)" p outs] by simp
qed

lemma moves_once: "fired_or_waiting (drain_moves env b outs) \<subseteq># fired_or_waiting (b, outs)"
proof (induction env b outs rule: drain_moves.induct)
  case (1 env b outs)
  show ?case
  proof (cases "b_lastMove b")
    case None
    then show ?thesis by (simp add: drain_moves.simps [of env b])
  next
    case (Some mv)
    obtain stamp previous nxt where mv: "mv = (stamp, previous, nxt)" by (cases mv) auto
    let ?P = "moved_stop previous nxt"
    let ?r = "fire_all env (b\<lparr>b_stops := filter (\<lambda>s. \<not> ?P s) (b_stops b)\<rparr>) (filter ?P (b_stops b)) nxt outs"
    let ?l = "drainLegacyStops env (fst ?r) (snd ?r)"
    have r: "fired_or_waiting ?r \<subseteq># fired_or_waiting (b, outs)" by (rule batch_once) simp
    show ?thesis
    proof (cases "filter ?P (b_stops b) = [] \<or> map_option fst (b_lastMove (fst ?r)) = Some stamp")
      case True
      then show ?thesis using r by (auto simp: drain_moves.simps [of env b] Some mv Let_def)
    next
      case False
      then have m: "fired_or_waiting (drain_moves env (fst ?l) (snd ?l)) \<subseteq># fired_or_waiting (fst ?l, snd ?l)"
        using 1 [OF Some mv [symmetric] refl refl _ refl refl _ refl] by blast
      have l: "fired_or_waiting (fst ?l, snd ?l) \<subseteq># fired_or_waiting ?r" using legacy_once [of env "fst ?r" "snd ?r"] by (simp only: prod.collapse)
      from subset_mset.order_trans [OF subset_mset.order_trans [OF m l] r] show ?thesis using False by (simp add: drain_moves.simps [of env b] Some mv Let_def)
    qed
  qed
qed

text \<open>What the drain leaves behind. The stamp of a move is older than the next stamp to be given.\<close>

definition stamped :: "order_book \<Rightarrow> bool" where
  "stamped b \<longleftrightarrow> (case b_lastMove b of None \<Rightarrow> True | Some (stamp, _) \<Rightarrow> stamp < b_moves b)"

definition legacy_drained :: "order_book \<Rightarrow> bool" where
  "legacy_drained b \<longleftrightarrow> (\<forall>s \<in> set (b_stops b). \<not> legacyLevelTriggered b s)"

definition move_drained :: "order_book \<Rightarrow> bool" where
  "move_drained b \<longleftrightarrow> (case b_lastMove b of None \<Rightarrow> True | Some (_, previous, nxt) \<Rightarrow> \<forall>s \<in> set (b_stops b). \<not> moved_stop previous nxt s)"

lemma record_stamped:
  assumes "stamped b" "prints_of b' = prints_of (recordPrints fs b)"
  shows "stamped b' \<and> b_moves b \<le> b_moves b' \<and> (prints_of b' = prints_of b \<or> (\<exists>mv. b_lastMove b' = Some mv \<and> b_moves b \<le> fst mv))"
  using assms by (auto simp: stamped_def prints_of_def recordPrints_def Let_def split: if_splits option.splits)

lemma fire_stamped:
  assumes "stamped b"
  shows "stamped (fst (fire env b s p)) \<and> b_moves b \<le> b_moves (fst (fire env b s p))
    \<and> (prints_of (fst (fire env b s p)) = prints_of b \<or> (\<exists>mv. b_lastMove (fst (fire env b s p)) = Some mv \<and> b_moves b \<le> fst mv))"
  using fire_prints(2) [of env b s p] record_stamped [OF assms] by blast

lemma fire_all_stamped:
  assumes "stamped b"
  shows "stamped (fst (fire_all env b ss p outs)) \<and> b_moves b \<le> b_moves (fst (fire_all env b ss p outs))
    \<and> (prints_of (fst (fire_all env b ss p outs)) = prints_of b \<or> (\<exists>mv. b_lastMove (fst (fire_all env b ss p outs)) = Some mv \<and> b_moves b \<le> fst mv))"
  using assms
proof (induction ss arbitrary: b outs)
  case (Cons s ss)
  let ?b = "fst (fire env b s p)"
  note f = fire_stamped [OF Cons.prems, of env s p]
  have "stamped ?b" using f by blast
  from Cons.IH [OF this, of "outs @ [snd (fire env b s p)]"] f show ?case by (auto simp: Let_def prints_of_def)
qed simp

lemma legacy_leaves: "stamped b \<Longrightarrow> stamped (fst (drainLegacyStops env b outs)) \<and> legacy_drained (fst (drainLegacyStops env b outs))"
proof (induction env b outs rule: drainLegacyStops.induct)
  case (1 env b outs)
  show ?case
  proof (cases "find_index (legacyLevelTriggered b) (b_stops b)")
    case None
    then have "drainLegacyStops env b outs = (b, outs)" by (simp add: drainLegacyStops.simps [of env b])
    then show ?thesis using "1.prems" None by (simp add: legacy_drained_def find_index_None)
  next
    case (Some k)
    have "stamped (take_stop k b)" using "1.prems" by (auto simp: stamped_def take_stop_def split: option.splits)
    then show ?thesis using "1.IH" [OF Some refl] fire_stamped by (simp add: drainLegacyStops.simps [of env b] Some Let_def)
  qed
qed

lemma legacy_key:
  assumes "prints_of b' = prints_of b" "stop_key s' = stop_key s"
  shows "legacyLevelTriggered b' s' = legacyLevelTriggered b s" "moved_stop previous nxt s' = moved_stop previous nxt s"
  using assms unfolding prints_of_def stop_key_def prod.inject by (simp_all only: legacyLevelTriggered_def moved_stop_def)

lemma drained_fewer:
  assumes "prints_of b' = prints_of b" "stop_keys b' \<subseteq># stop_keys b" "s' \<in> set (b_stops b')"
  obtains s where "s \<in> set (b_stops b)" "legacyLevelTriggered b' s' = legacyLevelTriggered b s" "\<And>p n. moved_stop p n s' = moved_stop p n s"
proof -
  have "stop_key s' \<in># stop_keys b" using assms(2,3) by (metis image_eqI mset_subset_eqD set_image_mset set_mset_mset)
  then obtain s where "s \<in> set (b_stops b)" "stop_key s' = stop_key s" by auto
  then show thesis using that legacy_key [OF assms(1)] by metis
qed

lemma moves_leave:
  "stamped b \<Longrightarrow> legacy_drained b \<Longrightarrow> legacy_drained (fst (drain_moves env b outs)) \<and> move_drained (fst (drain_moves env b outs))"
proof (induction env b outs rule: drain_moves.induct)
  case (1 env b outs)
  show ?case
  proof (cases "b_lastMove b")
    case None
    then show ?thesis using "1.prems" by (simp add: drain_moves.simps [of env b] move_drained_def)
  next
    case (Some mv)
    obtain stamp previous nxt where mv: "mv = (stamp, previous, nxt)" by (cases mv) auto
    let ?P = "moved_stop previous nxt"
    let ?b1 = "b\<lparr>b_stops := filter (\<lambda>s. \<not> ?P s) (b_stops b)\<rparr>"
    let ?r = "fire_all env ?b1 (filter ?P (b_stops b)) nxt outs"
    let ?l = "drainLegacyStops env (fst ?r) (snd ?r)"
    have s1: "stamped ?b1" "prints_of ?b1 = prints_of b" "stamp < b_moves ?b1"
      using "1.prems"(1) Some mv by (simp_all add: stamped_def prints_of_def)
    note f = fire_all_stamped [OF s1(1), of env "filter ?P (b_stops b)" nxt outs]
    show ?thesis
    proof (cases "filter ?P (b_stops b) = []")
      case True
      then show ?thesis using "1.prems"(2) Some mv by (simp add: drain_moves.simps [of env b] move_drained_def Let_def filter_empty_conv)
    next
      case ne: False
      show ?thesis
      proof (cases "map_option fst (b_lastMove (fst ?r)) = Some stamp")
        case True
        then have p: "prints_of (fst ?r) = prints_of b" using f s1(2,3) by auto
        have k: "stop_keys (fst ?r) \<subseteq># stop_keys ?b1" using fire_all_once by blast
        have p1: "prints_of (fst ?r) = prints_of ?b1" using p s1(2) by simp
        have left: "\<not> legacyLevelTriggered (fst ?r) s \<and> \<not> ?P s" if s: "s \<in> set (b_stops (fst ?r))" for s
        proof -
          obtain s0 where s0: "s0 \<in> set (b_stops ?b1)" "legacyLevelTriggered (fst ?r) s = legacyLevelTriggered ?b1 s0" "?P s = ?P s0"
            using drained_fewer [OF p1 k s] by metis
          have "legacyLevelTriggered ?b1 s0 = legacyLevelTriggered b s0" by (rule legacy_key [OF s1(2) refl])
          then show ?thesis using s0 "1.prems"(2) by (auto simp: legacy_drained_def)
        qed
        have last: "b_lastMove (fst ?r) = Some (stamp, previous, nxt)" using p Some mv by (simp only: prints_of_def prod.inject)
        have "legacy_drained (fst ?r)" unfolding legacy_drained_def using left by blast
        moreover have "move_drained (fst ?r)" unfolding move_drained_def last option.case prod.case using left by blast
        moreover have "drain_moves env b outs = ?r" using True ne by (simp add: drain_moves.simps [of env b] Some mv Let_def)
        ultimately show ?thesis by simp
      next
        case False
        have "stamped (fst ?l)" "legacy_drained (fst ?l)" using legacy_leaves [of "fst ?r" env "snd ?r"] f by simp_all
        from "1.IH" [OF Some mv [symmetric] refl refl ne refl refl False refl this]
        have "legacy_drained (fst (drain_moves env (fst ?l) (snd ?l))) \<and> move_drained (fst (drain_moves env (fst ?l) (snd ?l)))" .
        then show ?thesis using False ne by (simp add: drain_moves.simps [of env b] Some mv Let_def)
      qed
    qed
  qed
qed


text \<open>A book with two buy stops of which the last print reached one; firing it prints at the level of the other.\<close>

definition demo_stop :: "string \<Rightarrow> amount \<Rightarrow> engine_order" where
  "demo_stop i price = (demo_limit i ''eve'' BuySide 1 0 GTC)\<lparr>o_type := Stop, o_price := None, o_stopPrice := Some price\<rparr>"

definition demo_due :: order_book where
  "demo_due = (foldl (\<lambda>b order. fst (submit demo_market_env b order None)) (new_book ''BTC-USDT'')
     [demo_stop ''s1'' 101, demo_stop ''s2'' 105, demo_limit ''a1'' ''ann'' SellSide 5 105 GTC])\<lparr>b_lastTradePrice := Some 101\<rparr>"


section \<open>Behaviour at odds with the comments of the code\<close>

text \<open>An id is free again after its order was cancelled: \<open>cancel\<close> forgets the accepted id, so a second
  submission of a cancelled order is accepted and rests again. The comment on \<open>acceptedIds\<close> says that
  cancelled ids stay in it so that a retry does not rest again.\<close>

theorem cancelled_id_accepted_again:
  "let order = demo_limit ''a1'' ''ann'' SellSide 5 101 GTC;
       b1 = fst (submit demo_market_env (new_book ''BTC-USDT'') order None);
       b2 = fst (cancel b1 ''a1'' Requested)
   in s_rejected (snd (submit demo_market_env b1 order None)) = Some DuplicateOrderId
      \<and> s_accepted (snd (submit demo_market_env b2 order None))
      \<and> isLive (fst (submit demo_market_env b2 order None)) ''a1''"
  by code_simp

definition demo_clock_env :: match_env where
  "demo_clock_env = demo_market_env\<lparr>date_parse := (\<lambda>s. if s = ''t5'' then Some 5 else if s = ''t9'' then Some 9 else None)\<rparr>"

text \<open>A submission that is refused as not viable may still have removed expired orders, and does not
  report them: here a fill-or-kill order arrives after another order expired; the expired order has left
  the book and the result lists no cancellation.\<close>

theorem refused_submit_hides_expiry:
  "let b1 = fst (submit demo_clock_env (new_book ''BTC-USDT'')
         ((demo_limit ''a1'' ''ann'' SellSide 5 101 GTD)\<lparr>o_expireAt := Some ''t5''\<rparr>) (Some 1));
       r = submit demo_clock_env b1 (demo_limit ''c1'' ''cat'' BuySide 5 101 FOK) (Some 6)
   in isLive b1 ''a1'' \<and> \<not> isLive (fst r) ''a1'' \<and> s_rejected (snd r) = Some FokUnfillable \<and> s_cancellations (snd r) = []"
  by code_simp

text \<open>An amendment that moves a stop price drops the new expiry it carries: the stop is queued again with
  its old expiry, where the same amendment without a new stop price stores the new one.\<close>

theorem amended_stop_keeps_old_expiry:
  "let stop = (demo_limit ''s1'' ''ann'' SellSide 5 90 GTD)\<lparr>o_type := StopLimit, o_stopPrice := Some 95, o_expireAt := Some ''t5''\<rparr>;
       b1 = fst (submit demo_clock_env (new_book ''BTC-USDT'') stop (Some 1));
       cmd = \<lparr>a_orderId = ''s1'', a_expectedVersion = 1, a_qty = None, a_price = None, a_stopPrice = Some 94, a_tif = None, a_expireAt = Some ''t9''\<rparr>
   in map st_expireAt (b_stops (fst (amend demo_clock_env b1 cmd (Some 1)))) = [Some ''t5'']
      \<and> map st_expireAt (b_stops (fst (amend demo_clock_env b1 (cmd\<lparr>a_stopPrice := None\<rparr>) (Some 1)))) = [Some ''t9'']"
  by code_simp

text \<open>A reduce-only order that was accepted against an explicit futures position never trades when the
  fills of this book do not show that position: the match loop asks the fill net, not the explicit
  position, finds nothing open and cancels the order. The comment on \<open>futuresPositions\<close> says that the
  explicit position replaces the fill net for reduce-only orders.\<close>

theorem futures_reduce_only_maker_pulled:
  "let order = (demo_limit ''f1'' ''fay'' SellSide 5 100 GTC)\<lparr>o_reduceOnly := True, o_positionQty := Some 5\<rparr>;
       b1 = fst (submit demo_market_env (new_book ''BTC-USDT'') order None);
       r = submit demo_market_env b1 (demo_limit ''c1'' ''cat'' BuySide 5 100 GTC) None
   in isLive b1 ''f1'' \<and> s_fills (snd r) = [] \<and> map (\<lambda>c. (c_orderId c, c_reason c)) (s_cancellations (snd r)) = [(''f1'', WouldIncreasePositionCancel)]"
  by code_simp

end
