(* ===== verification/Match_Fillable.thy ===== *)
theory Match_Fillable
  imports Match_Reach
begin

text \<open>
  The dry run \<open>fillableQty\<close> and the sweep \<open>match\<close> agree: what the dry run counts is what the sweep
  fills. The proof runs the dry run over the orders the sweep has not looked at yet.
\<close>

section \<open>The dry run over a flat list\<close>

definition crosses :: "effective_order \<Rightarrow> amount \<Rightarrow> bool" where
  "crosses order p = (case e_price order of None \<Rightarrow> True | Some lim \<Rightarrow> crossesLevel (e_side order) lim p)"

definition candidates :: "effective_order \<Rightarrow> price_level list \<Rightarrow> string list" where
  "candidates order ls = concat (map snd (filter (\<lambda>l. crosses order (fst l)) ls))"

lemma candidates_simps [simp]:
  "candidates order [] = []"
  "candidates order (l # ls) = (if crosses order (fst l) then snd l @ candidates order ls else candidates order ls)"
  by (simp_all add: candidates_def)

lemma candidates_prune [simp]: "candidates order (prune D ls) = filter (\<lambda>j. j \<notin> D) (candidates order ls)"
  by (induction ls) (auto simp: prune_Cons Let_def)

lemma candidates_far:
  assumes "sorted_levels (opposite (e_side order)) (l # ls)" "\<not> crosses order (fst l)"
  shows "candidates order ls = []"
proof -
  have "\<not> crosses order (fst m)" if "m \<in> set ls" for m
    using assms that by (auto simp: crosses_def crossesLevel_def better_def opposite_def split: option.splits if_splits)
  then show ?thesis by (simp add: candidates_def)
qed

lemma fillable_append:
  "fillable_orders b order (xs @ ys) st =
    (if snd (fillable_orders b order xs st) then fillable_orders b order xs st
     else fillable_orders b order ys (fst (fillable_orders b order xs st)))"
  by (induction xs arbitrary: st) (simp_all add: Let_def split: option.split)

lemma fillable_flat:
  assumes "sorted_levels (opposite (e_side order)) ls"
  shows "fillable_levels b order ls st = fst (fillable_orders b order (candidates order ls) st)"
  using assms
proof (induction ls arbitrary: st)
  case (Cons l ls)
  obtain p ids where l: "l = (p, ids)" by fastforce
  have srt: "sorted_levels (opposite (e_side order)) ls" using Cons.prems by (simp add: l)
  have c: "(case e_price order of None \<Rightarrow> False | Some lim \<Rightarrow> \<not> crossesLevel (e_side order) lim p) \<longleftrightarrow> \<not> crosses order p"
    by (simp add: crosses_def split: option.splits)
  show ?case
  proof (cases "crosses order p")
    case True
    then show ?thesis
      using Cons.IH [OF srt] by (simp add: l c fillable_append case_prod_beta split: bool.splits)
  next
    case False
    then show ?thesis using candidates_far [OF Cons.prems] by (simp add: l c)
  qed
qed simp

lemma fillable_done: "q_remaining st = 0 \<Longrightarrow> q_total (fst (fillable_orders b order ids st)) = q_total st"
  by (cases ids) simp_all

text \<open>A fill apart from its sequence number, which the dry run does not draw.\<close>

definition unnumbered :: "fill \<Rightarrow> fill" where
  "unnumbered f = f\<lparr>f_sequence := 0\<rparr>"

lemma netAfterFills_unnumbered: "netAfterFills b acc (map unnumbered fs) = netAfterFills b acc fs"
proof -
  have "fill_signed (unnumbered f) = fill_signed f" "f_takerAccountId (unnumbered f) = f_takerAccountId f"
    "f_makerAccountId (unnumbered f) = f_makerAccountId f" for f by (simp_all add: unnumbered_def fill_signed_def)
  then show ?thesis by (simp add: netAfterFills_def foldl_map Let_def cong: if_cong)
qed

lemma netAfterFills_cong:
  assumes "map unnumbered fs' = map unnumbered fs" "b_positions b' = b_positions b"
  shows "netAfterFills b' acc fs' = netAfterFills b acc fs"
proof -
  have "netAfterFills b' acc fs' = netAfterFills b' acc fs"
    using assms(1) netAfterFills_unnumbered [of b' acc fs] netAfterFills_unnumbered [of b' acc fs'] by simp
  then show ?thesis using assms(2) by (simp add: netAfterFills_def netPosition_def)
qed

lemma add_removed_set: "set (add_removed s xs) = set xs \<union> (if truthy s then {the s} else {})"
  by (simp add: add_removed_def)

text \<open>Orders that are marked as removed in one run may as well be left out of the list of the other.\<close>

lemma fillable_sim:
  assumes "\<forall>j \<in> set ids. j \<notin> D \<longrightarrow> get_resting b' j = get_resting b j \<and> siblingOf b' j (incoming_of order) = siblingOf b j (incoming_of order)"
    and "siblingOf b' (e_orderId order) (incoming_of order) = siblingOf b (e_orderId order) (incoming_of order)"
    and "b_positions b' = b_positions b"
    and "q_total st' = q_total st" "q_remaining st' = q_remaining st" "map unnumbered (q_fills st') = map unnumbered (q_fills st)"
    and "\<forall>j \<in> set ids. j \<in> set (q_removed st) \<longleftrightarrow> j \<in> D \<or> j \<in> set (q_removed st')"
  shows "q_total (fst (fillable_orders b' order (filter (\<lambda>j. j \<notin> D) ids) st')) = q_total (fst (fillable_orders b order ids st))"
  using assms(1,4-)
proof (induction ids arbitrary: st st')
  case (Cons mk ids)
  show ?case
  proof (cases "q_remaining st = 0 \<or> mk \<in> set (q_removed st)")
    case True
    then consider "q_remaining st = 0" | "q_remaining st \<noteq> 0" "mk \<in> D" | "q_remaining st \<noteq> 0" "mk \<notin> D" "mk \<in> set (q_removed st')" "mk \<in> set (q_removed st)"
      using Cons.prems(5) by auto
    then show ?thesis
    proof cases
      case 1
      then show ?thesis using Cons.prems(2,3) fillable_done by metis
    next
      case 2
      then show ?thesis using Cons.IH [of st' st] Cons.prems by simp
    next
      case 3
      then show ?thesis using Cons.IH [of st' st] Cons.prems by simp
    qed
  next
    case False
    then have f: "q_remaining st \<noteq> 0" "mk \<notin> set (q_removed st)" "mk \<notin> D" "mk \<notin> set (q_removed st')" using Cons.prems(5) by auto
    have g: "get_resting b' mk = get_resting b mk" "siblingOf b' mk (incoming_of order) = siblingOf b mk (incoming_of order)"
      using Cons.prems(1) f(3) by simp_all
    have net: "netAfterFills b' acc (q_fills st') = netAfterFills b acc (q_fills st)" for acc
      by (rule netAfterFills_cong [OF Cons.prems(4) assms(3)])
    have skip: "q_total (fst (fillable_orders b' order (filter (\<lambda>j. j \<notin> D) ids) st')) = q_total (fst (fillable_orders b order ids st))"
      by (rule Cons.IH) (use Cons.prems in simp_all)
    have go: "q_total (fst (fillable_orders b' order (filter (\<lambda>j. j \<notin> D) ids)
          \<lparr>q_total = q_total st + clip, q_remaining = q_remaining st - clip, q_removed = add_removed x (add_removed y (q_removed st')),
           q_fills = q_fills st' @ [fl]\<rparr>))
      = q_total (fst (fillable_orders b order ids
          \<lparr>q_total = q_total st + clip, q_remaining = q_remaining st - clip, q_removed = add_removed x (add_removed y (q_removed st)),
           q_fills = q_fills st @ [fl]\<rparr>))" for clip x y fl
      by (rule Cons.IH) (use Cons.prems in \<open>auto simp: add_removed_set\<close>)
    show ?thesis
      using f skip go by (simp add: g net assms(2) Cons.prems(2,3) Let_def split: option.split)
  qed
qed simp

section \<open>Which siblings a trade pulls\<close>

lemma sibling_resting:
  assumes "book_wf b" "get_resting b j = Some r" "fst inc \<noteq> j"
  shows "siblingOf b j inc = (if truthy (r_ocoSiblingId r) then r_ocoSiblingId r else None)"
proof -
  have "j \<notin> st_orderId ` set (b_stops b)" using assms(1,2) by (auto simp: book_wf_def stops_ok_def)
  then have "get_stop b j = None" by (auto simp: get_stop_def find_None_iff)
  then show ?thesis using assms(2,3) by (simp add: siblingOf_def)
qed

lemma not_live:
  assumes "j \<notin> live_ids b"
  shows "get_resting b j = None" "get_stop b j = None" "find_index (\<lambda>s. st_orderId s = j) (b_stops b) = None"
proof -
  show "get_resting b j = None" using assms by (auto simp: live_ids_def)
  have "\<forall>s \<in> set (b_stops b). st_orderId s \<noteq> j" using assms by (force simp: live_ids_def)
  then show "get_stop b j = None" "find_index (\<lambda>s. st_orderId s = j) (b_stops b) = None"
    by (simp_all add: get_stop_def find_None_iff find_index_None)
qed

lemma sibling_incoming:
  assumes "e_orderId order \<notin> live_ids b"
  shows "siblingOf b (e_orderId order) (incoming_of order) = (if truthy (e_ocoSiblingId order) then e_ocoSiblingId order else None)"
  using not_live [OF assms] by (simp add: siblingOf_def incoming_of_def)

lemma truthy_iff: "truthy s \<longleftrightarrow> (\<exists>x. s = Some x \<and> x \<noteq> [])"
  by (auto simp: truthy_def split: option.splits)

lemma pull_link:
  assumes "book_wf b" "pullOcoLink i inc (b, fired, cs) = (b', fired', cs')" "get_resting b j \<noteq> None" "j \<notin> insert i (set fired)"
  shows "get_resting b' j = None \<longleftrightarrow> i \<notin> set fired \<and> siblingOf b i inc = Some j \<and> j \<noteq> []"
proof (cases "i \<in> set fired \<or> (case siblingOf b i inc of None \<Rightarrow> True | Some sib \<Rightarrow> sib = [] \<or> sib \<in> insert i (set fired))")
  case True
  then have "b' = b" using assms(2) by (auto simp: pullOcoLink_def Let_def split: option.splits if_splits)
  then show ?thesis using True assms(3,4) by (auto split: option.splits)
next
  case False
  then obtain sib where sib: "siblingOf b i inc = Some sib" "sib \<noteq> []" "sib \<notin> insert i (set fired)" "i \<notin> set fired"
    by (auto split: option.splits)
  obtain b1 c where p: "pull OcoSiblingFilled b sib = (b1, c)" by fastforce
  have "get_resting b' j = None \<longleftrightarrow> get_resting b1 j = None"
    using assms(2) sib p by (cases c) (auto simp: pullOcoLink_def pullOcoSibling_def Let_def)
  then show ?thesis using pull_effect(2) [OF assms(1) p, of j] sib assms(3) by auto
qed

lemma pull_link_fired:
  assumes "pullOcoLink i inc (b, fired, cs) = (b', fired', cs')" "j \<notin> live_ids b"
  shows "j \<in> set fired' \<longleftrightarrow> j = i \<or> j \<in> set fired"
proof -
  have "pull OcoSiblingFilled b j = (b, None)"
    using not_live [OF assms(2)] by (simp add: pull_def)
  then have "j \<noteq> sib" if "pull OcoSiblingFilled b sib = (b1, Some c)" for sib b1 c using that by auto
  then show ?thesis
    using assms(1) by (auto simp: pullOcoLink_def pullOcoSibling_def Let_def split: option.splits if_splits prod.splits)
qed

text \<open>Of the orders that have not filled yet, a trade pulls the sibling of the maker, and with the first
  fill the sibling of the taker.\<close>

lemma trade_pulls:
  assumes "book_wf (m_book ms)" "get_resting (m_book ms) (r_orderId maker) = Some maker" "e_orderId order \<notin> live_ids (m_book ms)"
    and "r_orderId maker \<notin> set (m_fired ms)" "get_resting (m_book ms) j \<noteq> None" "j \<noteq> r_orderId maker" "j \<notin> set (m_fired ms)"
  shows "get_resting (m_book (trade order maker qty ms)) j = None \<longleftrightarrow>
    j \<noteq> [] \<and> (siblingOf (m_book ms) (r_orderId maker) (incoming_of order) = Some j
      \<or> e_orderId order \<notin> set (m_fired ms) \<and> e_ocoSiblingId order = Some j)"
proof -
  let ?mk = "r_orderId maker" let ?t = "e_orderId order" let ?inc = "incoming_of order"
  define b1 where "b1 = upd_resting ?mk (take_qty qty) (bump (m_book ms))"
  obtain b2 f2 c2 where p2: "pullOcoLink ?mk ?inc (b1, m_fired ms, m_cancellations ms) = (b2, f2, c2)" by (metis prod_cases3)
  obtain b3 f3 c3 where p3: "pullOcoLink ?t ?inc (b2, f2, c2) = (b3, f3, c3)" by (metis prod_cases3)
  have ms': "m_book (trade order maker qty ms) = b3"
    by (simp add: trade_def Let_def nextSequence_eq b1_def [symmetric] p2 p3)
  have wf1: "book_wf b1"
    unfolding b1_def by (rule wf_upd_resting) (use evolvesD(1) [OF evolves_bump assms(1)] in simp_all)
  have ev: "evolves b1 b2" using evolves_pullOcoLink [of "(b1, m_fired ms, m_cancellations ms)" ?mk ?inc] by (simp add: p2)
  have wf2: "book_wf b2" using evolvesD(1) [OF ev wf1] .
  have l1: "live_ids b1 = live_ids (m_book ms)" by (simp add: b1_def live_ids_def)
  have t: "?t \<notin> live_ids b1" "?t \<notin> live_ids b2" using assms(3) l1 evolvesD(2) [OF ev wf1] by auto
  have mt: "?mk \<noteq> ?t" "j \<noteq> ?t" using assms(2,3,5) by (auto simp: live_ids_def)
  have g1: "get_resting b1 ?mk = Some (take_qty qty maker)" "get_resting b1 j \<noteq> None" using assms(2,5) by (simp_all add: b1_def)
  have inc: "fst ?inc = ?t" by (simp add: incoming_of_def)
  have s1: "siblingOf b1 ?mk ?inc = siblingOf (m_book ms) ?mk ?inc"
    using sibling_resting [OF wf1 g1(1)] sibling_resting [OF assms(1,2)] mt(1) by (simp add: inc take_qty_def)
  have first: "get_resting b2 j = None \<longleftrightarrow> siblingOf (m_book ms) ?mk ?inc = Some j \<and> j \<noteq> []"
    using pull_link [OF wf1 p2 g1(2)] assms(4,6,7) s1 by simp
  have gone: "get_resting b3 j = None" if "get_resting b2 j = None"
    using that evolvesD(2) [OF _ wf2, of b3] evolves_pullOcoLink [of "(b2, f2, c2)" ?t ?inc] pullOcoLink_effect [OF wf2 p3]
    by (metis (no_types, lifting) option.simps(8))
  show ?thesis
  proof (cases "get_resting b2 j = None")
    case True
    then show ?thesis using gone first ms' by simp
  next
    case False
    obtain D c where D: "set f2 = insert ?mk (set (m_fired ms)) \<union> D"
      "\<And>j. get_resting b2 j = (if j \<in> D then None else map_option (unlink_if (c \<and> j = ?mk)) (get_resting b1 j))"
      by (rule pullOcoLink_effect [OF wf1 p2]) blast
    have jf: "j \<notin> insert ?t (set f2)" using D False assms(6,7) mt by auto
    have tf: "?t \<in> set f2 \<longleftrightarrow> ?t \<in> set (m_fired ms)" using pull_link_fired [OF p2 t(1)] mt by auto
    show ?thesis
      using pull_link [OF wf2 p3 False jf] first False tf sibling_incoming [OF t(2)] unfolding ms' by (auto simp: truthy_iff)
  qed
qed

section \<open>One pass against the dry run\<close>

definition dry_state :: "match_state \<Rightarrow> fillable_state" where
  "dry_state ms = \<lparr>q_total = (\<Sum>f\<leftarrow>m_fills ms. f_qty f), q_remaining = m_remaining ms, q_removed = [], q_fills = m_fills ms\<rparr>"

text \<open>The dry run over the head of the level, by what the sweep does with it.\<close>

lemma fillable_head:
  assumes "get_resting (m_book ms) mk = Some maker" "r_orderId maker = mk" "mk \<notin> set (m_sliced ms)" "0 < m_remaining ms"
    and "match_maker order i maker ms = (ms', nxt)"
  obtains (halt) "ms' = ms" "nxt = Halt" "q_total (fst (fillable_orders (m_book ms) order (mk # ids) (dry_state ms))) = (\<Sum>f\<leftarrow>m_fills ms. f_qty f)"
  | (skip) "nxt = Again" "ms' = expire_self_trade (opposite (e_side order)) i maker ms \<or> ms' = pullReduceOnlyMaker (opposite (e_side order)) i maker ms"
      "fillable_orders (m_book ms) order (mk # ids) (dry_state ms) = fillable_orders (m_book ms) order ids (dry_state ms)"
  | (traded) qty where "nxt = Again" "0 < qty" "e_accountId order \<noteq> r_accountId maker"
      "qty = min (m_remaining ms) (visibleRemaining (r_remaining maker) (r_displayRemaining maker))
       \<or> r_reduceOnly maker \<and> qty = openQty (netAfterFills (m_book ms) (r_accountId maker) (m_fills ms)) (r_side maker)"
      "qty \<le> m_remaining ms" "qty \<le> visibleRemaining (r_remaining maker) (r_displayRemaining maker)"
      "ms' = settle_maker (opposite (e_side order)) i (take_qty qty maker) (trade order maker qty ms)"
      "fillable_orders (m_book ms) order (mk # ids) (dry_state ms) = fillable_orders (m_book ms) order ids
         \<lparr>q_total = (\<Sum>f\<leftarrow>m_fills ms. f_qty f) + qty, q_remaining = m_remaining ms - qty,
          q_removed = add_removed (siblingOf (m_book ms) (e_orderId order) (incoming_of order))
            (add_removed (siblingOf (m_book ms) mk (incoming_of order)) []),
          q_fills = m_fills ms @ [mk_fill 0 maker order qty]\<rparr>"
proof -
  define op where "op = openQty (netAfterFills (m_book ms) (r_accountId maker) (m_fills ms)) (r_side maker)"
  define q0 where "q0 = min (m_remaining ms) (visibleRemaining (r_remaining maker) (r_displayRemaining maker))"
  define q where "q = (if r_reduceOnly maker \<and> op < q0 then op else q0)"
  have qq: "(if r_reduceOnly maker then min q0 op else q0) = q" by (auto simp: q_def)
  have ql: "q \<le> m_remaining ms" "q \<le> visibleRemaining (r_remaining maker) (r_displayRemaining maker)" by (auto simp: q_def q0_def)
  have ne: "m_remaining ms \<noteq> 0" using assms(4) by simp
  note e = assms(5) [unfolded match_maker_def Let_def min_amount_min assms(2), folded op_def, folded q0_def, folded q_def]
  have d: "q_remaining (dry_state ms) = m_remaining ms" "q_removed (dry_state ms) = []" "q_fills (dry_state ms) = m_fills ms"
    "q_total (dry_state ms) = (\<Sum>f\<leftarrow>m_fills ms. f_qty f)" by (simp_all add: dry_state_def)
  note f = fillable_orders.simps(2) [of "m_book ms" order mk ids "dry_state ms", unfolded d assms(1) option.case Let_def min_amount_min,
    folded op_def, folded q0_def, unfolded qq]
  show ?thesis
  proof (cases "stpIdentityPresent (e_accountId order) \<and> stpIdentityPresent (r_accountId maker)")
    case False
    then show ?thesis using e f ne assms(3) d(4) by (intro halt) auto
  next
    case stp: True
    show ?thesis
    proof (cases "isSelfTrade (e_accountId order) (r_accountId maker)")
      case True
      then show ?thesis using e f ne assms(3) stp by (intro skip) auto
    next
      case self: False
      then have acc: "e_accountId order \<noteq> r_accountId maker" using stp by (auto simp: isSelfTrade_def)
      show ?thesis
      proof (cases "q0 = 0 \<or> r_reduceOnly maker \<and> op = 0")
        case True
        then show ?thesis
        proof
          assume "q0 = 0"
          then show ?thesis using e f ne assms(3) stp self d(4) by (intro halt) auto
        next
          assume ro: "r_reduceOnly maker \<and> op = 0"
          show ?thesis
          proof (cases "q0 = 0")
            case True
            then show ?thesis using e f ne assms(3) stp self d(4) by (intro halt) simp_all
          next
            case False
            then show ?thesis using e f ne assms(3) stp self ro by (intro skip) simp_all
          qed
        qed
      next
        case False
        then have go: "q0 \<noteq> 0" "\<not> (r_reduceOnly maker \<and> op = 0)" by auto
        have nr: "mk \<notin> set []" and ns: "\<not> (\<not> stpIdentityPresent (e_accountId order) \<or> \<not> stpIdentityPresent (r_accountId maker))"
          using stp by auto
        show ?thesis
        proof (cases "clipMeetsAon q (r_remaining maker) (r_aon maker) \<and> bothSidesMeetMinQty q (m_remaining ms - q)
            (readMinQty (e_minQty order)) (r_remaining maker - q) (readMinQty (r_minQty maker))")
          case True
          note e = e [unfolded if_not_P [OF assms(3)]] and t = True
          have "0 < q" using bothSides_pos True by blast
          moreover have "q = q0 \<or> r_reduceOnly maker \<and> q = op" by (auto simp: q_def)
          moreover have "nxt = Again" "ms' = settle_maker (opposite (e_side order)) i (take_qty q maker) (trade order maker q ms)"
            using e stp self go t by (auto split: if_splits)
          moreover note f [unfolded if_not_P [OF ne] if_not_P [OF nr] if_not_P [OF ns] if_not_P [OF self] if_not_P [OF go(1)] if_not_P [OF go(2)]]
          ultimately show ?thesis
            using acc ql t by (intro traded [of q, folded op_def q0_def]) simp_all
        next
          case False
          have "ms' = ms" "nxt = Halt" using e assms(3) stp self go False by (auto split: if_splits)
          moreover have "fillable_orders (m_book ms) order (mk # ids) (dry_state ms) = (dry_state ms, True)"
            using f ne stp self go False by auto
          ultimately show ?thesis using d(4) by (intro halt) simp_all
        qed
      qed
    qed
  qed
qed

section \<open>The sweep against the dry run\<close>

declare fillable_orders.simps(2) [simp del]

definition pending :: "effective_order \<Rightarrow> nat \<Rightarrow> match_state \<Rightarrow> string list" where
  "pending order i ms = filter (\<lambda>j. j \<notin> set (m_sliced ms)) (candidates order (drop i (opp_levels order (m_book ms))))"

text \<open>What the dry run would come to if it took over from here.\<close>

definition outlook :: "effective_order \<Rightarrow> nat \<Rightarrow> match_state \<Rightarrow> amount" where
  "outlook order i ms = q_total (fst (fillable_orders (m_book ms) order (pending order i ms) (dry_state ms)))"

definition dry_inv :: "effective_order \<Rightarrow> nat \<Rightarrow> match_state \<Rightarrow> bool" where
  "dry_inv order i ms \<longleftrightarrow> 0 \<le> m_remaining ms \<and> (0 < m_remaining ms \<longrightarrow> set (pending order i ms) \<inter> set (m_fired ms) = {}
     \<and> (e_orderId order \<in> set (m_fired ms) \<longrightarrow> (\<forall>j. e_ocoSiblingId order = Some j \<longrightarrow> j \<noteq> [] \<longrightarrow> j \<notin> set (pending order i ms))))"

lemma outlook_done: "m_remaining ms = 0 \<Longrightarrow> outlook order i ms = (\<Sum>f\<leftarrow>m_fills ms. f_qty f)"
  unfolding outlook_def by (subst fillable_done) (simp_all add: dry_state_def)

lemma pending_live:
  assumes "book_wf (m_book ms)" "j \<in> set (pending order i ms)"
  shows "\<exists>r. get_resting (m_book ms) j = Some r"
proof -
  obtain l where "l \<in> set (opp_levels order (m_book ms))" "j \<in> set (snd l)"
    using assms(2) by (auto simp: pending_def candidates_def dest: in_set_dropD)
  then show ?thesis using wf_level(3) [OF assms(1), of "fst l" "snd l"] by fastforce
qed

lemma pending_head:
  assumes "match_inv order i ms" "i < length (opp_levels order (m_book ms))" "snd (opp_levels order (m_book ms) ! i) = mk # ids"
    and "crosses order (fst (opp_levels order (m_book ms) ! i))" "mk \<notin> set (m_sliced ms)"
  obtains later_ids where "pending order i ms = mk # later_ids" "mk \<notin> set later_ids"
    "candidates order (drop i (opp_levels order (m_book ms))) = mk # ids @ candidates order (drop (Suc i) (opp_levels order (m_book ms)))"
    "later_ids = filter (\<lambda>j. j \<notin> set (m_sliced ms)) (ids @ candidates order (drop (Suc i) (opp_levels order (m_book ms))))"
proof -
  let ?ls = "opp_levels order (m_book ms)"
  have wf: "book_wf (m_book ms)" using assms(1) by (simp add: match_inv_def)
  have mem: "(fst (?ls ! i), mk # ids) \<in> set ?ls" using assms(2,3) by (metis nth_mem prod.collapse)
  obtain r where r: "get_resting (m_book ms) mk = Some r" using wf_level(3) [OF wf mem] by fastforce
  have nd: "mk \<notin> set ids" using wf_level(2) [OF wf mem] by simp
  have "mk \<notin> set (snd l)" if l: "l \<in> set (drop (Suc i) ?ls)" for l
  proof -
    obtain k where k: "i < k" "k < length ?ls" "l = ?ls ! k"
      using l by (auto simp: in_set_conv_nth) (metis add_Suc less_add_Suc1 less_diff_conv add.commute)
    then have "fst l \<noteq> fst (?ls ! i)" using sorted_levels_nth [OF wf_sorted [OF wf] k(1,2)] better_irrefl by metis
    then show ?thesis
      using wf_level_mem [OF wf r, of "fst l" "snd l"] wf_level_mem [OF wf r mem] in_set_dropD [OF l] by auto
  qed
  then have nl: "mk \<notin> set (candidates order (drop (Suc i) ?ls))" by (auto simp: candidates_def)
  have c: "candidates order (drop i ?ls) = mk # ids @ candidates order (drop (Suc i) ?ls)"
    using shape_head [OF assms(2,3)] assms(4) by simp
  show ?thesis
    by (rule that) (use c nd nl assms(5) in \<open>simp_all add: pending_def\<close>)
qed

lemma crosses_all: "(\<And>lim. e_price order = Some lim \<Longrightarrow> crossesLevel (e_side order) lim p) \<Longrightarrow> crosses order p"
  by (auto simp: crosses_def split: option.splits)

text \<open>Dropping orders from the book drops them from the pending orders.\<close>

lemma pending_prune:
  assumes "match_inv order i ms" "opp_levels order (m_book ms') = prune D (opp_levels order (m_book ms))" "D \<inter> set (m_sliced ms) = {}"
    "m_sliced ms' = m_sliced ms"
  shows "pending order i ms' = filter (\<lambda>j. j \<notin> D) (pending order i ms)"
proof -
  have "shape (set (m_sliced ms)) i (opp_levels order (m_book ms))" "\<forall>l \<in> set (opp_levels order (m_book ms)). snd l \<noteq> []"
    using assms(1) wf_nonempty by (auto simp: match_inv_def)
  from shape_prune(3) [OF this(1) assms(3) this(2)] show ?thesis
    unfolding pending_def assms(2,4) by (simp add: conj_commute)
qed

text \<open>Passing over an order.\<close>

lemma outlook_skip:
  assumes "match_inv order i ms" "match_inv order i ms'" "dry_inv order i ms" "pending order i ms = mk # later_ids" "mk \<notin> set later_ids"
    and "opp_levels order (m_book ms') = prune {mk} (opp_levels order (m_book ms))" "mk \<notin> set (m_sliced ms)" "m_sliced ms' = m_sliced ms"
    and "m_fired ms' = m_fired ms" "m_fills ms' = m_fills ms" "m_remaining ms' = m_remaining ms" "b_positions (m_book ms') = b_positions (m_book ms)"
    and "\<And>j. j \<noteq> mk \<Longrightarrow> get_resting (m_book ms') j = get_resting (m_book ms) j"
    and "fillable_orders (m_book ms) order (mk # later_ids) (dry_state ms) = fillable_orders (m_book ms) order later_ids (dry_state ms)"
  shows "dry_inv order i ms'" "outlook order i ms' = outlook order i ms"
proof -
  have "filter (\<lambda>j. j \<notin> {mk}) later_ids = later_ids" using assms(5) by (auto simp: filter_id_conv)
  then have p: "pending order i ms' = later_ids"
    using pending_prune [OF assms(1,6) _ assms(8)] assms(4,7) by simp
  then show "dry_inv order i ms'" using assms(3,4) by (auto simp: dry_inv_def assms(9,11))
  have wf: "book_wf (m_book ms)" "book_wf (m_book ms')" "e_orderId order \<notin> live_ids (m_book ms)" "e_orderId order \<notin> live_ids (m_book ms')"
    using assms(1,2) by (simp_all add: match_inv_def)
  have same: "get_resting (m_book ms') j = get_resting (m_book ms) j
      \<and> siblingOf (m_book ms') j (incoming_of order) = siblingOf (m_book ms) j (incoming_of order)" if j: "j \<in> set later_ids" for j
  proof -
    obtain r where r: "get_resting (m_book ms) j = Some r" using pending_live [OF wf(1), of j order i] j assms(4) by auto
    have g: "get_resting (m_book ms') j = get_resting (m_book ms) j" using assms(5,13) j by metis
    have "fst (incoming_of order) \<noteq> j" using wf(3) r by (auto simp: incoming_of_def live_ids_def)
    then show ?thesis using sibling_resting [OF wf(1) r] sibling_resting [OF wf(2)] g r by simp
  qed
  have "q_total (fst (fillable_orders (m_book ms') order (filter (\<lambda>j. j \<notin> {}) later_ids) (dry_state ms')))
      = q_total (fst (fillable_orders (m_book ms) order later_ids (dry_state ms)))"
    by (rule fillable_sim) (use same assms sibling_incoming wf in \<open>simp_all add: dry_state_def\<close>)
  then show "outlook order i ms' = outlook order i ms" by (simp add: outlook_def p assms(4,14))
qed

text \<open>A maker that stays at the head after a trade has used up the taker.\<close>

lemma open_after_fill:
  assumes "e_accountId order \<noteq> r_accountId maker" "r_side maker = opposite (e_side order)"
    "q = openQty (netAfterFills b (r_accountId maker) fs) (r_side maker)"
  shows "openQty (netAfterFills b (r_accountId maker) (fs @ [mk_fill n maker order q])) (r_side maker) = 0"
  using assms by (auto simp: netAfterFills_def mk_fill_def openQty_def fill_signed_def opposite_def split: if_splits)

lemma settle_kept:
  assumes "live_ok maker" "0 < q" "e_accountId order \<noteq> r_accountId maker" "r_side maker = opposite (e_side order)"
    and "q = min (m_remaining ms) (visibleRemaining (r_remaining maker) (r_displayRemaining maker))
       \<or> r_reduceOnly maker \<and> q = openQty (netAfterFills (m_book ms) (r_accountId maker) (m_fills ms)) (r_side maker)"
    and "m_fills t = m_fills ms @ [mk_fill n maker order q]" "b_positions (m_book t) = b_positions (m_book ms)"
    and "q \<noteq> m_remaining ms"
  obtains (filled) "settle_maker s i (take_qty q maker) t = t\<lparr>m_book := drop_head s i (r_orderId maker) (m_book t)\<rparr>"
  | (closed) "settle_maker s i (take_qty q maker) t = pullReduceOnlyMaker s i (take_qty q maker) t"
  | (slice) d where "settle_maker s i (take_qty q maker) t = t\<lparr>m_book := rotate_level s i (r_orderId maker)
       (upd_resting (r_orderId maker) (\<lambda>r. r\<lparr>r_displayRemaining := Some d\<rparr>) (m_book t)), m_sliced := set_add (r_orderId maker) (m_sliced t)\<rparr>"
proof -
  let ?m = "take_qty q maker"
  consider (filled) "r_remaining ?m = 0"
    | (closed) "r_remaining ?m \<noteq> 0" "r_reduceOnly maker" "openQty (netAfterFills (m_book t) (r_accountId maker) (m_fills t)) (r_side maker) = 0"
    | (slice) peak where "r_remaining ?m \<noteq> 0" "r_displayRemaining ?m = Some 0" "r_displayPeak maker = Some peak"
        "\<not> (r_reduceOnly maker \<and> openQty (netAfterFills (m_book t) (r_accountId maker) (m_fills t)) (r_side maker) = 0)"
  proof (cases "q = min (m_remaining ms) (visibleRemaining (r_remaining maker) (r_displayRemaining maker))")
    case True
    then have v: "q = visibleRemaining (r_remaining maker) (r_displayRemaining maker)" using assms(8) by auto
    then show ?thesis
      using that assms(1) by (auto simp: visibleRemaining_def take_qty_def live_ok_def min_def split: option.splits if_splits)
  next
    case False
    then have ro: "r_reduceOnly maker" "q = openQty (netAfterFills (m_book t) (r_accountId maker) (m_fills ms)) (r_side maker)"
      using assms(5,7) by (simp_all add: netAfterFills_def netPosition_def)
    then have "openQty (netAfterFills (m_book t) (r_accountId maker) (m_fills t)) (r_side maker) = 0"
      unfolding assms(6) by (intro open_after_fill [OF assms(3,4)])
    then show ?thesis using that(1,2) ro(1) by blast
  qed
  then show ?thesis
  proof cases
    case filled
    then show ?thesis by (intro that(1)) (simp add: settle_maker_def)
  next
    case closed
    then show ?thesis by (intro that(2)) (simp add: settle_maker_def)
  next
    case (slice peak)
    then show ?thesis by (intro that(3)) (auto simp: settle_maker_def)
  qed
qed

text \<open>After a trade that leaves the taker with something, the pending orders are the old ones without the
  maker and without the pulled siblings.\<close>

lemma pending_traded:
  assumes "match_inv order i ms" "i < length (opp_levels order (m_book ms))" "snd (opp_levels order (m_book ms) ! i) = mk # ids"
    and "crosses order (fst (opp_levels order (m_book ms) ! i))" "mk \<notin> set (m_sliced ms)" "pending order i ms = mk # later_ids" "mk \<notin> set later_ids"
    and "opp_levels order (m_book t) = prune D (opp_levels order (m_book ms))" "D \<inter> insert mk (set (m_sliced ms)) = {}" "m_sliced t = m_sliced ms"
    and "book_wf (m_book t)" "r_orderId maker = mk"
    and "ms' = t\<lparr>m_book := drop_head (opposite (e_side order)) i mk (m_book t)\<rparr>
      \<or> ms' = pullReduceOnlyMaker (opposite (e_side order)) i maker t
      \<or> (\<exists>d. ms' = t\<lparr>m_book := rotate_level (opposite (e_side order)) i mk (upd_resting mk (\<lambda>r. r\<lparr>r_displayRemaining := Some d\<rparr>) (m_book t)),
            m_sliced := set_add mk (m_sliced t)\<rparr>)"
  shows "pending order i ms' = filter (\<lambda>j. j \<notin> D) later_ids"
proof -
  let ?s = "opposite (e_side order)" let ?ls = "opp_levels order (m_book ms)"
  have sh: "shape (set (m_sliced ms)) i ?ls" and ne: "\<forall>l \<in> set ?ls. snd l \<noteq> []" and DS: "D \<inter> set (m_sliced ms) = {}"
    using assms(1,9) wf_nonempty by (auto simp: match_inv_def)
  have mkD: "mk \<notin> D" using assms(9) by simp
  note ph = prune_head [OF sh DS ne assms(2,3) mkD]
  have tl: "i < length (levels_of ?s (m_book t))" "snd (levels_of ?s (m_book t) ! i) = mk # filter (\<lambda>i. i \<notin> D) ids"
    using ph assms(8) by simp_all
  have mid: "filter (\<lambda>j. j \<notin> insert mk D) (mk # later_ids) = filter (\<lambda>j. j \<notin> D) later_ids"
    using assms(7) by (auto intro: filter_cong)
  have dropped: "pending order i ms'' = filter (\<lambda>j. j \<notin> D) later_ids"
    if "levels_of ?s (m_book ms'') = levels_of ?s (without mk (m_book t))" "m_sliced ms'' = m_sliced ms" for ms''
  proof -
    have "opp_levels order (m_book ms'') = prune (insert mk D) ?ls"
      unfolding that(1) wf_levels_without [OF assms(11)] assms(8) prune_prune by simp
    from pending_prune [OF assms(1) this _ that(2)] show ?thesis using assms(5,9) mid by (simp add: assms(6))
  qed
  have wfb: "book_wf (bump (m_book t))" using evolvesD(1) [OF evolves_bump assms(11)] .
  have dh: "drop_head ?s i mk (m_book t) = without mk (m_book t)" "drop_head ?s i mk (bump (m_book t)) = without mk (bump (m_book t))"
    using drop_head_without [OF assms(11) tl] drop_head_without [OF wfb] tl by simp_all
  from assms(13) consider "ms' = t\<lparr>m_book := drop_head ?s i mk (m_book t)\<rparr>" | "ms' = pullReduceOnlyMaker ?s i maker t"
    | d where "ms' = t\<lparr>m_book := rotate_level ?s i mk (upd_resting mk (\<lambda>r. r\<lparr>r_displayRemaining := Some d\<rparr>) (m_book t)),
            m_sliced := set_add mk (m_sliced t)\<rparr>" by blast
  then show ?thesis
  proof cases
    case 1
    then show ?thesis using dh(1) assms(10) by (intro dropped) simp_all
  next
    case 2
    then show ?thesis using dh(2) assms(10,12) by (intro dropped) (simp_all add: pullReduceOnlyMaker_def Let_def nextSequence_eq)
  next
    case (3 d)
    have lv: "levels_of ?s (m_book ms') = (prune D ?ls)[i := (fst (?ls ! i), filter (\<lambda>i. i \<notin> D) ids @ [mk])]"
      using 3 tl ph assms(8) by (simp add: rotate_level_def Let_def)
    have dp: "drop (Suc i) (prune D ?ls) = prune D (drop (Suc i) ?ls)"
    proof -
      have "drop i (prune D ?ls) = (fst (?ls ! i), mk # filter (\<lambda>i. i \<notin> D) ids) # prune D (drop (Suc i) ?ls)"
        unfolding shape_prune(3) [OF sh DS ne] shape_head [OF assms(2,3)] by (simp add: prune_Cons mkD)
      then show ?thesis by (metis drop_Suc list.sel(3) tl_drop)
    qed
    have c: "candidates order (drop i (levels_of ?s (m_book ms'))) = filter (\<lambda>i. i \<notin> D) ids @ mk # filter (\<lambda>i. i \<notin> D) (candidates order (drop (Suc i) ?ls))"
      unfolding lv drop_update_here [OF ph(1)] dp using assms(4) by simp
    have li: "later_ids = filter (\<lambda>j. j \<notin> set (m_sliced ms)) (ids @ candidates order (drop (Suc i) ?ls))"
      using pending_head [OF assms(1-5)] assms(6) by (metis list.inject)
    have sl: "set (m_sliced ms') = insert mk (set (m_sliced ms))" using 3 assms(10) by simp
    have nm: "mk \<notin> set ids" "mk \<notin> set (candidates order (drop (Suc i) ?ls))" using assms(5,7) by (auto simp: li)
    have fc: "filter (\<lambda>j. j \<notin> insert mk S) (filter (\<lambda>j. j \<notin> D) xs) = filter (\<lambda>j. j \<notin> D) (filter (\<lambda>j. j \<notin> S) xs)"
      if "mk \<notin> set xs" for S xs using that by (induction xs) auto
    show ?thesis
      unfolding pending_def c sl li using fc [OF nm(1)] fc [OF nm(2)] by simp
  qed
qed

lemma removed_siblings:
  "set (add_removed (if truthy s then s else None) (add_removed r [])) = {x. x \<noteq> [] \<and> (r = Some x \<or> s = Some x)}"
  by (cases s; cases r) (auto simp: add_removed_set truthy_def)

lemma outlook_traded:
  assumes inv: "match_inv order i ms" "match_inv order i ms'" and dry: "dry_inv order i ms"
    and lev: "i < length (opp_levels order (m_book ms))" "snd (opp_levels order (m_book ms) ! i) = mk # ids"
      "crosses order (fst (opp_levels order (m_book ms) ! i))" "mk \<notin> set (m_sliced ms)" "pending order i ms = mk # later_ids" "mk \<notin> set later_ids"
    and mk: "get_resting (m_book ms) mk = Some maker" "r_orderId maker = mk" "0 < m_remaining ms"
    and q: "0 < qty" "e_accountId order \<noteq> r_accountId maker"
      "qty = min (m_remaining ms) (visibleRemaining (r_remaining maker) (r_displayRemaining maker))
       \<or> r_reduceOnly maker \<and> qty = openQty (netAfterFills (m_book ms) (r_accountId maker) (m_fills ms)) (r_side maker)"
      "qty \<le> m_remaining ms"
    and ms': "ms' = settle_maker (opposite (e_side order)) i (take_qty qty maker) (trade order maker qty ms)"
    and run: "fillable_orders (m_book ms) order (mk # later_ids) (dry_state ms) = fillable_orders (m_book ms) order later_ids
         \<lparr>q_total = (\<Sum>f\<leftarrow>m_fills ms. f_qty f) + qty, q_remaining = m_remaining ms - qty,
          q_removed = add_removed (siblingOf (m_book ms) (e_orderId order) (incoming_of order))
            (add_removed (siblingOf (m_book ms) mk (incoming_of order)) []),
          q_fills = m_fills ms @ [mk_fill 0 maker order qty]\<rparr>" (is "_ = fillable_orders _ _ _ ?st")
  shows "dry_inv order i ms' \<and> outlook order i ms' = outlook order i ms"
proof -
  let ?s = "opposite (e_side order)" let ?inc = "incoming_of order" let ?b = "m_book ms"
  define t where "t = trade order maker qty ms"
  have wf: "book_wf ?b" "book_wf (m_book ms')" "e_orderId order \<notin> live_ids ?b" "e_orderId order \<notin> live_ids (m_book ms')"
    "set (m_sliced ms) \<subseteq> set (m_fired ms)" "good_but {} ?b" using inv by (simp_all add: match_inv_def)
  have mem: "(fst (opp_levels order ?b ! i), mk # ids) \<in> set (opp_levels order ?b)" using lev(1,2) by (metis nth_mem prod.collapse)
  have side: "r_side maker = ?s" using wf_level_mem [OF wf(1) mk(1) mem] by simp
  have live: "live_ok maker" using wf(6) mk(1) by (auto simp: good_but_def)
  obtain D where D: "D \<inter> insert mk (set (m_fired ms)) = {}"
    "set (m_fired t) = insert (e_orderId order) (insert mk (set (m_fired ms))) \<union> D"
    "\<And>s. levels_of s (m_book t) = prune D (levels_of s ?b)"
    "\<And>j. j \<noteq> mk \<Longrightarrow> get_resting (m_book t) j = (if j \<in> D then None else get_resting ?b j)"
    "evolves (upd_resting mk (take_qty qty) (bump ?b)) (m_book t)" "m_sliced t = m_sliced ms"
    "m_fills t = m_fills ms @ [mk_fill (Suc (b_sequence ?b)) maker order qty]"
    using trade_effect [OF wf(1) _ t_def wf(3)] mk by metis
  have w1: "book_wf (upd_resting mk (take_qty qty) (bump ?b))"
    by (rule wf_upd_resting) (use evolvesD(1) [OF evolves_bump wf(1)] in simp_all)
  have wt: "book_wf (m_book t)" "b_positions (m_book t) = b_positions ?b" using evolvesD(1,4) [OF D(5) w1] by simp_all
  have m: "r_orderId (take_qty qty maker) = mk" using mk(2) by simp
  note sf = settle_fields [OF m, where ms = t and s = ?s and i = i]
  have e: "ms' = settle_maker ?s i (take_qty qty maker) t" using ms' by (simp add: t_def)
  have f': "m_fired ms' = m_fired t" "m_fills ms' = m_fills ms @ [mk_fill (Suc (b_sequence ?b)) maker order qty]"
    "m_remaining ms' = m_remaining ms - qty" "b_positions (m_book ms') = b_positions ?b"
    using sf(1,4,5) D(7) wt(2) by (simp_all add: e later_def) (simp add: t_def)
  have tot: "(\<Sum>f\<leftarrow>m_fills ms'. f_qty f) = (\<Sum>f\<leftarrow>m_fills ms. f_qty f) + qty" by (simp add: f' mk_fill_def)
  have out: "outlook order i ms = q_total (fst (fillable_orders ?b order later_ids ?st))" by (simp add: outlook_def lev(5) run)
  show ?thesis
  proof (cases "qty = m_remaining ms")
    case True
    then show ?thesis using out outlook_done [of ms'] fillable_done [of ?st] by (simp add: f' mk_fill_def dry_inv_def)
  next
    case False
    have pend: "set later_ids \<inter> set (m_fired ms) = {}" "mk \<notin> set (m_fired ms)"
      "e_orderId order \<in> set (m_fired ms) \<Longrightarrow> e_ocoSiblingId order = Some j \<Longrightarrow> j \<noteq> [] \<Longrightarrow> j \<notin> set later_ids" for j
      using dry mk(3) lev(5) by (auto simp: dry_inv_def)
    have p: "pending order i ms' = filter (\<lambda>j. j \<notin> D) later_ids"
      by (rule pending_traded [OF inv(1) lev D(3) _ D(6) wt(1) m])
        (use settle_kept [OF live q(1,2) side q(3) D(7) wt(2) False, of ?s i] D(1) wf(5) mk(2) e in \<open>auto elim!: settle_kept\<close>)
    have at: "\<exists>r. get_resting ?b j = Some r" "j \<noteq> mk" "j \<notin> set (m_fired ms)" "j \<noteq> e_orderId order" if j: "j \<in> set later_ids" for j
    proof -
      show g: "\<exists>r. get_resting ?b j = Some r" using pending_live [OF wf(1), of j order i] j lev(5) by simp
      show "j \<noteq> mk" "j \<notin> set (m_fired ms)" using j lev(6) pend(1) by auto
      show "j \<noteq> e_orderId order" using g wf(3) by (auto simp: live_ids_def)
    qed
    have pulled: "j \<in> D \<longleftrightarrow> j \<noteq> [] \<and> (siblingOf ?b mk ?inc = Some j \<or> e_orderId order \<notin> set (m_fired ms) \<and> e_ocoSiblingId order = Some j)"
      if j: "j \<in> set later_ids" for j
    proof -
      have "j \<in> D \<longleftrightarrow> get_resting (m_book t) j = None" using D(4) [OF at(2) [OF j]] at(1) [OF j] by (auto split: if_splits)
      also have "\<dots> \<longleftrightarrow> j \<noteq> [] \<and> (siblingOf ?b (r_orderId maker) ?inc = Some j \<or> e_orderId order \<notin> set (m_fired ms) \<and> e_ocoSiblingId order = Some j)"
        unfolding t_def by (rule trade_pulls) (use wf mk at [OF j] pend(2) in auto)
      finally show ?thesis using mk(2) by simp
    qed
    have removed: "j \<in> set (q_removed ?st) \<longleftrightarrow> j \<in> D \<or> j \<in> set (q_removed (dry_state ms'))" if "j \<in> set later_ids" for j
    proof -
      have "set (q_removed ?st) = {x. x \<noteq> [] \<and> (siblingOf ?b mk ?inc = Some x \<or> e_ocoSiblingId order = Some x)}"
        unfolding sibling_incoming [OF wf(3)] fillable_state.simps by (rule removed_siblings)
      then show ?thesis using pulled [OF that] pend(3) [of j] that by (auto simp: dry_state_def)
    qed
    have same: "get_resting (m_book ms') j = get_resting ?b j \<and> siblingOf (m_book ms') j ?inc = siblingOf ?b j ?inc"
      if j: "j \<in> set later_ids" "j \<notin> D" for j
    proof -
      obtain r where r: "get_resting ?b j = Some r" using at(1) [OF j(1)] by blast
      have g: "get_resting (m_book ms') j = get_resting ?b j" using sf(2) [OF at(2) [OF j(1)]] D(4) [OF at(2) [OF j(1)]] j(2) by (simp add: e)
      have "fst ?inc \<noteq> j" using at(4) [OF j(1)] by (simp add: incoming_of_def)
      then show ?thesis using sibling_resting [OF wf(1) r] sibling_resting [OF wf(2)] g r by simp
    qed
    have "q_total (fst (fillable_orders (m_book ms') order (filter (\<lambda>j. j \<notin> D) later_ids) (dry_state ms')))
        = q_total (fst (fillable_orders ?b order later_ids ?st))"
      by (rule fillable_sim)
        (use same removed sibling_incoming wf(3,4) f' in \<open>auto simp: dry_state_def tot unnumbered_def mk_fill_def\<close>)
    then have o: "outlook order i ms' = outlook order i ms" unfolding out by (simp add: outlook_def p)
    have "set (pending order i ms') \<inter> set (m_fired ms') = {}"
      using at(2-4) unfolding p f' D(2) by auto
    moreover have "j \<notin> set (pending order i ms')" if "e_ocoSiblingId order = Some j" "j \<noteq> []" for j
      using that pulled [of j] pend(3) [OF _ that] unfolding p by auto
    ultimately show ?thesis using o q(4) by (simp add: dry_inv_def f')
  qed
qed

lemma outlook_iter:
  assumes "match_inv order i ms" "dry_inv order i ms" "match_iter order i ms = (ms', nxt)"
  shows "dry_inv order (if nxt = Advance then Suc i else i) ms' \<and> outlook order (if nxt = Advance then Suc i else i) ms' = outlook order i ms
    \<and> (nxt = Halt \<longrightarrow> outlook order i ms = (\<Sum>f\<leftarrow>m_fills ms'. f_qty f))"
proof -
  let ?s = "opposite (e_side order)" let ?ls = "opp_levels order (m_book ms)"
  have wf: "book_wf (m_book ms)" and sh: "shape (set (m_sliced ms)) i ?ls" using assms(1) by (simp_all add: match_inv_def)
  have empty: ?thesis if "pending order i ms = []" "ms' = ms" "nxt = Halt"
    using that assms(2) by (simp add: outlook_def dry_state_def)
  show ?thesis
  proof (cases "m_remaining ms \<le> 0 \<or> length ?ls \<le> i \<or> \<not> crosses order (fst (?ls ! i))")
    case True
    have halt: "ms' = ms" "nxt = Halt"
      using True assms(3) by (auto simp: match_iter_def Let_def crosses_def split: option.splits if_splits)
    consider "m_remaining ms \<le> 0" | "length ?ls \<le> i" | "i < length ?ls" "\<not> crosses order (fst (?ls ! i))" using True by force
    then show ?thesis
    proof cases
      case 1
      then have "m_remaining ms = 0" using assms(2) by (simp add: dry_inv_def)
      then show ?thesis using outlook_done halt assms(2) by simp
    next
      case 2
      then show ?thesis using empty halt by (simp add: pending_def)
    next
      case 3
      have d: "drop i ?ls = ?ls ! i # drop (Suc i) ?ls" using Cons_nth_drop_Suc [OF 3(1)] by simp
      have "sorted_levels ?s (drop i ?ls)" using wf_sorted [OF wf] by (simp add: drop_map [symmetric] sorted_wrt_drop)
      then have "candidates order (drop i ?ls) = []" using candidates_far 3(2) unfolding d by (metis candidates_simps(2))
      then show ?thesis using empty halt by (simp add: pending_def)
    qed
  next
    case False
    then have go: "0 < m_remaining ms" "i < length ?ls" "crosses order (fst (?ls ! i))" by auto
    have "snd (?ls ! i) \<noteq> []" using wf_nonempty [OF wf nth_mem [OF go(2)]] by simp
    then obtain mk ids where mi: "snd (?ls ! i) = mk # ids" by (meson neq_Nil_conv)
    have mem: "(fst (?ls ! i), mk # ids) \<in> set ?ls" using go(2) mi by (metis nth_mem prod.collapse)
    obtain r where r: "get_resting (m_book ms) mk = Some r" using wf_level(3) [OF wf mem] by fastforce
    have id: "r_orderId r = mk" using wf_get(1) [OF wf r] .
    have it: "match_maker order i r ms = (ms', nxt)"
      using assms(3) go mi r by (simp add: match_iter_def crosses_def Let_def split: option.splits)
    have inv': "match_inv order (if nxt = Advance then Suc i else i) ms'" by (rule match_iter_inv [OF assms(1,3)])
    show ?thesis
    proof (cases "mk \<in> set (m_sliced ms)")
      case True
      then have n: "ms' = ms" "nxt = Advance" using it id by (simp_all add: match_maker_def Let_def)
      have "set (mk # ids) \<subseteq> set (m_sliced ms)"
        using shape_advance [OF sh go(2) mi True] go(2) mi by (auto simp: shape_def take_Suc_conv_app_nth)
      then have "pending order (Suc i) ms = pending order i ms"
        using shape_head [OF go(2) mi] go(3) by (auto simp: pending_def filter_empty_conv)
      then show ?thesis using n assms(2) by (simp add: dry_inv_def outlook_def)
    next
      case ns: False
      obtain later_ids where l: "pending order i ms = mk # later_ids" "mk \<notin> set later_ids"
        using pending_head [OF assms(1) go(2) mi go(3) ns] by metis
      from r id ns go(1) it show ?thesis
      proof (cases rule: fillable_head [where ids = later_ids])
        case halt
        then show ?thesis using assms(2) l(1) by (simp add: outlook_def)
      next
        case skip
        have fin: ?thesis
          if e: "ms' = ms\<lparr>m_book := drop_head ?s i mk b, m_cancellations := cs, m_cases := ca\<rparr>"
            and b: "b_bids b = b_bids (m_book ms)" "b_asks b = b_asks (m_book ms)" "b_index b = b_index (m_book ms)"
              "b_stops b = b_stops (m_book ms)" "b_positions b = b_positions (m_book ms)" for b cs ca
        proof -
          have w: "levels_of ?s b = ?ls" "book_wf b" using b wf_cong [of b "m_book ms"] wf by (simp_all add: levels_of_def)
          have dh: "drop_head ?s i mk b = without mk b" using drop_head_without [OF w(2), of i ?s mk ids] w(1) go(2) mi by simp
          have x: "opp_levels order (m_book ms') = prune {mk} ?ls" using wf_levels_without [OF w(2), of ?s mk] w(1) by (simp add: e dh)
          have g: "get_resting (m_book ms') j = get_resting (m_book ms) j" if "j \<noteq> mk" for j
            using that b(3) by (simp add: e dh get_resting_def [of b] get_resting_def [of "m_book ms"])
          have p: "b_positions (m_book ms') = b_positions (m_book ms)" using b(5) by (simp add: e)
          show ?thesis using outlook_skip [OF assms(1) _ assms(2) l x ns _ _ _ _ p g skip(3)] inv' skip(1) by (simp add: e)
        qed
        from skip(2) show ?thesis
        proof
          assume "ms' = expire_self_trade ?s i r ms"
          then obtain X Y Z where "ms' = ms\<lparr>m_book := drop_head ?s i mk (bump (m_book ms)\<lparr>b_surveillanceCases := X\<rparr>), m_cancellations := Y, m_cases := Z\<rparr>"
            by (auto simp: expire_self_trade_def Let_def nextSequence_eq id)
          then show ?thesis by (rule fin) simp_all
        next
          assume "ms' = pullReduceOnlyMaker ?s i r ms"
          then have "ms' = ms\<lparr>m_book := drop_head ?s i mk (bump (m_book ms)), m_cancellations := m_cancellations ms', m_cases := m_cases ms\<rparr>"
            by (simp add: pullReduceOnlyMaker_def Let_def nextSequence_eq id)
          then show ?thesis by (rule fin) simp_all
        qed
      next
        case (traded qty)
        show ?thesis
          using outlook_traded [OF assms(1) _ assms(2) go(2) mi go(3) ns l r id go(1) traded(2,3,4,5,7,8)] inv' traded(1) by simp
      qed
    qed
  qed
qed

lemma match_loop_halts:
  assumes "P i ms" "\<And>i ms ms' nxt. P i ms \<Longrightarrow> match_iter order i ms = (ms', nxt) \<Longrightarrow> P (if nxt = Advance then Suc i else i) ms'"
  shows "\<exists>j ms0. P j ms0 \<and> match_iter order j ms0 = (match_loop order i ms, Halt)"
  using assms
proof (induction order i ms rule: match_loop.induct)
  case (1 order i ms)
  obtain ms' nxt where it: "match_iter order i ms = (ms', nxt)" by fastforce
  have P: "P (if nxt = Advance then Suc i else i) ms'" using 1(4) [OF 1(3) it] .
  show ?case
  proof (cases nxt)
    case Halt
    then show ?thesis using 1(3) it by (auto simp: match_loop.simps [of order i ms] Let_def)
  next
    case Again
    have "\<exists>j ms0. P j ms0 \<and> match_iter order j ms0 = (match_loop order i (fst (match_iter order i ms)), Halt)"
      by (rule 1(1)) (use it Again P 1(4) in auto)
    then show ?thesis using it Again by (simp add: match_loop.simps [of order i ms] Let_def)
  next
    case Advance
    have "\<exists>j ms0. P j ms0 \<and> match_iter order j ms0 = (match_loop order (Suc i) (fst (match_iter order i ms)), Halt)"
      by (rule 1(2)) (use it Advance P 1(4) in auto)
    then show ?thesis using it Advance by (simp add: match_loop.simps [of order i ms] Let_def)
  qed
qed

lemma match_fills_fillable:
  assumes "book_wf b" "good_but {} b" "e_orderId order \<notin> live_ids b" "0 \<le> e_qty order"
  shows "(\<Sum>f\<leftarrow>m_fills (match b order). f_qty f) = fillableQty b order"
proof -
  let ?P = "\<lambda>i ms. match_inv order i ms \<and> dry_inv order i ms \<and> outlook order i ms = fillableQty b order"
  have p: "pending order 0 (match_init b order) = candidates order (opp_levels order b)" by (simp add: pending_def match_init_def)
  have "outlook order 0 (match_init b order) = fillableQty b order"
    unfolding outlook_def p fillableQty_def fillable_flat [OF wf_sorted [OF assms(1)]] by (simp add: match_init_def dry_state_def)
  moreover have "dry_inv order 0 (match_init b order)" using assms(4) by (simp add: dry_inv_def match_init_def)
  ultimately have "?P 0 (match_init b order)" using match_inv_init [OF assms(1-3)] by blast
  then have "\<exists>j ms0. ?P j ms0 \<and> match_iter order j ms0 = (match_loop order 0 (match_init b order), Halt)"
  proof (rule match_loop_halts [where P = ?P])
    fix i ms ms' nxt
    assume P: "?P i ms" and it: "match_iter order i ms = (ms', nxt)"
    show "?P (if nxt = Advance then Suc i else i) ms'"
      using match_iter_inv [of order i ms, OF _ it] outlook_iter [of order i ms, OF _ _ it] P by simp
  qed
  then show ?thesis using outlook_iter unfolding match_def by metis
qed

section \<open>Displacing reduce-only orders leaves the other side alone\<close>

lemma fillable_other_side:
  assumes "book_wf b" "book_wf b'" "e_orderId order \<notin> live_ids b" "e_orderId order \<notin> live_ids b'" "b_positions b' = b_positions b"
    and "levels_of (opposite (e_side order)) b' = levels_of (opposite (e_side order)) b"
    and "\<And>j r. get_resting b j = Some r \<Longrightarrow> r_side r = opposite (e_side order) \<Longrightarrow> get_resting b' j = Some r"
  shows "fillableQty b' order = fillableQty b order"
proof -
  let ?s = "opposite (e_side order)" let ?ids = "candidates order (levels_of ?s b)"
  have same: "get_resting b' j = get_resting b j \<and> siblingOf b' j (incoming_of order) = siblingOf b j (incoming_of order)" if j: "j \<in> set ?ids" for j
  proof -
    obtain l where "l \<in> set (levels_of ?s b)" "j \<in> set (snd l)" using j by (auto simp: candidates_def)
    then obtain r where r: "get_resting b j = Some r" "r_side r = ?s" using wf_level(3) [OF assms(1), of "fst l" "snd l"] by fastforce
    have g: "get_resting b' j = Some r" by (rule assms(7) [OF r])
    have "fst (incoming_of order) \<noteq> j" using assms(3) r(1) by (auto simp: incoming_of_def live_ids_def)
    then show ?thesis using sibling_resting [OF assms(1) r(1)] sibling_resting [OF assms(2) g] r(1) g by simp
  qed
  have "q_total (fst (fillable_orders b' order (filter (\<lambda>j. j \<notin> {}) ?ids) st)) = q_total (fst (fillable_orders b order ?ids st))" for st
    by (rule fillable_sim) (use same assms sibling_incoming in simp_all)
  then show ?thesis
    unfolding fillableQty_def fillable_flat [OF wf_sorted [OF assms(1)]] fillable_flat [OF wf_sorted [OF assms(2)]] by (simp add: assms(6))
qed

definition keeps_side :: "order_side \<Rightarrow> order_book \<Rightarrow> order_book \<Rightarrow> bool" where
  "keeps_side s b b' \<longleftrightarrow> levels_of s b' = levels_of s b \<and> (\<forall>j r. get_resting b j = Some r \<longrightarrow> r_side r = s \<longrightarrow> get_resting b' j = Some r)
     \<and> (\<forall>j r. get_resting b' j = Some r \<longrightarrow> get_resting b j = Some r)"

lemma displace_loop_keeps:
  assumes "book_wf b" "\<forall>row \<in> set rows. \<not> row_stop row \<and> (\<forall>r. get_resting b (row_orderId row) = Some r \<longrightarrow> r_side r = opposite s)"
  shows "keeps_side s b (fst (displace_loop qty op b res rows))"
  using assms
proof (induction rows arbitrary: b res)
  case (Cons row rows)
  show ?case
  proof (cases "qty + res \<le> op \<or> get_resting b (row_orderId row) = None")
    case True
    have "keeps_side s b (fst (displace_loop qty op b res rows))" by (rule Cons.IH [OF Cons.prems(1)]) (use Cons.prems(2) in simp)
    moreover have "keeps_side s b b" by (simp add: keeps_side_def)
    ultimately show ?thesis using True Cons.prems(2) by (cases "qty + res \<le> op") (simp_all add: pullReduceOnlyRow_def)
  next
    case False
    then obtain r where r: "get_resting b (row_orderId row) = Some r" by blast
    have side: "r_side r = opposite s" "\<not> row_stop row" using Cons.prems(2) r by auto
    let ?b = "bump (without (row_orderId row) b)"
    have p: "fst (pullReduceOnlyRow b row) = ?b" "snd (pullReduceOnlyRow b row) \<noteq> None"
      using r side(2) removeResting_without [OF Cons.prems(1) r] by (simp_all add: pullReduceOnlyRow_def Let_def nextSequence_eq)
    have wf: "book_wf ?b" using evolvesD(1) [OF evolves_trans [OF evolves_without evolves_bump] Cons.prems(1)] .
    have "levels_of s ?b = levels_of s b"
      using wf_absent_other_side [OF Cons.prems(1) r] side(1) by simp
    then have k: "keeps_side s b ?b" using r side(1) by (auto simp: keeps_side_def split: if_splits)
    have "keeps_side s ?b (fst (displace_loop qty op ?b res' rows))" for res'
      by (rule Cons.IH [OF wf]) (use Cons.prems(2) in \<open>auto split: if_splits\<close>)
    then have "keeps_side s b (fst (displace_loop qty op ?b res' rows))" for res'
      using k unfolding keeps_side_def by metis
    then show ?thesis using False p by (auto simp: Let_def case_prod_beta split: option.splits)
  qed
qed (simp add: keeps_side_def)

end
