(* ===== verification/Match_Tif.thy ===== *)
theory Match_Tif
  imports Match_Props Match_Fillable
begin

text \<open>
  What the time-in-force and all-or-none instructions promise: fill-or-kill and all-or-none orders
  fill in full or not at all, post-only and maker-or-cancel orders never take.
\<close>

section \<open>Dry run and sweep\<close>

text \<open>C7. The dry run that decides whether a fill-or-kill or all-or-none order is viable counts exactly what
  the sweep then fills, through self-trade expiries, iceberg slices, reduce-only makers, OCO pulls,
  minimum quantities and all-or-none makers.\<close>

theorem fillable_exact:
  assumes "book_inv b" "\<not> isLive b (e_orderId order)" "0 < e_qty order"
  shows "(\<Sum>f\<leftarrow>m_fills (match b order). f_qty f) = fillableQty b order"
  by (rule match_fills_fillable) (use assms in \<open>auto simp: book_inv_def isLive_iff\<close>)

theorem fillable_exact_witness:
  "(\<Sum>f\<leftarrow>m_fills (match demo_asks demo_taker). f_qty f) = fillableQty demo_asks demo_taker \<and> fillableQty demo_asks demo_taker = 6"
proof
  have d: "\<not> isLive demo_asks (e_orderId demo_taker)" "e_qty demo_taker = 6" by code_simp+
  show "(\<Sum>f\<leftarrow>m_fills (match demo_asks demo_taker). f_qty f) = fillableQty demo_asks demo_taker"
    using fillable_exact [OF reachable_inv [OF demo_asks_reachable] d(1)] d(2) by simp
  show "fillableQty demo_asks demo_taker = 6" by code_simp
qed

section \<open>All or none\<close>

lemma execute_fills: "x_fills (snd (execute b order n v)) = m_fills (executed b order)"
  by (simp add: execute_def executed_def Let_def nextSequence_eq case_prod_beta)

lemma match_totals:
  assumes "book_inv b" "e_orderId order \<notin> live_ids b" "0 < e_qty order"
  shows "(\<Sum>f\<leftarrow>m_fills (match b order). f_qty f) = fillableQty b order" "fillableQty b order \<le> e_qty order"
    "\<forall>f \<in> set (m_fills (match b order)). 0 < f_qty f"
proof -
  have w: "book_wf b" "good_but {} b" using assms(1) by (simp_all add: book_inv_def)
  show e: "(\<Sum>f\<leftarrow>m_fills (match b order). f_qty f) = fillableQty b order"
    by (rule match_fills_fillable [OF w assms(2)]) (use assms(3) in simp)
  obtain j where "fills_ok b order j (match b order)"
    using match_fills_ok [OF w assms(2)] assms(3) by (metis less_le_not_le)
  then show "fillableQty b order \<le> e_qty order" "\<forall>f \<in> set (m_fills (match b order)). 0 < f_qty f"
    using e by (auto simp: fills_ok_def fair_fill_def)
qed

text \<open>An all-or-none order that is executed, whether on arrival, on its trigger or by an amendment, fills
  in full or not at all.\<close>

theorem aon_all_or_nothing:
  assumes "book_inv b" "\<not> isLive b (e_orderId order)" "0 < e_qty order" "e_aon order"
  shows "(\<Sum>f\<leftarrow>x_fills (snd (execute b order n v)). f_qty f) = (if fillableQty b order < e_qty order then 0 else e_qty order)"
  using match_totals [of b order] assms
  by (auto simp: execute_fills executed_def canFillAon_def match_init_def isLive_iff)

section \<open>Fill or kill\<close>

lemma displace_keeps:
  assumes "book_inv b"
  shows "keeps_side (opposite (o_side order)) b (fst (displaceReduceOnly b order))"
proof -
  have wf: "book_wf b" using assms by (simp add: book_inv_def)
  have rows: "\<not> row_stop row \<longrightarrow> (\<forall>r. get_resting b (row_orderId row) = Some r \<longrightarrow> r_side r = o_side order)"
    if "row \<in> set (reduceOnlyRows b acc (o_side order) ex)" for row acc ex
    using that row_ids(3) [OF assms] by (auto simp: reduceOnlyRows_def)
  have "keeps_side (opposite (o_side order)) b b" by (simp add: keeps_side_def)
  moreover have "keeps_side (opposite (o_side order)) b (fst (displace_loop qty op b res (sort_by le (filter (\<lambda>row. \<not> row_stop row \<and> P row)
      (reduceOnlyRows b acc (o_side order) ex)))))" for qty op res le P acc ex
    by (rule displace_loop_keeps [OF wf]) (use rows in auto)
  ultimately show ?thesis by (simp add: displaceReduceOnly_def Let_def)
qed

text \<open>The book an order is executed on when it arrives: after the displacement of its own account's
  reduce-only orders, with the next sequence number drawn.\<close>

lemma arrival_book:
  assumes "book_inv b" "o_orderId order \<notin> live_ids b" "b2 = bump (fst (displaceReduceOnly b order))"
  shows "book_inv b2" "e_orderId (toEffective order) \<notin> live_ids b2" "fillableQty b2 (toEffective order) = fillableQty b (toEffective order)"
    "levels_of (opposite (o_side order)) b2 = levels_of (opposite (o_side order)) b"
proof -
  have p: "preserves b b2" unfolding assms(3) by (rule preserves_trans [OF preserves_displace preserves_bump])
  show i: "book_inv b2" using preservesD(1) [OF p assms(1)] .
  have e: "e_orderId (toEffective order) = o_orderId order" "e_side (toEffective order) = o_side order" by (simp_all add: toEffective_def)
  show l: "e_orderId (toEffective order) \<notin> live_ids b2" using preservesD(2) [OF p assms(1)] assms(2) unfolding e(1) by blast
  have k: "keeps_side (opposite (o_side order)) b b2"
    using displace_keeps [OF assms(1), of order] unfolding assms(3) keeps_side_def bump_fields .
  then show "levels_of (opposite (o_side order)) b2 = levels_of (opposite (o_side order)) b" by (simp add: keeps_side_def)
  have "b_positions b2 = b_positions b"
    using evolvesD(4) [OF evolves_displaceReduceOnly] assms(1) by (simp add: assms(3) book_inv_def)
  then show "fillableQty b2 (toEffective order) = fillableQty b (toEffective order)"
  proof (rule fillable_other_side [rotated 4])
    show "levels_of (opposite (e_side (toEffective order))) b2 = levels_of (opposite (e_side (toEffective order))) b"
      using k unfolding e keeps_side_def by (rule conjunct1)
    show "get_resting b j = Some r \<Longrightarrow> r_side r = opposite (e_side (toEffective order)) \<Longrightarrow> get_resting b2 j = Some r" for j r
      using k unfolding e keeps_side_def by blast
  qed (use i l assms(1,2) e(1) in \<open>simp_all add: book_inv_def\<close>)
qed

text \<open>The outcomes of a submission of an order that is not a stop: refused, or executed after passing the
  viability check of the book after expiries.\<close>

lemma submit_outcomes:
  assumes "book_inv b" "\<not> is_stop_type (o_type order)" "\<not> o_peg order" "\<not> o_relative order"
  obtains (refused) code where "snd (submit env b order t) = rejected code"
  | (executed) b1 where "book_inv b1" "o_orderId order \<notin> live_ids b1" "0 < o_qty order" "checkViability b1 (toEffective order) = None"
      "is_priced_type (o_type order) \<Longrightarrow> \<exists>p. o_price order = Some p" "s_accepted (snd (submit env b order t))"
      "s_fills (snd (submit env b order t)) = m_fills (executed (bump (fst (displaceReduceOnly b1 order))) (toEffective order))"
proof -
  have o: "bindPegRelative order = order" using assms(3,4) by (simp add: bindPegRelative_def)
  let ?b0 = "note_position order b" let ?e = "expire_first env ?b0 t"
  have p0: "preserves b ?b0" by (rule preserves_note_position)
  have p1: "preserves b (fst ?e)" by (rule preserves_trans [OF p0 preserves_expire_first])
  show ?thesis
  proof (cases "pegIntentRefuse order = None \<and> validate env ?b0 order t = None \<and> checkViability (fst ?e) (toEffective order) = None")
    case True
    note v = validate_None [OF conjunct1 [OF conjunct2 [OF True]]]
    have "o_orderId order \<notin> live_ids (fst ?e)"
      using v(2) preservesD(2) [OF preserves_expire_first preservesD(1) [OF p0 assms(1)]] by blast
    moreover have "is_priced_type (o_type order) \<Longrightarrow> \<exists>p. o_price order = Some p"
      using True by (auto simp: validate_def check_price_def split: option.splits)
    ultimately show ?thesis
      using True v(1) preservesD(1) [OF p1 assms(1)] assms(2)
      by (intro executed [of "fst ?e"])
        (simp_all add: submit_def submit_now_def o Let_def nextSequence_eq case_prod_beta execute_fills)
  next
    case False
    then have "\<exists>code. snd (submit env b order t) = rejected code"
      using assms(2) by (auto simp: submit_def submit_now_def o Let_def case_prod_beta split: option.splits)
    then show ?thesis using refused by blast
  qed
qed

text \<open>C10. A fill-or-kill limit or market order that is neither pegged nor relative fills in full or is refused without a
  fill. A stop that waits as fill-or-kill is outside the claim.\<close>

theorem fok_all_or_nothing:
  assumes "book_inv b" "o_tif order = FOK" "o_type order = Limit \<or> o_type order = Market" "\<not> o_peg order" "\<not> o_relative order"
  shows "(\<Sum>f\<leftarrow>s_fills (snd (submit env b order t)). f_qty f) = (if s_accepted (snd (submit env b order t)) then o_qty order else 0)"
proof -
  have ns: "\<not> is_stop_type (o_type order)" using assms(3) by (auto simp: is_stop_type_def)
  have tif: "e_tif (toEffective order) = FOK" "e_qty (toEffective order) = o_qty order" using assms(2) by (simp_all add: toEffective_def)
  from assms(1) ns assms(4,5) show ?thesis
  proof (cases rule: submit_outcomes [where env = env and t = t])
    case (refused code)
    then show ?thesis by (simp add: rejected_def)
  next
    case (executed b1)
    let ?e = "toEffective order" let ?b2 = "bump (fst (displaceReduceOnly b1 order))"
    note a = arrival_book [OF executed(1,2) refl]
    have full: "o_qty order \<le> fillableQty ?b2 ?e"
      using executed(4) a(3) by (simp add: checkViability_def tif split: if_splits)
    have "Match_Reach.executed ?b2 ?e = match ?b2 ?e"
      using full by (simp add: Match_Reach.executed_def canFillAon_def tif)
    then show ?thesis using match_totals [OF a(1,2)] executed(3,6,7) full by (simp add: tif)
  qed
qed

theorem fok_all_or_nothing_witness:
  "(\<Sum>f\<leftarrow>s_fills (snd (submit demo_market_env demo_asks (demo_limit ''c1'' ''cat'' BuySide 9 101 FOK) None)). f_qty f) = 9
   \<and> (\<Sum>f\<leftarrow>s_fills (snd (submit demo_market_env demo_asks (demo_limit ''c1'' ''cat'' BuySide 13 101 FOK) None)). f_qty f) = 0"
proof -
  have a: "s_accepted (snd (submit demo_market_env demo_asks (demo_limit ''c1'' ''cat'' BuySide 9 101 FOK) None))"
    "\<not> s_accepted (snd (submit demo_market_env demo_asks (demo_limit ''c1'' ''cat'' BuySide 13 101 FOK) None))" by code_simp+
  note f = fok_all_or_nothing [OF reachable_inv [OF demo_asks_reachable], of "demo_limit ''c1'' ''cat'' BuySide q 101 FOK" demo_market_env None for q]
  show ?thesis using f [of 9] f [of 13] a by (simp add: demo_limit_def)
qed

section \<open>Post-only\<close>

lemma no_crossing:
  assumes "book_wf b" "e_price order = Some p" "\<not> wouldCross b (e_side order) p"
  shows "fillableQty b order = 0"
proof -
  let ?ls = "levels_of (opposite (e_side order)) b"
  have "candidates order ?ls = []"
  proof (cases ?ls)
    case (Cons l ls)
    have "\<not> crosses order (fst l)"
      using assms(2,3) Cons by (cases "e_side order")
        (auto simp: wouldCross_def bestAsk_def bestBid_def crosses_def crossesLevel_def levels_of_def opposite_def)
    then show ?thesis using candidates_far [of order l ls] wf_sorted [OF assms(1)] Cons by (metis candidates_simps(2))
  qed simp
  then show ?thesis unfolding fillableQty_def fillable_flat [OF wf_sorted [OF assms(1)]] by simp
qed

lemma no_fills: "(\<Sum>f\<leftarrow>fs. f_qty f) = 0 \<Longrightarrow> \<forall>f \<in> set fs. 0 < f_qty f \<Longrightarrow> fs = []"
proof (cases fs)
  case (Cons f gs)
  assume a: "(\<Sum>f\<leftarrow>fs. f_qty f) = 0" "\<forall>f \<in> set fs. 0 < f_qty f"
  have "0 \<le> (\<Sum>f\<leftarrow>gs. f_qty f)" using a(2) Cons by (intro sum_list_nonneg) (auto simp: less_imp_le)
  then show ?thesis using a Cons by simp
qed simp

text \<open>A post-only or maker-or-cancel limit order never takes: its submission has no fill.\<close>

theorem post_only_never_takes:
  assumes "book_inv b" "o_tif order = PO \<or> o_tif order = MOC" "o_type order = Limit" "\<not> o_peg order" "\<not> o_relative order"
  shows "s_fills (snd (submit env b order t)) = []"
proof -
  have ns: "\<not> is_stop_type (o_type order)" using assms(3) by (simp add: is_stop_type_def)
  from assms(1) ns assms(4,5) show ?thesis
  proof (cases rule: submit_outcomes [where env = env and t = t])
    case (refused code)
    then show ?thesis by (simp add: rejected_def)
  next
    case (executed b1)
    let ?e = "toEffective order" let ?b2 = "bump (fst (displaceReduceOnly b1 order))"
    note a = arrival_book [OF executed(1,2) refl]
    obtain p where p: "e_price ?e = Some p" using executed(5) assms(3) by (auto simp: toEffective_def is_priced_type_def)
    have "\<not> wouldCross b1 (e_side ?e) p"
      using executed(4) assms(2) p by (auto simp: checkViability_def toEffective_def split: if_splits)
    then have z: "fillableQty ?b2 ?e = 0" using no_crossing [of b1 ?e p] p executed(1) a(3) by (simp add: book_inv_def)
    have q: "0 < e_qty ?e" using executed(3) by (simp add: toEffective_def)
    have "m_fills (match ?b2 ?e) = []"
      using no_fills match_totals(1,3) [OF a(1,2) q] z by simp
    then show ?thesis using executed(7) by (simp add: Match_Reach.executed_def match_init_def)
  qed
qed

end
