(* ===== verification/Match_State.thy ===== *)
theory Match_State
  imports Match_Props
begin

text \<open>
  The durable form of a book: \<open>toState\<close>, \<open>fromState\<close> and \<open>clone\<close> of \<^verbatim>\<open>book.ts\<close> with the state types of
  \<^verbatim>\<open>types.ts\<close>, and what a restored book keeps of the one that was saved.
\<close>

section \<open>States\<close>

record resting_state =
  rs_orderId :: string
  rs_accountId :: string
  rs_remaining :: string
  rs_sequence :: nat
  rs_version :: "nat option"
  rs_ocoSiblingId :: "string option"
  rs_expireAt :: "string option"
  rs_sessionId :: "string option"
  rs_reduceOnly :: bool
  rs_postOnly :: bool
  rs_displayQty :: "string option"
  rs_displayRemaining :: "string option"
  rs_minQty :: "string option"
  rs_aon :: bool

record level_state =
  lv_price :: string
  lv_orders :: "resting_state list"

record stop_state =
  ss_orderId :: string
  ss_accountId :: string
  ss_limit :: bool
  ss_side :: order_side
  ss_qty :: string
  ss_price :: "string option"
  ss_stopPrice :: string
  ss_tif :: time_in_force
  ss_sequence :: nat
  ss_version :: "nat option"
  ss_ocoSiblingId :: "string option"
  ss_expireAt :: "string option"
  ss_sessionId :: "string option"
  ss_reduceOnly :: bool
  ss_triggerRole :: "trigger_role option"
  ss_triggerBy :: "trigger_by option"
  ss_minQty :: "string option"
  ss_aon :: bool
  ss_trail :: "string option"
  ss_peak :: "string option"

record book_state =
  bs_marketId :: string
  bs_sequence :: nat
  bs_lastTradePrice :: "string option"
  bs_bids :: "level_state list"
  bs_asks :: "level_state list"
  bs_stops :: "stop_state list"
  bs_ocoTerminal :: "string list"
  bs_acceptedOrderIds :: "string list"
  bs_positions :: "(string \<times> string) list"
  bs_futuresPositions :: "(string \<times> string) list"
  bs_surveillanceCases :: "surveillance_case list"

text \<open>A spread of a string that is left out when it is null or empty.\<close>

definition present :: "string option \<Rightarrow> string option" where
  "present s = (if truthy s then s else None)"

definition resting_state_of :: "resting_order \<Rightarrow> resting_state" where
  "resting_state_of r = \<lparr>rs_orderId = r_orderId r, rs_accountId = r_accountId r, rs_remaining = formatAmount (r_remaining r),
     rs_sequence = r_sequence r, rs_version = Some (r_version r), rs_ocoSiblingId = present (r_ocoSiblingId r),
     rs_expireAt = present (r_expireAt r), rs_sessionId = present (r_sessionId r), rs_reduceOnly = r_reduceOnly r,
     rs_postOnly = r_postOnly r, rs_displayQty = map_option formatAmount (r_displayPeak r),
     rs_displayRemaining = (if r_displayPeak r = None then None else map_option formatAmount (r_displayRemaining r)),
     rs_minQty = map_option formatAmount (r_minQty r), rs_aon = r_aon r\<rparr>"

definition foldLevels :: "order_book \<Rightarrow> price_level list \<Rightarrow> level_state list" where
  "foldLevels b levels = map (\<lambda>l. \<lparr>lv_price = formatAmount (fst l),
     lv_orders = map resting_state_of (List.map_filter (get_resting b) (snd l))\<rparr>) levels"

definition stop_state_of :: "stop_order \<Rightarrow> stop_state" where
  "stop_state_of s = \<lparr>ss_orderId = st_orderId s, ss_accountId = st_accountId s, ss_limit = st_limit s, ss_side = st_side s,
     ss_qty = formatAmount (st_qty s), ss_price = map_option formatAmount (st_price s), ss_stopPrice = formatAmount (st_stopPrice s),
     ss_tif = st_tif s, ss_sequence = st_sequence s, ss_version = Some (st_version s), ss_ocoSiblingId = present (st_ocoSiblingId s),
     ss_expireAt = present (st_expireAt s), ss_sessionId = present (st_sessionId s), ss_reduceOnly = st_reduceOnly s,
     ss_triggerRole = (if st_triggerRole s = TakeProfit \<or> st_triggerRole s = StopLoss then Some (st_triggerRole s) else None),
     ss_triggerBy = (if st_triggerBy s \<noteq> ByLast then Some (st_triggerBy s) else None),
     ss_minQty = map_option formatAmount (st_minQty s), ss_aon = st_aon s,
     ss_trail = (if st_trail s \<noteq> None \<and> st_peak s \<noteq> None then map_option formatAmount (st_trail s) else None),
     ss_peak = (if st_trail s \<noteq> None \<and> st_peak s \<noteq> None then map_option formatAmount (st_peak s) else None)\<rparr>"

definition futuresState :: "order_book \<Rightarrow> (string \<times> string) list" where
  "futuresState b = map (\<lambda>(a, q). (a, formatAmount q)) (sort_key fst (b_futuresPositions b))"

definition positionState :: "order_book \<Rightarrow> (string \<times> string) list" where
  "positionState b = map (\<lambda>(a, q). (a, formatAmount q)) (sort_key fst (filter (\<lambda>p. snd p \<noteq> 0) (b_positions b)))"

definition toState :: "order_book \<Rightarrow> book_state" where
  "toState b = \<lparr>bs_marketId = b_marketId b, bs_sequence = b_sequence b, bs_lastTradePrice = map_option formatAmount (b_lastTradePrice b),
     bs_bids = foldLevels b (b_bids b), bs_asks = foldLevels b (b_asks b), bs_stops = map stop_state_of (b_stops b),
     bs_ocoTerminal = ocoTerminalIds b, bs_acceptedOrderIds = terminalAcceptedIds b, bs_positions = positionState b,
     bs_futuresPositions = futuresState b, bs_surveillanceCases = b_surveillanceCases b\<rparr>"

section \<open>Restoring\<close>

abbreviation parse_text :: "string \<Rightarrow> money_error + amount" where
  "parse_text s \<equiv> parseAmount (AString s)"

definition parse_opt :: "string option \<Rightarrow> money_error + amount option" where
  "parse_opt s = (case s of None \<Rightarrow> Inr None | Some x \<Rightarrow> bindE (parse_text x) (\<lambda>a. Inr (Some a)))"

definition version_or_one :: "nat option \<Rightarrow> nat" where
  "version_or_one v = (case v of Some n \<Rightarrow> if 0 < n then n else 1 | None \<Rightarrow> 1)"

definition trailPeakState :: "string option \<Rightarrow> string option \<Rightarrow> money_error + (amount option \<times> amount option)" where
  "trailPeakState trail peak =
     (case (trail, peak) of
        (Some t, Some p) \<Rightarrow> bindE (parse_text t) (\<lambda>ta. bindE (parse_text p) (\<lambda>pa.
          Inr (if ta \<le> 0 \<or> pa \<le> 0 then (None, None) else (Some ta, Some pa))))
      | _ \<Rightarrow> Inr (None, None))"

definition hydrate_order :: "order_side \<Rightarrow> amount \<Rightarrow> resting_state \<Rightarrow> money_error + resting_order" where
  "hydrate_order side price rs =
     bindE (parse_text (rs_remaining rs)) (\<lambda>rem. bindE (parse_opt (rs_displayQty rs)) (\<lambda>peak.
     bindE (parse_opt (rs_displayRemaining rs)) (\<lambda>disp. bindE (parse_opt (rs_minQty rs)) (\<lambda>mq.
       Inr \<lparr>r_orderId = rs_orderId rs, r_accountId = rs_accountId rs, r_side = side, r_price = price, r_remaining = rem,
         r_sequence = rs_sequence rs, r_version = version_or_one (rs_version rs), r_ocoSiblingId = rs_ocoSiblingId rs,
         r_expireAt = rs_expireAt rs, r_sessionId = rs_sessionId rs, r_reduceOnly = rs_reduceOnly rs, r_postOnly = rs_postOnly rs,
         r_displayPeak = peak, r_displayRemaining = disp, r_minQty = mq, r_aon = rs_aon rs\<rparr>))))"

definition hydrate_level :: "order_side \<Rightarrow> level_state \<Rightarrow> money_error + amount \<times> resting_order list" where
  "hydrate_level side lv = bindE (parse_text (lv_price lv)) (\<lambda>price.
     bindE (mapE (hydrate_order side price) (lv_orders lv)) (\<lambda>orders. Inr (price, orders)))"

definition hydrate_stop :: "stop_state \<Rightarrow> money_error + stop_order" where
  "hydrate_stop ss =
     bindE (trailPeakState (ss_trail ss) (ss_peak ss)) (\<lambda>walked. bindE (parse_text (ss_qty ss)) (\<lambda>qty.
     bindE (parse_opt (ss_price ss)) (\<lambda>price. bindE (parse_text (ss_stopPrice ss)) (\<lambda>stopPrice.
     bindE (parse_opt (ss_minQty ss)) (\<lambda>mq.
       Inr \<lparr>st_orderId = ss_orderId ss, st_accountId = ss_accountId ss, st_limit = ss_limit ss, st_side = ss_side ss, st_qty = qty,
         st_price = price, st_stopPrice = stopPrice, st_tif = ss_tif ss, st_sequence = ss_sequence ss,
         st_version = version_or_one (ss_version ss), st_ocoSiblingId = ss_ocoSiblingId ss, st_expireAt = ss_expireAt ss,
         st_sessionId = ss_sessionId ss, st_reduceOnly = ss_reduceOnly ss,
         st_triggerBy = (case ss_triggerBy ss of Some ByMark \<Rightarrow> ByMark | Some ByIndex \<Rightarrow> ByIndex | _ \<Rightarrow> ByLast),
         st_triggerRole = (case ss_triggerRole ss of Some TakeProfit \<Rightarrow> TakeProfit | Some StopLoss \<Rightarrow> StopLoss | _ \<Rightarrow> Legacy),
         st_minQty = mq, st_aon = ss_aon ss, st_trail = fst walked, st_peak = snd walked\<rparr>)))))"

definition hydrate_row :: "string \<times> string \<Rightarrow> money_error + string \<times> amount" where
  "hydrate_row row = bindE (parse_text (snd row)) (\<lambda>q. Inr (fst row, q))"

abbreviation set_row :: "('k \<times> 'v) list \<Rightarrow> 'k \<times> 'v \<Rightarrow> ('k \<times> 'v) list" where
  "set_row m p \<equiv> AList.update (fst p) (snd p) m"

definition fromState :: "book_state \<Rightarrow> money_error + order_book" where
  "fromState st =
     bindE (parse_opt (bs_lastTradePrice st)) (\<lambda>lastPrice.
     bindE (mapE (hydrate_level BuySide) (bs_bids st)) (\<lambda>bids.
     bindE (mapE (hydrate_level SellSide) (bs_asks st)) (\<lambda>asks.
     bindE (mapE hydrate_stop (bs_stops st)) (\<lambda>stops.
     bindE (mapE hydrate_row (bs_positions st)) (\<lambda>positions.
     bindE (mapE hydrate_row (bs_futuresPositions st)) (\<lambda>futures.
       let orders = concat (map snd (bids @ asks));
           index = foldl (\<lambda>m r. AList.update (r_orderId r) r m) [] orders;
           members = map st_orderId (filter (\<lambda>s. truthy (st_ocoSiblingId s)) stops)
             @ map r_orderId (filter (\<lambda>r. truthy (r_ocoSiblingId r)) orders) @ bs_ocoTerminal st;
           accepted = bs_acceptedOrderIds st @ map fst index @ map st_orderId stops
       in Inr ((new_book (bs_marketId st))\<lparr>b_sequence := bs_sequence st, b_lastTradePrice := lastPrice,
            b_bids := map (\<lambda>(p, rs). (p, map r_orderId rs)) bids, b_asks := map (\<lambda>(p, rs). (p, map r_orderId rs)) asks,
            b_index := index, b_stops := stops, b_ocoMembers := foldl (\<lambda>xs x. set_add x xs) [] members,
            b_acceptedIds := foldl (\<lambda>xs x. set_add x xs) [] accepted,
            b_positions := foldl set_row [] (filter (\<lambda>p. snd p \<noteq> 0) positions),
            b_futuresPositions := foldl set_row [] futures,
            b_surveillanceCases := bs_surveillanceCases st\<rparr>)))))))"

definition clone :: "order_book \<Rightarrow> money_error + order_book" where
  "clone b = bindE (fromState (toState b)) (\<lambda>copy. Inr (copy\<lparr>b_previousTradePrice := b_previousTradePrice b,
     b_markPrice := b_markPrice b, b_indexPrice := b_indexPrice b\<rparr>))"

section \<open>What a restored book keeps\<close>

text \<open>The amounts of a book that the snapshot prints, which have to fit the column to be read back.\<close>

abbreviation fits :: "amount \<Rightarrow> bool" where
  "fits a \<equiv> \<bar>a\<bar> \<le> MAX_AMOUNT"

abbreviation fits_opt :: "amount option \<Rightarrow> bool" where
  "fits_opt a \<equiv> case_option True fits a"

definition order_fits :: "resting_order \<Rightarrow> bool" where
  "order_fits r \<longleftrightarrow> fits (r_price r) \<and> fits (r_remaining r) \<and> fits_opt (r_displayPeak r) \<and> fits_opt (r_displayRemaining r) \<and> fits_opt (r_minQty r)"

definition stop_fits :: "stop_order \<Rightarrow> bool" where
  "stop_fits s \<longleftrightarrow> fits (st_qty s) \<and> fits_opt (st_price s) \<and> fits (st_stopPrice s) \<and> fits_opt (st_minQty s) \<and> fits_opt (st_trail s) \<and> fits_opt (st_peak s)"

definition book_fits :: "order_book \<Rightarrow> bool" where
  "book_fits b \<longleftrightarrow> fits_opt (b_lastTradePrice b) \<and> list_all (order_fits \<circ> snd) (b_index b) \<and> list_all stop_fits (b_stops b)
     \<and> list_all (fits \<circ> snd) (b_positions b) \<and> list_all (fits \<circ> snd) (b_futuresPositions b)"

text \<open>What the snapshot makes of an order: empty strings count as absent, a version of zero as the
  first version, a shown quantity without a peak is dropped.\<close>

definition saved_order :: "resting_order \<Rightarrow> resting_order" where
  "saved_order r = r\<lparr>r_version := version_or_one (Some (r_version r)), r_ocoSiblingId := present (r_ocoSiblingId r),
     r_expireAt := present (r_expireAt r), r_sessionId := present (r_sessionId r),
     r_displayRemaining := (if r_displayPeak r = None then None else r_displayRemaining r)\<rparr>"

definition saved_trail :: "stop_order \<Rightarrow> amount option \<times> amount option" where
  "saved_trail s = (case (st_trail s, st_peak s) of (Some t, Some p) \<Rightarrow> if t \<le> 0 \<or> p \<le> 0 then (None, None) else (Some t, Some p) | _ \<Rightarrow> (None, None))"

definition saved_stop :: "stop_order \<Rightarrow> stop_order" where
  "saved_stop s = s\<lparr>st_version := version_or_one (Some (st_version s)), st_ocoSiblingId := present (st_ocoSiblingId s),
     st_expireAt := present (st_expireAt s), st_sessionId := present (st_sessionId s),
     st_trail := fst (saved_trail s), st_peak := snd (saved_trail s)\<rparr>"

lemma saved_ids [simp]: "r_orderId (saved_order r) = r_orderId r" "st_orderId (saved_stop s) = st_orderId s"
  by (simp_all add: saved_order_def saved_stop_def)

lemma parse_fits [simp]: "fits v \<Longrightarrow> parse_text (formatAmount v) = Inr v"
  by (simp add: parse_format)

lemma parse_opt_fits [simp]: "fits_opt v \<Longrightarrow> parse_opt (map_option formatAmount v) = Inr v"
  by (cases v) (simp_all add: parse_opt_def parse_format)

lemma parse_opt_None [simp]: "parse_opt None = Inr None"
  by (simp add: parse_opt_def)

lemma mapE_map_Inr: "(\<And>x. x \<in> set xs \<Longrightarrow> f (g x) = Inr (h x)) \<Longrightarrow> mapE f (map g xs) = Inr (map h xs)"
  by (induction xs) auto

lemma hydrate_order_saved:
  assumes "order_fits r"
  shows "hydrate_order (r_side r) (r_price r) (resting_state_of r) = Inr (saved_order r)"
  using assms by (cases r) (simp add: hydrate_order_def resting_state_of_def saved_order_def order_fits_def)

lemma trail_saved:
  assumes "stop_fits s"
  shows "trailPeakState (ss_trail (stop_state_of s)) (ss_peak (stop_state_of s)) = Inr (saved_trail s)"
  using assms
  by (cases "st_trail s"; cases "st_peak s") (simp_all add: trailPeakState_def stop_state_of_def saved_trail_def stop_fits_def parse_format)

lemma hydrate_stop_saved:
  assumes "stop_fits s"
  shows "hydrate_stop (stop_state_of s) = Inr (saved_stop s)"
proof -
  have "(case ss_triggerBy (stop_state_of s) of Some ByMark \<Rightarrow> ByMark | Some ByIndex \<Rightarrow> ByIndex | _ \<Rightarrow> ByLast) = st_triggerBy s"
    by (cases "st_triggerBy s") (simp_all add: stop_state_of_def)
  moreover have "(case ss_triggerRole (stop_state_of s) of Some TakeProfit \<Rightarrow> TakeProfit | Some StopLoss \<Rightarrow> StopLoss | _ \<Rightarrow> Legacy) = st_triggerRole s"
    by (cases "st_triggerRole s") (simp_all add: stop_state_of_def)
  ultimately show ?thesis
    unfolding hydrate_stop_def trail_saved [OF assms]
    using assms by (cases s) (simp add: stop_fits_def stop_state_of_def saved_stop_def)
qed

lemma hydrate_row_saved: "fits (snd p) \<Longrightarrow> hydrate_row (fst p, formatAmount (snd p)) = Inr p"
  by (simp add: hydrate_row_def)

text \<open>The orders of a level, in the order in which they queue.\<close>

abbreviation queue_of :: "order_book \<Rightarrow> price_level \<Rightarrow> resting_order list" where
  "queue_of b l \<equiv> List.map_filter (get_resting b) (snd l)"

lemma map_filter_found: "\<forall>i \<in> set is. \<exists>r. g i = Some r \<and> k r = i \<Longrightarrow> map k (List.map_filter g is) = is"
  by (induction "is") (auto simp: List.map_filter_simps)

lemma queue_of_ids:
  assumes "book_wf b" "l \<in> set (levels_of s b)"
  shows "map r_orderId (queue_of b l) = snd l"
proof -
  have "\<forall>i \<in> set (snd l). \<exists>r. get_resting b i = Some r \<and> r_orderId r = i"
    using assms by (fastforce simp: book_wf_def level_ok_def indexed_ok_def)
  then show ?thesis by (rule map_filter_found)
qed

lemma queue_of_member:
  assumes "book_wf b" "l \<in> set (levels_of s b)" "r \<in> set (queue_of b l)"
  shows "get_resting b (r_orderId r) = Some r" "r_side r = s" "r_price r = fst l"
proof -
  obtain i where i: "i \<in> set (snd l)" "get_resting b i = Some r" using assms(3) by (auto simp: List.map_filter_def)
  then show "get_resting b (r_orderId r) = Some r" using assms(1) by (auto simp: book_wf_def indexed_ok_def)
  show "r_side r = s" "r_price r = fst l" using i assms(1,2) by (fastforce simp: book_wf_def level_ok_def)+
qed

lemma get_resting_fits: "book_fits b \<Longrightarrow> get_resting b i = Some r \<Longrightarrow> order_fits r"
  using map_of_SomeD [of "b_index b" i r] by (fastforce simp: book_fits_def get_resting_def list_all_iff)

lemma hydrate_level_saved:
  assumes "book_wf b" "book_fits b" "l \<in> set (levels_of s b)"
  shows "hydrate_level s \<lparr>lv_price = formatAmount (fst l), lv_orders = map resting_state_of (queue_of b l)\<rparr>
    = Inr (fst l, map saved_order (queue_of b l))"
proof -
  have q: "order_fits r" "r_side r = s" "r_price r = fst l" if "r \<in> set (queue_of b l)" for r
    using queue_of_member [OF assms(1,3) that] get_resting_fits [OF assms(2)] by auto
  have "snd l \<noteq> []" using assms(1,3) by (simp add: book_wf_def level_ok_def)
  then have "queue_of b l \<noteq> []" using queue_of_ids [OF assms(1,3)] by (metis list.map_disc_iff)
  then have "fits (fst l)" using q by (cases "queue_of b l") (auto simp: order_fits_def)
  moreover have "mapE (hydrate_order s (fst l)) (map resting_state_of (queue_of b l)) = Inr (map saved_order (queue_of b l))"
    by (rule mapE_map_Inr) (use q hydrate_order_saved in metis)
  ultimately show ?thesis by (simp add: hydrate_level_def)
qed

definition saved_levels :: "order_book \<Rightarrow> order_side \<Rightarrow> (amount \<times> resting_order list) list" where
  "saved_levels b s = map (\<lambda>l. (fst l, map saved_order (queue_of b l))) (levels_of s b)"

lemma hydrate_side_saved:
  assumes "book_wf b" "book_fits b"
  shows "mapE (hydrate_level s) (foldLevels b (levels_of s b)) = Inr (saved_levels b s)"
  unfolding foldLevels_def saved_levels_def by (rule mapE_map_Inr) (rule hydrate_level_saved [OF assms])

lemma saved_levels_ids:
  assumes "book_wf b"
  shows "map (\<lambda>(p, rs). (p, map r_orderId rs)) (saved_levels b s) = levels_of s b"
  using queue_of_ids [OF assms] by (auto simp: saved_levels_def comp_def intro!: map_idI)

definition saved_queue :: "order_book \<Rightarrow> resting_order list" where
  "saved_queue b = concat (map snd (saved_levels b BuySide @ saved_levels b SellSide))"

lemma saved_queue_member:
  assumes "book_wf b" "x \<in> set (saved_queue b)"
  shows "map_option saved_order (get_resting b (r_orderId x)) = Some x"
proof -
  obtain s l r where "l \<in> set (levels_of s b)" "r \<in> set (queue_of b l)" "x = saved_order r"
    using assms(2) by (auto simp: saved_queue_def saved_levels_def)
  then show ?thesis using queue_of_member(1) [OF assms(1)] by simp
qed

lemma saved_queue_ids:
  assumes "book_wf b"
  shows "r_orderId ` set (saved_queue b) = {i. get_resting b i \<noteq> None}"
proof (intro set_eqI iffI)
  fix i assume "i \<in> r_orderId ` set (saved_queue b)"
  then show "i \<in> {i. get_resting b i \<noteq> None}" using saved_queue_member [OF assms] by fastforce
next
  fix i assume "i \<in> {i. get_resting b i \<noteq> None}"
  then obtain r where r: "get_resting b i = Some r" by auto
  then obtain ids where l: "(r_price r, ids) \<in> set (levels_of (r_side r) b)" "i \<in> set ids" "r_orderId r = i"
    using assms unfolding book_wf_def indexed_ok_def by blast
  then have "saved_order r \<in> set (saved_queue b)"
    using r by (cases "r_side r") (force simp: saved_queue_def saved_levels_def List.map_filter_def)+
  then show "i \<in> r_orderId ` set (saved_queue b)" using l(3) by (metis image_eqI saved_ids(1))
qed

lemma map_of_foldl_update:
  assumes "\<forall>x \<in> set xs. f (k x) = Some (v x)"
  shows "map_of (foldl (\<lambda>m x. AList.update (k x) (v x) m) m xs) i = (if i \<in> k ` set xs then f i else map_of m i)"
  using assms by (induction xs arbitrary: m) (auto simp: update_conv')

lemma keys_foldl_update: "fst ` set (foldl (\<lambda>m x. AList.update (k x) (v x) m) m xs) = fst ` set m \<union> k ` set xs"
  by (induction xs arbitrary: m) (auto simp: dom_update)

lemma set_foldl_set_add: "set (foldl (\<lambda>xs x. set_add x xs) acc xs) = set acc \<union> set xs"
  by (induction xs arbitrary: acc) auto

lemma foldl_set_row:
  "distinct (map fst xs) \<Longrightarrow> fst ` set xs \<inter> fst ` set m = {} \<Longrightarrow> foldl set_row m xs = m @ xs"
proof (induction xs arbitrary: m)
  case (Cons x xs)
  have "AList.update (fst x) (snd x) m = m @ [x]"
    using Cons.prems(2) by (induction m) auto
  then show ?case using Cons.IH [of "m @ [x]"] Cons.prems by auto
qed simp

lemma distinct_sort_key: "distinct (map fst xs) \<Longrightarrow> distinct (map fst (sort_key fst xs))"
  by (simp add: distinct_map inj_on_def)

lemma map_of_sort_key: "distinct (map fst xs) \<Longrightarrow> map_of (sort_key fst xs) = map_of xs"
  using map_of_inject_set [of "sort_key fst xs" xs] distinct_sort_key by auto

lemma hydrate_rows_saved:
  assumes "list_all (fits \<circ> snd) xs"
  shows "mapE hydrate_row (map (\<lambda>(a, q). (a, formatAmount q)) (sort_key fst xs)) = Inr (sort_key fst xs)"
proof -
  have "mapE hydrate_row (map (\<lambda>(a, q). (a, formatAmount q)) (sort_key fst xs)) = Inr (map (\<lambda>p. p) (sort_key fst xs))"
    by (rule mapE_map_Inr) (use assms hydrate_row_saved in \<open>force simp: list_all_iff\<close>)
  then show ?thesis by simp
qed

text \<open>The restored book, field by field.\<close>

definition restored :: "order_book \<Rightarrow> order_book" where
  "restored b = (new_book (b_marketId b))\<lparr>b_sequence := b_sequence b, b_lastTradePrice := b_lastTradePrice b,
     b_bids := b_bids b, b_asks := b_asks b,
     b_index := foldl (\<lambda>m r. AList.update (r_orderId r) r m) [] (saved_queue b), b_stops := map saved_stop (b_stops b),
     b_ocoMembers := foldl (\<lambda>xs x. set_add x xs) [] (map st_orderId (filter (\<lambda>s. truthy (st_ocoSiblingId s)) (map saved_stop (b_stops b)))
       @ map r_orderId (filter (\<lambda>r. truthy (r_ocoSiblingId r)) (saved_queue b)) @ ocoTerminalIds b),
     b_acceptedIds := foldl (\<lambda>xs x. set_add x xs) [] (terminalAcceptedIds b
       @ map fst (foldl (\<lambda>m r. AList.update (r_orderId r) r m) [] (saved_queue b)) @ map st_orderId (map saved_stop (b_stops b))),
     b_positions := sort_key fst (b_positions b), b_futuresPositions := sort_key fst (b_futuresPositions b),
     b_surveillanceCases := b_surveillanceCases b\<rparr>"

lemma fromState_restored:
  assumes "book_inv b" "book_fits b" "distinct (map fst (b_futuresPositions b))"
  shows "fromState (toState b) = Inr (restored b)"
proof -
  have wf: "book_wf b" and ps: "distinct (map fst (b_positions b))" "filter (\<lambda>p. snd p \<noteq> 0) (b_positions b) = b_positions b"
    using assms(1) by (auto simp: book_inv_def positions_ok_def filter_id_conv)
  have sides: "mapE (hydrate_level BuySide) (foldLevels b (b_bids b)) = Inr (saved_levels b BuySide)"
    "mapE (hydrate_level SellSide) (foldLevels b (b_asks b)) = Inr (saved_levels b SellSide)"
    using hydrate_side_saved [OF wf assms(2), of BuySide] hydrate_side_saved [OF wf assms(2), of SellSide] by (simp_all add: levels_of_def)
  have stops: "mapE hydrate_stop (map stop_state_of (b_stops b)) = Inr (map saved_stop (b_stops b))"
    by (rule mapE_map_Inr) (use assms(2) hydrate_stop_saved in \<open>auto simp: book_fits_def list_all_iff\<close>)
  have rows: "mapE hydrate_row (positionState b) = Inr (sort_key fst (b_positions b))"
    "mapE hydrate_row (futuresState b) = Inr (sort_key fst (b_futuresPositions b))"
    unfolding positionState_def futuresState_def ps(2) by (rule hydrate_rows_saved, use assms(2) in \<open>simp add: book_fits_def\<close>)+
  have last: "parse_opt (map_option formatAmount (b_lastTradePrice b)) = Inr (b_lastTradePrice b)"
    using assms(2) by (simp add: book_fits_def)
  have ids: "map (\<lambda>(p, rs). (p, map r_orderId rs)) (saved_levels b BuySide) = b_bids b"
    "map (\<lambda>(p, rs). (p, map r_orderId rs)) (saved_levels b SellSide) = b_asks b"
    using saved_levels_ids [OF wf, of BuySide] saved_levels_ids [OF wf, of SellSide] by (simp_all add: levels_of_def)
  have nz: "filter (\<lambda>p. snd p \<noteq> 0) (sort_key fst (b_positions b)) = sort_key fst (b_positions b)"
    using assms(1) by (simp add: filter_id_conv book_inv_def positions_ok_def)
  have set: "foldl set_row [] (sort_key fst (b_positions b)) = sort_key fst (b_positions b)"
    "foldl set_row [] (sort_key fst (b_futuresPositions b)) = sort_key fst (b_futuresPositions b)"
    using foldl_set_row [OF distinct_sort_key [OF ps(1)], of "[]"] foldl_set_row [OF distinct_sort_key [OF assms(3)], of "[]"] by simp_all
  show ?thesis
    unfolding fromState_def toState_def Let_def
    by (simp only: book_state.simps last sides stops rows bindE.simps saved_queue_def [symmetric] ids nz set restored_def)
qed

lemma restored_simps [simp]:
  "b_marketId (restored b) = b_marketId b" "b_sequence (restored b) = b_sequence b" "levels_of s (restored b) = levels_of s b"
  "b_lastTradePrice (restored b) = b_lastTradePrice b" "b_stops (restored b) = map saved_stop (b_stops b)"
  "b_positions (restored b) = sort_key fst (b_positions b)" "b_futuresPositions (restored b) = sort_key fst (b_futuresPositions b)"
  "b_surveillanceCases (restored b) = b_surveillanceCases b"
  by (simp_all add: restored_def levels_of_def new_book_def)

lemma restored_get:
  assumes "book_wf b"
  shows "get_resting (restored b) i = map_option saved_order (get_resting b i)"
  using map_of_foldl_update [of "saved_queue b" "\<lambda>i. map_option saved_order (get_resting b i)" r_orderId "\<lambda>r. r" "[]" i]
    saved_queue_member [OF assms] saved_queue_ids [OF assms]
  by (auto simp: get_resting_def restored_def)

lemma restored_accepted:
  assumes "book_wf b"
  shows "hasAccepted (restored b) i \<longleftrightarrow> hasAccepted b i \<or> isLive b i"
proof -
  have "hasAccepted (restored b) i \<longleftrightarrow> (hasAccepted b i \<and> \<not> isLive b i) \<or> i \<in> r_orderId ` set (saved_queue b) \<or> i \<in> st_orderId ` set (b_stops b)"
    by (simp add: restored_def hasAccepted_def set_foldl_set_add terminalAcceptedIds_def keys_foldl_update image_image)
  then show ?thesis unfolding saved_queue_ids [OF assms] by (auto simp: isLive_def)
qed

text \<open>The members of one-cancels-other pairs that the durable form gives back: those that are gone, and the live orders that
  still name a sibling.\<close>

definition linked :: "order_book \<Rightarrow> string \<Rightarrow> bool" where
  "linked b i \<longleftrightarrow> (\<exists>r. get_resting b i = Some r \<and> truthy (r_ocoSiblingId r)) \<or> (\<exists>s \<in> set (b_stops b). st_orderId s = i \<and> truthy (st_ocoSiblingId s))"

lemma truthy_saved [simp]: "truthy (r_ocoSiblingId (saved_order r)) = truthy (r_ocoSiblingId r)" "truthy (st_ocoSiblingId (saved_stop s)) = truthy (st_ocoSiblingId s)"
  by (simp_all add: saved_order_def saved_stop_def present_def truthy_def)

lemma restored_members:
  assumes "book_wf b"
  shows "set (b_ocoMembers (restored b)) = {i. isOcoTerminal b i \<or> linked b i}"
proof -
  have q: "i \<in> r_orderId ` {x \<in> set (saved_queue b). truthy (r_ocoSiblingId x)} \<longleftrightarrow> (\<exists>r. get_resting b i = Some r \<and> truthy (r_ocoSiblingId r))" for i
  proof
    assume "\<exists>r. get_resting b i = Some r \<and> truthy (r_ocoSiblingId r)"
    then obtain r where r: "get_resting b i = Some r" "truthy (r_ocoSiblingId r)" by blast
    have "i \<in> r_orderId ` set (saved_queue b)" unfolding saved_queue_ids [OF assms] using r(1) by simp
    then obtain x where x: "x \<in> set (saved_queue b)" "r_orderId x = i" by auto
    then have "x = saved_order r" using saved_queue_member [OF assms x(1)] r(1) by simp
    then have "truthy (r_ocoSiblingId x)" using r(2) by simp
    then show "i \<in> r_orderId ` {x \<in> set (saved_queue b). truthy (r_ocoSiblingId x)}" using x by blast
  next
    assume "i \<in> r_orderId ` {x \<in> set (saved_queue b). truthy (r_ocoSiblingId x)}"
    then obtain x where x: "x \<in> set (saved_queue b)" "truthy (r_ocoSiblingId x)" "r_orderId x = i" by auto
    then show "\<exists>r. get_resting b i = Some r \<and> truthy (r_ocoSiblingId r)" using saved_queue_member [OF assms x(1)] by auto
  qed
  have s: "i \<in> st_orderId ` {s \<in> set (map saved_stop (b_stops b)). truthy (st_ocoSiblingId s)} \<longleftrightarrow> (\<exists>s \<in> set (b_stops b). st_orderId s = i \<and> truthy (st_ocoSiblingId s))" for i
    by (auto simp: image_iff)
  have "b_ocoMembers (restored b) = foldl (\<lambda>xs x. set_add x xs) [] (map st_orderId (filter (\<lambda>s. truthy (st_ocoSiblingId s)) (map saved_stop (b_stops b)))
      @ map r_orderId (filter (\<lambda>r. truthy (r_ocoSiblingId r)) (saved_queue b)) @ ocoTerminalIds b)"
    by (simp add: restored_def)
  then have "i \<in> set (b_ocoMembers (restored b)) \<longleftrightarrow> i \<in> st_orderId ` {s \<in> set (map saved_stop (b_stops b)). truthy (st_ocoSiblingId s)}
      \<or> i \<in> r_orderId ` {x \<in> set (saved_queue b). truthy (r_ocoSiblingId x)} \<or> isOcoTerminal b i" for i
    by (simp only: set_foldl_set_add set_append set_map set_filter ocoTerminalIds_def set_sort isOcoTerminal_def) auto
  then show ?thesis unfolding q s by (auto simp: linked_def)
qed

lemma live_ok_saved: "live_ok r \<Longrightarrow> live_ok (saved_order r)"
  by (auto simp: live_ok_def saved_order_def split: option.splits)

lemma distinct_restored_index: "distinct (map fst (b_index (restored b)))"
proof -
  have "distinct (map fst m) \<Longrightarrow> distinct (map fst (foldl (\<lambda>m r. AList.update (r_orderId r) r m) m rs))" for m and rs :: "resting_order list"
    by (induction rs arbitrary: m) (auto simp: distinct_update)
  then show ?thesis by (simp add: restored_def)
qed

lemma restored_inv:
  assumes "book_inv b"
  shows "book_inv (restored b)"
proof -
  have wf: "book_wf b" using assms by (simp add: book_inv_def)
  have keep: "r_side (saved_order r) = r_side r" "r_price (saved_order r) = r_price r" for r by (simp_all add: saved_order_def)
  have "level_ok s (restored b)" for s
    using wf by (fastforce simp: book_wf_def level_ok_def restored_get [OF wf] keep)
  moreover have "indexed_ok (restored b)"
    using wf distinct_restored_index by (auto simp: book_wf_def indexed_ok_def restored_get [OF wf] keep)
  moreover have "stops_ok (restored b)"
    using wf by (auto simp: book_wf_def stops_ok_def restored_get [OF wf] comp_def)
  moreover have "good_but {} (restored b)"
    using assms live_ok_saved by (auto simp: book_inv_def good_but_def restored_get [OF wf] saved_stop_def)
  moreover have "position_sum (restored b) = position_sum b"
    unfolding position_sum_def by (simp flip: sum_mset_sum_list)
  ultimately show ?thesis
    using assms distinct_sort_key by (auto simp: book_inv_def book_wf_def positions_ok_def)
qed

section \<open>Properties\<close>

text \<open>C21. What a snapshot gives back, and what it does not. When every amount fits the column, \<open>fromState (toState b)\<close>
  succeeds with a well-formed book that has the same market, sequence, last print, levels and queues, the
  same orders and stops up to the normal form of their optional fields, the same positions, futures
  positions and cases. The ids it refuses as duplicates are those accepted before or still live. Of the members of one-cancels-other pairs it
  has exactly those that are gone and the live orders that still name a sibling, so a member whose link was cleared while it is
  live is forgotten. The print before the last, the last move, the mark price, the index price
  and the depth cache come back empty.\<close>

theorem snapshot_round_trip:
  assumes "book_inv b" "book_fits b" "distinct (map fst (b_futuresPositions b))"
  shows "\<exists>b'. fromState (toState b) = Inr b' \<and> book_inv b' \<and> b_marketId b' = b_marketId b \<and> b_sequence b' = b_sequence b
    \<and> b_lastTradePrice b' = b_lastTradePrice b \<and> b_bids b' = b_bids b \<and> b_asks b' = b_asks b
    \<and> (\<forall>i. get_resting b' i = map_option saved_order (get_resting b i)) \<and> b_stops b' = map saved_stop (b_stops b)
    \<and> (\<forall>a. netPosition b' a = netPosition b a) \<and> map_of (b_futuresPositions b') = map_of (b_futuresPositions b)
    \<and> b_surveillanceCases b' = b_surveillanceCases b
    \<and> (\<forall>i. hasAccepted b' i = (hasAccepted b i \<or> isLive b i)) \<and> set (b_ocoMembers b') = {i. isOcoTerminal b i \<or> linked b i}
    \<and> b_previousTradePrice b' = None \<and> b_lastMove b' = None \<and> b_moves b' = 0 \<and> b_markPrice b' = None \<and> b_indexPrice b' = None
    \<and> b_depthCache b' = None"
proof -
  have wf: "book_wf b" and d: "distinct (map fst (b_positions b))" using assms(1) by (simp_all add: book_inv_def positions_ok_def)
  have sides: "b_bids (restored b) = b_bids b" "b_asks (restored b) = b_asks b" by (simp_all add: restored_def)
  have fresh: "b_previousTradePrice (restored b) = None" "b_lastMove (restored b) = None" "b_moves (restored b) = 0" "b_markPrice (restored b) = None"
    "b_indexPrice (restored b) = None" "b_depthCache (restored b) = None" by (simp_all add: restored_def new_book_def)
  show ?thesis
    by (rule exI [of _ "restored b"])
      (simp add: fromState_restored [OF assms] restored_inv [OF assms(1)] sides fresh restored_get [OF wf] restored_accepted [OF wf]
        restored_members [OF wf] netPosition_def alist_get_def map_of_sort_key d assms(3))
qed

theorem snapshot_round_trip_witness:
  "\<exists>b'. fromState (toState demo_traded) = Inr b' \<and> b_asks b' = b_asks demo_traded \<and> b_bids b' = b_bids demo_traded
     \<and> netPosition b' ''cat'' = 6"
proof -
  have "book_fits demo_traded" "distinct (map fst (b_futuresPositions demo_traded))" "netPosition demo_traded ''cat'' = 6"
    by code_simp+
  then show ?thesis using snapshot_round_trip [OF reachable_inv [OF demo_traded_reachable]] by metis
qed

text \<open>The market of the next property: a linked pair of asks, of which one is taken in part. The
  other is pulled and the survivor keeps no link.\<close>

definition demo_pair :: order_book where
  "demo_pair = fst (submit demo_market_env (fst (submit demo_market_env (fst (submit demo_market_env (new_book ''BTC-USDT'')
     ((demo_limit ''x'' ''ann'' SellSide 5 100 GTC)\<lparr>o_ocoSiblingId := Some ''y''\<rparr>) None))
     ((demo_limit ''y'' ''ann'' SellSide 5 110 GTC)\<lparr>o_ocoSiblingId := Some ''x''\<rparr>) None))
     (demo_limit ''t'' ''tom'' BuySide 2 100 GTC) None)"

definition demo_late :: engine_order where
  "demo_late = (demo_limit ''z'' ''ann'' SellSide 5 120 GTC)\<lparr>o_ocoSiblingId := Some ''x''\<rparr>"

text \<open>What the snapshot forgets: an order whose link was cleared by a partial fill is still a member of
  its pair in memory but not in the durable form. After a restart, and once that order is cancelled,
  a new order that names it as its sibling is accepted, where the book that was never restarted
  refuses it as \<open>OcoSiblingTerminal\<close>.\<close>

theorem restart_forgets_cleared_pair:
  "let after = (\<lambda>b. submit demo_market_env (fst (cancel b ''x'' Requested)) demo_late None);
       again = projr (fromState (toState demo_pair))
   in isLive demo_pair ''x'' \<and> isLive again ''x'' \<and> s_accepted (snd (after again))
     \<and> s_rejected (snd (after demo_pair)) = Some OcoSiblingTerminal"
  by code_simp

end
