(* ===== verification/Engine_Trail.thy ===== *)
theory Engine_Trail
  imports Match_State
begin

text \<open>
  Trailing stops, \<^verbatim>\<open>trailing-stop.ts\<close>: the rows that follow the live trailing stops of a book, the
  submission that rests one, and the mark that walks them. A row belongs to one book object; the
  weak map of the source is kept beside the book as a list of rows in insertion order.
\<close>

section \<open>Rows\<close>

record trail_live =
  tl_side :: order_side
  tl_trail :: amount
  tl_peak :: amount

type_synonym trail_rows = "(string \<times> trail_live) list"

text \<open>An order as the engine receives it. The book keeps one value for a trail that is absent and one
  that is null; the trailing door tells them apart.\<close>

record trail_order = engine_order +
  o_trailNull :: bool

abbreviation core_order :: "trail_order \<Rightarrow> engine_order" where
  "core_order order \<equiv> engine_order.truncate order"

definition wantsTrailing :: "trail_order \<Rightarrow> bool" where
  "wantsTrailing order \<longleftrightarrow> o_trail order \<noteq> None \<or> o_trailNull order"

definition missing_if :: "amount option \<Rightarrow> string \<Rightarrow> reject_code option" where
  "missing_if a code = (case a of None \<Rightarrow> Some (OtherReject code) | Some v \<Rightarrow> if v \<le> 0 then Some (OtherReject code) else None)"

definition trailRefuse :: "amount option \<Rightarrow> reject_code option" where
  "trailRefuse trail = missing_if trail ''missing_trail''"

definition markRefuse :: "amount option \<Rightarrow> reject_code option" where
  "markRefuse mark = missing_if mark ''missing_mark''"

definition ratchetPeak :: "order_side \<Rightarrow> amount option \<Rightarrow> amount \<Rightarrow> amount" where
  "ratchetPeak side peak mark = (case peak of None \<Rightarrow> mark
     | Some p \<Rightarrow> if side = SellSide then (if mark > p then mark else p) else (if mark < p then mark else p))"

definition walkStop :: "order_side \<Rightarrow> amount \<Rightarrow> amount \<Rightarrow> amount option" where
  "walkStop side extreme trail =
     (if side = SellSide then (if extreme \<le> trail then None else Some (extreme - trail)) else Some (extreme + trail))"

definition remember :: "trail_rows \<Rightarrow> string \<Rightarrow> trail_live \<Rightarrow> trail_rows" where
  "remember rows orderId rec = AList.update orderId rec rows"

definition triggerTightened :: "order_side \<Rightarrow> amount \<Rightarrow> amount \<Rightarrow> bool" where
  "triggerTightened side next' current \<longleftrightarrow> (if side = SellSide then next' > current else next' < current)"

text \<open>A restored book has no rows; they are rebuilt from the stops that carry a trail and a peak. A
  stored amount that does not read back stops the rebuilding.\<close>

fun add_rows :: "trail_rows \<Rightarrow> stop_state list \<Rightarrow> trail_rows \<times> money_error option" where
  "add_rows rows [] = (rows, None)"
| "add_rows rows (stop # stops) =
     (if ss_orderId stop \<in> fst ` set rows then add_rows rows stops
      else case (ss_trail stop, ss_peak stop) of
        (Some t, Some p) \<Rightarrow>
          (case (parse_text t, parse_text p) of
             (Inl e, _) \<Rightarrow> (rows, Some e)
           | (Inr _, Inl e) \<Rightarrow> (rows, Some e)
           | (Inr trail, Inr peak) \<Rightarrow>
               if trail \<le> 0 \<or> peak \<le> 0 then add_rows rows stops
               else add_rows (AList.update (ss_orderId stop) \<lparr>tl_side = ss_side stop, tl_trail = trail, tl_peak = peak\<rparr> rows) stops)
      | _ \<Rightarrow> add_rows rows stops)"

definition rowsFor :: "order_book \<Rightarrow> trail_rows \<Rightarrow> trail_rows \<times> money_error option" where
  "rowsFor b rows = add_rows rows (bs_stops (toState b))"

section \<open>Walking with a mark\<close>

record walk =
  wk_book :: order_book
  wk_rows :: trail_rows
  wk_changed :: bool

text \<open>One row. The stops are those of the book when the mark arrived, not those of the moment.\<close>

definition walk_row :: "match_env \<Rightarrow> stop_state list \<Rightarrow> amount \<Rightarrow> walk \<Rightarrow> string \<times> trail_live \<Rightarrow> walk \<times> money_error option" where
  "walk_row env stops mark w row =
     (case List.find (\<lambda>s. ss_orderId s = fst row) stops of
        None \<Rightarrow> (w\<lparr>wk_rows := AList.delete (fst row) (wk_rows w)\<rparr>, None)
      | Some stop \<Rightarrow>
          let side = ss_side stop; rec = snd row; peak = ratchetPeak side (Some (tl_peak rec)) mark
          in case walkStop side peak (tl_trail rec) of
            None \<Rightarrow> (w, None)
          | Some next' \<Rightarrow>
              if next' \<le> 0 then (w, None)
              else case parse_text (ss_stopPrice stop) of
                Inl e \<Rightarrow> (w, Some e)
              | Inr current \<Rightarrow>
                  if \<not> triggerTightened side next' current then
                    (if peak = tl_peak rec then (w, None)
                     else case noteStopPeak (wk_book w) (fst row) peak of
                       (b, True) \<Rightarrow> (\<lparr>wk_book = b, wk_rows = AList.update (fst row) (rec\<lparr>tl_peak := peak\<rparr>) (wk_rows w), wk_changed = True\<rparr>, None)
                     | (_, False) \<Rightarrow> (w, None))
                  else
                    case amend env (wk_book w) \<lparr>a_orderId = fst row, a_expectedVersion = version_or_one (ss_version stop), a_qty = None,
                        a_price = None, a_stopPrice = Some next', a_tif = None, a_expireAt = None\<rparr> None of
                      (b1, amended) \<Rightarrow>
                        if \<not> ar_accepted amended then (w\<lparr>wk_book := b1\<rparr>, None)
                        else case noteStopPeak b1 (fst row) peak of
                          (b2, False) \<Rightarrow> (w\<lparr>wk_book := b1, wk_rows := AList.delete (fst row) (wk_rows w)\<rparr>, None)
                        | (b2, True) \<Rightarrow> (\<lparr>wk_book = b2, wk_rows = AList.update (fst row) (rec\<lparr>tl_peak := peak\<rparr>) (wk_rows w), wk_changed = True\<rparr>, None))"

fun walk_rows :: "match_env \<Rightarrow> stop_state list \<Rightarrow> amount \<Rightarrow> walk \<Rightarrow> trail_rows \<Rightarrow> walk \<times> money_error option" where
  "walk_rows env stops mark w [] = (w, None)"
| "walk_rows env stops mark w (row # rows) =
     (case walk_row env stops mark w row of
        (w1, Some e) \<Rightarrow> (w1, Some e)
      | (w1, None) \<Rightarrow> walk_rows env stops mark w1 rows)"

text \<open>The result tells a refusal and whether a peak or a trigger moved; \<open>Inl\<close> is an amount that does not
  read back, thrown out of the walk with what was changed so far.\<close>

definition applyMark :: "match_env \<Rightarrow> order_book \<Rightarrow> trail_rows \<Rightarrow> amount option
    \<Rightarrow> (order_book \<times> trail_rows) \<times> (money_error + reject_code option \<times> bool)" where
  "applyMark env b rows mark =
     (case markRefuse mark of
        Some code \<Rightarrow> ((b, rows), Inr (Some code, False))
      | None \<Rightarrow>
          case rowsFor b rows of
            (rows1, Some e) \<Rightarrow> ((b, rows1), Inl e)
          | (rows1, None) \<Rightarrow>
              case walk_rows env (bs_stops (toState b)) (the mark) \<lparr>wk_book = b, wk_rows = rows1, wk_changed = False\<rparr> rows1 of
                (w, Some e) \<Rightarrow> ((wk_book w, wk_rows w), Inl e)
              | (w, None) \<Rightarrow> ((wk_book w, wk_rows w), Inr (None, wk_changed w)))"

section \<open>Submitting a trailing stop\<close>

definition trailing_submit :: "match_env \<Rightarrow> order_book \<times> trail_rows \<Rightarrow> trail_order \<Rightarrow> int option \<Rightarrow> (order_book \<times> trail_rows) \<times> submit_result" where
  "trailing_submit env br order now' =
     (let (b, rows) = br in
      if \<not> wantsTrailing order then
        (let (b1, r) = submit env b (core_order order) now' in ((b1, rows), r))
      else case trailRefuse (o_trail order) of
        Some code \<Rightarrow> (br, rejected code)
      | None \<Rightarrow>
          case markRefuse (o_mark order) of
            Some code \<Rightarrow> (br, rejected code)
          | None \<Rightarrow>
              (case walkStop (o_side order) (the (o_mark order)) (the (o_trail order)) of
                 None \<Rightarrow> (br, rejected InvalidPrice)
               | Some stopPrice \<Rightarrow>
                   if stopPrice \<le> 0 then (br, rejected InvalidPrice)
                   else let (b1, r) = submit env b ((core_order order)\<lparr>o_type := Stop, o_price := None, o_stopPrice := Some stopPrice\<rparr>) now'
                        in ((b1, if s_accepted r then remember rows (o_orderId order)
                               \<lparr>tl_side = o_side order, tl_trail = the (o_trail order), tl_peak = the (o_mark order)\<rparr> else rows), r)))"

section \<open>What a mark keeps\<close>

lemma preserves_walk_row: "preserves (wk_book w) (wk_book (fst (walk_row env stops mark w row)))"
proof -
  have a: "noteStopPeak b i p = (b', ok) \<Longrightarrow> preserves b b'" for b i p b' ok
    using preserves_noteStopPeak [of b i p] by simp
  have m: "amend env b cmd None = (b', r) \<Longrightarrow> preserves b b'" for b cmd b' r
    using preserves_amend [of b env cmd None] by simp
  show ?thesis
    unfolding walk_row_def Let_def
    by (auto split: option.splits sum.splits prod.splits bool.splits dest: a m intro: preserves_trans)
qed

lemma preserves_walk_rows: "preserves (wk_book w) (wk_book (fst (walk_rows env stops mark w rows)))"
proof (induction rows arbitrary: w)
  case (Cons row rows)
  obtain w1 e where r: "walk_row env stops mark w row = (w1, e)" by fastforce
  have p: "preserves (wk_book w) (wk_book w1)" using preserves_walk_row [of w env stops mark row] r by simp
  show ?case
    using p preserves_trans [OF p Cons.IH [of w1]] by (cases e) (simp_all add: r)
qed simp

lemma preserves_applyMark: "preserves b (fst (fst (applyMark env b rows mark)))"
proof -
  have w: "walk_rows env stops m \<lparr>wk_book = b, wk_rows = rs, wk_changed = c\<rparr> rs' = (w, e) \<Longrightarrow> preserves b (wk_book w)" for stops m rs c rs' w e
    using preserves_walk_rows [of "\<lparr>wk_book = b, wk_rows = rs, wk_changed = c\<rparr>" env stops m rs'] by simp
  show ?thesis
    unfolding applyMark_def by (auto split: option.splits prod.splits dest: w)
qed

text \<open>The peak follows the mark in one direction only, and so does the trigger it gives.\<close>

lemma ratchet_walk_tightens:
  assumes "walkStop side p t = Some s" "walkStop side (ratchetPeak side (Some p) mark) t = Some s'"
  shows "s' = s \<or> triggerTightened side s' s"
  using assms by (auto simp: walkStop_def ratchetPeak_def triggerTightened_def split: if_splits)

end
