(* ===== verification/Spread_Instrument.thy ===== *)
theory Spread_Instrument
  imports Match_State
begin

text \<open>
  Listed spreads, \<^verbatim>\<open>spread-instrument.ts\<close>: reading an owner listing, its wire form, and the leg prices
  and quantities of a spread fill, with the proof that the rule never needs rounding.
\<close>

section \<open>Instruments\<close>

datatype spread_kind = Calendar | InterCoin

record spread_leg =
  sl_symbol :: string
  sl_side :: order_side
  sl_ratio :: amount

record spread_instrument =
  sp_spreadId :: string
  sp_kind :: spread_kind
  sp_legs :: "spread_leg list"
  sp_tick :: amount
  sp_lot :: amount

record spread_terms =
  sm_instrument :: spread_instrument
  sm_anchorReference :: "amount option"

record spread_leg_fill =
  lf_symbol :: string
  lf_takerSide :: order_side
  lf_qty :: amount
  lf_price :: amount

text \<open>A listing as it arrives; \<open>None\<close> is a field that is absent, null or not a string.\<close>

record spread_leg_input =
  li_symbol :: "string option"
  li_side :: "string option"
  li_ratio :: "string option"

record spread_listing_input =
  si_spreadId :: "string option"
  si_kind :: "string option"
  si_legs :: "spread_leg_input list option"
  si_tick :: "string option"
  si_lot :: "string option"

definition SPREAD_KINDS :: "(string \<times> spread_kind) list" where
  "SPREAD_KINDS = [(''calendar'', Calendar), (''inter_coin'', InterCoin)]"

definition SPREAD_LEG_COUNT :: nat where
  "SPREAD_LEG_COUNT = 2"

definition MAX_ID :: nat where
  "MAX_ID = 128"

section \<open>Exact arithmetic\<close>

definition readPositive :: "string option \<Rightarrow> amount option" where
  "readPositive raw =
     (case raw of
        None \<Rightarrow> None
      | Some s \<Rightarrow>
          if js_trim s = [] then None
          else case parseAmount (AString (js_trim s)) of
            Inl _ \<Rightarrow> None
          | Inr v \<Rightarrow> if v > 0 then Some v else None)"

definition mulExact :: "amount \<Rightarrow> amount \<Rightarrow> amount option" where
  "mulExact a b =
     (let product = a * b in
      if product mod SCALE \<noteq> 0 then None
      else let v = product div SCALE in if fits v then Some v else None)"

definition divExact :: "amount \<Rightarrow> amount \<Rightarrow> amount option" where
  "divExact a b =
     (if b = 0 then None
      else let numerator = a * SCALE in
        if numerator mod b \<noteq> 0 then None
        else let v = numerator div b in if fits v then Some v else None)"

definition sign :: "order_side \<Rightarrow> amount" where
  "sign side = (if side = BuySide then 1 else - 1)"

section \<open>Listings\<close>

definition spread_code :: "string \<Rightarrow> reject_code" where
  "spread_code s = OtherReject s"

definition trim_or_empty :: "string option \<Rightarrow> string" where
  "trim_or_empty s = (case s of None \<Rightarrow> [] | Some x \<Rightarrow> js_trim x)"

definition read_leg :: "spread_leg_input \<Rightarrow> reject_code + spread_leg" where
  "read_leg leg =
     (let symbol = trim_or_empty (li_symbol leg); side = trim_or_empty (li_side leg) in
      if symbol = [] \<or> length symbol > MAX_ID then Inl (spread_code ''spread_leg_symbol_missing'')
      else if side \<noteq> ''buy'' \<and> side \<noteq> ''sell'' then Inl (spread_code ''spread_leg_side_missing'')
      else case readPositive (li_ratio leg) of
        None \<Rightarrow> Inl (spread_code ''spread_ratio_missing'')
      | Some ratio \<Rightarrow> Inr \<lparr>sl_symbol = symbol, sl_side = (if side = ''buy'' then BuySide else SellSide), sl_ratio = ratio\<rparr>)"

definition check_legs :: "string \<Rightarrow> spread_kind \<Rightarrow> spread_leg \<Rightarrow> spread_leg \<Rightarrow> reject_code option" where
  "check_legs spreadId kind anchor residual =
     refuse_if (sl_symbol anchor = sl_symbol residual
       \<or> sl_symbol anchor = spreadId \<or> sl_symbol residual = spreadId
       \<or> sl_side anchor = sl_side residual
       \<or> kind = Calendar \<and> sl_ratio anchor \<noteq> sl_ratio residual) (spread_code ''spread_legs_invalid'')"

definition readSpreadListing :: "spread_listing_input \<Rightarrow> reject_code + spread_instrument" where
  "readSpreadListing input =
     (let spreadId = trim_or_empty (si_spreadId input) in
      if spreadId = [] \<or> length spreadId > MAX_ID then Inl (spread_code ''spread_id_missing'')
      else case map_of SPREAD_KINDS (trim_or_empty (si_kind input)) of
        None \<Rightarrow> Inl (spread_code ''spread_kind_unsupported'')
      | Some kind \<Rightarrow>
      (case si_legs input of
        None \<Rightarrow> Inl (spread_code ''spread_legs_invalid'')
      | Some rawLegs \<Rightarrow>
        if length rawLegs \<noteq> SPREAD_LEG_COUNT then Inl (spread_code ''spread_legs_invalid'')
        else bindE (mapE read_leg rawLegs) (\<lambda>legs.
          let anchor = legs ! 0; residual = legs ! 1 in
          case check_legs spreadId kind anchor residual of
            Some code \<Rightarrow> Inl code
          | None \<Rightarrow>
          (case readPositive (si_tick input) of
            None \<Rightarrow> Inl (spread_code ''spread_tick_missing'')
          | Some tick \<Rightarrow>
          (case readPositive (si_lot input) of
            None \<Rightarrow> Inl (spread_code ''spread_lot_missing'')
          | Some lot \<Rightarrow>
            if list_ex (\<lambda>leg. mulExact lot (sl_ratio leg) = None) legs then Inl (spread_code ''spread_size_inexact'')
            else if divExact tick (sl_ratio residual) = None then Inl (spread_code ''spread_size_inexact'')
            else Inr \<lparr>sp_spreadId = spreadId, sp_kind = kind, sp_legs = legs, sp_tick = tick, sp_lot = lot\<rparr>)))))"

section \<open>Wire form\<close>

record wire_leg =
  wl_symbol :: string
  wl_side :: order_side
  wl_ratio :: string

record wire_spread =
  ws_spreadId :: string
  ws_kind :: spread_kind
  ws_legs :: "wire_leg list"
  ws_tick :: string
  ws_lot :: string

definition toWireSpread :: "spread_instrument \<Rightarrow> wire_spread" where
  "toWireSpread inst = \<lparr>ws_spreadId = sp_spreadId inst, ws_kind = sp_kind inst,
     ws_legs = map (\<lambda>leg. \<lparr>wl_symbol = sl_symbol leg, wl_side = sl_side leg, wl_ratio = formatAmount (sl_ratio leg)\<rparr>) (sp_legs inst),
     ws_tick = formatAmount (sp_tick inst), ws_lot = formatAmount (sp_lot inst)\<rparr>"

definition fromWireLeg :: "wire_leg \<Rightarrow> money_error + spread_leg" where
  "fromWireLeg leg = bindE (parse_text (wl_ratio leg)) (\<lambda>ratio. Inr \<lparr>sl_symbol = wl_symbol leg, sl_side = wl_side leg, sl_ratio = ratio\<rparr>)"

definition fromWireSpread :: "wire_spread \<Rightarrow> money_error + spread_instrument" where
  "fromWireSpread wire =
     bindE (mapE fromWireLeg (ws_legs wire)) (\<lambda>legs. bindE (parse_text (ws_tick wire)) (\<lambda>tick. bindE (parse_text (ws_lot wire)) (\<lambda>lot.
       Inr \<lparr>sp_spreadId = ws_spreadId wire, sp_kind = ws_kind wire, sp_legs = legs, sp_tick = tick, sp_lot = lot\<rparr>)))"

section \<open>Leg prices\<close>

definition spreadReferenceRefuse :: "spread_instrument \<Rightarrow> amount option \<Rightarrow> reject_code option" where
  "spreadReferenceRefuse inst reference =
     (case reference of
        None \<Rightarrow> Some (spread_code ''spread_reference_missing'')
      | Some r \<Rightarrow>
          if r \<le> 0 then Some (spread_code ''spread_reference_missing'')
          else case mulExact (sl_ratio (sp_legs inst ! 0)) r of
            None \<Rightarrow> Some (spread_code ''spread_reference_missing'')
          | Some term' \<Rightarrow>
              refuse_if (divExact term' (sl_ratio (sp_legs inst ! 1)) = None) (spread_code ''spread_reference_missing''))"

definition spreadLegPrices :: "spread_instrument \<Rightarrow> amount \<Rightarrow> amount \<Rightarrow> reject_code + amount \<times> amount" where
  "spreadLegPrices inst reference spreadPrice =
     (let anchor = sp_legs inst ! 0; residual = sp_legs inst ! 1; refused = Inl (spread_code ''spread_leg_unfillable'') in
      case mulExact (sl_ratio anchor) reference of
        None \<Rightarrow> refused
      | Some anchorTerm \<Rightarrow>
      (case divExact (spreadPrice - sign (sl_side anchor) * anchorTerm) (sign (sl_side residual) * sl_ratio residual) of
        None \<Rightarrow> refused
      | Some residualPrice \<Rightarrow>
        if residualPrice \<le> 0 then refused
        else case mulExact (sl_ratio residual) residualPrice of
          None \<Rightarrow> refused
        | Some residualTerm \<Rightarrow>
            if sign (sl_side anchor) * anchorTerm + sign (sl_side residual) * residualTerm \<noteq> spreadPrice then refused
            else Inr (reference, residualPrice)))"

definition leg_fill :: "order_side \<Rightarrow> amount \<Rightarrow> spread_leg \<times> amount \<Rightarrow> reject_code + spread_leg_fill" where
  "leg_fill takerSide qty lp =
     (case mulExact qty (sl_ratio (fst lp)) of
        None \<Rightarrow> Inl (spread_code ''spread_leg_unfillable'')
      | Some legQty \<Rightarrow>
          if legQty \<le> 0 then Inl (spread_code ''spread_leg_unfillable'')
          else Inr \<lparr>lf_symbol = sl_symbol (fst lp),
            lf_takerSide = (if takerSide = BuySide then sl_side (fst lp) else opposite (sl_side (fst lp))),
            lf_qty = legQty, lf_price = snd lp\<rparr>)"

definition spreadLegFills :: "spread_instrument \<Rightarrow> amount \<Rightarrow> amount \<Rightarrow> amount \<Rightarrow> order_side \<Rightarrow> reject_code + spread_leg_fill list" where
  "spreadLegFills inst reference spreadPrice qty takerSide =
     bindE (spreadLegPrices inst reference spreadPrice) (\<lambda>prices.
       mapE (leg_fill takerSide qty) (zip (sp_legs inst) [fst prices, snd prices]))"

section \<open>What a listing guarantees\<close>

lemma SCALE_nonzero [simp]: "SCALE \<noteq> 0"
  by (rule less_imp_neq [OF SCALE_pos, symmetric])

lemma mulExact_eq_None: "mulExact a b = None \<longleftrightarrow> \<not> (SCALE dvd a * b \<and> fits (a * b div SCALE))"
  by (auto simp: mulExact_def Let_def dvd_eq_mod_eq_0)

lemma mulExact_eq_Some: "mulExact a b = Some v \<longleftrightarrow> a * b = v * SCALE \<and> fits v"
  by (auto simp: mulExact_def Let_def dvd_eq_mod_eq_0 [symmetric])

lemma divExact_eq_Some: "divExact a b = Some v \<longleftrightarrow> b \<noteq> 0 \<and> a * SCALE = v * b \<and> fits v"
  by (auto simp: divExact_def Let_def dvd_eq_mod_eq_0 [symmetric])

lemma readPositive_pos: "readPositive raw = Some v \<Longrightarrow> 0 < v"
  by (auto simp: readPositive_def split: option.splits if_splits sum.splits)

lemma read_leg_pos: "read_leg leg = Inr l \<Longrightarrow> 0 < sl_ratio l"
  by (auto simp: read_leg_def Let_def readPositive_pos split: if_splits option.splits)

text \<open>The facts of a listing that the pricing of its orders rests on.\<close>

definition sound_listing :: "spread_instrument \<Rightarrow> spread_leg \<Rightarrow> spread_leg \<Rightarrow> bool" where
  "sound_listing inst a r \<longleftrightarrow> sp_legs inst = [a, r] \<and> 0 < sl_ratio a \<and> 0 < sl_ratio r \<and> sl_side a \<noteq> sl_side r
     \<and> sl_ratio r dvd sp_tick inst * SCALE \<and> SCALE dvd sp_lot inst * sl_ratio a \<and> SCALE dvd sp_lot inst * sl_ratio r"

lemma mapE_two: "mapE f xs = Inr ys \<Longrightarrow> length xs = 2 \<Longrightarrow> \<exists>x y x' y'. xs = [x, y] \<and> ys = [x', y'] \<and> f x = Inr x' \<and> f y = Inr y'"
  by (auto simp: length_Suc_conv numeral_2_eq_2)

lemma listing_sound:
  assumes "readSpreadListing input = Inr inst"
  obtains a r where "sound_listing inst a r"
proof -
  obtain legs raw tick lot kind where l: "si_legs input = Some raw" "length raw = 2" "mapE read_leg raw = Inr legs"
    "check_legs (trim_or_empty (si_spreadId input)) kind (legs ! 0) (legs ! 1) = None"
    "\<not> list_ex (\<lambda>leg. mulExact lot (sl_ratio leg) = None) legs" "divExact tick (sl_ratio (legs ! 1)) \<noteq> None"
    "sp_legs inst = legs" "sp_tick inst = tick" "sp_lot inst = lot"
    using assms by (fastforce simp: readSpreadListing_def Let_def SPREAD_LEG_COUNT_def split: if_splits option.splits)
  obtain x y a r where m: "legs = [a, r]" "read_leg x = Inr a" "read_leg y = Inr r"
    using mapE_two [OF l(3,2)] by blast
  obtain v where v: "tick * SCALE = v * sl_ratio r" using l(6) m(1) divExact_eq_Some by auto
  have "sound_listing inst a r"
    using l(4,5,7-9) m v read_leg_pos [OF m(2)] read_leg_pos [OF m(3)]
    by (auto simp: sound_listing_def check_legs_def mulExact_eq_None)
  then show ?thesis by (rule that)
qed

lemma exact_qty:
  assumes "SCALE dvd lot * ratio" "q mod lot = 0" "0 < q" "0 < ratio"
  shows "SCALE dvd q * ratio" "0 < q * ratio div SCALE"
proof -
  obtain k where k: "q = lot * k" using assms(2) by (auto simp: mod_eq_0_iff_dvd)
  have "q * ratio = (lot * ratio) * k" by (simp add: k mult_ac)
  then show d: "SCALE dvd q * ratio" using assms(1) dvd_mult2 by metis
  have "0 < q * ratio" using assms(3,4) by simp
  then show "0 < q * ratio div SCALE" using d SCALE_pos by (metis dvd_div_mult_self zero_less_mult_pos2)
qed

lemma leg_fill_exact:
  assumes "SCALE dvd q * sl_ratio l" "0 < q * sl_ratio l div SCALE"
  shows "leg_fill side q (l, p) = (if fits (q * sl_ratio l div SCALE)
    then Inr \<lparr>lf_symbol = sl_symbol l, lf_takerSide = (if side = BuySide then sl_side l else opposite (sl_side l)),
      lf_qty = q * sl_ratio l div SCALE, lf_price = p\<rparr> else Inl (spread_code ''spread_leg_unfillable''))"
  using assms by (simp add: leg_fill_def mulExact_def Let_def)

text \<open>The amount the residual leg has to contribute, and the price that contributes it.\<close>

definition anchor_term :: "spread_leg \<Rightarrow> amount \<Rightarrow> amount" where
  "anchor_term a reference = sl_ratio a * reference div SCALE"

definition residual_term :: "spread_leg \<Rightarrow> spread_leg \<Rightarrow> amount \<Rightarrow> amount \<Rightarrow> amount" where
  "residual_term a r reference S = sign (sl_side r) * (S - sign (sl_side a) * anchor_term a reference)"

definition residual_price :: "spread_leg \<Rightarrow> spread_leg \<Rightarrow> amount \<Rightarrow> amount \<Rightarrow> amount" where
  "residual_price a r reference S = residual_term a r reference S * SCALE div sl_ratio r"

lemma sign_square [simp]: "sign s * (sign s * x) = x"
  by (simp add: sign_def)

lemma reference_exact:
  assumes "sound_listing inst a r" "spreadReferenceRefuse inst (Some R) = None"
  shows "0 < R" "sl_ratio a * R = anchor_term a R * SCALE" "fits (anchor_term a R)" "sl_ratio r dvd anchor_term a R * SCALE"
proof -
  obtain t where t: "0 < R" "mulExact (sl_ratio a) R = Some t" "divExact t (sl_ratio r) \<noteq> None"
    using assms by (auto simp: spreadReferenceRefuse_def sound_listing_def split: if_splits option.splits)
  have "anchor_term a R = t" using t(2) by (simp add: anchor_term_def mulExact_eq_Some)
  then show "0 < R" "sl_ratio a * R = anchor_term a R * SCALE" "fits (anchor_term a R)" "sl_ratio r dvd anchor_term a R * SCALE"
    using t by (auto simp: mulExact_eq_Some divExact_eq_Some)
qed

lemma residual_exact:
  assumes "sound_listing inst a r" "spreadReferenceRefuse inst (Some R) = None" "S mod sp_tick inst = 0"
  shows "residual_price a r R S * sl_ratio r = residual_term a r R S * SCALE"
    and "sign (sl_side a) * anchor_term a R + sign (sl_side r) * residual_term a r R S = S"
proof -
  obtain k where k: "S = sp_tick inst * k" using assms(3) by (auto simp: mod_eq_0_iff_dvd)
  have "S * SCALE = sp_tick inst * SCALE * k" by (simp add: k mult_ac)
  then have "sl_ratio r dvd S * SCALE" using assms(1) dvd_mult2 unfolding sound_listing_def by metis
  then have "sl_ratio r dvd S * SCALE - sign (sl_side a) * (anchor_term a R * SCALE)"
    using reference_exact(4) [OF assms(1,2)] by (simp add: dvd_diff)
  then have "sl_ratio r dvd residual_term a r R S * SCALE"
    unfolding residual_term_def mult.assoc by (metis dvd_mult left_diff_distrib mult.assoc)
  then show "residual_price a r R S * sl_ratio r = residual_term a r R S * SCALE" by (simp add: residual_price_def)
  show "sign (sl_side a) * anchor_term a R + sign (sl_side r) * residual_term a r R S = S" by (simp add: residual_term_def)
qed

lemma fits_uminus: "fits (- x) \<longleftrightarrow> fits x"
  by simp

text \<open>Pricing without its divisions.\<close>

lemma leg_prices_exact:
  assumes "sound_listing inst a r" "spreadReferenceRefuse inst (Some R) = None" "S mod sp_tick inst = 0"
  shows "spreadLegPrices inst R S =
    (if 0 < residual_term a r R S \<and> fits (residual_term a r R S) \<and> fits (residual_price a r R S) then Inr (R, residual_price a r R S)
     else Inl (spread_code ''spread_leg_unfillable''))"
proof -
  let ?T = "anchor_term a R" and ?U = "residual_term a r R S" and ?P = "residual_price a r R S"
  have legs: "sp_legs inst = [a, r]" and r: "0 < sl_ratio r" using assms(1) by (auto simp: sound_listing_def)
  note P = residual_exact [OF assms]
  have T: "mulExact (sl_ratio a) R = Some ?T" using reference_exact [OF assms(1,2)] by (simp add: mulExact_eq_Some)
  have num: "(S - sign (sl_side a) * ?T) * SCALE = ?P * (sign (sl_side r) * sl_ratio r)"
    using P(1) by (auto simp: residual_term_def sign_def algebra_simps)
  have nz: "sign (sl_side r) * sl_ratio r \<noteq> 0" using r by (simp add: sign_def)
  have D: "divExact (S - sign (sl_side a) * ?T) (sign (sl_side r) * sl_ratio r) = (if fits ?P then Some ?P else None)"
  proof -
    have "divExact (S - sign (sl_side a) * ?T) (sign (sl_side r) * sl_ratio r) = Some v \<longleftrightarrow> v = ?P \<and> fits ?P" for v
      unfolding divExact_eq_Some num using nz by auto
    then show ?thesis by (metis not_None_eq)
  qed
  have M: "mulExact (sl_ratio r) ?P = (if fits ?U then Some ?U else None)"
  proof -
    have "mulExact (sl_ratio r) ?P = Some v \<longleftrightarrow> v = ?U \<and> fits ?U" for v
      unfolding mulExact_eq_Some using P(1) by (auto simp: mult.commute [of "sl_ratio r"])
    then show ?thesis by (metis not_None_eq)
  qed
  have pos: "?P \<le> 0 \<longleftrightarrow> \<not> 0 < ?U"
    using P(1) r SCALE_pos by (metis mult_pos_pos not_le zero_less_mult_pos2)
  show ?thesis
    using P(2) by (cases "fits ?P"; cases "fits ?U"; cases "0 < ?U") (simp_all only: spreadLegPrices_def Let_def legs T D M pos option.case if_True if_False nth_Cons_0 nth_Cons_Suc
        One_nat_def simp_thms if_cancel split: if_split)
qed

text \<open>C20. The leg-price rule never rounds. For a listing that was read, an anchor reference that was admitted, a
  spread price on the tick and a quantity on the lot: the anchor term, the residual price and both leg
  quantities are exact at 18 decimals, the two terms add up to the spread price, and the fill is
  priced exactly when the residual term is positive and the numbers fit the column.\<close>

theorem spread_fill_exact:
  assumes "readSpreadListing input = Inr inst" "spreadReferenceRefuse inst (Some R) = None"
    and "S mod sp_tick inst = 0" "q mod sp_lot inst = 0" "0 < q"
  shows "\<exists>a r. sp_legs inst = [a, r] \<and> sl_ratio a * R = anchor_term a R * SCALE
    \<and> residual_price a r R S * sl_ratio r = residual_term a r R S * SCALE
    \<and> sign (sl_side a) * anchor_term a R + sign (sl_side r) * residual_term a r R S = S
    \<and> SCALE dvd q * sl_ratio a \<and> SCALE dvd q * sl_ratio r
    \<and> spreadLegFills inst R S q side =
        (if 0 < residual_term a r R S \<and> fits (residual_term a r R S) \<and> fits (residual_price a r R S)
            \<and> fits (q * sl_ratio a div SCALE) \<and> fits (q * sl_ratio r div SCALE)
         then Inr [\<lparr>lf_symbol = sl_symbol a, lf_takerSide = (if side = BuySide then sl_side a else opposite (sl_side a)),
                lf_qty = q * sl_ratio a div SCALE, lf_price = R\<rparr>,
              \<lparr>lf_symbol = sl_symbol r, lf_takerSide = (if side = BuySide then sl_side r else opposite (sl_side r)),
                lf_qty = q * sl_ratio r div SCALE, lf_price = residual_price a r R S\<rparr>]
         else Inl (spread_code ''spread_leg_unfillable''))"
proof -
  obtain a r where ok: "sound_listing inst a r" using listing_sound [OF assms(1)] .
  then have s: "sp_legs inst = [a, r]" "0 < sl_ratio a" "0 < sl_ratio r" "SCALE dvd sp_lot inst * sl_ratio a" "SCALE dvd sp_lot inst * sl_ratio r"
    by (simp_all add: sound_listing_def)
  note qa = exact_qty [OF s(4) assms(4,5) s(2)] and qr = exact_qty [OF s(5) assms(4,5) s(3)]
  note P = residual_exact [OF ok assms(2,3)] and T = reference_exact(2) [OF ok assms(2)]
  have eq: "spreadLegFills inst R S q side = bindE (spreadLegPrices inst R S) (\<lambda>p. mapE (leg_fill side q) [(a, fst p), (r, snd p)])"
    by (simp add: spreadLegFills_def s(1))
  show ?thesis
    by (rule exI [of _ a], rule exI [of _ r], intro conjI, use s(1) P T qa(1) qr(1) in \<open>simp_all only:\<close>,
        cases "0 < residual_term a r R S \<and> fits (residual_term a r R S) \<and> fits (residual_price a r R S)";
        cases "fits (q * sl_ratio a div SCALE)"; cases "fits (q * sl_ratio r div SCALE)")
      (simp_all only: eq leg_prices_exact [OF ok assms(2,3)] leg_fill_exact [OF qa] leg_fill_exact [OF qr] mapE.simps bindE.simps fst_conv snd_conv
        if_True if_False simp_thms)
qed

definition demo_listing :: spread_listing_input where
  "demo_listing = \<lparr>si_spreadId = Some ''ETH2-BTC'', si_kind = Some ''inter_coin'',
     si_legs = Some [\<lparr>li_symbol = Some ''ETH'', li_side = Some ''buy'', li_ratio = Some ''2''\<rparr>,
       \<lparr>li_symbol = Some ''BTC'', li_side = Some ''sell'', li_ratio = Some ''1''\<rparr>],
     si_tick = Some ''1'', si_lot = Some ''1''\<rparr>"

definition demo_spread :: spread_instrument where
  "demo_spread = \<lparr>sp_spreadId = ''ETH2-BTC'', sp_kind = InterCoin,
     sp_legs = [\<lparr>sl_symbol = ''ETH'', sl_side = BuySide, sl_ratio = 2000000000000000000\<rparr>,
       \<lparr>sl_symbol = ''BTC'', sl_side = SellSide, sl_ratio = 1000000000000000000\<rparr>],
     sp_tick = 1000000000000000000, sp_lot = 1000000000000000000\<rparr>"

lemma SCALE_number: "SCALE = 1000000000000000000"
  by (simp add: SCALE_def DECIMALS_def)

lemma demo_listing_read: "readSpreadListing demo_listing = Inr demo_spread"
proof -
  have "readPositive (Some ''2'') = Some 2000000000000000000" "readPositive (Some ''1'') = Some 1000000000000000000"
    "js_trim ''ETH2-BTC'' = ''ETH2-BTC''" "js_trim ''inter_coin'' = ''inter_coin''" "js_trim ''ETH'' = ''ETH''" "js_trim ''BTC'' = ''BTC''"
    "js_trim ''buy'' = ''buy''" "js_trim ''sell'' = ''sell''"
    by code_simp+
  then show ?thesis
    by (simp add: readSpreadListing_def demo_listing_def demo_spread_def trim_or_empty_def SPREAD_KINDS_def SPREAD_LEG_COUNT_def MAX_ID_def
        read_leg_def check_legs_def refuse_if_def Let_def mulExact_def divExact_def SCALE_number MAX_AMOUNT_def)
qed

theorem spread_fill_exact_witness:
  "\<exists>a r. sp_legs demo_spread = [a, r] \<and> residual_price a r (3000 * SCALE) (- 500 * SCALE) = 6500 * SCALE"
proof -
  have "spreadReferenceRefuse demo_spread (Some (3000 * SCALE)) = None"
    "(- 500 * SCALE) mod sp_tick demo_spread = 0" "(2 * SCALE) mod sp_lot demo_spread = 0" "0 < 2 * SCALE"
    by (simp_all add: spreadReferenceRefuse_def refuse_if_def demo_spread_def mulExact_def divExact_def SCALE_number MAX_AMOUNT_def)
  then obtain a r where "sp_legs demo_spread = [a, r]" "residual_price a r (3000 * SCALE) (- 500 * SCALE) * sl_ratio r
      = residual_term a r (3000 * SCALE) (- 500 * SCALE) * SCALE"
    using spread_fill_exact [OF demo_listing_read, of "3000 * SCALE" "- 500 * SCALE" "2 * SCALE" BuySide] by metis
  then show ?thesis by (auto simp: demo_spread_def residual_term_def anchor_term_def sign_def SCALE_number)
qed

end
