(* ===== verification/Engine_Wire.thy ===== *)
theory Engine_Wire
  imports Engine_Trail Spread_Instrument
begin

text \<open>
  Orders and amendments in the journal: \<^verbatim>\<open>journal-wire.ts\<close> and \<^verbatim>\<open>journal-persist.ts\<close>. Amounts are
  decimal strings on disk. An order that is read back is the order that was written, in the normal
  form of its optional fields.
\<close>

section \<open>Orders as the engine receives them\<close>

text \<open>A field of a JavaScript object: absent, null, or a value.\<close>

datatype 'a field = Undefined | Null | Value 'a

record combo_leg =
  cl_name :: "string option"
  cl_ratio :: "amount option"
  cl_strike :: "amount option"
  cl_expiry :: "string option"

text \<open>The fields of \<open>EngineOrder\<close> that the core book does not read: bracket and pair terms, option and combo
  terms, the spread listing, and the client identity. The admission proof is left out; replay never
  reads it.\<close>

record full_order = trail_order +
  x_bracket :: "bool option"
  x_oco :: bool
  x_takeProfit :: "amount field"
  x_stopLoss :: "amount field"
  x_stopLossLimit :: "amount field"
  x_takeProfitOrderId :: "string field"
  x_stopLossOrderId :: "string field"
  x_clientOrderId :: "string option"
  x_environment :: "string option"
  x_strike :: "amount field"
  x_expiry :: "string field"
  x_exercise :: bool
  x_combo :: "bool option"
  x_legs :: "combo_leg list field"
  x_spread :: "spread_terms option"

record wire_combo_leg =
  wc_name :: "string option"
  wc_ratio :: "string option"
  wc_strike :: "string option"
  wc_expiry :: "string option"

record wire_terms =
  wt_instrument :: wire_spread
  wt_anchorReference :: "string option"

text \<open>\<open>None\<close> is an absent field; where an absent and a null field differ, the type is \<open>field\<close>.\<close>

record wire_order =
  w_orderId :: string
  w_accountId :: string
  w_type :: order_type
  w_side :: order_side
  w_qty :: string
  w_price :: "string option"
  w_stopPrice :: "string option"
  w_tif :: time_in_force
  w_triggerRole :: "trigger_role option"
  w_triggerBy :: "trigger_by option"
  w_instrument :: "instrument_kind option"
  w_positionQty :: "string option"
  w_ocoSiblingId :: "string option"
  w_bracket :: "bool option"
  w_oco :: bool
  w_takeProfit :: "string field"
  w_stopLoss :: "string field"
  w_stopLossLimit :: "string field"
  w_takeProfitOrderId :: "string field"
  w_stopLossOrderId :: "string field"
  w_expireAt :: "string option"
  w_sessionId :: "string option"
  w_clientOrderId :: "string option"
  w_environment :: "string option"
  w_reduceOnly :: bool
  w_iceberg :: bool
  w_displayQty :: "string option option"
  w_trail :: "string field"
  w_mark :: "string option"
  w_strike :: "string field"
  w_expiry :: "string field"
  w_exercise :: bool
  w_minQty :: "string option"
  w_aon :: bool
  w_peg :: bool
  w_midpoint :: bool
  w_relative :: bool
  w_reference :: "string option"
  w_offset :: "string option"
  w_auction :: bool
  w_benchmark :: bool
  w_collar :: bool
  w_min :: "string option"
  w_max :: "string option"
  w_minNotional :: "string option"
  w_combo :: "bool option"
  w_legs :: "wire_combo_leg list field"
  w_spread :: "wire_terms option"

record wire_amend =
  wa_qty :: "string option"
  wa_price :: "string option"
  wa_stopPrice :: "string option"
  wa_tif :: "time_in_force option"
  wa_expireAt :: "string option"

section \<open>Writing\<close>

definition persistIceberg :: "bool \<Rightarrow> 'a option option \<Rightarrow> bool" where
  "persistIceberg iceberg displayQty \<longleftrightarrow> iceberg \<or> displayQty \<noteq> None"

definition persistTrail :: "'a field \<Rightarrow> bool" where
  "persistTrail trail \<longleftrightarrow> trail \<noteq> Undefined"

definition trail_field :: "full_order \<Rightarrow> amount field" where
  "trail_field order = (case o_trail order of Some t \<Rightarrow> Value t | None \<Rightarrow> if o_trailNull order then Null else Undefined)"

definition toWireLegs :: "combo_leg list field \<Rightarrow> wire_combo_leg list field" where
  "toWireLegs legs = map_field (map (\<lambda>leg. \<lparr>wc_name = cl_name leg, wc_ratio = map_option formatAmount (cl_ratio leg),
     wc_strike = map_option formatAmount (cl_strike leg), wc_expiry = cl_expiry leg\<rparr>)) legs"

definition toWireSpreadTerms :: "spread_terms \<Rightarrow> wire_terms" where
  "toWireSpreadTerms terms = \<lparr>wt_instrument = toWireSpread (sm_instrument terms),
     wt_anchorReference = map_option formatAmount (sm_anchorReference terms)\<rparr>"

definition named_role :: "trigger_role option \<Rightarrow> trigger_role option" where
  "named_role role = (if role = Some TakeProfit \<or> role = Some StopLoss then role else None)"

definition toWire :: "full_order \<Rightarrow> wire_order" where
  "toWire order = \<lparr>w_orderId = o_orderId order, w_accountId = o_accountId order, w_type = o_type order, w_side = o_side order,
     w_qty = formatAmount (o_qty order), w_price = map_option formatAmount (o_price order),
     w_stopPrice = map_option formatAmount (o_stopPrice order), w_tif = o_tif order,
     w_triggerRole = named_role (o_triggerRole order), w_triggerBy = o_triggerBy order, w_instrument = o_instrument order,
     w_positionQty = map_option formatAmount (o_positionQty order), w_ocoSiblingId = present (o_ocoSiblingId order),
     w_bracket = x_bracket order, w_oco = x_oco order, w_takeProfit = map_field formatAmount (x_takeProfit order),
     w_stopLoss = map_field formatAmount (x_stopLoss order), w_stopLossLimit = map_field formatAmount (x_stopLossLimit order),
     w_takeProfitOrderId = x_takeProfitOrderId order, w_stopLossOrderId = x_stopLossOrderId order,
     w_expireAt = present (o_expireAt order), w_sessionId = present (o_sessionId order),
     w_clientOrderId = present (x_clientOrderId order), w_environment = present (x_environment order), w_reduceOnly = o_reduceOnly order,
     w_iceberg = persistIceberg (o_iceberg order) (o_displayQty order),
     w_displayQty = (if persistIceberg (o_iceberg order) (o_displayQty order)
       then Some (map_option formatAmount (Option.bind (o_displayQty order) (\<lambda>d. d))) else None),
     w_trail = map_field formatAmount (trail_field order),
     w_mark = (if persistTrail (trail_field order) then map_option formatAmount (o_mark order) else None),
     w_strike = map_field formatAmount (x_strike order), w_expiry = x_expiry order, w_exercise = x_exercise order,
     w_minQty = map_option formatAmount (o_minQty order), w_aon = o_aon order, w_peg = o_peg order, w_midpoint = o_midpoint order,
     w_relative = o_relative order, w_reference = map_option formatAmount (o_reference order), w_offset = map_option formatAmount (o_offset order),
     w_auction = o_auction order, w_benchmark = o_benchmark order, w_collar = o_collar order,
     w_min = map_option formatAmount (o_min order), w_max = map_option formatAmount (o_max order),
     w_minNotional = map_option formatAmount (o_minNotional order), w_combo = x_combo order, w_legs = toWireLegs (x_legs order),
     w_spread = map_option toWireSpreadTerms (x_spread order)\<rparr>"

definition toWireAmend :: "engine_amend \<Rightarrow> wire_amend" where
  "toWireAmend cmd = \<lparr>wa_qty = map_option formatAmount (a_qty cmd), wa_price = map_option formatAmount (a_price cmd),
     wa_stopPrice = map_option formatAmount (a_stopPrice cmd), wa_tif = a_tif cmd, wa_expireAt = a_expireAt cmd\<rparr>"

section \<open>Reading\<close>

definition parse_field :: "string field \<Rightarrow> money_error + amount field" where
  "parse_field f = (case f of Undefined \<Rightarrow> Inr Undefined | Null \<Rightarrow> Inr Null | Value s \<Rightarrow> bindE (parse_text s) (\<lambda>a. Inr (Value a)))"

definition fromWireLegs :: "wire_combo_leg list field \<Rightarrow> money_error + combo_leg list field" where
  "fromWireLegs legs =
     (case legs of Undefined \<Rightarrow> Inr Undefined | Null \<Rightarrow> Inr Null
      | Value ls \<Rightarrow> bindE (mapE (\<lambda>leg. bindE (parse_opt (wc_ratio leg)) (\<lambda>ratio. bindE (parse_opt (wc_strike leg)) (\<lambda>strike.
            Inr \<lparr>cl_name = wc_name leg, cl_ratio = ratio, cl_strike = strike, cl_expiry = wc_expiry leg\<rparr>))) ls) (\<lambda>xs. Inr (Value xs)))"

definition fromWireSpreadTerms :: "wire_terms option \<Rightarrow> money_error + spread_terms option" where
  "fromWireSpreadTerms terms =
     (case terms of None \<Rightarrow> Inr None
      | Some t \<Rightarrow> bindE (fromWireSpread (wt_instrument t)) (\<lambda>inst. bindE (parse_opt (wt_anchorReference t)) (\<lambda>ref.
          Inr (Some \<lparr>sm_instrument = inst, sm_anchorReference = ref\<rparr>))))"

definition field_opt :: "'a field \<Rightarrow> 'a option" where
  "field_opt f = (case f of Value a \<Rightarrow> Some a | _ \<Rightarrow> None)"

definition fromWire :: "wire_order \<Rightarrow> money_error + full_order" where
  "fromWire w =
     bindE (parse_text (w_qty w)) (\<lambda>qty. bindE (parse_opt (w_price w)) (\<lambda>price. bindE (parse_opt (w_stopPrice w)) (\<lambda>stopPrice.
     bindE (parse_opt (w_positionQty w)) (\<lambda>positionQty. bindE (parse_field (w_takeProfit w)) (\<lambda>takeProfit.
     bindE (parse_field (w_stopLoss w)) (\<lambda>stopLoss. bindE (parse_field (w_stopLossLimit w)) (\<lambda>stopLossLimit.
     bindE (if persistIceberg (w_iceberg w) (w_displayQty w) then parse_opt (Option.bind (w_displayQty w) (\<lambda>d. d)) else Inr None) (\<lambda>displayQty.
     bindE (parse_field (w_trail w)) (\<lambda>trail.
     bindE (if persistTrail (w_trail w) then parse_opt (w_mark w) else Inr None) (\<lambda>mark.
     bindE (parse_field (w_strike w)) (\<lambda>strike. bindE (parse_opt (w_minQty w)) (\<lambda>minQty. bindE (parse_opt (w_reference w)) (\<lambda>reference.
     bindE (parse_opt (w_offset w)) (\<lambda>offset. bindE (parse_opt (w_min w)) (\<lambda>mn. bindE (parse_opt (w_max w)) (\<lambda>mx.
     bindE (parse_opt (w_minNotional w)) (\<lambda>minNotional. bindE (fromWireLegs (w_legs w)) (\<lambda>legs. bindE (fromWireSpreadTerms (w_spread w)) (\<lambda>spread.
       Inr \<lparr>o_orderId = w_orderId w, o_accountId = w_accountId w, o_type = w_type w, o_side = w_side w, o_qty = qty, o_price = price,
         o_stopPrice = stopPrice, o_tif = w_tif w, o_sessionId = present (w_sessionId w), o_expireAt = present (w_expireAt w),
         o_ocoSiblingId = present (w_ocoSiblingId w), o_reduceOnly = w_reduceOnly w, o_triggerRole = named_role (w_triggerRole w),
         o_triggerBy = w_triggerBy w, o_instrument = w_instrument w, o_positionQty = positionQty,
         o_displayQty = (if persistIceberg (w_iceberg w) (w_displayQty w) then Some displayQty else None),
         o_iceberg = persistIceberg (w_iceberg w) (w_displayQty w), o_trail = field_opt trail, o_mark = mark, o_minQty = minQty, o_aon = w_aon w,
         o_peg = w_peg w, o_midpoint = w_midpoint w, o_relative = w_relative w, o_reference = reference, o_offset = offset,
         o_auction = w_auction w, o_benchmark = w_benchmark w, o_collar = w_collar w, o_min = mn, o_max = mx, o_minNotional = minNotional,
         o_spread = (w_spread w \<noteq> None), o_trailNull = (trail = Null), x_bracket = w_bracket w, x_oco = w_oco w, x_takeProfit = takeProfit,
         x_stopLoss = stopLoss, x_stopLossLimit = stopLossLimit, x_takeProfitOrderId = w_takeProfitOrderId w,
         x_stopLossOrderId = w_stopLossOrderId w, x_clientOrderId = present (w_clientOrderId w), x_environment = present (w_environment w),
         x_strike = strike, x_expiry = w_expiry w, x_exercise = w_exercise w, x_combo = w_combo w, x_legs = legs,
         x_spread = spread\<rparr>)))))))))))))))))))"

definition fromWireAmend :: "string \<Rightarrow> nat \<Rightarrow> wire_amend \<Rightarrow> money_error + engine_amend" where
  "fromWireAmend orderId expectedVersion patch =
     bindE (parse_opt (wa_qty patch)) (\<lambda>qty. bindE (parse_opt (wa_price patch)) (\<lambda>price. bindE (parse_opt (wa_stopPrice patch)) (\<lambda>stopPrice.
       Inr \<lparr>a_orderId = orderId, a_expectedVersion = expectedVersion, a_qty = qty, a_price = price, a_stopPrice = stopPrice,
         a_tif = wa_tif patch, a_expireAt = wa_expireAt patch\<rparr>)))"

section \<open>Reading what was written\<close>

abbreviation fits_field :: "amount field \<Rightarrow> bool" where
  "fits_field f \<equiv> fits_opt (field_opt f)"

definition leg_in_column :: "combo_leg \<Rightarrow> bool" where
  "leg_in_column leg \<longleftrightarrow> fits_opt (cl_ratio leg) \<and> fits_opt (cl_strike leg)"

definition terms_in_column :: "spread_terms \<Rightarrow> bool" where
  "terms_in_column t \<longleftrightarrow> fits (sp_tick (sm_instrument t)) \<and> fits (sp_lot (sm_instrument t))
     \<and> list_all (fits \<circ> sl_ratio) (sp_legs (sm_instrument t)) \<and> fits_opt (sm_anchorReference t)"

definition in_column :: "full_order \<Rightarrow> bool" where
  "in_column order \<longleftrightarrow> fits (o_qty order)
     \<and> list_all fits_opt [o_price order, o_stopPrice order, o_positionQty order, Option.bind (o_displayQty order) (\<lambda>d. d), o_trail order,
         o_mark order, o_minQty order, o_reference order, o_offset order, o_min order, o_max order, o_minNotional order]
     \<and> list_all fits_field [x_takeProfit order, x_stopLoss order, x_stopLossLimit order, x_strike order]
     \<and> list_all leg_in_column (case x_legs order of Value ls \<Rightarrow> ls | _ \<Rightarrow> [])
     \<and> list_all terms_in_column (case x_spread order of Some t \<Rightarrow> [t] | None \<Rightarrow> [])"

text \<open>The normal form of an order: empty strings are absent, only the two named roles are kept, an order
  with a display is an iceberg with a display or null, a mark is kept for a trailing stop only.\<close>

definition wire_form :: "full_order \<Rightarrow> full_order" where
  "wire_form order = order\<lparr>o_triggerRole := named_role (o_triggerRole order), o_ocoSiblingId := present (o_ocoSiblingId order),
     o_expireAt := present (o_expireAt order), o_sessionId := present (o_sessionId order),
     o_displayQty := (if persistIceberg (o_iceberg order) (o_displayQty order) then Some (Option.bind (o_displayQty order) (\<lambda>d. d)) else None),
     o_iceberg := persistIceberg (o_iceberg order) (o_displayQty order),
     o_mark := (if persistTrail (trail_field order) then o_mark order else None),
     o_trailNull := (o_trail order = None \<and> o_trailNull order), o_spread := (x_spread order \<noteq> None),
     x_clientOrderId := present (x_clientOrderId order), x_environment := present (x_environment order)\<rparr>"

lemma present_present [simp]: "present (present s) = present s"
  by (simp add: present_def)

lemma named_named [simp]: "named_role (named_role r) = named_role r"
  by (simp add: named_role_def)

lemma persist_simps [simp]:
  "persistIceberg True d" "persistIceberg c (Some d)" "persistIceberg c None \<longleftrightarrow> c"
  "persistTrail Null" "persistTrail (Value a)" "\<not> persistTrail Undefined"
  by (simp_all add: persistIceberg_def persistTrail_def)

lemma persistTrail_map [simp]: "persistTrail (map_field f x) \<longleftrightarrow> persistTrail x"
  by (cases x) simp_all

lemma parse_field_fits [simp]: "fits_field v \<Longrightarrow> parse_field (map_field formatAmount v) = Inr v"
  by (cases v) (simp_all add: parse_field_def field_opt_def)

lemma legs_round_trip:
  assumes "list_all leg_in_column (case legs of Value ls \<Rightarrow> ls | _ \<Rightarrow> [])"
  shows "fromWireLegs (toWireLegs legs) = Inr legs"
proof (cases legs)
  case (Value ls)
  have "mapE (\<lambda>leg. bindE (parse_opt (wc_ratio leg)) (\<lambda>ratio. bindE (parse_opt (wc_strike leg)) (\<lambda>strike.
      Inr \<lparr>cl_name = wc_name leg, cl_ratio = ratio, cl_strike = strike, cl_expiry = wc_expiry leg\<rparr>)))
      (map (\<lambda>leg. \<lparr>wc_name = cl_name leg, wc_ratio = map_option formatAmount (cl_ratio leg),
        wc_strike = map_option formatAmount (cl_strike leg), wc_expiry = cl_expiry leg\<rparr>) ls) = Inr (map (\<lambda>l. l) ls)"
    by (rule mapE_map_Inr) (use assms Value in \<open>auto simp: list_all_iff leg_in_column_def\<close>)
  then show ?thesis by (simp add: Value fromWireLegs_def toWireLegs_def)
qed (simp_all add: fromWireLegs_def toWireLegs_def)

lemma instrument_round_trip:
  assumes "fits (sp_tick inst)" "fits (sp_lot inst)" "list_all (fits \<circ> sl_ratio) (sp_legs inst)"
  shows "fromWireSpread (toWireSpread inst) = Inr inst"
proof -
  have "mapE fromWireLeg (map (\<lambda>leg. \<lparr>wl_symbol = sl_symbol leg, wl_side = sl_side leg, wl_ratio = formatAmount (sl_ratio leg)\<rparr>) (sp_legs inst))
      = Inr (map (\<lambda>l. l) (sp_legs inst))"
    by (rule mapE_map_Inr) (use assms(3) in \<open>auto simp: list_all_iff fromWireLeg_def\<close>)
  then show ?thesis using assms(1,2) by (simp add: fromWireSpread_def toWireSpread_def)
qed

lemma terms_round_trip:
  assumes "list_all terms_in_column (case t of Some x \<Rightarrow> [x] | None \<Rightarrow> [])"
  shows "fromWireSpreadTerms (map_option toWireSpreadTerms t) = Inr t"
  using assms
  by (cases t) (simp_all add: fromWireSpreadTerms_def toWireSpreadTerms_def terms_in_column_def instrument_round_trip)

lemma trail_field_simps:
  "field_opt (trail_field order) = o_trail order" "trail_field order = Null \<longleftrightarrow> o_trail order = None \<and> o_trailNull order"
  by (auto simp: field_opt_def trail_field_def split: option.splits)

lemma fromWire_toWire:
  assumes "in_column order"
  shows "fromWire (toWire order) = Inr (wire_form order)"
proof -
  note i = assms [unfolded in_column_def list.pred_inject]
  have d: "(if persistIceberg (w_iceberg (toWire order)) (w_displayQty (toWire order))
      then parse_opt (Option.bind (w_displayQty (toWire order)) (\<lambda>d. d)) else Inr None)
    = Inr (if persistIceberg (o_iceberg order) (o_displayQty order) then Option.bind (o_displayQty order) (\<lambda>d. d) else None)"
    "persistIceberg (w_iceberg (toWire order)) (w_displayQty (toWire order)) \<longleftrightarrow> persistIceberg (o_iceberg order) (o_displayQty order)"
    using i by (simp_all add: toWire_def)
  have m: "(if persistTrail (w_trail (toWire order)) then parse_opt (w_mark (toWire order)) else Inr None)
    = Inr (if persistTrail (trail_field order) then o_mark order else None)"
    using i by (simp add: toWire_def)
  have t: "parse_field (w_trail (toWire order)) = Inr (trail_field order)"
    using i by (simp add: toWire_def trail_field_simps)
  show ?thesis
    unfolding fromWire_def d m t
    using i by (cases order) (simp add: toWire_def legs_round_trip terms_round_trip wire_form_def trail_field_simps)
qed

text \<open>C16. An order that was written to the journal reads back as itself, in the normal form of its optional
  fields, whenever its amounts fit the column.\<close>

theorem wire_round_trip:
  assumes "in_column order"
  shows "fromWire (toWire order) = Inr (wire_form order)"
  using assms by (rule fromWire_toWire)

definition demo_order :: "engine_order \<Rightarrow> full_order" where
  "demo_order order = trail_order.extend (engine_order.extend order \<lparr>o_trailNull = False\<rparr>)
     \<lparr>x_bracket = None, x_oco = False, x_takeProfit = Undefined, x_stopLoss = Undefined, x_stopLossLimit = Undefined,
       x_takeProfitOrderId = Undefined, x_stopLossOrderId = Undefined, x_clientOrderId = None, x_environment = None,
       x_strike = Undefined, x_expiry = Undefined, x_exercise = False, x_combo = None, x_legs = Undefined, x_spread = None\<rparr>"

theorem wire_round_trip_witness:
  "fromWire (toWire (demo_order (demo_limit ''a1'' ''ann'' SellSide 5 101 GTC))) = Inr (demo_order (demo_limit ''a1'' ''ann'' SellSide 5 101 GTC))"
proof -
  have "in_column (demo_order (demo_limit ''a1'' ''ann'' SellSide 5 101 GTC))" by code_simp
  moreover have "wire_form (demo_order (demo_limit ''a1'' ''ann'' SellSide 5 101 GTC)) = demo_order (demo_limit ''a1'' ''ann'' SellSide 5 101 GTC)"
    by code_simp
  ultimately show ?thesis using wire_round_trip [of "demo_order (demo_limit ''a1'' ''ann'' SellSide 5 101 GTC)"] by simp
qed

definition amend_in_column :: "engine_amend \<Rightarrow> bool" where
  "amend_in_column cmd \<longleftrightarrow> fits_opt (a_qty cmd) \<and> fits_opt (a_price cmd) \<and> fits_opt (a_stopPrice cmd)"

lemma amend_round_trip: "amend_in_column cmd \<Longrightarrow> fromWireAmend (a_orderId cmd) (a_expectedVersion cmd) (toWireAmend cmd) = Inr cmd"
  by (simp add: fromWireAmend_def toWireAmend_def amend_in_column_def)

lemma order_round_trip: "in_column order \<Longrightarrow> wire_form order = order \<Longrightarrow> fromWire (toWire order) = Inr order"
  by (simp add: fromWire_toWire)

end
