(* ===== verification/Engine_Control.thy ===== *)
theory Engine_Control
  imports Engine_Wire
begin

text \<open>
  The journal records of \<^verbatim>\<open>journal-codec.ts\<close> and the control state that is rebuilt from them: halts, venue
  halts, maintenance, reduce-only, post-only, prelaunch, expiry and delisting of markets, split
  brain, dead sessions and in-flight marks. Every switch follows the same contract, which is stated
  once as a locale: the last record of a market decides.
\<close>

section \<open>Journal records\<close>

datatype control_kind =
    KHalt | KResume | KReduceOnly | KResumeReduceOnly | KPostOnly | KResumePostOnly | KPrelaunch | KOpen
  | KExpire | KDelist | KMaintenance | KEndMaintenance

datatype venue_kind = KHaltAll | KResumeAll | KSplitBrain | KClearSplitBrain

datatype ifm_mutation = AmendMutation | CancelMutation

datatype ifm_status = OpenStatus | UnknownStatus

text \<open>The operator records of one market share their fields and differ in their kind, as do those of the
  venue. The last field of an operator record is the confirming operator.\<close>

datatype journal_record =
    JSubmit string string wire_order
  | JCancel string string string "cancel_reason option"
  | JInFlight string string string ifm_mutation "string option"
  | JOpenSurveillance string string string string
  | JMassCancel string string string "order_side option"
  | JAmend string string string nat wire_amend
  | JMark string string string
  | JControl control_kind string string string "string option"
  | JVenue venue_kind string string "string option"
  | JSessionDead string string
  | JSpreadList string string string "string option" wire_spread

section \<open>Operators\<close>

definition readOperatorId :: "string option \<Rightarrow> string option" where
  "readOperatorId raw = (case raw of None \<Rightarrow> None | Some s \<Rightarrow> if js_trim s = [] then None else Some (js_trim s))"

definition readConfirmOperatorId :: "string option \<Rightarrow> string option" where
  "readConfirmOperatorId raw = (case raw of None \<Rightarrow> None | Some s \<Rightarrow> if js_trim s = [] then None else Some (js_trim s))"

definition operatorRefuse :: "string option \<Rightarrow> reject_code option" where
  "operatorRefuse operatorId = (if operatorId \<noteq> None then None else Some (OtherReject ''missing_operator''))"

definition dualControlRefuse :: "string option \<Rightarrow> string option \<Rightarrow> reject_code option" where
  "dualControlRefuse operatorId confirmOperatorId =
     (let actor = readOperatorId operatorId; confirm = readConfirmOperatorId confirmOperatorId in
      case operatorRefuse actor of
        Some code \<Rightarrow> Some code
      | None \<Rightarrow>
          if confirm = None then Some (OtherReject ''missing_operator'')
          else if confirm = actor then Some (OtherReject ''missing_operator'')
          else None)"

section \<open>Refusals\<close>

definition haltedSubmitResult :: submit_result where
  "haltedSubmitResult = rejected (OtherReject ''market_halted'')"

definition haltedAmendResult :: "string \<Rightarrow> amend_result" where
  "haltedAmendResult orderId = refusedAmend orderId (OtherReject ''market_halted'')"

definition venueHaltedSubmitResult :: submit_result where
  "venueHaltedSubmitResult = rejected (OtherReject ''venue_halted'')"

definition venueHaltedAmendResult :: "string \<Rightarrow> amend_result" where
  "venueHaltedAmendResult orderId = refusedAmend orderId (OtherReject ''venue_halted'')"

definition maintenanceRefuse :: reject_code where
  "maintenanceRefuse = OtherReject ''market_maintenance''"

definition maintenanceSubmitResult :: submit_result where
  "maintenanceSubmitResult = rejected maintenanceRefuse"

definition maintenanceAmendResult :: "string \<Rightarrow> amend_result" where
  "maintenanceAmendResult orderId = refusedAmend orderId maintenanceRefuse"

definition expiredSubmitResult :: submit_result where
  "expiredSubmitResult = rejected (OtherReject ''market_expired'')"

definition expiredAmendResult :: "string \<Rightarrow> amend_result" where
  "expiredAmendResult orderId = refusedAmend orderId (OtherReject ''market_expired'')"

definition delistedSubmitResult :: submit_result where
  "delistedSubmitResult = rejected (OtherReject ''market_delisted'')"

definition delistedAmendResult :: "string \<Rightarrow> amend_result" where
  "delistedAmendResult orderId = refusedAmend orderId (OtherReject ''market_delisted'')"

definition prelaunchSubmitResult :: submit_result where
  "prelaunchSubmitResult = rejected (OtherReject ''market_prelaunch'')"

definition prelaunchAmendResult :: "string \<Rightarrow> amend_result" where
  "prelaunchAmendResult orderId = refusedAmend orderId (OtherReject ''market_prelaunch'')"

definition splitBrainSubmitResult :: submit_result where
  "splitBrainSubmitResult = rejected (OtherReject ''split_brain'')"

definition splitBrainAmendResult :: "string \<Rightarrow> amend_result" where
  "splitBrainAmendResult orderId = refusedAmend orderId (OtherReject ''split_brain'')"

definition sessionGoneSubmitResult :: submit_result where
  "sessionGoneSubmitResult = rejected (OtherReject ''session_gone'')"

definition missingSessionRefuse :: reject_code where
  "missingSessionRefuse = OtherReject ''missing_session''"

definition massCancelSessionRefuse :: "string option \<Rightarrow> reject_code option" where
  "massCancelSessionRefuse sessionId = (if sessionId = None then None else Some (OtherReject ''session_unsupported''))"

section \<open>Reduce-only and post-only markets\<close>

definition wouldOpenOrIncrease :: "order_book option \<Rightarrow> string \<Rightarrow> order_side \<Rightarrow> amount \<Rightarrow> string \<Rightarrow> bool" where
  "wouldOpenOrIncrease book accountId side qty orderId =
     (case book of None \<Rightarrow> True | Some b \<Rightarrow> wouldIncreasePosition b accountId side qty (Some orderId))"

definition reduceOnlyMarketSubmitResult :: submit_result where
  "reduceOnlyMarketSubmitResult = rejected (OtherReject ''market_reduce_only'')"

definition reduceOnlyMarketAmendResult :: "string \<Rightarrow> amend_result" where
  "reduceOnlyMarketAmendResult orderId = refusedAmend orderId (OtherReject ''market_reduce_only'')"

definition isPostOnlySubmit :: "time_in_force \<Rightarrow> bool" where
  "isPostOnlySubmit tif \<longleftrightarrow> tif = PO"

definition postOnlyMarketSubmitResult :: submit_result where
  "postOnlyMarketSubmitResult = rejected (OtherReject ''market_post_only'')"

definition postOnlyMarketAmendResult :: "string \<Rightarrow> amend_result" where
  "postOnlyMarketAmendResult orderId = refusedAmend orderId (OtherReject ''market_post_only'')"

definition amendWouldTake :: "order_book \<Rightarrow> amend_target \<Rightarrow> engine_amend \<Rightarrow> bool" where
  "amendWouldTake b live cmd =
     (let price = (case a_price cmd of Some p \<Rightarrow> Some p | None \<Rightarrow> at_price live) in
      if \<not> at_stop live then (case price of None \<Rightarrow> False | Some p \<Rightarrow> wouldCross b (at_side live) p)
      else case (case a_stopPrice cmd of Some p \<Rightarrow> Some p | None \<Rightarrow> at_stopPrice live) of
        None \<Rightarrow> False
      | Some stopPrice \<Rightarrow>
          if \<not> stopWouldTrigger b (at_side live) stopPrice then False
          else (case price of None \<Rightarrow> True | Some p \<Rightarrow> wouldCross b (at_side live) p))"

definition postOnlyAmendRefusal :: "order_book option \<Rightarrow> engine_amend \<Rightarrow> amend_result option" where
  "postOnlyAmendRefusal book cmd =
     (case book of
        None \<Rightarrow> None
      | Some b \<Rightarrow>
          (case amendTarget b (a_orderId cmd) of
             None \<Rightarrow> None
           | Some live \<Rightarrow>
               (let tif = (case a_tif cmd of Some t \<Rightarrow> t | None \<Rightarrow> at_tif live) in
                if tif \<noteq> PO then Some (postOnlyMarketAmendResult (a_orderId cmd))
                else if amendWouldTake b live cmd then Some (postOnlyMarketAmendResult (a_orderId cmd))
                else None)))"

section \<open>Replaying control state\<close>

text \<open>One record on a set of markets: a record of the first kind adds its market, one of the second kind
  removes it.\<close>

definition switch :: "control_kind \<Rightarrow> control_kind option \<Rightarrow> string list \<Rightarrow> journal_record \<Rightarrow> string list" where
  "switch on off s r = (case r of JControl k m _ _ _ \<Rightarrow> if k = on then set_add m s else if off = Some k then removeAll m s else s | _ \<Rightarrow> s)"

definition replayHaltedMarkets :: "journal_record list \<Rightarrow> string list" where
  "replayHaltedMarkets records = foldl (switch KHalt (Some KResume)) [] records"

definition replayMaintenance :: "journal_record list \<Rightarrow> string list" where
  "replayMaintenance records = foldl (switch KMaintenance (Some KEndMaintenance)) [] records"

definition replayReduceOnlyMarkets :: "journal_record list \<Rightarrow> string list" where
  "replayReduceOnlyMarkets records = foldl (switch KReduceOnly (Some KResumeReduceOnly)) [] records"

definition replayPostOnlyMarkets :: "journal_record list \<Rightarrow> string list" where
  "replayPostOnlyMarkets records = foldl (switch KPostOnly (Some KResumePostOnly)) [] records"

definition replayPrelaunchMarkets :: "journal_record list \<Rightarrow> string list" where
  "replayPrelaunchMarkets records = foldl (switch KPrelaunch (Some KOpen)) [] records"

definition replayOpenedMarkets :: "journal_record list \<Rightarrow> string list" where
  "replayOpenedMarkets records = foldl (switch KOpen None) [] records"

definition replayExpiredMarkets :: "journal_record list \<Rightarrow> string list" where
  "replayExpiredMarkets records = foldl (switch KExpire None) [] records"

definition replayDelistedMarkets :: "journal_record list \<Rightarrow> string list" where
  "replayDelistedMarkets records = foldl (switch KDelist None) [] records"

definition venue_switch :: "venue_kind \<Rightarrow> venue_kind \<Rightarrow> bool \<Rightarrow> journal_record \<Rightarrow> bool" where
  "venue_switch on off s r = (case r of JVenue k _ _ _ \<Rightarrow> if k = on then True else if k = off then False else s | _ \<Rightarrow> s)"

definition replayVenueHalted :: "journal_record list \<Rightarrow> bool" where
  "replayVenueHalted records = foldl (venue_switch KHaltAll KResumeAll) False records"

definition replaySplitBrain :: "journal_record list \<Rightarrow> bool" where
  "replaySplitBrain records = foldl (venue_switch KSplitBrain KClearSplitBrain) False records"

definition note_dead :: "string list \<Rightarrow> journal_record \<Rightarrow> string list" where
  "note_dead dead r =
     (case r of
        JSessionDead _ sessionId \<Rightarrow> (case readSessionId (Some sessionId) of None \<Rightarrow> dead | Some s \<Rightarrow> set_add s dead)
      | _ \<Rightarrow> dead)"

definition replayDeadSessions :: "journal_record list \<Rightarrow> string list" where
  "replayDeadSessions records = foldl note_dead [] records"

section \<open>In-flight marks\<close>

record in_flight_mark =
  im_marketId :: string
  im_orderId :: string
  im_mutation :: ifm_mutation
  im_status :: ifm_status
  im_qty :: "amount option"

definition readIfmQty :: "amount option \<Rightarrow> amount option" where
  "readIfmQty qty = (case qty of None \<Rightarrow> None | Some q \<Rightarrow> if q \<le> 0 then None else Some q)"

definition parseIfmQty :: "string option \<Rightarrow> amount option" where
  "parseIfmQty qty = (case qty of None \<Rightarrow> None | Some s \<Rightarrow> (case parse_text s of Inl _ \<Rightarrow> None | Inr q \<Rightarrow> readIfmQty (Some q)))"

definition in_flight_code :: "bool \<Rightarrow> reject_code" where
  "in_flight_code unknown = OtherReject (if unknown then ''in_flight_unknown'' else ''in_flight'')"

definition inFlightSubmitResult :: "bool \<Rightarrow> submit_result" where
  "inFlightSubmitResult unknown = rejected (in_flight_code unknown)"

definition inFlightAmendResult :: "string \<Rightarrow> bool \<Rightarrow> amend_result" where
  "inFlightAmendResult orderId unknown = refusedAmend orderId (in_flight_code unknown)"

definition mark_in_flight :: "(string \<times> in_flight_mark) list \<Rightarrow> journal_record \<Rightarrow> (string \<times> in_flight_mark) list" where
  "mark_in_flight marks r =
     (case r of
        JInFlight marketId _ orderId mutation qty \<Rightarrow>
          AList.update orderId \<lparr>im_marketId = marketId, im_orderId = orderId, im_mutation = mutation, im_status = UnknownStatus,
            im_qty = parseIfmQty qty\<rparr> marks
      | JAmend _ _ orderId _ _ \<Rightarrow> AList.delete orderId marks
      | JCancel _ _ orderId _ \<Rightarrow> AList.delete orderId marks
      | _ \<Rightarrow> marks)"

definition replayInFlight :: "journal_record list \<Rightarrow> (string \<times> in_flight_mark) list" where
  "replayInFlight records = foldl mark_in_flight [] records"

section \<open>The last record decides\<close>

text \<open>The contract of a market switch: it starts empty, a record of its first kind adds a market, a
  record of its second kind removes it, and no other record touches it.\<close>

locale market_switch =
  fixes replayed :: "journal_record list \<Rightarrow> string list" and on :: control_kind and off :: "control_kind option"
  assumes starts_empty: "replayed [] = []"
    and adds: "m \<in> set (replayed (rs @ [JControl on x t p c])) \<longleftrightarrow> m = x \<or> m \<in> set (replayed rs)"
    and removes: "off = Some k \<Longrightarrow> m \<in> set (replayed (rs @ [JControl k x t p c])) \<longleftrightarrow> m \<noteq> x \<and> m \<in> set (replayed rs)"
    and skips: "(\<And>k x t p c. r = JControl k x t p c \<Longrightarrow> k \<noteq> on \<and> off \<noteq> Some k) \<Longrightarrow> set (replayed (rs @ [r])) = set (replayed rs)"
begin

definition turns_on :: "string \<Rightarrow> journal_record \<Rightarrow> bool" where
  "turns_on m r \<longleftrightarrow> (\<exists>t p c. r = JControl on m t p c)"

definition turns_off :: "string \<Rightarrow> journal_record \<Rightarrow> bool" where
  "turns_off m r \<longleftrightarrow> (\<exists>k t p c. off = Some k \<and> r = JControl k m t p c)"

lemma step: "m \<in> set (replayed (rs @ [r])) \<longleftrightarrow> turns_on m r \<or> \<not> turns_off m r \<and> m \<in> set (replayed rs)"
proof (cases "\<exists>k x t p c. r = JControl k x t p c \<and> (k = on \<or> off = Some k)")
  case True
  then show ?thesis using adds removes by (auto simp: turns_on_def turns_off_def)
next
  case False
  then have "set (replayed (rs @ [r])) = set (replayed rs)" by (intro skips) blast
  then show ?thesis using False by (auto simp: turns_on_def turns_off_def)
qed

lemma last_decides:
  "m \<in> set (replayed rs) \<longleftrightarrow> (\<exists>before r after. rs = before @ r # after \<and> turns_on m r \<and> (\<forall>q \<in> set after. turns_off m q \<longrightarrow> turns_on m q))"
proof (induction rs rule: rev_induct)
  case (snoc r rs)
  show ?case
    unfolding step snoc.IH
  proof (intro iffI; elim disjE conjE exE)
    assume "turns_on m r"
    then show "\<exists>before q after. rs @ [r] = before @ q # after \<and> turns_on m q \<and> (\<forall>q \<in> set after. turns_off m q \<longrightarrow> turns_on m q)"
      by (intro exI [of _ rs] exI [of _ r] exI [of _ "[]"]) simp
  next
    fix before q after
    assume "\<not> turns_off m r" "rs = before @ q # after" "turns_on m q" "\<forall>q \<in> set after. turns_off m q \<longrightarrow> turns_on m q"
    then show "\<exists>before q after. rs @ [r] = before @ q # after \<and> turns_on m q \<and> (\<forall>q \<in> set after. turns_off m q \<longrightarrow> turns_on m q)"
      by (intro exI [of _ before] exI [of _ q] exI [of _ "after @ [r]"]) simp
  next
    fix before q after
    assume a: "rs @ [r] = before @ q # after" "turns_on m q" "\<forall>q \<in> set after. turns_off m q \<longrightarrow> turns_on m q"
    show "turns_on m r \<or> \<not> turns_off m r \<and> (\<exists>before r after. rs = before @ r # after \<and> turns_on m r \<and> (\<forall>q \<in> set after. turns_off m q \<longrightarrow> turns_on m q))"
    proof (cases after rule: rev_cases)
      case Nil
      then show ?thesis using a by simp
    next
      case (snoc init q')
      then show ?thesis using a by auto
    qed
  qed
qed (simp add: starts_empty)

end

lemma switch_contract: "off \<noteq> Some on \<Longrightarrow> market_switch (\<lambda>rs. foldl (switch on off) [] rs) on off"
  by unfold_locales (auto simp: switch_def split: journal_record.splits)

lemma replayed_switches:
  "replayHaltedMarkets = (\<lambda>rs. foldl (switch KHalt (Some KResume)) [] rs)"
  "replayMaintenance = (\<lambda>rs. foldl (switch KMaintenance (Some KEndMaintenance)) [] rs)"
  "replayReduceOnlyMarkets = (\<lambda>rs. foldl (switch KReduceOnly (Some KResumeReduceOnly)) [] rs)"
  "replayPostOnlyMarkets = (\<lambda>rs. foldl (switch KPostOnly (Some KResumePostOnly)) [] rs)"
  "replayPrelaunchMarkets = (\<lambda>rs. foldl (switch KPrelaunch (Some KOpen)) [] rs)"
  "replayOpenedMarkets = (\<lambda>rs. foldl (switch KOpen None) [] rs)"
  "replayExpiredMarkets = (\<lambda>rs. foldl (switch KExpire None) [] rs)"
  "replayDelistedMarkets = (\<lambda>rs. foldl (switch KDelist None) [] rs)"
  by (simp_all add: fun_eq_iff replayHaltedMarkets_def replayMaintenance_def replayReduceOnlyMarkets_def replayPostOnlyMarkets_def
    replayPrelaunchMarkets_def replayOpenedMarkets_def replayExpiredMarkets_def replayDelistedMarkets_def)

interpretation halts: market_switch replayHaltedMarkets KHalt "Some KResume"
  unfolding replayed_switches by (rule switch_contract) simp

interpretation maintained: market_switch replayMaintenance KMaintenance "Some KEndMaintenance"
  unfolding replayed_switches by (rule switch_contract) simp

interpretation reducing: market_switch replayReduceOnlyMarkets KReduceOnly "Some KResumeReduceOnly"
  unfolding replayed_switches by (rule switch_contract) simp

interpretation posting: market_switch replayPostOnlyMarkets KPostOnly "Some KResumePostOnly"
  unfolding replayed_switches by (rule switch_contract) simp

interpretation launching: market_switch replayPrelaunchMarkets KPrelaunch "Some KOpen"
  unfolding replayed_switches by (rule switch_contract) simp

interpretation opened: market_switch replayOpenedMarkets KOpen None
  unfolding replayed_switches by (rule switch_contract) simp

interpretation expiring: market_switch replayExpiredMarkets KExpire None
  unfolding replayed_switches by (rule switch_contract) simp

interpretation delisting: market_switch replayDelistedMarkets KDelist None
  unfolding replayed_switches by (rule switch_contract) simp

end
