(* ===== verification/Engine_State.thy ===== *)
theory Engine_State
  imports Engine_Control
begin

text \<open>
  The state of \<open>MatchingEngine\<close> (\<^verbatim>\<open>engine.ts\<close>): books per market with the journal in front of them, the
  control state of the operators, and the events that leave the engine. Books are core order books
  with their trailing rows; no spread is listed. The engine reads instants from its clock, which are
  arguments here, and prints them with the ISO form of the environment.
\<close>

section \<open>State\<close>

record engine_env =
  ee_match :: match_env
  ee_iso :: "int \<Rightarrow> string"

type_synonym market_book = "order_book \<times> trail_rows"

record engine =
  eg_books :: "(string \<times> market_book) list"
  eg_journal :: "journal_record list"
  eg_expiryClock :: bool
  eg_enabled :: bool
  eg_halted :: "string list"
  eg_maintenance :: "string list"
  eg_unreadableBooks :: "(string \<times> string) list"
  eg_venueHalted :: bool
  eg_reduceOnlyMarkets :: "string list"
  eg_postOnlyMarkets :: "string list"
  eg_prelaunchMarkets :: "string list"
  eg_listedMarkets :: "string list"
  eg_expiredMarkets :: "string list"
  eg_delistedMarkets :: "string list"
  eg_deadSessions :: "string list"
  eg_inFlight :: "(string \<times> in_flight_mark) list"
  eg_admissionClosed :: "string option"
  eg_holdHalted :: "(string \<times> string) list"
  eg_splitBrain :: bool

definition new_engine :: "bool \<Rightarrow> bool \<Rightarrow> journal_record list \<Rightarrow> engine" where
  "new_engine clock enabled journal = \<lparr>eg_books = [], eg_journal = journal, eg_expiryClock = clock, eg_enabled = enabled, eg_halted = [],
     eg_maintenance = [], eg_unreadableBooks = [], eg_venueHalted = False, eg_reduceOnlyMarkets = [], eg_postOnlyMarkets = [],
     eg_prelaunchMarkets = [], eg_listedMarkets = [], eg_expiredMarkets = [], eg_delistedMarkets = [], eg_deadSessions = [],
     eg_inFlight = [], eg_admissionClosed = None, eg_holdHalted = [], eg_splitBrain = False\<rparr>"

definition append :: "journal_record \<Rightarrow> engine \<Rightarrow> engine" where
  "append r e = e\<lparr>eg_journal := eg_journal e @ [r]\<rparr>"

definition existingBook :: "engine \<Rightarrow> string \<Rightarrow> market_book option" where
  "existingBook e marketId = map_of (eg_books e) marketId"

definition engine_book :: "engine \<Rightarrow> string \<Rightarrow> market_book" where
  "engine_book e marketId = (case existingBook e marketId of Some mb \<Rightarrow> mb | None \<Rightarrow> (new_book marketId, []))"

definition put_book :: "string \<Rightarrow> market_book \<Rightarrow> engine \<Rightarrow> engine" where
  "put_book marketId mb e = e\<lparr>eg_books := AList.update marketId mb (eg_books e)\<rparr>"

definition drop_never_traded :: "string \<Rightarrow> (string \<times> market_book) list \<Rightarrow> (string \<times> market_book) list" where
  "drop_never_traded marketId books =
     (case map_of books marketId of
        Some (b, _) \<Rightarrow> if isNeverPrintedEmpty b then AList.delete marketId books else books
      | None \<Rightarrow> books)"

definition dropIfNeverTraded :: "string \<Rightarrow> engine \<Rightarrow> engine" where
  "dropIfNeverTraded marketId e = e\<lparr>eg_books := drop_never_traded marketId (eg_books e)\<rparr>"

definition setEnabled :: "bool \<Rightarrow> engine \<Rightarrow> engine" where
  "setEnabled enabled e = e\<lparr>eg_enabled := enabled\<rparr>"

definition noteBookUnreadable :: "string \<Rightarrow> string \<Rightarrow> engine \<Rightarrow> engine" where
  "noteBookUnreadable marketId reason e =
     (if js_trim reason = [] then e else e\<lparr>eg_unreadableBooks := AList.update marketId (js_trim reason) (eg_unreadableBooks e)\<rparr>)"

definition closeAdmission :: "string \<Rightarrow> engine \<Rightarrow> engine" where
  "closeAdmission reason e = e\<lparr>eg_admissionClosed := Some reason\<rparr>"

definition holdHalt :: "string \<Rightarrow> string \<Rightarrow> engine \<Rightarrow> engine" where
  "holdHalt marketId reason e = e\<lparr>eg_holdHalted := AList.update marketId reason (eg_holdHalted e)\<rparr>"

section \<open>Reading\<close>

definition isListed :: "engine \<Rightarrow> string \<Rightarrow> bool" where
  "isListed e marketId \<longleftrightarrow> marketId \<in> set (eg_listedMarkets e) \<and> marketId \<notin> set (eg_expiredMarkets e) \<and> marketId \<notin> set (eg_delistedMarkets e)"

definition markets :: "engine \<Rightarrow> string list" where
  "markets e = sort (foldl (\<lambda>ids m. if isListed e m then set_add m ids else ids)
     (foldl (\<lambda>ids p. set_add (fst p) ids) [] (eg_books e)) (eg_listedMarkets e))"

record engine_live_order =
  el_marketId :: string
  el_orderId :: string
  el_accountId :: string
  el_kind :: resting_kind
  el_side :: order_side
  el_price :: string
  el_remaining :: string
  el_sequence :: nat
  el_version :: nat

definition side_rows :: "string \<Rightarrow> order_side \<Rightarrow> level_state list \<Rightarrow> engine_live_order list" where
  "side_rows marketId side levels = concat (map (\<lambda>level. map (\<lambda>o'. \<lparr>el_marketId = marketId, el_orderId = rs_orderId o',
     el_accountId = rs_accountId o', el_kind = BookKind, el_side = side, el_price = lv_price level, el_remaining = rs_remaining o',
     el_sequence = rs_sequence o', el_version = version_or_one (rs_version o')\<rparr>) (lv_orders level)) levels)"

definition book_rows :: "order_book \<Rightarrow> engine_live_order list" where
  "book_rows b =
     (let state = toState b in
      side_rows (bs_marketId state) BuySide (bs_bids state) @ side_rows (bs_marketId state) SellSide (bs_asks state)
      @ map (\<lambda>s. \<lparr>el_marketId = bs_marketId state, el_orderId = ss_orderId s, el_accountId = ss_accountId s, el_kind = StopKind,
          el_side = ss_side s, el_price = ss_stopPrice s, el_remaining = ss_qty s, el_sequence = ss_sequence s,
          el_version = version_or_one (ss_version s)\<rparr>) (bs_stops state))"

text \<open>Sorted by market and sequence: two stable sorts, the less significant key first.\<close>

definition restingOrders :: "engine \<Rightarrow> string option \<Rightarrow> engine_live_order list" where
  "restingOrders e marketId =
     (let books = (case marketId of None \<Rightarrow> map snd (eg_books e)
                     | Some m \<Rightarrow> (case existingBook e m of Some mb \<Rightarrow> [mb] | None \<Rightarrow> []))
      in sort_key el_marketId (sort_key el_sequence (concat (map (book_rows \<circ> fst) books))))"

definition restingOrderCount :: "engine \<Rightarrow> nat" where
  "restingOrderCount e = length (restingOrders e None)"

definition remainingOf :: "engine \<Rightarrow> string \<Rightarrow> string \<Rightarrow> amount option" where
  "remainingOf e marketId orderId =
     parseIfmQty (map_option el_remaining (List.find (\<lambda>row. el_orderId row = orderId) (restingOrders e (Some marketId))))"

text \<open>Owner, side and size of a live order, as \<open>restingIdentity\<close> reads them from the snapshot.\<close>

definition restingIdentity :: "order_book \<Rightarrow> string \<Rightarrow> (money_error + string \<times> order_side \<times> amount) option" where
  "restingIdentity b orderId =
     (let state = toState b;
          scan = (\<lambda>side levels. List.find (\<lambda>p. rs_orderId (snd p) = orderId)
            (concat (map (\<lambda>level. map (Pair side) (lv_orders level)) levels)))
      in case or_else (scan BuySide (bs_bids state)) (scan SellSide (bs_asks state)) of
           Some (side, row) \<Rightarrow> Some (bindE (parse_text (rs_remaining row)) (\<lambda>q. Inr (rs_accountId row, side, q)))
         | None \<Rightarrow> map_option (\<lambda>stop. bindE (parse_text (ss_qty stop)) (\<lambda>q. Inr (ss_accountId stop, ss_side stop, q)))
             (List.find (\<lambda>row. ss_orderId row = orderId) (bs_stops state)))"

section \<open>In-flight marks\<close>

definition beginInFlight :: "string \<Rightarrow> string \<Rightarrow> ifm_mutation \<Rightarrow> string \<Rightarrow> engine \<Rightarrow> engine" where
  "beginInFlight marketId orderId mutation at' e =
     (case remainingOf e marketId orderId of
        None \<Rightarrow> e
      | Some remaining \<Rightarrow>
          (append (JInFlight marketId at' orderId mutation (Some (formatAmount remaining))) e)
            \<lparr>eg_inFlight := AList.update orderId \<lparr>im_marketId = marketId, im_orderId = orderId, im_mutation = mutation,
               im_status = OpenStatus, im_qty = Some remaining\<rparr> (eg_inFlight e)\<rparr>)"

definition endInFlight :: "string \<Rightarrow> engine \<Rightarrow> engine" where
  "endInFlight orderId e = e\<lparr>eg_inFlight := AList.delete orderId (eg_inFlight e)\<rparr>"

definition in_flight_of :: "engine \<Rightarrow> string \<Rightarrow> bool option" where
  "in_flight_of e orderId = map_option (\<lambda>mark. im_status mark = UnknownStatus) (map_of (eg_inFlight e) orderId)"

definition refuseInFlightSubmit :: "engine \<Rightarrow> string \<Rightarrow> submit_result option" where
  "refuseInFlightSubmit e orderId = map_option inFlightSubmitResult (in_flight_of e orderId)"

definition refuseInFlightAmend :: "engine \<Rightarrow> string \<Rightarrow> amend_result option" where
  "refuseInFlightAmend e orderId = map_option (inFlightAmendResult orderId) (in_flight_of e orderId)"

definition refuseInFlightCancel :: "engine \<Rightarrow> string \<Rightarrow> reject_code option" where
  "refuseInFlightCancel e orderId = map_option in_flight_code (in_flight_of e orderId)"

section \<open>Events\<close>

datatype pending_event =
    OrderAccepted string string nat
  | OrderFilled string fill string
  | OrderCancelled string cancelled_ref
  | OrderTriggered string string nat trigger_fact string

fun event_sequence :: "pending_event \<Rightarrow> nat" where
  "event_sequence (OrderAccepted m orderId sequence) = sequence"
| "event_sequence (OrderFilled m fill at') = f_sequence fill"
| "event_sequence (OrderCancelled m c) = c_sequence c"
| "event_sequence (OrderTriggered m orderId sequence trigger at') = sequence"

fun event_key :: "pending_event \<Rightarrow> string" where
  "event_key (OrderAccepted m orderId sequence) = ''matching.order.accepted:'' @ m @ '':'' @ orderId"
| "event_key (OrderFilled m fill at') = ''matching.order.filled:'' @ m @ '':'' @ string_of_nat (f_sequence fill)"
| "event_key (OrderCancelled m c) = ''matching.order.cancelled:'' @ m @ '':'' @ string_of_nat (c_sequence c)"
| "event_key (OrderTriggered m orderId sequence trigger at') = ''matching.order.triggered:'' @ m @ '':'' @ string_of_nat sequence"

definition triggered_events :: "string \<Rightarrow> string \<Rightarrow> trigger_outcome \<Rightarrow> pending_event list" where
  "triggered_events m at' t =
     (case t_trigger t of None \<Rightarrow> [] | Some trigger \<Rightarrow> [OrderTriggered m (t_orderId t) (t_sequence t) trigger at'])
     @ map (\<lambda>f. OrderFilled m f at') (t_fills t) @ map (OrderCancelled m) (t_cancellations t)"

definition eventsForSubmit :: "string \<Rightarrow> string \<Rightarrow> submit_result \<Rightarrow> string \<Rightarrow> pending_event list" where
  "eventsForSubmit m orderId result at' =
     sort_key event_sequence
       ((if s_accepted result then (case s_sequence result of None \<Rightarrow> [] | Some n \<Rightarrow> [OrderAccepted m orderId n]) else [])
        @ map (\<lambda>f. OrderFilled m f at') (s_fills result) @ map (OrderCancelled m) (s_cancellations result)
        @ concat (map (triggered_events m at') (s_triggered result)))"

fun once_by_key :: "string list \<Rightarrow> pending_event list \<Rightarrow> pending_event list" where
  "once_by_key seen [] = []"
| "once_by_key seen (ev # evs) =
     (if event_key ev \<in> set seen then once_by_key seen evs else ev # once_by_key (event_key ev # seen) evs)"

definition eventsForAmend :: "string \<Rightarrow> amend_result \<Rightarrow> string \<Rightarrow> pending_event list" where
  "eventsForAmend m result at' =
     sort_key event_sequence (once_by_key []
       (map (OrderCancelled m) (ar_cancellations result) @ map (\<lambda>f. OrderFilled m f at') (ar_fills result)
        @ concat (map (triggered_events m at') (ar_triggered result))))"

end
