(* ===== verification/Engine_Commands.thy ===== *)
theory Engine_Commands
  imports Engine_State
begin

text \<open>
  The commands of the engine: \<^verbatim>\<open>engine.ts\<close> with the layers that replace its methods when the service
  loads, \<^verbatim>\<open>cod-fence.ts\<close> (split brain, mass cancel, dead sessions, dual control) and
  \<^verbatim>\<open>rulebook-refuse.ts\<close> (evidence and policy). A command takes the instant that the engine reads from
  its clock and returns the engine, its answer and the events it publishes.
\<close>

section \<open>Submission\<close>

definition submit_gate :: "engine \<Rightarrow> string \<Rightarrow> full_order \<Rightarrow> submit_result option" where
  "submit_gate e m order =
     (if \<not> eg_enabled e then Some (rejected (OtherReject ''engine_disabled''))
      else if eg_admissionClosed e \<noteq> None then Some (rejected (OtherReject ''hold_check_unreachable''))
      else if map_of (eg_holdHalted e) m \<noteq> None then Some (rejected (OtherReject ''hold_unconfirmed''))
      else if eg_venueHalted e then Some venueHaltedSubmitResult
      else if m \<in> set (eg_maintenance e) then Some maintenanceSubmitResult
      else if m \<in> set (eg_halted e) then Some haltedSubmitResult
      else if m \<in> set (eg_expiredMarkets e) then Some expiredSubmitResult
      else if m \<in> set (eg_delistedMarkets e) then Some delistedSubmitResult
      else if m \<in> set (eg_prelaunchMarkets e) then Some prelaunchSubmitResult
      else if m \<in> set (eg_reduceOnlyMarkets e)
          \<and> wouldOpenOrIncrease (map_option fst (existingBook e m)) (o_accountId order) (o_side order) (o_qty order) (o_orderId order)
        then Some reduceOnlyMarketSubmitResult
      else if m \<in> set (eg_postOnlyMarkets e) \<and> \<not> isPostOnlySubmit (o_tif order) then Some postOnlyMarketSubmitResult
      else case readSessionId (o_sessionId order) of
          Some sessionId \<Rightarrow> if sessionId \<in> set (eg_deadSessions e) then Some sessionGoneSubmitResult
            else refuseInFlightSubmit e (o_orderId order)
        | None \<Rightarrow> refuseInFlightSubmit e (o_orderId order))"

text \<open>With no spread listed and no spread book, an outright order passes and a spread order is unlisted.\<close>

definition spreadAdmissionRefuse :: "full_order \<Rightarrow> reject_code option" where
  "spreadAdmissionRefuse order = (if x_spread order = None then None else Some (OtherReject ''spread_unlisted''))"

definition expiry_now :: "engine \<Rightarrow> int \<Rightarrow> int option" where
  "expiry_now e now' = (if eg_expiryClock e then Some now' else None)"

definition base_submit :: "engine_env \<Rightarrow> engine \<Rightarrow> string \<Rightarrow> full_order \<Rightarrow> int \<Rightarrow> engine \<times> submit_result \<times> pending_event list" where
  "base_submit ee e m order now' =
     (case submit_gate e m order of
        Some result \<Rightarrow> (e, result, [])
      | None \<Rightarrow>
          if (case existingBook e m of Some (b, _) \<Rightarrow> hasAccepted b (o_orderId order) | None \<Rightarrow> False) then
            (let (mb, duplicate) = trailing_submit (ee_match ee) (engine_book e m) (trail_order.truncate order) (expiry_now e now')
             in (put_book m mb e, duplicate, []))
          else case spreadAdmissionRefuse order of
            Some code \<Rightarrow> (e, rejected code, [])
          | None \<Rightarrow>
              if (o_tif order = GTD \<or> o_tif order = GTT) \<and> expiry_now e now' = None then (e, rejected EngineClockMissing, [])
              else
                (let at' = ee_iso ee now';
                     e1 = append (JSubmit m at' (toWire order)) e;
                     (mb, result) = trailing_submit (ee_match ee) (engine_book e1 m) (trail_order.truncate order) (expiry_now e now')
                 in (dropIfNeverTraded m (put_book m mb e1), result, eventsForSubmit m (o_orderId order) result at')))"

definition engine_submit :: "engine_env \<Rightarrow> engine \<Rightarrow> string \<Rightarrow> full_order \<Rightarrow> int \<Rightarrow> engine \<times> submit_result \<times> pending_event list" where
  "engine_submit ee e m order now' =
     (if eg_splitBrain e then (e, splitBrainSubmitResult, []) else base_submit ee e m order now')"

section \<open>Cancellation\<close>

record engine_cancel_result =
  ec_cancellation :: "cancelled_ref option"
  ec_rejected :: "reject_code option"

definition engine_cancel :: "engine_env \<Rightarrow> engine \<Rightarrow> string \<Rightarrow> string \<Rightarrow> cancel_reason \<Rightarrow> int
    \<Rightarrow> engine \<times> engine_cancel_result \<times> pending_event list" where
  "engine_cancel ee e m orderId reason now' =
     (if m \<in> set (eg_maintenance e) then (e, \<lparr>ec_cancellation = None, ec_rejected = Some maintenanceRefuse\<rparr>, [])
      else case refuseInFlightCancel e orderId of
        Some code \<Rightarrow> (e, \<lparr>ec_cancellation = None, ec_rejected = Some code\<rparr>, [])
      | None \<Rightarrow>
          (case existingBook e m of
             None \<Rightarrow> (e, \<lparr>ec_cancellation = None, ec_rejected = None\<rparr>, [])
           | Some (b, rows) \<Rightarrow>
               (let at' = ee_iso ee now';
                    e1 = beginInFlight m orderId CancelMutation at' e;
                    e2 = append (JCancel m at' orderId (if reason = Requested then None else Some reason)) e1;
                    (b1, result) = cancel b orderId reason
                in (endInFlight orderId (put_book m (b1, rows) e2), \<lparr>ec_cancellation = cr_cancellation result, ec_rejected = None\<rparr>,
                    (case cr_cancellation result of None \<Rightarrow> [] | Some c \<Rightarrow> [OrderCancelled m c])))))"

text \<open>The rows of a snapshot that a mass cancel and a dead session read.\<close>

definition liveOwnedFromState :: "book_state \<Rightarrow> live_owned list" where
  "liveOwnedFromState state =
     (let take_side = (\<lambda>side levels. concat (map (\<lambda>level. map (\<lambda>r. \<lparr>lo_orderId = rs_orderId r, lo_accountId = rs_accountId r,
            lo_sequence = rs_sequence r, lo_side = side\<rparr>) (lv_orders level)) levels))
      in take_side BuySide (bs_bids state) @ take_side SellSide (bs_asks state)
         @ map (\<lambda>s. \<lparr>lo_orderId = ss_orderId s, lo_accountId = ss_accountId s, lo_sequence = ss_sequence s, lo_side = ss_side s\<rparr>) (bs_stops state))"

definition liveSessionFromState :: "book_state \<Rightarrow> live_session list" where
  "liveSessionFromState state =
     (let take_side = (\<lambda>levels. concat (map (\<lambda>level. map (\<lambda>r. \<lparr>ls_orderId = rs_orderId r, ls_sessionId = rs_sessionId r,
            ls_sequence = rs_sequence r\<rparr>) (lv_orders level)) levels))
      in take_side (bs_bids state) @ take_side (bs_asks state)
         @ map (\<lambda>s. \<lparr>ls_orderId = ss_orderId s, ls_sessionId = ss_sessionId s, ls_sequence = ss_sequence s\<rparr>) (bs_stops state))"

record mass_cancel_result =
  mc_accepted :: bool
  mc_cancellations :: "cancelled_ref list"
  mc_failed :: "string list"
  mc_rejected :: "reject_code option"

fun cancel_each :: "engine_env \<Rightarrow> string \<Rightarrow> cancel_reason \<Rightarrow> int \<Rightarrow> engine \<Rightarrow> string list
    \<Rightarrow> engine \<times> cancelled_ref list \<times> string list \<times> pending_event list" where
  "cancel_each ee m reason now' e [] = (e, [], [], [])"
| "cancel_each ee m reason now' e (orderId # ids) =
     (let (e1, result, evs) = engine_cancel ee e m orderId reason now';
          (e2, cs, failed, evs2) = cancel_each ee m reason now' e1 ids
      in case ec_cancellation result of
           Some c \<Rightarrow> (e2, c # cs, failed, evs @ evs2)
         | None \<Rightarrow> (e2, cs, orderId # failed, evs @ evs2))"

definition massCancel :: "engine_env \<Rightarrow> engine \<Rightarrow> string \<Rightarrow> string \<Rightarrow> string option \<Rightarrow> order_side option \<Rightarrow> int
    \<Rightarrow> engine \<times> mass_cancel_result \<times> pending_event list" where
  "massCancel ee e m accountId sessionId side now' =
     (case massCancelSessionRefuse (readSessionId sessionId) of
        Some code \<Rightarrow> (e, \<lparr>mc_accepted = False, mc_cancellations = [], mc_failed = [], mc_rejected = Some code\<rparr>, [])
      | None \<Rightarrow>
          (case existingBook e m of
             None \<Rightarrow> (e, \<lparr>mc_accepted = True, mc_cancellations = [], mc_failed = [], mc_rejected = None\<rparr>, [])
           | Some (b, rows) \<Rightarrow>
               (let ids = ownedOrderIds accountId (liveOwnedFromState (toState b)) side;
                    e1 = append (JMassCancel m (ee_iso ee now') accountId side) e;
                    (e2, cs, failed, evs) = cancel_each ee m Requested now' e1 ids
                in (dropIfNeverTraded m e2, \<lparr>mc_accepted = True, mc_cancellations = cs, mc_failed = failed, mc_rejected = None\<rparr>, evs))))"

text \<open>A dead session pulls its orders from every market, whatever the control state of the market.\<close>

fun dead_session_books :: "string \<Rightarrow> engine \<Rightarrow> string list \<Rightarrow> engine \<times> (string \<times> cancelled_ref) list" where
  "dead_session_books sessionId e [] = (e, [])"
| "dead_session_books sessionId e (m # ms) =
     (case existingBook e m of
        None \<Rightarrow> dead_session_books sessionId e ms
      | Some (b, rows) \<Rightarrow>
          (let ids = sessionOrderIds sessionId (liveSessionFromState (toState b));
               (b1, pulled) = cancel_ids b SessionDead ids;
               (e1, cs) = dead_session_books sessionId (dropIfNeverTraded m (put_book m (b1, rows) e)) ms
           in (e1, map (Pair m) pulled @ cs)))"

record session_dead_result =
  sd_accepted :: bool
  sd_sessionId :: "string option"
  sd_cancellations :: "cancelled_ref list"
  sd_rejected :: "reject_code option"

definition sessionDead :: "engine_env \<Rightarrow> engine \<Rightarrow> string option \<Rightarrow> int \<Rightarrow> engine \<times> session_dead_result \<times> pending_event list" where
  "sessionDead ee e raw now' =
     (case readSessionId raw of
        None \<Rightarrow> (e, \<lparr>sd_accepted = False, sd_sessionId = None, sd_cancellations = [], sd_rejected = Some missingSessionRefuse\<rparr>, [])
      | Some sessionId \<Rightarrow>
          (let e1 = append (JSessionDead (ee_iso ee now') sessionId) e;
               e2 = e1\<lparr>eg_deadSessions := set_add sessionId (eg_deadSessions e1)\<rparr>;
               (e3, pulled) = dead_session_books sessionId e2 (markets e2)
           in (e3, \<lparr>sd_accepted = True, sd_sessionId = Some sessionId, sd_cancellations = map snd pulled, sd_rejected = None\<rparr>,
               map (\<lambda>(m, c). OrderCancelled m c) pulled)))"

section \<open>Amendment\<close>

definition amendRefusal :: "engine \<Rightarrow> string \<Rightarrow> engine_amend \<Rightarrow> order_book option \<Rightarrow> money_error + amend_result option" where
  "amendRefusal e m cmd seen =
     (let i = a_orderId cmd;
          tail = (if m \<in> set (eg_postOnlyMarkets e) \<and> postOnlyAmendRefusal seen cmd \<noteq> None then postOnlyAmendRefusal seen cmd
            else case refuseInFlightAmend e i of
              Some refused \<Rightarrow> Some refused
            | None \<Rightarrow> if seen = None then Some (refusedAmend i OrderNotFound) else None)
      in
      if \<not> eg_enabled e then Inr (Some (refusedAmend i (OtherReject ''engine_disabled'')))
      else if eg_admissionClosed e \<noteq> None then Inr (Some (refusedAmend i (OtherReject ''hold_check_unreachable'')))
      else if map_of (eg_holdHalted e) m \<noteq> None then Inr (Some (refusedAmend i (OtherReject ''hold_unconfirmed'')))
      else if eg_venueHalted e then Inr (Some (venueHaltedAmendResult i))
      else if m \<in> set (eg_maintenance e) then Inr (Some (maintenanceAmendResult i))
      else if m \<in> set (eg_halted e) then Inr (Some (haltedAmendResult i))
      else if m \<in> set (eg_expiredMarkets e) then Inr (Some (expiredAmendResult i))
      else if m \<in> set (eg_delistedMarkets e) then Inr (Some (delistedAmendResult i))
      else if m \<in> set (eg_prelaunchMarkets e) then Inr (Some (prelaunchAmendResult i))
      else if m \<in> set (eg_reduceOnlyMarkets e) then
        (case Option.bind seen (\<lambda>b. restingIdentity b i) of
           None \<Rightarrow> Inr tail
         | Some (Inl err) \<Rightarrow> Inl err
         | Some (Inr (accountId, side, remaining)) \<Rightarrow>
             if wouldOpenOrIncrease seen accountId side (case a_qty cmd of Some q \<Rightarrow> q | None \<Rightarrow> remaining) i
             then Inr (Some (reduceOnlyMarketAmendResult i)) else Inr tail)
      else Inr tail)"

definition base_amend :: "engine_env \<Rightarrow> engine \<Rightarrow> string \<Rightarrow> engine_amend \<Rightarrow> int
    \<Rightarrow> engine \<times> (money_error + amend_result) \<times> pending_event list" where
  "base_amend ee e m cmd now' =
     (case amendRefusal e m cmd (map_option fst (existingBook e m)) of
        Inl err \<Rightarrow> (e, Inl err, [])
      | Inr (Some refused) \<Rightarrow> (e, Inr refused, [])
      | Inr None \<Rightarrow>
          (case existingBook e m of
             None \<Rightarrow> (e, Inr (refusedAmend (a_orderId cmd) OrderNotFound), [])
           | Some (b, rows) \<Rightarrow>
               (let at' = ee_iso ee now';
                    e1 = beginInFlight m (a_orderId cmd) AmendMutation at' e;
                    e2 = append (JAmend m at' (a_orderId cmd) (a_expectedVersion cmd) (toWireAmend cmd)) e1;
                    (b1, result) = amend (ee_match ee) b cmd (expiry_now e now')
                in (dropIfNeverTraded m (endInFlight (a_orderId cmd) (put_book m (b1, rows) e2)), Inr result, eventsForAmend m result at'))))"

definition engine_amend_cmd :: "engine_env \<Rightarrow> engine \<Rightarrow> string \<Rightarrow> engine_amend \<Rightarrow> int
    \<Rightarrow> engine \<times> (money_error + amend_result) \<times> pending_event list" where
  "engine_amend_cmd ee e m cmd now' =
     (if eg_splitBrain e then (e, Inr (splitBrainAmendResult (a_orderId cmd)), []) else base_amend ee e m cmd now')"

section \<open>Marks\<close>

definition markRefusal :: "engine \<Rightarrow> string \<Rightarrow> reject_code option" where
  "markRefusal e m =
     (if \<not> eg_enabled e then Some (OtherReject ''engine_disabled'')
      else if eg_admissionClosed e \<noteq> None then Some (OtherReject ''hold_check_unreachable'')
      else if map_of (eg_holdHalted e) m \<noteq> None then Some (OtherReject ''hold_unconfirmed'')
      else if eg_venueHalted e then Some (OtherReject ''venue_halted'')
      else if m \<in> set (eg_maintenance e) then Some maintenanceRefuse
      else if m \<in> set (eg_halted e) then Some (OtherReject ''market_halted'')
      else if m \<in> set (eg_expiredMarkets e) then Some (OtherReject ''market_expired'')
      else if m \<in> set (eg_delistedMarkets e) then Some (OtherReject ''market_delisted'')
      else if m \<in> set (eg_prelaunchMarkets e) then Some (OtherReject ''market_prelaunch'')
      else None)"

record mark_result =
  mr_accepted :: bool
  mr_applied :: bool
  mr_rejected :: "reject_code option"

text \<open>The shape of a mark: digits, or digits, a point and one to eighteen digits.\<close>

definition mark_shape :: "string \<Rightarrow> bool" where
  "mark_shape s =
     (let whole = takeWhile is_digit s; rest = dropWhile is_digit s in
      whole \<noteq> [] \<and> (rest = [] \<or> hd rest = CHR ''.'' \<and> list_all is_digit (tl rest) \<and> 1 \<le> length (tl rest) \<and> length (tl rest) \<le> 18))"

definition markTrailingStops :: "engine_env \<Rightarrow> engine \<Rightarrow> string \<Rightarrow> string \<Rightarrow> int \<Rightarrow> engine \<times> (money_error + mark_result)" where
  "markTrailingStops ee e m mark now' =
     (case (if mark_shape mark then bindE (parse_text mark) (\<lambda>a. Inr (Some a)) else Inr None) of
        Inl err \<Rightarrow> (e, Inl err)
      | Inr parsed \<Rightarrow>
          (case or_else (markRefuse parsed) (markRefusal e m) of
             Some code \<Rightarrow> (e, Inr \<lparr>mr_accepted = False, mr_applied = False, mr_rejected = Some code\<rparr>)
           | None \<Rightarrow>
               (case existingBook e m of
                  None \<Rightarrow> (e, Inr \<lparr>mr_accepted = True, mr_applied = False, mr_rejected = None\<rparr>)
                | Some (b, rows) \<Rightarrow>
                    (case applyMark (ee_match ee) b rows parsed of
                       (mb, Inl err) \<Rightarrow> (put_book m mb e, Inl err)
                     | (mb, Inr (Some code, _)) \<Rightarrow> (put_book m mb e, Inr \<lparr>mr_accepted = False, mr_applied = False, mr_rejected = Some code\<rparr>)
                     | (mb, Inr (None, changed)) \<Rightarrow>
                         ((if changed then append (JMark m (ee_iso ee now') mark) (put_book m mb e) else put_book m mb e),
                          Inr \<lparr>mr_accepted = True, mr_applied = changed, mr_rejected = None\<rparr>)))))"

end
