(* ===== verification/Engine_Operators.thy ===== *)
theory Engine_Operators
  imports Engine_Commands
begin

text \<open>
  Operator commands of the engine and the evidence rules around them, the expiry sweep and closing a
  position. Every market switch is one dual-controlled journal record and one change of a set.
\<close>

section \<open>Commands and their evidence\<close>

record operator_cmd =
  oc_operatorId :: "string option"
  oc_confirmOperatorId :: "string option"
  oc_evidence :: "string option"
  oc_evidenceRefs :: "string option list option"
  oc_policyId :: "string option"
  oc_policyVersion :: "string option"

definition readNonBlank :: "string option \<Rightarrow> string option" where
  "readNonBlank raw = (case raw of None \<Rightarrow> None | Some s \<Rightarrow> if js_trim s = [] then None else Some (js_trim s))"

text \<open>\<open>None\<close> in the references is a reference that is not a string.\<close>

definition hasEvidence :: "operator_cmd \<Rightarrow> bool" where
  "hasEvidence cmd \<longleftrightarrow> readNonBlank (oc_evidence cmd) \<noteq> None
     \<or> (case oc_evidenceRefs cmd of None \<Rightarrow> False | Some refs \<Rightarrow> list_ex (\<lambda>ref. readNonBlank ref \<noteq> None) refs)"

definition evidenceRefuse :: "operator_cmd \<Rightarrow> reject_code option" where
  "evidenceRefuse cmd = (if hasEvidence cmd then None else Some (OtherReject ''missing_evidence''))"

definition hasDelistPolicy :: "operator_cmd \<Rightarrow> bool" where
  "hasDelistPolicy cmd \<longleftrightarrow> readNonBlank (oc_policyId cmd) \<noteq> None \<or> readNonBlank (oc_policyVersion cmd) \<noteq> None"

definition delistPolicyRefuse :: "operator_cmd \<Rightarrow> reject_code option" where
  "delistPolicyRefuse cmd = (if hasDelistPolicy cmd then None else Some (OtherReject ''delist_policy_missing''))"

definition emergencyGate :: "operator_cmd \<Rightarrow> reject_code option" where
  "emergencyGate cmd = or_else (operatorRefuse (readOperatorId (oc_operatorId cmd))) (evidenceRefuse cmd)"

definition dual_refuse :: "operator_cmd \<Rightarrow> reject_code option" where
  "dual_refuse cmd = dualControlRefuse (readOperatorId (oc_operatorId cmd)) (readConfirmOperatorId (oc_confirmOperatorId cmd))"

section \<open>Switches of one market\<close>

definition control_record :: "engine_env \<Rightarrow> control_kind \<Rightarrow> string \<Rightarrow> operator_cmd \<Rightarrow> int \<Rightarrow> journal_record" where
  "control_record ee kind m cmd now' = JControl kind m (ee_iso ee now') (the (readOperatorId (oc_operatorId cmd)))
     (readConfirmOperatorId (oc_confirmOperatorId cmd))"

definition controlled :: "engine_env \<Rightarrow> control_kind \<Rightarrow> (engine \<Rightarrow> engine) \<Rightarrow> engine \<Rightarrow> string \<Rightarrow> operator_cmd \<Rightarrow> int \<Rightarrow> engine \<times> reject_code option" where
  "controlled ee kind change e m cmd now' =
     (case dual_refuse cmd of
        Some code \<Rightarrow> (e, Some code)
      | None \<Rightarrow> (change (append (control_record ee kind m cmd now') e), None))"

text \<open>Halting, resuming and expiring take evidence first, delisting takes a policy.\<close>

definition halt :: "engine_env \<Rightarrow> engine \<Rightarrow> string \<Rightarrow> operator_cmd \<Rightarrow> int \<Rightarrow> engine \<times> reject_code option" where
  "halt ee e m cmd now' =
     (case emergencyGate cmd of
        Some code \<Rightarrow> (e, Some code)
      | None \<Rightarrow> controlled ee KHalt (\<lambda>e. e\<lparr>eg_halted := set_add m (eg_halted e)\<rparr>) e m cmd now')"

definition resume :: "engine_env \<Rightarrow> engine \<Rightarrow> string \<Rightarrow> operator_cmd \<Rightarrow> int \<Rightarrow> engine \<times> reject_code option" where
  "resume ee e m cmd now' =
     (case emergencyGate cmd of
        Some code \<Rightarrow> (e, Some code)
      | None \<Rightarrow> controlled ee KResume (\<lambda>e. e\<lparr>eg_halted := removeAll m (eg_halted e)\<rparr>) e m cmd now')"

definition reduceOnly :: "engine_env \<Rightarrow> engine \<Rightarrow> string \<Rightarrow> operator_cmd \<Rightarrow> int \<Rightarrow> engine \<times> reject_code option" where
  "reduceOnly ee e m cmd now' = controlled ee KReduceOnly (\<lambda>e. e\<lparr>eg_reduceOnlyMarkets := set_add m (eg_reduceOnlyMarkets e)\<rparr>) e m cmd now'"

definition resumeReduceOnly :: "engine_env \<Rightarrow> engine \<Rightarrow> string \<Rightarrow> operator_cmd \<Rightarrow> int \<Rightarrow> engine \<times> reject_code option" where
  "resumeReduceOnly ee e m cmd now' =
     controlled ee KResumeReduceOnly (\<lambda>e. e\<lparr>eg_reduceOnlyMarkets := removeAll m (eg_reduceOnlyMarkets e)\<rparr>) e m cmd now'"

definition postOnly :: "engine_env \<Rightarrow> engine \<Rightarrow> string \<Rightarrow> operator_cmd \<Rightarrow> int \<Rightarrow> engine \<times> reject_code option" where
  "postOnly ee e m cmd now' = controlled ee KPostOnly (\<lambda>e. e\<lparr>eg_postOnlyMarkets := set_add m (eg_postOnlyMarkets e)\<rparr>) e m cmd now'"

definition resumePostOnly :: "engine_env \<Rightarrow> engine \<Rightarrow> string \<Rightarrow> operator_cmd \<Rightarrow> int \<Rightarrow> engine \<times> reject_code option" where
  "resumePostOnly ee e m cmd now' =
     controlled ee KResumePostOnly (\<lambda>e. e\<lparr>eg_postOnlyMarkets := removeAll m (eg_postOnlyMarkets e)\<rparr>) e m cmd now'"

definition prelaunch :: "engine_env \<Rightarrow> engine \<Rightarrow> string \<Rightarrow> operator_cmd \<Rightarrow> int \<Rightarrow> engine \<times> reject_code option" where
  "prelaunch ee e m cmd now' = controlled ee KPrelaunch (\<lambda>e. e\<lparr>eg_prelaunchMarkets := set_add m (eg_prelaunchMarkets e)\<rparr>) e m cmd now'"

definition open_market :: "engine_env \<Rightarrow> engine \<Rightarrow> string \<Rightarrow> operator_cmd \<Rightarrow> int \<Rightarrow> engine \<times> reject_code option" where
  "open_market ee e m cmd now' =
     controlled ee KOpen (\<lambda>e. e\<lparr>eg_prelaunchMarkets := removeAll m (eg_prelaunchMarkets e), eg_listedMarkets := set_add m (eg_listedMarkets e)\<rparr>)
       e m cmd now'"

definition expire :: "engine_env \<Rightarrow> engine \<Rightarrow> string \<Rightarrow> operator_cmd \<Rightarrow> int \<Rightarrow> engine \<times> reject_code option" where
  "expire ee e m cmd now' =
     (case emergencyGate cmd of
        Some code \<Rightarrow> (e, Some code)
      | None \<Rightarrow> controlled ee KExpire (\<lambda>e. e\<lparr>eg_expiredMarkets := set_add m (eg_expiredMarkets e)\<rparr>) e m cmd now')"

definition delist :: "engine_env \<Rightarrow> engine \<Rightarrow> string \<Rightarrow> operator_cmd \<Rightarrow> int \<Rightarrow> engine \<times> reject_code option" where
  "delist ee e m cmd now' =
     (case or_else (operatorRefuse (readOperatorId (oc_operatorId cmd))) (delistPolicyRefuse cmd) of
        Some code \<Rightarrow> (e, Some code)
      | None \<Rightarrow> controlled ee KDelist (\<lambda>e. e\<lparr>eg_delistedMarkets := set_add m (eg_delistedMarkets e)\<rparr>) e m cmd now')"

definition enterMaintenance :: "engine_env \<Rightarrow> engine \<Rightarrow> string \<Rightarrow> operator_cmd \<Rightarrow> int \<Rightarrow> engine \<times> reject_code option" where
  "enterMaintenance ee e m cmd now' = controlled ee KMaintenance (\<lambda>e. e\<lparr>eg_maintenance := set_add m (eg_maintenance e)\<rparr>) e m cmd now'"

definition endMaintenance :: "engine_env \<Rightarrow> engine \<Rightarrow> string \<Rightarrow> operator_cmd \<Rightarrow> int \<Rightarrow> engine \<times> reject_code option" where
  "endMaintenance ee e m cmd now' = controlled ee KEndMaintenance (\<lambda>e. e\<lparr>eg_maintenance := removeAll m (eg_maintenance e)\<rparr>) e m cmd now'"

section \<open>Switches of the venue\<close>

definition venue_record :: "engine_env \<Rightarrow> venue_kind \<Rightarrow> operator_cmd \<Rightarrow> int \<Rightarrow> journal_record" where
  "venue_record ee kind cmd now' = JVenue kind (ee_iso ee now') (the (readOperatorId (oc_operatorId cmd))) (readConfirmOperatorId (oc_confirmOperatorId cmd))"

text \<open>The engine's own door asks for an operator, the fence before it for two.\<close>

definition base_venue :: "engine_env \<Rightarrow> venue_kind \<Rightarrow> bool \<Rightarrow> engine \<Rightarrow> operator_cmd \<Rightarrow> int \<Rightarrow> engine \<times> reject_code option" where
  "base_venue ee kind halted e cmd now' =
     (case operatorRefuse (readOperatorId (oc_operatorId cmd)) of
        Some code \<Rightarrow> (e, Some code)
      | None \<Rightarrow> ((append (venue_record ee kind cmd now') e)\<lparr>eg_venueHalted := halted\<rparr>, None))"

definition haltAll :: "engine_env \<Rightarrow> engine \<Rightarrow> operator_cmd \<Rightarrow> int \<Rightarrow> engine \<times> reject_code option" where
  "haltAll ee e cmd now' =
     (case or_else (emergencyGate cmd) (dual_refuse cmd) of Some code \<Rightarrow> (e, Some code) | None \<Rightarrow> base_venue ee KHaltAll True e cmd now')"

definition resumeAll :: "engine_env \<Rightarrow> engine \<Rightarrow> operator_cmd \<Rightarrow> int \<Rightarrow> engine \<times> reject_code option" where
  "resumeAll ee e cmd now' =
     (case or_else (emergencyGate cmd) (dual_refuse cmd) of Some code \<Rightarrow> (e, Some code) | None \<Rightarrow> base_venue ee KResumeAll False e cmd now')"

definition declareOrClear :: "engine_env \<Rightarrow> bool \<Rightarrow> engine \<Rightarrow> operator_cmd \<Rightarrow> int \<Rightarrow> engine \<times> reject_code option" where
  "declareOrClear ee declared e cmd now' =
     (case dual_refuse cmd of
        Some code \<Rightarrow> (e, Some code)
      | None \<Rightarrow> ((append (venue_record ee (if declared then KSplitBrain else KClearSplitBrain) cmd now') e)\<lparr>eg_splitBrain := declared\<rparr>, None))"

section \<open>Expiry sweep\<close>

record expiry_sweep_result =
  es_accepted :: bool
  es_cancelled :: "cancelled_ref list"
  es_misses :: "(string \<times> string) list"
  es_rejected :: "reject_code option"

fun sweep_markets :: "engine_env \<Rightarrow> int \<Rightarrow> engine \<Rightarrow> string list \<Rightarrow> engine \<times> cancelled_ref list \<times> (string \<times> string) list \<times> pending_event list" where
  "sweep_markets ee now' e [] = (e, [], [], [])"
| "sweep_markets ee now' e (m # ms) =
     (case map_of (eg_unreadableBooks e) m of
        Some reason \<Rightarrow> (let (e1, cs, misses, evs) = sweep_markets ee now' e ms in (e1, cs, (m, reason) # misses, evs))
      | None \<Rightarrow>
          (case existingBook e m of
             None \<Rightarrow> (let (e1, cs, misses, evs) = sweep_markets ee now' e ms in (e1, cs, (m, ''book missing'') # misses, evs))
           | Some (b, rows) \<Rightarrow>
               (let (e1, cs, failed, evs) = cancel_each ee m Expired now' e (dueExpiry (ee_match ee) b now');
                    (e2, cs2, misses, evs2) = sweep_markets ee now' e1 ms
                in (e2, cs @ cs2, misses, evs @ evs2))))"

definition sweepExpiry :: "engine_env \<Rightarrow> engine \<Rightarrow> int \<Rightarrow> engine \<times> expiry_sweep_result \<times> pending_event list" where
  "sweepExpiry ee e now' =
     (if \<not> eg_expiryClock e then (e, \<lparr>es_accepted = False, es_cancelled = [], es_misses = [], es_rejected = Some EngineClockMissing\<rparr>, [])
      else let (e1, cs, misses, evs) = sweep_markets ee now' e (sort (map fst (eg_books e)))
           in (e1, \<lparr>es_accepted = True, es_cancelled = cs, es_misses = misses, es_rejected = None\<rparr>, evs))"

section \<open>Closing a position\<close>

definition netPositionOf :: "order_book \<Rightarrow> string \<Rightarrow> money_error + amount" where
  "netPositionOf b accountId = (case map_of (bs_positions (toState b)) accountId of None \<Rightarrow> Inr 0 | Some qty \<Rightarrow> parse_text qty)"

definition positionFlatResult :: submit_result where
  "positionFlatResult = rejected (OtherReject ''position_flat'')"

definition flattenCloseOrder :: "string \<Rightarrow> string \<Rightarrow> amount \<Rightarrow> full_order" where
  "flattenCloseOrder orderId accountId net =
     \<lparr>o_orderId = orderId, o_accountId = accountId, o_type = Market, o_side = (if net > 0 then SellSide else BuySide),
       o_qty = (if net > 0 then net else - net), o_price = None, o_stopPrice = None, o_tif = IOC, o_sessionId = None, o_expireAt = None,
       o_ocoSiblingId = None, o_reduceOnly = True, o_triggerRole = None, o_triggerBy = None, o_instrument = None, o_positionQty = None,
       o_displayQty = None, o_iceberg = False, o_trail = None, o_mark = None, o_minQty = None, o_aon = False, o_peg = False,
       o_midpoint = False, o_relative = False, o_reference = None, o_offset = None, o_auction = False, o_benchmark = False,
       o_collar = False, o_min = None, o_max = None, o_minNotional = None, o_spread = False, o_trailNull = False,
       x_bracket = None, x_oco = False, x_takeProfit = Undefined, x_stopLoss = Undefined, x_stopLossLimit = Undefined,
       x_takeProfitOrderId = Undefined, x_stopLossOrderId = Undefined, x_clientOrderId = None, x_environment = None,
       x_strike = Undefined, x_expiry = Undefined, x_exercise = False, x_combo = None, x_legs = Undefined, x_spread = None\<rparr>"

definition closePosition :: "engine_env \<Rightarrow> engine \<Rightarrow> string \<Rightarrow> string \<Rightarrow> string \<Rightarrow> int
    \<Rightarrow> engine \<times> (money_error + submit_result) \<times> pending_event list" where
  "closePosition ee e m orderId accountId now' =
     (if \<not> eg_enabled e then (e, Inr (rejected (OtherReject ''engine_disabled'')), [])
      else case existingBook e m of
        None \<Rightarrow> (e, Inr positionFlatResult, [])
      | Some (b, rows) \<Rightarrow>
          (case netPositionOf b accountId of
             Inl err \<Rightarrow> (e, Inl err, [])
           | Inr net \<Rightarrow>
               if net = 0 then (e, Inr positionFlatResult, [])
               else let (e1, result, evs) = engine_submit ee e m (flattenCloseOrder orderId accountId net) now' in (e1, Inr result, evs)))"

end
