(* ===== verification/Engine_Replay.thy ===== *)
theory Engine_Replay
  imports Engine_Operators
begin

text \<open>
  Replay and recovery: \<^verbatim>\<open>journal-replay.ts\<close> and \<open>recover\<close> of \<^verbatim>\<open>engine.ts\<close> with its extension in
  \<^verbatim>\<open>cod-fence.ts\<close>, and the recovery guarantee: what the journal says is what the engine has.
\<close>

section \<open>Replay\<close>

record replay_fill =
  rf_marketId :: string
  rf_at :: string
  rf_fill :: fill

record replay_hold_cancel =
  rh_marketId :: string
  rh_cancellation :: cancelled_ref

record replay_trigger =
  rt_marketId :: string
  rt_at :: string
  rt_orderId :: string
  rt_sequence :: nat
  rt_trigger :: trigger_fact

record replay_state =
  rp_books :: "(string \<times> market_book) list"
  rp_fills :: "replay_fill list"
  rp_holdCancels :: "replay_hold_cancel list"
  rp_triggers :: "replay_trigger list"
  rp_dead :: "string list"

definition journalClock :: "engine_env \<Rightarrow> string \<Rightarrow> int option" where
  "journalClock ee at' = date_parse (ee_match ee) at'"

definition dead_book :: "string \<Rightarrow> (string \<times> market_book) list \<Rightarrow> string \<Rightarrow> (string \<times> market_book) list" where
  "dead_book sessionId books m =
     (case map_of books m of
        None \<Rightarrow> books
      | Some (b, rows) \<Rightarrow> drop_never_traded m (AList.update m (fst (cancelSession b sessionId), rows) books))"

definition applySessionDead :: "(string \<times> market_book) list \<Rightarrow> string \<Rightarrow> (string \<times> market_book) list" where
  "applySessionDead books sessionId = foldl (dead_book sessionId) books (map fst books)"

definition submitSessionDead :: "wire_order \<Rightarrow> string list \<Rightarrow> bool" where
  "submitSessionDead order dead = (case w_sessionId order of None \<Rightarrow> False | Some s \<Rightarrow> s \<noteq> [] \<and> s \<in> set dead)"

text \<open>Fills that a result reports twice are one. The source compares objects; the fills of one result that
  are equal are the same object.\<close>

definition collect_fills :: "string \<Rightarrow> string \<Rightarrow> fill list \<Rightarrow> trigger_outcome list \<Rightarrow> replay_fill list" where
  "collect_fills m at' fills triggered =
     sort_key (f_sequence \<circ> rf_fill) (map (\<lambda>f. \<lparr>rf_marketId = m, rf_at = at', rf_fill = f\<rparr>)
       (foldl (\<lambda>seen f. set_add f seen) [] (fills @ concat (map t_fills triggered))))"

definition collect_triggers :: "string \<Rightarrow> string \<Rightarrow> trigger_outcome list \<Rightarrow> replay_trigger list" where
  "collect_triggers m at' triggered = List.map_filter (\<lambda>t. map_option (\<lambda>trigger. \<lparr>rt_marketId = m, rt_at = at',
     rt_orderId = t_orderId t, rt_sequence = t_sequence t, rt_trigger = trigger\<rparr>) (t_trigger t)) triggered"

definition collectFills :: "string \<Rightarrow> string \<Rightarrow> fill list \<Rightarrow> trigger_outcome list \<Rightarrow> replay_state \<Rightarrow> replay_state" where
  "collectFills m at' fills triggered st = st\<lparr>rp_fills := rp_fills st @ collect_fills m at' fills triggered,
     rp_triggers := rp_triggers st @ collect_triggers m at' triggered\<rparr>"

definition bookFor :: "(string \<times> market_book) list \<Rightarrow> string \<Rightarrow> market_book" where
  "bookFor books m = (case map_of books m of Some mb \<Rightarrow> mb | None \<Rightarrow> (new_book m, []))"

text \<open>One record. Control records are skipped; a cancel, a mass cancel, an amendment and a mark never open a
  market.\<close>

fun replay_record :: "engine_env \<Rightarrow> replay_state \<Rightarrow> journal_record \<Rightarrow> money_error + replay_state" where
  "replay_record ee st (JSessionDead at' sessionId) =
     Inr (st\<lparr>rp_dead := set_add sessionId (rp_dead st), rp_books := applySessionDead (rp_books st) sessionId\<rparr>)"
| "replay_record ee st (JSubmit m at' w) =
     (if submitSessionDead w (rp_dead st) then Inr st
      else bindE (fromWire w) (\<lambda>order.
        let (mb, result) = trailing_submit (ee_match ee) (bookFor (rp_books st) m) (trail_order.truncate order) (journalClock ee at') in
        Inr (collectFills m at' (s_fills result) (s_triggered result)
          (st\<lparr>rp_books := drop_never_traded m (AList.update m mb (rp_books st))\<rparr>))))"
| "replay_record ee st (JAmend m at' orderId version patch) =
     (case map_of (rp_books st) m of
        None \<Rightarrow> Inr st
      | Some (b, rows) \<Rightarrow> bindE (fromWireAmend orderId version patch) (\<lambda>cmd.
          let (b1, result) = amend (ee_match ee) b cmd (journalClock ee at') in
          Inr (collectFills m at' (ar_fills result) (ar_triggered result)
            (st\<lparr>rp_books := drop_never_traded m (AList.update m (b1, rows) (rp_books st))\<rparr>))))"
| "replay_record ee st (JMark m at' mark) =
     (case map_of (rp_books st) m of
        None \<Rightarrow> Inr st
      | Some (b, rows) \<Rightarrow> bindE (parse_text mark) (\<lambda>a.
          case applyMark (ee_match ee) b rows (Some a) of
            (mb, Inl err) \<Rightarrow> Inl err
          | (mb, Inr _) \<Rightarrow> Inr (st\<lparr>rp_books := AList.update m mb (rp_books st)\<rparr>)))"
| "replay_record ee st (JMassCancel m at' accountId side) =
     (case map_of (rp_books st) m of
        None \<Rightarrow> Inr st
      | Some (b, rows) \<Rightarrow> Inr (st\<lparr>rp_books := drop_never_traded m (AList.update m (fst (cancelAccount b accountId side), rows) (rp_books st))\<rparr>))"
| "replay_record ee st (JCancel m at' orderId reason) =
     (case map_of (rp_books st) m of
        None \<Rightarrow> Inr st
      | Some (b, rows) \<Rightarrow>
          (let (b1, result) = cancel b orderId (case reason of Some r \<Rightarrow> r | None \<Rightarrow> Requested);
               st1 = st\<lparr>rp_books := AList.update m (b1, rows) (rp_books st)\<rparr>
           in Inr (case cr_cancellation result of
               Some c \<Rightarrow> if reason = Some HoldUnconfirmed then st1\<lparr>rp_holdCancels := rp_holdCancels st @ [\<lparr>rh_marketId = m, rh_cancellation = c\<rparr>]\<rparr> else st1
             | None \<Rightarrow> st1)))"
| "replay_record ee st _ = Inr st"

primrec replay_from :: "engine_env \<Rightarrow> replay_state \<Rightarrow> journal_record list \<Rightarrow> money_error + replay_state" where
  "replay_from ee st [] = Inr st"
| "replay_from ee st (r # rs) = bindE (replay_record ee st r) (\<lambda>st1. replay_from ee st1 rs)"

definition replayJournal :: "engine_env \<Rightarrow> journal_record list \<Rightarrow> money_error + replay_state" where
  "replayJournal ee records = replay_from ee \<lparr>rp_books = [], rp_fills = [], rp_holdCancels = [], rp_triggers = [], rp_dead = []\<rparr> records"

section \<open>Recovery\<close>

definition announced :: "replay_state \<Rightarrow> pending_event list" where
  "announced st = sort_key event_sequence
     (map (\<lambda>row. OrderFilled (rf_marketId row) (rf_fill row) (rf_at row)) (rp_fills st)
      @ map (\<lambda>row. OrderCancelled (rh_marketId row) (rh_cancellation row)) (rp_holdCancels st)
      @ map (\<lambda>row. OrderTriggered (rt_marketId row) (rt_orderId row) (rt_sequence row) (rt_trigger row) (rt_at row)) (rp_triggers st))"

definition recover :: "engine_env \<Rightarrow> engine \<Rightarrow> money_error + engine \<times> pending_event list" where
  "recover ee e =
     (let records = eg_journal e in
      bindE (replayJournal ee records) (\<lambda>replayed.
        Inr (e\<lparr>eg_books := rp_books replayed, eg_halted := replayHaltedMarkets records, eg_maintenance := replayMaintenance records,
          eg_unreadableBooks := [], eg_admissionClosed := None, eg_holdHalted := [], eg_venueHalted := replayVenueHalted records,
          eg_reduceOnlyMarkets := replayReduceOnlyMarkets records, eg_postOnlyMarkets := replayPostOnlyMarkets records,
          eg_prelaunchMarkets := replayPrelaunchMarkets records, eg_listedMarkets := replayOpenedMarkets records,
          eg_expiredMarkets := replayExpiredMarkets records, eg_delistedMarkets := replayDelistedMarkets records,
          eg_deadSessions := replayDeadSessions records, eg_inFlight := replayInFlight records,
          eg_splitBrain := replaySplitBrain records\<rparr>, announced replayed)))"

end
