(* ===== verification/Engine_Rows.thy ===== *)
theory Engine_Rows
  imports Engine_Replay
begin

text \<open>
  The rows of a snapshot and the rows of a book name the same orders in the same order, so that a
  mass cancel and a dead session pull the same orders when they are issued and when they are
  replayed.
\<close>

section \<open>Queues and the index\<close>

lemma distinct_concat_keys:
  "distinct (map fst ls) \<Longrightarrow> \<forall>l \<in> set ls. distinct (snd l) \<and> (\<forall>i \<in> set (snd l). k i = fst l) \<Longrightarrow> distinct (concat (map snd ls))"
proof (induction ls)
  case (Cons l ls)
  have "i \<notin> set (concat (map snd ls))" if i: "i \<in> set (snd l)" for i
  proof
    assume "i \<in> set (concat (map snd ls))"
    then obtain l' where l': "l' \<in> set ls" "i \<in> set (snd l')" by auto
    then have "fst l' = fst l" using Cons.prems(2) i by (metis list.set_intros(1,2))
    then show False using Cons.prems(1) l'(1) by (metis distinct.simps(2) image_eqI list.set_map list.simps(9))
  qed
  then show ?case using Cons by auto
qed simp

definition queue :: "order_book \<Rightarrow> order_side \<Rightarrow> resting_order list" where
  "queue b s = concat (map (queue_of b) (levels_of s b))"

lemma better_distinct: "sorted_wrt (better s) ps \<Longrightarrow> distinct ps"
  by (induction ps) (use better_irrefl in auto)

lemma distinct_level_ids:
  assumes "book_wf b"
  shows "distinct (map r_orderId (queue b s))"
proof -
  have s: "distinct (map fst (levels_of s b))"
    using assms by (auto simp: book_wf_def level_ok_def intro: better_distinct)
  have "map r_orderId (queue b s) = concat (map snd (levels_of s b))"
    unfolding queue_def map_concat by (rule arg_cong [where f = concat]) (use queue_of_ids [OF assms] in auto)
  moreover have "distinct (concat (map snd (levels_of s b)))"
    by (rule distinct_concat_keys [OF s, where k = "\<lambda>i. r_price (the (get_resting b i))"])
      (use assms in \<open>fastforce simp: book_wf_def level_ok_def\<close>)
  ultimately show ?thesis by simp
qed

lemma set_queue:
  assumes "book_wf b"
  shows "r \<in> set (queue b s) \<longleftrightarrow> get_resting b (r_orderId r) = Some r \<and> r_side r = s"
proof
  assume "r \<in> set (queue b s)"
  then show "get_resting b (r_orderId r) = Some r \<and> r_side r = s" using queue_of_member [OF assms] by (auto simp: queue_def)
next
  assume a: "get_resting b (r_orderId r) = Some r \<and> r_side r = s"
  then obtain ids where "(r_price r, ids) \<in> set (levels_of s b)" "r_orderId r \<in> set ids"
    using assms unfolding book_wf_def indexed_ok_def by blast
  then show "r \<in> set (queue b s)" using a by (force simp: queue_def List.map_filter_def)
qed

lemma mset_queues:
  assumes "book_inv b"
  shows "mset (queue b BuySide @ queue b SellSide) = mset (resting_rows b)"
proof -
  have wf: "book_wf b" using assms by (simp add: book_inv_def)
  have "distinct (queue b BuySide @ queue b SellSide)"
    using distinct_level_ids [OF wf] set_queue [OF wf] by (auto simp: distinct_map)
  moreover have "distinct (resting_rows b)" using row_ids(2) [OF assms] by (simp add: distinct_map)
  moreover have "set (queue b BuySide @ queue b SellSide) = set (resting_rows b)"
  proof (rule set_eqI)
    fix r :: resting_order
    have "r_side r = BuySide \<or> r_side r = SellSide" by (cases "r_side r") simp_all
    then show "r \<in> set (queue b BuySide @ queue b SellSide) \<longleftrightarrow> r \<in> set (resting_rows b)"
      unfolding row_ids(3) [OF assms] by (auto simp: set_queue [OF wf])
  qed
  ultimately show ?thesis using set_eq_iff_mset_eq_distinct by blast
qed

lemma sort_key_mset:
  assumes "mset xs = mset ys" "inj_on f (set xs)"
  shows "sort_key f xs = sort_key f ys"
  by (rule sort_key_inj_key_eq) (use assms in simp_all)

section \<open>Rows of a snapshot\<close>

definition distinct_sequences :: "order_book \<Rightarrow> bool" where
  "distinct_sequences b \<longleftrightarrow> distinct (map r_sequence (resting_rows b) @ map st_sequence (b_stops b))"

definition owned_row :: "resting_order \<Rightarrow> live_owned" where
  "owned_row r = \<lparr>lo_orderId = r_orderId r, lo_accountId = r_accountId r, lo_sequence = r_sequence r, lo_side = r_side r\<rparr>"

lemma owned_from_state:
  assumes "book_wf b"
  shows "liveOwnedFromState (toState b) = map owned_row (queue b BuySide @ queue b SellSide)
    @ map (\<lambda>s. \<lparr>lo_orderId = st_orderId s, lo_accountId = st_accountId s, lo_sequence = st_sequence s, lo_side = st_side s\<rparr>) (b_stops b)"
proof -
  have q: "map (\<lambda>r. \<lparr>lo_orderId = r_orderId r, lo_accountId = r_accountId r, lo_sequence = r_sequence r, lo_side = s\<rparr>) (queue_of b l)
      = map owned_row (queue_of b l)" if "l \<in> set (levels_of s b)" for l s
    using queue_of_member(2) [OF assms that] by (auto simp: owned_row_def)
  have side: "concat (map (\<lambda>level. map (\<lambda>r. \<lparr>lo_orderId = rs_orderId r, lo_accountId = rs_accountId r, lo_sequence = rs_sequence r, lo_side = s\<rparr>)
      (lv_orders level)) (foldLevels b (levels_of s b))) = map owned_row (queue b s)" for s
    using q by (auto simp: foldLevels_def queue_def map_concat comp_def resting_state_of_def intro!: arg_cong [where f = concat])
  show ?thesis
    using side [of BuySide] side [of SellSide]
    by (simp add: liveOwnedFromState_def toState_def levels_of_def stop_state_of_def comp_def)
qed

lemma owned_ids_agree:
  assumes "book_inv b" "distinct_sequences b"
  shows "ownedOrderIds acc (liveOwnedFromState (toState b)) side = ownedOrderIds acc (live_owned_rows b) side"
proof -
  have wf: "book_wf b" using assms(1) by (simp add: book_inv_def)
  let ?st = "map (\<lambda>s. \<lparr>lo_orderId = st_orderId s, lo_accountId = st_accountId s, lo_sequence = st_sequence s, lo_side = st_side s\<rparr>) (b_stops b)"
  have rows: "live_owned_rows b = map owned_row (resting_rows b) @ ?st"
    by (simp add: live_owned_rows_def owned_row_def)
  have m: "mset (liveOwnedFromState (toState b)) = mset (live_owned_rows b)"
    unfolding owned_from_state [OF wf] rows using mset_queues [OF assms(1)] by (simp flip: image_mset_union)
  have "map lo_sequence (live_owned_rows b) = map r_sequence (resting_rows b) @ map st_sequence (b_stops b)"
    by (simp add: rows owned_row_def comp_def)
  then have inj: "inj_on lo_sequence (set (live_owned_rows b))"
    using assms(2) unfolding distinct_sequences_def by (metis distinct_map)
  have "set (liveOwnedFromState (toState b)) = set (live_owned_rows b)" using m by (metis set_mset_mset)
  then show ?thesis
    unfolding ownedOrderIds_def
    by (intro if_cong refl arg_cong [where f = "map lo_orderId"] sort_key_mset) (use m inj in \<open>auto simp: inj_on_def\<close>)
qed

text \<open>A snapshot keeps the session of an order when it is not empty, and a dead session is never empty.\<close>

lemma present_Some: "sid \<noteq> [] \<Longrightarrow> present s = Some sid \<longleftrightarrow> s = Some sid"
  by (auto simp: present_def split: if_splits option.splits)

definition session_row :: "(string option \<Rightarrow> string option) \<Rightarrow> resting_order \<Rightarrow> live_session" where
  "session_row f r = \<lparr>ls_orderId = r_orderId r, ls_sessionId = f (r_sessionId r), ls_sequence = r_sequence r\<rparr>"

definition session_stop :: "(string option \<Rightarrow> string option) \<Rightarrow> stop_order \<Rightarrow> live_session" where
  "session_stop f s = \<lparr>ls_orderId = st_orderId s, ls_sessionId = f (st_sessionId s), ls_sequence = st_sequence s\<rparr>"

lemma session_from_state:
  "liveSessionFromState (toState b) = map (session_row present) (queue b BuySide @ queue b SellSide) @ map (session_stop present) (b_stops b)"
proof -
  have side: "concat (map (\<lambda>level. map (\<lambda>r. \<lparr>ls_orderId = rs_orderId r, ls_sessionId = rs_sessionId r, ls_sequence = rs_sequence r\<rparr>)
      (lv_orders level)) (foldLevels b (levels_of s b))) = map (session_row present) (queue b s)" for s
    by (simp add: foldLevels_def queue_def map_concat comp_def resting_state_of_def session_row_def [abs_def])
  show ?thesis
    using side [of BuySide] side [of SellSide]
    by (simp add: liveSessionFromState_def toState_def levels_of_def stop_state_of_def comp_def session_stop_def [abs_def])
qed

lemma filter_session:
  assumes "sid \<noteq> []"
  shows "filter (\<lambda>row. ls_sessionId row = Some sid) (map (session_row present) rs) = filter (\<lambda>row. ls_sessionId row = Some sid) (map (session_row (\<lambda>s. s)) rs)"
    "filter (\<lambda>row. ls_sessionId row = Some sid) (map (session_stop present) ss) = filter (\<lambda>row. ls_sessionId row = Some sid) (map (session_stop (\<lambda>s. s)) ss)"
  by (induction rs; use present_Some [OF assms] in \<open>simp add: session_row_def\<close>)
    (induction ss; use present_Some [OF assms] in \<open>simp add: session_stop_def\<close>)

lemma session_ids_agree:
  assumes "book_inv b" "distinct_sequences b"
  shows "sessionOrderIds sid (liveSessionFromState (toState b)) = sessionOrderIds sid (live_session_rows b)"
proof (cases "sid = []")
  case False
  let ?P = "\<lambda>row. ls_sessionId row = Some sid"
  have rows: "live_session_rows b = map (session_row (\<lambda>s. s)) (resting_rows b) @ map (session_stop (\<lambda>s. s)) (b_stops b)"
    by (simp add: live_session_rows_def session_row_def session_stop_def)
  have "mset (filter ?P (liveSessionFromState (toState b))) = filter_mset ?P (image_mset (session_row (\<lambda>s. s)) (mset (queue b BuySide @ queue b SellSide)))
      + mset (filter ?P (map (session_stop (\<lambda>s. s)) (b_stops b)))"
    unfolding session_from_state filter_append filter_session [OF False] mset_append mset_filter mset_map ..
  also have "\<dots> = mset (filter ?P (live_session_rows b))" unfolding mset_queues [OF assms(1)] rows by simp
  finally have m: "mset (filter ?P (liveSessionFromState (toState b))) = mset (filter ?P (live_session_rows b))" .
  have "map ls_sequence (live_session_rows b) = map r_sequence (resting_rows b) @ map st_sequence (b_stops b)"
    by (simp add: rows session_row_def session_stop_def comp_def)
  then have inj: "inj_on ls_sequence (set (live_session_rows b))"
    using assms(2) unfolding distinct_sequences_def by (metis distinct_map)
  have "set (filter ?P (liveSessionFromState (toState b))) = set (filter ?P (live_session_rows b))" using m by (metis set_mset_mset)
  then have "sort_key ls_sequence (filter ?P (liveSessionFromState (toState b))) = sort_key ls_sequence (filter ?P (live_session_rows b))"
    by (intro sort_key_mset m) (use inj in \<open>auto simp: inj_on_def\<close>)
  then show ?thesis by (simp add: sessionOrderIds_def)
qed (simp add: sessionOrderIds_def)

end
