(* ===== verification/Engine_Sync.thy ===== *)
theory Engine_Sync
  imports Engine_Rows
begin

text \<open>
  The recovery guarantee of the engine. An engine is in step with its journal when replaying the
  journal gives its books and its control state. Every command keeps the engine in step under the
  condition it needs, and an engine in step is what recovery rebuilds.
\<close>

section \<open>Books under replay\<close>

definition books_ok :: "(string \<times> market_book) list \<Rightarrow> bool" where
  "books_ok bs \<longleftrightarrow> distinct (map fst bs) \<and> (\<forall>m b rows. map_of bs m = Some (b, rows) \<longrightarrow> book_inv b)"

lemma books_ok_update: "books_ok bs \<Longrightarrow> book_inv (fst mb) \<Longrightarrow> books_ok (AList.update m mb bs)"
  by (auto simp: books_ok_def distinct_update update_conv')

lemma books_ok_delete: "books_ok bs \<Longrightarrow> books_ok (AList.delete m bs)"
  by (auto simp: books_ok_def distinct_delete delete_conv')

lemma books_ok_drop: "books_ok bs \<Longrightarrow> books_ok (drop_never_traded m bs)"
  by (auto simp: drop_never_traded_def books_ok_delete split: option.splits)

lemma map_of_drop:
  "map_of (drop_never_traded m bs) = (case map_of bs m of Some (b, _) \<Rightarrow> if isNeverPrintedEmpty b then (map_of bs)(m := None) else map_of bs | None \<Rightarrow> map_of bs)"
  by (auto simp: drop_never_traded_def delete_conv' split: option.splits)

lemma books_ok_get: "books_ok bs \<Longrightarrow> map_of bs m = Some mb \<Longrightarrow> book_inv (fst mb)"
  unfolding books_ok_def by (metis prod.collapse)

lemma bookFor_inv: "books_ok bs \<Longrightarrow> book_inv (fst (bookFor bs m))"
  by (auto simp: bookFor_def new_book_inv books_ok_get split: option.splits)

lemma book_bookFor: "engine_book e m = bookFor (eg_books e) m"
  by (simp add: engine_book_def bookFor_def existingBook_def)

lemma bookFor_cong: "map_of bs = map_of bs' \<Longrightarrow> bookFor bs m = bookFor bs' m"
  by (simp add: bookFor_def)

lemma trailing_submit_inv:
  assumes "book_inv (fst mb)"
  shows "book_inv (fst (fst (trailing_submit env mb order t)))"
proof -
  have "submit env b o' t = (b1, r) \<Longrightarrow> book_inv b \<Longrightarrow> book_inv b1" for b o' b1 r
    using submit_admits [of b o' env t] by (simp add: admits_def)
  then show ?thesis
    using assms unfolding trailing_submit_def by (auto simp: Let_def split: prod.splits option.splits if_splits)
qed

section \<open>Being in step\<close>

definition matches :: "replay_state \<Rightarrow> engine \<Rightarrow> bool" where
  "matches st e \<longleftrightarrow> map_of (rp_books st) = map_of (eg_books e) \<and> rp_dead st = eg_deadSessions e \<and> books_ok (rp_books st) \<and> books_ok (eg_books e)"

definition control_synced :: "engine \<Rightarrow> bool" where
  "control_synced e \<longleftrightarrow> (let rs = eg_journal e in
     eg_halted e = replayHaltedMarkets rs \<and> eg_maintenance e = replayMaintenance rs \<and> eg_venueHalted e = replayVenueHalted rs
     \<and> eg_reduceOnlyMarkets e = replayReduceOnlyMarkets rs \<and> eg_postOnlyMarkets e = replayPostOnlyMarkets rs
     \<and> eg_prelaunchMarkets e = replayPrelaunchMarkets rs \<and> eg_listedMarkets e = replayOpenedMarkets rs
     \<and> eg_expiredMarkets e = replayExpiredMarkets rs \<and> eg_delistedMarkets e = replayDelistedMarkets rs
     \<and> eg_deadSessions e = replayDeadSessions rs \<and> eg_inFlight e = replayInFlight rs \<and> eg_splitBrain e = replaySplitBrain rs)"

definition synced :: "engine_env \<Rightarrow> engine \<Rightarrow> bool" where
  "synced ee e \<longleftrightarrow> eg_expiryClock e \<and> control_synced e \<and> (\<forall>s \<in> set (eg_deadSessions e). readSessionId (Some s) = Some s)
     \<and> (\<exists>st. replayJournal ee (eg_journal e) = Inr st \<and> matches st e)"

lemma replay_from_append: "replay_from ee st (rs @ rs') = bindE (replay_from ee st rs) (\<lambda>st1. replay_from ee st1 rs')"
  by (induction rs arbitrary: st) (auto split: sum.splits simp: bindE_eq_Inl, (metis bindE.simps old.sum.exhaust)+)

lemma synced_step:
  assumes "synced ee e" "eg_journal e' = eg_journal e @ rs" "control_synced e'" "eg_expiryClock e' = eg_expiryClock e"
    and "\<forall>s \<in> set (eg_deadSessions e'). readSessionId (Some s) = Some s"
    and "\<And>st. matches st e \<Longrightarrow> \<exists>st'. replay_from ee st rs = Inr st' \<and> matches st' e'"
  shows "synced ee e'"
proof -
  obtain st where st: "replayJournal ee (eg_journal e) = Inr st" "matches st e" using assms(1) by (auto simp: synced_def)
  obtain st' where "replay_from ee st rs = Inr st'" "matches st' e'" using assms(6) [OF st(2)] by blast
  then have "replayJournal ee (eg_journal e') = Inr st'" "matches st' e'"
    using st(1) by (simp_all add: assms(2) replayJournal_def replay_from_append)
  then show ?thesis using assms(1,3-5) by (auto simp: synced_def)
qed

text \<open>One more record, for every part of the control state.\<close>

lemma replay_snoc [simp]:
  "replayHaltedMarkets (rs @ [r]) = switch KHalt (Some KResume) (replayHaltedMarkets rs) r"
  "replayMaintenance (rs @ [r]) = switch KMaintenance (Some KEndMaintenance) (replayMaintenance rs) r"
  "replayReduceOnlyMarkets (rs @ [r]) = switch KReduceOnly (Some KResumeReduceOnly) (replayReduceOnlyMarkets rs) r"
  "replayPostOnlyMarkets (rs @ [r]) = switch KPostOnly (Some KResumePostOnly) (replayPostOnlyMarkets rs) r"
  "replayPrelaunchMarkets (rs @ [r]) = switch KPrelaunch (Some KOpen) (replayPrelaunchMarkets rs) r"
  "replayOpenedMarkets (rs @ [r]) = switch KOpen None (replayOpenedMarkets rs) r"
  "replayExpiredMarkets (rs @ [r]) = switch KExpire None (replayExpiredMarkets rs) r"
  "replayDelistedMarkets (rs @ [r]) = switch KDelist None (replayDelistedMarkets rs) r"
  "replayVenueHalted (rs @ [r]) = venue_switch KHaltAll KResumeAll (replayVenueHalted rs) r"
  "replaySplitBrain (rs @ [r]) = venue_switch KSplitBrain KClearSplitBrain (replaySplitBrain rs) r"
  "replayDeadSessions (rs @ [r]) = note_dead (replayDeadSessions rs) r"
  "replayInFlight (rs @ [r]) = mark_in_flight (replayInFlight rs) r"
  by (simp_all add: replayHaltedMarkets_def replayMaintenance_def replayReduceOnlyMarkets_def replayPostOnlyMarkets_def
      replayPrelaunchMarkets_def replayOpenedMarkets_def replayExpiredMarkets_def replayDelistedMarkets_def replayVenueHalted_def
      replaySplitBrain_def replayDeadSessions_def replayInFlight_def)

lemmas record_effects = switch_def venue_switch_def note_dead_def mark_in_flight_def

lemma engine_fields [simp]:
  "eg_journal (append r e) = eg_journal e @ [r]" "eg_books (append r e) = eg_books e"
  "eg_journal (put_book m mb e) = eg_journal e" "eg_books (put_book m mb e) = AList.update m mb (eg_books e)"
  "eg_journal (dropIfNeverTraded m e) = eg_journal e" "eg_books (dropIfNeverTraded m e) = drop_never_traded m (eg_books e)"
  "eg_expiryClock (append r e) = eg_expiryClock e" "eg_expiryClock (put_book m mb e) = eg_expiryClock e"
  "eg_expiryClock (dropIfNeverTraded m e) = eg_expiryClock e"
  "eg_deadSessions (append r e) = eg_deadSessions e" "eg_deadSessions (put_book m mb e) = eg_deadSessions e"
  "eg_deadSessions (dropIfNeverTraded m e) = eg_deadSessions e"
  "eg_inFlight (append r e) = eg_inFlight e" "eg_inFlight (put_book m mb e) = eg_inFlight e" "eg_inFlight (dropIfNeverTraded m e) = eg_inFlight e"
  "eg_maintenance (append r e) = eg_maintenance e" "eg_maintenance (put_book m mb e) = eg_maintenance e"
  "eg_maintenance (dropIfNeverTraded m e) = eg_maintenance e"
  by (simp_all add: append_def put_book_def dropIfNeverTraded_def)

text \<open>Changing books is not a matter of control, and neither is a record of an order.\<close>

lemma control_books [simp]:
  "control_synced (put_book m mb e) \<longleftrightarrow> control_synced e" "control_synced (dropIfNeverTraded m e) \<longleftrightarrow> control_synced e"
  by (simp_all add: control_synced_def put_book_def dropIfNeverTraded_def Let_def)

lemma control_append:
  assumes "control_synced e"
  shows "control_synced (append (JSubmit m t w) e)" "control_synced (append (JMassCancel m t a s) e)" "control_synced (append (JMark m t x) e)"
    "map_of (eg_inFlight e) i = None \<Longrightarrow> control_synced (append (JCancel m t i why) e)"
    "map_of (eg_inFlight e) i = None \<Longrightarrow> control_synced (append (JAmend m t i v p) e)"
proof -
  have d: "map_of (eg_inFlight e) i = None \<Longrightarrow> AList.delete i (replayInFlight (eg_journal e)) = replayInFlight (eg_journal e)"
    using assms delete_absent [of i "eg_inFlight e"] by (auto simp: control_synced_def Let_def map_of_eq_None_iff)
  show "control_synced (append (JSubmit m t w) e)" "control_synced (append (JMassCancel m t a s) e)" "control_synced (append (JMark m t x) e)"
    "map_of (eg_inFlight e) i = None \<Longrightarrow> control_synced (append (JCancel m t i why) e)"
    "map_of (eg_inFlight e) i = None \<Longrightarrow> control_synced (append (JAmend m t i v p) e)"
    using assms d by (simp_all add: control_synced_def Let_def append_def record_effects)
qed

section \<open>Submission\<close>

text \<open>A retry of an accepted id changes nothing, as long as it carries no position.\<close>

lemma duplicate_submit:
  assumes "hasAccepted b (o_orderId order)" "o_positionQty order = None"
  shows "\<exists>code. submit env b order t = (b, rejected code)"
proof (cases "pegIntentRefuse order")
  case None
  have p: "o_positionQty (bindPegRelative order) = None" using assms(2) by (auto simp: bindPegRelative_def split: option.splits)
  then have n: "note_position (bindPegRelative order) b = b" by (simp add: note_position_def)
  have "refuse_if (hasAccepted b (o_orderId (bindPegRelative order)) \<or> isLive b (o_orderId (bindPegRelative order))) DuplicateOrderId \<noteq> None"
    using assms(1) by simp
  then have "validate env b (bindPegRelative order) t \<noteq> None" by (auto simp: validate_def)
  then show ?thesis using None n by (auto simp: submit_def Let_def)
qed (auto simp: submit_def)

lemma truncate_fields [simp]:
  "o_orderId (engine_order.truncate r) = o_orderId r" "o_positionQty (engine_order.truncate r) = o_positionQty r"
  "o_orderId (trail_order.truncate f) = o_orderId f" "o_positionQty (trail_order.truncate f) = o_positionQty f"
  by (simp_all add: engine_order.truncate_def trail_order.truncate_def)

lemma duplicate_trailing:
  assumes "hasAccepted (fst mb) (o_orderId order)" "o_positionQty order = None"
  shows "fst (trailing_submit env mb order t) = mb"
proof -
  obtain b rows where mb: "mb = (b, rows)" by fastforce
  have s: "o_orderId o' = o_orderId order \<Longrightarrow> o_positionQty o' = None \<Longrightarrow> \<exists>code. submit env b o' t = (b, rejected code)" for o'
    using duplicate_submit assms(1) by (simp add: mb)
  have a: "\<not> s_accepted (rejected code)" for code by (simp add: rejected_def)
  show ?thesis
    unfolding trailing_submit_def mb
    using s [of "core_order order"] s [of "(core_order order)\<lparr>o_type := Stop, o_price := None, o_stopPrice := Some p\<rparr>" for p] assms(2) a
    by (auto simp: Let_def split: option.splits prod.splits) (metis Pair_inject)+
qed

lemma map_of_put: "map_of bs = map_of bs' \<Longrightarrow> map_of (AList.update m mb bs) = map_of (AList.update m mb bs')"
  by (simp add: update_conv')

lemma map_of_drop_cong: "map_of bs = map_of bs' \<Longrightarrow> map_of (drop_never_traded m bs) = map_of (drop_never_traded m bs')"
  unfolding map_of_drop by (simp only:)

lemma drop_put_matches:
  assumes "matches st e" "book_inv (fst mb)" "rp_books st' = drop_never_traded m (AList.update m mb (rp_books st))" "rp_dead st' = rp_dead st"
    and "eg_books e' = drop_never_traded m (AList.update m mb (eg_books e))" "eg_deadSessions e' = eg_deadSessions e"
  shows "matches st' e'"
  using assms map_of_drop_cong [OF map_of_put [of "rp_books st" "eg_books e"]] by (simp add: matches_def books_ok_drop books_ok_update)

lemma put_matches:
  assumes "matches st e" "book_inv (fst mb)" "rp_books st' = AList.update m mb (rp_books st)" "rp_dead st' = rp_dead st"
    and "eg_books e' = AList.update m mb (eg_books e)" "eg_deadSessions e' = eg_deadSessions e"
  shows "matches st' e'"
  using assms map_of_put [of "rp_books st" "eg_books e"] by (simp add: matches_def books_ok_update)

lemma collectFills_fields [simp]:
  "rp_books (collectFills m t fs ts st) = rp_books st" "rp_dead (collectFills m t fs ts st) = rp_dead st"
  by (simp_all add: collectFills_def)

definition iso_ok :: "engine_env \<Rightarrow> bool" where
  "iso_ok ee \<longleftrightarrow> (\<forall>t. date_parse (ee_match ee) (ee_iso ee t) = Some t)"

text \<open>What a submission needs to be recoverable: its amounts fit the column, its optional fields are in
  normal form, and a retry of an accepted id carries no position.\<close>

definition regular_submit :: "engine \<Rightarrow> string \<Rightarrow> full_order \<Rightarrow> bool" where
  "regular_submit e m order \<longleftrightarrow> in_column order \<and> wire_form order = order
     \<and> (case existingBook e m of Some (b, _) \<Rightarrow> hasAccepted b (o_orderId order) \<longrightarrow> o_positionQty order = None | None \<Rightarrow> True)"

lemma gate_session:
  assumes "submit_gate e m order = None" "\<forall>s \<in> set (eg_deadSessions e). readSessionId (Some s) = Some s"
  shows "\<not> submitSessionDead (toWire order) (eg_deadSessions e)"
proof
  assume "submitSessionDead (toWire order) (eg_deadSessions e)"
  then obtain s where s: "present (o_sessionId order) = Some s" "s \<noteq> []" "s \<in> set (eg_deadSessions e)"
    by (auto simp: submitSessionDead_def toWire_def split: option.splits)
  then have "readSessionId (o_sessionId order) = Some s" using assms(2) present_Some by metis
  then show False using assms(1) s(3) by (simp add: submit_gate_def split: if_splits)
qed

lemma synced_same_books:
  assumes "synced ee e" "map_of bs = map_of (eg_books e)" "books_ok bs"
  shows "synced ee (e\<lparr>eg_books := bs\<rparr>)"
  by (rule synced_step [OF assms(1), of _ "[]"])
    (use assms in \<open>auto simp: synced_def control_synced_def matches_def Let_def\<close>)

lemma synced_books_ok: "synced ee e \<Longrightarrow> books_ok (eg_books e)"
  by (auto simp: synced_def matches_def)

lemma synced_submit:
  assumes "synced ee e" "iso_ok ee" "regular_submit e m order"
  shows "synced ee (fst (engine_submit ee e m order t))"
proof (cases "eg_splitBrain e \<or> submit_gate e m order \<noteq> None")
  case True
  then show ?thesis using assms(1) by (auto simp: engine_submit_def base_submit_def)
next
  case open': False
  then have gate: "submit_gate e m order = None" by simp
  have clock: "expiry_now e t = Some t" using assms(1) by (simp add: synced_def expiry_now_def)
  let ?dup = "case existingBook e m of Some (b, _) \<Rightarrow> hasAccepted b (o_orderId order) | None \<Rightarrow> False"
  show ?thesis
  proof (cases ?dup)
    case True
    then obtain mb where mb: "map_of (eg_books e) m = Some mb" "hasAccepted (fst mb) (o_orderId order)" "o_positionQty order = None"
      using assms(3) by (auto simp: existingBook_def regular_submit_def split: option.splits)
    have "engine_book e m = mb" by (simp add: engine_book_def existingBook_def mb(1))
    then have "fst (engine_submit ee e m order t) = put_book m mb e"
      using open' gate True duplicate_trailing [of mb "trail_order.truncate order" "ee_match ee" "expiry_now e t"] mb(2,3)
      by (simp add: engine_submit_def base_submit_def case_prod_beta)
    moreover have "synced ee (put_book m mb e)"
      unfolding put_book_def
      by (rule synced_same_books [OF assms(1)])
        (use mb(1) synced_books_ok [OF assms(1)] in \<open>auto simp: update_conv' fun_upd_idem_iff books_ok_update books_ok_get\<close>)
    ultimately show ?thesis by simp
  next
    case fresh: False
    show ?thesis
    proof (cases "spreadAdmissionRefuse order")
      case (Some code)
      then show ?thesis using open' gate fresh assms(1) by (simp add: engine_submit_def base_submit_def)
    next
      case None
      obtain mb r where tr: "trailing_submit (ee_match ee) (engine_book e m) (trail_order.truncate order) (Some t) = (mb, r)" by fastforce
      have inv: "book_inv (fst mb)"
        using trailing_submit_inv [of "engine_book e m" "ee_match ee" "trail_order.truncate order" "Some t"] tr
          bookFor_inv [OF synced_books_ok [OF assms(1)]] by (simp add: book_bookFor)
      let ?r = "JSubmit m (ee_iso ee t) (toWire order)"
      have b: "engine_book (append ?r e) m = engine_book e m" by (simp add: book_bookFor)
      have res: "fst (engine_submit ee e m order t) = dropIfNeverTraded m (put_book m mb (append ?r e))"
        using open' gate fresh None clock tr by (simp add: engine_submit_def base_submit_def b Let_def)
      have rt: "fromWire (toWire order) = Inr order" using assms(3) order_round_trip by (simp add: regular_submit_def)
      have cl: "journalClock ee (ee_iso ee t) = Some t" using assms(2) by (simp add: journalClock_def iso_ok_def)
      have dead: "\<forall>s \<in> set (eg_deadSessions e). readSessionId (Some s) = Some s" using assms(1) by (simp add: synced_def)
      show ?thesis
        unfolding res
      proof (rule synced_step [OF assms(1), where rs = "[?r]"])
        show "control_synced (dropIfNeverTraded m (put_book m mb (append ?r e)))"
          using assms(1) control_append(1) by (simp add: synced_def)
        fix st assume st: "matches st e"
        have bk: "bookFor (rp_books st) m = engine_book e m"
          using st by (simp add: book_bookFor matches_def bookFor_def)
        have nd: "\<not> submitSessionDead (toWire order) (rp_dead st)"
          using gate_session [OF gate dead] st by (simp add: matches_def)
        show "\<exists>st'. replay_from ee st [?r] = Inr st' \<and> matches st' (dropIfNeverTraded m (put_book m mb (append ?r e)))"
          using nd rt cl tr bk by (auto intro!: drop_put_matches [OF st inv])
      qed (use dead in simp_all)
    qed
  qed
qed

end
