(* ===== verification/Engine_Cancels.thy ===== *)
theory Engine_Cancels
  imports Engine_Sync
begin

text \<open>
  Cancellation, amendment, mass cancellation, dead sessions and the expiry sweep keep the engine in
  step with its journal.
\<close>

section \<open>Cancellation and amendment\<close>

lemma in_flight_fields [simp]:
  "eg_books (beginInFlight m i mu t e) = eg_books e" "eg_expiryClock (beginInFlight m i mu t e) = eg_expiryClock e"
  "eg_deadSessions (beginInFlight m i mu t e) = eg_deadSessions e" "eg_maintenance (beginInFlight m i mu t e) = eg_maintenance e"
  "eg_books (endInFlight i e) = eg_books e" "eg_expiryClock (endInFlight i e) = eg_expiryClock e"
  "eg_deadSessions (endInFlight i e) = eg_deadSessions e" "eg_journal (endInFlight i e) = eg_journal e"
  "eg_maintenance (endInFlight i e) = eg_maintenance e" "eg_inFlight (endInFlight i e) = AList.delete i (eg_inFlight e)"
  by (simp_all add: beginInFlight_def endInFlight_def append_def split: option.splits)

lemma begin_journal:
  obtains rs where "eg_journal (beginInFlight m i mu t e) = eg_journal e @ rs" "\<And>st. replay_from ee st rs = Inr st"
proof (cases "remainingOf e m i")
  case None
  then show ?thesis using that [of "[]"] by (simp add: beginInFlight_def)
next
  case (Some q)
  then show ?thesis using that [of "[JInFlight m t i mu (Some (formatAmount q))]"] by (simp add: beginInFlight_def append_def)
qed

lemma begin_in_flight:
  "map_of (eg_inFlight e) i = None \<Longrightarrow> AList.delete i (eg_inFlight (beginInFlight m i mu t e)) = eg_inFlight e"
  using delete_absent [of i "eg_inFlight e"]
  by (auto simp: beginInFlight_def append_def delete_update_same map_of_eq_None_iff split: option.splits)

lemmas replay_snoc2 = replay_snoc [where rs = "rs @ [r']" for rs r', unfolded append_assoc append.simps replay_snoc]

text \<open>The mark around a cancellation or an amendment leaves no trace.\<close>

lemma control_mutation:
  assumes "control_synced e" "map_of (eg_inFlight e) i = None" "r = JCancel m t i why \<or> r = JAmend m t i v p"
  shows "control_synced (endInFlight i (put_book m mb (append r (beginInFlight m i mu t e))))"
proof (cases "remainingOf e m i")
  case None
  have "control_synced (append r e)" using control_append(4,5) [OF assms(1,2)] assms(3) by blast
  moreover have "endInFlight i (put_book m mb (append r e)) = put_book m mb (append r e)"
    using assms(2) delete_absent [of i "eg_inFlight e"] by (simp add: endInFlight_def append_def put_book_def map_of_eq_None_iff)
  ultimately show ?thesis by (simp add: beginInFlight_def None)
next
  case (Some q)
  have d: "AList.delete i (eg_inFlight e) = eg_inFlight e" using assms(2) delete_absent [of i "eg_inFlight e"] by (simp add: map_of_eq_None_iff)
  have f: "mark_in_flight (mark_in_flight marks (JInFlight m t i mu q')) r = AList.delete i marks" for marks q'
    using assms(3) by (auto simp: mark_in_flight_def delete_update_same)
  have "switch k k' (switch k k' xs (JInFlight m t i mu q')) r = xs" for k k' xs q'
    using assms(3) by (auto simp: switch_def)
  moreover have "venue_switch k k' (venue_switch k k' x (JInFlight m t i mu q')) r = x" for k k' x q'
    using assms(3) by (auto simp: venue_switch_def)
  moreover have "note_dead (note_dead xs (JInFlight m t i mu q')) r = xs" for xs q'
    using assms(3) by (auto simp: note_dead_def)
  ultimately show ?thesis
    using assms(1) d
    by (simp add: control_synced_def Let_def append_def put_book_def endInFlight_def beginInFlight_def Some replay_snoc2 f delete_update_same)
qed

lemma cancel_inv: "book_inv b \<Longrightarrow> cancel b i why = (b1, r) \<Longrightarrow> book_inv b1"
  using preservesD(1) [OF preserves_cancel [of b i why]] by simp

lemma amend_inv: "book_inv b \<Longrightarrow> amend env b cmd t = (b1, r) \<Longrightarrow> book_inv b1"
  using preservesD(1) [OF preserves_amend [of b env cmd t]] by simp

lemma engine_cancel_cases:
  obtains (refused) "fst (engine_cancel ee e m i why t) = e" "ec_cancellation (fst (snd (engine_cancel ee e m i why t))) = None"
  | (pulled) b rows b1 r where "m \<notin> set (eg_maintenance e)" "map_of (eg_inFlight e) i = None" "map_of (eg_books e) m = Some (b, rows)" "cancel b i why = (b1, r)"
      "fst (engine_cancel ee e m i why t) = endInFlight i (put_book m (b1, rows)
        (append (JCancel m (ee_iso ee t) i (if why = Requested then None else Some why)) (beginInFlight m i CancelMutation (ee_iso ee t) e)))"
      "ec_cancellation (fst (snd (engine_cancel ee e m i why t))) = cr_cancellation r"
proof (cases "m \<in> set (eg_maintenance e) \<or> refuseInFlightCancel e i \<noteq> None \<or> existingBook e m = None")
  case True
  then show ?thesis by (intro refused) (auto simp: engine_cancel_def split: option.splits)
next
  case False
  then have g: "m \<notin> set (eg_maintenance e)" "refuseInFlightCancel e i = None" "map_of (eg_inFlight e) i = None"
    by (auto simp: refuseInFlightCancel_def in_flight_of_def)
  obtain b rows where b: "existingBook e m = Some (b, rows)" using False by fastforce
  obtain b1 r where c: "cancel b i why = (b1, r)" by fastforce
  show ?thesis
    by (rule pulled [of b rows b1 r]) (use g b c in \<open>simp_all add: engine_cancel_def Let_def existingBook_def\<close>)
qed

lemma synced_mutation:
  assumes "synced ee e" "map_of (eg_inFlight e) i = None" "r = JCancel m t i why \<or> r = JAmend m t i v p"
    and "e1 = endInFlight i (put_book m mb (append r (beginInFlight m i mu t e)))" "e2 = e1 \<or> e2 = dropIfNeverTraded m e1"
    and "\<And>st. matches st e \<Longrightarrow> \<exists>st'. replay_record ee st r = Inr st' \<and> matches st' e2"
  shows "synced ee e2"
proof -
  obtain rs where rs: "eg_journal (beginInFlight m i mu t e) = eg_journal e @ rs" "\<And>st. replay_from ee st rs = Inr st"
    by (rule begin_journal [where ee = ee]) blast
  show ?thesis
  proof (rule synced_step [OF assms(1), where rs = "rs @ [r]"])
    show "control_synced e2"
      using control_mutation [OF _ assms(2,3), of mb mu] assms(1,4,5) by (auto simp: synced_def)
    show "\<exists>st'. replay_from ee st (rs @ [r]) = Inr st' \<and> matches st' e2" if "matches st e" for st
      using assms(6) [OF that] rs(2) by (auto simp: replay_from_append)
  qed (use assms(1,4,5) rs(1) in \<open>auto simp: synced_def\<close>)
qed

lemma synced_cancel:
  assumes "synced ee e"
  shows "synced ee (fst (engine_cancel ee e m i why t))"
proof (cases rule: engine_cancel_cases [of ee e m i why t])
  case (pulled b rows b1 r)
  have inv: "book_inv b1" using books_ok_get [OF synced_books_ok [OF assms] pulled(3)] cancel_inv pulled(4) by auto
  show ?thesis
  proof (rule synced_mutation [OF assms pulled(2) _ pulled(5)])
    fix st assume st: "matches st e"
    have b: "map_of (rp_books st) m = Some (b, rows)" using st pulled(3) by (simp add: matches_def)
    have w: "(case if why = Requested then None else Some why of None \<Rightarrow> Requested | Some r \<Rightarrow> r) = why" by simp
    show "\<exists>st'. replay_record ee st (JCancel m (ee_iso ee t) i (if why = Requested then None else Some why)) = Inr st'
        \<and> matches st' (fst (engine_cancel ee e m i why t))"
      using put_matches [OF st, of "(b1, rows)" _ m] inv by (simp add: b w pulled(4,5) Let_def split: option.splits)
  qed auto
qed (use assms in simp)

lemma synced_cancel_each:
  "synced ee e \<Longrightarrow> synced ee (fst (cancel_each ee m why t e is))"
proof (induction "is" arbitrary: e)
  case (Cons i "is")
  then show ?case using synced_cancel [of ee e m i why t] by (auto simp: case_prod_beta Let_def split: option.splits)
qed simp

definition regular_amend :: "engine_amend \<Rightarrow> bool" where
  "regular_amend cmd \<longleftrightarrow> amend_in_column cmd"

lemma synced_amend:
  assumes "synced ee e" "iso_ok ee" "regular_amend cmd"
  shows "synced ee (fst (engine_amend_cmd ee e m cmd t))"
proof (cases "eg_splitBrain e \<or> amendRefusal e m cmd (map_option fst (existingBook e m)) \<noteq> Inr None")
  case True
  then show ?thesis using assms(1) by (auto simp: engine_amend_cmd_def base_amend_def split: sum.splits option.splits)
next
  case False
  then have gate: "amendRefusal e m cmd (map_option fst (existingBook e m)) = Inr None" by simp
  show ?thesis
  proof (cases "map_of (eg_books e) m")
    case None
    then show ?thesis using assms(1) False by (simp add: engine_amend_cmd_def base_amend_def existingBook_def)
  next
    case (Some mb)
    obtain b rows where mb: "mb = (b, rows)" by fastforce
    have fl: "map_of (eg_inFlight e) (a_orderId cmd) = None"
      using gate by (auto simp: amendRefusal_def Let_def refuseInFlightAmend_def in_flight_of_def split: if_splits option.splits sum.splits)
    have clock: "expiry_now e t = Some t" using assms(1) by (simp add: synced_def expiry_now_def)
    obtain b1 r where am: "amend (ee_match ee) b cmd (Some t) = (b1, r)" by fastforce
    have inv: "book_inv b1" using books_ok_get [OF synced_books_ok [OF assms(1)] Some] amend_inv am by (auto simp: mb)
    let ?r = "JAmend m (ee_iso ee t) (a_orderId cmd) (a_expectedVersion cmd) (toWireAmend cmd)"
    let ?e1 = "endInFlight (a_orderId cmd) (put_book m (b1, rows) (append ?r (beginInFlight m (a_orderId cmd) AmendMutation (ee_iso ee t) e)))"
    have res: "fst (engine_amend_cmd ee e m cmd t) = dropIfNeverTraded m ?e1"
      using False gate Some am clock by (simp add: engine_amend_cmd_def base_amend_def existingBook_def mb Let_def)
    have rt: "fromWireAmend (a_orderId cmd) (a_expectedVersion cmd) (toWireAmend cmd) = Inr cmd"
      using assms(3) amend_round_trip by (simp add: regular_amend_def)
    have cl: "journalClock ee (ee_iso ee t) = Some t" using assms(2) by (simp add: journalClock_def iso_ok_def)
    show ?thesis
      unfolding res
    proof (rule synced_mutation [OF assms(1) fl _ refl])
      fix st assume st: "matches st e"
      have "map_of (rp_books st) m = Some (b, rows)" using st Some by (simp add: matches_def mb)
      then show "\<exists>st'. replay_record ee st ?r = Inr st' \<and> matches st' (dropIfNeverTraded m ?e1)"
        by (auto simp: rt cl am simp del: map_of_eq_Some_iff intro!: drop_put_matches [OF st, of "(b1, rows)" _ m]) (use inv in auto)
    qed auto
  qed
qed

section \<open>Mass cancellation\<close>

lemma cancel_gone: "i \<notin> live_ids b \<Longrightarrow> fst (cancel b i why) = b"
proof -
  assume "i \<notin> live_ids b"
  then have "get_resting b i = None" "find_index (\<lambda>s. st_orderId s = i) (b_stops b) = None"
    by (auto simp: live_ids_def find_index_None)
  then show ?thesis by (simp add: cancel_def pull_def)
qed

lemma cancel_ids_gone:
  assumes "book_inv b"
  shows "set is \<inter> live_ids (fst (cancel_ids b why is)) = {}" "live_ids (fst (cancel_ids b why is)) \<subseteq> live_ids b"
    "book_inv (fst (cancel_ids b why is))"
  using assms
proof (atomize (full), induction "is" arbitrary: b)
  case (Cons i "is")
  let ?b1 = "fst (cancel b i why)"
  have c: "cancelled_to b {i} ?b1" by (rule cancel_step [OF Cons.prems])
  then have "book_inv ?b1" "i \<notin> live_ids ?b1" "live_ids ?b1 \<subseteq> live_ids b" by (auto simp: cancelled_to_def live_ids_def split: if_splits)
  then show ?case using Cons.IH [of ?b1] by (auto simp: Let_def case_prod_beta)
qed simp

text \<open>Cancelling one by one on the engine is cancelling them all on the book, when the market is not under
  maintenance and none of the orders is marked in flight.\<close>

definition only_cancels :: "string \<Rightarrow> string list \<Rightarrow> journal_record list \<Rightarrow> bool" where
  "only_cancels m is rs \<longleftrightarrow> (\<forall>r \<in> set rs. case r of JCancel m' _ i why \<Rightarrow> m' = m \<and> i \<in> set is | JInFlight _ _ _ _ _ \<Rightarrow> True | _ \<Rightarrow> False)"

lemma begin_only: "\<exists>rs. eg_journal (beginInFlight m i mu t e) = eg_journal e @ rs \<and> only_cancels m is rs"
  by (cases "remainingOf e m i") (auto simp: beginInFlight_def append_def only_cancels_def)

lemma cancel_each_books:
  assumes "control_synced e" "m \<notin> set (eg_maintenance e)" "\<forall>i \<in> set is. map_of (eg_inFlight e) i = None" "map_of (eg_books e) m = Some (b, rows)"
    and "e2 = fst (cancel_each ee m why t e is)" "book_inv b"
  shows "control_synced e2 \<and> eg_expiryClock e2 = eg_expiryClock e \<and> eg_deadSessions e2 = eg_deadSessions e
    \<and> map_of (eg_books e2) = (map_of (eg_books e))(m \<mapsto> (fst (cancel_ids b why is), rows))
    \<and> (books_ok (eg_books e) \<longrightarrow> books_ok (eg_books e2))
    \<and> (\<exists>rs. eg_journal e2 = eg_journal e @ rs \<and> only_cancels m is rs)"
  using assms
proof (induction "is" arbitrary: e b e2)
  case Nil
  then show ?case by (auto simp: only_cancels_def fun_upd_idem_iff intro: exI [of _ "[]"])
next
  case (Cons i "is")
  let ?e1 = "fst (engine_cancel ee e m i why t)"
  let ?b1 = "fst (cancel b i why)"
  have inf: "map_of (eg_inFlight e) i = None" using Cons.prems(3) by simp
  have e1: "?e1 = endInFlight i (put_book m (?b1, rows)
      (append (JCancel m (ee_iso ee t) i (if why = Requested then None else Some why)) (beginInFlight m i CancelMutation (ee_iso ee t) e)))"
    using Cons.prems(2,4) inf
    by (simp add: engine_cancel_def refuseInFlightCancel_def in_flight_of_def existingBook_def Let_def case_prod_beta)
  have inv: "book_inv ?b1" using cancel_inv [OF Cons.prems(6)] by (metis prod.collapse)
  have marks: "eg_inFlight ?e1 = eg_inFlight e"
    unfolding e1 using begin_in_flight [OF inf] by (simp add: append_def put_book_def endInFlight_def)
  have books: "map_of (eg_books ?e1) = (map_of (eg_books e))(m \<mapsto> (?b1, rows))" "books_ok (eg_books e) \<longrightarrow> books_ok (eg_books ?e1)"
    unfolding e1 using inv by (simp_all add: update_conv' books_ok_update)
  obtain rs1 where rs1: "eg_journal ?e1 = eg_journal e @ rs1" "only_cancels m (i # is) rs1"
    using begin_only [of m i CancelMutation "ee_iso ee t" e "i # is"] by (auto simp: e1 only_cancels_def)
  have e2: "e2 = fst (cancel_each ee m why t ?e1 is)"
    using Cons.prems(5) by (simp add: Let_def case_prod_beta split: option.splits)
  have "control_synced ?e1" unfolding e1 using control_mutation [OF Cons.prems(1) inf] by blast
  moreover have rest: "eg_maintenance ?e1 = eg_maintenance e" "eg_expiryClock ?e1 = eg_expiryClock e" "eg_deadSessions ?e1 = eg_deadSessions e"
    unfolding e1 by simp_all
  ultimately have ih: "control_synced e2 \<and> eg_expiryClock e2 = eg_expiryClock ?e1 \<and> eg_deadSessions e2 = eg_deadSessions ?e1
      \<and> map_of (eg_books e2) = (map_of (eg_books ?e1))(m \<mapsto> (fst (cancel_ids ?b1 why is), rows))
      \<and> (books_ok (eg_books ?e1) \<longrightarrow> books_ok (eg_books e2))
      \<and> (\<exists>rs. eg_journal e2 = eg_journal ?e1 @ rs \<and> only_cancels m is rs)"
    by (intro Cons.IH) (use Cons.prems(2,3) marks books(1) e2 inv in simp_all)
  then obtain rs2 where rs2: "eg_journal e2 = eg_journal ?e1 @ rs2" "only_cancels m is rs2" by blast
  have "only_cancels m (i # is) (rs1 @ rs2)"
    using rs1(2) rs2(2) by (fastforce simp: only_cancels_def split: journal_record.splits)
  moreover have "fst (cancel_ids b why (i # is)) = fst (cancel_ids ?b1 why is)" by (simp add: Let_def case_prod_beta)
  ultimately show ?case using ih rs1(1) rs2(1) rest books by auto
qed

lemma replay_only_cancels:
  assumes "only_cancels m is rs" "\<forall>b rows. map_of (rp_books st) m = Some (b, rows) \<longrightarrow> set is \<inter> live_ids b = {}" "books_ok (rp_books st)"
  shows "\<exists>st'. replay_from ee st rs = Inr st' \<and> map_of (rp_books st') = map_of (rp_books st) \<and> rp_dead st' = rp_dead st \<and> books_ok (rp_books st')"
  using assms
proof (induction rs arbitrary: st)
  case (Cons r rs)
  have step: "\<exists>st1. replay_record ee st r = Inr st1 \<and> map_of (rp_books st1) = map_of (rp_books st) \<and> rp_dead st1 = rp_dead st \<and> books_ok (rp_books st1)"
  proof (cases r)
    case (JCancel m' t i why)
    then have mi: "m' = m" "i \<in> set is" using Cons.prems(1) by (auto simp: only_cancels_def)
    show ?thesis
    proof (cases "map_of (rp_books st) m")
      case (Some mb)
      obtain b rows where mb: "mb = (b, rows)" by fastforce
      have "fst (cancel b i w) = b" for w using Cons.prems(2) Some mi(2) by (intro cancel_gone) (auto simp: mb)
      moreover have "books_ok (AList.update m (b, rows) (rp_books st))"
        using books_ok_update [OF Cons.prems(3)] books_ok_get [OF Cons.prems(3) Some] by (simp add: mb)
      ultimately show ?thesis
        using Some Cons.prems(3) by (auto simp: JCancel mi(1) mb Let_def case_prod_beta update_conv' fun_upd_idem_iff split: option.splits)
    qed (use Cons.prems(3) in \<open>simp add: JCancel mi(1)\<close>)
  qed (use Cons.prems in \<open>simp_all add: only_cancels_def\<close>)
  then obtain st1 where st1: "replay_record ee st r = Inr st1" "map_of (rp_books st1) = map_of (rp_books st)" "rp_dead st1 = rp_dead st" "books_ok (rp_books st1)"
    by blast
  then show ?case using Cons.IH [of st1] Cons.prems(1,2) by (auto simp: only_cancels_def)
qed simp

definition regular_mass :: "engine \<Rightarrow> string \<Rightarrow> string \<Rightarrow> order_side option \<Rightarrow> bool" where
  "regular_mass e m accountId side \<longleftrightarrow> m \<notin> set (eg_maintenance e)
     \<and> (case existingBook e m of None \<Rightarrow> True
          | Some (b, _) \<Rightarrow> distinct_sequences b
              \<and> list_all (\<lambda>i. map_of (eg_inFlight e) i = None) (ownedOrderIds accountId (liveOwnedFromState (toState b)) side))"

lemma synced_mass_cancel:
  assumes "synced ee e" "regular_mass e m acc side"
  shows "synced ee (fst (massCancel ee e m acc sid side t))"
proof (cases "massCancelSessionRefuse (readSessionId sid) \<noteq> None \<or> map_of (eg_books e) m = None")
  case True
  then show ?thesis using assms(1) by (auto simp: massCancel_def existingBook_def split: option.splits)
next
  case False
  then obtain b rows where b: "map_of (eg_books e) m = Some (b, rows)" by fastforce
  let ?ids = "ownedOrderIds acc (liveOwnedFromState (toState b)) side"
  let ?r = "JMassCancel m (ee_iso ee t) acc side"
  define e2 where "e2 = fst (cancel_each ee m Requested t (append ?r e) ?ids)"
  have ok: "books_ok (eg_books e)" "control_synced e" using assms(1) by (simp_all add: synced_def synced_books_ok [OF assms(1)])
  have inv: "book_inv b" using books_ok_get [OF ok(1) b] by simp
  have g: "m \<notin> set (eg_maintenance e)" "distinct_sequences b" "\<forall>i \<in> set ?ids. map_of (eg_inFlight e) i = None"
    using assms(2) b by (auto simp: regular_mass_def existingBook_def list_all_iff)
  have ids: "fst (cancelAccount b acc side) = fst (cancel_ids b Requested ?ids)"
    unfolding cancelAccount_def owned_ids_agree [OF inv g(2)] ..
  let ?b' = "fst (cancel_ids b Requested ?ids)"
  have eff: "control_synced e2 \<and> eg_expiryClock e2 = eg_expiryClock (append ?r e) \<and> eg_deadSessions e2 = eg_deadSessions (append ?r e)
    \<and> map_of (eg_books e2) = (map_of (eg_books (append ?r e)))(m \<mapsto> (?b', rows))
    \<and> (books_ok (eg_books (append ?r e)) \<longrightarrow> books_ok (eg_books e2))
    \<and> (\<exists>rs. eg_journal e2 = eg_journal (append ?r e) @ rs \<and> only_cancels m ?ids rs)"
    by (rule cancel_each_books [OF control_append(2) [OF ok(2)] _ _ _ e2_def inv]) (use g b in simp_all)
  then obtain rs where rs: "eg_journal e2 = (eg_journal e @ [?r]) @ rs" "only_cancels m ?ids rs" by auto
  have res: "fst (massCancel ee e m acc sid side t) = dropIfNeverTraded m e2"
    using False b by (simp add: massCancel_def existingBook_def e2_def Let_def case_prod_beta)
  show ?thesis
    unfolding res
  proof (rule synced_step [OF assms(1), where rs = "?r # rs"])
    fix st assume st: "matches st e"
    have b': "map_of (rp_books st) m = Some (b, rows)" using st b by (simp add: matches_def)
    let ?bs = "AList.update m (?b', rows) (rp_books st)"
    let ?st1 = "st\<lparr>rp_books := drop_never_traded m ?bs\<rparr>"
    have r: "replay_record ee st ?r = Inr ?st1" using b' ids by simp
    have bok: "books_ok (rp_books ?st1)"
      using st cancel_ids_gone(3) [OF inv, of Requested ?ids] by (simp add: matches_def books_ok_drop books_ok_update)
    have "\<forall>b1 rows1. map_of (rp_books ?st1) m = Some (b1, rows1) \<longrightarrow> set ?ids \<inter> live_ids b1 = {}"
      using cancel_ids_gone(1) [OF inv, of ?ids Requested] by (simp add: map_of_drop update_conv')
    from replay_only_cancels [OF rs(2) this bok] obtain st' where st': "replay_from ee ?st1 rs = Inr st'"
      "map_of (rp_books st') = map_of (rp_books ?st1)" "rp_dead st' = rp_dead ?st1" "books_ok (rp_books st')" by blast
    have m: "map_of (eg_books e2) = map_of ?bs" using eff st by (simp add: update_conv' matches_def)
    have "matches st' (dropIfNeverTraded m e2)"
      using st' st eff ok(1) map_of_drop_cong [OF m] by (simp add: matches_def books_ok_drop)
    then show "\<exists>st'. replay_from ee st (?r # rs) = Inr st' \<and> matches st' (dropIfNeverTraded m e2)"
      using r st'(1) by auto
  qed (use eff rs(1) assms(1) in \<open>auto simp: synced_def\<close>)
qed

section \<open>Dead sessions\<close>

definition dead_entry :: "string \<Rightarrow> market_book option \<Rightarrow> market_book option" where
  "dead_entry sid entry = Option.bind entry (\<lambda>(b, rows). let b1 = fst (cancelSession b sid) in if isNeverPrintedEmpty b1 then None else Some (b1, rows))"

lemma map_of_dead_book: "map_of (dead_book sid bs m) = (map_of bs)(m := dead_entry sid (map_of bs m))"
proof (cases "map_of bs m")
  case None
  then show ?thesis by (simp add: dead_book_def dead_entry_def fun_upd_idem)
next
  case (Some mb)
  then show ?thesis by (cases mb) (simp add: dead_book_def dead_entry_def map_of_drop update_conv' Let_def)
qed

lemma map_of_dead_books:
  "distinct ms \<Longrightarrow> map_of (foldl (dead_book sid) bs ms) = (\<lambda>k. if k \<in> set ms then dead_entry sid (map_of bs k) else map_of bs k)"
  by (induction ms arbitrary: bs) (auto simp: map_of_dead_book)

lemma books_ok_dead: "books_ok bs \<Longrightarrow> books_ok (foldl (dead_book sid) bs ms)"
proof (induction ms arbitrary: bs)
  case (Cons m ms)
  have "books_ok (dead_book sid bs m)"
    using Cons.prems books_ok_get [OF Cons.prems, of m] cancel_ids_gone(3)
    by (auto simp: dead_book_def cancelSession_def books_ok_drop books_ok_update split: option.splits)
  then show ?case using Cons.IH by simp
qed simp

lemma live_dead_books:
  assumes "distinct ms" "books_ok (eg_books e)" "\<forall>m \<in> set ms. case map_of (eg_books e) m of Some (b, _) \<Rightarrow> distinct_sequences b | None \<Rightarrow> True"
  shows "fst (dead_session_books sid e ms) = e\<lparr>eg_books := foldl (dead_book sid) (eg_books e) ms\<rparr>"
  using assms
proof (induction ms arbitrary: e)
  case (Cons m ms)
  let ?e1 = "e\<lparr>eg_books := dead_book sid (eg_books e) m\<rparr>"
  have "fst (dead_session_books sid e (m # ms)) = fst (dead_session_books sid ?e1 ms)"
  proof (cases "map_of (eg_books e) m")
    case None
    then show ?thesis by (simp add: existingBook_def dead_book_def)
  next
    case (Some mb)
    obtain b rows where mb: "mb = (b, rows)" by fastforce
    have "cancelSession b sid = cancel_ids b SessionDead (sessionOrderIds sid (liveSessionFromState (toState b)))"
      using session_ids_agree [of b sid] books_ok_get [OF Cons.prems(2) Some] Cons.prems(3) Some by (simp add: cancelSession_def mb)
    then show ?thesis
      using Some by (simp add: existingBook_def mb dead_book_def Let_def case_prod_beta put_book_def dropIfNeverTraded_def)
  qed
  moreover have "fst (dead_session_books sid ?e1 ms) = ?e1\<lparr>eg_books := foldl (dead_book sid) (eg_books ?e1) ms\<rparr>"
    by (rule Cons.IH) (use Cons.prems books_ok_dead [of "eg_books e" sid "[m]"] in \<open>auto simp: map_of_dead_book\<close>)
  ultimately show ?case by simp
qed simp

lemma foldl_set_add:
  "set (foldl (\<lambda>ids x. if P x then set_add (f x) ids else ids) acc xs) = set acc \<union> f ` {x \<in> set xs. P x}"
  "distinct acc \<Longrightarrow> distinct (foldl (\<lambda>ids x. if P x then set_add (f x) ids else ids) acc xs)"
proof -
  have d: "distinct acc \<Longrightarrow> distinct (set_add x acc)" for x :: 'a and acc by (simp add: set_add_def)
  show "set (foldl (\<lambda>ids x. if P x then set_add (f x) ids else ids) acc xs) = set acc \<union> f ` {x \<in> set xs. P x}"
    by (induction xs arbitrary: acc) auto
  show "distinct acc \<Longrightarrow> distinct (foldl (\<lambda>ids x. if P x then set_add (f x) ids else ids) acc xs)"
    by (induction xs arbitrary: acc) (use d in auto)
qed

lemma markets_cover: "distinct (markets e)" "fst ` set (eg_books e) \<subseteq> set (markets e)"
proof -
  let ?own = "foldl (\<lambda>ids p. set_add (fst p) ids) [] (eg_books e)"
  have own: "distinct ?own" "set ?own = fst ` set (eg_books e)"
    using foldl_set_add(2) [where P = "\<lambda>_. True" and f = fst and acc = "[]" and xs = "eg_books e"]
      foldl_set_add(1) [where P = "\<lambda>_. True" and f = fst and acc = "[]" and xs = "eg_books e"] by simp_all
  show "distinct (markets e)" "fst ` set (eg_books e) \<subseteq> set (markets e)"
    unfolding markets_def
    using foldl_set_add(2) [where P = "isListed e" and f = "\<lambda>m. m" and acc = ?own and xs = "eg_listedMarkets e"]
      foldl_set_add(1) [where P = "isListed e" and f = "\<lambda>m. m" and acc = ?own and xs = "eg_listedMarkets e"] own by simp_all
qed

definition regular_session_dead :: "engine \<Rightarrow> bool" where
  "regular_session_dead e \<longleftrightarrow> list_all (\<lambda>(_, b, _). distinct_sequences b) (eg_books e)"

lemma synced_session_dead:
  assumes "synced ee e" "regular_session_dead e"
  shows "synced ee (fst (sessionDead ee e raw t))"
proof (cases "readSessionId raw")
  case None
  then show ?thesis using assms(1) by (simp add: sessionDead_def)
next
  case (Some sid)
  then have sid: "readSessionId (Some sid) = Some sid" by (auto simp: readSessionId_def split: option.splits if_splits)
  let ?r = "JSessionDead (ee_iso ee t) sid"
  let ?e2 = "(append ?r e)\<lparr>eg_deadSessions := set_add sid (eg_deadSessions e)\<rparr>"
  let ?e3 = "?e2\<lparr>eg_books := foldl (dead_book sid) (eg_books e) (markets ?e2)\<rparr>"
  have ok: "books_ok (eg_books e)" by (rule synced_books_ok [OF assms(1)])
  have seqs: "\<forall>m \<in> set (markets ?e2). case map_of (eg_books ?e2) m of Some (b, _) \<Rightarrow> distinct_sequences b | None \<Rightarrow> True"
    using assms(2) by (auto simp: regular_session_dead_def list_all_iff dest!: map_of_SomeD split: option.splits)
  have "fst (dead_session_books sid ?e2 (markets ?e2)) = ?e2\<lparr>eg_books := foldl (dead_book sid) (eg_books ?e2) (markets ?e2)\<rparr>"
    by (rule live_dead_books [OF markets_cover(1) _ seqs]) (use ok in simp)
  then have res: "fst (sessionDead ee e raw t) = ?e3"
    by (simp add: sessionDead_def Some Let_def case_prod_beta)
  have cover: "fst ` set (eg_books e) \<subseteq> set (markets ?e2)" using markets_cover(2) [of ?e2] by simp
  have none: "dead_entry sid None = None" by (simp add: dead_entry_def)
  show ?thesis
    unfolding res
  proof (rule synced_step [OF assms(1), where rs = "[?r]"])
    show "control_synced ?e3"
      using assms(1) sid by (simp add: synced_def control_synced_def Let_def append_def record_effects)
    fix st assume st: "matches st e"
    have "map_of (applySessionDead (rp_books st) sid) = map_of (eg_books ?e3)"
    proof
      fix k
      have "map_of (rp_books st) k = map_of (eg_books e) k" "distinct (map fst (rp_books st))"
        using st by (simp_all add: matches_def books_ok_def)
      moreover have "k \<notin> set (markets ?e2) \<Longrightarrow> map_of (eg_books e) k = None" using cover by (auto simp: map_of_eq_None_iff)
      moreover have "k \<notin> set (map fst (rp_books st)) \<Longrightarrow> map_of (rp_books st) k = None" by (simp add: map_of_eq_None_iff)
      ultimately show "map_of (applySessionDead (rp_books st) sid) k = map_of (eg_books ?e3) k"
        using none by (auto simp: applySessionDead_def map_of_dead_books markets_cover(1))
    qed
    then show "\<exists>st'. replay_from ee st [?r] = Inr st' \<and> matches st' ?e3"
      using st by (simp add: matches_def books_ok_dead applySessionDead_def)
  qed (use assms(1) sid in \<open>auto simp: synced_def\<close>)
qed

end
