(* ===== verification/Engine_Recovery.thy ===== *)
theory Engine_Recovery
  imports Engine_Cancels
begin

text \<open>
  Marks, operator commands, the expiry sweep and position closing keep the engine in step with its
  journal; the steps of the engine as a relation; and the recovery guarantee: a process that starts
  from the journal has the books and the control state of the process that wrote it.
\<close>

section \<open>Marks\<close>

text \<open>A mark that finds nothing to do: every row has its stop, and no trigger and no peak would move.\<close>

definition row_idle :: "stop_state list \<Rightarrow> amount \<Rightarrow> string \<times> trail_live \<Rightarrow> bool" where
  "row_idle stops mark row = (case List.find (\<lambda>s. ss_orderId s = fst row) stops of None \<Rightarrow> False
     | Some stop \<Rightarrow> (let side = ss_side stop; peak = ratchetPeak side (Some (tl_peak (snd row))) mark in
         case walkStop side peak (tl_trail (snd row)) of None \<Rightarrow> True
         | Some next' \<Rightarrow> next' \<le> 0 \<or> (case parse_text (ss_stopPrice stop) of Inl _ \<Rightarrow> True
             | Inr current \<Rightarrow> \<not> triggerTightened side next' current \<and> peak = tl_peak (snd row))))"

definition mark_idle :: "order_book \<Rightarrow> trail_rows \<Rightarrow> amount \<Rightarrow> bool" where
  "mark_idle b rows mark \<longleftrightarrow> rowsFor b rows = (rows, None) \<and> list_all (row_idle (bs_stops (toState b)) mark) rows"

text \<open>The marks of a regular run: the engine answers that the mark was applied or refused, or the mark finds nothing to do.\<close>

definition regular_mark :: "engine_env \<Rightarrow> engine \<Rightarrow> string \<Rightarrow> string \<Rightarrow> int \<Rightarrow> bool" where
  "regular_mark ee e m mark t \<longleftrightarrow>
     (case snd (markTrailingStops ee e m mark t) of Inl _ \<Rightarrow> False | Inr r \<Rightarrow> mr_applied r \<or> \<not> mr_accepted r)
     \<or> (case existingBook e m of None \<Rightarrow> True
          | Some (b, rows) \<Rightarrow> (case parse_text mark of Inl _ \<Rightarrow> True | Inr a \<Rightarrow> mark_idle b rows a))"

lemma walk_rows_idle: "list_all (row_idle stops mark) rows \<Longrightarrow> fst (walk_rows env stops mark w rows) = w"
proof (induction rows)
  case (Cons row rows)
  have "fst (walk_row env stops mark w row) = w"
    using Cons.prems by (auto simp: walk_row_def row_idle_def Let_def split: option.splits sum.splits)
  then show ?case using Cons by (auto split: prod.splits option.splits)
qed simp

lemma applyMark_idle:
  assumes "mark_idle b rows a"
  shows "fst (applyMark env b rows (Some a)) = (b, rows)"
proof (cases "markRefuse (Some a)")
  case None
  have "fst (walk_rows env (bs_stops (toState b)) a \<lparr>wk_book = b, wk_rows = rows, wk_changed = False\<rparr> rows)
      = \<lparr>wk_book = b, wk_rows = rows, wk_changed = False\<rparr>"
    using assms by (simp add: mark_idle_def walk_rows_idle)
  then show ?thesis using assms None by (auto simp: applyMark_def mark_idle_def split: prod.splits option.splits)
qed (simp add: applyMark_def)

lemma synced_put_same:
  assumes "synced ee e" "map_of (eg_books e) m = Some mb"
  shows "synced ee (put_book m mb e)"
  unfolding put_book_def
  by (rule synced_same_books [OF assms(1)])
    (use assms synced_books_ok [OF assms(1)] in \<open>simp_all add: update_conv' fun_upd_idem books_ok_update books_ok_get\<close>)

lemma mark_cases:
  obtains (kept) "fst (markTrailingStops ee e m mark t) = e"
  | (silent) b rows a mb c where "map_of (eg_books e) m = Some (b, rows)" "parse_text mark = Inr a"
      "applyMark (ee_match ee) b rows (Some a) = (mb, c)" "fst (markTrailingStops ee e m mark t) = put_book m mb e"
      "snd (markTrailingStops ee e m mark t) \<in> range Inl \<union> {Inr \<lparr>mr_accepted = True, mr_applied = False, mr_rejected = None\<rparr>}"
  | (journaled) b rows a mb c where "map_of (eg_books e) m = Some (b, rows)" "parse_text mark = Inr a"
      "applyMark (ee_match ee) b rows (Some a) = (mb, Inr c)"
      "fst (markTrailingStops ee e m mark t) = append (JMark m (ee_iso ee t) mark) (put_book m mb e)"
proof -
  let ?parsed = "if mark_shape mark then bindE (parse_text mark) (\<lambda>a. Inr (Some a)) else Inr None"
  consider (bad) err where "?parsed = Inl err" | (none) "?parsed = Inr None" | (some) a where "?parsed = Inr (Some a)" "parse_text mark = Inr a"
    by (cases "mark_shape mark"; cases "parse_text mark") auto
  then show ?thesis
  proof cases
    case bad
    then show ?thesis by (intro kept) (simp add: markTrailingStops_def)
  next
    case none
    then show ?thesis by (intro kept) (simp add: markTrailingStops_def markRefuse_def missing_if_def)
  next
    case (some a)
    show ?thesis
    proof (cases "or_else (markRefuse (Some a)) (markRefusal e m) \<noteq> None \<or> map_of (eg_books e) m = None")
      case True
      then show ?thesis using some(1) by (intro kept) (auto simp: markTrailingStops_def existingBook_def split: option.splits)
    next
      case False
      then obtain b rows where b: "map_of (eg_books e) m = Some (b, rows)" by fastforce
      obtain mb c where ap: "applyMark (ee_match ee) b rows (Some a) = (mb, c)" by fastforce
      have "markRefuse (Some a) = None" using False by (cases "markRefuse (Some a)") simp_all
      then have applied: "c \<noteq> Inr (Some code, ch)" for code ch
        using ap by (auto simp: applyMark_def split: prod.splits option.splits)
      have res: "fst (markTrailingStops ee e m mark t) = (case c of Inr (None, True) \<Rightarrow> append (JMark m (ee_iso ee t) mark) (put_book m mb e)
          | _ \<Rightarrow> put_book m mb e)"
        "c \<noteq> Inr (None, True) \<Longrightarrow> snd (markTrailingStops ee e m mark t) \<in> range Inl \<union> {Inr \<lparr>mr_accepted = True, mr_applied = False, mr_rejected = None\<rparr>}"
        using False some(1) b ap applied by (auto simp: markTrailingStops_def existingBook_def split: sum.splits option.splits bool.splits)
      show ?thesis
      proof (cases "c = Inr (None, True)")
        case True
        then show ?thesis using res(1) b some(2) ap by (intro journaled) auto
      next
        case False
        then have "fst (markTrailingStops ee e m mark t) = put_book m mb e"
          unfolding res(1) by (auto split: sum.splits option.splits bool.splits)
        then show ?thesis using b some(2) ap res(2) [OF False] by (intro silent)
      qed
    qed
  qed
qed

lemma synced_mark:
  assumes "synced ee e" "regular_mark ee e m mark t"
  shows "synced ee (fst (markTrailingStops ee e m mark t))"
proof (cases rule: mark_cases [of ee e m mark t])
  case (silent b rows a mb c)
  then have "mark_idle b rows a" using assms(2) by (auto simp: regular_mark_def existingBook_def)
  then have "mb = (b, rows)" using applyMark_idle silent(3) by (metis fst_conv)
  then show ?thesis using synced_put_same [OF assms(1) silent(1)] silent(4) by simp
next
  case (journaled b rows a mb c)
  have inv: "book_inv (fst mb)"
    using preserves_applyMark [of b "ee_match ee" rows "Some a"] books_ok_get [OF synced_books_ok [OF assms(1)] journaled(1)] journaled(3)
    by (simp add: preserves_def)
  show ?thesis
    unfolding journaled(4)
  proof (rule synced_step [OF assms(1), where rs = "[JMark m (ee_iso ee t) mark]"])
    have "control_synced (put_book m mb e)" using assms(1) by (simp add: synced_def)
    then show "control_synced (append (JMark m (ee_iso ee t) mark) (put_book m mb e))" by (rule control_append(3))
    show "\<exists>st'. replay_from ee st [JMark m (ee_iso ee t) mark] = Inr st' \<and> matches st' (append (JMark m (ee_iso ee t) mark) (put_book m mb e))"
      if st: "matches st e" for st
    proof -
      have b: "map_of (rp_books st) m = Some (b, rows)" using st journaled(1) by (simp add: matches_def)
      show ?thesis
        using put_matches [OF st inv, of "st\<lparr>rp_books := AList.update m mb (rp_books st)\<rparr>" m "append (JMark m (ee_iso ee t) mark) (put_book m mb e)"]
        by (simp add: b journaled(2,3))
    qed
  qed (use assms(1) in \<open>simp_all add: synced_def\<close>)
qed (use assms(1) in simp)

section \<open>Operator commands\<close>

lemma synced_record:
  assumes "synced ee e" "eg_journal e' = eg_journal e @ [r]" "control_synced e'" "eg_expiryClock e' = eg_expiryClock e"
    and "eg_books e' = eg_books e" "eg_deadSessions e' = eg_deadSessions e" "\<And>st. replay_record ee st r = Inr st"
  shows "synced ee e'"
  by (rule synced_step [OF assms(1-4)]) (use assms in \<open>simp_all add: synced_def matches_def\<close>)

definition market_commands :: "(engine_env \<Rightarrow> engine \<Rightarrow> string \<Rightarrow> operator_cmd \<Rightarrow> int \<Rightarrow> engine \<times> reject_code option) list" where
  "market_commands = [halt, resume, reduceOnly, resumeReduceOnly, postOnly, resumePostOnly, prelaunch, open_market, expire, delist,
     enterMaintenance, endMaintenance]"

definition venue_commands :: "(engine_env \<Rightarrow> engine \<Rightarrow> operator_cmd \<Rightarrow> int \<Rightarrow> engine \<times> reject_code option) list" where
  "venue_commands = [haltAll, resumeAll, \<lambda>ee. declareOrClear ee True, \<lambda>ee. declareOrClear ee False]"

lemma synced_controlled:
  assumes "synced ee e" "control_synced (change (append (control_record ee k m cmd t) e))"
    and "\<And>e. eg_journal (change e) = eg_journal e" "\<And>e. eg_books (change e) = eg_books e"
    and "\<And>e. eg_expiryClock (change e) = eg_expiryClock e" "\<And>e. eg_deadSessions (change e) = eg_deadSessions e"
  shows "synced ee (fst (controlled ee k change e m cmd t))"
  unfolding controlled_def
  by (cases "dual_refuse cmd")
    (use assms in \<open>auto simp: control_record_def intro!: synced_record [OF assms(1), where r = "control_record ee k m cmd t"]\<close>)

lemmas command_defs = halt_def resume_def reduceOnly_def resumeReduceOnly_def postOnly_def resumePostOnly_def prelaunch_def open_market_def
  expire_def delist_def enterMaintenance_def endMaintenance_def

lemma control_change:
  assumes "control_synced e" "r = control_record ee k m cmd t"
  shows "k = KHalt \<Longrightarrow> control_synced ((append r e)\<lparr>eg_halted := set_add m (eg_halted e)\<rparr>)"
    "k = KResume \<Longrightarrow> control_synced ((append r e)\<lparr>eg_halted := removeAll m (eg_halted e)\<rparr>)"
    "k = KReduceOnly \<Longrightarrow> control_synced ((append r e)\<lparr>eg_reduceOnlyMarkets := set_add m (eg_reduceOnlyMarkets e)\<rparr>)"
    "k = KResumeReduceOnly \<Longrightarrow> control_synced ((append r e)\<lparr>eg_reduceOnlyMarkets := removeAll m (eg_reduceOnlyMarkets e)\<rparr>)"
    "k = KPostOnly \<Longrightarrow> control_synced ((append r e)\<lparr>eg_postOnlyMarkets := set_add m (eg_postOnlyMarkets e)\<rparr>)"
    "k = KResumePostOnly \<Longrightarrow> control_synced ((append r e)\<lparr>eg_postOnlyMarkets := removeAll m (eg_postOnlyMarkets e)\<rparr>)"
    "k = KPrelaunch \<Longrightarrow> control_synced ((append r e)\<lparr>eg_prelaunchMarkets := set_add m (eg_prelaunchMarkets e)\<rparr>)"
    "k = KOpen \<Longrightarrow> control_synced ((append r e)\<lparr>eg_prelaunchMarkets := removeAll m (eg_prelaunchMarkets e), eg_listedMarkets := set_add m (eg_listedMarkets e)\<rparr>)"
    "k = KExpire \<Longrightarrow> control_synced ((append r e)\<lparr>eg_expiredMarkets := set_add m (eg_expiredMarkets e)\<rparr>)"
    "k = KDelist \<Longrightarrow> control_synced ((append r e)\<lparr>eg_delistedMarkets := set_add m (eg_delistedMarkets e)\<rparr>)"
    "k = KMaintenance \<Longrightarrow> control_synced ((append r e)\<lparr>eg_maintenance := set_add m (eg_maintenance e)\<rparr>)"
    "k = KEndMaintenance \<Longrightarrow> control_synced ((append r e)\<lparr>eg_maintenance := removeAll m (eg_maintenance e)\<rparr>)"
  using assms by (simp_all add: control_synced_def Let_def append_def control_record_def record_effects)

lemma append_keeps [simp]:
  "eg_halted (append r e) = eg_halted e" "eg_reduceOnlyMarkets (append r e) = eg_reduceOnlyMarkets e"
  "eg_postOnlyMarkets (append r e) = eg_postOnlyMarkets e" "eg_prelaunchMarkets (append r e) = eg_prelaunchMarkets e"
  "eg_listedMarkets (append r e) = eg_listedMarkets e" "eg_expiredMarkets (append r e) = eg_expiredMarkets e"
  "eg_delistedMarkets (append r e) = eg_delistedMarkets e"
  by (simp_all add: append_def)

lemma synced_market_command:
  assumes "synced ee e" "f \<in> set market_commands"
  shows "synced ee (fst (f ee e m cmd t))"
proof -
  have c: "control_synced e" using assms(1) by (simp add: synced_def)
  note k = synced_controlled [OF assms(1)] and ch = control_change [OF c refl]
  show ?thesis
    using assms(2) unfolding market_commands_def list.set
    by (elim insertE emptyE) (use assms(1) in \<open>simp_all add: command_defs k ch split: option.split\<close>)
qed

lemma synced_venue_command:
  assumes "synced ee e" "f \<in> set venue_commands"
  shows "synced ee (fst (f ee e cmd t))"
proof -
  have v: "synced ee ((append (venue_record ee k cmd t) e)\<lparr>eg_venueHalted := h\<rparr>)" if "(k, h) \<in> {(KHaltAll, True), (KResumeAll, False)}" for k h
    by (rule synced_record [OF assms(1), where r = "venue_record ee k cmd t"])
      (use that assms(1) in \<open>auto simp: synced_def control_synced_def Let_def append_def venue_record_def record_effects\<close>)
  have s: "synced ee ((append (venue_record ee k cmd t) e)\<lparr>eg_splitBrain := h\<rparr>)" if "(k, h) \<in> {(KSplitBrain, True), (KClearSplitBrain, False)}" for k h
    by (rule synced_record [OF assms(1), where r = "venue_record ee k cmd t"])
      (use that assms(1) in \<open>auto simp: synced_def control_synced_def Let_def append_def venue_record_def record_effects\<close>)
  show ?thesis
    using assms(2) unfolding venue_commands_def list.set
    by (elim insertE emptyE) (use assms(1) v s in \<open>simp_all add: haltAll_def resumeAll_def base_venue_def declareOrClear_def split: option.split\<close>)
qed

section \<open>Setters, sweeps and closing\<close>

lemma synced_untouched:
  assumes "synced ee e" "eg_journal e' = eg_journal e" "eg_books e' = eg_books e" "eg_expiryClock e' = eg_expiryClock e"
    and "eg_deadSessions e' = eg_deadSessions e" "control_synced e'"
  shows "synced ee e'"
  by (rule synced_step [OF assms(1), where rs = "[]"]) (use assms in \<open>simp_all add: synced_def matches_def\<close>)

lemma synced_setters:
  assumes "synced ee e"
  shows "synced ee (setEnabled b e)" "synced ee (closeAdmission reason e)" "synced ee (holdHalt m reason e)" "synced ee (noteBookUnreadable m reason e)"
  by (rule synced_untouched [OF assms]; use assms in
      \<open>simp add: synced_def control_synced_def Let_def setEnabled_def closeAdmission_def holdHalt_def noteBookUnreadable_def\<close>)+

lemma synced_sweep_markets: "synced ee e \<Longrightarrow> synced ee (fst (sweep_markets ee t e ms))"
proof (induction ms arbitrary: e)
  case (Cons m ms)
  have "synced ee (fst (sweep_markets ee t e1 ms))" if "e1 = e \<or> e1 = fst (cancel_each ee m Expired t e is)" for e1 "is"
    using Cons synced_cancel_each that by blast
  then show ?case by (auto simp: Let_def case_prod_beta split: option.splits)
qed simp

lemma synced_sweep: "synced ee e \<Longrightarrow> synced ee (fst (sweepExpiry ee e t))"
  using synced_sweep_markets by (simp add: sweepExpiry_def Let_def case_prod_beta)

lemma parse_bounded: "parse_text s = Inr a \<Longrightarrow> fits a"
  by (auto simp: parseAmount_def Let_def fitsColumn_def split: option.splits if_splits)

lemma regular_close:
  assumes "netPositionOf b acc = Inr net"
  shows "regular_submit e m (flattenCloseOrder i acc net)"
proof -
  have "fits (0 :: amount)" by (simp add: MAX_AMOUNT_def)
  then have "fits net" using assms by (auto simp: netPositionOf_def split: option.splits intro: parse_bounded)
  then show ?thesis
    by (auto simp: regular_submit_def in_column_def wire_form_def flattenCloseOrder_def named_role_def present_def persistIceberg_def persistTrail_def
        trail_field_def field_opt_def split: option.splits)
qed

lemma synced_close:
  assumes "synced ee e" "iso_ok ee"
  shows "synced ee (fst (closePosition ee e m i acc t))"
proof (cases "map_of (eg_books e) m")
  case None
  then show ?thesis using assms(1) by (simp add: closePosition_def existingBook_def)
next
  case (Some mb)
  obtain b rows where mb: "mb = (b, rows)" by fastforce
  show ?thesis
  proof (cases "netPositionOf b acc")
    case (Inl err)
    then show ?thesis using assms(1) Some by (simp add: closePosition_def existingBook_def mb)
  next
    case (Inr net)
    from synced_submit [OF assms regular_close [OF Inr]] show ?thesis
      using Inr Some assms(1) by (simp add: closePosition_def existingBook_def mb Let_def case_prod_beta)
  qed
qed

section \<open>Recovery\<close>

text \<open>What a recovered engine shares with the engine that wrote the journal.\<close>

definition same_control :: "engine \<Rightarrow> engine \<Rightarrow> bool" where
  "same_control e' e \<longleftrightarrow> eg_halted e' = eg_halted e \<and> eg_maintenance e' = eg_maintenance e \<and> eg_venueHalted e' = eg_venueHalted e
     \<and> eg_reduceOnlyMarkets e' = eg_reduceOnlyMarkets e \<and> eg_postOnlyMarkets e' = eg_postOnlyMarkets e
     \<and> eg_prelaunchMarkets e' = eg_prelaunchMarkets e \<and> eg_listedMarkets e' = eg_listedMarkets e
     \<and> eg_expiredMarkets e' = eg_expiredMarkets e \<and> eg_delistedMarkets e' = eg_delistedMarkets e
     \<and> eg_deadSessions e' = eg_deadSessions e \<and> eg_inFlight e' = eg_inFlight e \<and> eg_splitBrain e' = eg_splitBrain e"

lemma synced_recover:
  assumes "synced ee e"
  shows "\<exists>e' evs. recover ee (new_engine c en (eg_journal e)) = Inr (e', evs) \<and> (\<forall>m. existingBook e' m = existingBook e m) \<and> same_control e' e
    \<and> eg_journal e' = eg_journal e"
proof -
  obtain st where "replayJournal ee (eg_journal e) = Inr st" "matches st e" using assms by (auto simp: synced_def)
  then show ?thesis
    using assms by (simp add: recover_def new_engine_def same_control_def synced_def control_synced_def Let_def existingBook_def matches_def)
qed

text \<open>Recovery from any journal whose sessions are in normal form starts in step.\<close>

definition journal_ok :: "journal_record list \<Rightarrow> bool" where
  "journal_ok rs \<longleftrightarrow> list_all (\<lambda>r. case r of JSessionDead _ s \<Rightarrow> readSessionId (Some s) = Some s | _ \<Rightarrow> True) rs"

lemma replay_record_ok:
  assumes "replay_record ee st r = Inr st'" "books_ok (rp_books st)" "journal_ok [r]"
  shows "books_ok (rp_books st') \<and> rp_dead st' = note_dead (rp_dead st) r"
proof (cases r)
  case (JSubmit m t w)
  have "book_inv (fst (fst (trailing_submit (ee_match ee) (bookFor (rp_books st) m) o' t')))" for o' t'
    by (rule trailing_submit_inv [OF bookFor_inv [OF assms(2)]])
  then show ?thesis
    using assms(1,2)
    by (auto simp: JSubmit note_dead_def bindE_eq_Inr Let_def case_prod_beta books_ok_drop books_ok_update split: if_splits)
next
  case (JAmend m t i v p)
  have "fst (amend (ee_match ee) b cmd t') = b1 \<Longrightarrow> book_inv b \<Longrightarrow> book_inv b1" for b cmd t' b1
    using amend_inv by (metis prod.collapse)
  then show ?thesis
    using assms(1,2) books_ok_get [OF assms(2), of m]
    by (auto simp: JAmend note_dead_def bindE_eq_Inr Let_def case_prod_beta books_ok_drop books_ok_update split: option.splits)
next
  case (JMark m t x)
  show ?thesis
  proof (cases "map_of (rp_books st) m")
    case (Some p)
    then obtain a where a: "parse_text x = Inr a" using assms(1) by (auto simp: JMark case_prod_beta)
    obtain b rows mb c where p: "p = (b, rows)" "applyMark (ee_match ee) b rows (Some a) = (mb, c)" by (metis prod.exhaust)
    have "book_inv (fst mb)"
      using preserves_applyMark [of b "ee_match ee" rows "Some a"] books_ok_get [OF assms(2) Some] p by (simp add: preserves_def)
    then show ?thesis using assms(1,2) Some a by (auto simp: JMark p note_dead_def books_ok_update split: sum.splits)
  qed (use assms in \<open>simp add: JMark note_dead_def\<close>)
next
  case (JMassCancel m t a s)
  then show ?thesis
    using assms(1,2) books_ok_get [OF assms(2), of m] cancel_ids_gone(3)
    by (auto simp: note_dead_def cancelAccount_def books_ok_drop books_ok_update split: option.splits)
next
  case (JCancel m t i why)
  show ?thesis
  proof (cases "map_of (rp_books st) m")
    case (Some p)
    obtain b rows b1 c where p: "p = (b, rows)" "cancel b i (case why of Some r \<Rightarrow> r | None \<Rightarrow> Requested) = (b1, c)" by (metis prod.exhaust)
    have "book_inv b1" using cancel_inv [OF _ p(2)] books_ok_get [OF assms(2) Some] p(1) by simp
    then show ?thesis using assms(1,2) Some by (auto simp: JCancel p note_dead_def Let_def books_ok_update split: option.splits if_splits)
  qed (use assms in \<open>simp add: JCancel note_dead_def\<close>)
next
  case (JSessionDead t s)
  then show ?thesis using assms by (auto simp: note_dead_def journal_ok_def applySessionDead_def books_ok_dead)
qed (use assms in \<open>auto simp: note_dead_def\<close>)

lemma replay_from_ok:
  "replay_from ee st rs = Inr st' \<Longrightarrow> books_ok (rp_books st) \<Longrightarrow> journal_ok rs \<Longrightarrow> books_ok (rp_books st') \<and> rp_dead st' = foldl note_dead (rp_dead st) rs"
proof (induction rs arbitrary: st)
  case (Cons r rs)
  then obtain st1 where "replay_record ee st r = Inr st1" "replay_from ee st1 rs = Inr st'" by (auto simp: bindE_eq_Inr)
  then show ?case using Cons.IH [of st1] replay_record_ok [of ee st r st1] Cons.prems(2,3) by (simp add: journal_ok_def)
qed simp

lemma dead_trimmed: "\<forall>s \<in> set acc. readSessionId (Some s) = Some s \<Longrightarrow> \<forall>s \<in> set (foldl note_dead acc rs). readSessionId (Some s) = Some s"
proof (induction rs arbitrary: acc)
  case (Cons r rs)
  have "\<forall>s \<in> set (note_dead acc r). readSessionId (Some s) = Some s"
    using Cons.prems by (cases r) (auto simp: note_dead_def readSessionId_def split: option.splits if_splits)
  then show ?case using Cons.IH by simp
qed simp

lemma recovered_synced:
  assumes "recover ee (new_engine True en J) = Inr (e, evs)" "journal_ok J"
  shows "synced ee e" "eg_journal e = J"
proof -
  obtain st where st: "replayJournal ee J = Inr st"
    and e: "e = (new_engine True en J)\<lparr>eg_books := rp_books st, eg_halted := replayHaltedMarkets J, eg_maintenance := replayMaintenance J,
          eg_unreadableBooks := [], eg_admissionClosed := None, eg_holdHalted := [], eg_venueHalted := replayVenueHalted J,
          eg_reduceOnlyMarkets := replayReduceOnlyMarkets J, eg_postOnlyMarkets := replayPostOnlyMarkets J,
          eg_prelaunchMarkets := replayPrelaunchMarkets J, eg_listedMarkets := replayOpenedMarkets J,
          eg_expiredMarkets := replayExpiredMarkets J, eg_delistedMarkets := replayDelistedMarkets J,
          eg_deadSessions := replayDeadSessions J, eg_inFlight := replayInFlight J, eg_splitBrain := replaySplitBrain J\<rparr>"
    using assms(1) by (auto simp: recover_def bindE_eq_Inr Let_def new_engine_def)
  have "books_ok ([] :: (string \<times> market_book) list)" by (simp add: books_ok_def)
  then have ok: "books_ok (rp_books st)" "rp_dead st = replayDeadSessions J"
    using replay_from_ok [OF _ _ assms(2)] st by (auto simp: replayJournal_def replayDeadSessions_def)
  show "synced ee e" "eg_journal e = J"
    using st ok dead_trimmed [of "[]" J]
    by (simp_all add: e synced_def control_synced_def Let_def matches_def new_engine_def replayDeadSessions_def)
qed

section \<open>Steps of the engine\<close>

text \<open>The public commands of the engine and a restart from its journal, without the commands after which the code is not recoverable.
  A regular run is a sequence of

  \<^item> submissions of orders whose amounts fit the column and whose optional fields are in the normal form of
    the journal, where a retry of an accepted id carries no position (\<open>regular_submit\<close>),
  \<^item> amendments whose amounts fit the column (\<open>regular_amend\<close>),
  \<^item> cancels, expiry sweeps, closing orders, the commands of operators and the setters, all without condition,
  \<^item> mass cancels of a market outside maintenance, none of whose orders to be cancelled is in flight and whose live orders have
    distinct sequence numbers (\<open>regular_mass\<close>), and dead sessions with distinct sequence
    numbers in every book (\<open>regular_session_dead\<close>),
  \<^item> marks that the engine answers as applied or refused, and marks that find nothing to do (\<open>regular_mark\<close>): every
    remembered row still has its stop and no trigger and no peak would move,
  \<^item> restarts.

  A mass cancel during maintenance, a retry with a position and a mark that fires a stop at once are outside for a reason:
  \<open>Engine_Findings\<close> shows that after each of them the journal no longer gives the state back.\<close>

inductive regular_step :: "engine_env \<Rightarrow> engine \<Rightarrow> pending_event list \<Rightarrow> engine \<Rightarrow> bool" for ee where
  submits: "regular_submit e m order
    \<Longrightarrow> regular_step ee e (snd (snd (engine_submit ee e m order t))) (fst (engine_submit ee e m order t))"
| cancels: "regular_step ee e (snd (snd (engine_cancel ee e m i why t))) (fst (engine_cancel ee e m i why t))"
| amends: "regular_amend cmd
    \<Longrightarrow> regular_step ee e (snd (snd (engine_amend_cmd ee e m cmd t))) (fst (engine_amend_cmd ee e m cmd t))"
| mass_cancels: "regular_mass e m acc side
    \<Longrightarrow> regular_step ee e (snd (snd (massCancel ee e m acc sid side t))) (fst (massCancel ee e m acc sid side t))"
| session_dies: "regular_session_dead e
    \<Longrightarrow> regular_step ee e (snd (snd (sessionDead ee e raw t))) (fst (sessionDead ee e raw t))"
| marks: "regular_mark ee e m mark t \<Longrightarrow> regular_step ee e [] (fst (markTrailingStops ee e m mark t))"
| sweeps: "regular_step ee e (snd (snd (sweepExpiry ee e t))) (fst (sweepExpiry ee e t))"
| closes: "regular_step ee e (snd (snd (closePosition ee e m i acc t))) (fst (closePosition ee e m i acc t))"
| controls: "f \<in> set market_commands \<Longrightarrow> regular_step ee e [] (fst (f ee e m cmd t))"
| controls_venue: "f \<in> set venue_commands \<Longrightarrow> regular_step ee e [] (fst (f ee e cmd t))"
| enables: "regular_step ee e [] (setEnabled b e)"
| closes_admission: "regular_step ee e [] (closeAdmission reason e)"
| holds: "regular_step ee e [] (holdHalt m reason e)"
| notes_unreadable: "regular_step ee e [] (noteBookUnreadable m reason e)"
| restarts: "recover ee (new_engine True en (eg_journal e)) = Inr (e', evs) \<Longrightarrow> regular_step ee e evs e'"

inductive regular_run :: "engine_env \<Rightarrow> engine \<Rightarrow> pending_event list \<Rightarrow> engine \<Rightarrow> bool" for ee where
  starts: "regular_run ee e [] e"
| continues: "regular_run ee e evs e' \<Longrightarrow> regular_step ee e' evs' e'' \<Longrightarrow> regular_run ee e (evs @ evs') e''"

inductive_cases regular_stepE: "regular_step ee e evs e'"

lemma synced_restart:
  assumes "synced ee e" "recover ee (new_engine True en (eg_journal e)) = Inr (e', evs)"
  shows "synced ee e'"
proof -
  obtain st where st: "replayJournal ee (eg_journal e) = Inr st" "matches st e" using assms(1) by (auto simp: synced_def)
  then show ?thesis
    using assms by (auto simp: recover_def new_engine_def synced_def control_synced_def Let_def matches_def)
qed

lemma synced_regular_step:
  assumes "regular_step ee e evs e'" "synced ee e" "iso_ok ee"
  shows "synced ee e'"
  using assms(1)
  by cases (use assms(2,3) in \<open>simp_all add: synced_submit synced_cancel synced_amend synced_mass_cancel synced_session_dead synced_mark
      synced_sweep synced_close synced_market_command synced_venue_command synced_setters synced_restart\<close>)

lemma synced_run: "regular_run ee e evs e' \<Longrightarrow> synced ee e \<Longrightarrow> iso_ok ee \<Longrightarrow> synced ee e'"
  by (induction rule: regular_run.induct) (auto intro: synced_regular_step)

text \<open>C1. The recovery guarantee for regular runs. An engine that starts from a journal and then serves regular commands
  in any order and number, restarts included, can be rebuilt from its journal alone at any moment: replaying the
  journal succeeds and gives the same book with the same trailing rows for every market, and the
  same control state. Regular means that amounts fit the column, optional fields are in normal form, a retry of an accepted
  id carries no position, a mass cancel comes outside maintenance and touches no order in flight,
  sequence numbers are distinct in a book that a mass cancel or a dead session walks, and a mark is
  applied, refused or finds nothing to do. The clock printed in a record must read back as the same instant.\<close>

theorem recovery_guarantee:
  assumes "iso_ok ee" "journal_ok J" "recover ee (new_engine True en J) = Inr (e0, evs0)" "regular_run ee e0 evs e"
  shows "\<exists>e' evs'. recover ee (new_engine True en' (eg_journal e)) = Inr (e', evs')
    \<and> (\<forall>m. existingBook e' m = existingBook e m) \<and> same_control e' e \<and> eg_journal e' = eg_journal e"
  by (rule synced_recover [OF synced_run [OF assms(4) recovered_synced(1) [OF assms(3,2)] assms(1)]])

text \<open>A clock for the examples: an instant is printed in unary.\<close>

definition demo_iso :: "int \<Rightarrow> string" where
  "demo_iso t = (if t < 0 then CHR ''-'' # replicate (nat (- t)) CHR ''1'' else replicate (nat t) CHR ''1'')"

definition demo_date :: "string \<Rightarrow> int option" where
  "demo_date s = (if take 1 s = ''-'' then Some (- int (length s - 1)) else Some (int (length s)))"

definition demo_engine_env :: engine_env where
  "demo_engine_env = \<lparr>ee_match = \<lparr>spread_hitch = False, date_parse = demo_date, option_guard = \<lambda>_ _. None\<rparr>, ee_iso = demo_iso\<rparr>"

lemma demo_iso_ok: "iso_ok demo_engine_env"
proof -
  have "replicate n CHR ''1'' \<noteq> ''-''" for n by (cases n) simp_all
  then show ?thesis by (simp add: iso_ok_def demo_engine_env_def demo_date_def demo_iso_def)
qed

definition demo_rest :: full_order where
  "demo_rest = demo_order (demo_limit ''a1'' ''ann'' SellSide 5 101 GTC)"

definition demo_take :: full_order where
  "demo_take = demo_order (demo_limit ''b1'' ''bob'' BuySide 2 101 GTC)"

definition demo_rested :: engine where
  "demo_rested = fst (engine_submit demo_engine_env (new_engine True True []) ''BTC'' demo_rest 5)"

definition demo_engine_traded :: engine where
  "demo_engine_traded = fst (engine_submit demo_engine_env demo_rested ''BTC'' demo_take 6)"

lemma demo_runs: "\<exists>evs. regular_run demo_engine_env (new_engine True True []) evs demo_rested"
  "\<exists>evs. regular_run demo_engine_env (new_engine True True []) evs demo_engine_traded"
proof -
  have "regular_submit (new_engine True True []) ''BTC'' demo_rest" by code_simp
  from continues [OF starts submits [OF this]] show r: "\<exists>evs. regular_run demo_engine_env (new_engine True True []) evs demo_rested"
    unfolding demo_rested_def by blast
  have "regular_submit demo_rested ''BTC'' demo_take" by code_simp
  from continues [OF _ submits [OF this]] show "\<exists>evs. regular_run demo_engine_env (new_engine True True []) evs demo_engine_traded"
    unfolding demo_engine_traded_def using r by blast
qed

lemma demo_recovered: "recover demo_engine_env (new_engine True True []) = Inr (new_engine True True [], [])"
  by code_simp

lemma demo_rested_synced: "synced demo_engine_env demo_rested"
  using demo_runs(1) recovered_synced(1) [OF demo_recovered] synced_run demo_iso_ok by (auto simp: journal_ok_def)

theorem recovery_guarantee_witness:
  "\<exists>e' evs. recover demo_engine_env (new_engine True True (eg_journal demo_engine_traded)) = Inr (e', evs)
    \<and> (\<forall>m. existingBook e' m = existingBook demo_engine_traded m) \<and> same_control e' demo_engine_traded
    \<and> map_option (\<lambda>mb. map_option r_remaining (get_resting (fst mb) ''a1'')) (existingBook e' ''BTC'') = Some (Some 3)"
proof -
  obtain evs where "regular_run demo_engine_env (new_engine True True []) evs demo_engine_traded" using demo_runs(2) by blast
  from recovery_guarantee [OF demo_iso_ok _ demo_recovered this, of True] obtain e' evs' where
    "recover demo_engine_env (new_engine True True (eg_journal demo_engine_traded)) = Inr (e', evs')"
    "\<forall>m. existingBook e' m = existingBook demo_engine_traded m" "same_control e' demo_engine_traded" by (auto simp: journal_ok_def)
  moreover have "map_option (\<lambda>mb. map_option r_remaining (get_resting (fst mb) ''a1'')) (existingBook demo_engine_traded ''BTC'') = Some (Some 3)"
    by code_simp
  ultimately show ?thesis by metis
qed

end
