(* ===== verification/Engine_Props.thy ===== *)
theory Engine_Props
  imports Engine_Recovery
begin

text \<open>
  What the control state of the engine promises: a closed market takes no order, a market that is not
  under maintenance always lets an order go, and no switch moves without two operators.
\<close>

section \<open>Closed markets\<close>

definition closed_for_orders :: "engine \<Rightarrow> string \<Rightarrow> bool" where
  "closed_for_orders e m \<longleftrightarrow> \<not> eg_enabled e \<or> eg_admissionClosed e \<noteq> None \<or> map_of (eg_holdHalted e) m \<noteq> None \<or> eg_venueHalted e
     \<or> m \<in> set (eg_maintenance e) \<or> m \<in> set (eg_halted e) \<or> m \<in> set (eg_expiredMarkets e) \<or> m \<in> set (eg_delistedMarkets e)
     \<or> m \<in> set (eg_prelaunchMarkets e)"

lemmas refusals = rejected_def venueHaltedSubmitResult_def maintenanceSubmitResult_def haltedSubmitResult_def expiredSubmitResult_def
  delistedSubmitResult_def prelaunchSubmitResult_def splitBrainSubmitResult_def refusedAmend_def venueHaltedAmendResult_def maintenanceAmendResult_def
  haltedAmendResult_def expiredAmendResult_def delistedAmendResult_def prelaunchAmendResult_def splitBrainAmendResult_def

lemma closed_gates:
  assumes "closed_for_orders e m"
  shows "\<exists>r. submit_gate e m order = Some r \<and> \<not> s_accepted r \<and> s_fills r = []"
    "\<exists>a. amendRefusal e m cmd seen = Inr (Some a) \<and> \<not> ar_accepted a \<and> ar_fills a = []"
    "markRefusal e m \<noteq> None"
  using assms
  by (auto simp: closed_for_orders_def submit_gate_def amendRefusal_def markRefusal_def Let_def refusals split: option.splits)

lemma closed_submit:
  assumes "closed_for_orders e m"
  shows "\<exists>r. engine_submit ee e m order t = (e, r, []) \<and> \<not> s_accepted r \<and> s_fills r = []"
proof (cases "eg_splitBrain e")
  case True
  then show ?thesis by (simp add: engine_submit_def refusals)
next
  case False
  then show ?thesis using closed_gates(1) [OF assms, of order] by (auto simp: engine_submit_def base_submit_def)
qed

text \<open>C11. No door trades in a closed market. While the engine is off, admission is closed, a hold is
  unconfirmed, the venue is halted, or the market is under maintenance, halted, expired, delisted
  or not yet launched, a submission and an amendment are refused without a fill, a journal record or
  an event, and neither a mark nor the closing of a position changes anything.\<close>

theorem closed_market_untouched:
  assumes "closed_for_orders e m"
  shows "(\<exists>r. engine_submit ee e m order t = (e, r, []) \<and> \<not> s_accepted r \<and> s_fills r = [])
    \<and> (\<exists>a. engine_amend_cmd ee e m cmd t = (e, Inr a, []) \<and> \<not> ar_accepted a \<and> ar_fills a = [])
    \<and> fst (markTrailingStops ee e m mark t) = e \<and> fst (closePosition ee e m i acc t) = e"
proof (intro conjI)
  show "\<exists>r. engine_submit ee e m order t = (e, r, []) \<and> \<not> s_accepted r \<and> s_fills r = []" by (rule closed_submit [OF assms])
  show "\<exists>a. engine_amend_cmd ee e m cmd t = (e, Inr a, []) \<and> \<not> ar_accepted a \<and> ar_fills a = []"
    using closed_gates(2) [OF assms, of cmd "map_option fst (existingBook e m)"]
    by (cases "eg_splitBrain e") (auto simp: engine_amend_cmd_def base_amend_def refusals)
  show "fst (markTrailingStops ee e m mark t) = e"
    using closed_gates(3) [OF assms] by (auto simp: markTrailingStops_def split: sum.splits option.splits)
  have "fst (engine_submit ee e m o' t) = e" for o' using closed_submit [OF assms, of ee o' t] by auto
  then show "fst (closePosition ee e m i acc t) = e"
    by (simp add: closePosition_def Let_def case_prod_beta split: option.split sum.split)
qed

definition demo_operators :: operator_cmd where
  "demo_operators = \<lparr>oc_operatorId = Some ''op1'', oc_confirmOperatorId = Some ''op2'', oc_evidence = Some ''ticket'', oc_evidenceRefs = None,
     oc_policyId = None, oc_policyVersion = None\<rparr>"

definition demo_halted :: engine where
  "demo_halted = fst (halt demo_engine_env demo_rested ''BTC'' demo_operators 6)"

theorem closed_market_untouched_witness:
  "\<exists>r. engine_submit demo_engine_env demo_halted ''BTC'' demo_take 7 = (demo_halted, r, []) \<and> \<not> s_accepted r"
proof -
  have "closed_for_orders demo_halted ''BTC''" by code_simp
  from closed_market_untouched [OF this] show ?thesis by blast
qed

section \<open>Cancellation stays open\<close>

text \<open>C12. A live order can always be cancelled unless its market is under maintenance or the order itself is
  being changed: whatever else is halted, closed or disabled, the order leaves the book, every other
  order stays, the cancellation is journaled and its event published.\<close>

theorem live_order_cancellable:
  assumes "m \<notin> set (eg_maintenance e)" "map_of (eg_inFlight e) i = None" "existingBook e m = Some (b, rows)" "book_inv b" "isLive b i"
  shows "\<exists>e' c b'. engine_cancel ee e m i why t = (e', \<lparr>ec_cancellation = Some c, ec_rejected = None\<rparr>, [OrderCancelled m c])
    \<and> c_orderId c = i \<and> c_reason c = why \<and> existingBook e' m = Some (b', rows) \<and> live_ids b' = live_ids b - {i}
    \<and> last (eg_journal e') = JCancel m (ee_iso ee t) i (if why = Requested then None else Some why)"
proof -
  have live: "i \<in> live_ids b" using assms(5) by (simp add: isLive_iff)
  obtain b1 r where c: "cancel b i why = (b1, r)" by fastforce
  have step: "cancelled_to b {i} b1" "map_option c_orderId (cr_cancellation r) = Some i"
    using cancel_step [OF assms(4), of i why] live c by simp_all
  then obtain x where x: "cr_cancellation r = Some x" "c_orderId x = i" by auto
  have why: "c_reason x = why"
    using c x(1) by (auto simp: cancel_def pull_def Let_def nextSequence_eq split: option.splits prod.splits)
  have ids: "live_ids b1 = live_ids b - {i}" using step(1) by (auto simp: cancelled_to_def live_ids_def split: if_splits)
  let ?e' = "endInFlight i (put_book m (b1, rows)
      (append (JCancel m (ee_iso ee t) i (if why = Requested then None else Some why)) (beginInFlight m i CancelMutation (ee_iso ee t) e)))"
  have "engine_cancel ee e m i why t = (?e', \<lparr>ec_cancellation = Some x, ec_rejected = None\<rparr>, [OrderCancelled m x])"
    using assms(1-3) c x(1) by (simp add: engine_cancel_def refuseInFlightCancel_def in_flight_of_def Let_def)
  moreover have "existingBook ?e' m = Some (b1, rows)" by (simp add: existingBook_def update_conv')
  ultimately show ?thesis using x(2) why ids by fastforce
qed

theorem live_order_cancellable_witness:
  "\<exists>e' c b'. engine_cancel demo_engine_env demo_halted ''BTC'' ''a1'' Requested 7 = (e', \<lparr>ec_cancellation = Some c, ec_rejected = None\<rparr>, [OrderCancelled ''BTC'' c])
    \<and> c_orderId c = ''a1'' \<and> existingBook e' ''BTC'' = Some (b', []) \<and> ''a1'' \<notin> live_ids b'"
proof -
  obtain b where b: "existingBook demo_rested ''BTC'' = Some (b, [])" "isLive b ''a1''"
  proof -
    have "case existingBook demo_rested ''BTC'' of Some (b, rows) \<Rightarrow> rows = [] \<and> isLive b ''a1'' | None \<Rightarrow> False" by code_simp
    then show thesis using that by (auto split: option.splits)
  qed
  have "eg_books demo_halted = eg_books demo_rested" by code_simp
  then have h: "existingBook demo_halted ''BTC'' = Some (b, [])" using b(1) by (simp add: existingBook_def)
  have inv: "book_inv b" using books_ok_get [OF synced_books_ok [OF demo_rested_synced]] b(1) by (auto simp: existingBook_def)
  have "''BTC'' \<notin> set (eg_maintenance demo_halted)" "map_of (eg_inFlight demo_halted) ''a1'' = None" by code_simp+
  from live_order_cancellable [OF this h inv b(2)] show ?thesis by blast
qed

section \<open>Dual control\<close>

definition switched_by_two :: "engine_env \<Rightarrow> engine \<Rightarrow> operator_cmd \<Rightarrow> (string \<Rightarrow> string option \<Rightarrow> journal_record) \<Rightarrow> engine \<times> reject_code option \<Rightarrow> bool" where
  "switched_by_two ee e cmd entry out \<longleftrightarrow>
     (snd out \<noteq> None \<and> fst out = e)
     \<or> (\<exists>a c. snd out = None \<and> readOperatorId (oc_operatorId cmd) = Some a \<and> readConfirmOperatorId (oc_confirmOperatorId cmd) = Some c \<and> a \<noteq> c
          \<and> eg_journal (fst out) = eg_journal e @ [entry a (Some c)] \<and> eg_books (fst out) = eg_books e)"

lemma read_read [simp]:
  "readOperatorId (readOperatorId s) = readOperatorId s" "readConfirmOperatorId (readConfirmOperatorId s) = readConfirmOperatorId s"
  by (auto simp: readOperatorId_def readConfirmOperatorId_def split: option.splits)

lemma dual_operators:
  assumes "dual_refuse cmd = None"
  obtains a c where "readOperatorId (oc_operatorId cmd) = Some a" "readConfirmOperatorId (oc_confirmOperatorId cmd) = Some c" "a \<noteq> c"
  using assms by (auto simp: dual_refuse_def dualControlRefuse_def Let_def operatorRefuse_def split: if_splits)

lemma controlled_by_two:
  assumes "\<And>e. eg_journal (change e) = eg_journal e" "\<And>e. eg_books (change e) = eg_books e"
  shows "switched_by_two ee e cmd (JControl k m (ee_iso ee t)) (controlled ee k change e m cmd t)"
proof (cases "dual_refuse cmd")
  case None
  then obtain a c where "readOperatorId (oc_operatorId cmd) = Some a" "readConfirmOperatorId (oc_confirmOperatorId cmd) = Some c" "a \<noteq> c"
    by (rule dual_operators)
  then show ?thesis using None assms by (simp add: switched_by_two_def controlled_def control_record_def)
qed (simp add: switched_by_two_def controlled_def)

lemma market_by_two:
  "\<exists>k. switched_by_two ee e cmd (JControl k m at') (e, Some code)"
  "(\<And>e. eg_journal (change e) = eg_journal e) \<Longrightarrow> (\<And>e. eg_books (change e) = eg_books e)
    \<Longrightarrow> \<exists>k. switched_by_two ee e cmd (JControl k m (ee_iso ee t)) (controlled ee k' change e m cmd t)"
  by (simp add: switched_by_two_def) (rule exI, rule controlled_by_two)

lemma venue_by_two:
  assumes "dual_refuse cmd = None" "\<And>e. eg_journal (change e) = eg_journal e" "\<And>e. eg_books (change e) = eg_books e"
  shows "\<exists>k. switched_by_two ee e cmd (JVenue k (ee_iso ee t)) (change (append (venue_record ee k' cmd t) e), None)"
  using assms(1) by (rule dual_operators) (use assms(2,3) in \<open>auto simp: switched_by_two_def venue_record_def\<close>)

lemma operator_of_dual: "dual_refuse cmd = None \<Longrightarrow> operatorRefuse (readOperatorId (oc_operatorId cmd)) = None"
  by (erule dual_operators) (simp add: operatorRefuse_def)

text \<open>C13. Dual control. Every command that switches a market, and every command that switches the venue,
  either refuses with the engine as it was, or names two different operators in the single record it
  appends to the journal; no switch touches a book.\<close>

theorem switches_need_two_operators:
  "(f \<in> set market_commands \<longrightarrow> (\<exists>k. switched_by_two ee e cmd (JControl k m (ee_iso ee t)) (f ee e m cmd t)))
    \<and> (g \<in> set venue_commands \<longrightarrow> (\<exists>k. switched_by_two ee e cmd (JVenue k (ee_iso ee t)) (g ee e cmd t)))"
proof (intro conjI impI)
  assume "f \<in> set market_commands"
  then show "\<exists>k. switched_by_two ee e cmd (JControl k m (ee_iso ee t)) (f ee e m cmd t)"
    unfolding market_commands_def list.set by (elim insertE emptyE) (simp_all add: command_defs market_by_two split: option.split)
next
  have r: "\<exists>k. switched_by_two ee e cmd (JVenue k (ee_iso ee t)) (e, Some code)" for code by (simp add: switched_by_two_def)
  have v: "\<exists>k. switched_by_two ee e cmd (JVenue k (ee_iso ee t)) ((append (venue_record ee k' cmd t) e)\<lparr>eg_venueHalted := h\<rparr>, None)"
    "\<exists>k. switched_by_two ee e cmd (JVenue k (ee_iso ee t)) ((append (venue_record ee k' cmd t) e)\<lparr>eg_splitBrain := h\<rparr>, None)"
    if "dual_refuse cmd = None" for k' h
    using venue_by_two [OF that, of "eg_venueHalted_update (\<lambda>_. h)"] venue_by_two [OF that, of "eg_splitBrain_update (\<lambda>_. h)"] by simp_all
  assume "g \<in> set venue_commands"
  then show "\<exists>k. switched_by_two ee e cmd (JVenue k (ee_iso ee t)) (g ee e cmd t)"
    unfolding venue_commands_def list.set
    by (elim insertE emptyE)
      (auto simp: haltAll_def resumeAll_def base_venue_def declareOrClear_def or_else_def operator_of_dual r v split: option.splits)
qed

theorem switches_need_two_operators_witness:
  "\<exists>k. switched_by_two demo_engine_env demo_rested demo_operators (JControl k ''BTC'' (ee_iso demo_engine_env 6))
    (halt demo_engine_env demo_rested ''BTC'' demo_operators 6) \<and> snd (halt demo_engine_env demo_rested ''BTC'' demo_operators 6) = None"
proof -
  have "halt \<in> set market_commands" by (simp add: market_commands_def)
  moreover have "snd (halt demo_engine_env demo_rested ''BTC'' demo_operators 6) = None" by code_simp
  ultimately show ?thesis using switches_need_two_operators [of halt] by blast
qed

end
