(* ===== verification/Engine_Findings.thy ===== *)
theory Engine_Findings
  imports Engine_Props
begin

text \<open>
  Three ways in which the engine and its journal part: a mass cancel during maintenance, a retry that
  carries a position, and a trailing stop that a mark fires. The first two are shown for every engine that a regular run leads to
  and every such command, the third is an execution of the model.
\<close>

section \<open>A mass cancel during maintenance\<close>

lemma owned_set:
  assumes "book_inv b"
  shows "set (ownedOrderIds acc (liveOwnedFromState (toState b)) side) = set (ownedOrderIds acc (live_owned_rows b) side)"
proof -
  have wf: "book_wf b" using assms by (simp add: book_inv_def)
  have "set (queue b BuySide @ queue b SellSide) = set (resting_rows b)" using mset_queues [OF assms] by (metis set_mset_mset)
  then have "set (liveOwnedFromState (toState b)) = set (live_owned_rows b)"
    unfolding owned_from_state [OF wf] live_owned_rows_def set_append set_map image_Un [symmetric] by (simp add: owned_row_def [abs_def])
  then show ?thesis by (simp add: ownedOrderIds_def)
qed

lemma owned_live:
  assumes "book_inv b" "i \<in> set (ownedOrderIds acc (live_owned_rows b) side)"
  shows "i \<in> live_ids b"
  using assms row_ids(3) [OF assms(1)]
  by (auto simp: ownedOrderIds_def live_owned_rows_def live_ids_def split: if_splits)

lemma cancel_each_maintained:
  assumes "m \<in> set (eg_maintenance e)"
  shows "cancel_each ee m why t e is = (e, [], is, [])"
  by (induction "is") (use assms in \<open>simp_all add: engine_cancel_def\<close>)

lemma live_not_empty: "i \<in> live_ids b \<Longrightarrow> \<not> isNeverPrintedEmpty b"
  by (auto simp: isNeverPrintedEmpty_def live_ids_def get_resting_def)

lemma mass_cancel_maintained:
  assumes "synced ee e" "m \<in> set (eg_maintenance e)" "existingBook e m = Some (b, rows)" "readSessionId sid = None"
    and "i \<in> set (ownedOrderIds acc (liveOwnedFromState (toState b)) side)" "massCancel ee e m acc sid side t = (e1, result, evs)"
  shows "existingBook e1 m = Some (b, rows)" "i \<in> live_ids b" "mc_cancellations result = []" "i \<in> set (mc_failed result)"
    "eg_journal e1 = eg_journal e @ [JMassCancel m (ee_iso ee t) acc side]"
proof -
  have inv: "book_inv b" using books_ok_get [OF synced_books_ok [OF assms(1)]] assms(3) by (auto simp: existingBook_def)
  show live: "i \<in> live_ids b" using owned_live [OF inv] owned_set [OF inv] assms(5) by blast
  let ?e = "append (JMassCancel m (ee_iso ee t) acc side) e"
  have "e1 = dropIfNeverTraded m ?e" "mc_cancellations result = []" "mc_failed result = ownedOrderIds acc (liveOwnedFromState (toState b)) side"
    using assms(6) cancel_each_maintained [of m ?e] assms(2-4) by (auto simp: massCancel_def massCancelSessionRefuse_def)
  then show "existingBook e1 m = Some (b, rows)" "mc_cancellations result = []" "i \<in> set (mc_failed result)"
    "eg_journal e1 = eg_journal e @ [JMassCancel m (ee_iso ee t) acc side]"
    using assms(3,5) live_not_empty [OF live] by (simp_all add: existingBook_def map_of_drop)
qed

lemma mass_cancel_replayed:
  assumes "synced ee e" "existingBook e m = Some (b, rows)" "i \<in> set (ownedOrderIds acc (liveOwnedFromState (toState b)) side)"
  shows "\<exists>e2 evs2. recover ee (new_engine c en (eg_journal e @ [JMassCancel m at' acc side])) = Inr (e2, evs2)
    \<and> (\<forall>b2 rows2. existingBook e2 m = Some (b2, rows2) \<longrightarrow> \<not> isLive b2 i)"
proof -
  obtain st where st: "replayJournal ee (eg_journal e) = Inr st" "matches st e" using assms(1) by (auto simp: synced_def)
  have inv: "book_inv b" using books_ok_get [OF synced_books_ok [OF assms(1)]] assms(2) by (auto simp: existingBook_def)
  have b: "map_of (rp_books st) m = Some (b, rows)" using st(2) assms(2) by (simp add: matches_def existingBook_def)
  let ?b = "fst (cancelAccount b acc side)"
  let ?st = "st\<lparr>rp_books := drop_never_traded m (AList.update m (?b, rows) (rp_books st))\<rparr>"
  have gone: "\<not> isLive ?b i"
    using cancel_ids_gone(1) [OF inv, of "ownedOrderIds acc (live_owned_rows b) side" Requested] owned_set [OF inv] assms(3)
    by (auto simp: isLive_iff cancelAccount_def)
  have "replayJournal ee (eg_journal e @ [JMassCancel m at' acc side]) = Inr ?st"
    using st(1) b by (simp add: replayJournal_def replay_from_append)
  moreover have "map_of (rp_books ?st) m = Some (b2, rows2) \<Longrightarrow> b2 = ?b" for b2 rows2
    by (auto simp: map_of_drop update_conv' split: if_splits)
  ultimately show ?thesis using gone by (auto simp: recover_def new_engine_def Let_def existingBook_def)
qed

text \<open>C37. (Finding.) During maintenance every cancel is refused and resting orders stay. The fence journals a
  mass cancel before the cancels it issues are refused: on any market under maintenance, a mass cancel of an account
  with a live order is accepted, reports that order as failed and keeps the book as it was,
  and an engine rebuilt from the journal succeeds and no longer has the order.\<close>

theorem mass_cancel_in_maintenance_diverges:
  assumes "iso_ok ee" "journal_ok J" "recover ee (new_engine True en J) = Inr (e0, evs0)" "regular_run ee e0 evs e"
    and "m \<in> set (eg_maintenance e)" "existingBook e m = Some (b, rows)" "readSessionId sid = None"
    and "i \<in> set (ownedOrderIds acc (liveOwnedFromState (toState b)) side)" "massCancel ee e m acc sid side t = (e1, result, evs1)"
  shows "existingBook e1 m = Some (b, rows) \<and> isLive b i \<and> mc_cancellations result = [] \<and> i \<in> set (mc_failed result)
    \<and> (\<exists>e2 evs2. recover ee (new_engine True en' (eg_journal e1)) = Inr (e2, evs2)
        \<and> (\<forall>b2 rows2. existingBook e2 m = Some (b2, rows2) \<longrightarrow> \<not> isLive b2 i))"
proof -
  have sync: "synced ee e" by (rule synced_run [OF assms(4) recovered_synced(1) [OF assms(3,2)] assms(1)])
  note now = mass_cancel_maintained [OF sync assms(5-9)]
  show ?thesis using now(1-4) mass_cancel_replayed [OF sync assms(6,8)] unfolding now(5) isLive_iff by blast
qed

definition demo_maintained :: engine where
  "demo_maintained = fst (enterMaintenance demo_engine_env demo_rested ''BTC'' demo_operators 6)"

definition demo_rested_book :: order_book where
  "demo_rested_book = fst (the (existingBook demo_rested ''BTC''))"

lemma demo_rested_book: "existingBook demo_rested ''BTC'' = Some (demo_rested_book, [])"
proof -
  have "map_option snd (existingBook demo_rested ''BTC'') = Some []" by code_simp
  then show ?thesis by (cases "existingBook demo_rested ''BTC''") (auto simp: demo_rested_book_def)
qed

theorem mass_cancel_in_maintenance_diverges_witness:
  "\<exists>e1 result evs1 e2 evs2. massCancel demo_engine_env demo_maintained ''BTC'' ''ann'' None None 7 = (e1, result, evs1)
    \<and> existingBook e1 ''BTC'' = Some (demo_rested_book, []) \<and> isLive demo_rested_book ''a1''
    \<and> recover demo_engine_env (new_engine True True (eg_journal e1)) = Inr (e2, evs2)
    \<and> (\<forall>b2 rows2. existingBook e2 ''BTC'' = Some (b2, rows2) \<longrightarrow> \<not> isLive b2 ''a1'')"
proof -
  obtain evs where run: "regular_run demo_engine_env (new_engine True True []) evs demo_rested" using demo_runs(1) by blast
  have "enterMaintenance \<in> set market_commands" by (simp add: market_commands_def)
  from continues [OF run controls [OF this]]
  have run': "regular_run demo_engine_env (new_engine True True []) (evs @ []) demo_maintained" unfolding demo_maintained_def .
  have m: "''BTC'' \<in> set (eg_maintenance demo_maintained)" by code_simp
  have "eg_books demo_maintained = eg_books demo_rested" by code_simp
  then have b: "existingBook demo_maintained ''BTC'' = Some (demo_rested_book, [])" using demo_rested_book by (simp add: existingBook_def)
  have o: "''a1'' \<in> set (ownedOrderIds ''ann'' (liveOwnedFromState (toState demo_rested_book)) None)" by code_simp
  obtain e1 result evs1 where mc: "massCancel demo_engine_env demo_maintained ''BTC'' ''ann'' None None 7 = (e1, result, evs1)"
    by (metis prod.exhaust)
  have "readSessionId None = None" by code_simp
  from mass_cancel_in_maintenance_diverges [OF demo_iso_ok _ demo_recovered run' m b this o mc, of True] mc show ?thesis
    by (simp add: journal_ok_def)
qed

section \<open>A retry that carries a position\<close>

lemma duplicate_notes:
  assumes "hasAccepted b (o_orderId order)" "pegIntentRefuse (core_order order) = None" "\<not> wantsTrailing order" "o_positionQty order = Some q"
  shows "\<exists>code. trailing_submit env (b, rows) order t = ((b\<lparr>b_futuresPositions := AList.update (o_accountId order) q (b_futuresPositions b)\<rparr>, rows), rejected code)"
proof -
  let ?o = "bindPegRelative (core_order order)"
  have f: "o_orderId ?o = o_orderId order" "o_accountId ?o = o_accountId order" "o_positionQty ?o = Some q"
    using assms(4) by (auto simp: bindPegRelative_def engine_order.truncate_def split: option.splits)
  have n: "note_position ?o b = b\<lparr>b_futuresPositions := AList.update (o_accountId order) q (b_futuresPositions b)\<rparr>"
    by (simp add: note_position_def f)
  have "hasAccepted (note_position ?o b) (o_orderId ?o)" using assms(1) by (simp add: n f hasAccepted_def)
  then have "validate env (note_position ?o b) ?o t \<noteq> None" by (auto simp: validate_def)
  then show ?thesis using assms(2,3) n by (auto simp: trailing_submit_def submit_def Let_def)
qed

text \<open>C38. (Finding.) A retry of an accepted order is refused and is not journaled, but the book
  has already taken the position it carries: on any market whose gates let the order through, the position that the next reduce-only
  check reads is the one of the refused retry, and an engine rebuilt from the journal has the one from before.\<close>

theorem duplicate_retry_moves_position:
  assumes "iso_ok ee" "journal_ok J" "recover ee (new_engine True en J) = Inr (e0, evs0)" "regular_run ee e0 evs e"
    and "\<not> eg_splitBrain e" "submit_gate e m order = None" "existingBook e m = Some (b, rows)" "hasAccepted b (o_orderId order)"
    and "pegIntentRefuse (core_order (trail_order.truncate order)) = None" "\<not> wantsTrailing (trail_order.truncate order)"
    and "o_positionQty order = Some q" "engine_submit ee e m order t = (e1, result, evs1)"
  shows "\<not> s_accepted result \<and> evs1 = [] \<and> eg_journal e1 = eg_journal e
    \<and> (\<exists>b1. existingBook e1 m = Some (b1, rows) \<and> signedPosition b1 (o_accountId order) None = q)
    \<and> (\<exists>e2 evs2. recover ee (new_engine True en' (eg_journal e1)) = Inr (e2, evs2) \<and> existingBook e2 m = Some (b, rows))"
proof -
  have sync: "synced ee e" by (rule synced_run [OF assms(4) recovered_synced(1) [OF assms(3,2)] assms(1)])
  have a: "o_accountId (trail_order.truncate order) = o_accountId order" by (simp add: trail_order.truncate_def)
  let ?b = "b\<lparr>b_futuresPositions := AList.update (o_accountId order) q (b_futuresPositions b)\<rparr>"
  obtain code where code: "trailing_submit (ee_match ee) (b, rows) (trail_order.truncate order) (expiry_now e t) = ((?b, rows), rejected code)"
    using duplicate_notes [of b "trail_order.truncate order" q "ee_match ee" rows "expiry_now e t"] assms(8-11) a by auto
  have "engine_submit ee e m order t = (put_book m (?b, rows) e, rejected code, [])"
    using assms(5-8) code by (simp add: engine_submit_def base_submit_def engine_book_def)
  then have e1: "e1 = put_book m (?b, rows) e" "result = rejected code" "evs1 = []" using assms(12) by simp_all
  have "existingBook e1 m = Some (?b, rows)" "signedPosition ?b (o_accountId order) None = q"
    by (simp_all add: e1(1) existingBook_def update_conv' signedPosition_def)
  moreover have "eg_journal e1 = eg_journal e" by (simp add: e1(1))
  ultimately show ?thesis using e1(2,3) synced_recover [OF sync, of True en'] assms(7) by (auto simp: rejected_def)
qed

theorem duplicate_retry_moves_position_witness:
  "\<exists>e1 result evs1 b1 e2 evs2. engine_submit demo_engine_env demo_rested ''BTC'' (demo_rest\<lparr>o_positionQty := Some 7\<rparr>) 6 = (e1, result, evs1)
    \<and> existingBook e1 ''BTC'' = Some (b1, []) \<and> signedPosition b1 ''ann'' None = 7
    \<and> recover demo_engine_env (new_engine True True (eg_journal e1)) = Inr (e2, evs2)
    \<and> map_option (\<lambda>mb. signedPosition (fst mb) ''ann'' None) (existingBook e2 ''BTC'') = Some 0"
proof -
  let ?o = "demo_rest\<lparr>o_positionQty := Some 7\<rparr>"
  obtain evs where run: "regular_run demo_engine_env (new_engine True True []) evs demo_rested" using demo_runs(1) by blast
  have g: "\<not> eg_splitBrain demo_rested" "submit_gate demo_rested ''BTC'' ?o = None" "hasAccepted demo_rested_book (o_orderId ?o)"
    "pegIntentRefuse (core_order (trail_order.truncate ?o)) = None" "\<not> wantsTrailing (trail_order.truncate ?o)"
    "o_accountId ?o = ''ann''" "signedPosition demo_rested_book ''ann'' None = 0" by code_simp+
  have q: "o_positionQty ?o = Some 7" by simp
  obtain e1 result evs1 where s: "engine_submit demo_engine_env demo_rested ''BTC'' ?o 6 = (e1, result, evs1)" by (metis prod.exhaust)
  have j: "journal_ok []" by (simp add: journal_ok_def)
  from duplicate_retry_moves_position [OF demo_iso_ok j demo_recovered run g(1,2) demo_rested_book g(3-5) q s, of True] g(6,7) s
  show ?thesis by fastforce
qed

section \<open>A trailing stop that a mark fires\<close>

definition demo_whole :: "string \<Rightarrow> string \<Rightarrow> order_side \<Rightarrow> amount \<Rightarrow> amount \<Rightarrow> full_order" where
  "demo_whole i acc side qty price = demo_order (demo_limit i acc side (qty * SCALE) (price * SCALE) GTC)"

definition demo_trailing :: full_order where
  "demo_trailing = (demo_whole ''t1'' ''dan'' SellSide 2 0)\<lparr>o_type := Stop, o_price := None, o_trail := Some (10 * SCALE), o_mark := Some (100 * SCALE)\<rparr>"

definition demo_trail_engine :: engine where
  "demo_trail_engine = foldl (\<lambda>e order. fst (engine_submit demo_engine_env e ''BTC'' order 5)) (new_engine True True [])
     [demo_whole ''a1'' ''ann'' SellSide 1 100, demo_whole ''b1'' ''bob'' BuySide 1 100, demo_whole ''c1'' ''cat'' BuySide 5 90, demo_trailing]"

text \<open>(Finding.) A mark can move a trailing stop past the last print, so that the stop fires and trades at
  once. The walk then finds no stop left to note the mark on and reports that nothing changed: the
  trade is neither journaled nor published, the answer says the mark was not applied, and an engine
  rebuilt from the journal still has the stop and the bid it traded with.\<close>

theorem mark_fires_stop_silently:
  "case markTrailingStops demo_engine_env demo_trail_engine ''BTC'' ''130'' 6 of (e, result) \<Rightarrow>
     result = Inr \<lparr>mr_accepted = True, mr_applied = False, mr_rejected = None\<rparr> \<and> eg_journal e = eg_journal demo_trail_engine
     \<and> map_option (\<lambda>mb. (isLive (fst mb) ''t1'', map_option r_remaining (get_resting (fst mb) ''c1''))) (existingBook e ''BTC'') = Some (False, Some (3 * SCALE))
     \<and> (case recover demo_engine_env (new_engine True True (eg_journal e)) of
          Inr (e', _) \<Rightarrow> map_option (\<lambda>mb. (isLive (fst mb) ''t1'', map_option r_remaining (get_resting (fst mb) ''c1''))) (existingBook e' ''BTC'') = Some (True, Some (5 * SCALE))
        | Inl _ \<Rightarrow> False)"
  by code_simp

end
