(* ===== verification/Engine_Fills.thy ===== *)
theory Engine_Fills
  imports Engine_Findings
begin

text \<open>
  Recovery announces every fill that was ever published: no fill is lost by a restart.
\<close>

section \<open>Fills of events and of replays\<close>

fun fill_of :: "pending_event \<Rightarrow> replay_fill set" where
  "fill_of (OrderFilled m f at') = {\<lparr>rf_marketId = m, rf_at = at', rf_fill = f\<rparr>}"
| "fill_of _ = {}"

definition published :: "pending_event list \<Rightarrow> replay_fill set" where
  "published evs = (\<Union>ev \<in> set evs. fill_of ev)"

definition replayed_fills :: "engine_env \<Rightarrow> journal_record list \<Rightarrow> replay_fill set" where
  "replayed_fills ee J = (case replayJournal ee J of Inr st \<Rightarrow> set (rp_fills st) | Inl _ \<Rightarrow> {})"

lemma published_simps [simp]:
  "published [] = {}" "published (xs @ ys) = published xs \<union> published ys" "published (sort_key k xs) = published xs"
  "published (ev # evs) = fill_of ev \<union> published evs" "published (concat xss) = (\<Union>xs \<in> set xss. published xs)"
  "published (map (\<lambda>f. OrderFilled m f at') fs) = (\<lambda>f. \<lparr>rf_marketId = m, rf_at = at', rf_fill = f\<rparr>) ` set fs"
  "published (map (OrderCancelled m) cs) = {}" "published (map (\<lambda>(m, c). OrderCancelled m c) ps) = {}"
  by (auto simp: published_def)

lemma set_collect_fills:
  "set (collect_fills m at' fs ts) = (\<lambda>f. \<lparr>rf_marketId = m, rf_at = at', rf_fill = f\<rparr>) ` (set fs \<union> (\<Union>x \<in> set ts. set (t_fills x)))"
  by (simp add: collect_fills_def set_foldl_set_add)

lemma published_triggered: "published (triggered_events m at' x) = (\<lambda>f. \<lparr>rf_marketId = m, rf_at = at', rf_fill = f\<rparr>) ` set (t_fills x)"
proof -
  have "published (case t_trigger x of None \<Rightarrow> [] | Some trigger \<Rightarrow> [OrderTriggered m (t_orderId x) (t_sequence x) trigger at']) = {}"
    by (cases "t_trigger x") simp_all
  then show ?thesis by (simp add: triggered_events_def)
qed

lemma published_submit: "published (eventsForSubmit m i r at') = set (collect_fills m at' (s_fills r) (s_triggered r))"
proof -
  have "published (if s_accepted r then case s_sequence r of None \<Rightarrow> [] | Some n \<Rightarrow> [OrderAccepted m i n] else []) = {}"
    by (cases "s_sequence r") simp_all
  then show ?thesis by (simp add: eventsForSubmit_def set_collect_fills published_triggered image_Un image_UN)
qed

lemma published_once: "published (once_by_key seen evs) \<subseteq> published evs"
  by (induction evs arbitrary: seen) auto

lemma published_amend: "published (eventsForAmend m r at') \<subseteq> set (collect_fills m at' (ar_fills r) (ar_triggered r))"
  using published_once [of "[]" "map (OrderCancelled m) (ar_cancellations r) @ map (\<lambda>f. OrderFilled m f at') (ar_fills r)
      @ concat (map (triggered_events m at') (ar_triggered r))"]
  by (simp add: eventsForAmend_def set_collect_fills published_triggered image_Un image_UN)

lemma published_announced: "published (announced st) = set (rp_fills st)"
proof -
  have "published (announced st) = (\<Union>row \<in> set (rp_fills st). {\<lparr>rf_marketId = rf_marketId row, rf_at = rf_at row, rf_fill = rf_fill row\<rparr>})"
    by (simp add: announced_def published_def)
  also have "\<dots> = (\<Union>row \<in> set (rp_fills st). {row})" by (rule SUP_cong) simp_all
  finally show ?thesis by simp
qed

section \<open>Commands without fills\<close>

fun quiet :: "journal_record \<Rightarrow> bool" where
  "quiet (JSubmit _ _ _) = False"
| "quiet (JAmend _ _ _ _ _) = False"
| "quiet _ = True"

lemma quiet_replay:
  assumes "replay_record ee st r = Inr st'" "quiet r"
  shows "rp_fills st' = rp_fills st"
proof (cases r)
  case (JMark m t x)
  show ?thesis
  proof (cases "map_of (rp_books st) m")
    case (Some p)
    obtain b rows where p: "p = (b, rows)" by fastforce
    then obtain a where "parse_text x = Inr a" using assms(1) Some by (auto simp: JMark)
    then show ?thesis
      using assms(1) Some by (cases "applyMark (ee_match ee) b rows (Some a)") (auto simp: JMark p split: sum.splits)
  qed (use assms(1) in \<open>simp add: JMark\<close>)
qed (use assms in \<open>auto simp: Let_def case_prod_beta split: option.splits if_splits\<close>)

lemma quiet_replay_from: "list_all quiet rs \<Longrightarrow> replay_from ee st rs = Inr st' \<Longrightarrow> rp_fills st' = rp_fills st"
proof (induction rs arbitrary: st)
  case (Cons r rs)
  then obtain st1 where "replay_record ee st r = Inr st1" "replay_from ee st1 rs = Inr st'" by auto
  then show ?case using Cons quiet_replay by fastforce
qed simp

definition grows_quietly :: "engine \<Rightarrow> engine \<Rightarrow> bool" where
  "grows_quietly e e' \<longleftrightarrow> (\<exists>rs. eg_journal e' = eg_journal e @ rs \<and> list_all quiet rs)"

lemma grows_same: "eg_journal e' = eg_journal e \<Longrightarrow> grows_quietly e e'"
  by (auto simp: grows_quietly_def intro: exI [of _ "[]"])

lemma grows_record: "eg_journal e' = eg_journal e @ [r] \<Longrightarrow> quiet r \<Longrightarrow> grows_quietly e e'"
  by (auto simp: grows_quietly_def)

lemma grows_trans: "grows_quietly e e' \<Longrightarrow> grows_quietly e' e'' \<Longrightarrow> grows_quietly e e''"
  by (fastforce simp: grows_quietly_def)

lemma quiet_fills:
  assumes "synced ee e" "synced ee e'" "grows_quietly e e'"
  shows "replayed_fills ee (eg_journal e') = replayed_fills ee (eg_journal e)"
proof -
  obtain rs where rs: "eg_journal e' = eg_journal e @ rs" "list_all quiet rs" using assms(3) by (auto simp: grows_quietly_def)
  obtain st where st: "replayJournal ee (eg_journal e) = Inr st" using assms(1) by (auto simp: synced_def)
  obtain st' where st': "replayJournal ee (eg_journal e') = Inr st'" using assms(2) by (auto simp: synced_def)
  have "replay_from ee st rs = Inr st'" using st st' by (simp add: rs(1) replayJournal_def replay_from_append)
  then show ?thesis using quiet_replay_from [OF rs(2)] st st' by (simp add: replayed_fills_def)
qed

lemma begin_quiet: "grows_quietly e (beginInFlight m i mu t e)"
  by (cases "remainingOf e m i") (auto simp: beginInFlight_def append_def intro: grows_same grows_record)

lemma cancel_quiet:
  "grows_quietly e (fst (engine_cancel ee e m i why t))" "published (snd (snd (engine_cancel ee e m i why t))) = {}"
proof -
  show "grows_quietly e (fst (engine_cancel ee e m i why t))"
  proof (cases rule: engine_cancel_cases [of ee e m i why t])
    case (pulled b rows b1 r)
    show ?thesis
      by (rule grows_trans [OF begin_quiet [of e m i CancelMutation "ee_iso ee t"]],
          rule grows_record [of _ _ "JCancel m (ee_iso ee t) i (if why = Requested then None else Some why)"]) (simp_all add: pulled(5))
  qed (simp add: grows_same)
  show "published (snd (snd (engine_cancel ee e m i why t))) = {}"
    by (auto simp: engine_cancel_def Let_def case_prod_beta split: option.splits)
qed

lemma cancel_each_quiet:
  "grows_quietly e (fst (cancel_each ee m why t e is)) \<and> published (snd (snd (snd (cancel_each ee m why t e is)))) = {}"
proof (induction "is" arbitrary: e)
  case (Cons i "is")
  let ?e1 = "fst (engine_cancel ee e m i why t)"
  have "grows_quietly e (fst (cancel_each ee m why t ?e1 is))" using grows_trans [OF cancel_quiet(1)] Cons by blast
  then show ?case using Cons [of ?e1] cancel_quiet(2) [of ee e m i why t] by (simp add: Let_def case_prod_beta split: option.splits)
qed (simp add: grows_same)

lemma mass_quiet:
  "grows_quietly e (fst (massCancel ee e m acc sid side t))" "published (snd (snd (massCancel ee e m acc sid side t))) = {}"
proof -
  have g: "grows_quietly e (dropIfNeverTraded m (fst (cancel_each ee m Requested t (append (JMassCancel m at' acc side) e) is)))" for "is" at'
  proof -
    have "grows_quietly e (append (JMassCancel m at' acc side) e)" by (rule grows_record [of _ _ "JMassCancel m at' acc side"]) simp_all
    from grows_trans [OF this cancel_each_quiet [THEN conjunct1]] show ?thesis by (simp add: grows_quietly_def)
  qed
  show "grows_quietly e (fst (massCancel ee e m acc sid side t))" "published (snd (snd (massCancel ee e m acc sid side t))) = {}"
    using g cancel_each_quiet by (auto simp: massCancel_def Let_def case_prod_beta grows_same split: option.splits)
qed

lemma dead_books_journal: "eg_journal (fst (dead_session_books sid e ms)) = eg_journal e"
  by (induction ms arbitrary: e) (auto simp: Let_def case_prod_beta split: option.splits)

lemma session_quiet:
  "grows_quietly e (fst (sessionDead ee e raw t))" "published (snd (snd (sessionDead ee e raw t))) = {}"
  by (auto simp: sessionDead_def Let_def case_prod_beta dead_books_journal append_def split: option.splits intro: grows_same grows_record)

lemma sweep_quiet:
  "grows_quietly e (fst (sweep_markets ee t e ms)) \<and> published (snd (snd (snd (sweep_markets ee t e ms)))) = {}"
proof (induction ms arbitrary: e)
  case (Cons m ms)
  have "grows_quietly e (fst (sweep_markets ee t (fst (cancel_each ee m Expired t e is)) ms))" for "is"
    using grows_trans [OF cancel_each_quiet [THEN conjunct1]] Cons by blast
  then show ?case using Cons cancel_each_quiet by (simp add: Let_def case_prod_beta split: option.splits)
qed (simp add: grows_same)

lemma mark_quiet: "grows_quietly e (fst (markTrailingStops ee e m mark t))"
proof (cases rule: mark_cases [of ee e m mark t])
  case (silent b rows)
  then show ?thesis by (auto intro: grows_same)
next
  case (journaled b rows a mb c)
  then show ?thesis by (auto simp: intro: grows_record)
qed (simp add: grows_same)

lemma switch_quiet:
  "f \<in> set market_commands \<Longrightarrow> grows_quietly e (fst (f ee e m cmd t))" "g \<in> set venue_commands \<Longrightarrow> grows_quietly e (fst (g ee e cmd t))"
proof -
  have c: "(\<And>e. eg_journal (change e) = eg_journal e) \<Longrightarrow> grows_quietly e (fst (controlled ee k change e m cmd t))" for change k
    by (auto simp: controlled_def control_record_def intro: grows_same grows_record split: option.splits)
  show "f \<in> set market_commands \<Longrightarrow> grows_quietly e (fst (f ee e m cmd t))"
    unfolding market_commands_def list.set by (elim insertE emptyE) (simp_all add: command_defs c grows_same split: option.split)
  have v: "grows_quietly e ((append (venue_record ee k cmd t) e)\<lparr>eg_venueHalted := h\<rparr>)" "grows_quietly e ((append (venue_record ee k cmd t) e)\<lparr>eg_splitBrain := h\<rparr>)" for k h
    by (rule grows_record [of _ _ "venue_record ee k cmd t"]; simp add: venue_record_def append_def)+
  show "g \<in> set venue_commands \<Longrightarrow> grows_quietly e (fst (g ee e cmd t))"
    unfolding venue_commands_def list.set
    by (elim insertE emptyE) (simp_all add: haltAll_def resumeAll_def base_venue_def declareOrClear_def v grows_same split: option.split)
qed

section \<open>Submission and amendment\<close>

lemma replayed_step:
  assumes "synced ee e" "eg_journal e' = eg_journal e @ [r]"
    and "\<And>st. matches st e \<Longrightarrow> \<exists>st'. replay_record ee st r = Inr st' \<and> set (rp_fills st') = set (rp_fills st) \<union> F"
  shows "replayed_fills ee (eg_journal e') = replayed_fills ee (eg_journal e) \<union> F"
proof -
  obtain st where st: "replayJournal ee (eg_journal e) = Inr st" "matches st e" using assms(1) by (auto simp: synced_def)
  obtain st' where "replay_record ee st r = Inr st'" "set (rp_fills st') = set (rp_fills st) \<union> F" using assms(3) [OF st(2)] by blast
  moreover from this(1) have "replayJournal ee (eg_journal e') = Inr st'"
    using st(1) by (simp add: assms(2) replayJournal_def replay_from_append)
  ultimately show ?thesis using st(1) by (simp add: replayed_fills_def)
qed

lemma collectFills_rows [simp]: "rp_fills (collectFills m at' fs ts st) = rp_fills st @ collect_fills m at' fs ts"
  by (simp add: collectFills_def)

lemma submit_fills:
  assumes "synced ee e" "iso_ok ee" "regular_submit e m order"
  shows "replayed_fills ee (eg_journal (fst (engine_submit ee e m order t)))
    = replayed_fills ee (eg_journal e) \<union> published (snd (snd (engine_submit ee e m order t)))"
proof (cases "eg_splitBrain e \<or> submit_gate e m order \<noteq> None \<or> (case existingBook e m of Some (b, _) \<Rightarrow> hasAccepted b (o_orderId order) | None \<Rightarrow> False)
    \<or> spreadAdmissionRefuse order \<noteq> None")
  case True
  then show ?thesis by (auto simp: engine_submit_def base_submit_def Let_def case_prod_beta split: option.splits)
next
  case False
  have clock: "expiry_now e t = Some t" using assms(1) by (simp add: synced_def expiry_now_def)
  obtain mb r where tr: "trailing_submit (ee_match ee) (engine_book e m) (trail_order.truncate order) (Some t) = (mb, r)" by fastforce
  let ?r = "JSubmit m (ee_iso ee t) (toWire order)"
  have b: "engine_book (append ?r e) m = engine_book e m" by (simp add: book_bookFor)
  have gate: "submit_gate e m order = None" using False by simp
  have out: "engine_submit ee e m order t = (dropIfNeverTraded m (put_book m mb (append ?r e)), r, eventsForSubmit m (o_orderId order) r (ee_iso ee t))"
    using False clock tr by (simp add: engine_submit_def base_submit_def b Let_def)
  have rt: "fromWire (toWire order) = Inr order" using assms(3) order_round_trip by (simp add: regular_submit_def)
  have cl: "journalClock ee (ee_iso ee t) = Some t" using assms(2) by (simp add: journalClock_def iso_ok_def)
  have dead: "\<forall>s \<in> set (eg_deadSessions e). readSessionId (Some s) = Some s" using assms(1) by (simp add: synced_def)
  show ?thesis
    unfolding out
  proof (simp only: fst_conv snd_conv, rule replayed_step [OF assms(1)])
    fix st assume st: "matches st e"
    have "bookFor (rp_books st) m = engine_book e m" using st by (simp add: book_bookFor matches_def bookFor_def)
    moreover have "\<not> submitSessionDead (toWire order) (rp_dead st)" using gate_session [OF gate dead] st by (simp add: matches_def)
    ultimately show "\<exists>st'. replay_record ee st ?r = Inr st'
        \<and> set (rp_fills st') = set (rp_fills st) \<union> published (eventsForSubmit m (o_orderId order) r (ee_iso ee t))"
      using rt cl tr by (simp add: published_submit)
  qed simp
qed

lemma close_fills:
  assumes "synced ee e" "iso_ok ee"
  shows "replayed_fills ee (eg_journal (fst (closePosition ee e m i acc t)))
    = replayed_fills ee (eg_journal e) \<union> published (snd (snd (closePosition ee e m i acc t)))"
proof (cases "\<exists>b rows net. eg_enabled e \<and> map_of (eg_books e) m = Some (b, rows) \<and> netPositionOf b acc = Inr net \<and> net \<noteq> 0")
  case False
  then show ?thesis by (auto simp: closePosition_def existingBook_def split: option.splits sum.splits)
next
  case True
  then obtain b rows net where n: "eg_enabled e" "map_of (eg_books e) m = Some (b, rows)" "netPositionOf b acc = Inr net" "net \<noteq> 0" by blast
  then show ?thesis
    using submit_fills [OF assms regular_close [OF n(3)]] by (simp add: closePosition_def existingBook_def Let_def case_prod_beta)
qed

lemma amend_fills:
  assumes "synced ee e" "iso_ok ee" "regular_amend cmd"
  shows "replayed_fills ee (eg_journal e) \<union> published (snd (snd (engine_amend_cmd ee e m cmd t)))
    \<subseteq> replayed_fills ee (eg_journal (fst (engine_amend_cmd ee e m cmd t)))"
proof (cases "eg_splitBrain e \<or> amendRefusal e m cmd (map_option fst (existingBook e m)) \<noteq> Inr None \<or> map_of (eg_books e) m = None")
  case True
  then show ?thesis by (auto simp: engine_amend_cmd_def base_amend_def existingBook_def split: sum.splits option.splits)
next
  case False
  then obtain b rows where Some: "map_of (eg_books e) m = Some (b, rows)" by fastforce
  have clock: "expiry_now e t = Some t" using assms(1) by (simp add: synced_def expiry_now_def)
  obtain b1 r where am: "amend (ee_match ee) b cmd (Some t) = (b1, r)" by fastforce
  let ?i = "a_orderId cmd"
  let ?e1 = "beginInFlight m ?i AmendMutation (ee_iso ee t) e"
  let ?r = "JAmend m (ee_iso ee t) ?i (a_expectedVersion cmd) (toWireAmend cmd)"
  let ?F = "set (collect_fills m (ee_iso ee t) (ar_fills r) (ar_triggered r))"
  have out: "engine_amend_cmd ee e m cmd t = (dropIfNeverTraded m (endInFlight ?i (put_book m (b1, rows) (append ?r ?e1))), Inr r, eventsForAmend m r (ee_iso ee t))"
    using False Some am clock by (simp add: engine_amend_cmd_def base_amend_def existingBook_def Let_def)
  have rt: "fromWireAmend ?i (a_expectedVersion cmd) (toWireAmend cmd) = Inr cmd" using assms(3) amend_round_trip by (simp add: regular_amend_def)
  have cl: "journalClock ee (ee_iso ee t) = Some t" using assms(2) by (simp add: journalClock_def iso_ok_def)
  obtain rs where rs: "eg_journal ?e1 = eg_journal e @ rs" "\<And>st. replay_from ee st rs = Inr st" by (rule begin_journal [where ee = ee]) blast
  obtain st where st: "replayJournal ee (eg_journal e) = Inr st" "matches st e" using assms(1) by (auto simp: synced_def)
  have "map_of (rp_books st) m = Some (b, rows)" using st(2) Some by (simp add: matches_def)
  then have "\<exists>st'. replay_from ee st (rs @ [?r]) = Inr st' \<and> set (rp_fills st') = set (rp_fills st) \<union> ?F"
    by (simp add: replay_from_append rs(2) rt cl am)
  then have "replayed_fills ee (eg_journal (fst (engine_amend_cmd ee e m cmd t))) = replayed_fills ee (eg_journal e) \<union> ?F"
    using st(1) by (auto simp: out rs(1) replayed_fills_def replayJournal_def replay_from_append)
  then show ?thesis using published_amend [of m r "ee_iso ee t"] by (auto simp: out)
qed

section \<open>Every published fill is announced again\<close>

lemma step_fills:
  assumes "regular_step ee e evs e'" "synced ee e" "iso_ok ee"
  shows "replayed_fills ee (eg_journal e) \<union> published evs \<subseteq> replayed_fills ee (eg_journal e')"
proof -
  note q = quiet_fills [OF assms(2) synced_regular_step [OF assms]]
  show ?thesis
    using assms(1)
  proof cases
    case (restarts en)
    then have "eg_journal e' = eg_journal e" "evs = announced (projr (replayJournal ee (eg_journal e)))" "\<exists>st. replayJournal ee (eg_journal e) = Inr st"
      using assms(2) by (auto simp: recover_def new_engine_def Let_def)
    then show ?thesis by (auto simp: replayed_fills_def published_announced)
  next
    case (submits m order t)
    then show ?thesis using submit_fills [OF assms(2,3)] by simp
  next
    case (amends cmd m t)
    then show ?thesis using amend_fills [OF assms(2,3)] by simp
  next
    case (closes m i acc t)
    then show ?thesis using close_fills [OF assms(2,3)] by simp
  next
    case (sweeps t)
    have "grows_quietly e e'" "published evs = {}"
      using sweep_quiet by (simp_all add: sweeps sweepExpiry_def Let_def case_prod_beta grows_same)
    then show ?thesis using q by simp
  qed (use q cancel_quiet mass_quiet session_quiet mark_quiet switch_quiet grows_same in
      \<open>simp_all add: setEnabled_def closeAdmission_def holdHalt_def noteBookUnreadable_def\<close>)
qed

lemma run_fills: "regular_run ee e evs e' \<Longrightarrow> synced ee e \<Longrightarrow> iso_ok ee
    \<Longrightarrow> replayed_fills ee (eg_journal e) \<union> published evs \<subseteq> replayed_fills ee (eg_journal e')"
proof (induction rule: regular_run.induct)
  case (continues e evs e' evs' e'')
  then show ?case using step_fills [of ee e' evs' e''] synced_run [of ee e evs e'] by auto
qed simp

lemma recover_fills:
  "recover ee (new_engine c en J) = Inr (e', evs') \<Longrightarrow> published evs' = replayed_fills ee J \<and> eg_journal e' = J"
  by (auto simp: recover_def new_engine_def Let_def replayed_fills_def published_announced)

text \<open>C8. No fill published in a regular run is lost. Every fill that the engine has published since it started, at its own
  recovery or while serving regular commands (the ones of \<open>regular_step\<close>: no retry with a position, no mass cancel during maintenance or of an order in
  flight, no mark that moves a stop without being applied), is announced again with its market and its instant when a process
  recovers from the journal: a consumer that missed an event sees it after the restart.\<close>

theorem recovery_announces_fills:
  assumes "iso_ok ee" "journal_ok J" "recover ee (new_engine True en J) = Inr (e0, evs0)" "regular_run ee e0 evs e"
  shows "\<exists>e' evs'. recover ee (new_engine True en' (eg_journal e)) = Inr (e', evs') \<and> published (evs0 @ evs) \<subseteq> published evs'"
proof -
  have s: "synced ee e0" "eg_journal e0 = J" using recovered_synced [OF assms(3,2)] by simp_all
  obtain e' evs' where r: "recover ee (new_engine True en' (eg_journal e)) = Inr (e', evs')"
    using synced_recover [OF synced_run [OF assms(4) s(1) assms(1)]] by blast
  have "published evs0 \<union> published evs \<subseteq> published evs'"
    using run_fills [OF assms(4) s(1) assms(1)] recover_fills [OF r] recover_fills [OF assms(3)] s(2) by auto
  then show ?thesis using r by auto
qed

theorem recovery_announces_fills_witness:
  "\<exists>e' evs'. recover demo_engine_env (new_engine True True (eg_journal demo_engine_traded)) = Inr (e', evs')
    \<and> published (snd (snd (engine_submit demo_engine_env demo_rested ''BTC'' demo_take 6))) \<subseteq> published evs'
    \<and> s_fills (fst (snd (engine_submit demo_engine_env demo_rested ''BTC'' demo_take 6))) \<noteq> []"
proof -
  obtain evs where evs: "regular_run demo_engine_env (new_engine True True []) evs demo_rested" using demo_runs(1) by blast
  have "regular_submit demo_rested ''BTC'' demo_take" by code_simp
  from continues [OF evs submits [OF this]]
  have "regular_run demo_engine_env (new_engine True True []) (evs @ snd (snd (engine_submit demo_engine_env demo_rested ''BTC'' demo_take 6))) demo_engine_traded"
    unfolding demo_engine_traded_def .
  from recovery_announces_fills [OF demo_iso_ok _ demo_recovered this, of True]
  have "\<exists>e' evs'. recover demo_engine_env (new_engine True True (eg_journal demo_engine_traded)) = Inr (e', evs')
      \<and> published (snd (snd (engine_submit demo_engine_env demo_rested ''BTC'' demo_take 6))) \<subseteq> published evs'"
    by (fastforce simp: journal_ok_def)
  moreover have "s_fills (fst (snd (engine_submit demo_engine_env demo_rested ''BTC'' demo_take 6))) \<noteq> []" by code_simp
  ultimately show ?thesis by blast
qed

end
