(* ===== verification/Tax_Lots.thy ===== *)
theory Tax_Lots
  imports Match_Types
begin

text \<open>
  Lot matching of the year pack (\<^verbatim>\<open>svc-tax/src/lots.ts\<close>): arrivals open lots, departures close them oldest
  first, newest first or dearest first. A date is its number of milliseconds; its ISO form and the
  collation of \<open>localeCompare\<close> are parameters. Amounts are formatted when the run is returned.
\<close>

section \<open>Data\<close>

datatype lot_method = FIFO | LIFO | HIFO

datatype lot_side = Acquire | Dispose

record lot_movement =
  lm_assetId :: string
  lm_side :: lot_side
  lm_qty :: amount
  lm_costBasis :: "amount option"
  lm_proceeds :: "amount option"
  lm_postedAt :: int
  lm_txId :: string
  lm_reason :: string

record closed_lot =
  cl_assetId :: string
  cl_qty :: string
  cl_acquiredAt :: string
  cl_disposedAt :: string
  cl_acquireTxId :: string
  cl_disposeTxId :: string
  cl_costBasis :: "string option"
  cl_proceeds :: "string option"
  cl_realized :: "string option"

record open_lot =
  ol_assetId :: string
  ol_qtyRemaining :: string
  ol_acquiredAt :: string
  ol_acquireTxId :: string
  ol_costBasis :: "string option"

record lot_run =
  lr_lotsClosed :: "closed_lot list"
  lr_lotsOpen :: "open_lot list"
  lr_realized :: "string option"
  lr_unrealized :: "string option"
  lr_residuals :: "string list"

record open_internal =
  oi_assetId :: string
  oi_qtyRemaining :: amount
  oi_acquiredAt :: int
  oi_acquireTxId :: string
  oi_costBasis :: "amount option"

text \<open>A closed lot before its amounts and dates are printed.\<close>

record closing =
  cg_assetId :: string
  cg_qty :: amount
  cg_acquiredAt :: int
  cg_disposedAt :: int
  cg_acquireTxId :: string
  cg_disposeTxId :: string
  cg_costBasis :: "amount option"
  cg_proceeds :: "amount option"
  cg_realized :: "amount option"

record tax_env =
  te_iso :: "int \<Rightarrow> string"
  te_collation :: "string \<Rightarrow> string"

definition TAX_COST_BASIS_UNAVAILABLE :: string where
  "TAX_COST_BASIS_UNAVAILABLE = ''tax.cost_basis_unavailable''"

definition TAX_LOT_UNDERFLOW :: string where
  "TAX_LOT_UNDERFLOW = ''tax.lot_underflow''"

section \<open>Choosing and splitting\<close>

definition anyUnknownBasis :: "open_internal list \<Rightarrow> bool" where
  "anyUnknownBasis open = list_ex (\<lambda>lot. oi_costBasis lot = None) open"

text \<open>The scan for the highest cost per unit, from position \<open>i\<close> with the best so far; rows are the cost
  and the quantity of a lot. \<open>None\<close> is a lot without a cost.\<close>

function hifo_scan :: "(amount option \<times> amount) list \<Rightarrow> nat \<Rightarrow> nat \<Rightarrow> nat option" where
  "hifo_scan rows best i =
     (if i < length rows then
        (case (fst (rows ! i), fst (rows ! best)) of
           (Some a, Some b) \<Rightarrow> hifo_scan rows (if a * snd (rows ! best) > b * snd (rows ! i) then i else best) (Suc i)
         | _ \<Rightarrow> None)
      else Some best)"
  by pat_completeness auto
termination by (relation "measure (\<lambda>(rows, best, i). length rows - i)") auto

declare hifo_scan.simps [simp del]

definition pickIndex :: "open_internal list \<Rightarrow> lot_method \<Rightarrow> nat option" where
  "pickIndex open lmethod =
     (if open = [] then None
      else case lmethod of
        FIFO \<Rightarrow> Some 0
      | LIFO \<Rightarrow> Some (length open - 1)
      | HIFO \<Rightarrow> hifo_scan (map (\<lambda>lot. (oi_costBasis lot, oi_qtyRemaining lot)) open) 0 1)"

definition splitCost :: "amount option \<Rightarrow> amount \<Rightarrow> amount \<Rightarrow> amount option \<times> amount option" where
  "splitCost tot qty take' =
     (case tot of
        None \<Rightarrow> (None, None)
      | Some t \<Rightarrow> if take' = qty then (Some t, Some 0)
          else let taken = (t * take') sdiv qty in (Some taken, Some (t - taken)))"

lemma hifo_scan_range: "hifo_scan rows best i = Some k \<Longrightarrow> best < length rows \<Longrightarrow> k < length rows"
proof (induction rows best i rule: hifo_scan.induct)
  case (1 rows best i)
  from "1.prems"(1) show ?case
    by (subst (asm) hifo_scan.simps) (use "1.IH" "1.prems"(2) in \<open>auto split: if_splits option.splits\<close>)
qed

lemma pickIndex_range: "pickIndex open lmethod = Some k \<Longrightarrow> k < length open"
  by (auto simp: pickIndex_def split: if_splits lot_method.splits dest: hifo_scan_range)

section \<open>The matching loop\<close>

record lot_state =
  ls_open :: "open_internal list"
  ls_closed :: "closing list"
  ls_residuals :: "string list"
  ls_realized :: "amount option"
  ls_anyClosed :: bool

definition stop_unknown :: "lot_state \<Rightarrow> lot_state" where
  "stop_unknown st = st\<lparr>ls_residuals := set_add TAX_COST_BASIS_UNAVAILABLE (ls_residuals st), ls_realized := None\<rparr>"

text \<open>One lot is drawn on: what it gives, and the state after it.\<close>

definition close_from :: "lot_movement \<Rightarrow> nat \<Rightarrow> amount \<Rightarrow> amount option \<Rightarrow> lot_state \<Rightarrow> lot_state \<times> amount \<times> amount option" where
  "close_from m idx remaining proceedsLeft st =
     (let lot = ls_open st ! idx;
          take' = (if remaining < oi_qtyRemaining lot then remaining else oi_qtyRemaining lot);
          (cost, costLeft) = splitCost (oi_costBasis lot) (oi_qtyRemaining lot) take';
          (proceeds, left) = splitCost proceedsLeft remaining take';
          realized = (case (cost, proceeds) of (Some c, Some p) \<Rightarrow> Some (p - c) | _ \<Rightarrow> None);
          st1 = (if realized = None then stop_unknown st else st);
          row = \<lparr>cg_assetId = lm_assetId m, cg_qty = take', cg_acquiredAt = oi_acquiredAt lot, cg_disposedAt = lm_postedAt m,
            cg_acquireTxId = oi_acquireTxId lot, cg_disposeTxId = lm_txId m, cg_costBasis = cost, cg_proceeds = proceeds, cg_realized = realized\<rparr>;
          lot1 = lot\<lparr>oi_qtyRemaining := oi_qtyRemaining lot - take', oi_costBasis := costLeft\<rparr>
      in (st1\<lparr>ls_closed := ls_closed st @ [row], ls_anyClosed := True,
            ls_realized := (case (ls_realized st1, realized) of (Some s, Some r) \<Rightarrow> Some (s + r) | _ \<Rightarrow> None),
            ls_open := (if oi_qtyRemaining lot1 = 0 then splice_out idx (ls_open st) else (ls_open st)[idx := lot1])\<rparr>,
          remaining - take', left))"

text \<open>Every round ends the departure or uses up a lot.\<close>

lemma close_from_progress:
  assumes "close_from m idx remaining proceeds st = (st', remaining', proceeds')" "idx < length (ls_open st)"
  shows "remaining' = 0 \<and> length (ls_open st') \<le> length (ls_open st) \<or> length (ls_open st') < length (ls_open st)"
  using assms by (auto simp: close_from_def Let_def case_prod_beta length_splice_out split: if_splits)

function match_lots :: "lot_method \<Rightarrow> lot_movement \<Rightarrow> amount \<Rightarrow> amount option \<Rightarrow> lot_state \<Rightarrow> lot_state \<times> amount" where
  "match_lots lmethod m remaining proceedsLeft st =
     (if remaining > 0 \<and> ls_open st \<noteq> [] then
        if anyUnknownBasis (ls_open st) then (stop_unknown st, remaining)
        else case pickIndex (ls_open st) lmethod of
          None \<Rightarrow> (stop_unknown st, remaining)
        | Some idx \<Rightarrow>
            if oi_costBasis (ls_open st ! idx) = None then (stop_unknown st, remaining)
            else let (st1, remaining1, left) = close_from m idx remaining proceedsLeft st in match_lots lmethod m remaining1 left st1
      else (st, remaining))"
  by pat_completeness auto
termination
proof (relation "measure (\<lambda>(lmethod, m, remaining, proceeds, st). length (ls_open st) + (if remaining > 0 then 1 else 0))", simp)
  fix lmethod m remaining proceeds st idx x st1 y remaining1 left
  assume "(0::int) < remaining \<and> ls_open st \<noteq> []" "pickIndex (ls_open st) lmethod = Some idx"
    "x = close_from m idx remaining proceeds st" "(st1, y) = x" "(remaining1, left) = y"
  then show "((lmethod, m, remaining1, left, st1), (lmethod, m, remaining, proceeds, st))
      \<in> measure (\<lambda>(lmethod, m, remaining, proceeds, st). length (ls_open st) + (if remaining > 0 then 1 else 0))"
    using close_from_progress [of m idx remaining proceeds st st1 remaining1 left] pickIndex_range by auto
qed

declare match_lots.simps [simp del]

definition run_movement :: "lot_method \<Rightarrow> lot_movement \<Rightarrow> lot_state \<Rightarrow> lot_state" where
  "run_movement lmethod m st =
     (case lm_side m of
        Acquire \<Rightarrow> st\<lparr>ls_open := ls_open st @ [\<lparr>oi_assetId = lm_assetId m, oi_qtyRemaining = lm_qty m, oi_acquiredAt = lm_postedAt m,
          oi_acquireTxId = lm_txId m, oi_costBasis = lm_costBasis m\<rparr>]\<rparr>
      | Dispose \<Rightarrow>
          (let (st1, remaining) = match_lots lmethod m (lm_qty m) (lm_proceeds m) st
           in if remaining > 0 \<and> ls_open st1 = [] then st1\<lparr>ls_residuals := set_add TAX_LOT_UNDERFLOW (ls_residuals st1)\<rparr> else st1))"

section \<open>The run\<close>

definition moneyOrNull :: "amount option \<Rightarrow> string option" where
  "moneyOrNull value = map_option formatAmount value"

definition print_closed :: "tax_env \<Rightarrow> closing \<Rightarrow> closed_lot" where
  "print_closed env c = \<lparr>cl_assetId = cg_assetId c, cl_qty = formatAmount (cg_qty c), cl_acquiredAt = te_iso env (cg_acquiredAt c),
     cl_disposedAt = te_iso env (cg_disposedAt c), cl_acquireTxId = cg_acquireTxId c, cl_disposeTxId = cg_disposeTxId c,
     cl_costBasis = moneyOrNull (cg_costBasis c), cl_proceeds = moneyOrNull (cg_proceeds c), cl_realized = moneyOrNull (cg_realized c)\<rparr>"

definition print_open :: "tax_env \<Rightarrow> open_internal \<Rightarrow> open_lot" where
  "print_open env lot = \<lparr>ol_assetId = oi_assetId lot, ol_qtyRemaining = formatAmount (oi_qtyRemaining lot),
     ol_acquiredAt = te_iso env (oi_acquiredAt lot), ol_acquireTxId = oi_acquireTxId lot, ol_costBasis = moneyOrNull (oi_costBasis lot)\<rparr>"

text \<open>The movements of one asset in order: two stable sorts, the less significant key first.\<close>

definition asset_history :: "tax_env \<Rightarrow> lot_movement list \<Rightarrow> string \<Rightarrow> lot_movement list" where
  "asset_history env ms asset = sort_key lm_postedAt (sort_key (te_collation env \<circ> lm_txId) (filter (\<lambda>m. lm_qty m \<noteq> 0 \<and> lm_assetId m = asset) ms))"

definition run_asset :: "tax_env \<Rightarrow> lot_method \<Rightarrow> lot_movement list \<Rightarrow> lot_state \<times> open_internal list \<Rightarrow> string \<Rightarrow> lot_state \<times> open_internal list" where
  "run_asset env lmethod ms acc asset =
     (let (st, done_open) = acc;
          st1 = foldl (\<lambda>st m. run_movement lmethod m st) (st\<lparr>ls_open := []\<rparr>) (asset_history env ms asset);
          st2 = (if anyUnknownBasis (ls_open st1) then st1\<lparr>ls_residuals := set_add TAX_COST_BASIS_UNAVAILABLE (ls_residuals st1)\<rparr> else st1)
      in (st2, done_open @ ls_open st2))"

definition run_assets :: "tax_env \<Rightarrow> lot_method \<Rightarrow> lot_movement list \<Rightarrow> lot_state \<times> open_internal list" where
  "run_assets env lmethod ms =
     foldl (run_asset env lmethod ms) (\<lparr>ls_open = [], ls_closed = [], ls_residuals = [], ls_realized = Some 0, ls_anyClosed = False\<rparr>, [])
       (js_set (map lm_assetId (filter (\<lambda>m. lm_qty m \<noteq> 0) ms)))"

definition runLots :: "tax_env \<Rightarrow> lot_movement list \<Rightarrow> lot_method \<Rightarrow> lot_run" where
  "runLots env ms lmethod =
     (let (st, open') = run_assets env lmethod ms
      in \<lparr>lr_lotsClosed = map (print_closed env) (ls_closed st), lr_lotsOpen = map (print_open env) open',
           lr_realized = (if ls_anyClosed st then moneyOrNull (ls_realized st) else None), lr_unrealized = None,
           lr_residuals = sort (ls_residuals st)\<rparr>)"

section \<open>Nothing is lost\<close>

lemma sum_splice_out:
  fixes f :: "'a \<Rightarrow> int"
  shows "i < length xs \<Longrightarrow> sum_list (map f (splice_out i xs)) = sum_list (map f xs) - f (xs ! i)"
proof -
  assume i: "i < length xs"
  have "xs = take i xs @ xs ! i # drop (Suc i) xs" using i by (rule id_take_nth_drop)
  then have "sum_list (map f xs) = sum_list (map f (take i xs)) + f (xs ! i) + sum_list (map f (drop (Suc i) xs))"
    by (metis (no_types, lifting) add.assoc list.simps(9) map_append sum_list.Cons sum_list_append)
  then show ?thesis by (simp add: splice_out_def)
qed

lemma sum_lot_update:
  fixes f :: "'a \<Rightarrow> int"
  shows "i < length xs \<Longrightarrow> sum_list (map f (xs[i := v])) = sum_list (map f xs) + f v - f (xs ! i)"
  using sum_list_update_int [of i "map f xs" "f v"] by (simp add: map_update)

text \<open>A measure of lots and closings that a split keeps: quantity, or known cost.\<close>

definition known :: "amount option \<Rightarrow> amount" where
  "known a = (case a of Some v \<Rightarrow> v | None \<Rightarrow> 0)"

definition open_cost :: "open_internal \<Rightarrow> amount" where
  "open_cost lot = known (oi_costBasis lot)"

definition closed_cost :: "closing \<Rightarrow> amount" where
  "closed_cost c = known (cg_costBasis c)"

definition arrival_cost :: "lot_movement \<Rightarrow> amount" where
  "arrival_cost m = known (lm_costBasis m)"

lemmas costs_def = open_cost_def closed_cost_def arrival_cost_def

definition lot_total :: "(open_internal \<Rightarrow> int) \<Rightarrow> (closing \<Rightarrow> int) \<Rightarrow> string \<Rightarrow> open_internal list \<Rightarrow> closing list \<Rightarrow> int" where
  "lot_total f g a lots closed = sum_list (map (\<lambda>lot. if oi_assetId lot = a then f lot else 0) lots) + sum_list (map (\<lambda>c. if cg_assetId c = a then g c else 0) closed)"

lemma splitCost_sum: "splitCost (Some t) qty take' = (x, y) \<Longrightarrow> known x + known y = t \<and> x \<noteq> None \<and> y \<noteq> None \<and> (take' = qty \<longrightarrow> y = Some 0)"
  by (auto simp: splitCost_def known_def Let_def split: if_splits)

definition one_asset :: "string \<Rightarrow> lot_state \<Rightarrow> bool" where
  "one_asset a st \<longleftrightarrow> (\<forall>lot \<in> set (ls_open st). oi_assetId lot = a)"

lemma close_from_total:
  assumes "close_from m idx remaining proceeds st = (st', r)" "idx < length (ls_open st)" "one_asset (lm_assetId m) st"
    and "oi_costBasis (ls_open st ! idx) \<noteq> None"
  shows "one_asset (lm_assetId m) st'
    \<and> lot_total oi_qtyRemaining cg_qty a (ls_open st') (ls_closed st') = lot_total oi_qtyRemaining cg_qty a (ls_open st) (ls_closed st)
    \<and> lot_total open_cost closed_cost a (ls_open st') (ls_closed st')
      = lot_total open_cost closed_cost a (ls_open st) (ls_closed st)"
proof -
  let ?lot = "ls_open st ! idx"
  let ?take = "if remaining < oi_qtyRemaining ?lot then remaining else oi_qtyRemaining ?lot"
  obtain c cl where c: "splitCost (oi_costBasis ?lot) (oi_qtyRemaining ?lot) ?take = (c, cl)" by fastforce
  obtain t where t: "oi_costBasis ?lot = Some t" using assms(4) by blast
  have sp: "known c + known cl = known (oi_costBasis ?lot)" "?take = oi_qtyRemaining ?lot \<longrightarrow> known cl = 0"
    using splitCost_sum [of t "oi_qtyRemaining ?lot" ?take c cl] c t by (auto simp: known_def)
  have as: "oi_assetId ?lot = lm_assetId m" using assms(2,3) by (simp add: one_asset_def)
  let ?lot1 = "?lot\<lparr>oi_qtyRemaining := oi_qtyRemaining ?lot - ?take, oi_costBasis := cl\<rparr>"
  have op: "ls_open st' = (if oi_qtyRemaining ?lot - ?take = 0 then splice_out idx (ls_open st) else (ls_open st)[idx := ?lot1])"
    and clo: "\<exists>row. ls_closed st' = ls_closed st @ [row] \<and> cg_assetId row = lm_assetId m \<and> cg_qty row = ?take \<and> cg_costBasis row = c"
    using assms(1) c by (auto simp: close_from_def Let_def case_prod_beta stop_unknown_def)
  have one: "one_asset (lm_assetId m) st'"
    using assms(3) as unfolding one_asset_def op by (auto dest!: set_splice_out [THEN subsetD] set_update_subset_insert [THEN subsetD])
  show ?thesis
    using clo one as sp sum_splice_out [OF assms(2)] sum_lot_update [OF assms(2)]
    by (auto simp: lot_total_def op costs_def)
qed

lemma stop_unknown_keeps [simp]: "ls_open (stop_unknown st) = ls_open st" "ls_closed (stop_unknown st) = ls_closed st"
  by (simp_all add: stop_unknown_def)

lemma match_lots_total:
  assumes "match_lots lmethod m remaining proceeds st = (st', r)" "one_asset (lm_assetId m) st"
  shows "one_asset (lm_assetId m) st'
    \<and> lot_total oi_qtyRemaining cg_qty a (ls_open st') (ls_closed st') = lot_total oi_qtyRemaining cg_qty a (ls_open st) (ls_closed st)
    \<and> lot_total open_cost closed_cost a (ls_open st') (ls_closed st')
      = lot_total open_cost closed_cost a (ls_open st) (ls_closed st)"
  using assms
proof (induction lmethod m remaining proceeds st rule: match_lots.induct)
  case (1 lmethod m remaining proceeds st)
  show ?case
  proof (cases "remaining > 0 \<and> ls_open st \<noteq> [] \<and> \<not> anyUnknownBasis (ls_open st)
      \<and> (\<exists>idx. pickIndex (ls_open st) lmethod = Some idx \<and> oi_costBasis (ls_open st ! idx) \<noteq> None)")
    case False
    then have "st' = st \<or> st' = stop_unknown st"
      using "1.prems"(1) by (subst (asm) match_lots.simps) (auto split: if_splits option.splits)
    then show ?thesis using "1.prems"(2) by (auto simp: one_asset_def)
  next
    case True
    then obtain idx where idx: "pickIndex (ls_open st) lmethod = Some idx" "oi_costBasis (ls_open st ! idx) \<noteq> None" by blast
    obtain st1 remaining1 left where c: "close_from m idx remaining proceeds st = (st1, remaining1, left)" by (metis prod.exhaust)
    have rec: "match_lots lmethod m remaining1 left st1 = (st', r)"
      using "1.prems"(1) True idx c by (subst (asm) match_lots.simps) simp
    note t = close_from_total [OF c pickIndex_range [OF idx(1)] "1.prems"(2) idx(2), of a]
    have "remaining > 0 \<and> ls_open st \<noteq> []" "\<not> anyUnknownBasis (ls_open st)" using True by blast+
    note ih = "1.IH" [OF this idx(1,2) c [symmetric] refl refl rec]
    show ?thesis using t ih by simp
  qed
qed

text \<open>What arrived of an asset.\<close>

definition arrived :: "(lot_movement \<Rightarrow> int) \<Rightarrow> string \<Rightarrow> lot_movement list \<Rightarrow> int" where
  "arrived f a ms = sum_list (map f (filter (\<lambda>m. lm_side m = Acquire \<and> lm_assetId m = a) ms))"

lemma run_movement_total:
  assumes "one_asset (lm_assetId m) st"
  shows "one_asset (lm_assetId m) (run_movement lmethod m st)
    \<and> lot_total oi_qtyRemaining cg_qty a (ls_open (run_movement lmethod m st)) (ls_closed (run_movement lmethod m st))
      = lot_total oi_qtyRemaining cg_qty a (ls_open st) (ls_closed st) + arrived lm_qty a [m]
    \<and> lot_total open_cost closed_cost a (ls_open (run_movement lmethod m st)) (ls_closed (run_movement lmethod m st))
      = lot_total open_cost closed_cost a (ls_open st) (ls_closed st) + arrived arrival_cost a [m]"
proof (cases "lm_side m")
  case Acquire
  then show ?thesis using assms by (auto simp: run_movement_def one_asset_def lot_total_def arrived_def costs_def)
next
  case Dispose
  obtain st' r where st': "match_lots lmethod m (lm_qty m) (lm_proceeds m) st = (st', r)" by fastforce
  have k: "ls_open (run_movement lmethod m st) = ls_open st'" "ls_closed (run_movement lmethod m st) = ls_closed st'"
    using Dispose st' by (simp_all add: run_movement_def)
  show ?thesis using match_lots_total [OF st' assms, of a] Dispose by (simp add: k one_asset_def arrived_def)
qed

lemma foldl_movements_total:
  assumes "\<forall>m \<in> set ms. lm_assetId m = x" "one_asset x st" "st' = foldl (\<lambda>st m. run_movement lmethod m st) st ms"
  shows "lot_total oi_qtyRemaining cg_qty a (ls_open st') (ls_closed st') = lot_total oi_qtyRemaining cg_qty a (ls_open st) (ls_closed st) + arrived lm_qty a ms
    \<and> lot_total open_cost closed_cost a (ls_open st') (ls_closed st')
      = lot_total open_cost closed_cost a (ls_open st) (ls_closed st) + arrived arrival_cost a ms"
  using assms
proof (induction ms arbitrary: st)
  case (Cons m ms)
  have o: "one_asset (lm_assetId m) st" using Cons.prems by simp
  have "arrived f a (m # ms) = arrived f a [m] + arrived f a ms" for f by (simp add: arrived_def)
  moreover have "one_asset x (run_movement lmethod m st)" using run_movement_total [OF o, of lmethod a] Cons.prems(1) by simp
  ultimately show ?case using Cons.IH [of "run_movement lmethod m st"] run_movement_total [OF o, of lmethod a] Cons.prems by simp
qed (simp add: arrived_def)

lemma run_asset_total:
  assumes "run_asset env lmethod ms (st, opened) x = (st', opened')"
  shows "lot_total oi_qtyRemaining cg_qty a opened' (ls_closed st')
      = lot_total oi_qtyRemaining cg_qty a opened (ls_closed st) + (if a = x then arrived lm_qty a (asset_history env ms x) else 0)
    \<and> lot_total open_cost closed_cost a opened' (ls_closed st')
      = lot_total open_cost closed_cost a opened (ls_closed st) + (if a = x then arrived arrival_cost a (asset_history env ms x) else 0)"
proof -
  let ?st = "foldl (\<lambda>st m. run_movement lmethod m st) (st\<lparr>ls_open := []\<rparr>) (asset_history env ms x)"
  have h: "\<forall>m \<in> set (asset_history env ms x). lm_assetId m = x" by (simp add: asset_history_def)
  have o: "opened' = opened @ ls_open ?st" "ls_closed st' = ls_closed ?st"
    using assms by (auto simp: run_asset_def Let_def split: if_splits)
  have z: "a \<noteq> x \<Longrightarrow> arrived f a (asset_history env ms x) = 0" for f
    using h by (auto simp: arrived_def filter_empty_conv intro!: arg_cong [of _ "[]" "\<lambda>l. sum_list (map f l)", simplified])
  have sp: "lot_total f g a (opened @ l) c = sum_list (map (\<lambda>lot. if oi_assetId lot = a then f lot else 0) opened) + lot_total f g a l c" for f g l c
    by (simp add: lot_total_def)
  have e: "lot_total f g a [] c + sum_list (map (\<lambda>lot. if oi_assetId lot = a then f lot else 0) opened) = lot_total f g a opened c" for f g c
    by (simp add: lot_total_def)
  have i: "(if a = x then arrived f a (asset_history env ms x) else 0) = arrived f a (asset_history env ms x)" for f
    using z [of f] by simp
  show ?thesis
    using foldl_movements_total [OF h, of "st\<lparr>ls_open := []\<rparr>" ?st lmethod a]
      e [of oi_qtyRemaining cg_qty "ls_closed st"] e [of open_cost closed_cost "ls_closed st"]
    unfolding i o sp by (auto simp: one_asset_def)
qed

lemma foldl_assets_total:
  assumes "foldl (run_asset env lmethod ms) (st, opened) xs = (st', opened')" "distinct xs"
  shows "lot_total oi_qtyRemaining cg_qty a opened' (ls_closed st')
      = lot_total oi_qtyRemaining cg_qty a opened (ls_closed st) + (if a \<in> set xs then arrived lm_qty a (asset_history env ms a) else 0)
    \<and> lot_total open_cost closed_cost a opened' (ls_closed st')
      = lot_total open_cost closed_cost a opened (ls_closed st) + (if a \<in> set xs then arrived arrival_cost a (asset_history env ms a) else 0)"
  using assms
proof (induction xs arbitrary: st opened)
  case (Cons x xs)
  obtain st1 opened1 where r: "run_asset env lmethod ms (st, opened) x = (st1, opened1)" by fastforce
  show ?case using Cons.IH [of st1 opened1] run_asset_total [OF r, of a] Cons.prems r by (auto split: if_splits)
qed simp

lemma arrived_history: "arrived f a (asset_history env ms a) = arrived f a (filter (\<lambda>m. lm_qty m \<noteq> 0) ms)"
proof -
  have "mset (filter (\<lambda>m. lm_side m = Acquire \<and> lm_assetId m = a) (asset_history env ms a))
      = mset (filter (\<lambda>m. lm_side m = Acquire \<and> lm_assetId m = a) (filter (\<lambda>m. lm_qty m \<noteq> 0) ms))"
    unfolding asset_history_def filter_sort mset_sort filter_filter by (rule arg_cong [of _ _ mset], rule filter_cong) auto
  then have "mset (map f (filter (\<lambda>m. lm_side m = Acquire \<and> lm_assetId m = a) (asset_history env ms a)))
      = mset (map f (filter (\<lambda>m. lm_side m = Acquire \<and> lm_assetId m = a) (filter (\<lambda>m. lm_qty m \<noteq> 0) ms)))"
    by (simp only: mset_map)
  then show ?thesis unfolding arrived_def by (simp only: sum_mset_sum_list [symmetric])
qed

section \<open>The realised result\<close>

definition realized_ok :: "lot_state \<Rightarrow> bool" where
  "realized_ok st \<longleftrightarrow> (\<forall>s. ls_realized st = Some s \<longrightarrow>
     (\<forall>c \<in> set (ls_closed st). cg_costBasis c \<noteq> None \<and> cg_proceeds c \<noteq> None)
     \<and> s = sum_list (map (known \<circ> cg_proceeds) (ls_closed st)) - sum_list (map (known \<circ> cg_costBasis) (ls_closed st)))"

lemma realized_ok_stop [simp]: "realized_ok (stop_unknown st)"
  by (simp add: realized_ok_def stop_unknown_def)

lemma realized_ok_update [simp]:
  "realized_ok (st\<lparr>ls_open := x\<rparr>) = realized_ok st" "realized_ok (st\<lparr>ls_residuals := y\<rparr>) = realized_ok st"
  by (simp_all add: realized_ok_def)

lemma close_from_realized: "close_from m idx remaining proceeds st = (st', r) \<Longrightarrow> realized_ok st \<Longrightarrow> realized_ok st'"
  by (auto simp: close_from_def realized_ok_def stop_unknown_def known_def Let_def case_prod_beta split: option.splits if_splits)

lemma match_lots_realized: "match_lots lmethod m remaining proceeds st = (st', r) \<Longrightarrow> realized_ok st \<Longrightarrow> realized_ok st'"
proof (induction lmethod m remaining proceeds st rule: match_lots.induct)
  case (1 lmethod m remaining proceeds st)
  from "1.prems"(1) show ?case
    by (subst (asm) match_lots.simps)
      (use "1.IH" "1.prems"(2) close_from_realized in \<open>auto simp: Let_def case_prod_beta split: if_splits option.splits; metis prod.collapse\<close>)
qed

lemma run_movement_realized: "realized_ok st \<Longrightarrow> realized_ok (run_movement lmethod m st)"
  using match_lots_realized [of lmethod m "lm_qty m" "lm_proceeds m" st]
  by (cases "match_lots lmethod m (lm_qty m) (lm_proceeds m) st") (auto simp: run_movement_def split: lot_side.splits)

lemma foldl_movements_realized: "realized_ok st \<Longrightarrow> realized_ok (foldl (\<lambda>st m. run_movement lmethod m st) st ms)"
  by (induction ms arbitrary: st) (simp_all add: run_movement_realized)

lemma run_asset_realized: "realized_ok st \<Longrightarrow> realized_ok (fst (run_asset env lmethod ms (st, opened) x))"
  using foldl_movements_realized [of "st\<lparr>ls_open := []\<rparr>" lmethod "asset_history env ms x"]
  by (auto simp: run_asset_def Let_def)

lemma foldl_assets_realized: "realized_ok (fst acc) \<Longrightarrow> realized_ok (fst (foldl (run_asset env lmethod ms) acc xs))"
proof (induction xs arbitrary: acc)
  case (Cons x xs)
  then show ?case using run_asset_realized [of "fst acc" env lmethod ms "snd acc" x] by simp
qed simp

lemma run_assets_realized: "run_assets env lmethod ms = (st, opened) \<Longrightarrow> realized_ok st"
  using foldl_assets_realized [of "(\<lparr>ls_open = [], ls_closed = [], ls_residuals = [], ls_realized = Some 0, ls_anyClosed = False\<rparr>, [])"
      env lmethod ms "js_set (map lm_assetId (filter (\<lambda>m. lm_qty m \<noteq> 0) ms))"]
  by (simp add: run_assets_def realized_ok_def)

lemma run_assets_total:
  assumes "run_assets env lmethod ms = (st, opened)"
  shows "lot_total oi_qtyRemaining cg_qty a opened (ls_closed st) = arrived lm_qty a (filter (\<lambda>m. lm_qty m \<noteq> 0) ms)
    \<and> lot_total open_cost closed_cost a opened (ls_closed st) = arrived arrival_cost a (filter (\<lambda>m. lm_qty m \<noteq> 0) ms)"
proof -
  have z: "a \<notin> set (js_set (map lm_assetId (filter (\<lambda>m. lm_qty m \<noteq> 0) ms))) \<Longrightarrow> arrived f a (filter (\<lambda>m. lm_qty m \<noteq> 0) ms) = 0" for f
    by (subst arrived_def, subst filter_False) auto
  show ?thesis
    using foldl_assets_total [OF assms [unfolded run_assets_def], of a] z
    by (auto simp: arrived_history lot_total_def)
qed

section \<open>The choice of a lot\<close>

text \<open>One lot costs no more per unit than another, written without division.\<close>

lemma cross_trans:
  fixes a b c p q r :: int
  assumes "a * q \<le> b * p" "b * r \<le> c * q" "0 < p" "0 < q" "0 < r"
  shows "a * r \<le> c * p"
proof -
  have "(a * r) * q \<le> (b * p) * r" using assms mult_right_mono [OF assms(1), of r] by (simp add: ac_simps)
  also have "\<dots> \<le> (c * p) * q" using assms mult_right_mono [OF assms(2), of p] by (simp add: ac_simps)
  finally show ?thesis using assms(4) by simp
qed

lemma hifo_scan_max:
  assumes "hifo_scan rows best i = Some k" "best < length rows" "\<forall>row \<in> set rows. 0 < snd row \<and> fst row \<noteq> None"
    and "\<forall>j < i. j < length rows \<longrightarrow> known (fst (rows ! j)) * snd (rows ! best) \<le> known (fst (rows ! best)) * snd (rows ! j)"
  shows "\<forall>j < length rows. known (fst (rows ! j)) * snd (rows ! k) \<le> known (fst (rows ! k)) * snd (rows ! j)"
  using assms
proof (induction rows best i rule: hifo_scan.induct)
  case (1 rows best i)
  show ?case
  proof (cases "i < length rows")
    case False
    then show ?thesis using "1.prems" by (subst (asm) hifo_scan.simps) auto
  next
    case True
    define best' where "best' = (if known (fst (rows ! i)) * snd (rows ! best) > known (fst (rows ! best)) * snd (rows ! i) then i else best)"
    obtain a b where ab: "fst (rows ! i) = Some a" "fst (rows ! best) = Some b"
      using "1.prems"(2,3) True by (metis nth_mem option.exhaust)
    have pos: "0 < snd (rows ! j)" if "j < length rows" for j using "1.prems"(3) that by simp
    have rec: "hifo_scan rows best' (Suc i) = Some k"
      using "1.prems"(1) True ab by (subst (asm) hifo_scan.simps) (simp add: best'_def known_def)
    have b': "best' < length rows" using True "1.prems"(2) by (simp add: best'_def)
    have up: "known (fst (rows ! best)) * snd (rows ! best') \<le> known (fst (rows ! best')) * snd (rows ! best)"
      and self: "known (fst (rows ! i)) * snd (rows ! best') \<le> known (fst (rows ! best')) * snd (rows ! i)"
      by (auto simp: best'_def)
    have "known (fst (rows ! j)) * snd (rows ! best') \<le> known (fst (rows ! best')) * snd (rows ! j)" if "j < Suc i" "j < length rows" for j
      using that self cross_trans [OF _ up pos [OF that(2)] pos [OF "1.prems"(2)] pos [OF b']] "1.prems"(4) by (cases "j = i") auto
    then show ?thesis
      using "1.IH" [OF True refl ab] ab rec b' "1.prems"(3) by (simp add: best'_def known_def)
  qed
qed

text \<open>Open lots are in order of arrival and none is empty.\<close>

definition lots_ok :: "open_internal list \<Rightarrow> bool" where
  "lots_ok lots \<longleftrightarrow> sorted (map oi_acquiredAt lots) \<and> (\<forall>lot \<in> set lots. 0 < oi_qtyRemaining lot)"

lemma lots_ok_splice: "lots_ok lots \<Longrightarrow> lots_ok (splice_out i lots)"
proof -
  assume ok: "lots_ok lots"
  have "sorted (map oi_acquiredAt (take i lots) @ map oi_acquiredAt (drop i lots))"
    using ok unfolding map_append [symmetric] append_take_drop_id by (simp add: lots_ok_def)
  then have "sorted (map oi_acquiredAt (take i lots) @ map oi_acquiredAt (drop (Suc i) lots))"
    using set_drop_subset_set_drop [of i "Suc i" lots] sorted_wrt_drop [of "(\<le>)" "map oi_acquiredAt (drop i lots)" 1]
    by (auto simp: sorted_append drop_map)
  then show ?thesis using ok set_splice_out [of i lots] by (auto simp: lots_ok_def splice_out_def)
qed

lemma lots_ok_update: "lots_ok lots \<Longrightarrow> i < length lots \<Longrightarrow> oi_acquiredAt lot = oi_acquiredAt (lots ! i) \<Longrightarrow> 0 < oi_qtyRemaining lot \<Longrightarrow> lots_ok (lots[i := lot])"
  unfolding lots_ok_def map_update
  by (metis list_update_id map_update nth_map set_update_subset_insert insertE subsetD)

lemma close_from_ok:
  assumes "close_from m idx remaining proceeds st = (st', r)" "idx < length (ls_open st)" "lots_ok (ls_open st)" "0 < remaining"
  shows "lots_ok (ls_open st') \<and> oi_acquiredAt ` set (ls_open st') \<subseteq> oi_acquiredAt ` set (ls_open st)"
proof -
  let ?lot = "ls_open st ! idx"
  have mem: "?lot \<in> set (ls_open st)" using assms(2) by simp
  have "ls_open st' = splice_out idx (ls_open st)
      \<or> (\<exists>c. remaining < oi_qtyRemaining ?lot \<and> ls_open st' = (ls_open st)[idx := ?lot\<lparr>oi_qtyRemaining := oi_qtyRemaining ?lot - remaining, oi_costBasis := c\<rparr>])"
    using assms(1,4) by (auto simp: close_from_def Let_def case_prod_beta split: if_splits)
  then show ?thesis
    using assms(2,3) mem lots_ok_splice set_splice_out [of idx "ls_open st"]
    by (auto intro!: lots_ok_update dest!: set_update_subset_insert [THEN subsetD])
qed

lemma match_lots_ok:
  assumes "match_lots lmethod m remaining proceeds st = (st', r)" "lots_ok (ls_open st)"
  shows "lots_ok (ls_open st') \<and> oi_acquiredAt ` set (ls_open st') \<subseteq> oi_acquiredAt ` set (ls_open st)"
  using assms
proof (induction lmethod m remaining proceeds st rule: match_lots.induct)
  case (1 lmethod m remaining proceeds st)
  show ?case
  proof (cases "remaining > 0 \<and> ls_open st \<noteq> [] \<and> \<not> anyUnknownBasis (ls_open st)
      \<and> (\<exists>idx. pickIndex (ls_open st) lmethod = Some idx \<and> oi_costBasis (ls_open st ! idx) \<noteq> None)")
    case False
    then have "ls_open st' = ls_open st"
      using "1.prems"(1) by (subst (asm) match_lots.simps) (auto split: if_splits option.splits)
    then show ?thesis using "1.prems"(2) by simp
  next
    case True
    then obtain idx where idx: "pickIndex (ls_open st) lmethod = Some idx" "oi_costBasis (ls_open st ! idx) \<noteq> None" by blast
    obtain st1 remaining1 left where c: "close_from m idx remaining proceeds st = (st1, remaining1, left)" by (metis prod.exhaust)
    have rec: "match_lots lmethod m remaining1 left st1 = (st', r)"
      using "1.prems"(1) True idx c by (subst (asm) match_lots.simps) simp
    have g: "remaining > 0 \<and> ls_open st \<noteq> []" "\<not> anyUnknownBasis (ls_open st)" using True by blast+
    show ?thesis
      using close_from_ok [OF c pickIndex_range [OF idx(1)] "1.prems"(2)] "1.IH" [OF g idx(1,2) c [symmetric] refl refl rec] g(1) by blast
  qed
qed

lemma run_movement_ok:
  assumes "lots_ok (ls_open st)" "\<forall>lot \<in> set (ls_open st). oi_acquiredAt lot \<le> lm_postedAt m" "0 < lm_qty m"
  shows "lots_ok (ls_open (run_movement lmethod m st)) \<and> (\<forall>lot \<in> set (ls_open (run_movement lmethod m st)). oi_acquiredAt lot \<le> lm_postedAt m)"
proof (cases "lm_side m")
  case Acquire
  then show ?thesis using assms by (auto simp: run_movement_def lots_ok_def sorted_append)
next
  case Dispose
  obtain st' r where m: "match_lots lmethod m (lm_qty m) (lm_proceeds m) st = (st', r)" by fastforce
  have "ls_open (run_movement lmethod m st) = ls_open st'" using Dispose m by (simp add: run_movement_def)
  then show ?thesis using match_lots_ok [OF m assms(1)] assms(2) by auto
qed

lemma foldl_movements_ok:
  assumes "sorted (map lm_postedAt ms)" "\<forall>m \<in> set ms. 0 < lm_qty m" "lots_ok (ls_open st)"
    and "\<forall>m \<in> set ms. \<forall>lot \<in> set (ls_open st). oi_acquiredAt lot \<le> lm_postedAt m"
  shows "lots_ok (ls_open (foldl (\<lambda>st m. run_movement lmethod m st) st ms))"
  using assms
proof (induction ms arbitrary: st)
  case (Cons m ms)
  have "lots_ok (ls_open (run_movement lmethod m st)) \<and> (\<forall>lot \<in> set (ls_open (run_movement lmethod m st)). oi_acquiredAt lot \<le> lm_postedAt m)"
    using Cons.prems by (intro run_movement_ok) auto
  then show ?case using Cons.prems Cons.IH [of "run_movement lmethod m st"] by fastforce
qed simp

text \<open>The state that a movement of an asset finds: the one the earlier movements of its asset left.\<close>

definition state_before :: "tax_env \<Rightarrow> lot_method \<Rightarrow> lot_movement list \<Rightarrow> string \<Rightarrow> nat \<Rightarrow> lot_state \<Rightarrow> lot_state" where
  "state_before env lmethod ms asset n st = foldl (\<lambda>st m. run_movement lmethod m st) (st\<lparr>ls_open := []\<rparr>) (take n (asset_history env ms asset))"

lemma history_qty: "\<forall>m \<in> set ms. 0 \<le> lm_qty m \<Longrightarrow> \<forall>m \<in> set (asset_history env ms asset). 0 < lm_qty m"
  by (auto simp: asset_history_def order.strict_iff_order)

lemma state_before_ok:
  assumes "\<forall>m \<in> set ms. 0 \<le> lm_qty m"
  shows "lots_ok (ls_open (state_before env lmethod ms asset n st))"
  unfolding state_before_def
proof (rule foldl_movements_ok)
  show "sorted (map lm_postedAt (take n (asset_history env ms asset)))"
    unfolding take_map [symmetric] asset_history_def by (rule sorted_wrt_take) simp
  show "\<forall>m \<in> set (take n (asset_history env ms asset)). 0 < lm_qty m" using history_qty [OF assms] by (auto dest!: in_set_takeD)
qed (auto simp: lots_ok_def)

lemma state_before_Suc:
  "n < length (asset_history env ms asset) \<Longrightarrow>
   state_before env lmethod ms asset (Suc n) st = run_movement lmethod (asset_history env ms asset ! n) (state_before env lmethod ms asset n st)"
  by (simp add: state_before_def take_Suc_conv_app_nth)

lemma lots_ok_nth:
  assumes "lots_ok lots" "i \<le> j" "j < length lots"
  shows "oi_acquiredAt (lots ! i) \<le> oi_acquiredAt (lots ! j)"
  using assms sorted_nth_mono [of "map oi_acquiredAt lots" i j] by (simp add: lots_ok_def)

lemma hifo_scan_finds: "\<forall>row \<in> set rows. fst row \<noteq> None \<Longrightarrow> best < length rows \<Longrightarrow> \<exists>k. hifo_scan rows best i = Some k"
proof (induction rows best i rule: hifo_scan.induct)
  case (1 rows best i)
  show ?case
  proof (cases "i < length rows")
    case True
    then obtain a b where ab: "fst (rows ! i) = Some a" "fst (rows ! best) = Some b" using "1.prems" by (metis nth_mem option.exhaust)
    show ?thesis using "1.IH" [OF True refl ab "1.prems"(1)] True ab "1.prems"(2) by (subst hifo_scan.simps) auto
  qed (subst hifo_scan.simps, simp)
qed

lemma pickIndex_finds:
  assumes "lots \<noteq> []" "\<not> anyUnknownBasis lots"
  shows "\<exists>k. pickIndex lots lmethod = Some k"
  using assms hifo_scan_finds [of "map (\<lambda>lot. (oi_costBasis lot, oi_qtyRemaining lot)) lots" 0 1]
  by (cases lmethod) (auto simp: pickIndex_def anyUnknownBasis_def list_ex_iff)

lemma pickIndex_hifo:
  assumes "pickIndex lots HIFO = Some k" "lots_ok lots" "\<not> anyUnknownBasis lots" "j < length lots"
  shows "open_cost (lots ! j) * oi_qtyRemaining (lots ! k) \<le> open_cost (lots ! k) * oi_qtyRemaining (lots ! j)"
proof -
  let ?rows = "map (\<lambda>lot. (oi_costBasis lot, oi_qtyRemaining lot)) lots"
  have s: "hifo_scan ?rows 0 1 = Some k" "lots \<noteq> []" using assms(1) by (auto simp: pickIndex_def split: if_splits)
  have "\<forall>row \<in> set ?rows. 0 < snd row \<and> fst row \<noteq> None"
    using assms(2,3) by (auto simp: lots_ok_def anyUnknownBasis_def list_ex_iff)
  then have "\<forall>j < length ?rows. known (fst (?rows ! j)) * snd (?rows ! k) \<le> known (fst (?rows ! k)) * snd (?rows ! j)"
    using s by (intro hifo_scan_max [OF s(1)]) auto
  then show ?thesis using assms(4) pickIndex_range [OF assms(1)] by (simp add: open_cost_def)
qed

section \<open>Drawing on lots\<close>

text \<open>What the choice of a lot should be, apart from how the code finds it: an oldest lot, a newest lot, or one whose
  cost per unit no other lot exceeds (compared exactly, across multiplication).\<close>

definition chosen :: "lot_method \<Rightarrow> open_internal list \<Rightarrow> nat \<Rightarrow> bool" where
  "chosen lmethod lots k \<longleftrightarrow> k < length lots \<and> (\<forall>j < length lots. case lmethod of
     FIFO \<Rightarrow> oi_acquiredAt (lots ! k) \<le> oi_acquiredAt (lots ! j)
   | LIFO \<Rightarrow> oi_acquiredAt (lots ! j) \<le> oi_acquiredAt (lots ! k)
   | HIFO \<Rightarrow> open_cost (lots ! j) * oi_qtyRemaining (lots ! k) \<le> open_cost (lots ! k) * oi_qtyRemaining (lots ! j))"

definition drawn :: "lot_movement \<Rightarrow> open_internal \<Rightarrow> amount \<Rightarrow> amount \<Rightarrow> closing \<Rightarrow> bool" where
  "drawn m lot qty cost row \<longleftrightarrow> cg_assetId row = lm_assetId m \<and> cg_qty row = qty \<and> cg_acquiredAt row = oi_acquiredAt lot
     \<and> cg_acquireTxId row = oi_acquireTxId lot \<and> cg_disposedAt row = lm_postedAt m \<and> cg_disposeTxId row = lm_txId m \<and> cg_costBasis row = Some cost"

text \<open>One draw of a departure on the open lots, with the quantity still to be covered and the closings so far: a chosen lot
  is used up, or it covers the rest and keeps what is left of its quantity and cost. No other lot is touched.\<close>

inductive draw :: "lot_method \<Rightarrow> lot_movement \<Rightarrow> amount \<times> open_internal list \<times> closing list \<Rightarrow> amount \<times> open_internal list \<times> closing list \<Rightarrow> bool"
  for lmethod m where
  used_up: "chosen lmethod lots k \<Longrightarrow> 0 < remaining \<Longrightarrow> oi_qtyRemaining (lots ! k) \<le> remaining \<Longrightarrow> oi_costBasis (lots ! k) = Some cost
    \<Longrightarrow> drawn m (lots ! k) (oi_qtyRemaining (lots ! k)) cost row
    \<Longrightarrow> draw lmethod m (remaining, lots, closed) (remaining - oi_qtyRemaining (lots ! k), splice_out k lots, closed @ [row])"
| in_part: "chosen lmethod lots k \<Longrightarrow> 0 < remaining \<Longrightarrow> remaining < oi_qtyRemaining (lots ! k) \<Longrightarrow> oi_costBasis (lots ! k) = Some tot
    \<Longrightarrow> drawn m (lots ! k) remaining cost row
    \<Longrightarrow> draw lmethod m (remaining, lots, closed)
         (0, lots[k := (lots ! k)\<lparr>oi_qtyRemaining := oi_qtyRemaining (lots ! k) - remaining, oi_costBasis := Some (tot - cost)\<rparr>], closed @ [row])"

lemma pickIndex_chosen:
  assumes "pickIndex lots lmethod = Some k" "lots_ok lots" "\<not> anyUnknownBasis lots"
  shows "chosen lmethod lots k"
proof -
  have k: "k < length lots" by (rule pickIndex_range [OF assms(1)])
  show ?thesis
  proof (cases lmethod)
    case FIFO
    then show ?thesis using assms(1) k lots_ok_nth [OF assms(2), of 0] by (simp add: pickIndex_def chosen_def split: if_splits)
  next
    case LIFO
    then have "k = length lots - 1" using assms(1) by (simp add: pickIndex_def split: if_splits)
    then show ?thesis using LIFO k lots_ok_nth [OF assms(2), of _ k] by (auto simp: chosen_def)
  next
    case HIFO
    then show ?thesis using k pickIndex_hifo [OF _ assms(2,3)] assms(1) by (simp add: chosen_def)
  qed
qed

lemma close_from_draws:
  assumes "close_from m k remaining proceeds st = (st', r, p)" "chosen lmethod (ls_open st) k" "0 < remaining" "oi_costBasis (ls_open st ! k) = Some tot"
    and "\<not> anyUnknownBasis (ls_open st)"
  shows "draw lmethod m (remaining, ls_open st, ls_closed st) (r, ls_open st', ls_closed st') \<and> \<not> anyUnknownBasis (ls_open st') \<and> 0 \<le> r"
proof -
  let ?lot = "ls_open st ! k"
  have k: "k < length (ls_open st)" using assms(2) by (simp add: chosen_def)
  show ?thesis
  proof (cases "remaining < oi_qtyRemaining ?lot")
    case True
    define cost where "cost = (tot * remaining) sdiv oi_qtyRemaining ?lot"
    have "splitCost (oi_costBasis ?lot) (oi_qtyRemaining ?lot) remaining = (Some cost, Some (tot - cost))"
      using True assms(4) by (simp add: splitCost_def cost_def Let_def)
    then have e: "r = 0" "ls_open st' = (ls_open st)[k := ?lot\<lparr>oi_qtyRemaining := oi_qtyRemaining ?lot - remaining, oi_costBasis := Some (tot - cost)\<rparr>]"
      "\<exists>row. ls_closed st' = ls_closed st @ [row] \<and> drawn m ?lot remaining cost row"
      using assms(1) True by (auto simp: close_from_def Let_def case_prod_beta drawn_def)
    then have "draw lmethod m (remaining, ls_open st, ls_closed st) (r, ls_open st', ls_closed st')"
      using in_part [OF assms(2,3) True assms(4)] by auto
    then show ?thesis using e(1,2) assms(5) by (auto simp: anyUnknownBasis_def list_ex_iff dest!: set_update_subset_insert [THEN subsetD])
  next
    case False
    have "splitCost (oi_costBasis ?lot) (oi_qtyRemaining ?lot) (oi_qtyRemaining ?lot) = (Some tot, Some 0)"
      using assms(4) by (simp add: splitCost_def)
    then have e: "r = remaining - oi_qtyRemaining ?lot" "ls_open st' = splice_out k (ls_open st)"
      "\<exists>row. ls_closed st' = ls_closed st @ [row] \<and> drawn m ?lot (oi_qtyRemaining ?lot) tot row"
      using assms(1) False by (auto simp: close_from_def Let_def case_prod_beta drawn_def)
    then have "draw lmethod m (remaining, ls_open st, ls_closed st) (r, ls_open st', ls_closed st')"
      using used_up [OF assms(2,3) _ assms(4)] False by auto
    then show ?thesis using e(1,2) False assms(5) set_splice_out [of k "ls_open st"] by (auto simp: anyUnknownBasis_def list_ex_iff)
  qed
qed

lemma match_lots_draws:
  assumes "match_lots lmethod m remaining proceeds st = (st', r)" "lots_ok (ls_open st)" "\<not> anyUnknownBasis (ls_open st)" "0 \<le> remaining"
  shows "(draw lmethod m)\<^sup>*\<^sup>* (remaining, ls_open st, ls_closed st) (r, ls_open st', ls_closed st') \<and> (r = 0 \<or> 0 < r \<and> ls_open st' = [])"
  using assms
proof (induction lmethod m remaining proceeds st rule: match_lots.induct)
  case (1 lmethod m remaining proceeds st)
  show ?case
  proof (cases "remaining > 0 \<and> ls_open st \<noteq> []")
    case False
    then have "st' = st" "r = remaining" using "1.prems"(1) by (auto simp: match_lots.simps [of lmethod m remaining])
    then show ?thesis using False "1.prems"(4) by auto
  next
    case g: True
    then obtain idx where idx: "pickIndex (ls_open st) lmethod = Some idx" using pickIndex_finds "1.prems"(3) by blast
    then obtain tot where tot: "oi_costBasis (ls_open st ! idx) = Some tot"
      using "1.prems"(3) nth_mem [OF pickIndex_range [OF idx]] by (auto simp: anyUnknownBasis_def list_ex_iff)
    obtain st1 remaining1 left where c: "close_from m idx remaining proceeds st = (st1, remaining1, left)" by (metis prod.exhaust)
    have rec: "match_lots lmethod m remaining1 left st1 = (st', r)"
      using "1.prems"(1,3) g idx tot c by (subst (asm) match_lots.simps) simp
    have d: "draw lmethod m (remaining, ls_open st, ls_closed st) (remaining1, ls_open st1, ls_closed st1)" "\<not> anyUnknownBasis (ls_open st1)" "0 \<le> remaining1"
      using close_from_draws [OF c pickIndex_chosen [OF idx "1.prems"(2,3)] _ tot "1.prems"(3)] g by simp_all
    have ok: "lots_ok (ls_open st1)" using close_from_ok [OF c pickIndex_range [OF idx] "1.prems"(2)] g by blast
    have "oi_costBasis (ls_open st ! idx) \<noteq> None" using tot by simp
    from "1.IH" [OF g "1.prems"(3) idx this c [symmetric] refl refl rec ok d(2,3)] show ?thesis
      using converse_rtranclp_into_rtranclp [where r = "draw lmethod m", OF d(1)] by blast
  qed
qed

section \<open>Claims\<close>

text \<open>C24. The year pack loses nothing. Behind the printed rows of \<open>runLots\<close> stand lots and closings with, for every
  asset: the quantity still open plus the quantity closed is the quantity that arrived, and the known cost
  still open plus the cost charged to closings is the known cost that arrived, so the truncating splits of
  a partial sale neither create nor lose a unit of cost. A realised total is printed only when every
  closing has both its cost and its proceeds, and it is their difference.\<close>

theorem runLots_conserves:
  "\<exists>opened closed. lr_lotsOpen (runLots env ms lmethod) = map (print_open env) opened
    \<and> lr_lotsClosed (runLots env ms lmethod) = map (print_closed env) closed
    \<and> (\<forall>a. lot_total oi_qtyRemaining cg_qty a opened closed = arrived lm_qty a (filter (\<lambda>m. lm_qty m \<noteq> 0) ms)
          \<and> lot_total open_cost closed_cost a opened closed = arrived arrival_cost a (filter (\<lambda>m. lm_qty m \<noteq> 0) ms))
    \<and> (lr_realized (runLots env ms lmethod) = None
       \<or> list_all (\<lambda>c. cg_costBasis c \<noteq> None \<and> cg_proceeds c \<noteq> None) closed
         \<and> lr_realized (runLots env ms lmethod)
           = Some (formatAmount (sum_list (map (known \<circ> cg_proceeds) closed) - sum_list (map (known \<circ> cg_costBasis) closed))))"
proof -
  obtain st opened where r: "run_assets env lmethod ms = (st, opened)" by fastforce
  have "lr_realized (runLots env ms lmethod) = None
       \<or> list_all (\<lambda>c. cg_costBasis c \<noteq> None \<and> cg_proceeds c \<noteq> None) (ls_closed st)
         \<and> lr_realized (runLots env ms lmethod)
           = Some (formatAmount (sum_list (map (known \<circ> cg_proceeds) (ls_closed st)) - sum_list (map (known \<circ> cg_costBasis) (ls_closed st))))"
    using run_assets_realized [OF r] r
    by (cases "ls_realized st") (simp_all add: runLots_def moneyOrNull_def realized_ok_def list_all_iff)
  then show ?thesis
    using run_assets_total [OF r] r by (intro exI [of _ opened] exI [of _ "ls_closed st"]) (simp add: runLots_def)
qed

text \<open>C25. The method named is the method used, at every draw. When the quantities of a history are not negative, the lots
  that a departure finds are in order of arrival and none is empty; if every cost among them is known, the departure is a sequence of
  draws that ends when the quantity is covered or no lot is left, and each draw, the later ones of one
  departure included, is on an oldest open lot of that moment under first-in-first-out, on a newest
  under last-in-first-out, and on one of largest cost per unit under highest-in-first-out. A draw closes as much of the lot
  as is needed, under the dates and transactions of the lot and of the departure, and touches no other lot. With an unknown cost among them the
  departure draws on none.\<close>

theorem lot_choice:
  assumes "\<forall>m \<in> set ms. 0 \<le> lm_qty m" "n < length (asset_history env ms asset)" "m = asset_history env ms asset ! n" "lm_side m = Dispose"
    and "before = state_before env lmethod ms asset n st" "after = state_before env lmethod ms asset (Suc n) st"
  shows "if anyUnknownBasis (ls_open before) then ls_open after = ls_open before \<and> ls_closed after = ls_closed before
    else \<exists>r. (draw lmethod m)\<^sup>*\<^sup>* (lm_qty m, ls_open before, ls_closed before) (r, ls_open after, ls_closed after)
           \<and> (r = 0 \<or> 0 < r \<and> ls_open after = [])"
proof -
  have ok: "lots_ok (ls_open before)" unfolding assms(5) by (rule state_before_ok [OF assms(1)])
  have q: "0 < lm_qty m" using history_qty [OF assms(1)] nth_mem [OF assms(2)] assms(3) by blast
  obtain st1 r where ml: "match_lots lmethod m (lm_qty m) (lm_proceeds m) before = (st1, r)" by fastforce
  have after: "ls_open after = ls_open st1" "ls_closed after = ls_closed st1"
    using ml assms(4) state_before_Suc [OF assms(2), of lmethod st] unfolding assms(5,6) assms(3) [symmetric] by (simp_all add: run_movement_def)
  show ?thesis
  proof (cases "anyUnknownBasis (ls_open before)")
    case True
    then have "ls_open before \<noteq> []" by (auto simp: anyUnknownBasis_def)
    then have "st1 = stop_unknown before" using ml True q by (simp add: match_lots.simps [of lmethod m "lm_qty m"])
    then show ?thesis using True after by simp
  next
    case False
    then show ?thesis using match_lots_draws [OF ml ok False] q after by auto
  qed
qed

definition demo_lot :: "int \<Rightarrow> lot_movement" where
  "demo_lot c = \<lparr>lm_assetId = ''BTC'', lm_side = Acquire, lm_qty = 2, lm_costBasis = Some c, lm_proceeds = None, lm_postedAt = c, lm_txId = ''t'', lm_reason = []\<rparr>"

definition demo_sale :: lot_movement where
  "demo_sale = (demo_lot 0)\<lparr>lm_side := Dispose, lm_qty := 3, lm_proceeds := Some 90, lm_postedAt := 9\<rparr>"

definition demo_tax_env :: tax_env where
  "demo_tax_env = \<lparr>te_iso = \<lambda>_. [], te_collation = id\<rparr>"

definition demo_lot_state :: "nat \<Rightarrow> lot_state" where
  "demo_lot_state n = state_before demo_tax_env LIFO [demo_lot 7, demo_lot 5, demo_sale] ''BTC'' n
     \<lparr>ls_open = [], ls_closed = [], ls_residuals = [], ls_realized = Some 0, ls_anyClosed = False\<rparr>"

theorem lot_choice_witness:
  "\<exists>r. (draw LIFO demo_sale)\<^sup>*\<^sup>* (3, ls_open (demo_lot_state 2), ls_closed (demo_lot_state 2)) (r, ls_open (demo_lot_state 3), ls_closed (demo_lot_state 3))
     \<and> (r = 0 \<or> 0 < r \<and> ls_open (demo_lot_state 3) = []) \<and> map oi_acquiredAt (ls_open (demo_lot_state 3)) = [5]"
proof -
  let ?ms = "[demo_lot 7, demo_lot 5, demo_sale]"
  have h: "asset_history demo_tax_env ?ms ''BTC'' = [demo_lot 5, demo_lot 7, demo_sale]"
    by (simp add: asset_history_def demo_tax_env_def demo_lot_def demo_sale_def)
  have q: "\<forall>m \<in> set ?ms. 0 \<le> lm_qty m" by (simp add: demo_lot_def demo_sale_def)
  have n: "2 < length (asset_history demo_tax_env ?ms ''BTC'')" "demo_sale = asset_history demo_tax_env ?ms ''BTC'' ! 2" unfolding h by simp_all
  have s: "demo_lot_state 3 = state_before demo_tax_env LIFO ?ms ''BTC'' (Suc 2)
     \<lparr>ls_open = [], ls_closed = [], ls_residuals = [], ls_realized = Some 0, ls_anyClosed = False\<rparr>" by (simp add: demo_lot_state_def numeral_3_eq_3)
  have e: "lm_side demo_sale = Dispose" "lm_qty demo_sale = 3" "\<not> anyUnknownBasis (ls_open (demo_lot_state 2))" "map oi_acquiredAt (ls_open (demo_lot_state 3)) = [5]"
    by code_simp+
  show ?thesis using lot_choice [OF q n e(1) demo_lot_state_def s] e(2-4) by simp
qed

end
