(* ===== verification/Loan_Risk.thy ===== *)
theory Loan_Risk
  imports Recipes_Bank
begin

text \<open>
  Loan risk (\<^verbatim>\<open>svc-bank/src/loans/risk.ts\<close>): valuation, loan-to-value, daily interest, the days to accrue,
  the liquidation ladder and the waterfall of the proceeds. Thresholds, penalties and tranches are
  integers in basis points. An instant is its number of milliseconds and an accrual day is its day
  number: for years of four digits the order of the ISO texts is the order of the numbers.
\<close>

section \<open>Valuation\<close>

definition BPS :: int where
  "BPS = 10000"

definition DAYS_PER_YEAR :: int where
  "DAYS_PER_YEAR = 365"

definition MAX_SAFE_INTEGER :: int where
  "MAX_SAFE_INTEGER = 2 ^ 53 - 1"

record mark =
  mk_assetId :: string
  mk_price :: amount
  mk_asOf :: int

record holding =
  hd_assetId :: string
  hd_quantity :: amount

datatype risk_error = MarkMissing string | RiskInvalid | AccrualBacklog nat | PolicyIncoherent | MarkInvalid | RiskMoney money_error

definition liftR :: "money_error + 'a \<Rightarrow> risk_error + 'a" where
  "liftR r = (case r of Inl err \<Rightarrow> Inl (RiskMoney err) | Inr a \<Rightarrow> Inr a)"

definition valueAt :: "holding list \<Rightarrow> (string \<times> mark) list \<Rightarrow> rounding \<Rightarrow> risk_error + amount" where
  "valueAt holdings marks rounding =
     bindE (mapE (\<lambda>h. case map_of marks (hd_assetId h) of
          None \<Rightarrow> Inl (MarkMissing (hd_assetId h))
        | Some m \<Rightarrow> liftR (mul (hd_quantity h) (mk_price m) rounding)) holdings)
       (\<lambda>values. Inr (sum_amount values))"

definition ltvBps :: "amount \<Rightarrow> amount \<Rightarrow> risk_error + int" where
  "ltvBps debtValue collateralValue =
     (if debtValue < 0 then Inl RiskInvalid
      else if collateralValue < 0 then Inl RiskInvalid
      else if debtValue = 0 then Inr 0
      else if collateralValue = 0 then Inr MAX_SAFE_INTEGER
      else let numerator = debtValue * BPS; bps = (numerator + collateralValue - 1) sdiv collateralValue
           in Inr (if bps > MAX_SAFE_INTEGER then MAX_SAFE_INTEGER else bps))"

record loan_exposure =
  le_loanId :: string
  le_debtAssetId :: string
  le_debt :: amount
  le_collateralAssetId :: string
  le_collateral :: amount

record loan_mark =
  lk_loanId :: string
  lk_debtValue :: amount
  lk_collateralValue :: amount
  lk_ltvBps :: int

record portfolio_mark =
  pm_debtValue :: amount
  pm_collateralValue :: amount
  pm_portfolioLtvBps :: int
  pm_loans :: "loan_mark list"

definition mark_loan :: "(string \<times> mark) list \<Rightarrow> loan_exposure \<Rightarrow> risk_error + loan_mark" where
  "mark_loan marks e =
     bindE (valueAt [\<lparr>hd_assetId = le_debtAssetId e, hd_quantity = le_debt e\<rparr>] marks Ceil) (\<lambda>debtValue.
     bindE (valueAt [\<lparr>hd_assetId = le_collateralAssetId e, hd_quantity = le_collateral e\<rparr>] marks Floor) (\<lambda>collateralValue.
     bindE (ltvBps debtValue collateralValue) (\<lambda>ltv.
     Inr \<lparr>lk_loanId = le_loanId e, lk_debtValue = debtValue, lk_collateralValue = collateralValue, lk_ltvBps = ltv\<rparr>)))"

definition markPortfolio :: "loan_exposure list \<Rightarrow> (string \<times> mark) list \<Rightarrow> risk_error + portfolio_mark" where
  "markPortfolio exposures marks =
     bindE (mapE (mark_loan marks) exposures) (\<lambda>loans.
       let debtValue = sum_amount (map lk_debtValue loans); collateralValue = sum_amount (map lk_collateralValue loans) in
       bindE (ltvBps debtValue collateralValue) (\<lambda>ltv.
       Inr \<lparr>pm_debtValue = debtValue, pm_collateralValue = collateralValue, pm_portfolioLtvBps = ltv, pm_loans = loans\<rparr>))"

section \<open>Interest\<close>

definition dailyLoanInterest :: "amount \<Rightarrow> js_number \<Rightarrow> int \<Rightarrow> risk_error + amount" where
  "dailyLoanInterest debt aprBps daysPerYear =
     (if debt \<le> 0 then Inr 0
      else if \<not> js_is_integer aprBps \<or> js_lt aprBps 0 then Inl RiskInvalid
      else if js_int aprBps = 0 then Inr 0
      else bindE (liftR (mulBps debt aprBps Floor)) (\<lambda>annual.
           bindE (liftR (parseAmount (AString (string_of_int daysPerYear)))) (\<lambda>perDay.
           liftR (div_amount annual perDay Floor))))"

definition MS_PER_DAY :: int where
  "MS_PER_DAY = 86400000"

definition accrualDay :: "int \<Rightarrow> int" where
  "accrualDay at' = at' div MS_PER_DAY"

text \<open>The loop of \<open>daysToAccrue\<close>. It ends because the cursor moves towards the end.\<close>

function accrue_loop :: "int \<Rightarrow> int \<Rightarrow> nat \<Rightarrow> int list \<Rightarrow> risk_error + int list" where
  "accrue_loop cursor end' maxDays days =
     (if cursor \<le> end' then
        let days1 = days @ [cursor] in
        if length days1 > maxDays then Inl (AccrualBacklog (length days1)) else accrue_loop (cursor + 1) end' maxDays days1
      else Inr days)"
  by pat_completeness auto
termination by (relation "measure (\<lambda>(cursor, end', maxDays, days). nat (end' + 1 - cursor))") auto

declare accrue_loop.simps [simp del]

definition daysToAccrue :: "int option \<Rightarrow> int \<Rightarrow> int \<Rightarrow> nat \<Rightarrow> risk_error + int list" where
  "daysToAccrue lastAccrued openedAt until maxDays =
     accrue_loop ((case lastAccrued of Some d \<Rightarrow> d | None \<Rightarrow> accrualDay openedAt) + 1) (accrualDay until) maxDays []"

section \<open>The liquidation ladder\<close>

record liquidation_policy =
  lp_marginCallLtvBps :: int
  lp_liquidationLtvBps :: int
  lp_insolvencyLtvBps :: int
  lp_targetLtvBps :: int
  lp_penaltyBps :: int
  lp_maxTrancheBps :: int
  lp_graceSeconds :: int

definition DEFAULT_LIQUIDATION_POLICY :: liquidation_policy where
  "DEFAULT_LIQUIDATION_POLICY = \<lparr>lp_marginCallLtvBps = 7500, lp_liquidationLtvBps = 8500, lp_insolvencyLtvBps = 9500, lp_targetLtvBps = 6500,
     lp_penaltyBps = 200, lp_maxTrancheBps = 2500, lp_graceSeconds = 3600\<rparr>"

definition assertPolicyCoherent :: "liquidation_policy \<Rightarrow> int \<Rightarrow> risk_error + unit" where
  "assertPolicyCoherent policy maxLtvBps =
     (if \<not> (maxLtvBps < lp_marginCallLtvBps policy \<and> lp_marginCallLtvBps policy < lp_liquidationLtvBps policy
          \<and> lp_liquidationLtvBps policy \<le> lp_insolvencyLtvBps policy) then Inl PolicyIncoherent
      else if lp_targetLtvBps policy \<ge> lp_marginCallLtvBps policy then Inl PolicyIncoherent
      else if lp_maxTrancheBps policy \<le> 0 \<or> lp_maxTrancheBps policy > BPS then Inl PolicyIncoherent
      else if lp_graceSeconds policy < 0 then Inl PolicyIncoherent
      else Inr ())"

datatype ladder_rung =
    NoAction (rung_ltv: int)
  | MarginCall (rung_ltv: int)
  | Liquidate (rung_ltv: int) (graceWaived: bool) (collateralToSell: amount) (expectedProceeds: amount) (closesPosition: bool)

record ladder_input =
  li_debt :: amount
  li_debtMark :: mark
  li_collateral :: amount
  li_collateralMark :: mark
  li_policy :: liquidation_policy
  li_marginCalledAt :: "int option"
  li_now :: int

text \<open>What a rung sells: the value that restores the target, capped at the pot, in units of collateral,
  capped at the tranche and the pot.\<close>

definition rung_sale :: "ladder_input \<Rightarrow> amount \<Rightarrow> amount \<Rightarrow> risk_error + amount" where
  "rung_sale input debtValue collateralValue =
     (let policy = li_policy input; price = mk_price (li_collateralMark input) in
      bindE (liftR (parseAmount (AString (string_of_int (lp_targetLtvBps policy))))) (\<lambda>target.
      bindE (liftR (parseAmount (AString ''1''))) (\<lambda>one.
      let targetScaled = target sdiv BPS in
      bindE (liftR (mul collateralValue targetScaled Ceil)) (\<lambda>secured.
      let numerator = debtValue - secured; denominator = one - targetScaled in
      bindE (if numerator \<le> 0 then Inr 0 else liftR (div_amount numerator denominator Floor)) (\<lambda>value.
      let valueToRetire = (if value > collateralValue then collateralValue else value) in
      bindE (liftR (div_amount valueToRetire price Floor)) (\<lambda>wanted.
      bindE (liftR (mulBps (li_collateral input) (JSInt (lp_maxTrancheBps policy)) Floor)) (\<lambda>trancheCap.
      let capped = (if wanted > trancheCap then trancheCap else wanted)
      in Inr (if capped > li_collateral input then li_collateral input else capped))))))))"

definition planLiquidation :: "ladder_input \<Rightarrow> risk_error + ladder_rung" where
  "planLiquidation input =
     (let policy = li_policy input; debt = li_debt input; collateral = li_collateral input; price = mk_price (li_collateralMark input) in
      if price \<le> 0 \<or> mk_price (li_debtMark input) \<le> 0 then Inl MarkInvalid
      else
        bindE (liftR (mul debt (mk_price (li_debtMark input)) Ceil)) (\<lambda>debtValue.
        bindE (liftR (mul collateral price Floor)) (\<lambda>collateralValue.
        bindE (ltvBps debtValue collateralValue) (\<lambda>ltv.
        if ltv < lp_marginCallLtvBps policy then Inr (NoAction ltv)
        else if ltv < lp_liquidationLtvBps policy then Inr (MarginCall ltv)
        else
          let waived = ltv \<ge> lp_insolvencyLtvBps policy in
          if \<not> waived \<and> (case li_marginCalledAt input of None \<Rightarrow> True | Some t \<Rightarrow> li_now input < t + lp_graceSeconds policy * 1000)
          then Inr (MarginCall ltv)
          else if collateral \<le> 0 then Inr (NoAction ltv)
          else
            bindE (rung_sale input debtValue collateralValue) (\<lambda>sell.
            if sell \<le> 0 then Inr (MarginCall ltv)
            else bindE (liftR (mul sell price Floor)) (\<lambda>proceeds.
              Inr (Liquidate ltv waived sell proceeds (sell \<ge> collateral))))))))"

definition isMarginCallCured :: "ladder_rung \<Rightarrow> amount \<Rightarrow> amount \<Rightarrow> int option \<Rightarrow> bool" where
  "isMarginCallCured rung debt collateral marginCalledAt =
     (if (case rung of NoAction _ \<Rightarrow> False | _ \<Rightarrow> True) then False
      else if marginCalledAt = None then False
      else if debt > 0 \<and> collateral \<le> 0 then False
      else True)"

section \<open>The waterfall\<close>

record proceeds_split =
  ps_principalRepaid :: amount
  ps_interestRepaid :: amount
  ps_penalty :: amount
  ps_surplusToBorrower :: amount
  ps_shortfall :: amount

definition splitProceeds :: "amount \<Rightarrow> amount \<Rightarrow> amount \<Rightarrow> js_number \<Rightarrow> bool \<Rightarrow> risk_error + proceeds_split" where
  "splitProceeds proceeds interestOwed principalOwed penaltyBps closes =
     (if proceeds \<le> 0 then Inl RiskInvalid
      else let owed = interestOwed + principalOwed in
        bindE (liftR (mulBps proceeds penaltyBps Floor)) (\<lambda>wanted.
        let headroom = (if proceeds > owed then proceeds - owed else 0);
            penalty = (if wanted < headroom then wanted else headroom);
            left = proceeds - penalty;
            interestRepaid = (if left < interestOwed then left else interestOwed);
            left1 = left - interestRepaid;
            principalRepaid = (if left1 < principalOwed then left1 else principalOwed);
            left2 = left1 - principalRepaid;
            shortfall = principalOwed - principalRepaid
        in Inr \<lparr>ps_principalRepaid = principalRepaid, ps_interestRepaid = interestRepaid, ps_penalty = penalty,
             ps_surplusToBorrower = left2, ps_shortfall = (if closes then shortfall else 0)\<rparr>))"

section \<open>Rounding\<close>

lemma SCALE_nz: "SCALE \<noteq> 0" "\<not> SCALE < 0"
  by (simp_all add: SCALE_def DECIMALS_def)

lemma formatAmount_whole: "formatAmount (n * SCALE) = string_of_int n"
  by (simp add: formatAmount_def Let_def string_of_int_def minus_mult_left mult_less_0_iff SCALE_nz del: mult_minus_left)

lemma parse_whole: "parseAmount (AString (string_of_int n)) = Inr v \<Longrightarrow> v = n * SCALE"
  using parse_format [of "n * SCALE"] by (simp add: formatAmount_whole split: if_splits)

lemma liftR_Inr [simp]: "liftR r = Inr a \<longleftrightarrow> r = Inr a"
  by (cases r) (simp_all add: liftR_def)

lemma mul_floor: "mul a b Floor = Inr ((a * b) div SCALE)"
  unfolding mul_def by (rule divideScaled_floor [OF SCALE_nz(1)])

lemma mul_ceil: "mul a b Ceil = Inr (- ((- (a * b)) div SCALE))"
  unfolding mul_def by (rule divideScaled_ceil [OF SCALE_nz(1)])

lemma div_floor: "b \<noteq> 0 \<Longrightarrow> div_amount a b Floor = Inr ((a * SCALE) div b)"
  by (simp add: div_amount_def divideScaled_floor)

lemma floor_le: "0 < d \<Longrightarrow> (n div d) * d \<le> (n::int)"
  by (metis div_mult_mod_eq add.commute le_add_same_cancel2 pos_mod_sign zle_iff_zadd add_increasing2 order_refl)

lemma ceil_ge: "0 < d \<Longrightarrow> (n::int) \<le> (- ((- n) div d)) * d"
  using floor_le [of d "- n"] by simp

lemma le_floor_iff: "0 < d \<Longrightarrow> k \<le> (n::int) div d \<longleftrightarrow> k * d \<le> n"
proof
  assume "0 < d" "k \<le> n div d"
  then show "k * d \<le> n" using floor_le [of d n] mult_right_mono [of k "n div d" d] by linarith
next
  assume "0 < d" "k * d \<le> n"
  then show "k \<le> n div d" using zdiv_mono1 [of "k * d" n d] by simp
qed

lemma sdiv_pos: "0 \<le> n \<Longrightarrow> 0 < d \<Longrightarrow> (n::int) sdiv d = n div d"
  by (cases "n = 0") (simp_all add: signed_divide_int_def)

lemma SCALE_bps: "SCALE = 10000 * 10 ^ 14"
  by (simp add: SCALE_def DECIMALS_def)

lemma string_one: "string_of_int 1 = ''1''"
  by code_simp

section \<open>The size of a rung\<close>

lemma rung_sale_bounds:
  assumes r: "rung_sale input D C = Inr sell" and pos: "0 < sell" "0 < mk_price (li_collateralMark input)"
    and tgt: "0 \<le> lp_targetLtvBps (li_policy input)" and C: "0 \<le> C"
  defines "v \<equiv> (sell * mk_price (li_collateralMark input)) div SCALE" and "t \<equiv> lp_targetLtvBps (li_policy input)"
  shows "sell \<le> li_collateral input" "v \<le> C" "v * (10000 - t) \<le> D * 10000 - C * t" "t < 10000"
    "0 \<le> li_collateral input \<Longrightarrow> sell * 10000 \<le> li_collateral input * lp_maxTrancheBps (li_policy input)"
proof -
  define K :: int where "K = 10 ^ 14"
  have K: "0 < K" "SCALE = 10000 * K" by (simp_all add: K_def SCALE_bps)
  let ?p = "mk_price (li_collateralMark input)"
  have ts: "(t * SCALE) sdiv BPS = t * K"
    unfolding K(2) BPS_def using tgt K(1) by (subst sdiv_pos) (simp_all add: t_def)
  define secured where "secured = - ((- (C * (t * K))) div SCALE)"
  define num where "num = D - secured"
  have one: "parseAmount (AString ''1'') = Inr o1 \<Longrightarrow> o1 = SCALE" for o1
    using parse_whole [of 1 o1] string_one by simp
  have one': "SCALE - t * K = (10000 - t) * K" using K by (simp add: algebra_simps)
  obtain tg o1 sc w wanted cap where
    e: "parseAmount (AString (string_of_int t)) = Inr tg" "parseAmount (AString ''1'') = Inr o1" "mul C (tg sdiv BPS) Ceil = Inr sc"
    and w: "(if D - sc \<le> 0 then Inr 0 else liftR (div_amount (D - sc) (o1 - tg sdiv BPS) Floor)) = Inr w"
    and wanted: "div_amount (if w > C then C else w) ?p Floor = Inr wanted"
    and cap: "mulBps (li_collateral input) (JSInt (lp_maxTrancheBps (li_policy input))) Floor = Inr cap"
    and sell: "sell = (let capped = (if wanted > cap then cap else wanted) in if capped > li_collateral input then li_collateral input else capped)"
    using r unfolding rung_sale_def Let_def bindE_eq_Inr liftR_Inr sum.inject t_def by blast
  have sc: "sc = secured" and den: "o1 - tg sdiv BPS = (10000 - t) * K"
    using e parse_whole [OF e(1)] one [OF e(2)] ts one' by (simp_all add: mul_ceil secured_def)
  have v: "if num \<le> 0 then w = 0 else div_amount num ((10000 - t) * K) Floor = Inr w"
    using w unfolding sc den num_def by (simp split: if_splits)
  have s: "sell \<le> ((if w > C then C else w) * SCALE) div ?p" "sell \<le> cap" "sell \<le> li_collateral input"
    using sell wanted pos(2) by (auto simp: div_floor Let_def split: if_splits)
  show "sell \<le> li_collateral input" by (rule s(3))
  show "0 \<le> li_collateral input \<Longrightarrow> sell * 10000 \<le> li_collateral input * lp_maxTrancheBps (li_policy input)"
    using mulBps_floor_bounds(2) [OF cap] s(2) by simp
  let ?m = "if w > C then C else w"
  have "sell * ?p \<le> ?m * SCALE" using mult_right_mono [OF s(1), of ?p] floor_le [OF pos(2), of "?m * SCALE"] pos(2) by linarith
  then have vm: "v \<le> ?m" unfolding v_def using zdiv_mono1 [of "sell * ?p" "?m * SCALE" SCALE] SCALE_nz by simp
  then show "v \<le> C" by (simp split: if_splits)
  have "0 < ?m"
  proof (rule ccontr)
    assume "\<not> 0 < ?m"
    then have "(?m * SCALE) div ?p \<le> 0" using pos(2) by (intro div_nonpos_pos_le0 mult_nonpos_nonneg less_imp_le [OF SCALE_pos]) (simp_all only: not_less)
    then show False using s(1) pos(1) by linarith
  qed
  then have vp: "0 < w" "0 < num" and dv: "div_amount num ((10000 - t) * K) Floor = Inr w" using v C by (auto split: if_splits)
  have tn: "t \<noteq> 10000" using dv by (auto simp: div_amount_def)
  then have vd: "w = (num * SCALE) div ((10000 - t) * K)" using dv K by (simp add: div_floor)
  show t: "t < 10000"
  proof (rule ccontr)
    assume "\<not> t < 10000"
    then have "(10000 - t) * K < 0" using tn K by (simp add: mult_less_0_iff)
    then have "w \<le> 0" unfolding vd using vp(2) by (intro div_nonneg_neg_le0 mult_nonneg_nonneg less_imp_le [OF SCALE_pos]) simp_all
    then show False using vp by simp
  qed
  have "w * ((10000 - t) * K) \<le> num * SCALE" unfolding vd using t K by (intro floor_le) simp
  then have "(w * (10000 - t)) * K \<le> (num * 10000) * K" unfolding K(2) by (simp only: ac_simps)
  then have "w * (10000 - t) \<le> num * 10000" using K(1) by simp
  moreover have "C * t \<le> secured * 10000"
  proof -
    have "(C * t) * K \<le> (secured * 10000) * K" using ceil_ge [OF SCALE_pos, of "C * (t * K)", folded secured_def] unfolding K(2) by (simp only: ac_simps)
    then show ?thesis using K(1) by simp
  qed
  moreover have "v * (10000 - t) \<le> w * (10000 - t)" using vm t by (intro mult_right_mono) (auto split: if_splits)
  ultimately show "v * (10000 - t) \<le> D * 10000 - C * t" by (simp add: num_def algebra_simps)
qed

lemma ltvBps_pos: "ltvBps D C = Inr ltv \<Longrightarrow> 0 \<le> D \<and> 0 \<le> C"
  by (auto simp: ltvBps_def split: if_splits)

text \<open>What a planned sale has behind it.\<close>

lemma planLiquidation_sale:
  assumes "planLiquidation input = Inr (Liquidate ltv waived sell proceeds closes)"
  defines "D \<equiv> - ((- (li_debt input * mk_price (li_debtMark input))) div SCALE)"
    and "C \<equiv> (li_collateral input * mk_price (li_collateralMark input)) div SCALE"
  shows "ltvBps D C = Inr ltv" "lp_liquidationLtvBps (li_policy input) \<le> ltv" "waived \<longleftrightarrow> lp_insolvencyLtvBps (li_policy input) \<le> ltv"
    "\<not> waived \<Longrightarrow> \<exists>t. li_marginCalledAt input = Some t \<and> t + lp_graceSeconds (li_policy input) * 1000 \<le> li_now input"
    "rung_sale input D C = Inr sell" "0 < sell" "0 < li_collateral input" "0 < mk_price (li_collateralMark input)" "0 < mk_price (li_debtMark input)"
    "proceeds = (sell * mk_price (li_collateralMark input)) div SCALE" "closes \<longleftrightarrow> li_collateral input \<le> sell"
  using assms(1) unfolding planLiquidation_def Let_def
  by (auto simp: mul_ceil mul_floor D_def C_def split: if_splits option.splits)

lemma ltvBps_reaches:
  assumes "0 < thr" "thr \<le> MAX_SAFE_INTEGER" "ltvBps D C = Inr ltv"
  shows "thr \<le> ltv \<longleftrightarrow> (thr - 1) * C < D * BPS"
proof -
  have D: "0 \<le> D" "0 \<le> C" using ltvBps_pos [OF assms(3)] by simp_all
  consider "D = 0" | "0 < D" "C = 0" | "0 < D" "0 < C" using D by linarith
  then show ?thesis
  proof cases
    case 3
    have q: "(D * BPS + C - 1) sdiv C = (D * BPS + C - 1) div C"
      using 3 by (intro sdiv_pos) (simp_all add: BPS_def)
    have "thr \<le> (D * BPS + C - 1) div C \<longleftrightarrow> thr * C \<le> D * BPS + C - 1"
      by (rule le_floor_iff [OF 3(2)])
    then show ?thesis using assms 3 q by (auto simp: ltvBps_def Let_def algebra_simps)
  qed (use assms D in \<open>auto simp: ltvBps_def BPS_def mult_less_0_iff\<close>)
qed

section \<open>Interest and days\<close>

lemma accrue_loop_eq:
  "length days \<le> maxDays \<Longrightarrow> accrue_loop cursor end' maxDays days
     = (if int (length days) + (end' + 1 - cursor) \<le> int maxDays \<or> end' < cursor then Inr (days @ [cursor..end']) else Inl (AccrualBacklog (Suc maxDays)))"
proof (induction cursor end' maxDays days rule: accrue_loop.induct)
  case (1 cursor end' maxDays days)
  show ?case
  proof (cases "cursor \<le> end'")
    case False
    then show ?thesis by (subst accrue_loop.simps) simp
  next
    case True
    show ?thesis
    proof (cases "Suc (length days) \<le> maxDays")
      case False
      then show ?thesis using True 1(2) by (subst accrue_loop.simps) simp
    next
      case len: True
      have "[cursor..end'] = cursor # [cursor + 1..end']" using True by (simp add: upto_rec1)
      then show ?thesis using 1(1) [OF True refl] True len by (subst accrue_loop.simps) auto
    qed
  qed
qed

lemma daysToAccrue_eq:
  "daysToAccrue lastDay openedAt until maxDays =
     (let from' = (case lastDay of Some d \<Rightarrow> d | None \<Rightarrow> accrualDay openedAt); upto' = accrualDay until
      in if upto' - from' \<le> int maxDays then Inr [from' + 1..upto'] else Inl (AccrualBacklog (Suc maxDays)))"
  by (auto simp: daysToAccrue_def accrue_loop_eq Let_def)

lemma dailyLoanInterest_eq:
  assumes "0 \<le> apr"
  shows "dailyLoanInterest debt (JSInt apr) DAYS_PER_YEAR = Inr (if debt \<le> 0 then 0 else (debt * apr) div (BPS * DAYS_PER_YEAR))"
proof -
  have y: "parseAmount (AString (string_of_int 365)) = Inr (365 * SCALE)"
    using parse_format [of "365 * SCALE"] by (simp add: formatAmount_whole) (simp add: SCALE_def MAX_AMOUNT_def DECIMALS_def)
  have d: "div_amount a (365 * SCALE) Floor = Inr (a div 365)" for a
    using SCALE_nz(1) by (simp add: div_floor)
  show ?thesis
    using assms zdiv_zmult2_eq [of 365 "debt * apr" 10000]
    by (simp add: dailyLoanInterest_def DAYS_PER_YEAR_def BPS_def y d mulBps_int divideScaled_floor liftR_def)
qed

section \<open>The waterfall\<close>

lemma splitProceeds_parts:
  assumes "splitProceeds proceeds interest princ penaltyBps closes = Inr s" "0 \<le> interest" "0 \<le> princ"
  shows "0 < proceeds" "0 \<le> ps_principalRepaid s" "0 \<le> ps_interestRepaid s" "0 \<le> ps_penalty s" "0 \<le> ps_surplusToBorrower s" "0 \<le> ps_shortfall s"
    "ps_principalRepaid s + ps_interestRepaid s + ps_penalty s + ps_surplusToBorrower s = proceeds"
    "ps_interestRepaid s = min interest proceeds" "ps_principalRepaid s = min princ (proceeds - ps_interestRepaid s)"
    "ps_shortfall s = (if closes then princ - ps_principalRepaid s else 0)"
    "ps_penalty s * BPS \<le> proceeds * js_int penaltyBps"
    "0 < ps_penalty s \<Longrightarrow> interest + princ < proceeds"
proof -
  obtain wanted where pr: "0 < proceeds" and w: "mulBps proceeds penaltyBps Floor = Inr wanted"
    using assms(1) by (auto simp: splitProceeds_def Let_def split: if_splits)
  have wb: "0 \<le> wanted" "wanted * BPS \<le> proceeds * js_int penaltyBps"
    using mulBps_floor_bounds [OF w] pr by (simp_all add: BPS_def)
  have s: "s = \<lparr>ps_principalRepaid = ps_principalRepaid s, ps_interestRepaid = ps_interestRepaid s, ps_penalty = ps_penalty s,
      ps_surplusToBorrower = ps_surplusToBorrower s, ps_shortfall = ps_shortfall s\<rparr>" by simp
  note e = assms(1) [unfolded splitProceeds_def Let_def w liftR_def, simplified]
  have pen: "ps_penalty s = min wanted (max 0 (proceeds - (interest + princ)))"
    using e pr by (auto simp: min_def max_def split: if_splits)
  have "ps_penalty s \<le> wanted" using pen by simp
  then show "ps_penalty s * BPS \<le> proceeds * js_int penaltyBps" using wb by (simp add: BPS_def)
  show "0 < proceeds" by (rule pr)
  show "0 < ps_penalty s \<Longrightarrow> interest + princ < proceeds" using pen by (simp add: min_def max_def split: if_splits)
  show "0 \<le> ps_penalty s" using pen wb(1) by simp
  show "ps_interestRepaid s = min interest proceeds" using e pr assms(2,3) wb(1) by (auto simp: min_def split: if_splits)
  show "ps_principalRepaid s = min princ (proceeds - ps_interestRepaid s)" using e pr assms(2,3) wb(1) by (auto simp: min_def split: if_splits)
  show "ps_shortfall s = (if closes then princ - ps_principalRepaid s else 0)" using e pr by auto
  show "0 \<le> ps_principalRepaid s" "0 \<le> ps_interestRepaid s" "0 \<le> ps_surplusToBorrower s" "0 \<le> ps_shortfall s"
    "ps_principalRepaid s + ps_interestRepaid s + ps_penalty s + ps_surplusToBorrower s = proceeds"
    using e pr assms(2,3) wb(1) by (auto split: if_splits)
qed

section \<open>Portfolios\<close>

lemma mark_loan_ltv: "mark_loan marks e = Inr l \<Longrightarrow> ltvBps (lk_debtValue l) (lk_collateralValue l) = Inr (lk_ltvBps l)"
  by (auto simp: mark_loan_def)

lemma mapE_all: "mapE f xs = Inr ys \<Longrightarrow> \<forall>x y. f x = Inr y \<longrightarrow> P y \<Longrightarrow> \<forall>y \<in> set ys. P y"
  by (induction xs arbitrary: ys) auto

lemma sum_below:
  assumes "\<forall>l \<in> set ls. f l * b \<le> c * (g l :: int)"
  shows "sum_list (map f ls) * b \<le> c * sum_list (map g ls)"
  using assms by (induction ls) (auto simp: algebra_simps)

section \<open>Claims\<close>

text \<open>C26. Loan-to-value is rounded up, and by no more than a basis point. In a portfolio that was marked, a loan reaches a threshold of
  \<open>thr\<close> basis points exactly when its debt is worth more than \<open>thr - 1\<close> basis points of its collateral: a loan at the threshold
  reaches it, one that is up to a basis point short of it does too, and none further away does. No
  rounding moves a loan to the safe side, and a loan without collateral reaches every
  threshold. The portfolio's figure is that of the summed values, obeys the same rule, and never
  reaches a threshold that none of its loans reaches.\<close>

theorem portfolio_thresholds:
  assumes "markPortfolio exposures marks = Inr p" "0 < thr" "thr \<le> MAX_SAFE_INTEGER"
  shows "(\<forall>l \<in> set (pm_loans p). thr \<le> lk_ltvBps l \<longleftrightarrow> (thr - 1) * lk_collateralValue l < lk_debtValue l * BPS)
    \<and> (thr \<le> pm_portfolioLtvBps p \<longleftrightarrow>
         (thr - 1) * sum_list (map lk_collateralValue (pm_loans p)) < sum_list (map lk_debtValue (pm_loans p)) * BPS)
    \<and> (thr \<le> pm_portfolioLtvBps p \<longrightarrow> (\<exists>l \<in> set (pm_loans p). thr \<le> lk_ltvBps l))"
proof -
  obtain loans where loans: "mapE (mark_loan marks) exposures = Inr loans" and p: "pm_loans p = loans"
    and ltv: "ltvBps (sum_list (map lk_debtValue loans)) (sum_list (map lk_collateralValue loans)) = Inr (pm_portfolioLtvBps p)"
    using assms(1) by (auto simp: markPortfolio_def Let_def)
  have each: "\<forall>l \<in> set loans. thr \<le> lk_ltvBps l \<longleftrightarrow> (thr - 1) * lk_collateralValue l < lk_debtValue l * BPS"
    by (rule mapE_all [OF loans]) (intro allI impI, rule ltvBps_reaches [OF assms(2,3) mark_loan_ltv])
  note whole = ltvBps_reaches [OF assms(2,3) ltv]
  have "\<exists>l \<in> set loans. thr \<le> lk_ltvBps l" if "thr \<le> pm_portfolioLtvBps p"
  proof (rule ccontr)
    assume "\<not> (\<exists>l \<in> set loans. thr \<le> lk_ltvBps l)"
    then have "\<forall>l \<in> set loans. lk_debtValue l * BPS \<le> (thr - 1) * lk_collateralValue l" using each by (meson not_less)
    then show False using sum_below [of loans lk_debtValue BPS "thr - 1" lk_collateralValue] whole that by linarith
  qed
  then show ?thesis using each whole by (simp add: p)
qed

definition demo_marks :: "(string \<times> mark) list" where
  "demo_marks = [(''USDT'', \<lparr>mk_assetId = ''USDT'', mk_price = SCALE, mk_asOf = 0\<rparr>), (''BTC'', \<lparr>mk_assetId = ''BTC'', mk_price = 20 * SCALE, mk_asOf = 0\<rparr>)]"

definition demo_exposures :: "loan_exposure list" where
  "demo_exposures = [\<lparr>le_loanId = ''l1'', le_debtAssetId = ''USDT'', le_debt = 9 * SCALE, le_collateralAssetId = ''BTC'', le_collateral = SCALE\<rparr>]"

theorem portfolio_thresholds_witness:
  "\<exists>p. markPortfolio demo_exposures demo_marks = Inr p \<and> 4500 \<le> pm_portfolioLtvBps p"
proof -
  have m: "markPortfolio demo_exposures demo_marks
      = Inr \<lparr>pm_debtValue = 9 * SCALE, pm_collateralValue = 20 * SCALE, pm_portfolioLtvBps = 4500,
          pm_loans = [\<lparr>lk_loanId = ''l1'', lk_debtValue = 9 * SCALE, lk_collateralValue = 20 * SCALE, lk_ltvBps = 4500\<rparr>]\<rparr>"
    by (simp add: demo_exposures_def demo_marks_def markPortfolio_def mark_loan_def valueAt_def mul_floor mul_ceil liftR_def)
      (simp add: ltvBps_def SCALE_def DECIMALS_def BPS_def MAX_SAFE_INTEGER_def signed_divide_int_def)
  show ?thesis using portfolio_thresholds [OF m, of 4500] m by (simp add: BPS_def MAX_SAFE_INTEGER_def)
qed

text \<open>C22. A liquidation is orderly. When the ladder sells, the loan is at or past the liquidation threshold, and
  either it is past the insolvency threshold or a margin call was raised and its whole grace has passed;
  the sale is positive, no more than the collateral and no more than one tranche of it; it raises no more
  than the collateral is worth; and it never oversells: what the debt is worth after the sale is still at
  least the target share of what the collateral is worth after it.\<close>

theorem liquidation_orderly:
  assumes "planLiquidation input = Inr (Liquidate ltv waived sell proceeds closes)"
    and "0 \<le> lp_targetLtvBps (li_policy input)"
    and "D = - ((- (li_debt input * mk_price (li_debtMark input))) div SCALE)"
    and "C = (li_collateral input * mk_price (li_collateralMark input)) div SCALE"
  shows "lp_liquidationLtvBps (li_policy input) \<le> ltv
    \<and> (lp_insolvencyLtvBps (li_policy input) \<le> ltv
       \<or> (\<exists>t. li_marginCalledAt input = Some t \<and> t + lp_graceSeconds (li_policy input) * 1000 \<le> li_now input))
    \<and> 0 < sell \<and> sell \<le> li_collateral input \<and> sell * BPS \<le> li_collateral input * lp_maxTrancheBps (li_policy input)
    \<and> (closes \<longleftrightarrow> sell = li_collateral input)
    \<and> 0 \<le> proceeds \<and> proceeds \<le> C
    \<and> (C - proceeds) * lp_targetLtvBps (li_policy input) \<le> (D - proceeds) * BPS"
proof -
  note s = planLiquidation_sale [OF assms(1), folded assms(3,4)]
  note b = rung_sale_bounds [OF s(5,6,8) assms(2), folded s(10)]
  have c: "0 \<le> C" using ltvBps_pos [OF s(1)] by simp
  have "0 \<le> proceeds" unfolding s(10) using s(6,8) by (intro pos_imp_zdiv_nonneg_iff [THEN iffD2, OF SCALE_pos]) simp
  then show ?thesis
    using s(2,3,4,6,7,11) b(1) b(2,3) [OF c] b(5) [OF c] by (auto simp: BPS_def algebra_simps)
qed

definition demo_ladder :: ladder_input where
  "demo_ladder = \<lparr>li_debt = 90 * SCALE, li_debtMark = \<lparr>mk_assetId = ''USDT'', mk_price = SCALE, mk_asOf = 0\<rparr>,
     li_collateral = SCALE, li_collateralMark = \<lparr>mk_assetId = ''BTC'', mk_price = 100 * SCALE, mk_asOf = 0\<rparr>,
     li_policy = DEFAULT_LIQUIDATION_POLICY, li_marginCalledAt = Some 0, li_now = 3600000\<rparr>"

lemma parse_whole_small: "\<bar>n * SCALE\<bar> \<le> MAX_AMOUNT \<Longrightarrow> parseAmount (AString (string_of_int n)) = Inr (n * SCALE)"
  using parse_format [of "n * SCALE"] by (simp add: formatAmount_whole)

lemma demo_ladder_plan: "planLiquidation demo_ladder = Inr (Liquidate 9000 False (SCALE div 4) (25 * SCALE) False)"
proof -
  have p: "parseAmount (AString (string_of_int 6500)) = Inr (6500 * SCALE)" "parseAmount (AString ''1'') = Inr SCALE"
    using parse_whole_small [of 6500] parse_whole_small [of 1] string_one
    by (simp_all add: SCALE_def MAX_AMOUNT_def DECIMALS_def)
  have r: "rung_sale demo_ladder (90 * SCALE) (100 * SCALE) = Inr (SCALE div 4)"
    by (simp add: rung_sale_def demo_ladder_def DEFAULT_LIQUIDATION_POLICY_def p mul_ceil liftR_def mulBps_int divideScaled_floor)
      (simp add: SCALE_def DECIMALS_def BPS_def signed_divide_int_def div_amount_def divideScaled_floor)
  have l: "ltvBps (90 * SCALE) (100 * SCALE) = Inr 9000"
    by (simp add: ltvBps_def SCALE_def DECIMALS_def BPS_def MAX_SAFE_INTEGER_def signed_divide_int_def)
  have v: "mul (90 * SCALE) SCALE Ceil = Inr (90 * SCALE)" "mul SCALE (100 * SCALE) Floor = Inr (100 * SCALE)"
    "mul (SCALE div 4) (100 * SCALE) Floor = Inr (25 * SCALE)"
    by (simp_all add: mul_ceil mul_floor) (simp_all add: SCALE_def DECIMALS_def)
  show ?thesis
    using r l v by (simp add: planLiquidation_def Let_def demo_ladder_def DEFAULT_LIQUIDATION_POLICY_def liftR_def) (simp add: SCALE_def DECIMALS_def)
qed

theorem liquidation_orderly_witness: "planLiquidation demo_ladder = Inr (Liquidate 9000 False (SCALE div 4) (25 * SCALE) False) \<and> 0 < SCALE div 4"
  using liquidation_orderly [OF demo_ladder_plan _ refl refl] demo_ladder_plan
  by (simp add: demo_ladder_def DEFAULT_LIQUIDATION_POLICY_def)

text \<open>C23. The waterfall allocates every unit, and the ledger accepts it. The parts of the proceeds are not negative
  and add up to them; interest is paid before principal and each in full before the next gets anything;
  the penalty is within its rate and is only taken when interest and principal are paid in full; a
  shortfall is booked only by the closing sale and is principal only. For a sale of positive size with
  named parties and matching assets, the \<open>loanLiquidate\<close> recipe accepts exactly these parts, so its own refusals
  of an unbalanced split cannot occur.\<close>

theorem waterfall_posts:
  assumes "splitProceeds proceeds interest princ penaltyBps closes = Inr s" "0 \<le> interest" "0 \<le> princ"
    and "js_trim loanId \<noteq> []" "js_trim userId \<noteq> []" "js_trim (assetId collateralTo) \<noteq> []" "js_trim (assetId proceedsFrom) \<noteq> []"
    and "assetId collateralTo \<noteq> assetId proceedsFrom" "0 \<le> tranche" "0 < sold" "0 < price"
  shows "0 \<le> ps_principalRepaid s \<and> 0 \<le> ps_interestRepaid s \<and> 0 \<le> ps_penalty s \<and> 0 \<le> ps_surplusToBorrower s
    \<and> ps_principalRepaid s + ps_interestRepaid s + ps_penalty s + ps_surplusToBorrower s = proceeds
    \<and> ps_interestRepaid s = min interest proceeds \<and> ps_principalRepaid s = min princ (proceeds - ps_interestRepaid s)
    \<and> ps_penalty s * BPS \<le> proceeds * js_int penaltyBps
    \<and> (0 < ps_penalty s \<longrightarrow> ps_interestRepaid s = interest \<and> ps_principalRepaid s = princ)
    \<and> ps_shortfall s = (if closes then princ - ps_principalRepaid s else 0)
    \<and> (\<exists>q. loanLiquidate loanId userId (JSInt tranche) (assetId collateralTo) sold (assetId proceedsFrom) proceeds
             (ps_principalRepaid s) (ps_interestRepaid s) (ps_penalty s) (ps_surplusToBorrower s) collateralTo proceedsFrom price = Inr q)"
proof -
  note p = splitProceeds_parts [OF assms(1-3)]
  have "\<not> blank (''loan:'' @ loanId)" by (simp add: blank_def js_trim_def js_ws_def dropWhile_append)
  then have "\<exists>q. loanLiquidate loanId userId (JSInt tranche) (assetId collateralTo) sold (assetId proceedsFrom) proceeds
      (ps_principalRepaid s) (ps_interestRepaid s) (ps_penalty s) (ps_surplusToBorrower s) collateralTo proceedsFrom price = Inr q"
    using p(1-5,7) assms(4-)
    by (simp add: loanLiquidate_def requireId_def requireSequence_def requirePositive_def requireNonNegative_def
        loanCollateralAccount_def userCollateral_def purposed_def add.assoc Let_def)
  moreover have "0 < ps_penalty s \<longrightarrow> ps_interestRepaid s = interest \<and> ps_principalRepaid s = princ"
    using p(8,9,12) assms(2,3) by auto
  ultimately show ?thesis using p by simp
qed

text \<open>C39. A rung sold at its mark never pays the penalty. With the debt quoted in its own asset, whatever the
  penalty rate, splitting the proceeds that the ladder expects gives a penalty of zero and no surplus:
  the cap on the penalty leaves it only what exceeds the whole debt, and a planned sale never does.\<close>

theorem rung_at_mark_pays_no_penalty:
  assumes "planLiquidation input = Inr (Liquidate ltv waived sell proceeds closes)" "0 \<le> lp_targetLtvBps (li_policy input)"
    and "mk_price (li_debtMark input) = SCALE" "li_debt input = interest + princ" "0 \<le> interest" "0 \<le> princ"
    and "splitProceeds proceeds interest princ penaltyBps closes = Inr s"
  shows "ps_penalty s = 0 \<and> ps_surplusToBorrower s = 0"
proof -
  let ?C = "(li_collateral input * mk_price (li_collateralMark input)) div SCALE" and ?t = "lp_targetLtvBps (li_policy input)"
  note s = planLiquidation_sale [OF assms(1)]
  have D: "- ((- (li_debt input * mk_price (li_debtMark input))) div SCALE) = interest + princ"
    unfolding assms(3,4) mult_minus_left [symmetric] by (simp only: nonzero_mult_div_cancel_right [OF SCALE_nz(1)] minus_minus)
  have c: "0 \<le> ?C" using ltvBps_pos [OF s(1)] by simp
  note b = rung_sale_bounds [OF s(5,6,8) assms(2) c, folded s(10)]
  have "0 \<le> (?C - proceeds) * ?t" using b(2) assms(2) by simp
  then have "proceeds \<le> interest + princ" using b(3) unfolding D by (simp add: algebra_simps)
  then show ?thesis using splitProceeds_parts [OF assms(7,5,6)] by (auto simp: min_def split: if_splits)
qed

lemma demo_split: "splitProceeds (25 * SCALE) SCALE (89 * SCALE) (JSInt 200) False
    = Inr \<lparr>ps_principalRepaid = 24 * SCALE, ps_interestRepaid = SCALE, ps_penalty = 0, ps_surplusToBorrower = 0, ps_shortfall = 0\<rparr>"
  by (simp add: splitProceeds_def liftR_def mulBps_int divideScaled_floor) (simp add: SCALE_def DECIMALS_def)

theorem rung_at_mark_pays_no_penalty_witness:
  "planLiquidation demo_ladder = Inr (Liquidate 9000 False (SCALE div 4) (25 * SCALE) False)
    \<and> (\<exists>s. splitProceeds (25 * SCALE) SCALE (89 * SCALE) (JSInt 200) False = Inr s \<and> ps_penalty s = 0)"
proof -
  have "li_debt demo_ladder = SCALE + 89 * SCALE" "mk_price (li_debtMark demo_ladder) = SCALE" "0 \<le> lp_targetLtvBps (li_policy demo_ladder)"
    by (simp_all add: demo_ladder_def DEFAULT_LIQUIDATION_POLICY_def)
  then show ?thesis
    using rung_at_mark_pays_no_penalty [OF demo_ladder_plan _ _ _ _ _ demo_split] demo_ladder_plan demo_split by (simp add: SCALE_nz(2))
qed

definition demo_pot :: "string \<Rightarrow> account_ref" where
  "demo_pot asset = houseFees ''bank'' asset"

theorem waterfall_posts_witness:
  "\<exists>q. loanLiquidate ''l'' ''u'' (JSInt 0) ''BTC'' 1 ''USDT'' (25 * SCALE) (24 * SCALE) SCALE 0 0 (demo_pot ''BTC'') (demo_pot ''USDT'') 1 = Inr q"
proof -
  have t: "js_trim ''l'' \<noteq> []" "js_trim ''u'' \<noteq> []" "js_trim (assetId (demo_pot ''BTC'')) \<noteq> []" "js_trim (assetId (demo_pot ''USDT'')) \<noteq> []"
    "assetId (demo_pot ''BTC'') \<noteq> assetId (demo_pot ''USDT'')" "assetId (demo_pot ''BTC'') = ''BTC''" "assetId (demo_pot ''USDT'') = ''USDT''"
    by code_simp+
  show ?thesis using waterfall_posts [OF demo_split _ _ t(1-5), of 0 1 1] by (simp add: t(6,7) less_imp_le [OF SCALE_pos])
qed

text \<open>Interest is charged once per day, whenever the job runs, and never above the rate. Catching up in one run
  charges the same days as two runs, the second starting from the last day of the first; the days are
  the calendar days after the last accrued one, each once; a run longer than its limit is refused whole. A day's
  charge is the exact daily share of the annual rate rounded down.\<close>

theorem accrual_catches_up:
  assumes "daysToAccrue lastDay openedAt until1 max1 = Inr days1" "daysToAccrue (Some (accrualDay until1)) openedAt until2 max2 = Inr days2"
    and "(case lastDay of Some d \<Rightarrow> d | None \<Rightarrow> accrualDay openedAt) \<le> accrualDay until1" "accrualDay until1 \<le> accrualDay until2" "0 \<le> apr"
  shows "daysToAccrue lastDay openedAt until2 (max1 + max2) = Inr (days1 @ days2) \<and> distinct (days1 @ days2)
    \<and> (\<forall>d. d \<in> set (days1 @ days2) \<longleftrightarrow> (case lastDay of Some d \<Rightarrow> d | None \<Rightarrow> accrualDay openedAt) < d \<and> d \<le> accrualDay until2)
    \<and> dailyLoanInterest debt (JSInt apr) DAYS_PER_YEAR = Inr (if debt \<le> 0 then 0 else (debt * apr) div (BPS * DAYS_PER_YEAR))"
proof -
  define a where "a = (case lastDay of Some d \<Rightarrow> d | None \<Rightarrow> accrualDay openedAt)"
  have days: "days1 = [a + 1..accrualDay until1]" "accrualDay until1 - a \<le> int max1"
    "days2 = [accrualDay until1 + 1..accrualDay until2]" "accrualDay until2 - accrualDay until1 \<le> int max2"
    using assms(1,2) by (auto simp: daysToAccrue_eq Let_def a_def split: if_splits)
  have "[a + 1..accrualDay until2] = days1 @ days2"
    unfolding days using assms(3,4) upto_split2 [of "a + 1" "accrualDay until1" "accrualDay until2"]
    by (cases "a = accrualDay until1") (simp_all add: a_def)
  then show ?thesis
    using days(2,4) assms(3,4) dailyLoanInterest_eq [OF assms(5)] unfolding a_def [symmetric]
    by (simp add: daysToAccrue_eq a_def [symmetric] Let_def flip: \<open>[a + 1..accrualDay until2] = days1 @ days2\<close>) auto
qed

end
