(* ===== verification/Recipe_Gate.thy ===== *)
theory Recipe_Gate
  imports Recipes
begin

text \<open>
  The recipe gate of the ledger service (\<^verbatim>\<open>svc-ledger/src/recipe-gate.ts\<close>): a post is accepted at the service
  door only when module, reason and the signatures of its legs are those of a recipe. The catalogue
  is built from sample posts, which are made here with the recipes of the client library. A body is a
  \<open>post_request\<close>; only its module, its reason and its legs are read.
\<close>

section \<open>Signatures\<close>

definition RECIPE_REQUIRED_CODE :: string where
  "RECIPE_REQUIRED_CODE = ''ledger.recipe_required''"

text \<open>\<open>Array.prototype.join\<close>.\<close>

fun js_join :: "string \<Rightarrow> string list \<Rightarrow> string" where
  "js_join sep [] = []"
| "js_join sep [s] = s"
| "js_join sep (s # t # ss) = s @ sep @ js_join sep (t # ss)"

definition purposeHead :: "string option \<Rightarrow> string" where
  "purposeHead purp = (case purp of None \<Rightarrow> [] | Some p \<Rightarrow> if p = [] then [] else hd (segs p))"

definition accountRole :: "account_ref \<Rightarrow> string" where
  "accountRole account =
     (if ownerType account = User \<or> ownerType account = Subaccount then []
      else let parts = segs (ownerId account) in
        if ownerId account = [] \<or> list_ex (\<lambda>part. part = []) parts then ownerId account
        else if ownerType account = Treasury then (if length parts = 1 then ownerId account else hd parts @ '':*'')
        else if length parts \<le> 2 then ownerId account
        else js_join '':'' (butlast parts) @ '':*'')"

definition legSignature :: "entry_input \<Rightarrow> string" where
  "legSignature e =
     (let a = entry_account e in
      js_join ''|'' [owner_type_name (ownerType a), kind_name (kind a), direction_name (entry_direction e), purposeHead (purpose a), accountRole a])"

definition isHouseFees :: "account_ref \<Rightarrow> bool" where
  "isHouseFees account \<longleftrightarrow> ownerType account = House \<and> kind account = Available \<and> starts_with ''fees:'' (ownerId account)"

definition isRewardsEngine :: "account_ref \<Rightarrow> bool" where
  "isRewardsEngine account \<longleftrightarrow> ownerType account = House \<and> kind account = Available \<and> ownerId account = ''rewards-engine''"

definition isUserAvailable :: "account_ref \<Rightarrow> bool" where
  "isUserAvailable account \<longleftrightarrow> ownerType account = User \<and> kind account = Available"

definition matchesFeeCharge :: "post_request \<Rightarrow> bool" where
  "matchesFeeCharge input =
     (case req_entries input of
        [a, b] \<Rightarrow> entry_direction a = Credit \<and> isUserAvailable (entry_account a) \<and> entry_direction b = Debit \<and> isHouseFees (entry_account b)
      | _ \<Rightarrow> False)"

definition matchesFeeSweep :: "post_request \<Rightarrow> bool" where
  "matchesFeeSweep input =
     (if req_module input \<noteq> ''token'' \<or> req_reason input \<noteq> ''token.fee.swept'' then False
      else case req_entries input of
        [a, b] \<Rightarrow> entry_direction a = Credit \<and> isHouseFees (entry_account a) \<and> entry_direction b = Debit \<and> isRewardsEngine (entry_account b)
      | _ \<Rightarrow> False)"

definition matchesRewardPay :: "post_request \<Rightarrow> bool" where
  "matchesRewardPay input =
     (if req_module input \<noteq> ''token'' then False
      else case req_entries input of
        [a, b] \<Rightarrow> entry_direction a = Credit \<and> isRewardsEngine (entry_account a) \<and> entry_direction b = Debit \<and> isUserAvailable (entry_account b)
      | _ \<Rightarrow> False)"

section \<open>Sample posts\<close>

definition U_SAMPLE :: string where
  "U_SAMPLE = ''aaaaaaaa-aaaa-4aaa-8aaa-aaaaaaaaaaaa''"

definition U2_SAMPLE :: string where
  "U2_SAMPLE = ''bbbbbbbb-bbbb-4bbb-8bbb-bbbbbbbbbbbb''"

definition U3_SAMPLE :: string where
  "U3_SAMPLE = ''eeeeeeee-eeee-4eee-8eee-eeeeeeeeeeee''"

definition S1_SAMPLE :: string where
  "S1_SAMPLE = ''cccccccc-cccc-4ccc-8ccc-cccccccccccc''"

definition S2_SAMPLE :: string where
  "S2_SAMPLE = ''dddddddd-dddd-4ddd-8ddd-dddddddddddd''"

definition S3_SAMPLE :: string where
  "S3_SAMPLE = ''ffffffff-ffff-4fff-8fff-ffffffffffff''"

definition AMT :: amount where
  "AMT = projr (parseAmount (AString ''10''))"

definition QUOTE :: amount where
  "QUOTE = projr (parseAmount (AString ''100''))"

definition VARIABLE_REASON_RECIPES :: "string list" where
  "VARIABLE_REASON_RECIPES = [''feeCharge'', ''rewardPay'']"

text \<open>A sample is a recipe's name with what the recipe returns on fixed arguments.\<close>

type_synonym sample = "string \<times> (ledger_error + post_request)"

definition base_samples :: "sample list" where
  "base_samples =
     [
      (''deposit'', deposit U_SAMPLE ''USDT'' AMT ''crypto-native'' ''tx1'' None None),
      (''depositReverse'', depositReverse U_SAMPLE ''USDT'' AMT ''crypto-native'' ''tx1'' None None ''dep1''),
      (''marketMakerSeedFund'', marketMakerSeedFund ''USDT'' AMT ''seed1'' None),
      (''withdrawHold'', withdrawHold U_SAMPLE ''USDT'' AMT ''crypto-native'' ''w1''),
      (''withdrawSettle'', withdrawSettle U_SAMPLE ''USDT'' AMT ''crypto-native'' ''w1''),
      (''withdrawReverse'', withdrawReverse U_SAMPLE ''USDT'' AMT ''crypto-native'' ''w1''),
      (''tradeFill'', tradeFill ''f1'' U2_SAMPLE U_SAMPLE ''mo'' ''to'' ''BTC'' ''USDT'' AMT QUOTE Buy (JSInt 0) (JSInt 0)),
      (''tradeFill'', tradeFill ''f1'' U2_SAMPLE U_SAMPLE ''mo'' ''to'' ''BTC'' ''USDT'' AMT QUOTE Buy (JSInt 10) (JSInt 10)),
      (''orderHold'', orderHold ''o1'' U_SAMPLE ''USDT'' AMT),
      (''orderHoldRelease'', orderHoldRelease ''o1'' U_SAMPLE ''USDT'' AMT None),
      (''orderHoldAmend'', orderHoldAmend ''o1'' U_SAMPLE ''USDT'' AMT (JSInt 1)),
      (''marketMakerOrderHold'', marketMakerOrderHold ''o1'' ''USDT'' AMT),
      (''marketMakerOrderHoldRelease'', marketMakerOrderHoldRelease ''o1'' ''USDT'' AMT None),
      (''marketMakerMakerFill'', marketMakerMakerFill ''f1'' U_SAMPLE ''mo'' ''to'' ''BTC'' ''USDT'' AMT QUOTE Buy (JSInt 0) (JSInt 0)),
      (''futuresMarginLock'', futuresMarginLock ''pos1'' U_SAMPLE ''USDT'' AMT None),
      (''futuresMarginAdd'', futuresMarginAdd ''pos1'' U_SAMPLE ''USDT'' AMT None (JSInt 1)),
      (''futuresMarginRelease'', futuresMarginRelease ''pos1'' U_SAMPLE ''USDT'' AMT None None None),
      (''futuresMarginRelease'', futuresMarginRelease ''pos1'' U_SAMPLE ''USDT'' AMT None None (Some AMT)),
      (''futuresMarginRelease'', futuresMarginRelease ''pos1'' U_SAMPLE ''USDT'' 0 None None (Some AMT)),
      (''futuresOrderMarginHold'', futuresOrderMarginHold ''o1'' U_SAMPLE ''USDT'' AMT None),
      (''futuresOrderMarginRelease'', futuresOrderMarginRelease ''o1'' U_SAMPLE ''USDT'' AMT None None),
      (''futuresOrderMarginApply'', futuresOrderMarginApply ''o1'' U_SAMPLE ''USDT'' ''pos1'' ''m1:1:pos1'' AMT None None None),
      (''futuresOrderMarginApply'', futuresOrderMarginApply ''o1'' U_SAMPLE ''USDT'' ''pos1'' ''m1:1:pos1'' AMT (Some AMT) None None),
      (''futuresOrderMarginApply'', futuresOrderMarginApply ''o1'' U_SAMPLE ''USDT'' ''pos1'' ''m1:1:pos1'' AMT None (Some AMT) None),
      (''futuresOrderMarginApply'', futuresOrderMarginApply ''o1'' U_SAMPLE ''USDT'' ''pos1'' ''m1:1:pos1'' AMT (Some AMT) (Some AMT) None),
      (''futuresRealizeLoss'', futuresRealizeLoss ''pos1'' U_SAMPLE ''USDT'' AMT 0 ''l1'' None None),
      (''futuresRealizeLoss'', futuresRealizeLoss ''pos1'' U_SAMPLE ''USDT'' 0 AMT ''l2'' None None),
      (''futuresRealizeProfit'', futuresRealizeProfit ''pos1'' U_SAMPLE ''USDT'' AMT ''pr1''),
      (''futuresFundingPay'', futuresFundingPay ''fund1'' U_SAMPLE ''p1'' U2_SAMPLE ''p2'' ''USDT'' AMT),
      (''futuresInsuranceTopup'', futuresInsuranceTopup ''tu1'' ''USDT'' AMT),
      (''escrowLock'', escrowLock ''t1'' U_SAMPLE U2_SAMPLE ''USDT'' AMT),
      (''escrowRelease'', escrowRelease ''t1'' U_SAMPLE U2_SAMPLE ''USDT'' AMT (Some (JSInt 0)) None),
      (''escrowRelease'', escrowRelease ''t1'' U_SAMPLE U2_SAMPLE ''USDT'' AMT (Some (JSInt 50)) None),
      (''escrowRefund'', escrowRefund ''t1'' U_SAMPLE U2_SAMPLE ''USDT'' AMT None None),
      (''paymentCapture'', paymentCapture ''p1'' ''m1'' ''USDT'' AMT ''card-sandbox'' ''r1''),
      (''merchantSettlement'', merchantSettlement ''m1'' U_SAMPLE ''2026-07-27'' ''USDT'' QUOTE 0),
      (''merchantSettlement'', merchantSettlement ''m1'' U_SAMPLE ''2026-07-27'' ''USDT'' QUOTE AMT),
      (''paymentRefund'', paymentRefund ''rf1'' ''p1'' ''m1'' U_SAMPLE ''USDT'' AMT ''card-sandbox'' Clearing None),
      (''paymentRefund'', paymentRefund ''rf1'' ''p1'' ''m1'' U_SAMPLE ''USDT'' AMT ''card-sandbox'' Settled None),
      (''paymentRefund'', paymentRefund ''rf1'' ''p1'' ''m1'' U_SAMPLE ''USDT'' AMT ''card-sandbox'' Settled (Some UserPot)),
      (''paymentRefundReverse'', paymentRefundReverse ''rf1'' ''p1'' ''m1'' U_SAMPLE ''USDT'' AMT ''card-sandbox'' Clearing None),
      (''paymentRefundReverse'', paymentRefundReverse ''rf1'' ''p1'' ''m1'' U_SAMPLE ''USDT'' AMT ''card-sandbox'' Settled None),
      (''paymentRefundReverse'', paymentRefundReverse ''rf1'' ''p1'' ''m1'' U_SAMPLE ''USDT'' AMT ''card-sandbox'' Settled (Some UserPot)),
      (''merchantProceedsPayoutHold'', merchantProceedsPayoutHold_recipe ''m1'' ''USDT'' AMT ''crypto-native'' ''w1''),
      (''merchantProceedsPayoutSettle'', merchantProceedsPayoutSettle ''m1'' ''USDT'' AMT ''crypto-native'' ''w1''),
      (''merchantProceedsPayoutReverse'', merchantProceedsPayoutReverse ''m1'' ''USDT'' AMT ''crypto-native'' ''w1''),
      (''fxConversion'', fxConversion ''cv1'' ''m1'' U_SAMPLE ''binance-spot'' ''USD'' ''USDT'' AMT AMT AMT AMT),
      (''fxConversion'', fxConversion ''cv1f'' ''m1'' U_SAMPLE ''binance-spot'' ''USD'' ''USDT'' AMT AMT AMT 0),
      (''fxConversion'', fxConversion ''cv1s'' ''m1'' U_SAMPLE ''binance-spot'' ''USD'' ''USDT'' AMT AMT 0 AMT),
      (''fxConversion'', fxConversion ''cv1z'' ''m1'' U_SAMPLE ''binance-spot'' ''USD'' ''USDT'' AMT AMT 0 0),
      (''fxConversionReverse'', fxConversionReverse ''cv1'' ''m1'' U_SAMPLE ''binance-spot'' ''USD'' ''USDT'' AMT AMT AMT AMT),
      (''fxConversionReverse'', fxConversionReverse ''cv1f'' ''m1'' U_SAMPLE ''binance-spot'' ''USD'' ''USDT'' AMT AMT AMT 0),
      (''fxConversionReverse'', fxConversionReverse ''cv1s'' ''m1'' U_SAMPLE ''binance-spot'' ''USD'' ''USDT'' AMT AMT 0 AMT),
      (''fxConversionReverse'', fxConversionReverse ''cv1z'' ''m1'' U_SAMPLE ''binance-spot'' ''USD'' ''USDT'' AMT AMT 0 0),
      (''fxConversionHold'', fxConversionHold ''cv-hold'' ''m1'' ''USD'' AMT),
      (''fxConversionRelease'', fxConversionRelease ''cv-hold'' ''m1'' ''USD'' AMT None),
      (''fxConversionRelease'', fxConversionRelease ''cv-rem'' ''m1'' ''USD'' AMT (Some (JSInt 1))),
      (''fxConversionLateFill'', fxConversionLateFill ''cv-late'' ''m1'' U_SAMPLE ''binance-spot'' ''USD'' ''USDT'' AMT AMT AMT AMT ''audit-m'' FundMerchant),
      (''fxConversionLateFill'', fxConversionLateFill ''cv-late-f'' ''m1'' U_SAMPLE ''binance-spot'' ''USD'' ''USDT'' AMT AMT AMT 0 ''audit-mf'' FundMerchant),
      (''fxConversionLateFill'', fxConversionLateFill ''cv-late-s'' ''m1'' U_SAMPLE ''binance-spot'' ''USD'' ''USDT'' AMT AMT 0 AMT ''audit-ms'' FundMerchant),
      (''fxConversionLateFill'', fxConversionLateFill ''cv-late-z'' ''m1'' U_SAMPLE ''binance-spot'' ''USD'' ''USDT'' AMT AMT 0 0 ''audit-mz'' FundMerchant),
      (''fxConversionLateFill'', fxConversionLateFill ''cv-late-i'' ''m1'' U_SAMPLE ''binance-spot'' ''USD'' ''USDT'' AMT AMT AMT AMT ''audit-i'' FundInventory),
      (''fxConversionLateFill'', fxConversionLateFill ''cv-late-if'' ''m1'' U_SAMPLE ''binance-spot'' ''USD'' ''USDT'' AMT AMT AMT 0 ''audit-if'' FundInventory),
      (''fxConversionLateFill'', fxConversionLateFill ''cv-late-is'' ''m1'' U_SAMPLE ''binance-spot'' ''USD'' ''USDT'' AMT AMT 0 AMT ''audit-is'' FundInventory),
      (''fxConversionLateFill'', fxConversionLateFill ''cv-late-iz'' ''m1'' U_SAMPLE ''binance-spot'' ''USD'' ''USDT'' AMT AMT 0 0 ''audit-iz'' FundInventory),
      (''chargebackOpen'', chargebackOpen ''d1'' ''p1'' ''m1'' U_SAMPLE ''USDT'' ''card-sandbox'' AMT 0 None),
      (''chargebackOpen'', chargebackOpen ''d1'' ''p1'' ''m1'' U_SAMPLE ''USDT'' ''card-sandbox'' 0 AMT (Some UserPot)),
      (''chargebackOpen'', chargebackOpen ''d1'' ''p1'' ''m1'' U_SAMPLE ''USDT'' ''card-sandbox'' 0 AMT None),
      (''chargebackShortfall'', chargebackShortfall ''d1'' ''p1'' ''m1'' ''USDT'' ''card-sandbox'' AMT),
      (''chargebackWon'', chargebackWon ''d1'' ''p1'' ''m1'' U_SAMPLE ''USDT'' ''card-sandbox'' AMT 0 None),
      (''chargebackShortfallRecovered'', chargebackShortfallRecovered ''d1'' ''p1'' ''m1'' ''USDT'' ''card-sandbox'' AMT),
      (''stake'', stake ''s1'' U_SAMPLE ''IFC'' AMT Flex),
      (''unstake'', unstake ''s1'' U_SAMPLE ''IFC'' AMT Flex),
      (''mintEmission'', mintEmission (JSInt 1) ''IFC'' AMT (userAvailable U_SAMPLE ''IFC'')),
      (''burn'', burn ''b1'' ''IFC'' AMT (userAvailable U_SAMPLE ''IFC'')),
      (''feeCharge'', feeCharge ''c1'' U_SAMPLE ''trade'' None (AssetFee ''USDT'' AMT)),
      (''sweepFeesToRewards'', sweepFeesToRewards ''w1'' ''trade'' ''USDT'' AMT),
      (''rewardPay'', rewardPay ''rw1'' U_SAMPLE ''USDT'' AMT ''token.yield.distributed''),
      (''loanCollateralLock'', loanCollateralLock ''ln1'' U_SAMPLE ''BTC'' AMT (JSInt 0)),
      (''loanCollateralRelease'', loanCollateralRelease ''ln1'' U_SAMPLE ''BTC'' AMT (JSInt 0)),
      (''loanDraw'', loanDraw ''ln1'' U_SAMPLE ''USDT'' AMT),
      (''loanRepay'', loanRepay ''ln1'' U_SAMPLE ''USDT'' AMT 0 (JSInt 1)),
      (''loanRepay'', loanRepay ''ln1'' U_SAMPLE ''USDT'' AMT AMT (JSInt 1)),
      (''loanLiquidate'', loanLiquidate ''ln1'' U_SAMPLE (JSInt 0) ''BTC'' AMT ''USDT'' QUOTE QUOTE 0 0 0 (userAvailable U2_SAMPLE ''BTC'') (userAvailable U2_SAMPLE ''USDT'') QUOTE),
      (''loanBadDebt'', loanBadDebt ''ln1'' ''USDT'' AMT),
      (''loanReserveFund'', loanReserveFund ''f1'' ''USDT'' AMT None),
      (''bankTransfer'', bankTransfer ''tr1'' (JSInt 0) (userAvailable U_SAMPLE ''USDT'') (userAvailable U2_SAMPLE ''USDT'') AMT Manual None),
      (''bankTransfer'', bankTransfer ''tr1'' (JSInt 1) (userAvailable U_SAMPLE ''USDT'') (userAvailable U2_SAMPLE ''USDT'') AMT Scheduled None),
      (''earnDeposit'', earnDeposit ''ep1'' ''pool1'' U_SAMPLE ''USDT'' AMT),
      (''earnWithdraw'', earnWithdraw ''ep1'' ''pool1'' U_SAMPLE ''USDT'' AMT),
      (''earnPoolFund'', earnPoolFund ''pool1'' ''f1'' ''USDT'' AMT None),
      (''earnInterest'', earnInterest ''pool1'' ''2026-07-27'' ''USDT'' [(U_SAMPLE, AMT)]),
      (''businessApprovalHold'', businessApprovalHold ''ap1'' (userAvailable U_SAMPLE ''USDT'') AMT),
      (''businessApprovalRelease'', businessApprovalRelease ''ap1'' (userAvailable U_SAMPLE ''USDT'') AMT),
      (''businessApprovalSettle'', businessApprovalSettle ''ap1'' (userAvailable U_SAMPLE ''USDT'') (userAvailable U2_SAMPLE ''USDT'') AMT),
      (''businessPayroll'', businessPayroll ''pr1'' (userAvailable U_SAMPLE ''USDT'') [(userAvailable U2_SAMPLE ''USDT'', AMT)]),
      (''subAccountTransfer'', subAccountTransfer ''st1'' S1_SAMPLE S2_SAMPLE ''USDT'' AMT),
      (''payReceivedHold'', payReceivedHold ''rh1'' U_SAMPLE ''USDT'' AMT),
      (''payReceivedRelease'', payReceivedRelease ''rh1'' U_SAMPLE ''USDT'' AMT AMT),
      (''payReceivedReturn'', payReceivedReturn ''rh1'' U_SAMPLE ''USDT'' AMT AMT U2_SAMPLE),
      (''bankTransferReversal'', bankTransferReversal KsP2p ''tr1'' (JSInt 0) ''c1'' (userAvailable U_SAMPLE ''USDT'') (userAvailable U2_SAMPLE ''USDT'') AMT AMT),
      (''marketPurchase'', marketPurchase ''mp1'' ''l1'' U_SAMPLE U2_SAMPLE ''USDT'' QUOTE (JSInt 0)),
      (''marketListingFee'', marketListingFee ''l1'' U_SAMPLE ''USDT'' AMT),
      (''marketPremiumPlacement'', marketPremiumPlacement ''pl1'' ''l1'' U_SAMPLE ''USDT'' AMT)]"

definition shape_samples :: "sample list" where
  "shape_samples =
     [
      (''tradeFill'', tradeFill ''f1'' U2_SAMPLE U_SAMPLE ''mo'' ''to'' ''BTC'' ''USDT'' AMT QUOTE Buy (JSInt 10) (JSInt 0)),
      (''tradeFill'', tradeFill ''f1'' U2_SAMPLE U_SAMPLE ''mo'' ''to'' ''BTC'' ''USDT'' AMT QUOTE Buy (JSInt 0) (JSInt 10)),
      (''marketMakerMakerFill'', marketMakerMakerFill ''f1'' U_SAMPLE ''mo'' ''to'' ''BTC'' ''USDT'' AMT QUOTE Buy (JSInt 10) (JSInt 0)),
      (''marketMakerMakerFill'', marketMakerMakerFill ''f1'' U_SAMPLE ''mo'' ''to'' ''BTC'' ''USDT'' AMT QUOTE Buy (JSInt 0) (JSInt 10)),
      (''marketMakerMakerFill'', marketMakerMakerFill ''f1'' U_SAMPLE ''mo'' ''to'' ''BTC'' ''USDT'' AMT QUOTE Buy (JSInt 10) (JSInt 10)),
      (''marketPurchase'', marketPurchase ''mp2'' ''l1'' U_SAMPLE U2_SAMPLE ''USDT'' QUOTE (JSInt 10)),
      (''loanRepay'', loanRepay ''ln1'' U_SAMPLE ''USDT'' 0 AMT (JSInt 1)),
      (''mintEmission'', mintEmission (JSInt 2) ''IFC'' AMT (rewardsEngine ''IFC'')),
      (''burn'', burn ''b2'' ''IFC'' AMT (rewardsEngine ''IFC'')),
      (''futuresRealizeLoss'', futuresRealizeLoss ''pos1'' U_SAMPLE ''USDT'' AMT AMT ''l-both'' None None),
      (''tradeFillFeeCorrection'', tradeFillFeeCorrection ''f-corr'' ''c1'' U_SAMPLE ''USDT'' AMT),
      (''deposit'', deposit U_SAMPLE ''USDT'' AMT ''crypto-native'' ''tx-sub'' (Some S1_SAMPLE) (Some True)),
      (''depositReverse'', depositReverse U_SAMPLE ''USDT'' AMT ''crypto-native'' ''tx-sub'' (Some S1_SAMPLE) (Some True) ''dep-sub''),
      (''futuresMarginLock'', futuresMarginLock ''pos-sub'' U_SAMPLE ''USDT'' AMT (Some S1_SAMPLE)),
      (''futuresMarginAdd'', futuresMarginAdd ''pos-sub'' U_SAMPLE ''USDT'' AMT (Some S1_SAMPLE) (JSInt 1)),
      (''futuresMarginRelease'', futuresMarginRelease ''pos-sub'' U_SAMPLE ''USDT'' AMT (Some S1_SAMPLE) None None),
      (''futuresMarginRelease'', futuresMarginRelease ''pos-sub'' U_SAMPLE ''USDT'' AMT (Some S1_SAMPLE) None (Some AMT)),
      (''futuresMarginRelease'', futuresMarginRelease ''pos-sub'' U_SAMPLE ''USDT'' 0 (Some S1_SAMPLE) None (Some AMT)),
      (''futuresOrderMarginHold'', futuresOrderMarginHold ''o-sub'' U_SAMPLE ''USDT'' AMT (Some S1_SAMPLE)),
      (''futuresOrderMarginRelease'', futuresOrderMarginRelease ''o-sub'' U_SAMPLE ''USDT'' AMT (Some S1_SAMPLE) None),
      (''futuresOrderMarginApply'', futuresOrderMarginApply ''o-sub'' U_SAMPLE ''USDT'' ''pos-sub'' ''m1:1:pos-sub'' AMT None None (Some S1_SAMPLE)),
      (''futuresOrderMarginApply'', futuresOrderMarginApply ''o-sub'' U_SAMPLE ''USDT'' ''pos-sub'' ''m1:1:pos-sub'' AMT (Some AMT) None (Some S1_SAMPLE)),
      (''futuresOrderMarginApply'', futuresOrderMarginApply ''o-sub'' U_SAMPLE ''USDT'' ''pos-sub'' ''m1:1:pos-sub'' AMT None (Some AMT) (Some S1_SAMPLE)),
      (''futuresOrderMarginApply'', futuresOrderMarginApply ''o-sub'' U_SAMPLE ''USDT'' ''pos-sub'' ''m1:1:pos-sub'' AMT (Some AMT) (Some AMT) (Some S1_SAMPLE)),
      (''futuresRealizeLoss'', futuresRealizeLoss ''pos-sub'' U_SAMPLE ''USDT'' AMT 0 ''l-sub'' (Some S1_SAMPLE) None),
      (''loanReserveFund'', loanReserveFund ''f-user'' ''USDT'' AMT (Some (userAvailable U_SAMPLE ''USDT''))),
      (''earnPoolFund'', earnPoolFund ''pool1'' ''f-user'' ''USDT'' AMT (Some (userAvailable U_SAMPLE ''USDT''))),
      (''earnInterest'', earnInterest ''pool1'' ''2026-07-27'' ''USDT'' [(U_SAMPLE, AMT), (U2_SAMPLE, AMT)]),
      (''chargebackOpen'', chargebackOpen ''d1'' ''p1'' ''m1'' U_SAMPLE ''USDT'' ''card-sandbox'' AMT AMT None),
      (''chargebackWon'', chargebackWon ''d1'' ''p1'' ''m1'' U_SAMPLE ''USDT'' ''card-sandbox'' 0 AMT None),
      (''chargebackWon'', chargebackWon ''d1'' ''p1'' ''m1'' U_SAMPLE ''USDT'' ''card-sandbox'' AMT AMT None),
      (''chargebackWon'', chargebackWon ''d1'' ''p1'' ''m1'' U_SAMPLE ''USDT'' ''card-sandbox'' 0 AMT (Some UserPot))]"

definition transfer_samples :: "sample list" where
  "transfer_samples =
     (let userFrom = userAvailable U_SAMPLE ''USDT''; userTo = userAvailable U2_SAMPLE ''USDT'';
          subFrom = subAccountAvailable S1_SAMPLE ''USDT''; subTo = subAccountAvailable S2_SAMPLE ''USDT'';
          railTo = railBoundary ''bank-rail'' ''USDT''
      in concat (map (\<lambda>(knd, occurrence). concat (map (\<lambda>frm. map (\<lambda>to.
              (''bankTransfer'', bankTransfer ''tr-shape'' occurrence frm to AMT knd None)) [userTo, subTo]) [userFrom, subFrom]))
            [(Manual, JSInt 0), (Scheduled, JSInt 1)])
         @ concat (map (\<lambda>space.
              [(''bankTransfer'', bankTransfer ''tr-rail'' (JSInt 0) space railTo AMT Manual (Some KsRail)),
               (''bankTransfer'', bankTransfer ''tr-rail'' (JSInt 1) railTo space AMT Manual (Some KsRail))]) [userFrom, subFrom]))"

definition business_samples :: "sample list" where
  "business_samples =
     (let userFrom = userAvailable U_SAMPLE ''USDT''; userTo = userAvailable U2_SAMPLE ''USDT''; userTo2 = userAvailable U3_SAMPLE ''USDT'';
          subFrom = subAccountAvailable S1_SAMPLE ''USDT''; subTo = subAccountAvailable S2_SAMPLE ''USDT''; subTo2 = subAccountAvailable S3_SAMPLE ''USDT'';
          payroll = (\<lambda>frm recipients. (''businessPayroll'', businessPayroll ''pr-shape'' frm (map (\<lambda>to. (to, AMT)) recipients)))
      in concat (map (\<lambda>frm.
              [(''businessApprovalHold'', businessApprovalHold ''ap-shape'' frm AMT),
               (''businessApprovalRelease'', businessApprovalRelease ''ap-shape'' frm AMT)]
              @ map (\<lambda>to. (''businessApprovalSettle'', businessApprovalSettle ''ap-shape'' frm to AMT)) [userTo, subTo]) [userFrom, subFrom])
         @ concat (map (\<lambda>frm. [payroll frm [userTo], payroll frm [userTo, userTo2], payroll frm [subTo], payroll frm [subTo, subTo2]])
            [userFrom, subFrom]))"

definition liquidate_samples :: "sample list" where
  "liquidate_samples =
     concat (map (\<lambda>(collateralTo, proceedsFrom). concat (map (\<lambda>princ. concat (map (\<lambda>house. concat (map (\<lambda>surplus.
       if \<not> princ \<and> \<not> house \<and> \<not> surplus then []
       else let p = (if princ then AMT else 0); i = (if house then AMT else 0); s = (if surplus then AMT else 0)
            in [(''loanLiquidate'', loanLiquidate ''ln1'' U_SAMPLE (JSInt 0) ''BTC'' AMT ''USDT'' (p + i + s) p i 0 s collateralTo proceedsFrom QUOTE)])
         [False, True])) [False, True])) [False, True]))
       [(userAvailable U2_SAMPLE ''BTC'', userAvailable U2_SAMPLE ''USDT''), (marketMaker ''BTC'', marketMaker ''USDT'')])"

definition extraShapePosts :: "sample list" where
  "extraShapePosts = shape_samples @ transfer_samples @ business_samples @ liquidate_samples"

definition sample_specs :: "sample list" where
  "sample_specs = base_samples @ extraShapePosts"

text \<open>The samples are made when the service starts; a recipe that throws stops it.\<close>

definition samplePosts :: "ledger_error + (string \<times> post_request) list" where
  "samplePosts = mapE (\<lambda>(name, r). bindE r (\<lambda>post. Inr (name, post))) sample_specs"

section \<open>The catalogue\<close>

record repeat_rule =
  rr_prefix :: "string list"
  rr_tokens :: "string list"
  rr_minTail :: nat

record catalog_row =
  cat_name :: string
  cat_minLegs :: nat
  cat_signatures :: "string list"
  cat_repeats :: "repeat_rule list"

text \<open>A row while samples are collected: the legs instead of the rules.\<close>

record catalog_group =
  grp_name :: string
  grp_minLegs :: nat
  grp_signatures :: "string list"
  grp_legs :: "string list list"

definition tail_run :: "string list \<Rightarrow> nat" where
  "tail_run legs = length (takeWhile (\<lambda>s. s = last legs) (rev legs))"

definition grows :: "string list list \<Rightarrow> string list \<Rightarrow> string list \<Rightarrow> string \<Rightarrow> bool" where
  "grows samples shorter pre token =
     list_ex (\<lambda>longer. length shorter < length longer \<and> take (length pre) longer = pre \<and> list_all (\<lambda>s. s = token) (drop (length pre) longer)) samples"

definition repeat_step :: "string list list \<Rightarrow> (string \<times> repeat_rule) list \<Rightarrow> string list \<Rightarrow> (string \<times> repeat_rule) list" where
  "repeat_step samples byPrefix shorter =
     (if length shorter < 2 \<or> last shorter = [] then byPrefix
      else let token = last shorter; run = tail_run shorter; pre = take (length shorter - run) shorter in
        if pre = [] \<or> \<not> grows samples shorter pre token then byPrefix
        else let key = js_join '';'' pre in
          case map_of byPrefix key of
            Some rule \<Rightarrow> AList.update key (rule\<lparr>rr_tokens := List.insert token (rr_tokens rule), rr_minTail := min (rr_minTail rule) run\<rparr>) byPrefix
          | None \<Rightarrow> AList.update key \<lparr>rr_prefix = pre, rr_tokens = [token], rr_minTail = run\<rparr> byPrefix)"

definition deriveRepeatRules :: "string list list \<Rightarrow> repeat_rule list" where
  "deriveRepeatRules samples = map snd (foldl (repeat_step samples) [] samples)"

definition matchesRepeat :: "repeat_rule list \<Rightarrow> string list \<Rightarrow> bool" where
  "matchesRepeat rules sigs =
     list_ex (\<lambda>rule. length (rr_prefix rule) + rr_minTail rule \<le> length sigs \<and> take (length (rr_prefix rule)) sigs = rr_prefix rule
        \<and> list_all (\<lambda>s. s \<in> set (rr_tokens rule)) (drop (length (rr_prefix rule)) sigs)) rules"

definition catalog_key :: "post_request \<Rightarrow> string" where
  "catalog_key post = req_module post @ ''::'' @ req_reason post"

definition post_legs :: "post_request \<Rightarrow> string list" where
  "post_legs post = map legSignature (req_entries post)"

fun group_sample :: "(string \<times> catalog_group) list \<Rightarrow> string \<times> post_request \<Rightarrow> ledger_error + (string \<times> catalog_group) list" where
  "group_sample grouped (name, post) =
     (if name \<in> set VARIABLE_REASON_RECIPES then Inr grouped
      else let key = catalog_key post; legs = post_legs post in
        case map_of grouped key of
          None \<Rightarrow> Inr (AList.update key \<lparr>grp_name = name, grp_minLegs = length legs, grp_signatures = [js_join '';'' legs], grp_legs = [legs]\<rparr> grouped)
        | Some row \<Rightarrow>
            if grp_name row \<noteq> name then Inl PlainError
            else Inr (AList.update key (row\<lparr>grp_minLegs := min (grp_minLegs row) (length legs),
              grp_signatures := List.insert (js_join '';'' legs) (grp_signatures row), grp_legs := grp_legs row @ [legs]\<rparr>) grouped))"

fun group_samples :: "(string \<times> catalog_group) list \<Rightarrow> (string \<times> post_request) list \<Rightarrow> ledger_error + (string \<times> catalog_group) list" where
  "group_samples grouped [] = Inr grouped"
| "group_samples grouped (x # xs) = bindE (group_sample grouped x) (\<lambda>g. group_samples g xs)"

definition catalog_of :: "catalog_group \<Rightarrow> catalog_row" where
  "catalog_of row = \<lparr>cat_name = grp_name row, cat_minLegs = grp_minLegs row, cat_signatures = grp_signatures row,
     cat_repeats = deriveRepeatRules (grp_legs row)\<rparr>"

definition buildCatalog :: "ledger_error + (string \<times> catalog_row) list" where
  "buildCatalog = bindE samplePosts (\<lambda>samples. bindE (group_samples [] samples) (\<lambda>grouped.
     Inr (map (\<lambda>(key, row). (key, catalog_of row)) grouped)))"

definition RECIPE_CATALOG :: "(string \<times> catalog_row) list" where
  "RECIPE_CATALOG = (case buildCatalog of Inr c \<Rightarrow> c | Inl _ \<Rightarrow> [])"

definition catalogRecipe :: "post_request \<Rightarrow> string option" where
  "catalogRecipe input =
     (case map_of RECIPE_CATALOG (catalog_key input) of
        None \<Rightarrow> None
      | Some spec \<Rightarrow>
          if length (req_entries input) < cat_minLegs spec then None
          else let sigs = post_legs input in
            if js_join '';'' sigs \<in> set (cat_signatures spec) then Some (cat_name spec)
            else if matchesRepeat (cat_repeats spec) sigs then Some (cat_name spec)
            else None)"

definition recipeCandidates :: "post_request \<Rightarrow> string list" where
  "recipeCandidates input =
     (let found = (if matchesFeeCharge input then [''feeCharge''] else [])
        @ (if matchesRewardPay input then [''rewardPay''] else [])
        @ (if matchesFeeSweep input then [''sweepFeesToRewards''] else [])
      in case catalogRecipe input of
           Some name \<Rightarrow> if name \<in> set found then found else found @ [name]
         | None \<Rightarrow> found)"

definition assertKnownRecipePost :: "post_request \<Rightarrow> ledger_error + unit" where
  "assertKnownRecipePost input = (if recipeCandidates input \<noteq> [] then Inr () else Inl (LedgerError RECIPE_REQUIRED_CODE))"

end
