(* ===== verification/Gate_Props.thy ===== *)
theory Gate_Props
  imports Recipe_Gate
begin

text \<open>
  Signatures of the accounts that recipes use, as the recipe gate reads them: the named accounts, claims stamped with a
  literal prefix, and the boundaries and module pots of an instance whose id is plain.
\<close>

section \<open>Signatures of the accounts of recipes\<close>

lemma hd_segs: "hd (segs s) = takeWhile (\<lambda>c. c \<noteq> CHR '':'') s"
proof (induction s)
  case (Cons c s)
  then show ?case by (cases "segs s") auto
qed simp

lemma purposeHead_simps [simp]:
  "purposeHead None = []" "purposeHead (Some p) = takeWhile (\<lambda>c. c \<noteq> CHR '':'') p"
  by (simp_all add: purposeHead_def hd_segs)

text \<open>Trimming keeps the literal prefix of a purpose.\<close>

definition rtrim :: "string \<Rightarrow> string" where
  "rtrim s = rev (dropWhile js_ws (rev s))"

lemma js_trim_rtrim: "\<not> js_ws c \<Longrightarrow> js_trim (c # s) = rtrim (c # s)"
  by (simp add: js_trim_def rtrim_def)

lemma rtrim_Cons: "\<not> js_ws c \<Longrightarrow> rtrim (c # s) = c # rtrim s"
proof (cases "\<forall>x \<in> set (rev s). js_ws x")
  case True
  assume "\<not> js_ws c"
  moreover have "dropWhile js_ws (rev s) = []" using True by (simp add: dropWhile_eq_Nil_all)
  ultimately show ?thesis using True by (simp add: rtrim_def dropWhile_append3)
next
  case False
  then show ?thesis by (auto simp: rtrim_def dropWhile_append1)
qed

text \<open>Owner ids as the gate reads them: no segment is empty, and a module's has at most three.\<close>

definition plain_owner :: "account_ref \<Rightarrow> bool" where
  "plain_owner a \<longleftrightarrow> ownerType a = User \<or> ownerType a = Subaccount
     \<or> [] \<notin> set (segs (ownerId a)) \<and> (ownerType a = Treasury \<or> length (segs (ownerId a)) \<le> 3)"

definition gate_plain :: "post_request \<Rightarrow> bool" where
  "gate_plain q \<longleftrightarrow> (\<forall>e \<in> set (req_entries q). plain_owner (entry_account e))"

lemma accountRole_user [simp]: "accountRole (mk_ref User i a k p) = []" "accountRole (mk_ref Subaccount i a k p) = []"
  by (simp_all add: accountRole_def)

lemma accountRole_treasury:
  assumes "plain_owner (mk_ref Treasury (h @ CHR '':'' # i) a k p)" "CHR '':'' \<notin> set h"
  shows "accountRole (mk_ref Treasury (h @ CHR '':'' # i) a k p) = h @ '':*''"
proof -
  have "segs (h @ CHR '':'' # i) = segs h @ segs i" by (rule segs_append_colon)
  moreover have "hd (segs h) = h" using assms(2) by (auto simp: hd_segs takeWhile_eq_all_conv)
  moreover have "2 \<le> length (segs h @ segs i)" by (cases "segs h"; cases "segs i") auto
  ultimately show ?thesis
    using assms(1) by (auto simp: accountRole_def plain_owner_def list_ex_iff Let_def hd_append)
qed

lemma js_join_colon: "js_join '':'' xs = join_colon xs"
  by (induction xs rule: join_colon.induct) auto

lemma accountRole_instance:
  assumes "plain_owner (mk_ref t (h @ CHR '':'' # i) a k p)" "t = Module \<or> t = House" "length (segs h) = 2"
  shows "accountRole (mk_ref t (h @ CHR '':'' # i) a k p) = h @ '':*''"
proof -
  have s: "segs (h @ CHR '':'' # i) = segs h @ segs i" by (rule segs_append_colon)
  then have "length (segs i) = 1" using assms by (cases "segs i") (auto simp: plain_owner_def)
  then have "butlast (segs h @ segs i) = segs h" by (cases "segs i") (auto simp: butlast_append)
  moreover have "length (segs h @ segs i) = 3" using assms(3) \<open>length (segs i) = 1\<close> by simp
  ultimately show ?thesis
    using assms(1,2) s by (auto simp: accountRole_def plain_owner_def list_ex_iff Let_def js_join_colon join_segs)
qed

section \<open>Legs of the named accounts\<close>

definition account_sig :: "account_ref \<Rightarrow> string \<Rightarrow> string" where
  "account_sig a d = owner_type_name (ownerType a) @ ''|'' @ kind_name (kind a) @ ''|'' @ d @ ''|'' @ purposeHead (purpose a) @ ''|'' @ accountRole a"

named_theorems gate_sig \<open>signatures of the legs that recipes build\<close>

lemma leg_sig [gate_sig]:
  "legSignature (credit a v) = account_sig a ''credit''" "legSignature (debit a v) = account_sig a ''debit''"
  by (simp_all add: legSignature_def account_sig_def Let_def)

lemma sig_parties [gate_sig]:
  "account_sig (userAvailable u a) d = ''user|available|'' @ d @ ''||''"
  "account_sig (subAccountAvailable s a) d = ''subaccount|available|'' @ d @ ''||''"
  by (simp_all add: account_sig_def userAvailable_def subAccountAvailable_def)

text \<open>A claim stamped with a literal prefix.\<close>

lemma sig_claim:
  assumes "p \<noteq> []" "\<forall>c \<in> set p. \<not> js_ws c \<and> c \<noteq> CHR '':''" "t = User \<or> t = Subaccount"
  shows "account_sig (mk_ref t i a k (Some (js_trim (p @ CHR '':'' # x)))) d = owner_type_name t @ ''|'' @ kind_name k @ ''|'' @ d @ ''|'' @ p @ ''|''"
proof -
  have ws: "\<not> js_ws (CHR '':'')" by (simp add: js_ws_def)
  have r: "rtrim (q @ CHR '':'' # x) = q @ CHR '':'' # rtrim x" if "\<forall>c \<in> set q. \<not> js_ws c" for q
    using that by (induction q) (simp_all add: rtrim_Cons ws)
  obtain c q where p: "p = c # q" using assms(1) by (cases p) simp
  have "\<not> js_ws c" "\<forall>c \<in> set p. \<not> js_ws c" using assms(2) by (simp_all add: p)
  then have "js_trim (p @ CHR '':'' # x) = p @ CHR '':'' # rtrim x"
    using r [of p] js_trim_rtrim [of c "q @ CHR '':'' # x"] by (simp add: p)
  moreover have "takeWhile (\<lambda>c. c \<noteq> CHR '':'') (p @ CHR '':'' # rtrim x) = p"
    using assms(2) by (simp add: takeWhile_append)
  ultimately show ?thesis using assms(3) by (auto simp: account_sig_def)
qed

lemma house_roles [simp]:
  "accountRole (mk_ref House ''insurance-fund'' a k p) = ''insurance-fund''" "accountRole (mk_ref House ''futures-loss'' a k p) = ''futures-loss''"
  "accountRole (mk_ref House ''rewards-engine'' a k p) = ''rewards-engine''" "accountRole (mk_ref House ''burn'' a k p) = ''burn''"
  "accountRole (mk_ref House ''market-maker'' a k p) = ''market-maker''" "accountRole (mk_ref Treasury ''mint'' a k p) = ''mint''"
  "accountRole (mk_ref House ''fees:trade'' a k p) = ''fees:trade''" "accountRole (mk_ref House ''fees:bank'' a k p) = ''fees:bank''"
  "accountRole (mk_ref House ''fees:pay'' a k p) = ''fees:pay''" "accountRole (mk_ref House ''fees:p2p'' a k p) = ''fees:p2p''"
  "accountRole (mk_ref House ''fees:market'' a k p) = ''fees:market''" "accountRole (mk_ref Module ''bank:loan-reserve'' a k p) = ''bank:loan-reserve''"
  "accountRole (mk_ref Treasury ''pay:fx-inventory'' a k p) = ''pay:*''"
  by (simp_all add: accountRole_def)

lemma sig_claims:
  fixes i a x d :: string
  assumes "t = User \<or> t = Subaccount"
  shows
    "account_sig (mk_ref t i a k (Some (js_trim (''order:'' @ x)))) d = owner_type_name t @ ''|'' @ kind_name k @ ''|'' @ d @ ''|order|''"
    "account_sig (mk_ref t i a k (Some (js_trim (''withdraw:'' @ x)))) d = owner_type_name t @ ''|'' @ kind_name k @ ''|'' @ d @ ''|withdraw|''"
    "account_sig (mk_ref t i a k (Some (js_trim (''trade:'' @ x)))) d = owner_type_name t @ ''|'' @ kind_name k @ ''|'' @ d @ ''|trade|''"
    "account_sig (mk_ref t i a k (Some (js_trim (''token:'' @ x)))) d = owner_type_name t @ ''|'' @ kind_name k @ ''|'' @ d @ ''|token|''"
    "account_sig (mk_ref t i a k (Some (js_trim (''bank:'' @ x)))) d = owner_type_name t @ ''|'' @ kind_name k @ ''|'' @ d @ ''|bank|''"
    "account_sig (mk_ref t i a k (Some (js_trim (''loan:'' @ x)))) d = owner_type_name t @ ''|'' @ kind_name k @ ''|'' @ d @ ''|loan|''"
    "account_sig (mk_ref t i a k (Some (js_trim (''position:'' @ x)))) d = owner_type_name t @ ''|'' @ kind_name k @ ''|'' @ d @ ''|position|''"
    "account_sig (mk_ref t i a k (Some (js_trim (''futures-order:'' @ x)))) d = owner_type_name t @ ''|'' @ kind_name k @ ''|'' @ d @ ''|futures-order|''"
    "account_sig (mk_ref t i a k (Some (js_trim (''business-approval:'' @ x)))) d = owner_type_name t @ ''|'' @ kind_name k @ ''|'' @ d @ ''|business-approval|''"
    "account_sig (mk_ref t i a k (Some (js_trim (''pay:'' @ x)))) d = owner_type_name t @ ''|'' @ kind_name k @ ''|'' @ d @ ''|pay|''"
  using sig_claim [of "''order''" t i a k x d]
    sig_claim [of "''withdraw''" t i a k x d]
    sig_claim [of "''trade''" t i a k x d]
    sig_claim [of "''token''" t i a k x d]
    sig_claim [of "''bank''" t i a k x d]
    sig_claim [of "''loan''" t i a k x d]
    sig_claim [of "''position''" t i a k x d]
    sig_claim [of "''futures-order''" t i a k x d]
    sig_claim [of "''business-approval''" t i a k x d]
    sig_claim [of "''pay''" t i a k x d] assms
  by (simp_all add: js_ws_def)

lemmas sig_claims_user [gate_sig] = sig_claims [of User, simplified]

lemmas sig_claims_sub [gate_sig] = sig_claims [of Subaccount, simplified]

lemma sig_house [gate_sig]:
  "account_sig (insuranceFund a) d = ''house|available|'' @ d @ ''||insurance-fund''"
  "account_sig (futuresLossSink a) d = ''house|available|'' @ d @ ''||futures-loss''"
  "account_sig (rewardsEngine a) d = ''house|available|'' @ d @ ''||rewards-engine''"
  "account_sig (burnAccount a) d = ''house|available|'' @ d @ ''||burn''"
  "account_sig (marketMaker a) d = ''house|available|'' @ d @ ''||market-maker''"
  "account_sig (loanReserve a) d = ''module|available|'' @ d @ ''||bank:loan-reserve''"
  "account_sig (mintBoundary a) d = ''treasury|available|'' @ d @ ''||mint''"
  "account_sig (conversionInventory a) d = ''treasury|available|'' @ d @ ''||pay:*''"
  "account_sig (houseFees ''trade'' a) d = ''house|available|'' @ d @ ''||fees:trade''"
  "account_sig (houseFees ''bank'' a) d = ''house|available|'' @ d @ ''||fees:bank''"
  "account_sig (houseFees ''pay'' a) d = ''house|available|'' @ d @ ''||fees:pay''"
  "account_sig (houseFees ''p2p'' a) d = ''house|available|'' @ d @ ''||fees:p2p''"
  "account_sig (houseFees ''market'' a) d = ''house|available|'' @ d @ ''||fees:market''"
  by (simp_all add: account_sig_def insuranceFund_def futuresLossSink_def rewardsEngine_def burnAccount_def marketMaker_def loanReserve_def
      moduleAccount_def mintBoundary_def conversionInventory_def houseFees_def)

lemma sig_boundary [gate_sig]:
  "plain_owner (railBoundary r a) \<Longrightarrow> account_sig (railBoundary r a) d = ''treasury|available|'' @ d @ ''||rail:*''"
  "plain_owner (venueBoundary v a) \<Longrightarrow> account_sig (venueBoundary v a) d = ''treasury|available|'' @ d @ ''||venue:*''"
  using accountRole_treasury [of "''rail''" r a Available None] accountRole_treasury [of "''venue''" v a Available None]
  by (simp_all add: account_sig_def railBoundary_def venueBoundary_def)

lemma sig_module [gate_sig]:
  "plain_owner (merchantClearing m a) \<Longrightarrow> account_sig (merchantClearing m a) d = ''module|available|'' @ d @ ''||pay:clearing:*''"
  "plain_owner (merchantProceeds m a) \<Longrightarrow> account_sig (merchantProceeds m a) d = ''module|available|'' @ d @ ''||pay:proceeds:*''"
  "plain_owner (earnPoolReserve m a) \<Longrightarrow> account_sig (earnPoolReserve m a) d = ''module|available|'' @ d @ ''||bank:earn:*''"
  using accountRole_instance [of Module "''pay:clearing''" m a Available None] accountRole_instance [of Module "''pay:proceeds''" m a Available None]
    accountRole_instance [of Module "''bank:earn''" m a Available None]
  by (simp_all add: account_sig_def merchantClearing_def merchantProceeds_def earnPoolReserve_def moduleAccount_def)

lemma sig_module_hold:
  "merchantProceedsPayoutHold m a w = Inr h \<Longrightarrow> plain_owner h \<Longrightarrow> account_sig h d = ''module|hold|'' @ d @ ''|payout|pay:proceeds:*''"
  "merchantClearingHold m a w = Inr h \<Longrightarrow> plain_owner h \<Longrightarrow> account_sig h d = ''module|hold|'' @ d @ ''|conversion|pay:clearing:*''"
  using accountRole_instance [of Module "''pay:clearing''" m a Hold "Some (''conversion:'' @ js_trim w)"]
    accountRole_instance [of Module "''pay:proceeds''" m a Hold "Some (''payout:'' @ js_trim w)"]
  by (auto simp: account_sig_def merchantProceedsPayoutHold_def merchantClearingHold_def split: if_splits)

lemma sig_mm_hold: "marketMakerOrderHoldAccount a oid = Inr h \<Longrightarrow> account_sig h d = ''house|hold|'' @ d @ ''|order|market-maker''"
proof -
  assume "marketMakerOrderHoldAccount a oid = Inr h"
  then have h: "h = mk_ref House ''market-maker'' a Hold (Some (js_trim (''order:'' @ oid)))"
    by (auto simp: marketMakerOrderHoldAccount_def houseHold_def)
  have "account_sig (mk_ref User i a Hold (Some (js_trim (''order:'' @ oid)))) d = ''user|hold|'' @ d @ ''|order|''" for i
    using sig_claims(1) [of User i a Hold oid d] by simp
  then show ?thesis by (simp add: h account_sig_def)
qed

section \<open>Accounts that always exist\<close>

lemma not_ws_chars [simp]:
  "js_ws (CHR ''a'') = False" "js_ws (CHR ''b'') = False" "js_ws (CHR ''c'') = False" "js_ws (CHR ''d'') = False" "js_ws (CHR ''e'') = False"
  "js_ws (CHR ''f'') = False" "js_ws (CHR ''g'') = False" "js_ws (CHR ''h'') = False" "js_ws (CHR ''i'') = False" "js_ws (CHR ''j'') = False"
  "js_ws (CHR ''k'') = False" "js_ws (CHR ''l'') = False" "js_ws (CHR ''m'') = False" "js_ws (CHR ''n'') = False" "js_ws (CHR ''o'') = False"
  "js_ws (CHR ''p'') = False" "js_ws (CHR ''q'') = False" "js_ws (CHR ''r'') = False" "js_ws (CHR ''s'') = False" "js_ws (CHR ''t'') = False"
  "js_ws (CHR ''u'') = False" "js_ws (CHR ''v'') = False" "js_ws (CHR ''w'') = False" "js_ws (CHR ''x'') = False" "js_ws (CHR ''y'') = False"
  "js_ws (CHR ''z'') = False" "js_ws (CHR ''0'') = False" "js_ws (CHR ''1'') = False" "js_ws (CHR ''2'') = False" "js_ws (CHR ''3'') = False"
  "js_ws (CHR ''4'') = False" "js_ws (CHR ''5'') = False" "js_ws (CHR ''6'') = False" "js_ws (CHR ''7'') = False" "js_ws (CHR ''8'') = False" "js_ws (CHR ''9'') = False"
  "js_ws (CHR ''A'') = False" "js_ws (CHR ''B'') = False" "js_ws (CHR ''C'') = False" "js_ws (CHR ''D'') = False" "js_ws (CHR ''E'') = False"
  "js_ws (CHR ''F'') = False" "js_ws (CHR ''G'') = False" "js_ws (CHR ''H'') = False" "js_ws (CHR ''I'') = False" "js_ws (CHR ''J'') = False"
  "js_ws (CHR ''K'') = False" "js_ws (CHR ''L'') = False" "js_ws (CHR ''M'') = False" "js_ws (CHR ''N'') = False" "js_ws (CHR ''O'') = False"
  "js_ws (CHR ''P'') = False" "js_ws (CHR ''Q'') = False" "js_ws (CHR ''R'') = False" "js_ws (CHR ''S'') = False" "js_ws (CHR ''T'') = False"
  "js_ws (CHR ''U'') = False" "js_ws (CHR ''V'') = False" "js_ws (CHR ''W'') = False" "js_ws (CHR ''X'') = False" "js_ws (CHR ''Y'') = False" "js_ws (CHR ''Z'') = False"
  by (simp_all add: js_ws_def)

lemma js_trim_literal [simp]: "js_ws c = False \<Longrightarrow> (js_trim (c # s) = []) = False" "js_ws c = False \<Longrightarrow> blank (c # s) = False"
  using js_trim_Cons [of c s] by (auto simp: blank_def)

lemma claim_accounts [gate_sig]:
  "orderHoldAccount u a x = Inr (mk_ref User u a Hold (Some (js_trim (''order:'' @ x))))"
  "withdrawalHoldAccount u a x = Inr (mk_ref User u a Hold (Some (js_trim (''withdraw:'' @ x))))"
  "tradeEscrowAccount u a x = Inr (mk_ref User u a Escrow (Some (js_trim (''trade:'' @ x))))"
  "tokenStakeAccount u a x = Inr (mk_ref User u a Stake (Some (js_trim (''token:stake:'' @ x))))"
  "earnStakeAccount u a x = Inr (mk_ref User u a Stake (Some (js_trim (''bank:earn:'' @ x))))"
  "loanCollateralAccount u a x = Inr (mk_ref User u a Collateral (Some (js_trim (''loan:'' @ x))))"
  "positionCollateralAccount u a x = Inr (mk_ref User u a Collateral (Some (js_trim (''position:'' @ x))))"
  "subAccountPositionCollateral u a x = Inr (mk_ref Subaccount u a Collateral (Some (js_trim (''position:'' @ x))))"
  "futuresOrderMarginAccount u a x = Inr (mk_ref User u a Hold (Some (js_trim (''futures-order:'' @ x))))"
  "subAccountFuturesOrderMargin u a x = Inr (mk_ref Subaccount u a Hold (Some (js_trim (''futures-order:'' @ x))))"
  "payReceivedHoldAccount u a x = Inr (mk_ref User u a Hold (Some (js_trim (''pay:recv:'' @ x))))"
  "marketMakerOrderHoldAccount a x = Inr (mk_ref House ''market-maker'' a Hold (Some (js_trim (''order:'' @ x))))"
  "userHold u a (''business-approval:'' @ x) = Inr (mk_ref User u a Hold (Some (js_trim (''business-approval:'' @ x))))"
  "subAccountHold u a (''business-approval:'' @ x) = Inr (mk_ref Subaccount u a Hold (Some (js_trim (''business-approval:'' @ x))))"
  by (simp_all add: account_defs)

lemmas business_hold_accounts [gate_sig] = claim_accounts(13,14) [simplified]

lemmas mm_hold_sig [gate_sig] = sig_mm_hold [OF claim_accounts(12), simplified]

end
