(* ===== verification/Gate_Catalog.thy ===== *)
theory Gate_Catalog
  imports Gate_Props
begin

text \<open>
  The samples of the recipe gate evaluated: for each, its recipe, module, reason and the signatures of its
  legs. This is the catalogue the ledger service starts with.
\<close>

definition sample_shape :: "sample \<Rightarrow> (string \<times> string \<times> string \<times> string list) option" where
  "sample_shape s = (case snd s of Inr q \<Rightarrow> Some (fst s, req_module q, req_reason q, post_legs q) | Inl _ \<Rightarrow> None)"

lemma sample_shape_simps [simp]:
  "sample_shape (n, Inr (mk_post k m r meta es)) = Some (n, m, r, map legSignature es)"
  by (simp add: sample_shape_def post_legs_def mk_post_def)

definition base_table :: "(string \<times> string \<times> string \<times> string list) list" where
  "base_table = [
     (''deposit'', ''ledger'', ''deposit.credited'', [''treasury|available|credit||rail:*'', ''user|available|debit||'']),
     (''depositReverse'', ''ledger'', ''deposit.reversed'', [''treasury|available|debit||rail:*'', ''user|available|credit||'']),
     (''marketMakerSeedFund'', ''trade'', ''mm.seed.funded'', [''treasury|available|credit||rail:*'', ''house|available|debit||market-maker'']),
     (''withdrawHold'', ''ledger'', ''withdraw.held'', [''user|available|credit||'', ''user|hold|debit|withdraw|'']),
     (''withdrawSettle'', ''ledger'', ''withdraw.settled'', [''user|hold|credit|withdraw|'', ''treasury|available|debit||rail:*'']),
     (''withdrawReverse'', ''ledger'', ''withdraw.reversed'', [''user|hold|credit|withdraw|'', ''user|available|debit||'']),
     (''tradeFill'', ''trade'', ''trade.fill'', [''user|hold|credit|order|'', ''user|available|debit||'', ''user|hold|credit|order|'', ''user|available|debit||'']),
     (''tradeFill'', ''trade'', ''trade.fill'', [''user|hold|credit|order|'', ''user|available|debit||'', ''house|available|debit||fees:trade'', ''user|hold|credit|order|'', ''user|available|debit||'', ''house|available|debit||fees:trade'']),
     (''orderHold'', ''trade'', ''order.hold'', [''user|available|credit||'', ''user|hold|debit|order|'']),
     (''orderHoldRelease'', ''trade'', ''order.hold.released'', [''user|hold|credit|order|'', ''user|available|debit||'']),
     (''orderHoldAmend'', ''trade'', ''order.hold.amend'', [''user|available|credit||'', ''user|hold|debit|order|'']),
     (''marketMakerOrderHold'', ''trade'', ''order.hold.mm'', [''house|available|credit||market-maker'', ''house|hold|debit|order|market-maker'']),
     (''marketMakerOrderHoldRelease'', ''trade'', ''order.hold.mm.released'', [''house|hold|credit|order|market-maker'', ''house|available|debit||market-maker'']),
     (''marketMakerMakerFill'', ''trade'', ''trade.fill.mm_maker'', [''user|hold|credit|order|'', ''house|available|debit||market-maker'', ''house|hold|credit|order|market-maker'', ''user|available|debit||'']),
     (''futuresMarginLock'', ''trade'', ''futures.margin.lock'', [''user|available|credit||'', ''user|collateral|debit|position|'']),
     (''futuresMarginAdd'', ''trade'', ''futures.margin.add'', [''user|available|credit||'', ''user|collateral|debit|position|'']),
     (''futuresMarginRelease'', ''trade'', ''futures.margin.release'', [''user|collateral|credit|position|'', ''user|available|debit||'']),
     (''futuresMarginRelease'', ''trade'', ''futures.margin.release'', [''user|collateral|credit|position|'', ''user|available|debit||'', ''house|available|debit||fees:trade'']),
     (''futuresMarginRelease'', ''trade'', ''futures.margin.release'', [''user|collateral|credit|position|'', ''house|available|debit||fees:trade'']),
     (''futuresOrderMarginHold'', ''trade'', ''futures.order.margin.hold'', [''user|available|credit||'', ''user|hold|debit|futures-order|'']),
     (''futuresOrderMarginRelease'', ''trade'', ''futures.order.margin.release'', [''user|hold|credit|futures-order|'', ''user|available|debit||'']),
     (''futuresOrderMarginApply'', ''trade'', ''futures.order.margin.applied'', [''user|hold|credit|futures-order|'', ''user|available|debit||'', ''user|available|credit||'', ''user|collateral|debit|position|'']),
     (''futuresOrderMarginApply'', ''trade'', ''futures.order.margin.applied'', [''user|hold|credit|futures-order|'', ''user|available|debit||'', ''user|available|credit||'', ''user|collateral|debit|position|'']),
     (''futuresOrderMarginApply'', ''trade'', ''futures.order.margin.applied'', [''user|hold|credit|futures-order|'', ''user|available|debit||'', ''user|available|credit||'', ''user|collateral|debit|position|'', ''house|available|debit||fees:trade'']),
     (''futuresOrderMarginApply'', ''trade'', ''futures.order.margin.applied'', [''user|hold|credit|futures-order|'', ''user|available|debit||'', ''user|available|credit||'', ''user|collateral|debit|position|'', ''house|available|debit||fees:trade'']),
     (''futuresRealizeLoss'', ''trade'', ''futures.loss.realized'', [''user|collateral|credit|position|'', ''house|available|debit||futures-loss'']),
     (''futuresRealizeLoss'', ''trade'', ''futures.loss.realized'', [''house|available|credit||insurance-fund'', ''house|available|debit||futures-loss'']),
     (''futuresRealizeProfit'', ''trade'', ''futures.profit.realized'', [''house|available|credit||futures-loss'', ''user|available|debit||'']),
     (''futuresFundingPay'', ''trade'', ''futures.funding.paid'', [''user|collateral|credit|position|'', ''user|available|debit||'']),
     (''futuresInsuranceTopup'', ''trade'', ''futures.insurance.topup'', [''house|available|credit||fees:trade'', ''house|available|debit||insurance-fund'']),
     (''escrowLock'', ''p2p'', ''p2p.escrow.lock'', [''user|available|credit||'', ''user|escrow|debit|trade|'']),
     (''escrowRelease'', ''p2p'', ''p2p.escrow.release'', [''user|escrow|credit|trade|'', ''user|available|debit||'']),
     (''escrowRelease'', ''p2p'', ''p2p.escrow.release'', [''user|escrow|credit|trade|'', ''user|available|debit||'', ''house|available|debit||fees:p2p'']),
     (''escrowRefund'', ''p2p'', ''p2p.escrow.refund'', [''user|escrow|credit|trade|'', ''user|available|debit||'']),
     (''paymentCapture'', ''pay'', ''payment.captured'', [''treasury|available|credit||rail:*'', ''module|available|debit||pay:clearing:*'']),
     (''merchantSettlement'', ''pay'', ''pay.settled'', [''module|available|credit||pay:clearing:*'', ''module|available|debit||pay:proceeds:*'']),
     (''merchantSettlement'', ''pay'', ''pay.settled'', [''module|available|credit||pay:clearing:*'', ''module|available|debit||pay:proceeds:*'', ''house|available|debit||fees:pay'']),
     (''paymentRefund'', ''pay'', ''payment.refunded'', [''module|available|credit||pay:clearing:*'', ''treasury|available|debit||rail:*'']),
     (''paymentRefund'', ''pay'', ''payment.refunded'', [''module|available|credit||pay:proceeds:*'', ''treasury|available|debit||rail:*'']),
     (''paymentRefund'', ''pay'', ''payment.refunded'', [''user|available|credit||'', ''treasury|available|debit||rail:*'']),
     (''paymentRefundReverse'', ''pay'', ''payment.refund.reversed'', [''treasury|available|credit||rail:*'', ''module|available|debit||pay:clearing:*'']),
     (''paymentRefundReverse'', ''pay'', ''payment.refund.reversed'', [''treasury|available|credit||rail:*'', ''module|available|debit||pay:proceeds:*'']),
     (''paymentRefundReverse'', ''pay'', ''payment.refund.reversed'', [''treasury|available|credit||rail:*'', ''user|available|debit||'']),
     (''merchantProceedsPayoutHold'', ''pay'', ''pay.proceeds.payout.held'', [''module|available|credit||pay:proceeds:*'', ''module|hold|debit|payout|pay:proceeds:*'']),
     (''merchantProceedsPayoutSettle'', ''pay'', ''pay.proceeds.payout.settled'', [''module|hold|credit|payout|pay:proceeds:*'', ''treasury|available|debit||rail:*'']),
     (''merchantProceedsPayoutReverse'', ''pay'', ''pay.proceeds.payout.reversed'', [''module|hold|credit|payout|pay:proceeds:*'', ''module|available|debit||pay:proceeds:*'']),
     (''fxConversion'', ''pay'', ''pay.conversion.booked'', [''module|hold|credit|conversion|pay:clearing:*'', ''treasury|available|debit||venue:*'', ''treasury|available|credit||venue:*'', ''user|available|debit||'', ''house|available|debit||fees:pay'', ''house|available|debit||fees:pay'']),
     (''fxConversion'', ''pay'', ''pay.conversion.booked'', [''module|hold|credit|conversion|pay:clearing:*'', ''treasury|available|debit||venue:*'', ''treasury|available|credit||venue:*'', ''user|available|debit||'', ''house|available|debit||fees:pay'']),
     (''fxConversion'', ''pay'', ''pay.conversion.booked'', [''module|hold|credit|conversion|pay:clearing:*'', ''treasury|available|debit||venue:*'', ''treasury|available|credit||venue:*'', ''user|available|debit||'', ''house|available|debit||fees:pay'']),
     (''fxConversion'', ''pay'', ''pay.conversion.booked'', [''module|hold|credit|conversion|pay:clearing:*'', ''treasury|available|debit||venue:*'', ''treasury|available|credit||venue:*'', ''user|available|debit||'']),
     (''fxConversionReverse'', ''pay'', ''pay.conversion.reversed'', [''module|available|debit||pay:clearing:*'', ''treasury|available|credit||pay:*'', ''user|available|credit||'', ''treasury|available|debit||pay:*'', ''house|available|credit||fees:pay'', ''house|available|credit||fees:pay'']),
     (''fxConversionReverse'', ''pay'', ''pay.conversion.reversed'', [''module|available|debit||pay:clearing:*'', ''treasury|available|credit||pay:*'', ''user|available|credit||'', ''treasury|available|debit||pay:*'', ''house|available|credit||fees:pay'']),
     (''fxConversionReverse'', ''pay'', ''pay.conversion.reversed'', [''module|available|debit||pay:clearing:*'', ''treasury|available|credit||pay:*'', ''user|available|credit||'', ''treasury|available|debit||pay:*'', ''house|available|credit||fees:pay'']),
     (''fxConversionReverse'', ''pay'', ''pay.conversion.reversed'', [''module|available|debit||pay:clearing:*'', ''treasury|available|credit||pay:*'', ''user|available|credit||'', ''treasury|available|debit||pay:*'']),
     (''fxConversionHold'', ''pay'', ''pay.conversion.held'', [''module|available|credit||pay:clearing:*'', ''module|hold|debit|conversion|pay:clearing:*'']),
     (''fxConversionRelease'', ''pay'', ''pay.conversion.released'', [''module|hold|credit|conversion|pay:clearing:*'', ''module|available|debit||pay:clearing:*'']),
     (''fxConversionRelease'', ''pay'', ''pay.conversion.released'', [''module|hold|credit|conversion|pay:clearing:*'', ''module|available|debit||pay:clearing:*'']),
     (''fxConversionLateFill'', ''pay'', ''pay.conversion.late_booked'', [''module|available|credit||pay:clearing:*'', ''treasury|available|debit||venue:*'', ''treasury|available|credit||venue:*'', ''user|available|debit||'', ''house|available|debit||fees:pay'', ''house|available|debit||fees:pay'']),
     (''fxConversionLateFill'', ''pay'', ''pay.conversion.late_booked'', [''module|available|credit||pay:clearing:*'', ''treasury|available|debit||venue:*'', ''treasury|available|credit||venue:*'', ''user|available|debit||'', ''house|available|debit||fees:pay'']),
     (''fxConversionLateFill'', ''pay'', ''pay.conversion.late_booked'', [''module|available|credit||pay:clearing:*'', ''treasury|available|debit||venue:*'', ''treasury|available|credit||venue:*'', ''user|available|debit||'', ''house|available|debit||fees:pay'']),
     (''fxConversionLateFill'', ''pay'', ''pay.conversion.late_booked'', [''module|available|credit||pay:clearing:*'', ''treasury|available|debit||venue:*'', ''treasury|available|credit||venue:*'', ''user|available|debit||'']),
     (''fxConversionLateFill'', ''pay'', ''pay.conversion.late_shortfall'', [''treasury|available|credit||pay:*'', ''treasury|available|debit||venue:*'', ''treasury|available|credit||venue:*'', ''treasury|available|debit||pay:*'']),
     (''fxConversionLateFill'', ''pay'', ''pay.conversion.late_shortfall'', [''treasury|available|credit||pay:*'', ''treasury|available|debit||venue:*'', ''treasury|available|credit||venue:*'', ''treasury|available|debit||pay:*'']),
     (''fxConversionLateFill'', ''pay'', ''pay.conversion.late_shortfall'', [''treasury|available|credit||pay:*'', ''treasury|available|debit||venue:*'', ''treasury|available|credit||venue:*'', ''treasury|available|debit||pay:*'']),
     (''fxConversionLateFill'', ''pay'', ''pay.conversion.late_shortfall'', [''treasury|available|credit||pay:*'', ''treasury|available|debit||venue:*'', ''treasury|available|credit||venue:*'', ''treasury|available|debit||pay:*'']),
     (''chargebackOpen'', ''pay'', ''pay.chargeback.opened'', [''module|available|credit||pay:clearing:*'', ''treasury|available|debit||rail:*'']),
     (''chargebackOpen'', ''pay'', ''pay.chargeback.opened'', [''user|available|credit||'', ''treasury|available|debit||rail:*'']),
     (''chargebackOpen'', ''pay'', ''pay.chargeback.opened'', [''module|available|credit||pay:proceeds:*'', ''treasury|available|debit||rail:*'']),
     (''chargebackShortfall'', ''pay'', ''pay.chargeback.shortfall.covered'', [''house|available|credit||insurance-fund'', ''treasury|available|debit||rail:*'']),
     (''chargebackWon'', ''pay'', ''pay.chargeback.won'', [''treasury|available|credit||rail:*'', ''module|available|debit||pay:clearing:*'']),
     (''chargebackShortfallRecovered'', ''pay'', ''pay.chargeback.shortfall.recovered'', [''treasury|available|credit||rail:*'', ''house|available|debit||insurance-fund'']),
     (''stake'', ''token'', ''token.stake'', [''user|available|credit||'', ''user|stake|debit|token|'']),
     (''unstake'', ''token'', ''token.unstake'', [''user|stake|credit|token|'', ''user|available|debit||'']),
     (''mintEmission'', ''token'', ''token.emission'', [''treasury|available|credit||mint'', ''user|available|debit||'']),
     (''burn'', ''token'', ''token.burn'', [''user|available|credit||'', ''house|available|debit||burn'']),
     (''feeCharge'', ''trade'', ''fee.charged'', [''user|available|credit||'', ''house|available|debit||fees:trade'']),
     (''sweepFeesToRewards'', ''token'', ''token.fee.swept'', [''house|available|credit||fees:trade'', ''house|available|debit||rewards-engine'']),
     (''rewardPay'', ''token'', ''token.yield.distributed'', [''house|available|credit||rewards-engine'', ''user|available|debit||'']),
     (''loanCollateralLock'', ''bank'', ''loan.collateral.locked'', [''user|available|credit||'', ''user|collateral|debit|loan|'']),
     (''loanCollateralRelease'', ''bank'', ''loan.collateral.released'', [''user|collateral|credit|loan|'', ''user|available|debit||'']),
     (''loanDraw'', ''bank'', ''loan.drawn'', [''module|available|credit||bank:loan-reserve'', ''user|available|debit||'']),
     (''loanRepay'', ''bank'', ''loan.repaid'', [''user|available|credit||'', ''module|available|debit||bank:loan-reserve'']),
     (''loanRepay'', ''bank'', ''loan.repaid'', [''user|available|credit||'', ''module|available|debit||bank:loan-reserve'', ''house|available|debit||fees:bank'']),
     (''loanLiquidate'', ''bank'', ''loan.liquidated'', [''user|collateral|credit|loan|'', ''user|available|debit||'', ''user|available|credit||'', ''module|available|debit||bank:loan-reserve'']),
     (''loanBadDebt'', ''bank'', ''loan.bad_debt.covered'', [''house|available|credit||insurance-fund'', ''module|available|debit||bank:loan-reserve'']),
     (''loanReserveFund'', ''bank'', ''loan.reserve.funded'', [''house|available|credit||fees:bank'', ''module|available|debit||bank:loan-reserve'']),
     (''bankTransfer'', ''bank'', ''bank.transfer.manual'', [''user|available|credit||'', ''user|available|debit||'']),
     (''bankTransfer'', ''bank'', ''bank.transfer.scheduled'', [''user|available|credit||'', ''user|available|debit||'']),
     (''earnDeposit'', ''bank'', ''bank.earn.deposited'', [''user|available|credit||'', ''user|stake|debit|bank|'']),
     (''earnWithdraw'', ''bank'', ''bank.earn.withdrawn'', [''user|stake|credit|bank|'', ''user|available|debit||'']),
     (''earnPoolFund'', ''bank'', ''bank.earn.pool.funded'', [''house|available|credit||fees:bank'', ''module|available|debit||bank:earn:*'']),
     (''earnInterest'', ''bank'', ''bank.earn.interest'', [''module|available|credit||bank:earn:*'', ''user|available|debit||'']),
     (''businessApprovalHold'', ''bank'', ''bank.business.approval.held'', [''user|available|credit||'', ''user|hold|debit|business-approval|'']),
     (''businessApprovalRelease'', ''bank'', ''bank.business.approval.released'', [''user|hold|credit|business-approval|'', ''user|available|debit||'']),
     (''businessApprovalSettle'', ''bank'', ''bank.business.approval.settled'', [''user|hold|credit|business-approval|'', ''user|available|debit||'']),
     (''businessPayroll'', ''bank'', ''bank.business.payroll.settled'', [''user|available|credit||'', ''user|available|debit||'']),
     (''subAccountTransfer'', ''identity'', ''identity.sub_account.transfer'', [''subaccount|available|credit||'', ''subaccount|available|debit||'']),
     (''payReceivedHold'', ''bank'', ''pay.recv.held'', [''user|available|credit||'', ''user|hold|debit|pay|'']),
     (''payReceivedRelease'', ''bank'', ''pay.recv.released'', [''user|hold|credit|pay|'', ''user|available|debit||'']),
     (''payReceivedReturn'', ''bank'', ''pay.recv.returned'', [''user|hold|credit|pay|'', ''user|available|debit||'']),
     (''bankTransferReversal'', ''bank'', ''bank.transfer.reversed'', [''user|available|credit||'', ''user|available|debit||'']),
     (''marketPurchase'', ''market'', ''market.purchase'', [''user|available|credit||'', ''user|available|debit||'']),
     (''marketListingFee'', ''market'', ''market.listing_fee'', [''user|available|credit||'', ''house|available|debit||fees:market'']),
     (''marketPremiumPlacement'', ''market'', ''market.premium_placement'', [''user|available|credit||'', ''house|available|debit||fees:market''])]"

definition shape_table :: "(string \<times> string \<times> string \<times> string list) list" where
  "shape_table = [
     (''tradeFill'', ''trade'', ''trade.fill'', [''user|hold|credit|order|'', ''user|available|debit||'', ''house|available|debit||fees:trade'', ''user|hold|credit|order|'', ''user|available|debit||'']),
     (''tradeFill'', ''trade'', ''trade.fill'', [''user|hold|credit|order|'', ''user|available|debit||'', ''user|hold|credit|order|'', ''user|available|debit||'', ''house|available|debit||fees:trade'']),
     (''marketMakerMakerFill'', ''trade'', ''trade.fill.mm_maker'', [''user|hold|credit|order|'', ''house|available|debit||market-maker'', ''house|available|debit||fees:trade'', ''house|hold|credit|order|market-maker'', ''user|available|debit||'']),
     (''marketMakerMakerFill'', ''trade'', ''trade.fill.mm_maker'', [''user|hold|credit|order|'', ''house|available|debit||market-maker'', ''house|hold|credit|order|market-maker'', ''user|available|debit||'', ''house|available|debit||fees:trade'']),
     (''marketMakerMakerFill'', ''trade'', ''trade.fill.mm_maker'', [''user|hold|credit|order|'', ''house|available|debit||market-maker'', ''house|available|debit||fees:trade'', ''house|hold|credit|order|market-maker'', ''user|available|debit||'', ''house|available|debit||fees:trade'']),
     (''marketPurchase'', ''market'', ''market.purchase'', [''user|available|credit||'', ''user|available|debit||'', ''house|available|debit||fees:market'']),
     (''loanRepay'', ''bank'', ''loan.repaid'', [''user|available|credit||'', ''house|available|debit||fees:bank'']),
     (''mintEmission'', ''token'', ''token.emission'', [''treasury|available|credit||mint'', ''house|available|debit||rewards-engine'']),
     (''burn'', ''token'', ''token.burn'', [''house|available|credit||rewards-engine'', ''house|available|debit||burn'']),
     (''futuresRealizeLoss'', ''trade'', ''futures.loss.realized'', [''user|collateral|credit|position|'', ''house|available|credit||insurance-fund'', ''house|available|debit||futures-loss'']),
     (''tradeFillFeeCorrection'', ''trade'', ''trade.fill.fee.correction'', [''house|available|credit||fees:trade'', ''user|available|debit||'']),
     (''deposit'', ''ledger'', ''deposit.credited'', [''treasury|available|credit||rail:*'', ''subaccount|available|debit||'']),
     (''depositReverse'', ''ledger'', ''deposit.reversed'', [''treasury|available|debit||rail:*'', ''subaccount|available|credit||'']),
     (''futuresMarginLock'', ''trade'', ''futures.margin.lock'', [''subaccount|available|credit||'', ''subaccount|collateral|debit|position|'']),
     (''futuresMarginAdd'', ''trade'', ''futures.margin.add'', [''subaccount|available|credit||'', ''subaccount|collateral|debit|position|'']),
     (''futuresMarginRelease'', ''trade'', ''futures.margin.release'', [''subaccount|collateral|credit|position|'', ''subaccount|available|debit||'']),
     (''futuresMarginRelease'', ''trade'', ''futures.margin.release'', [''subaccount|collateral|credit|position|'', ''subaccount|available|debit||'', ''house|available|debit||fees:trade'']),
     (''futuresMarginRelease'', ''trade'', ''futures.margin.release'', [''subaccount|collateral|credit|position|'', ''house|available|debit||fees:trade'']),
     (''futuresOrderMarginHold'', ''trade'', ''futures.order.margin.hold'', [''subaccount|available|credit||'', ''subaccount|hold|debit|futures-order|'']),
     (''futuresOrderMarginRelease'', ''trade'', ''futures.order.margin.release'', [''subaccount|hold|credit|futures-order|'', ''subaccount|available|debit||'']),
     (''futuresOrderMarginApply'', ''trade'', ''futures.order.margin.applied'', [''subaccount|hold|credit|futures-order|'', ''subaccount|available|debit||'', ''subaccount|available|credit||'', ''subaccount|collateral|debit|position|'']),
     (''futuresOrderMarginApply'', ''trade'', ''futures.order.margin.applied'', [''subaccount|hold|credit|futures-order|'', ''subaccount|available|debit||'', ''subaccount|available|credit||'', ''subaccount|collateral|debit|position|'']),
     (''futuresOrderMarginApply'', ''trade'', ''futures.order.margin.applied'', [''subaccount|hold|credit|futures-order|'', ''subaccount|available|debit||'', ''subaccount|available|credit||'', ''subaccount|collateral|debit|position|'', ''house|available|debit||fees:trade'']),
     (''futuresOrderMarginApply'', ''trade'', ''futures.order.margin.applied'', [''subaccount|hold|credit|futures-order|'', ''subaccount|available|debit||'', ''subaccount|available|credit||'', ''subaccount|collateral|debit|position|'', ''house|available|debit||fees:trade'']),
     (''futuresRealizeLoss'', ''trade'', ''futures.loss.realized'', [''subaccount|collateral|credit|position|'', ''house|available|debit||futures-loss'']),
     (''loanReserveFund'', ''bank'', ''loan.reserve.funded'', [''user|available|credit||'', ''module|available|debit||bank:loan-reserve'']),
     (''earnPoolFund'', ''bank'', ''bank.earn.pool.funded'', [''user|available|credit||'', ''module|available|debit||bank:earn:*'']),
     (''earnInterest'', ''bank'', ''bank.earn.interest'', [''module|available|credit||bank:earn:*'', ''user|available|debit||'', ''user|available|debit||'']),
     (''chargebackOpen'', ''pay'', ''pay.chargeback.opened'', [''module|available|credit||pay:clearing:*'', ''module|available|credit||pay:proceeds:*'', ''treasury|available|debit||rail:*'']),
     (''chargebackWon'', ''pay'', ''pay.chargeback.won'', [''treasury|available|credit||rail:*'', ''module|available|debit||pay:proceeds:*'']),
     (''chargebackWon'', ''pay'', ''pay.chargeback.won'', [''treasury|available|credit||rail:*'', ''module|available|debit||pay:clearing:*'', ''module|available|debit||pay:proceeds:*'']),
     (''chargebackWon'', ''pay'', ''pay.chargeback.won'', [''treasury|available|credit||rail:*'', ''user|available|debit||''])]"

definition transfer_table :: "(string \<times> string \<times> string \<times> string list) list" where
  "transfer_table = [
     (''bankTransfer'', ''bank'', ''bank.transfer.manual'', [''user|available|credit||'', ''user|available|debit||'']),
     (''bankTransfer'', ''bank'', ''bank.transfer.manual'', [''user|available|credit||'', ''subaccount|available|debit||'']),
     (''bankTransfer'', ''bank'', ''bank.transfer.manual'', [''subaccount|available|credit||'', ''user|available|debit||'']),
     (''bankTransfer'', ''bank'', ''bank.transfer.manual'', [''subaccount|available|credit||'', ''subaccount|available|debit||'']),
     (''bankTransfer'', ''bank'', ''bank.transfer.scheduled'', [''user|available|credit||'', ''user|available|debit||'']),
     (''bankTransfer'', ''bank'', ''bank.transfer.scheduled'', [''user|available|credit||'', ''subaccount|available|debit||'']),
     (''bankTransfer'', ''bank'', ''bank.transfer.scheduled'', [''subaccount|available|credit||'', ''user|available|debit||'']),
     (''bankTransfer'', ''bank'', ''bank.transfer.scheduled'', [''subaccount|available|credit||'', ''subaccount|available|debit||'']),
     (''bankTransfer'', ''bank'', ''bank.transfer.manual'', [''user|available|credit||'', ''treasury|available|debit||rail:*'']),
     (''bankTransfer'', ''bank'', ''bank.transfer.manual'', [''treasury|available|credit||rail:*'', ''user|available|debit||'']),
     (''bankTransfer'', ''bank'', ''bank.transfer.manual'', [''subaccount|available|credit||'', ''treasury|available|debit||rail:*'']),
     (''bankTransfer'', ''bank'', ''bank.transfer.manual'', [''treasury|available|credit||rail:*'', ''subaccount|available|debit||''])]"

definition business_table :: "(string \<times> string \<times> string \<times> string list) list" where
  "business_table = [
     (''businessApprovalHold'', ''bank'', ''bank.business.approval.held'', [''user|available|credit||'', ''user|hold|debit|business-approval|'']),
     (''businessApprovalRelease'', ''bank'', ''bank.business.approval.released'', [''user|hold|credit|business-approval|'', ''user|available|debit||'']),
     (''businessApprovalSettle'', ''bank'', ''bank.business.approval.settled'', [''user|hold|credit|business-approval|'', ''user|available|debit||'']),
     (''businessApprovalSettle'', ''bank'', ''bank.business.approval.settled'', [''user|hold|credit|business-approval|'', ''subaccount|available|debit||'']),
     (''businessApprovalHold'', ''bank'', ''bank.business.approval.held'', [''subaccount|available|credit||'', ''subaccount|hold|debit|business-approval|'']),
     (''businessApprovalRelease'', ''bank'', ''bank.business.approval.released'', [''subaccount|hold|credit|business-approval|'', ''subaccount|available|debit||'']),
     (''businessApprovalSettle'', ''bank'', ''bank.business.approval.settled'', [''subaccount|hold|credit|business-approval|'', ''user|available|debit||'']),
     (''businessApprovalSettle'', ''bank'', ''bank.business.approval.settled'', [''subaccount|hold|credit|business-approval|'', ''subaccount|available|debit||'']),
     (''businessPayroll'', ''bank'', ''bank.business.payroll.settled'', [''user|available|credit||'', ''user|available|debit||'']),
     (''businessPayroll'', ''bank'', ''bank.business.payroll.settled'', [''user|available|credit||'', ''user|available|debit||'', ''user|available|debit||'']),
     (''businessPayroll'', ''bank'', ''bank.business.payroll.settled'', [''user|available|credit||'', ''subaccount|available|debit||'']),
     (''businessPayroll'', ''bank'', ''bank.business.payroll.settled'', [''user|available|credit||'', ''subaccount|available|debit||'', ''subaccount|available|debit||'']),
     (''businessPayroll'', ''bank'', ''bank.business.payroll.settled'', [''subaccount|available|credit||'', ''user|available|debit||'']),
     (''businessPayroll'', ''bank'', ''bank.business.payroll.settled'', [''subaccount|available|credit||'', ''user|available|debit||'', ''user|available|debit||'']),
     (''businessPayroll'', ''bank'', ''bank.business.payroll.settled'', [''subaccount|available|credit||'', ''subaccount|available|debit||'']),
     (''businessPayroll'', ''bank'', ''bank.business.payroll.settled'', [''subaccount|available|credit||'', ''subaccount|available|debit||'', ''subaccount|available|debit||''])]"

definition liquidate_table :: "(string \<times> string \<times> string \<times> string list) list" where
  "liquidate_table = [
     (''loanLiquidate'', ''bank'', ''loan.liquidated'', [''user|collateral|credit|loan|'', ''user|available|debit||'', ''user|available|credit||'', ''user|available|debit||'']),
     (''loanLiquidate'', ''bank'', ''loan.liquidated'', [''user|collateral|credit|loan|'', ''user|available|debit||'', ''user|available|credit||'', ''house|available|debit||fees:bank'']),
     (''loanLiquidate'', ''bank'', ''loan.liquidated'', [''user|collateral|credit|loan|'', ''user|available|debit||'', ''user|available|credit||'', ''house|available|debit||fees:bank'', ''user|available|debit||'']),
     (''loanLiquidate'', ''bank'', ''loan.liquidated'', [''user|collateral|credit|loan|'', ''user|available|debit||'', ''user|available|credit||'', ''module|available|debit||bank:loan-reserve'']),
     (''loanLiquidate'', ''bank'', ''loan.liquidated'', [''user|collateral|credit|loan|'', ''user|available|debit||'', ''user|available|credit||'', ''module|available|debit||bank:loan-reserve'', ''user|available|debit||'']),
     (''loanLiquidate'', ''bank'', ''loan.liquidated'', [''user|collateral|credit|loan|'', ''user|available|debit||'', ''user|available|credit||'', ''module|available|debit||bank:loan-reserve'', ''house|available|debit||fees:bank'']),
     (''loanLiquidate'', ''bank'', ''loan.liquidated'', [''user|collateral|credit|loan|'', ''user|available|debit||'', ''user|available|credit||'', ''module|available|debit||bank:loan-reserve'', ''house|available|debit||fees:bank'', ''user|available|debit||'']),
     (''loanLiquidate'', ''bank'', ''loan.liquidated'', [''user|collateral|credit|loan|'', ''house|available|debit||market-maker'', ''house|available|credit||market-maker'', ''user|available|debit||'']),
     (''loanLiquidate'', ''bank'', ''loan.liquidated'', [''user|collateral|credit|loan|'', ''house|available|debit||market-maker'', ''house|available|credit||market-maker'', ''house|available|debit||fees:bank'']),
     (''loanLiquidate'', ''bank'', ''loan.liquidated'', [''user|collateral|credit|loan|'', ''house|available|debit||market-maker'', ''house|available|credit||market-maker'', ''house|available|debit||fees:bank'', ''user|available|debit||'']),
     (''loanLiquidate'', ''bank'', ''loan.liquidated'', [''user|collateral|credit|loan|'', ''house|available|debit||market-maker'', ''house|available|credit||market-maker'', ''module|available|debit||bank:loan-reserve'']),
     (''loanLiquidate'', ''bank'', ''loan.liquidated'', [''user|collateral|credit|loan|'', ''house|available|debit||market-maker'', ''house|available|credit||market-maker'', ''module|available|debit||bank:loan-reserve'', ''user|available|debit||'']),
     (''loanLiquidate'', ''bank'', ''loan.liquidated'', [''user|collateral|credit|loan|'', ''house|available|debit||market-maker'', ''house|available|credit||market-maker'', ''module|available|debit||bank:loan-reserve'', ''house|available|debit||fees:bank'']),
     (''loanLiquidate'', ''bank'', ''loan.liquidated'', [''user|collateral|credit|loan|'', ''house|available|debit||market-maker'', ''house|available|credit||market-maker'', ''module|available|debit||bank:loan-reserve'', ''house|available|debit||fees:bank'', ''user|available|debit||''])]"

lemma AMT_eq: "AMT = 10000000000000000000"
  by code_simp

lemma QUOTE_eq: "QUOTE = 100000000000000000000"
  by code_simp

lemmas recipe_defs =
  deposit_def depositReverse_def marketMakerSeedFund_def withdrawHold_def withdrawSettle_def
  withdrawReverse_def tradeFill_def orderHold_def orderHoldRelease_def orderHoldAmend_def
  marketMakerOrderHold_def marketMakerOrderHoldRelease_def marketMakerMakerFill_def
  tradeFillFeeCorrection_def futuresMarginLock_def futuresMarginAdd_def futuresMarginRelease_def
  futuresRealizeLoss_def futuresRealizeProfit_def futuresFundingPay_def futuresInsuranceTopup_def
  futuresOrderMarginHold_def futuresOrderMarginRelease_def futuresOrderMarginApply_def escrowLock_def
  escrowRelease_def escrowRefund_def paymentCapture_def merchantSettlement_def paymentRefund_def
  paymentRefundReverse_def merchantProceedsPayoutHold_recipe_def merchantProceedsPayoutSettle_def
  merchantProceedsPayoutReverse_def stake_def unstake_def mintEmission_def burn_def feeCharge_def
  sweepFeesToRewards_def rewardPay_def chargebackOpen_def chargebackShortfall_def chargebackWon_def
  chargebackShortfallRecovered_def fxConversion_def fxConversionReverse_def fxConversionHold_def
  fxConversionLateFill_def fxConversionRelease_def marketPurchase_def marketListingFee_def
  marketPremiumPlacement_def payReceivedHold_def payReceivedRelease_def payReceivedReturn_def
  bankTransfer_def earnDeposit_def earnWithdraw_def earnPoolFund_def earnInterest_def
  businessApprovalHold_def businessApprovalRelease_def businessApprovalSettle_def businessPayroll_def
  loanCollateralLock_def loanCollateralRelease_def loanDraw_def loanRepay_def loanLiquidate_def
  loanBadDebt_def loanReserveFund_def bankTransferReversal_def subAccountTransfer_def

lemma sample_ids [simp]:
  "js_trim U_SAMPLE = U_SAMPLE" "js_trim U2_SAMPLE = U2_SAMPLE" "js_trim U3_SAMPLE = U3_SAMPLE" "js_trim S1_SAMPLE = S1_SAMPLE" "js_trim S2_SAMPLE = S2_SAMPLE"
  "U_SAMPLE \<noteq> []" "U2_SAMPLE \<noteq> []" "U3_SAMPLE \<noteq> []" "S1_SAMPLE \<noteq> []" "S2_SAMPLE \<noteq> []" "U_SAMPLE \<noteq> U2_SAMPLE" "S1_SAMPLE \<noteq> S2_SAMPLE" "U2_SAMPLE \<noteq> U_SAMPLE"
  by code_simp+

lemma sample_owners [simp]:
  "plain_owner (railBoundary ''crypto-native'' a)" "plain_owner (railBoundary ''card-sandbox'' a)" "plain_owner (railBoundary ''bank-rail'' a)" "plain_owner (railBoundary ''mm-seed'' a)"
  "plain_owner (venueBoundary ''binance-spot'' a)" "plain_owner (merchantClearing ''m1'' a)" "plain_owner (merchantProceeds ''m1'' a)" "plain_owner (earnPoolReserve ''pool1'' a)"
  by (simp_all add: plain_owner_def railBoundary_def venueBoundary_def merchantClearing_def merchantProceeds_def earnPoolReserve_def moduleAccount_def)

lemma sample_holds [gate_sig]:
  "merchantProceedsPayoutHold ''m1'' a ''w1'' = Inr (mk_ref Module ''pay:proceeds:m1'' a Hold (Some ''payout:w1''))"
  "merchantClearingHold ''m1'' a (CHR ''c'' # x) = Inr (mk_ref Module ''pay:clearing:m1'' a Hold (Some (''conversion:'' @ js_trim (CHR ''c'' # x))))"
  by (simp_all add: merchantProceedsPayoutHold_def merchantClearingHold_def js_trim_no_ws)

lemma sample_hold_sigs [gate_sig]:
  "account_sig (mk_ref Module ''pay:proceeds:m1'' a Hold (Some ''payout:w1'')) d = ''module|hold|'' @ d @ ''|payout|pay:proceeds:*''"
  "account_sig (mk_ref Module (''pay:clearing:m1'') a Hold (Some (''conversion:'' @ c))) d = ''module|hold|'' @ d @ ''|conversion|pay:clearing:*''"
  by (simp_all add: account_sig_def accountRole_def)

lemmas sample_hold_sigs_cons [gate_sig] = sample_hold_sigs(2) [simplified]

lemma sample_blank [simp]: "blank U_SAMPLE = False" "blank U2_SAMPLE = False" "blank U3_SAMPLE = False" "blank S1_SAMPLE = False" "blank S2_SAMPLE = False"
  by (simp_all add: blank_def)

lemma sample_keys:
  "(accountKey (userAvailable U_SAMPLE ''USDT'') = accountKey (userAvailable U2_SAMPLE ''USDT'')) = False"
  "(accountKey (userAvailable U_SAMPLE ''USDT'') = accountKey (subAccountAvailable S2_SAMPLE ''USDT'')) = False"
  "(accountKey (subAccountAvailable S1_SAMPLE ''USDT'') = accountKey (userAvailable U2_SAMPLE ''USDT'')) = False"
  "(accountKey (subAccountAvailable S1_SAMPLE ''USDT'') = accountKey (subAccountAvailable S2_SAMPLE ''USDT'')) = False"
  "(accountKey (userAvailable U_SAMPLE ''USDT'') = accountKey (railBoundary ''bank-rail'' ''USDT'')) = False"
  "(accountKey (subAccountAvailable S1_SAMPLE ''USDT'') = accountKey (railBoundary ''bank-rail'' ''USDT'')) = False"
  "(accountKey (railBoundary ''bank-rail'' ''USDT'') = accountKey (userAvailable U_SAMPLE ''USDT'')) = False"
  "(accountKey (railBoundary ''bank-rail'' ''USDT'') = accountKey (subAccountAvailable S1_SAMPLE ''USDT'')) = False"
  "(accountKey (userAvailable U2_SAMPLE ''USDT'') = accountKey (userAvailable U_SAMPLE ''USDT'')) = False"
  "(accountKey (userAvailable U3_SAMPLE ''USDT'') = accountKey (userAvailable U_SAMPLE ''USDT'')) = False"
  "(accountKey (userAvailable U3_SAMPLE ''USDT'') = accountKey (userAvailable U2_SAMPLE ''USDT'')) = False"
  "(accountKey (subAccountAvailable S2_SAMPLE ''USDT'') = accountKey (userAvailable U_SAMPLE ''USDT'')) = False"
  "(accountKey (subAccountAvailable S3_SAMPLE ''USDT'') = accountKey (userAvailable U_SAMPLE ''USDT'')) = False"
  "(accountKey (subAccountAvailable S3_SAMPLE ''USDT'') = accountKey (subAccountAvailable S2_SAMPLE ''USDT'')) = False"
  "(accountKey (userAvailable U2_SAMPLE ''USDT'') = accountKey (subAccountAvailable S1_SAMPLE ''USDT'')) = False"
  "(accountKey (userAvailable U3_SAMPLE ''USDT'') = accountKey (subAccountAvailable S1_SAMPLE ''USDT'')) = False"
  "(accountKey (subAccountAvailable S2_SAMPLE ''USDT'') = accountKey (subAccountAvailable S1_SAMPLE ''USDT'')) = False"
  "(accountKey (subAccountAvailable S3_SAMPLE ''USDT'') = accountKey (subAccountAvailable S1_SAMPLE ''USDT'')) = False"
  by code_simp+

lemma sample_day [simp]: "accrualCalendarDay ''2026-07-27''"
  by code_simp

lemma party_fields [simp]:
  "assetId (userAvailable u a) = a" "assetId (subAccountAvailable u a) = a" "assetId (marketMaker a) = a" "assetId (railBoundary r a) = a" "assetId (rewardsEngine a) = a"
  "kind (userAvailable u a) = Available" "kind (subAccountAvailable u a) = Available" "kind (railBoundary r a) = Available" "kind (rewardsEngine a) = Available"
  "ownerType (userAvailable u a) = User" "ownerType (subAccountAvailable u a) = Subaccount" "ownerType (railBoundary r a) = Treasury"
  "ownerId (userAvailable u a) = u" "ownerId (subAccountAvailable u a) = u"
  by (simp_all add: userAvailable_def subAccountAvailable_def marketMaker_def railBoundary_def rewardsEngine_def)

lemmas sample_eval = AMT_eq QUOTE_eq recipe_defs guard_defs gate_sig when_pos_def Let_def moneyE_def mulBps_int divideScaled_ceil divideScaled_floor sub_def
  namedSubAccount_def depositCreditedAccount_def marginPots_def orderPots_def businessApprovalHoldFor_def settledLeg_def sample_keys bankTransferKey_def BANK_TRANSFER_KEY_SPACES_def
  assertEscrowDisputeRuling_def assertEscrowRefundResolution_def refundPot_def recv_pots_def bankTransferReversalKey_def

lemma base_shapes: "list_all2 (\<lambda>s row. sample_shape s = Some row) base_samples base_table"
  unfolding base_samples_def base_table_def
  by (simp only: Let_def list.map concat.simps append.simps prod.case list_all2_Cons list_all2_Nil if_False if_True not_False_eq_True not_True_eq_False simp_thms;
      intro conjI TrueI; simp add: sample_eval)

lemma shape_shapes: "list_all2 (\<lambda>s row. sample_shape s = Some row) shape_samples shape_table"
  unfolding shape_samples_def shape_table_def
  by (simp only: Let_def list.map concat.simps append.simps prod.case list_all2_Cons list_all2_Nil if_False if_True not_False_eq_True not_True_eq_False simp_thms;
      intro conjI TrueI; simp add: sample_eval)

lemma transfer_shapes: "list_all2 (\<lambda>s row. sample_shape s = Some row) transfer_samples transfer_table"
  unfolding transfer_samples_def transfer_table_def
  by (simp only: Let_def list.map concat.simps append.simps prod.case list_all2_Cons list_all2_Nil if_False if_True not_False_eq_True not_True_eq_False simp_thms;
      intro conjI TrueI; simp add: sample_eval)

lemma business_shapes: "list_all2 (\<lambda>s row. sample_shape s = Some row) business_samples business_table"
  unfolding business_samples_def business_table_def
  by (simp only: Let_def list.map concat.simps append.simps prod.case list_all2_Cons list_all2_Nil if_False if_True not_False_eq_True not_True_eq_False simp_thms;
      intro conjI TrueI; simp add: sample_eval)

lemma liquidate_shapes: "list_all2 (\<lambda>s row. sample_shape s = Some row) liquidate_samples liquidate_table"
  unfolding liquidate_samples_def liquidate_table_def
  by (simp only: Let_def list.map concat.simps append.simps prod.case list_all2_Cons list_all2_Nil if_False if_True not_False_eq_True not_True_eq_False simp_thms;
      intro conjI TrueI; simp add: sample_eval)

section \<open>Keys\<close>

text \<open>The recipe of every key of the catalogue.\<close>

definition recipe_keys :: "(string \<times> string) list" where
  "recipe_keys = [
     (''bank::bank.business.approval.held'', ''businessApprovalHold''),
     (''bank::bank.business.approval.released'', ''businessApprovalRelease''),
     (''bank::bank.business.approval.settled'', ''businessApprovalSettle''),
     (''bank::bank.business.payroll.settled'', ''businessPayroll''),
     (''bank::bank.earn.deposited'', ''earnDeposit''),
     (''bank::bank.earn.interest'', ''earnInterest''),
     (''bank::bank.earn.pool.funded'', ''earnPoolFund''),
     (''bank::bank.earn.withdrawn'', ''earnWithdraw''),
     (''bank::bank.transfer.manual'', ''bankTransfer''),
     (''bank::bank.transfer.reversed'', ''bankTransferReversal''),
     (''bank::bank.transfer.scheduled'', ''bankTransfer''),
     (''bank::loan.bad_debt.covered'', ''loanBadDebt''),
     (''bank::loan.collateral.locked'', ''loanCollateralLock''),
     (''bank::loan.collateral.released'', ''loanCollateralRelease''),
     (''bank::loan.drawn'', ''loanDraw''),
     (''bank::loan.liquidated'', ''loanLiquidate''),
     (''bank::loan.repaid'', ''loanRepay''),
     (''bank::loan.reserve.funded'', ''loanReserveFund''),
     (''bank::pay.recv.held'', ''payReceivedHold''),
     (''bank::pay.recv.released'', ''payReceivedRelease''),
     (''bank::pay.recv.returned'', ''payReceivedReturn''),
     (''identity::identity.sub_account.transfer'', ''subAccountTransfer''),
     (''ledger::deposit.credited'', ''deposit''),
     (''ledger::deposit.reversed'', ''depositReverse''),
     (''ledger::withdraw.held'', ''withdrawHold''),
     (''ledger::withdraw.reversed'', ''withdrawReverse''),
     (''ledger::withdraw.settled'', ''withdrawSettle''),
     (''market::market.listing_fee'', ''marketListingFee''),
     (''market::market.premium_placement'', ''marketPremiumPlacement''),
     (''market::market.purchase'', ''marketPurchase''),
     (''p2p::p2p.escrow.lock'', ''escrowLock''),
     (''p2p::p2p.escrow.refund'', ''escrowRefund''),
     (''p2p::p2p.escrow.release'', ''escrowRelease''),
     (''pay::pay.chargeback.opened'', ''chargebackOpen''),
     (''pay::pay.chargeback.shortfall.covered'', ''chargebackShortfall''),
     (''pay::pay.chargeback.shortfall.recovered'', ''chargebackShortfallRecovered''),
     (''pay::pay.chargeback.won'', ''chargebackWon''),
     (''pay::pay.conversion.booked'', ''fxConversion''),
     (''pay::pay.conversion.held'', ''fxConversionHold''),
     (''pay::pay.conversion.late_booked'', ''fxConversionLateFill''),
     (''pay::pay.conversion.late_shortfall'', ''fxConversionLateFill''),
     (''pay::pay.conversion.released'', ''fxConversionRelease''),
     (''pay::pay.conversion.reversed'', ''fxConversionReverse''),
     (''pay::pay.proceeds.payout.held'', ''merchantProceedsPayoutHold''),
     (''pay::pay.proceeds.payout.reversed'', ''merchantProceedsPayoutReverse''),
     (''pay::pay.proceeds.payout.settled'', ''merchantProceedsPayoutSettle''),
     (''pay::pay.settled'', ''merchantSettlement''),
     (''pay::payment.captured'', ''paymentCapture''),
     (''pay::payment.refund.reversed'', ''paymentRefundReverse''),
     (''pay::payment.refunded'', ''paymentRefund''),
     (''token::token.burn'', ''burn''),
     (''token::token.emission'', ''mintEmission''),
     (''token::token.fee.swept'', ''sweepFeesToRewards''),
     (''token::token.stake'', ''stake''),
     (''token::token.unstake'', ''unstake''),
     (''trade::futures.funding.paid'', ''futuresFundingPay''),
     (''trade::futures.insurance.topup'', ''futuresInsuranceTopup''),
     (''trade::futures.loss.realized'', ''futuresRealizeLoss''),
     (''trade::futures.margin.add'', ''futuresMarginAdd''),
     (''trade::futures.margin.lock'', ''futuresMarginLock''),
     (''trade::futures.margin.release'', ''futuresMarginRelease''),
     (''trade::futures.order.margin.applied'', ''futuresOrderMarginApply''),
     (''trade::futures.order.margin.hold'', ''futuresOrderMarginHold''),
     (''trade::futures.order.margin.release'', ''futuresOrderMarginRelease''),
     (''trade::futures.profit.realized'', ''futuresRealizeProfit''),
     (''trade::mm.seed.funded'', ''marketMakerSeedFund''),
     (''trade::order.hold'', ''orderHold''),
     (''trade::order.hold.amend'', ''orderHoldAmend''),
     (''trade::order.hold.mm'', ''marketMakerOrderHold''),
     (''trade::order.hold.mm.released'', ''marketMakerOrderHoldRelease''),
     (''trade::order.hold.released'', ''orderHoldRelease''),
     (''trade::trade.fill'', ''tradeFill''),
     (''trade::trade.fill.fee.correction'', ''tradeFillFeeCorrection''),
     (''trade::trade.fill.mm_maker'', ''marketMakerMakerFill'')]"

definition catalog_table :: "(string \<times> string \<times> string \<times> string list) list" where
  "catalog_table = base_table @ shape_table @ transfer_table @ business_table @ liquidate_table"

fun row_key :: "string \<times> string \<times> string \<times> string list \<Rightarrow> string" where
  "row_key (n, m, r, legs) = m @ ''::'' @ r"

fun row_legs :: "string \<times> string \<times> string \<times> string list \<Rightarrow> string list" where
  "row_legs (n, m, r, legs) = legs"

definition fixed_reason :: "string \<times> string \<times> string \<times> string list \<Rightarrow> bool" where
  "fixed_reason row \<longleftrightarrow> fst row \<notin> set VARIABLE_REASON_RECIPES"

definition keyed :: "string \<times> string \<times> string \<times> string list \<Rightarrow> bool" where
  "keyed row \<longleftrightarrow> (fixed_reason row \<longrightarrow> map_of recipe_keys (row_key row) = Some (fst row))"

text \<open>The keys are listed in ascending order, so they are distinct.\<close>

fun key_less :: "string \<Rightarrow> string \<Rightarrow> bool" where
  "key_less xs [] = False"
| "key_less [] (y # ys) = True"
| "key_less (x # xs) (y # ys) = (of_char x < (of_char y :: nat) \<or> x = y \<and> key_less xs ys)"

lemma key_less_irrefl: "\<not> key_less xs xs"
  by (induction xs) simp_all

lemma key_less_trans: "key_less xs ys \<Longrightarrow> key_less ys zs \<Longrightarrow> key_less xs zs"
proof (induction xs ys arbitrary: zs rule: key_less.induct)
  case (3 x xs y ys)
  then show ?case by (cases zs) auto
qed (auto elim: key_less.elims)

lemma key_less_distinct:
  assumes "successively key_less keys"
  shows "distinct keys"
proof -
  have "sorted_wrt key_less keys"
    using assms key_less_trans by (subst (asm) successively_conv_sorted_wrt) (auto intro: transpI)
  then show ?thesis
    by (metis key_less_irrefl distinct_conv_nth linorder_neqE_nat sorted_wrt_nth_less)
qed

lemma recipe_keys_distinct: "distinct (map fst recipe_keys)"
  by (rule key_less_distinct) (simp add: recipe_keys_def)

definition known_key :: "string \<times> string \<Rightarrow> bool" where
  "known_key p \<longleftrightarrow> p \<in> set recipe_keys"

lemma keys_known: "list_all known_key recipe_keys"
  by (simp add: list_all_iff known_key_def)

lemmas known_keys = keys_known [unfolded recipe_keys_def list.pred_inject]

lemma keyed_known: "known_key (m @ ''::'' @ r, n) \<Longrightarrow> keyed (n, m, r, legs)"
  by (simp add: keyed_def known_key_def recipe_keys_distinct)

lemma keyed_variable: "keyed (''feeCharge'', m, r, legs)" "keyed (''rewardPay'', m, r, legs)"
  by (simp_all add: keyed_def fixed_reason_def VARIABLE_REASON_RECIPES_def)

lemma tables_keyed:
  "list_all keyed base_table" "list_all keyed shape_table" "list_all keyed transfer_table" "list_all keyed business_table" "list_all keyed liquidate_table"
  unfolding base_table_def shape_table_def transfer_table_def business_table_def liquidate_table_def
  by (simp_all add: keyed_known keyed_variable known_keys)

lemma catalog_keyed: "list_all keyed catalog_table"
  by (simp add: catalog_table_def tables_keyed)

lemma catalog_shapes: "list_all2 (\<lambda>s row. sample_shape s = Some row) sample_specs catalog_table"
  unfolding sample_specs_def extraShapePosts_def catalog_table_def
  by (intro list_all2_appendI base_shapes shape_shapes transfer_shapes business_shapes liquidate_shapes)

end
