(* ===== verification/Gate_Accept.thy ===== *)
theory Gate_Accept
  imports Gate_Catalog
begin

text \<open>
  What the catalogue of the recipe gate accepts: the rows of the table, and the repeated tails that two
  rows show growing. The catalogue is built without an error.
\<close>

section \<open>Grouping\<close>

definition rows_of :: "string \<Rightarrow> (string \<times> string \<times> string \<times> string list) list \<Rightarrow> string list list" where
  "rows_of k rows = map row_legs (filter (\<lambda>row. fixed_reason row \<and> row_key row = k) rows)"

lemma rows_of_snoc: "rows_of k (rows @ [row]) = rows_of k rows @ (if fixed_reason row \<and> row_key row = k then [row_legs row] else [])"
  by (simp add: rows_of_def)

text \<open>What a group holds of the rows of its key, and a catalogue row of the finished group.\<close>

definition entry_ok :: "string \<Rightarrow> string list list \<Rightarrow> catalog_group option \<Rightarrow> bool" where
  "entry_ok k legs e \<longleftrightarrow> (case e of None \<Rightarrow> legs = []
     | Some grp \<Rightarrow> map_of recipe_keys k = Some (grp_name grp) \<and> grp_legs grp = legs
         \<and> set (grp_signatures grp) = js_join '';'' ` set legs
         \<and> (\<forall>l \<in> set legs. grp_minLegs grp \<le> length l) \<and> grp_minLegs grp \<in> length ` set legs)"

definition spec_ok :: "string \<Rightarrow> string list list \<Rightarrow> catalog_row option \<Rightarrow> bool" where
  "spec_ok k legs e \<longleftrightarrow> (case e of None \<Rightarrow> legs = []
     | Some row \<Rightarrow> map_of recipe_keys k = Some (cat_name row) \<and> cat_repeats row = deriveRepeatRules legs
         \<and> set (cat_signatures row) = js_join '';'' ` set legs
         \<and> (\<forall>l \<in> set legs. cat_minLegs row \<le> length l) \<and> cat_minLegs row \<in> length ` set legs)"

definition groups_ok :: "(string \<times> catalog_group) list \<Rightarrow> (string \<times> string \<times> string \<times> string list) list \<Rightarrow> bool" where
  "groups_ok g rows \<longleftrightarrow> (\<forall>k. entry_ok k (rows_of k rows) (map_of g k))"

lemma group_sample_ok:
  assumes "groups_ok g rows" "keyed (n, req_module q, req_reason q, post_legs q)"
  shows "\<exists>g'. group_sample g (n, q) = Inr g' \<and> groups_ok g' (rows @ [(n, req_module q, req_reason q, post_legs q)])"
proof (cases "n \<in> set VARIABLE_REASON_RECIPES")
  case True
  then have "rows_of k (rows @ [(n, req_module q, req_reason q, post_legs q)]) = rows_of k rows" for k
    by (simp add: rows_of_snoc fixed_reason_def)
  then show ?thesis using assms(1) True by (simp add: groups_ok_def)
next
  case False
  let ?k = "catalog_key q" and ?legs = "post_legs q" and ?row = "(n, req_module q, req_reason q, post_legs q)"
  have k: "row_key ?row = ?k" "fixed_reason ?row" using False by (simp_all add: catalog_key_def fixed_reason_def)
  have name: "map_of recipe_keys ?k = Some n" using assms(2) k by (simp add: keyed_def)
  have upd: "groups_ok (AList.update ?k grp g) (rows @ [?row])" if "entry_ok ?k (rows_of ?k rows @ [?legs]) (Some grp)" for grp
    using assms(1) that k by (auto simp: groups_ok_def update_conv rows_of_snoc)
  have old: "entry_ok ?k (rows_of ?k rows) (map_of g ?k)" using assms(1) by (simp add: groups_ok_def)
  show ?thesis
  proof (cases "map_of g ?k")
    case None
    then show ?thesis
      using upd [of "\<lparr>grp_name = n, grp_minLegs = length ?legs, grp_signatures = [js_join '';'' ?legs], grp_legs = [?legs]\<rparr>"] old name False
      by (simp add: Let_def entry_ok_def)
  next
    case (Some grp)
    then have min: "min (grp_minLegs grp) (length ?legs) \<in> length ` set (rows_of ?k rows @ [?legs])" using old by (auto simp: entry_ok_def min_def)
    have "grp_name grp = n" using old Some name by (simp add: entry_ok_def)
    then show ?thesis
      using upd [of "grp\<lparr>grp_minLegs := min (grp_minLegs grp) (length ?legs), grp_signatures := List.insert (js_join '';'' ?legs) (grp_signatures grp),
          grp_legs := grp_legs grp @ [?legs]\<rparr>"] old min Some name False
      by (simp add: Let_def entry_ok_def min.coboundedI1)
  qed
qed

lemma group_samples_ok:
  assumes "groups_ok g rows" "list_all2 (\<lambda>(n, q) row. row = (n, req_module q, req_reason q, post_legs q)) xs rest" "list_all keyed rest"
  shows "\<exists>g'. group_samples g xs = Inr g' \<and> groups_ok g' (rows @ rest)"
  using assms
proof (induction xs arbitrary: g rows rest)
  case (Cons x xs)
  obtain n q where x: "x = (n, q)" by fastforce
  obtain row rest' where m: "rest = row # rest'" using Cons.prems(2) by (cases rest) auto
  have row: "row = (n, req_module q, req_reason q, post_legs q)" using Cons.prems(2) by (simp add: x m)
  obtain g1 where g1: "group_sample g (n, q) = Inr g1" "groups_ok g1 (rows @ [row])"
    using group_sample_ok [OF Cons.prems(1), of n q] Cons.prems(3) by (auto simp: m row)
  show ?case using Cons.IH [OF g1(2), of rest'] Cons.prems(2,3) g1(1) by (simp add: x m)
qed simp

lemma samplePosts_rows:
  "\<exists>xs. samplePosts = Inr xs \<and> list_all2 (\<lambda>(n, q) row. row = (n, req_module q, req_reason q, post_legs q)) xs catalog_table"
proof -
  have "\<exists>xs. mapE (\<lambda>(name, r). bindE r (\<lambda>post. Inr (name, post))) specs = Inr xs
      \<and> list_all2 (\<lambda>(n, q) row. row = (n, req_module q, req_reason q, post_legs q)) xs table"
    if "list_all2 (\<lambda>s row. sample_shape s = Some row) specs table" for specs table
    using that
  proof (induction specs arbitrary: table)
    case (Cons s specs)
    obtain row table' where t: "table = row # table'" "sample_shape s = Some row" "list_all2 (\<lambda>s row. sample_shape s = Some row) specs table'"
      using Cons.prems by (cases table) auto
    obtain q where q: "snd s = Inr q" "row = (fst s, req_module q, req_reason q, post_legs q)"
      using t(2) by (auto simp: sample_shape_def split: sum.splits)
    show ?case using Cons.IH [OF t(3)] q by (auto simp: t(1) case_prod_beta)
  qed simp
  then show ?thesis using catalog_shapes by (simp add: samplePosts_def)
qed

section \<open>The catalogue\<close>

definition key_legs :: "string \<Rightarrow> string list list" where
  "key_legs k = rows_of k catalog_table"

lemma catalog_built: "\<exists>c. buildCatalog = Inr c \<and> (\<forall>k. spec_ok k (key_legs k) (map_of c k))"
proof -
  obtain xs where xs: "samplePosts = Inr xs" "list_all2 (\<lambda>(n, q) row. row = (n, req_module q, req_reason q, post_legs q)) xs catalog_table"
    using samplePosts_rows by blast
  have "groups_ok [] []" by (simp add: groups_ok_def entry_ok_def rows_of_def)
  then obtain g where g: "group_samples [] xs = Inr g" "groups_ok g catalog_table"
    using group_samples_ok [OF _ xs(2) catalog_keyed, of "[]" "[]"] by auto
  let ?c = "map (\<lambda>(key, row). (key, catalog_of row)) g"
  have m: "map_of ?c k = map_option catalog_of (map_of g k)" for k by (simp add: map_of_map)
  have "spec_ok k (key_legs k) (map_of ?c k)" for k
    using g(2) unfolding groups_ok_def key_legs_def [symmetric] m
    by (cases "map_of g k") (auto simp: catalog_of_def spec_ok_def entry_ok_def dest: spec [of _ k])
  moreover have "buildCatalog = Inr ?c" unfolding buildCatalog_def xs(1) by (simp only: bindE.simps g(1))
  ultimately show ?thesis by blast
qed

lemma RECIPE_CATALOG_ok: "spec_ok k (key_legs k) (map_of RECIPE_CATALOG k)"
proof -
  obtain c where c: "buildCatalog = Inr c" "\<forall>k. spec_ok k (key_legs k) (map_of c k)" using catalog_built by blast
  show ?thesis unfolding RECIPE_CATALOG_def c(1) using c(2) by simp
qed

text \<open>Acceptance in terms of the table.\<close>

lemma catalogRecipe_iff:
  "catalogRecipe q = Some name \<longleftrightarrow>
     (let legs = key_legs (catalog_key q); sigs = post_legs q in
      map_of recipe_keys (catalog_key q) = Some name \<and> (\<exists>l \<in> set legs. length l \<le> length sigs)
      \<and> (js_join '';'' sigs \<in> js_join '';'' ` set legs \<or> matchesRepeat (deriveRepeatRules legs) sigs))"
proof -
  let ?k = "catalog_key q"
  note m = RECIPE_CATALOG_ok [of ?k]
  show ?thesis
  proof (cases "map_of RECIPE_CATALOG ?k")
    case None
    then show ?thesis using m by (simp add: catalogRecipe_def spec_ok_def)
  next
    case (Some row)
    have len: "length (req_entries q) = length (post_legs q)" by (simp add: post_legs_def)
    have min: "cat_minLegs row \<le> length (post_legs q) \<longleftrightarrow> (\<exists>l \<in> set (key_legs ?k). length l \<le> length (post_legs q))"
      using m Some by (auto simp: spec_ok_def intro: order_trans)
    have s: "set (cat_signatures row) = js_join '';'' ` set (key_legs ?k)" "cat_repeats row = deriveRepeatRules (key_legs ?k)"
      "map_of recipe_keys ?k = Some (cat_name row)" using m Some by (simp_all add: spec_ok_def)
    show ?thesis unfolding catalogRecipe_def Let_def Some option.case len s(1,2) not_le [symmetric] min using s(3) by auto
  qed
qed

lemma accept_row:
  assumes "map_of recipe_keys (catalog_key q) = Some name" "post_legs q \<in> set (key_legs (catalog_key q))"
  shows "catalogRecipe q = Some name"
  unfolding catalogRecipe_iff Let_def using assms by (auto intro!: bexI [of _ "post_legs q"])

lemma candidate: "catalogRecipe q = Some name \<Longrightarrow> name \<in> set (recipeCandidates q)"
  by (auto simp: recipeCandidates_def Let_def)

lemma key_legs_mem: "(n, m, r, legs) \<in> set catalog_table \<Longrightarrow> n \<notin> set VARIABLE_REASON_RECIPES \<Longrightarrow> legs \<in> set (key_legs (m @ ''::'' @ r))"
  by (force simp: key_legs_def rows_of_def fixed_reason_def)

text \<open>A post whose recipe, module, reason and legs are a row of the table.\<close>

lemma accept_table:
  assumes "(n, req_module q, req_reason q, post_legs q) \<in> set catalog_table" "n \<notin> set VARIABLE_REASON_RECIPES"
  shows "n \<in> set (recipeCandidates q)"
proof (rule candidate, rule accept_row)
  show "map_of recipe_keys (catalog_key q) = Some n"
    using catalog_keyed assms by (force simp: list_all_iff keyed_def fixed_reason_def catalog_key_def)
  show "post_legs q \<in> set (key_legs (catalog_key q))"
    using key_legs_mem [OF assms] by (simp add: catalog_key_def)
qed

end
