(* ===== verification/Gate_Recipes.thy ===== *)
theory Gate_Recipes
  imports Gate_Catalog
begin

text \<open>
  The posts of the client library are rows of the catalogue: for each recipe, every branch of it.
\<close>

definition table_row :: "string \<times> string \<times> string \<times> string list \<Rightarrow> bool" where
  "table_row row \<longleftrightarrow> row \<in> set catalog_table"

definition in_table :: "string \<Rightarrow> post_request \<Rightarrow> bool" where
  "in_table n q \<longleftrightarrow> table_row (n, req_module q, req_reason q, post_legs q)"

lemma table_rows: "list_all table_row catalog_table"
  by (simp add: list_all_iff table_row_def)

lemma rows_known [simp]:
  "list_all table_row base_table" "list_all table_row shape_table" "list_all table_row transfer_table"
  "list_all table_row business_table" "list_all table_row liquidate_table"
  using table_rows by (simp_all add: catalog_table_def)

lemmas known_rows [simp] =
  rows_known(1) [unfolded base_table_def list.pred_inject] rows_known(2) [unfolded shape_table_def list.pred_inject]
  rows_known(3) [unfolded transfer_table_def list.pred_inject] rows_known(4) [unfolded business_table_def list.pred_inject]
  rows_known(5) [unfolded liquidate_table_def list.pred_inject]

lemma in_table_post [simp]: "in_table n (mk_post k m r meta es) \<longleftrightarrow> table_row (n, m, r, map legSignature es)"
  by (simp add: in_table_def post_legs_def mk_post_def)

lemma gate_plain_post [simp]: "gate_plain (mk_post k m r meta es) \<longleftrightarrow> (\<forall>e \<in> set es. plain_owner (entry_account e))"
  by (simp add: gate_plain_def mk_post_def)

lemmas gate_eval = guard_defs gate_sig sig_module_hold when_pos_def Let_def moneyE_def
  namedSubAccount_def depositCreditedAccount_def marginPots_def orderPots_def settledLeg_def
  assertEscrowDisputeRuling_def assertEscrowRefundResolution_def refundPot_def recv_pots_def

named_theorems gate_recipe \<open>the posts of a recipe are rows of the catalogue\<close>

lemma deposit_in_table [gate_recipe]: "deposit u a v rail ref sid conf = Inr q \<Longrightarrow> gate_plain q \<Longrightarrow> in_table ''deposit'' q"
  by (auto simp: deposit_def gate_eval split: if_splits option.splits)

lemma depositReverse_in_table [gate_recipe]: "depositReverse u a v rail ref sid conf did = Inr q \<Longrightarrow> gate_plain q \<Longrightarrow> in_table ''depositReverse'' q"
  by (auto simp: depositReverse_def gate_eval split: if_splits option.splits)

lemma marketMakerSeedFund_in_table [gate_recipe]: "marketMakerSeedFund a v sid rail = Inr q \<Longrightarrow> gate_plain q \<Longrightarrow> in_table ''marketMakerSeedFund'' q"
  by (auto simp: marketMakerSeedFund_def gate_eval split: if_splits option.splits)

lemma withdrawHold_in_table [gate_recipe]: "withdrawHold u a v rail w = Inr q \<Longrightarrow> gate_plain q \<Longrightarrow> in_table ''withdrawHold'' q"
  by (auto simp: withdrawHold_def gate_eval split: if_splits option.splits)

lemma withdrawSettle_in_table [gate_recipe]: "withdrawSettle u a v rail w = Inr q \<Longrightarrow> gate_plain q \<Longrightarrow> in_table ''withdrawSettle'' q"
  by (auto simp: withdrawSettle_def gate_eval split: if_splits option.splits)

lemma withdrawReverse_in_table [gate_recipe]: "withdrawReverse u a v rail w = Inr q \<Longrightarrow> gate_plain q \<Longrightarrow> in_table ''withdrawReverse'' q"
  by (auto simp: withdrawReverse_def gate_eval split: if_splits option.splits)

lemma tradeFill_in_table [gate_recipe]: "tradeFill f m t mo to' b qa qty qamt s mf tf = Inr q \<Longrightarrow> gate_plain q \<Longrightarrow> in_table ''tradeFill'' q"
  by (auto simp: tradeFill_def gate_eval split: if_splits option.splits)

lemma tradeFillFeeCorrection_in_table [gate_recipe]: "tradeFillFeeCorrection f c u a d = Inr q \<Longrightarrow> gate_plain q \<Longrightarrow> in_table ''tradeFillFeeCorrection'' q"
  by (auto simp: tradeFillFeeCorrection_def gate_eval split: if_splits option.splits)

lemma orderHold_in_table [gate_recipe]: "orderHold oid u a v = Inr q \<Longrightarrow> gate_plain q \<Longrightarrow> in_table ''orderHold'' q"
  by (auto simp: orderHold_def gate_eval split: if_splits option.splits)

lemma orderHoldRelease_in_table [gate_recipe]: "orderHoldRelease oid u a v sq = Inr q \<Longrightarrow> gate_plain q \<Longrightarrow> in_table ''orderHoldRelease'' q"
  by (auto simp: orderHoldRelease_def gate_eval split: if_splits option.splits)

lemma orderHoldAmend_in_table [gate_recipe]: "orderHoldAmend oid u a v s = Inr q \<Longrightarrow> gate_plain q \<Longrightarrow> in_table ''orderHoldAmend'' q"
  by (auto simp: orderHoldAmend_def gate_eval split: if_splits option.splits)

lemma marketMakerOrderHold_in_table [gate_recipe]: "marketMakerOrderHold oid a v = Inr q \<Longrightarrow> gate_plain q \<Longrightarrow> in_table ''marketMakerOrderHold'' q"
  by (auto simp: marketMakerOrderHold_def gate_eval split: if_splits option.splits)

lemma marketMakerOrderHoldRelease_in_table [gate_recipe]: "marketMakerOrderHoldRelease oid a v sq = Inr q \<Longrightarrow> gate_plain q \<Longrightarrow> in_table ''marketMakerOrderHoldRelease'' q"
  by (auto simp: marketMakerOrderHoldRelease_def gate_eval split: if_splits option.splits)

lemma marketMakerMakerFill_in_table [gate_recipe]: "marketMakerMakerFill f t mo to' b qa qty qamt s mf tf = Inr q \<Longrightarrow> gate_plain q \<Longrightarrow> in_table ''marketMakerMakerFill'' q"
  by (auto simp: marketMakerMakerFill_def gate_eval split: if_splits option.splits)

lemma futuresMarginLock_in_table [gate_recipe]: "futuresMarginLock p u a v sid = Inr q \<Longrightarrow> gate_plain q \<Longrightarrow> in_table ''futuresMarginLock'' q"
  by (auto simp: futuresMarginLock_def gate_eval split: if_splits option.splits)

lemma futuresMarginAdd_in_table [gate_recipe]: "futuresMarginAdd p u a v sid s = Inr q \<Longrightarrow> gate_plain q \<Longrightarrow> in_table ''futuresMarginAdd'' q"
  by (auto simp: futuresMarginAdd_def gate_eval split: if_splits option.splits)

lemma futuresMarginRelease_in_table [gate_recipe]: "futuresMarginRelease p u a v sid sq fee = Inr q \<Longrightarrow> gate_plain q \<Longrightarrow> in_table ''futuresMarginRelease'' q"
  by (auto simp: futuresMarginRelease_def gate_eval split: if_splits option.splits)

lemma futuresOrderMarginHold_in_table [gate_recipe]: "futuresOrderMarginHold oid u a v sid = Inr q \<Longrightarrow> gate_plain q \<Longrightarrow> in_table ''futuresOrderMarginHold'' q"
  by (auto simp: futuresOrderMarginHold_def gate_eval split: if_splits option.splits)

lemma futuresOrderMarginRelease_in_table [gate_recipe]: "futuresOrderMarginRelease oid u a v sid sq = Inr q \<Longrightarrow> gate_plain q \<Longrightarrow> in_table ''futuresOrderMarginRelease'' q"
  by (auto simp: futuresOrderMarginRelease_def gate_eval split: if_splits option.splits)

lemma futuresOrderMarginApply_in_table [gate_recipe]: "futuresOrderMarginApply oid u a p f v rel fee sid = Inr q \<Longrightarrow> gate_plain q \<Longrightarrow> in_table ''futuresOrderMarginApply'' q"
  by (auto simp: futuresOrderMarginApply_def gate_eval split: if_splits option.splits)

lemma futuresRealizeProfit_in_table [gate_recipe]: "futuresRealizeProfit p u a v pr = Inr q \<Longrightarrow> gate_plain q \<Longrightarrow> in_table ''futuresRealizeProfit'' q"
  by (auto simp: futuresRealizeProfit_def gate_eval split: if_splits option.splits)

lemma futuresFundingPay_in_table [gate_recipe]: "futuresFundingPay f pu pp eu ep a v = Inr q \<Longrightarrow> gate_plain q \<Longrightarrow> in_table ''futuresFundingPay'' q"
  by (auto simp: futuresFundingPay_def gate_eval split: if_splits option.splits)

lemma futuresInsuranceTopup_in_table [gate_recipe]: "futuresInsuranceTopup t a v = Inr q \<Longrightarrow> gate_plain q \<Longrightarrow> in_table ''futuresInsuranceTopup'' q"
  by (auto simp: futuresInsuranceTopup_def gate_eval split: if_splits option.splits)

lemma escrowLock_in_table [gate_recipe]: "escrowLock t s b a v = Inr q \<Longrightarrow> gate_plain q \<Longrightarrow> in_table ''escrowLock'' q"
  by (auto simp: escrowLock_def gate_eval split: if_splits option.splits)

lemma escrowRelease_in_table [gate_recipe]: "escrowRelease t s b a v fee rul = Inr q \<Longrightarrow> gate_plain q \<Longrightarrow> in_table ''escrowRelease'' q"
  by (auto simp: escrowRelease_def gate_eval split: if_splits option.splits)

lemma escrowRefund_in_table [gate_recipe]: "escrowRefund t s b a v res rul = Inr q \<Longrightarrow> gate_plain q \<Longrightarrow> in_table ''escrowRefund'' q"
  by (auto simp: escrowRefund_def gate_eval split: if_splits option.splits)

lemma paymentCapture_in_table [gate_recipe]: "paymentCapture p m a v rail ref = Inr q \<Longrightarrow> gate_plain q \<Longrightarrow> in_table ''paymentCapture'' q"
  by (auto simp: paymentCapture_def gate_eval split: if_splits option.splits)

lemma merchantSettlement_in_table [gate_recipe]: "merchantSettlement m mu w a g fee' = Inr q \<Longrightarrow> gate_plain q \<Longrightarrow> in_table ''merchantSettlement'' q"
  by (auto simp: merchantSettlement_def gate_eval split: if_splits option.splits)

lemma paymentRefund_in_table [gate_recipe]: "paymentRefund r p m mu a v rail src pot = Inr q \<Longrightarrow> gate_plain q \<Longrightarrow> in_table ''paymentRefund'' q"
  by (auto simp: paymentRefund_def gate_eval split: if_splits option.splits)

lemma paymentRefundReverse_in_table [gate_recipe]: "paymentRefundReverse r p m mu a v rail src pot = Inr q \<Longrightarrow> gate_plain q \<Longrightarrow> in_table ''paymentRefundReverse'' q"
  by (auto simp: paymentRefundReverse_def gate_eval split: if_splits option.splits)

lemma merchantProceedsPayoutHold_in_table [gate_recipe]: "merchantProceedsPayoutHold_recipe m a v rail w = Inr q \<Longrightarrow> gate_plain q \<Longrightarrow> in_table ''merchantProceedsPayoutHold'' q"
  by (auto simp: merchantProceedsPayoutHold_recipe_def gate_eval split: if_splits option.splits)

lemma merchantProceedsPayoutSettle_in_table [gate_recipe]: "merchantProceedsPayoutSettle m a v rail w = Inr q \<Longrightarrow> gate_plain q \<Longrightarrow> in_table ''merchantProceedsPayoutSettle'' q"
  by (auto simp: merchantProceedsPayoutSettle_def gate_eval split: if_splits option.splits)

lemma merchantProceedsPayoutReverse_in_table [gate_recipe]: "merchantProceedsPayoutReverse m a v rail w = Inr q \<Longrightarrow> gate_plain q \<Longrightarrow> in_table ''merchantProceedsPayoutReverse'' q"
  by (auto simp: merchantProceedsPayoutReverse_def gate_eval split: if_splits option.splits)

lemma chargebackShortfall_in_table [gate_recipe]: "chargebackShortfall d p m a rail v = Inr q \<Longrightarrow> gate_plain q \<Longrightarrow> in_table ''chargebackShortfall'' q"
  by (auto simp: chargebackShortfall_def gate_eval split: if_splits option.splits)

lemma chargebackShortfallRecovered_in_table [gate_recipe]: "chargebackShortfallRecovered d p m a rail v = Inr q \<Longrightarrow> gate_plain q \<Longrightarrow> in_table ''chargebackShortfallRecovered'' q"
  by (auto simp: chargebackShortfallRecovered_def gate_eval split: if_splits option.splits)

lemma stake_in_table [gate_recipe]: "stake sk u a v tier = Inr q \<Longrightarrow> gate_plain q \<Longrightarrow> in_table ''stake'' q"
  by (auto simp: stake_def gate_eval split: if_splits option.splits)

lemma unstake_in_table [gate_recipe]: "unstake sk u a v tier = Inr q \<Longrightarrow> gate_plain q \<Longrightarrow> in_table ''unstake'' q"
  by (auto simp: unstake_def gate_eval split: if_splits option.splits)

lemma loanCollateralLock_in_table [gate_recipe]: "loanCollateralLock l u a v s = Inr q \<Longrightarrow> gate_plain q \<Longrightarrow> in_table ''loanCollateralLock'' q"
  by (auto simp: loanCollateralLock_def gate_eval split: if_splits option.splits)

lemma loanCollateralRelease_in_table [gate_recipe]: "loanCollateralRelease l u a v s = Inr q \<Longrightarrow> gate_plain q \<Longrightarrow> in_table ''loanCollateralRelease'' q"
  by (auto simp: loanCollateralRelease_def gate_eval split: if_splits option.splits)

lemma loanDraw_in_table [gate_recipe]: "loanDraw l u a v = Inr q \<Longrightarrow> gate_plain q \<Longrightarrow> in_table ''loanDraw'' q"
  by (auto simp: loanDraw_def gate_eval split: if_splits option.splits)

lemma loanRepay_in_table [gate_recipe]: "loanRepay l u a v i s = Inr q \<Longrightarrow> gate_plain q \<Longrightarrow> in_table ''loanRepay'' q"
  by (auto simp: loanRepay_def gate_eval split: if_splits option.splits)

lemma loanBadDebt_in_table [gate_recipe]: "loanBadDebt l a v = Inr q \<Longrightarrow> gate_plain q \<Longrightarrow> in_table ''loanBadDebt'' q"
  by (auto simp: loanBadDebt_def gate_eval split: if_splits option.splits)

lemma earnDeposit_in_table [gate_recipe]: "earnDeposit p pool u a v = Inr q \<Longrightarrow> gate_plain q \<Longrightarrow> in_table ''earnDeposit'' q"
  by (auto simp: earnDeposit_def gate_eval split: if_splits option.splits)

lemma earnWithdraw_in_table [gate_recipe]: "earnWithdraw p pool u a v = Inr q \<Longrightarrow> gate_plain q \<Longrightarrow> in_table ''earnWithdraw'' q"
  by (auto simp: earnWithdraw_def gate_eval split: if_splits option.splits)

lemma subAccountTransfer_in_table [gate_recipe]: "subAccountTransfer t sf st a v = Inr q \<Longrightarrow> gate_plain q \<Longrightarrow> in_table ''subAccountTransfer'' q"
  by (auto simp: subAccountTransfer_def gate_eval split: if_splits option.splits)

lemma payReceivedHold_in_table [gate_recipe]: "payReceivedHold h u a v = Inr q \<Longrightarrow> gate_plain q \<Longrightarrow> in_table ''payReceivedHold'' q"
  by (auto simp: payReceivedHold_def gate_eval split: if_splits option.splits)

lemma payReceivedRelease_in_table [gate_recipe]: "payReceivedRelease h u a v hv = Inr q \<Longrightarrow> gate_plain q \<Longrightarrow> in_table ''payReceivedRelease'' q"
  by (auto simp: payReceivedRelease_def gate_eval split: if_splits option.splits)

lemma payReceivedReturn_in_table [gate_recipe]: "payReceivedReturn h u a v hv pu = Inr q \<Longrightarrow> gate_plain q \<Longrightarrow> in_table ''payReceivedReturn'' q"
  by (auto simp: payReceivedReturn_def gate_eval split: if_splits option.splits)

lemma marketPurchase_in_table [gate_recipe]: "marketPurchase p l b vu a pr' comm = Inr q \<Longrightarrow> gate_plain q \<Longrightarrow> in_table ''marketPurchase'' q"
  by (auto simp: marketPurchase_def gate_eval split: if_splits option.splits)

lemma marketListingFee_in_table [gate_recipe]: "marketListingFee l vu a v = Inr q \<Longrightarrow> gate_plain q \<Longrightarrow> in_table ''marketListingFee'' q"
  by (auto simp: marketListingFee_def gate_eval split: if_splits option.splits)

lemma marketPremiumPlacement_in_table [gate_recipe]: "marketPremiumPlacement p l vu a v = Inr q \<Longrightarrow> gate_plain q \<Longrightarrow> in_table ''marketPremiumPlacement'' q"
  by (auto simp: marketPremiumPlacement_def gate_eval split: if_splits option.splits)

lemma fxConversion_in_table [gate_recipe]: "fxConversion c m mu v' fa ta famt tamt fee' spr = Inr q \<Longrightarrow> gate_plain q \<Longrightarrow> in_table ''fxConversion'' q"
  by (auto simp: fxConversion_def gate_eval split: if_splits option.splits)

lemma fxConversionHold_in_table [gate_recipe]: "fxConversionHold c m fa v = Inr q \<Longrightarrow> gate_plain q \<Longrightarrow> in_table ''fxConversionHold'' q"
  by (auto simp: fxConversionHold_def gate_eval split: if_splits option.splits)

lemma fxConversionRelease_in_table [gate_recipe]: "fxConversionRelease c m fa v sq = Inr q \<Longrightarrow> gate_plain q \<Longrightarrow> in_table ''fxConversionRelease'' q"
  by (auto simp: fxConversionRelease_def gate_eval split: if_splits option.splits)

lemma fxConversionReverse_in_table [gate_recipe]: "fxConversionReverse c m mu v' fa ta famt tamt fee' spr = Inr q \<Longrightarrow> gate_plain q \<Longrightarrow> in_table ''fxConversionReverse'' q"
  by (auto simp: fxConversionReverse_def gate_eval split: if_splits option.splits)

lemma fxConversionLateFill_in_table [gate_recipe]: "fxConversionLateFill c m mu v' fa ta famt tamt fee' spr aud fund = Inr q \<Longrightarrow> gate_plain q \<Longrightarrow> in_table ''fxConversionLateFill'' q"
  by (auto simp: fxConversionLateFill_def gate_eval split: if_splits option.splits)

section \<open>Recipes whose caller passes accounts\<close>

text \<open>
  The accounts that a caller passes have to be of the sorts that the samples show, and two recipes have
  a branch that no sample shows.
\<close>

definition is_account :: "(string \<Rightarrow> account_ref) \<Rightarrow> account_ref \<Rightarrow> bool" where
  "is_account f a \<longleftrightarrow> a = f (assetId a)"

definition user_account :: "account_ref \<Rightarrow> bool" where
  "user_account a \<longleftrightarrow> is_account (userAvailable (ownerId a)) a"

definition sub_account :: "account_ref \<Rightarrow> bool" where
  "sub_account a \<longleftrightarrow> is_account (subAccountAvailable (ownerId a)) a"

definition sampled :: "string \<Rightarrow> post_request \<Rightarrow> bool" where
  "sampled name q \<longleftrightarrow> (let as = map entry_account (req_entries q) in
     if name \<in> {''bankTransfer'', ''businessApprovalHold'', ''businessApprovalRelease'', ''businessApprovalSettle'', ''businessPayroll''}
     then list_all (\<lambda>a. kind a = Available \<longrightarrow> user_account a \<or> sub_account a) as
     else if name = ''bankTransferReversal'' then list_all user_account as
     else if name \<in> {''loanReserveFund'', ''earnPoolFund''} then user_account (as ! 0) \<or> is_account (houseFees ''bank'') (as ! 0)
     else if name = ''mintEmission'' then user_account (as ! 1) \<or> is_account rewardsEngine (as ! 1)
     else if name = ''burn'' then user_account (as ! 0) \<or> is_account rewardsEngine (as ! 0)
     else if name = ''loanLiquidate''
     then user_account (as ! 1) \<and> user_account (as ! 2) \<or> is_account marketMaker (as ! 1) \<and> is_account marketMaker (as ! 2)
     else if name \<in> {''chargebackOpen'', ''chargebackWon''} then length as = 3 \<longrightarrow> list_all (\<lambda>a. ownerType a \<noteq> User) as
     else name = ''futuresRealizeLoss'' \<longrightarrow> length as = 3 \<longrightarrow> list_all (\<lambda>a. ownerType a \<noteq> Subaccount) as)"

lemma sig_passed:
  "user_account a \<Longrightarrow> account_sig a d = ''user|available|'' @ d @ ''||''"
  "sub_account a \<Longrightarrow> account_sig a d = ''subaccount|available|'' @ d @ ''||''"
  "is_account (houseFees ''bank'') a \<Longrightarrow> account_sig a d = ''house|available|'' @ d @ ''||fees:bank''"
  "is_account rewardsEngine a \<Longrightarrow> account_sig a d = ''house|available|'' @ d @ ''||rewards-engine''"
  "is_account marketMaker a \<Longrightarrow> account_sig a d = ''house|available|'' @ d @ ''||market-maker''"
  using sig_parties [of "ownerId a" "assetId a" d] sig_house [of "assetId a" d]
  by (simp_all add: user_account_def sub_account_def is_account_def)

lemma passed_owner [simp]: "user_account a \<Longrightarrow> ownerType a = User" "sub_account a \<Longrightarrow> ownerType a = Subaccount"
  using party_fields(10,11) [of "ownerId a" "assetId a"] by (simp_all add: user_account_def sub_account_def is_account_def)

lemma sampled_post [simp]:
  "req_entries (mk_post k m r meta es) = es"
  by (simp add: mk_post_def)

lemma chargebackOpen_in_table [gate_recipe]: "chargebackOpen d p m mu a rail fc fb pot = Inr q \<Longrightarrow> gate_plain q \<Longrightarrow> sampled ''chargebackOpen'' q \<Longrightarrow> in_table ''chargebackOpen'' q"
  by (auto simp: chargebackOpen_def gate_eval sig_passed sampled_def businessApprovalHoldFor_def chargebackTotal_def split: if_splits option.splits)

lemma chargebackWon_in_table [gate_recipe]: "chargebackWon d p m mu a rail fc fb pot = Inr q \<Longrightarrow> gate_plain q \<Longrightarrow> sampled ''chargebackWon'' q \<Longrightarrow> in_table ''chargebackWon'' q"
  by (auto simp: chargebackWon_def gate_eval sig_passed sampled_def businessApprovalHoldFor_def chargebackTotal_def split: if_splits option.splits)

lemma futuresRealizeLoss_in_table [gate_recipe]: "futuresRealizeLoss p u a fm fi l sid dsid = Inr q \<Longrightarrow> gate_plain q \<Longrightarrow> sampled ''futuresRealizeLoss'' q \<Longrightarrow> in_table ''futuresRealizeLoss'' q"
  by (auto simp: futuresRealizeLoss_def gate_eval sig_passed sampled_def businessApprovalHoldFor_def chargebackTotal_def split: if_splits option.splits)

lemma mintEmission_in_table [gate_recipe]: "mintEmission ep a v dst = Inr q \<Longrightarrow> gate_plain q \<Longrightarrow> sampled ''mintEmission'' q \<Longrightarrow> in_table ''mintEmission'' q"
  by (auto simp: mintEmission_def gate_eval sig_passed sampled_def businessApprovalHoldFor_def chargebackTotal_def split: if_splits option.splits)

lemma burn_in_table [gate_recipe]: "burn rid a v frm = Inr q \<Longrightarrow> gate_plain q \<Longrightarrow> sampled ''burn'' q \<Longrightarrow> in_table ''burn'' q"
  by (auto simp: burn_def gate_eval sig_passed sampled_def businessApprovalHoldFor_def chargebackTotal_def split: if_splits option.splits)

lemma loanLiquidate_in_table [gate_recipe]: "loanLiquidate l u tr ca cs da pr pp ip pen sur cto pfrom mark = Inr q \<Longrightarrow> gate_plain q \<Longrightarrow> sampled ''loanLiquidate'' q \<Longrightarrow> in_table ''loanLiquidate'' q"
  by (auto simp: loanLiquidate_def gate_eval sig_passed sampled_def businessApprovalHoldFor_def chargebackTotal_def split: if_splits option.splits)

lemma loanReserveFund_in_table [gate_recipe]: "loanReserveFund f a v src' = Inr q \<Longrightarrow> gate_plain q \<Longrightarrow> sampled ''loanReserveFund'' q \<Longrightarrow> in_table ''loanReserveFund'' q"
  by (auto simp: loanReserveFund_def gate_eval sig_passed sampled_def businessApprovalHoldFor_def chargebackTotal_def split: if_splits option.splits)

lemma earnPoolFund_in_table [gate_recipe]: "earnPoolFund pool f a v src' = Inr q \<Longrightarrow> gate_plain q \<Longrightarrow> sampled ''earnPoolFund'' q \<Longrightarrow> in_table ''earnPoolFund'' q"
  by (auto simp: earnPoolFund_def gate_eval sig_passed sampled_def businessApprovalHoldFor_def chargebackTotal_def split: if_splits option.splits)

lemma bankTransferReversal_in_table [gate_recipe]: "bankTransferReversal ks' t occ cons frm to ov v = Inr q \<Longrightarrow> gate_plain q \<Longrightarrow> sampled ''bankTransferReversal'' q \<Longrightarrow> in_table ''bankTransferReversal'' q"
  by (auto simp: bankTransferReversal_def gate_eval sig_passed sampled_def businessApprovalHoldFor_def chargebackTotal_def split: if_splits option.splits)

lemma bankTransfer_in_table [gate_recipe]: "bankTransfer t occ frm to v knd ks = Inr q \<Longrightarrow> gate_plain q \<Longrightarrow> sampled ''bankTransfer'' q \<Longrightarrow> in_table ''bankTransfer'' q"
  by (auto simp: bankTransfer_def gate_eval sig_passed sampled_def businessApprovalHoldFor_def chargebackTotal_def split: if_splits option.splits)

lemma businessApprovalHold_in_table [gate_recipe]: "businessApprovalHold ap frm v = Inr q \<Longrightarrow> gate_plain q \<Longrightarrow> sampled ''businessApprovalHold'' q \<Longrightarrow> in_table ''businessApprovalHold'' q"
  by (auto simp: businessApprovalHold_def gate_eval sig_passed sampled_def businessApprovalHoldFor_def chargebackTotal_def split: if_splits option.splits)

lemma businessApprovalRelease_in_table [gate_recipe]: "businessApprovalRelease ap frm v = Inr q \<Longrightarrow> gate_plain q \<Longrightarrow> sampled ''businessApprovalRelease'' q \<Longrightarrow> in_table ''businessApprovalRelease'' q"
  by (auto simp: businessApprovalRelease_def gate_eval sig_passed sampled_def businessApprovalHoldFor_def chargebackTotal_def split: if_splits option.splits)

lemma businessApprovalSettle_in_table [gate_recipe]: "businessApprovalSettle ap frm to v = Inr q \<Longrightarrow> gate_plain q \<Longrightarrow> sampled ''businessApprovalSettle'' q \<Longrightarrow> in_table ''businessApprovalSettle'' q"
  by (auto simp: businessApprovalSettle_def gate_eval sig_passed sampled_def businessApprovalHoldFor_def chargebackTotal_def split: if_splits option.splits)

end
