(* ===== verification/Gate_Door.thy ===== *)
theory Gate_Door
  imports Gate_Accept Gate_Recipes
begin

text \<open>
  What passes the door of the ledger service: the posts of the client library, and a branch of two recipes
  that the samples miss.
\<close>

section \<open>Recipes with any number of recipients\<close>

lemma key_legs_tables:
  "key_legs k = rows_of k base_table @ rows_of k shape_table @ rows_of k transfer_table @ rows_of k business_table @ rows_of k liquidate_table"
  by (simp add: key_legs_def rows_of_def catalog_table_def)

lemma interest_rules:
  "deriveRepeatRules (key_legs ''bank::bank.earn.interest'')
     = [\<lparr>rr_prefix = [''module|available|credit||bank:earn:*''], rr_tokens = [''user|available|debit||''], rr_minTail = 1\<rparr>]"
  unfolding key_legs_tables by code_simp

lemma payroll_rules:
  "deriveRepeatRules (key_legs ''bank::bank.business.payroll.settled'') =
     [\<lparr>rr_prefix = [''user|available|credit||''], rr_tokens = [''subaccount|available|debit||'', ''user|available|debit||''], rr_minTail = 1\<rparr>,
      \<lparr>rr_prefix = [''subaccount|available|credit||''], rr_tokens = [''subaccount|available|debit||'', ''user|available|debit||''], rr_minTail = 1\<rparr>]"
  unfolding key_legs_tables by code_simp

lemma payroll_rule:
  "\<lparr>rr_prefix = [''user|available|credit||''], rr_tokens = [''subaccount|available|debit||'', ''user|available|debit||''], rr_minTail = 1\<rparr>
     \<in> set (deriveRepeatRules (key_legs ''bank::bank.business.payroll.settled''))"
  "\<lparr>rr_prefix = [''subaccount|available|credit||''], rr_tokens = [''subaccount|available|debit||'', ''user|available|debit||''], rr_minTail = 1\<rparr>
     \<in> set (deriveRepeatRules (key_legs ''bank::bank.business.payroll.settled''))"
  unfolding payroll_rules by simp_all

lemma accept_tail:
  assumes "catalog_key q = k" "map_of recipe_keys k = Some name" "rule \<in> set (deriveRepeatRules (key_legs k))" "post_legs q = p # tokens"
    and "rr_prefix rule = [p]" "rr_minTail rule = 1" "tokens \<noteq> []" "set tokens \<subseteq> set (rr_tokens rule)" "[p, t] \<in> set (key_legs k)"
  shows "name \<in> set (recipeCandidates q)"
proof (rule candidate, unfold catalogRecipe_iff Let_def, intro conjI disjI2)
  show "map_of recipe_keys (catalog_key q) = Some name" using assms(1,2) by simp
  have "2 \<le> length (post_legs q)" using assms(4,7) by (cases tokens) simp_all
  then show "\<exists>l \<in> set (key_legs (catalog_key q)). length l \<le> length (post_legs q)"
    using assms(1,9) by (intro bexI [of _ "[p, t]"]) simp_all
  show "matchesRepeat (deriveRepeatRules (key_legs (catalog_key q))) (post_legs q)"
    unfolding matchesRepeat_def list_ex_iff using assms
    by (intro bexI [of _ rule]) (auto simp: list_all_iff Suc_le_eq)
qed

lemma tail_names:
  "map_of recipe_keys ''bank::bank.earn.interest'' = Some ''earnInterest''"
  "map_of recipe_keys ''bank::bank.business.payroll.settled'' = Some ''businessPayroll''"
  by (simp_all add: recipe_keys_def)

lemma row_in_key: "table_row (n, m, r, legs) \<Longrightarrow> n \<notin> set VARIABLE_REASON_RECIPES \<Longrightarrow> m @ ''::'' @ r = k \<Longrightarrow> legs \<in> set (key_legs k)"
  using key_legs_mem [of n m r legs] by (simp add: table_row_def)

lemma tail_legs:
  "[''module|available|credit||bank:earn:*'', ''user|available|debit||''] \<in> set (key_legs ''bank::bank.earn.interest'')"
  "[''user|available|credit||'', ''user|available|debit||''] \<in> set (key_legs ''bank::bank.business.payroll.settled'')"
  "[''subaccount|available|credit||'', ''user|available|debit||''] \<in> set (key_legs ''bank::bank.business.payroll.settled'')"
  using row_in_key [of "''earnInterest''" "''bank''" "''bank.earn.interest''"]
    row_in_key [of "''businessPayroll''" "''bank''" "''bank.business.payroll.settled''"]
  by (simp_all add: VARIABLE_REASON_RECIPES_def)

lemma earnInterest_accepted:
  assumes "earnInterest pool d a ps = Inr q" "gate_plain q"
  shows "''earnInterest'' \<in> set (recipeCandidates q)"
proof (rule accept_tail [OF _ tail_names(1) _ _ _ _ _ _ tail_legs(1)])
  let ?tokens = "map (\<lambda>(userId, amount). ''user|available|debit||'') ps"
  show "catalog_key q = ''bank::bank.earn.interest''"
    using assms(1) by (auto simp: earnInterest_def guard_defs Let_def catalog_key_def mk_post_def split: if_splits)
  show "post_legs q = ''module|available|credit||bank:earn:*'' # ?tokens" "?tokens \<noteq> []"
    using assms by (auto simp: earnInterest_def guard_defs Let_def post_legs_def gate_sig split: if_splits)
qed (auto simp: interest_rules)

lemma businessPayroll_accepted:
  assumes "businessPayroll pid frm rcs = Inr q" "sampled ''businessPayroll'' q"
  shows "''businessPayroll'' \<in> set (recipeCandidates q)"
proof -
  have q: "catalog_key q = ''bank::bank.business.payroll.settled''" "rcs \<noteq> []" "kind frm = Available"
    "post_legs q = account_sig frm ''credit'' # map (\<lambda>(to, amount). account_sig to ''debit'') rcs"
    and lines: "payroll_lines (assetId frm) [accountKey frm] rcs = Inr ()"
    and e: "req_entries q = credit frm (sum_amount (map snd rcs)) # map (\<lambda>(to, amount). debit to amount) rcs"
    using assms(1) by (auto simp: businessPayroll_def guard_defs Let_def catalog_key_def mk_post_def post_legs_def gate_sig split: if_splits)
  have kinds: "kind to = Available" if "(to, v) \<in> set rcs" for to v
    using payroll_lines_Inr [OF lines] that by fastforce
  have to: "user_account to \<or> sub_account to" if "(to, v) \<in> set rcs" for to v
    using assms(2) kinds [OF that] that by (force simp: sampled_def e list_all_iff)
  have frm: "user_account frm \<or> sub_account frm" using assms(2) q(3) by (simp add: sampled_def e)
  have tokens: "set (map (\<lambda>(to, amount). account_sig to ''debit'') rcs) \<subseteq> {''subaccount|available|debit||'', ''user|available|debit||''}"
    using to sig_passed(1,2) by fastforce
  note accept = accept_tail [OF q(1) tail_names(2)]
  from frm show ?thesis
  proof
    assume "user_account frm"
    then show ?thesis using q(2,4) tokens by (intro accept [OF payroll_rule(1) _ _ _ _ _ tail_legs(2)]) (simp add: sig_passed(1), simp_all)
  next
    assume "sub_account frm"
    then show ?thesis using q(2,4) tokens by (intro accept [OF payroll_rule(2) _ _ _ _ _ tail_legs(3)]) (simp add: sig_passed(2), simp_all)
  qed
qed

section \<open>The posts of the client library pass\<close>

lemma not_variable:
  assumes "in_table n q" "n \<noteq> ''feeCharge''" "n \<noteq> ''rewardPay''"
  shows "n \<in> set (recipeCandidates q)"
  using assms accept_table [of n q] by (simp add: in_table_def table_row_def VARIABLE_REASON_RECIPES_def)

lemma matched_recipes:
  "feeCharge c u m rs mode = Inr q \<Longrightarrow> ''feeCharge'' \<in> set (recipeCandidates q)"
  "sweepFeesToRewards w m a v = Inr q \<Longrightarrow> ''sweepFeesToRewards'' \<in> set (recipeCandidates q)"
  "rewardPay r u a v rs' = Inr q \<Longrightarrow> ''rewardPay'' \<in> set (recipeCandidates q)"
proof -
  have m: "matchesFeeCharge q \<Longrightarrow> ''feeCharge'' \<in> set (recipeCandidates q)" "matchesFeeSweep q \<Longrightarrow> ''sweepFeesToRewards'' \<in> set (recipeCandidates q)"
    "matchesRewardPay q \<Longrightarrow> ''rewardPay'' \<in> set (recipeCandidates q)"
    by (auto simp: recipeCandidates_def Let_def split: option.splits)
  show "feeCharge c u m rs mode = Inr q \<Longrightarrow> ''feeCharge'' \<in> set (recipeCandidates q)"
    by (rule m) (auto simp: feeCharge_def guard_defs Let_def moneyE_def matchesFeeCharge_def isUserAvailable_def isHouseFees_def houseFees_def starts_with_def split: fee_mode.splits if_splits sum.splits)
  show "sweepFeesToRewards w m a v = Inr q \<Longrightarrow> ''sweepFeesToRewards'' \<in> set (recipeCandidates q)"
    by (rule m) (auto simp: sweepFeesToRewards_def guard_defs matchesFeeSweep_def isRewardsEngine_def isHouseFees_def houseFees_def starts_with_def rewardsEngine_def mk_post_def split: if_splits)
  show "rewardPay r u a v rs' = Inr q \<Longrightarrow> ''rewardPay'' \<in> set (recipeCandidates q)"
    by (rule m) (auto simp: rewardPay_def guard_defs matchesRewardPay_def isRewardsEngine_def isUserAvailable_def rewardsEngine_def mk_post_def split: if_splits)
qed

lemma accepted_post:
  assumes "recipe_post name pre q" "gate_plain q" "sampled name q"
  shows "name \<in> set (recipeCandidates q) \<and> assertKnownRecipePost q = Inr ()"
proof -
  have "name \<in> set (recipeCandidates q)"
    using assms
    by (cases rule: recipe_post.cases)
      (simp_all add: matched_recipes earnInterest_accepted businessPayroll_accepted gate_recipe not_variable)
  then show ?thesis by (auto simp: assertKnownRecipePost_def)
qed


definition demo_capture :: post_request where
  "demo_capture = projr (paymentCapture ''p1'' ''m1'' ''USDT'' 500 ''card'' ''ref1'')"


section \<open>What the samples miss\<close>

lemma chargeback_keys:
  "key_legs ''pay::pay.chargeback.opened'' = [[''module|available|credit||pay:clearing:*'', ''treasury|available|debit||rail:*''],
     [''user|available|credit||'', ''treasury|available|debit||rail:*''], [''module|available|credit||pay:proceeds:*'', ''treasury|available|debit||rail:*''],
     [''module|available|credit||pay:clearing:*'', ''module|available|credit||pay:proceeds:*'', ''treasury|available|debit||rail:*'']]"
  "key_legs ''pay::pay.chargeback.won'' = [[''treasury|available|credit||rail:*'', ''module|available|debit||pay:clearing:*''],
     [''treasury|available|credit||rail:*'', ''module|available|debit||pay:proceeds:*''],
     [''treasury|available|credit||rail:*'', ''module|available|debit||pay:clearing:*'', ''module|available|debit||pay:proceeds:*''],
     [''treasury|available|credit||rail:*'', ''user|available|debit||'']]"
  unfolding key_legs_tables by code_simp+

lemma chargeback_rules:
  "deriveRepeatRules (key_legs ''pay::pay.chargeback.opened'') = []" "deriveRepeatRules (key_legs ''pay::pay.chargeback.won'') = []"
  unfolding chargeback_keys by code_simp+

lemma three_legs_unmatched:
  "req_entries q = [a, b, c] \<Longrightarrow> \<not> matchesFeeCharge q \<and> \<not> matchesRewardPay q \<and> \<not> matchesFeeSweep q"
  by (simp add: matchesFeeCharge_def matchesRewardPay_def matchesFeeSweep_def)

lemma unknown_refused: "recipeCandidates q = [] \<Longrightarrow> assertKnownRecipePost q = Inl (LedgerError RECIPE_REQUIRED_CODE)"
  by (simp add: assertKnownRecipePost_def)

text \<open>C40. A dispute that is paid partly from clearing and partly from the merchant's own balance cannot be booked: the
  library issues the post, the samples show the two sources together only for the proceeds pot, and the gate
  refuses it. The same holds for giving the money back when the dispute is won.\<close>

theorem split_dispute_refused:
  assumes "chargebackOpen d p m mu a rail fc fb (Some UserPot) = Inr q \<or> chargebackWon d p m mu a rail fc fb (Some UserPot) = Inr q"
    and "0 < fc" "0 < fb" "gate_plain q"
  shows "assertKnownRecipePost q = Inl (LedgerError RECIPE_REQUIRED_CODE)"
proof (rule unknown_refused)
  have three: "\<exists>x y z. req_entries q = [x, y, z]"
    using assms by (auto simp: chargebackOpen_def chargebackWon_def guard_defs when_pos_def split: if_splits)
  have "catalogRecipe q = None"
  proof (rule ccontr)
    assume "catalogRecipe q \<noteq> None"
    then obtain n where "catalogRecipe q = Some n" by blast
    then have c: "js_join '';'' (post_legs q) \<in> js_join '';'' ` set (key_legs (catalog_key q)) \<or> matchesRepeat (deriveRepeatRules (key_legs (catalog_key q))) (post_legs q)"
      by (simp add: catalogRecipe_iff Let_def)
    have "catalog_key q = ''pay::pay.chargeback.opened''
          \<and> post_legs q = [''module|available|credit||pay:clearing:*'', ''user|available|credit||'', ''treasury|available|debit||rail:*'']
        \<or> catalog_key q = ''pay::pay.chargeback.won''
          \<and> post_legs q = [''treasury|available|credit||rail:*'', ''module|available|debit||pay:clearing:*'', ''user|available|debit||'']"
      using assms by (auto simp: chargebackOpen_def chargebackWon_def chargebackTotal_def settledLeg_def gate_eval catalog_key_def post_legs_def mk_post_def gate_plain_def split: if_splits)
    then show False
    proof
      assume "catalog_key q = ''pay::pay.chargeback.opened''
          \<and> post_legs q = [''module|available|credit||pay:clearing:*'', ''user|available|credit||'', ''treasury|available|debit||rail:*'']"
      then show False using c chargeback_rules(1) by (simp add: chargeback_keys matchesRepeat_def)
    next
      assume "catalog_key q = ''pay::pay.chargeback.won''
          \<and> post_legs q = [''treasury|available|credit||rail:*'', ''module|available|debit||pay:clearing:*'', ''user|available|debit||'']"
      then show False using c chargeback_rules(2) by (simp add: chargeback_keys matchesRepeat_def)
    qed
  qed
  then show "recipeCandidates q = []" using three three_legs_unmatched by (force simp: recipeCandidates_def Let_def)
qed

definition demo_dispute :: post_request where
  "demo_dispute = projr (chargebackOpen ''d1'' ''p1'' ''m1'' ''u1'' ''USDT'' ''card'' 300 200 (Some UserPot))"

theorem split_dispute_refused_witness:
  "assertKnownRecipePost demo_dispute = Inl (LedgerError RECIPE_REQUIRED_CODE)"
proof (rule split_dispute_refused)
  show "chargebackOpen ''d1'' ''p1'' ''m1'' ''u1'' ''USDT'' ''card'' 300 200 (Some UserPot) = Inr demo_dispute
      \<or> chargebackWon ''d1'' ''p1'' ''m1'' ''u1'' ''USDT'' ''card'' 300 200 (Some UserPot) = Inr demo_dispute"
    by (rule disjI1) code_simp
  show "(0::int) < 300" "(0::int) < 200" by simp_all
  show "gate_plain demo_dispute" by code_simp
qed

end
