(* ===== verification/Gate_Mint.thy ===== *)
theory Gate_Mint
  imports Gate_Door
begin

text \<open>
  What the recipe gate keeps out: every leg of an accepted post has a signature that the samples of its module and
  reason show, so an account that few recipes use is reached through those recipes only.
\<close>

section \<open>Joined signatures\<close>

lemma js_join_Cons: "js_join sep (s # xs) = s @ (if xs = [] then [] else sep @ js_join sep xs)"
  by (cases xs) simp_all

lemma js_join_split:
  assumes "js_join [c] xs = js_join [c] ys" "xs \<noteq> []" "ys \<noteq> []" "\<forall>x \<in> set xs. c \<notin> set x" "\<forall>y \<in> set ys. c \<notin> set y"
  shows "xs = ys"
  using assms
proof (induction xs arbitrary: ys)
  case (Cons s xs)
  obtain y zs where ys: "ys = y # zs" using Cons.prems(3) by (cases ys) simp_all
  have first: "takeWhile (\<lambda>x. x \<noteq> c) (js_join [c] (t # ts)) = t" if "c \<notin> set t" for t ts
    using that by (auto simp: js_join_Cons takeWhile_append takeWhile_eq_all_conv)
  have "s = y" using first [of s xs] first [of y zs] Cons.prems by (simp add: ys)
  then show ?case using Cons.prems Cons.IH [of zs] by (auto simp: ys js_join_Cons split: if_splits)
qed simp

section \<open>Legs of accepted posts\<close>

definition rule_legs :: "repeat_rule \<Rightarrow> string set" where
  "rule_legs rule = set (rr_prefix rule) \<union> set (rr_tokens rule)"

definition rules_within :: "string set \<Rightarrow> (string \<times> repeat_rule) list \<Rightarrow> bool" where
  "rules_within L rules \<longleftrightarrow> (\<forall>p \<in> set rules. rule_legs (snd p) \<subseteq> L)"

lemma rules_within_update: "rules_within L rules \<Longrightarrow> rule_legs r \<subseteq> L \<Longrightarrow> rules_within L (AList.update k r rules)"
  by (induction rules) (auto simp: rules_within_def)

lemma rules_within_lookup: "rules_within L rules \<Longrightarrow> map_of rules k = Some r \<Longrightarrow> rule_legs r \<subseteq> L"
  by (drule map_of_SomeD) (fastforce simp: rules_within_def)

lemma repeat_step_within:
  assumes "rules_within L rules" "set l \<subseteq> L"
  shows "rules_within L (repeat_step samples rules l)"
proof (cases "length l < 2")
  case False
  then have "last l \<in> L" using assms(2) by (cases l) auto
  moreover have "set (take n l) \<subseteq> L" for n using assms(2) set_take_subset [of n l] by blast
  ultimately have new: "rule_legs \<lparr>rr_prefix = take n l, rr_tokens = [last l], rr_minTail = m\<rparr> \<subseteq> L"
    and old: "map_of rules k = Some r \<Longrightarrow> rule_legs (r\<lparr>rr_tokens := List.insert (last l) (rr_tokens r), rr_minTail := m\<rparr>) \<subseteq> L" for n m k r
    using rules_within_lookup [OF assms(1), of k r] by (auto simp: rule_legs_def)
  show ?thesis
    unfolding repeat_step_def Let_def
    by (simp add: assms(1) rules_within_update new old split: option.splits)
qed (simp add: repeat_step_def assms(1))

lemma deriveRepeatRules_legs:
  assumes "rule \<in> set (deriveRepeatRules samples)"
  shows "rule_legs rule \<subseteq> \<Union> (set ` set samples)"
proof -
  have "rules_within L (foldl (repeat_step samples) rules ls)" if "rules_within L rules" "\<forall>l \<in> set ls. set l \<subseteq> L" for rules ls L
    using that by (induction ls arbitrary: rules) (simp_all add: repeat_step_within)
  from this [of "\<Union> (set ` set samples)" "[]" samples] show ?thesis
    using assms by (auto simp: deriveRepeatRules_def rules_within_def)
qed

lemma matchesRepeat_legs:
  assumes "matchesRepeat (deriveRepeatRules samples) sigs" "s \<in> set sigs"
  shows "\<exists>l \<in> set samples. s \<in> set l"
proof -
  obtain rule where r: "rule \<in> set (deriveRepeatRules samples)" "take (length (rr_prefix rule)) sigs = rr_prefix rule"
    "\<forall>s \<in> set (drop (length (rr_prefix rule)) sigs). s \<in> set (rr_tokens rule)"
    using assms(1) by (auto simp: matchesRepeat_def list_ex_iff list_all_iff)
  have "s \<in> set (take (length (rr_prefix rule)) sigs) \<union> set (drop (length (rr_prefix rule)) sigs)"
    using assms(2) by (metis append_take_drop_id set_append)
  then have "s \<in> rule_legs rule" using r(2,3) by (auto simp: rule_legs_def)
  then show ?thesis using deriveRepeatRules_legs [OF r(1)] by blast
qed

lemma table_clean: "list_all (\<lambda>row. row_legs row \<noteq> [] \<and> list_all (\<lambda>l. CHR '';'' \<notin> set l) (row_legs row)) catalog_table"
  unfolding catalog_table_def list_all_append by code_simp

definition clean_signatures :: "post_request \<Rightarrow> bool" where
  "clean_signatures q \<longleftrightarrow> list_all (\<lambda>e. CHR '';'' \<notin> set (legSignature e)) (req_entries q)"

lemma catalog_legs:
  assumes "catalogRecipe q = Some n" "clean_signatures q" "e \<in> set (req_entries q)"
  shows "\<exists>row \<in> set catalog_table. row_key row = catalog_key q \<and> legSignature e \<in> set (row_legs row)"
proof -
  let ?legs = "key_legs (catalog_key q)"
  have leg: "legSignature e \<in> set (post_legs q)" using assms(3) by (simp add: post_legs_def)
  have rows: "\<exists>row \<in> set catalog_table. row_key row = catalog_key q \<and> row_legs row = l" if "l \<in> set ?legs" for l
    using that by (auto simp: key_legs_def rows_of_def)
  have "\<exists>l \<in> set ?legs. legSignature e \<in> set l"
  proof (cases "matchesRepeat (deriveRepeatRules ?legs) (post_legs q)")
    case True
    then show ?thesis using matchesRepeat_legs leg by blast
  next
    case False
    then obtain l where l: "l \<in> set ?legs" "js_join '';'' (post_legs q) = js_join '';'' l"
      using assms(1) by (auto simp: catalogRecipe_iff Let_def)
    then have "l \<noteq> []" "\<forall>x \<in> set l. CHR '';'' \<notin> set x" using rows [OF l(1)] table_clean by (auto simp: list_all_iff)
    then have "post_legs q = l"
      using js_join_split [of "CHR '';''" "post_legs q" l] l(2) assms(2,3) by (fastforce simp: post_legs_def clean_signatures_def list_all_iff)
    then show ?thesis using l(1) leg by blast
  qed
  then show ?thesis using rows by blast
qed

section \<open>The mint\<close>

lemma mint_rows: "list_all (\<lambda>row. list_all (\<lambda>l. drop (length l - 5) l = ''|mint'' \<longrightarrow>
    row_key row = ''token::token.emission'' \<and> l = ''treasury|available|credit||mint'') (row_legs row)) catalog_table"
  unfolding catalog_table_def list_all_append by code_simp

text \<open>When the gate accepts a post that touches the mint account, whatever its other legs are, its module and reason are
  those of an emission and the mint is credited.\<close>

lemma mint_leg:
  assumes "known_kind (kind (entry_account e))" "assertKnownRecipePost q = Inr ()" "clean_signatures q" "e \<in> set (req_entries q)"
    and "ownerType (entry_account e) = Treasury" "ownerId (entry_account e) = ''mint''"
  shows "catalog_key q = ''token::token.emission'' \<and> entry_direction e = Credit \<and> recipeCandidates q = [''mintEmission'']"
proof -
  have role: "accountRole (entry_account e) = ''mint''" using assms(5,6) by (simp add: accountRole_def)
  have other: "\<not> matchesFeeCharge q" "\<not> matchesRewardPay q" "\<not> matchesFeeSweep q"
    using assms(4,5) by (auto simp: matchesFeeCharge_def matchesRewardPay_def matchesFeeSweep_def isUserAvailable_def isHouseFees_def isRewardsEngine_def
        split: list.splits if_splits)
  then obtain n where n: "catalogRecipe q = Some n"
    using assms(2) by (auto simp: assertKnownRecipePost_def recipeCandidates_def Let_def split: option.splits if_splits)
  from catalog_legs [OF n assms(3,4)] obtain row where row: "row \<in> set catalog_table" "row_key row = catalog_key q" "legSignature e \<in> set (row_legs row)"
    by blast
  obtain pre where sig: "legSignature e = pre @ ''|mint''"
    by (simp add: legSignature_def Let_def role)
  have l: "catalog_key q = ''token::token.emission''" "legSignature e = ''treasury|available|credit||mint''"
    using mint_rows row sig by (auto simp: list_all_iff)
  have "map_of recipe_keys ''token::token.emission'' = Some n" using n l(1) by (simp add: catalogRecipe_iff Let_def)
  then have "n = ''mintEmission''" by (simp add: recipe_keys_def)
  then have "recipeCandidates q = [''mintEmission'']" using other n by (simp add: recipeCandidates_def)
  then show ?thesis
    using l assms(1,5) by (cases "entry_direction e"; cases "kind (entry_account e)") (simp_all add: legSignature_def Let_def role known_kind_def)
qed

end
