(* ===== verification/Caller_Binding.thy ===== *)
theory Caller_Binding
  imports Gate_Mint Ledger_Props
begin

text \<open>
  Who may post what: the allow list of calling services (\<^verbatim>\<open>svc-ledger/src/caller-allowlist.ts\<close>), the judgement of a
  post against it and the counts of its violations (\<^verbatim>\<open>caller-binding.ts\<close>), and the door that runs both
  checks before the ledger (\<open>handleS2sPost\<close> of \<^verbatim>\<open>s2s-http.ts\<close>). The ledger behind the door is an argument.
\<close>

section \<open>The allow list\<close>

record recipe_grant =
  gr_module :: string
  gr_cite :: string

definition g_grant :: "string \<Rightarrow> string \<Rightarrow> recipe_grant" where
  "g_grant modul cite = \<lparr>gr_module = modul, gr_cite = cite\<rparr>"

definition LEDGER_POST_ALLOWLIST :: "(string \<times> (string \<times> recipe_grant) list) list" where
  "LEDGER_POST_ALLOWLIST = [
     (''svc-agents'', [
       (''feeCharge'', g_grant ''agents'' ''services/svc-agents/src/metering/meter.ts'')]),
     (''svc-bank'', [
       (''bankTransfer'', g_grant ''bank'' ''services/svc-bank/src/transfers/transfer-service.ts''),
       (''businessApprovalHold'', g_grant ''bank'' ''services/svc-bank/src/business/business-service.ts''),
       (''businessApprovalRelease'', g_grant ''bank'' ''services/svc-bank/src/business/business-service.ts''),
       (''businessApprovalSettle'', g_grant ''bank'' ''services/svc-bank/src/business/business-service.ts''),
       (''businessPayroll'', g_grant ''bank'' ''services/svc-bank/src/business/business-service.ts''),
       (''deposit'', g_grant ''ledger'' ''services/svc-bank/src/ramps/ramp-service.ts''),
       (''earnDeposit'', g_grant ''bank'' ''services/svc-bank/src/earn/earn-service.ts''),
       (''earnInterest'', g_grant ''bank'' ''services/svc-bank/src/earn/earn-service.ts''),
       (''earnPoolFund'', g_grant ''bank'' ''services/svc-bank/src/earn/earn-service.ts''),
       (''earnWithdraw'', g_grant ''bank'' ''services/svc-bank/src/earn/earn-service.ts''),
       (''loanBadDebt'', g_grant ''bank'' ''services/svc-bank/src/loans/loan-service.ts''),
       (''loanCollateralLock'', g_grant ''bank'' ''services/svc-bank/src/loans/loan-service.ts''),
       (''loanCollateralRelease'', g_grant ''bank'' ''services/svc-bank/src/loans/loan-service.ts''),
       (''loanDraw'', g_grant ''bank'' ''services/svc-bank/src/loans/loan-service.ts''),
       (''loanLiquidate'', g_grant ''bank'' ''services/svc-bank/src/loans/loan-service.ts''),
       (''loanRepay'', g_grant ''bank'' ''services/svc-bank/src/loans/loan-service.ts''),
       (''loanReserveFund'', g_grant ''bank'' ''services/svc-bank/src/loans/loan-service.ts''),
       (''rewardPay'', g_grant ''token'' ''services/svc-bank/src/cards/card-service.ts''),
       (''sweepFeesToRewards'', g_grant ''token'' ''services/svc-bank/src/cards/card-service.ts''),
       (''withdrawHold'', g_grant ''ledger'' ''services/svc-bank/src/cards/card-service.ts''),
       (''withdrawReverse'', g_grant ''ledger'' ''services/svc-bank/src/cards/card-service.ts''),
       (''withdrawSettle'', g_grant ''ledger'' ''services/svc-bank/src/cards/card-service.ts'')]),
     (''svc-identity'', [
       (''rewardPay'', g_grant ''token'' ''services/svc-identity/src/affiliates/payout-engine.ts''),
       (''sweepFeesToRewards'', g_grant ''token'' ''services/svc-identity/src/affiliates/payout-engine.ts'')]),
     (''svc-market'', [
       (''marketPurchase'', g_grant ''market'' ''services/svc-market/src/commerce/commerce-service.ts'')]),
     (''svc-mining-pool'', [
       (''rewardPay'', g_grant ''token'' ''services/svc-mining-pool/src/ledger.ts'')]),
     (''svc-p2p'', [
       (''escrowLock'', g_grant ''p2p'' ''services/svc-p2p/src/p2p-service.ts''),
       (''escrowRefund'', g_grant ''p2p'' ''services/svc-p2p/src/p2p-service.ts''),
       (''escrowRelease'', g_grant ''p2p'' ''services/svc-p2p/src/p2p-service.ts'')]),
     (''svc-pay'', [
       (''chargebackOpen'', g_grant ''pay'' ''services/svc-pay/src/chargeback-ledger.ts''),
       (''chargebackShortfall'', g_grant ''pay'' ''services/svc-pay/src/chargeback-ledger.ts''),
       (''chargebackShortfallRecovered'', g_grant ''pay'' ''services/svc-pay/src/chargeback-ledger.ts''),
       (''chargebackWon'', g_grant ''pay'' ''services/svc-pay/src/chargeback-ledger.ts''),
       (''deposit'', g_grant ''ledger'' ''services/svc-pay/src/user-money-service.ts''),
       (''depositReverse'', g_grant ''ledger'' ''services/svc-pay/src/rails/deposit-reorg.ts''),
       (''fxConversion'', g_grant ''pay'' ''services/svc-pay/src/conversion/service.ts''),
       (''fxConversionHold'', g_grant ''pay'' ''services/svc-pay/src/conversion/service.ts''),
       (''fxConversionLateFill'', g_grant ''pay'' ''services/svc-pay/src/conversion/service.ts''),
       (''fxConversionRelease'', g_grant ''pay'' ''services/svc-pay/src/conversion/service.ts''),
       (''fxConversionReverse'', g_grant ''pay'' ''services/svc-pay/src/conversion/service.ts''),
       (''merchantProceedsPayoutHold'', g_grant ''pay'' ''services/svc-pay/src/settlement-ledger.ts''),
       (''merchantProceedsPayoutReverse'', g_grant ''pay'' ''services/svc-pay/src/settlement-ledger.ts''),
       (''merchantProceedsPayoutSettle'', g_grant ''pay'' ''services/svc-pay/src/settlement-ledger.ts''),
       (''merchantSettlement'', g_grant ''pay'' ''services/svc-pay/src/payment-service/settlement.ts''),
       (''paymentCapture'', g_grant ''pay'' ''services/svc-pay/src/payment-service/lifecycle.ts''),
       (''paymentRefund'', g_grant ''pay'' ''services/svc-pay/src/payment-service/refunds.ts''),
       (''paymentRefundReverse'', g_grant ''pay'' ''services/svc-pay/src/payment-service/refunds.ts''),
       (''withdrawHold'', g_grant ''ledger'' ''services/svc-pay/src/user-money-service.ts''),
       (''withdrawReverse'', g_grant ''ledger'' ''services/svc-pay/src/user-money-service.ts''),
       (''withdrawSettle'', g_grant ''ledger'' ''services/svc-pay/src/user-money-service.ts'')]),
     (''svc-token'', [
       (''burn'', g_grant ''token'' ''services/svc-token/src/token-service.ts''),
       (''mintEmission'', g_grant ''token'' ''services/svc-token/src/token-service.ts''),
       (''rewardPay'', g_grant ''token'' ''services/svc-token/src/token-service.ts''),
       (''stake'', g_grant ''token'' ''services/svc-token/src/token-service.ts''),
       (''sweepFeesToRewards'', g_grant ''token'' ''services/svc-token/src/token-service.ts''),
       (''unstake'', g_grant ''token'' ''services/svc-token/src/token-service.ts'')]),
     (''svc-trade'', [
       (''futuresFundingPay'', g_grant ''trade'' ''services/svc-trade/src/futures/funding-settlement.ts''),
       (''futuresInsuranceTopup'', g_grant ''trade'' ''services/svc-trade/src/admin/insurance-topup.ts''),
       (''futuresMarginAdd'', g_grant ''trade'' ''services/svc-trade/src/futures/position-service.ts''),
       (''futuresMarginLock'', g_grant ''trade'' ''services/svc-trade/src/futures/position-service.ts''),
       (''futuresMarginRelease'', g_grant ''trade'' ''services/svc-trade/src/futures/liquidation-planner.ts''),
       (''futuresOrderMarginApply'', g_grant ''trade'' ''services/svc-trade/src/futures/matched-orders.ts''),
       (''futuresOrderMarginHold'', g_grant ''trade'' ''services/svc-trade/src/futures/matched-orders.ts''),
       (''futuresOrderMarginRelease'', g_grant ''trade'' ''services/svc-trade/src/futures/matched-orders.ts''),
       (''futuresRealizeLoss'', g_grant ''trade'' ''services/svc-trade/src/futures/liquidation-planner.ts''),
       (''futuresRealizeProfit'', g_grant ''trade'' ''services/svc-trade/src/futures/close-planner.ts''),
       (''marketMakerMakerFill'', g_grant ''trade'' ''services/svc-trade/src/otc/settle.ts''),
       (''marketMakerOrderHold'', g_grant ''trade'' ''services/svc-trade/src/otc/settle.ts''),
       (''marketMakerOrderHoldRelease'', g_grant ''trade'' ''services/svc-trade/src/mm/seed-market.ts''),
       (''orderHold'', g_grant ''trade'' ''services/svc-trade/src/otc/settle.ts''),
       (''orderHoldRelease'', g_grant ''trade'' ''services/svc-trade/src/convert/settle.ts''),
       (''rewardPay'', g_grant ''token'' ''services/svc-trade/src/copy/fee-share.ts''),
       (''sweepFeesToRewards'', g_grant ''token'' ''services/svc-trade/src/copy/fee-share.ts''),
       (''tradeFill'', g_grant ''trade'' ''services/svc-trade/src/spot/trade-service/fills.ts'')])]"

definition LEDGER_CALLER_SERVICES :: "string list" where
  "LEDGER_CALLER_SERVICES = map fst LEDGER_POST_ALLOWLIST"

definition grantFor :: "string \<Rightarrow> string \<Rightarrow> recipe_grant option" where
  "grantFor service recipe =
     (case map_of LEDGER_POST_ALLOWLIST service of None \<Rightarrow> None | Some grants \<Rightarrow> map_of grants recipe)"

definition modulesFor :: "string \<Rightarrow> string set" where
  "modulesFor service =
     (case map_of LEDGER_POST_ALLOWLIST service of None \<Rightarrow> {} | Some grants \<Rightarrow> set (map (\<lambda>p. gr_module (snd p)) grants))"

section \<open>Judging a post\<close>

definition CALLER_UNBOUND :: string where
  "CALLER_UNBOUND = ''ledger.caller_unbound''"

definition CALLER_FORBIDDEN :: string where
  "CALLER_FORBIDDEN = ''ledger.caller_forbidden''"

datatype post_caller = Bound string | Legacy "string option"

datatype violation_reason = ReasonUnbound | ReasonRecipe | ReasonModule

record binding_violation =
  bv_code :: string
  bv_reason :: violation_reason
  bv_service :: "string option"
  bv_module :: string
  bv_recipe :: "string option"

definition fail :: "string \<Rightarrow> violation_reason \<Rightarrow> string option \<Rightarrow> string \<Rightarrow> string option \<Rightarrow> binding_violation" where
  "fail code reason service modul recipe =
     \<lparr>bv_code = code, bv_reason = reason, bv_service = service, bv_module = modul, bv_recipe = recipe\<rparr>"

text \<open>The loop over the candidates: the first one that is granted, or the first refusal.\<close>

fun judge_candidates :: "string \<Rightarrow> string \<Rightarrow> binding_violation option \<Rightarrow> string list \<Rightarrow> binding_violation option + string" where
  "judge_candidates service modul firstForbidden [] = Inl firstForbidden"
| "judge_candidates service modul firstForbidden (recipe # candidates) =
     (let first = (\<lambda>reason. case firstForbidden of Some v \<Rightarrow> Some v
                    | None \<Rightarrow> Some (fail CALLER_FORBIDDEN reason (Some service) modul (Some recipe)))
      in case grantFor service recipe of
           None \<Rightarrow> judge_candidates service modul (first ReasonRecipe) candidates
         | Some grant \<Rightarrow>
             if modul \<noteq> gr_module grant then judge_candidates service modul (first ReasonModule) candidates
             else Inr recipe)"

definition judgeCallerPost :: "post_caller \<Rightarrow> post_request \<Rightarrow> binding_violation + string option" where
  "judgeCallerPost caller body =
     (case (case caller of Bound s \<Rightarrow> Some s | Legacy claimed \<Rightarrow> claimed) of
        None \<Rightarrow> Inl (fail CALLER_UNBOUND ReasonUnbound None (req_module body) None)
      | Some service \<Rightarrow>
          if service = [] then Inl (fail CALLER_UNBOUND ReasonUnbound None (req_module body) None)
          else let candidates = recipeCandidates body in
            if candidates = [] then
              (if req_module body \<notin> modulesFor service
               then Inl (fail CALLER_FORBIDDEN ReasonModule (Some service) (req_module body) None)
               else Inr None)
            else case judge_candidates service (req_module body) None candidates of
              Inr recipe \<Rightarrow> Inr (Some recipe)
            | Inl (Some v) \<Rightarrow> Inl v
            | Inl None \<Rightarrow> Inl (fail CALLER_FORBIDDEN ReasonRecipe (Some service) (req_module body) (Some (hd candidates))))"

section \<open>Counting violations\<close>

record binding_count =
  bc_reason :: violation_reason
  bc_service :: "string option"
  bc_count :: nat

record binding_state =
  bs_countRows :: "(string \<times> binding_count) list"
  bs_lastWarnAt :: "(string \<times> int) list"

definition WARN_INTERVAL_MS :: int where
  "WARN_INTERVAL_MS = 60000"

fun reason_name :: "violation_reason \<Rightarrow> string" where
  "reason_name ReasonUnbound = ''unbound''"
| "reason_name ReasonRecipe = ''recipe''"
| "reason_name ReasonModule = ''module''"

definition countKey :: "violation_reason \<Rightarrow> string option \<Rightarrow> string" where
  "countKey reason service = reason_name reason @ [CHR 0x00] @ (case service of None \<Rightarrow> [] | Some s \<Rightarrow> s)"

definition resetCallerBindingViolations :: "binding_state \<Rightarrow> binding_state" where
  "resetCallerBindingViolations st = \<lparr>bs_countRows = [], bs_lastWarnAt = []\<rparr>"

definition callerBindingViolationCount :: "binding_state \<Rightarrow> nat" where
  "callerBindingViolationCount st = sum_list (map (\<lambda>row. bc_count (snd row)) (bs_countRows st))"

definition callerBindingCounts :: "binding_state \<Rightarrow> binding_count list" where
  "callerBindingCounts st = map snd (bs_countRows st)"

definition callerBindingCount :: "binding_state \<Rightarrow> violation_reason \<Rightarrow> string option \<Rightarrow> nat" where
  "callerBindingCount st reason service =
     (case map_of (bs_countRows st) (countKey reason service) of None \<Rightarrow> 0 | Some row \<Rightarrow> bc_count row)"

definition callerBindingWarnAllowed :: "binding_state \<Rightarrow> string option \<Rightarrow> int \<Rightarrow> binding_state \<times> bool" where
  "callerBindingWarnAllowed st service nowMs =
     (let key = (case service of None \<Rightarrow> [] | Some s \<Rightarrow> s) in
      case map_of (bs_lastWarnAt st) key of
        Some previous \<Rightarrow> if nowMs - previous < WARN_INTERVAL_MS then (st, False)
                         else (st\<lparr>bs_lastWarnAt := AList.update key nowMs (bs_lastWarnAt st)\<rparr>, True)
      | None \<Rightarrow> (st\<lparr>bs_lastWarnAt := AList.update key nowMs (bs_lastWarnAt st)\<rparr>, True))"

definition addCallerBindingCount :: "binding_state \<Rightarrow> binding_violation \<Rightarrow> binding_state" where
  "addCallerBindingCount st violation =
     (let key = countKey (bv_reason violation) (bv_service violation);
          old = (case map_of (bs_countRows st) key of None \<Rightarrow> 0 | Some row \<Rightarrow> bc_count row)
      in st\<lparr>bs_countRows := AList.update key \<lparr>bc_reason = bv_reason violation, bc_service = bv_service violation, bc_count = old + 1\<rparr>
              (bs_countRows st)\<rparr>)"

text \<open>The observations are returned: they are what \<open>onViolation\<close> is called with, in order.\<close>

definition applyCallerBinding :: "binding_state \<Rightarrow> post_caller \<Rightarrow> post_request \<Rightarrow> binding_state \<times> binding_violation list \<times> (ledger_error + unit)" where
  "applyCallerBinding st caller body =
     (let judgment = judgeCallerPost caller body;
          unbound = (case caller of
              Legacy claimed \<Rightarrow>
                if (case judgment of Inl v \<Rightarrow> bv_reason v = ReasonUnbound | Inr _ \<Rightarrow> False) then []
                else [fail CALLER_UNBOUND ReasonUnbound claimed (req_module body) None]
            | Bound _ \<Rightarrow> []);
          observations = unbound @ (case judgment of Inl v \<Rightarrow> [v] | Inr _ \<Rightarrow> [])
      in (foldl addCallerBindingCount st observations, observations,
          case (judgment, caller) of (Inl v, Bound _) \<Rightarrow> Inl (LedgerError (bv_code v)) | _ \<Rightarrow> Inr ()))"

text \<open>A post on the wire, amounts as decimal strings, and what the client library sends (\<^verbatim>\<open>http-client.ts\<close>).\<close>

record wire_post =
  wp_key :: string
  wp_module :: string
  wp_reason :: string
  wp_entries :: "(account_ref \<times> direction \<times> string) list"
  wp_meta :: "meta_obj option"
  wp_correlationId :: "string option"

definition ledgerPostWire :: "post_request \<Rightarrow> wire_post" where
  "ledgerPostWire request =
     \<lparr>wp_key = idempotencyKey request, wp_module = req_module request, wp_reason = req_reason request,
      wp_entries = map (\<lambda>e. (entry_account e, entry_direction e, formatAmount (entry_amount e))) (req_entries request),
      wp_meta = Some (case req_meta request of None \<Rightarrow> [] | Some m \<Rightarrow> m), wp_correlationId = correlationId request\<rparr>"

datatype door_error = SchemaError | DoorError ledger_error

text \<open>The checks of the door run before the amounts are read, on everything else.\<close>

definition unread :: "wire_post \<Rightarrow> post_request" where
  "unread body =
     \<lparr>idempotencyKey = wp_key body, req_module = wp_module body, req_reason = wp_reason body,
      req_entries = map (\<lambda>(a, d, _). \<lparr>entry_account = a, entry_direction = d, entry_amount = 0\<rparr>) (wp_entries body),
      req_meta = wp_meta body, correlationId = (if wp_correlationId body = Some [] then None else wp_correlationId body)\<rparr>"

definition read_entry :: "account_ref \<times> direction \<times> string \<Rightarrow> ledger_error + entry_input" where
  "read_entry = (\<lambda>(a, d, s). bindE (moneyE (parseAmount (AString s)))
     (\<lambda>v. Inr \<lparr>entry_account = a, entry_direction = d, entry_amount = v\<rparr>))"

definition handleS2sPost ::
  "('l \<Rightarrow> post_request \<Rightarrow> 'l \<times> (ledger_error + 'tx)) \<Rightarrow> binding_state \<Rightarrow> 'l \<Rightarrow> wire_post \<Rightarrow> post_caller option
   \<Rightarrow> binding_state \<times> 'l \<times> (door_error + 'tx)" where
  "handleS2sPost ledger_post st lg body caller =
     (if \<not> postRequestSchema (wp_key body) (wp_module body) (wp_reason body) (wp_entries body) then (st, lg, Inl SchemaError)
      else let input = unread body;
               (st', bound) = (case caller of None \<Rightarrow> (st, Inr ())
                          | Some c \<Rightarrow> (case applyCallerBinding st c input of (st', _, r) \<Rightarrow> (st', r)))
      in case bindE bound (\<lambda>_. bindE (assertKnownRecipePost input) (\<lambda>_. mapE read_entry (wp_entries body))) of
           Inl e \<Rightarrow> (st', lg, Inl (DoorError e))
         | Inr entries \<Rightarrow> (case ledger_post lg (input\<lparr>req_entries := entries\<rparr>) of (lg', r) \<Rightarrow> (st', lg', map_sum DoorError id r)))"

section \<open>Granted posts pass\<close>

lemma judge_candidates_Inr:
  assumes "judge_candidates service modul v cs = Inr n"
  shows "n \<in> set cs \<and> (\<exists>gr. grantFor service n = Some gr \<and> gr_module gr = modul)"
  using assms by (induction cs arbitrary: v) (auto simp: Let_def split: option.splits if_splits)

lemma judge_candidates_granted:
  assumes "n \<in> set cs" "grantFor service n = Some gr" "gr_module gr = modul"
  shows "\<exists>n'. judge_candidates service modul v cs = Inr n'"
  using assms by (induction cs arbitrary: v) (auto simp: Let_def split: option.splits)

text \<open>The module of every recipe but \<open>feeCharge\<close>, in the order of the names.\<close>

definition recipe_modules :: "(string \<times> string) list" where
  "recipe_modules = [
     (''bankTransfer'', ''bank''),
     (''bankTransferReversal'', ''bank''),
     (''burn'', ''token''),
     (''businessApprovalHold'', ''bank''),
     (''businessApprovalRelease'', ''bank''),
     (''businessApprovalSettle'', ''bank''),
     (''businessPayroll'', ''bank''),
     (''chargebackOpen'', ''pay''),
     (''chargebackShortfall'', ''pay''),
     (''chargebackShortfallRecovered'', ''pay''),
     (''chargebackWon'', ''pay''),
     (''deposit'', ''ledger''),
     (''depositReverse'', ''ledger''),
     (''earnDeposit'', ''bank''),
     (''earnInterest'', ''bank''),
     (''earnPoolFund'', ''bank''),
     (''earnWithdraw'', ''bank''),
     (''escrowLock'', ''p2p''),
     (''escrowRefund'', ''p2p''),
     (''escrowRelease'', ''p2p''),
     (''futuresFundingPay'', ''trade''),
     (''futuresInsuranceTopup'', ''trade''),
     (''futuresMarginAdd'', ''trade''),
     (''futuresMarginLock'', ''trade''),
     (''futuresMarginRelease'', ''trade''),
     (''futuresOrderMarginApply'', ''trade''),
     (''futuresOrderMarginHold'', ''trade''),
     (''futuresOrderMarginRelease'', ''trade''),
     (''futuresRealizeLoss'', ''trade''),
     (''futuresRealizeProfit'', ''trade''),
     (''fxConversion'', ''pay''),
     (''fxConversionHold'', ''pay''),
     (''fxConversionLateFill'', ''pay''),
     (''fxConversionRelease'', ''pay''),
     (''fxConversionReverse'', ''pay''),
     (''loanBadDebt'', ''bank''),
     (''loanCollateralLock'', ''bank''),
     (''loanCollateralRelease'', ''bank''),
     (''loanDraw'', ''bank''),
     (''loanLiquidate'', ''bank''),
     (''loanRepay'', ''bank''),
     (''loanReserveFund'', ''bank''),
     (''marketListingFee'', ''market''),
     (''marketMakerMakerFill'', ''trade''),
     (''marketMakerOrderHold'', ''trade''),
     (''marketMakerOrderHoldRelease'', ''trade''),
     (''marketMakerSeedFund'', ''trade''),
     (''marketPremiumPlacement'', ''market''),
     (''marketPurchase'', ''market''),
     (''merchantProceedsPayoutHold'', ''pay''),
     (''merchantProceedsPayoutReverse'', ''pay''),
     (''merchantProceedsPayoutSettle'', ''pay''),
     (''merchantSettlement'', ''pay''),
     (''mintEmission'', ''token''),
     (''orderHold'', ''trade''),
     (''orderHoldAmend'', ''trade''),
     (''orderHoldRelease'', ''trade''),
     (''payReceivedHold'', ''bank''),
     (''payReceivedRelease'', ''bank''),
     (''payReceivedReturn'', ''bank''),
     (''paymentCapture'', ''pay''),
     (''paymentRefund'', ''pay''),
     (''paymentRefundReverse'', ''pay''),
     (''rewardPay'', ''token''),
     (''stake'', ''token''),
     (''subAccountTransfer'', ''identity''),
     (''sweepFeesToRewards'', ''token''),
     (''tradeFill'', ''trade''),
     (''tradeFillFeeCorrection'', ''trade''),
     (''unstake'', ''token''),
     (''withdrawHold'', ''ledger''),
     (''withdrawReverse'', ''ledger''),
     (''withdrawSettle'', ''ledger'')]"

definition known_module :: "string \<times> string \<Rightarrow> bool" where
  "known_module p \<longleftrightarrow> p \<in> set recipe_modules"

lemma modules_known: "list_all known_module recipe_modules"
  by (simp add: list_all_iff known_module_def)

lemmas known_modules = modules_known [unfolded recipe_modules_def list.pred_inject]

lemma known_module_unique: "known_module (n, m) \<Longrightarrow> known_module (n, m') \<Longrightarrow> m = m'"
proof -
  have "successively key_less (map fst recipe_modules)" by (simp add: recipe_modules_def)
  then have "distinct (map fst recipe_modules)" by (rule key_less_distinct)
  then show "known_module (n, m) \<Longrightarrow> known_module (n, m') \<Longrightarrow> m = m'" unfolding known_module_def by (rule eq_key_imp_eq_value)
qed

definition module_row :: "string \<times> string \<times> string \<times> string list \<Rightarrow> bool" where
  "module_row row \<longleftrightarrow> fst row = ''feeCharge'' \<or> known_module (fst row, fst (snd row))"

lemma table_modules: "list_all module_row catalog_table"
proof -
  have "list_all module_row base_table" "list_all module_row shape_table" "list_all module_row transfer_table"
    "list_all module_row business_table" "list_all module_row liquidate_table"
    unfolding base_table_def shape_table_def transfer_table_def business_table_def liquidate_table_def
    by (simp_all add: module_row_def known_modules)
  then show ?thesis by (simp add: catalog_table_def)
qed

lemma grant_modules:
  assumes "grantFor service n = Some gr"
  shows "n = ''feeCharge'' \<and> gr_module gr = ''agents'' \<or> known_module (n, gr_module gr)"
proof -
  have "list_all (\<lambda>p. list_all (\<lambda>q. fst q = ''feeCharge'' \<and> gr_module (snd q) = ''agents'' \<or> known_module (fst q, gr_module (snd q))) (snd p)) LEDGER_POST_ALLOWLIST"
    unfolding LEDGER_POST_ALLOWLIST_def by (simp add: g_grant_def known_modules)
  moreover obtain grants where "(service, grants) \<in> set LEDGER_POST_ALLOWLIST" "(n, gr) \<in> set grants"
    using assms by (auto simp: grantFor_def split: option.splits dest!: map_of_SomeD)
  ultimately show ?thesis by (fastforce simp: list_all_iff)
qed

lemma tail_modules:
  "sweepFeesToRewards w m a v = Inr q \<Longrightarrow> req_module q = ''token''" "rewardPay r u a v rs' = Inr q \<Longrightarrow> req_module q = ''token''"
  "earnInterest pool d a ps = Inr q \<Longrightarrow> req_module q = ''bank''" "businessPayroll pid frm rcs = Inr q \<Longrightarrow> req_module q = ''bank''"
  by (auto simp: sweepFeesToRewards_def rewardPay_def earnInterest_def businessPayroll_def guard_defs mk_post_def Let_def split: if_splits)

lemma recipe_module:
  assumes "recipe_post name pre q" "gate_plain q" "sampled name q" "name \<noteq> ''feeCharge''"
  shows "known_module (name, req_module q)"
proof -
  have row: "known_module (name, req_module q)" if "in_table name q"
    using that table_modules assms(4) by (fastforce simp: in_table_def table_row_def list_all_iff module_row_def)
  have "in_table name q \<or> known_module (name, req_module q)"
    using assms by (cases rule: recipe_post.cases) (simp_all add: gate_recipe tail_modules known_modules)
  then show ?thesis using row by blast
qed

lemma bound_granted:
  assumes "n \<in> set (recipeCandidates q)" "grantFor service n = Some gr" "gr_module gr = req_module q"
  shows "\<exists>n'. judgeCallerPost (Bound service) q = Inr (Some n')"
proof -
  have "service \<noteq> []" using assms(2) by (auto simp: grantFor_def LEDGER_POST_ALLOWLIST_def)
  then show ?thesis using judge_candidates_granted [OF assms, of None] assms(1) by (auto simp: judgeCallerPost_def Let_def)
qed

text \<open>The checks read module, reason, accounts and directions, never an amount.\<close>

lemma same_shape:
  assumes "req_module q = req_module q'" "req_reason q = req_reason q'"
    and "map (\<lambda>e. (entry_account e, entry_direction e)) (req_entries q) = map (\<lambda>e. (entry_account e, entry_direction e)) (req_entries q')"
  shows "recipeCandidates q = recipeCandidates q'"
proof -
  let ?f = "\<lambda>e. (entry_account e, entry_direction e)"
  have len: "length (req_entries q) = length (req_entries q')" using arg_cong [OF assms(3), of length] by simp
  have "map legSignature (req_entries x) = map (\<lambda>(a, d). legSignature \<lparr>entry_account = a, entry_direction = d, entry_amount = 0\<rparr>)
      (map ?f (req_entries x))" for x
    by (simp add: legSignature_def Let_def)
  from this [of q] this [of q'] have "map legSignature (req_entries q) = map legSignature (req_entries q')"
    unfolding assms(3) by (rule trans [OF _ sym])
  then have "post_legs q = post_legs q'" by (simp add: post_legs_def)
  then have "catalogRecipe q = catalogRecipe q'" unfolding catalogRecipe_def catalog_key_def assms(1,2) len by (simp only:)
  moreover have "matchesFeeCharge q = matchesFeeCharge q' \<and> matchesRewardPay q = matchesRewardPay q' \<and> matchesFeeSweep q = matchesFeeSweep q'"
  proof (cases "length (req_entries q) = 2")
    case True
    then obtain a b where ab: "req_entries q = [a, b]" by (auto simp: length_Suc_conv numeral_2_eq_2)
    then obtain a' b' where "req_entries q' = [a', b']" using len by (auto simp: length_Suc_conv numeral_2_eq_2 dest!: sym [where s = "Suc _"])
    then show ?thesis using ab assms by (simp add: matchesFeeCharge_def matchesRewardPay_def matchesFeeSweep_def)
  next
    case False
    then have "\<not> matchesFeeCharge x \<and> \<not> matchesRewardPay x \<and> \<not> matchesFeeSweep x" if "x = q \<or> x = q'" for x
      using that len by (auto simp: matchesFeeCharge_def matchesRewardPay_def matchesFeeSweep_def split: list.splits)
    then show ?thesis by blast
  qed
  ultimately show ?thesis by (simp add: recipeCandidates_def)
qed

lemma same_shape_checks:
  assumes "req_module q = req_module q'" "recipeCandidates q = recipeCandidates q'"
  shows "judgeCallerPost c q = judgeCallerPost c q'" "assertKnownRecipePost q = assertKnownRecipePost q'"
  unfolding judgeCallerPost_def assertKnownRecipePost_def assms by (rule refl)+

text \<open>What the service makes of a post that the library sent: the request with its optional fields in normal form.\<close>

definition received :: "post_request \<Rightarrow> post_request" where
  "received q = q\<lparr>req_meta := Some (case req_meta q of None \<Rightarrow> [] | Some m \<Rightarrow> m),
     correlationId := (if correlationId q = Some [] then None else correlationId q)\<rparr>"

definition fits_wire :: "post_request \<Rightarrow> bool" where
  "fits_wire q \<longleftrightarrow> (let w = ledgerPostWire q in postRequestSchema (wp_key w) (wp_module w) (wp_reason w) (wp_entries w))"

lemma mapE_retract: "(\<And>x. x \<in> set xs \<Longrightarrow> g (h x) = Inr x) \<Longrightarrow> mapE g (map h xs) = Inr xs"
  by (induction xs) simp_all

lemma read_sent:
  assumes "fits_wire q"
  shows "mapE read_entry (wp_entries (ledgerPostWire q)) = Inr (req_entries q)"
proof -
  have "read_entry (entry_account e, entry_direction e, formatAmount (entry_amount e)) = Inr e" if "e \<in> set (req_entries q)" for e
  proof -
    have "wire_amount (formatAmount (entry_amount e))"
      using assms that by (auto simp: fits_wire_def ledgerPostWire_def Let_def postRequestSchema_def entryInputSchema_def list_all_iff)
    then have "parseAmount (AString (formatAmount (entry_amount e))) = Inr (entry_amount e)"
      using wire_amount_parses parse_format by (metis sum.distinct(1))
    then show ?thesis by (simp add: read_entry_def moneyE_def)
  qed
  then show ?thesis by (simp add: ledgerPostWire_def mapE_retract)
qed

lemma unread_sent:
  "req_module (unread (ledgerPostWire q)) = req_module q" "recipeCandidates (unread (ledgerPostWire q)) = recipeCandidates q"
  "(unread (ledgerPostWire q))\<lparr>req_entries := req_entries q\<rparr> = received q"
proof -
  show m: "req_module (unread (ledgerPostWire q)) = req_module q" by (simp add: unread_def ledgerPostWire_def)
  show "recipeCandidates (unread (ledgerPostWire q)) = recipeCandidates q"
    by (rule same_shape [OF m]) (simp_all add: unread_def ledgerPostWire_def comp_def case_prod_beta)
  show "(unread (ledgerPostWire q))\<lparr>req_entries := req_entries q\<rparr> = received q"
    by (simp add: unread_def ledgerPostWire_def received_def)
qed



section \<open>The mint\<close>

lemma mint_grant: "grantFor service ''mintEmission'' = Some gr \<Longrightarrow> service = ''svc-token''"
  unfolding grantFor_def LEDGER_POST_ALLOWLIST_def by (simp split: if_splits)

lemma door_passed:
  assumes "handleS2sPost ledger_post st lg body caller = (st', lg', Inr tx)"
  shows "postRequestSchema (wp_key body) (wp_module body) (wp_reason body) (wp_entries body)" "assertKnownRecipePost (unread body) = Inr ()"
    and "caller = Some (Bound service) \<Longrightarrow> \<exists>r. judgeCallerPost (Bound service) (unread body) = Inr r"
proof -
  show "postRequestSchema (wp_key body) (wp_module body) (wp_reason body) (wp_entries body)"
    using assms by (auto simp: handleS2sPost_def split: if_splits)
  show "assertKnownRecipePost (unread body) = Inr ()"
    using assms by (auto simp: handleS2sPost_def case_prod_beta Let_def split: sum.splits if_splits)
  show "caller = Some (Bound service) \<Longrightarrow> \<exists>r. judgeCallerPost (Bound service) (unread body) = Inr r"
    using assms by (auto simp: handleS2sPost_def applyCallerBinding_def case_prod_beta Let_def split: sum.splits if_splits)
qed

text \<open>C19. The token supply grows only by an emission, and on the key of the token service only. When the door lets a
  post through to a ledger, whatever ledger it is, and a leg of it touches the mint account, then module and
  reason are those of an emission, the mint is credited, and a caller with a proven key is \<open>svc-token\<close>.
  Signatures are joined with semicolons, so none may contain one.\<close>

theorem only_token_service_mints:
  assumes "handleS2sPost ledger_post st lg body caller = (st', lg', Inr tx)" "clean_signatures (unread body)"
    and "(a, d, amount) \<in> set (wp_entries body)" "ownerType a = Treasury" "ownerId a = ''mint''"
  shows "wp_module body @ ''::'' @ wp_reason body = ''token::token.emission'' \<and> d = Credit
    \<and> (case caller of Some (Bound service) \<Rightarrow> service = ''svc-token'' | _ \<Rightarrow> True)"
proof -
  let ?q = "unread body" and ?e = "\<lparr>entry_account = a, entry_direction = d, entry_amount = 0\<rparr>"
  have e: "?e \<in> set (req_entries ?q)" using assms(3) by (force simp: unread_def)
  have "List.member ACCOUNT_KINDS (kind a)"
    using door_passed(1) [OF assms(1)] assms(3) by (auto simp: postRequestSchema_def entryInputSchema_def accountRefSchema_def list_all_iff)
  then have k: "known_kind (kind (entry_account ?e))" by (auto simp: known_kind_def ACCOUNT_KINDS_def)
  have o: "ownerType (entry_account ?e) = Treasury" "ownerId (entry_account ?e) = ''mint''" using assms(4,5) by simp_all
  have mint: "catalog_key ?q = ''token::token.emission''" "d = Credit" "recipeCandidates ?q = [''mintEmission'']"
    using mint_leg [OF k door_passed(2) [OF assms(1)] assms(2) e o] by simp_all
  have "service = ''svc-token''" if c: "caller = Some (Bound service)" for service
  proof -
    obtain r where "judgeCallerPost (Bound service) ?q = Inr r" using door_passed(3) [OF assms(1) c] by blast
    then obtain n where "judge_candidates service (req_module ?q) None [''mintEmission''] = Inr n"
      using mint by (auto simp: judgeCallerPost_def Let_def split: if_splits sum.splits option.splits)
    from judge_candidates_Inr [OF this] show ?thesis using mint_grant by auto
  qed
  then show ?thesis using mint by (auto simp: catalog_key_def unread_def split: option.splits post_caller.splits)
qed

definition demo_emission :: post_request where
  "demo_emission = projr (mintEmission (JSInt 7) ''INTA'' 1000 (rewardsEngine ''INTA''))"

lemma demo_emission_passes:
  "handleS2sPost (\<lambda>lg r. (lg, Inr r)) st lg (ledgerPostWire demo_emission) (Some (Bound ''svc-token'')) = (st, lg, Inr (received demo_emission))"
proof -
  have "mintEmission (JSInt 7) ''INTA'' 1000 (rewardsEngine ''INTA'') = Inr demo_emission" by code_simp
  then have m: "recipe_post ''mintEmission'' (spendable (rewardsEngine ''INTA'') \<and> assetId (rewardsEngine ''INTA'') = ''INTA'') demo_emission"
    by (rule recipe_post.intros)
  have p: "gate_plain demo_emission" "sampled ''mintEmission'' demo_emission" "fits_wire demo_emission" by code_simp+
  have gr: "grantFor ''svc-token'' ''mintEmission'' = Some (g_grant ''token'' ''services/svc-token/src/token-service.ts'')"
    by (simp add: grantFor_def LEDGER_POST_ALLOWLIST_def)
  have "assertKnownRecipePost demo_emission = Inr ()" "''mintEmission'' \<in> set (recipeCandidates demo_emission)"
    using accepted_post [OF m p(1,2)] by simp_all
  moreover have "gr_module (g_grant ''token'' ''services/svc-token/src/token-service.ts'') = req_module demo_emission" by code_simp
  ultimately obtain n where "judgeCallerPost (Bound ''svc-token'') demo_emission = Inr (Some n)" "assertKnownRecipePost demo_emission = Inr ()"
    using bound_granted [OF _ gr] by blast
  then show ?thesis
    using p(3) same_shape_checks [OF unread_sent(1,2)] unfolding handleS2sPost_def fits_wire_def Let_def
    by (simp add: applyCallerBinding_def read_sent [OF p(3)] unread_sent(3))
qed

theorem only_token_service_mints_witness:
  "wp_module (ledgerPostWire demo_emission) @ ''::'' @ wp_reason (ledgerPostWire demo_emission) = ''token::token.emission'' \<and> Credit = Credit
    \<and> (case Some (Bound ''svc-token'') of Some (Bound service) \<Rightarrow> service = ''svc-token'' | _ \<Rightarrow> True)"
proof (rule only_token_service_mints [OF demo_emission_passes])
  show "clean_signatures (unread (ledgerPostWire demo_emission))" by code_simp
  show "(mintBoundary ''INTA'', Credit, formatAmount 1000) \<in> set (wp_entries (ledgerPostWire demo_emission))" by code_simp
  show "ownerType (mintBoundary ''INTA'') = Treasury" "ownerId (mintBoundary ''INTA'') = ''mint''" by code_simp+
qed

section \<open>Counts\<close>

lemma update_sum:
  fixes f :: "'b \<Rightarrow> nat"
  assumes "distinct (map fst xs)"
  shows "sum_list (map (\<lambda>p. f (snd p)) (AList.update k v xs)) + (case map_of xs k of None \<Rightarrow> 0 | Some w \<Rightarrow> f w)
    = sum_list (map (\<lambda>p. f (snd p)) xs) + f v"
  using assms by (induction xs) (auto simp: map_of_eq_None_iff split: option.splits)

lemma addCallerBindingCount_total:
  assumes "distinct (map fst (bs_countRows st))"
  shows "callerBindingViolationCount (addCallerBindingCount st v) = Suc (callerBindingViolationCount st)"
    and "distinct (map fst (bs_countRows (addCallerBindingCount st v)))"
proof -
  let ?k = "countKey (bv_reason v) (bv_service v)"
  let ?old = "case map_of (bs_countRows st) ?k of None \<Rightarrow> 0 | Some row \<Rightarrow> bc_count row"
  let ?row = "\<lparr>bc_reason = bv_reason v, bc_service = bv_service v, bc_count = ?old + 1\<rparr>"
  have "sum_list (map (\<lambda>p. bc_count (snd p)) (AList.update ?k ?row (bs_countRows st))) + ?old
      = sum_list (map (\<lambda>p. bc_count (snd p)) (bs_countRows st)) + bc_count ?row" by (rule update_sum [OF assms])
  then show "callerBindingViolationCount (addCallerBindingCount st v) = Suc (callerBindingViolationCount st)"
    by (simp add: addCallerBindingCount_def callerBindingViolationCount_def Let_def)
  show "distinct (map fst (bs_countRows (addCallerBindingCount st v)))"
    using assms by (simp add: addCallerBindingCount_def Let_def distinct_update)
qed

text \<open>Every observation is counted once. A caller with a key is refused exactly when its post is a violation; a caller
  that only claims a name is never refused and always counted.\<close>

theorem binding_counts:
  assumes "distinct (map fst (bs_countRows st))" "applyCallerBinding st caller q = (st', obs, r)"
  shows "callerBindingViolationCount st' = callerBindingViolationCount st + length obs" "distinct (map fst (bs_countRows st'))"
    and "caller = Bound service \<Longrightarrow> r = Inr () \<longleftrightarrow> obs = []" "caller = Legacy claimed \<Longrightarrow> r = Inr () \<and> obs \<noteq> []"
proof -
  have "callerBindingViolationCount (foldl addCallerBindingCount s vs) = callerBindingViolationCount s + length vs
      \<and> distinct (map fst (bs_countRows (foldl addCallerBindingCount s vs)))" if "distinct (map fst (bs_countRows s))" for s vs
    using that by (induction vs arbitrary: s) (simp_all add: addCallerBindingCount_total)
  then show "callerBindingViolationCount st' = callerBindingViolationCount st + length obs" "distinct (map fst (bs_countRows st'))"
    using assms by (auto simp: applyCallerBinding_def Let_def)
  show "caller = Bound service \<Longrightarrow> r = Inr () \<longleftrightarrow> obs = []" "caller = Legacy claimed \<Longrightarrow> r = Inr () \<and> obs \<noteq> []"
    using assms(2) by (auto simp: applyCallerBinding_def Let_def split: sum.splits)
qed

text \<open>Warnings of one name are at least a minute apart.\<close>

lemma warnings_apart:
  assumes "callerBindingWarnAllowed st s t = (st', True)" "callerBindingWarnAllowed st' s t' = (st'', True)"
  shows "t + WARN_INTERVAL_MS \<le> t'"
  using assms by (auto simp: callerBindingWarnAllowed_def Let_def update_conv split: option.splits if_splits)

end
