(* ===== verification/Spec2Isabelle.thy ===== *)
theory Spec2Isabelle
  imports Ledger_Props Recipes Match_Tif Match_State Engine_Fills Tax_Lots Loan_Risk Caller_Binding
begin

text \<open>
  Verification of the money and matching core of INTAFACED: the double-entry ledger library and its
  recipes, the recipe gate of the ledger service, the matching engine with its journal, and two pure
  calculators that live on top of ledger amounts (tax lots and loan risk).

  \<^bold>\<open>The program.\<close> Services of the repository move value only by posting a \<^verbatim>\<open>PostRequest\<close> to the
  ledger. They build the request with a recipe of \<^verbatim>\<open>src/packages/ledger-client/src/recipes\<close>; the ledger checks
  it (\<^verbatim>\<open>client.ts\<close>), stages its entries and commits it under an idempotency key (\<^verbatim>\<open>memory-ledger.ts\<close> is the
  reference implementation); \<^verbatim>\<open>svc-ledger\<close> accepts at its door only posts that look like a recipe's
  (\<^verbatim>\<open>recipe-gate.ts\<close>). Orders are matched by \<^verbatim>\<open>svc-matching\<close>: \<^verbatim>\<open>engine/book.ts\<close> is one order book,
  \<^verbatim>\<open>engine/engine.ts\<close> the engine over all books, which writes a journal record for every command that
  changes state, and rebuilds itself from the journal after a restart.

  \<^bold>\<open>Ledger.\<close> \<open>Money\<close> models \<^verbatim>\<open>money.ts\<close> (\<open>bigint\<close> as \<open>int\<close>, division truncating as in JavaScript):
  parsing and printing are inverse, pro-rata splits lose nothing. \<open>Ledger_Types\<close>, \<open>Ledger_Accounts\<close> and
  \<open>Ledger_Client\<close> model \<^verbatim>\<open>types.ts\<close>, \<^verbatim>\<open>accounts.ts\<close> and \<^verbatim>\<open>client.ts\<close>; \<open>Json\<close> the part of JSON and sorting
  the fingerprint uses. \<open>Ledger_Memory\<close> models the class \<^verbatim>\<open>MemoryLedger\<close> as a record with one field per private
  field. \<open>Ledger_Book\<close> proves the invariant of its state (accounts, balances as sums of the journal, hash
  chains, indexes) and states the contract of a ledger as the locale \<open>ledger_client\<close>, interpreted on the
  reference ledger. \<open>Ledger_Props\<close>: a booked post changes each balance by the net of its entries, is accepted
  exactly when valid and funded entry by entry, retries return the original, a key reused for something else is
  refused, the sum per asset stays zero, the books reconcile with the journal. Objects that the code fills under asset ids
  do not store the id \<^verbatim>\<open>__proto__\<close> (\<open>assignable\<close> in \<open>Prelude\<close>): the sums and the hash chains are claimed for the
  other ids, and one property shows what happens to this one.

  \<^bold>\<open>Recipes.\<close> \<open>Recipes_Trade\<close>, \<open>Recipes_Bank\<close> and \<open>Recipes_Pay\<close> hold one definition per recipe, with its
  guards in the order of the source; \<open>Recipes\<close> is the table, as the relation \<open>recipe_post\<close>. Every request of every
  recipe is well formed, given well-formed accounts where the caller passes some, keys of different recipes never collide, the economics of a fill are exact. Below, in
  this theory, a compensating recipe restores every balance of the reference ledger.

  \<^bold>\<open>Recipe gate.\<close> \<open>Recipe_Gate\<close> models \<^verbatim>\<open>svc-ledger/src/recipe-gate.ts\<close>: signatures of legs, the sample posts,
  the catalogue built from them at start-up with its rules for repeated tails, and the door. \<open>Gate_Props\<close>
  gives the signature of each account; \<open>Gate_Catalog\<close> evaluates the 178 samples to a table; \<open>Gate_Accept\<close> shows
  that the catalogue is built and accepts exactly what the table says; \<open>Gate_Recipes\<close> that every branch of every
  recipe is a row; \<open>Gate_Door\<close> that the posts of the library pass, and which do not; \<open>Gate_Mint\<close> that a leg of
  an accepted post is a leg of a sample. \<open>Caller_Binding\<close> models \<^verbatim>\<open>caller-allowlist.ts\<close>, \<^verbatim>\<open>caller-binding.ts\<close> and the post
  handler of \<^verbatim>\<open>s2s-http.ts\<close>, which parses the body of a post by its schema and runs both checks in front of a
  ledger, and the body that the client library sends (\<^verbatim>\<open>http-client.ts\<close>): what a service is granted and fits the wire reaches the
  ledger, and the mint is reached by an emission on the key of the token service only.

  \<^bold>\<open>Order book.\<close> \<open>Match_Types\<close> and \<open>Match_Rules\<close> model \<^verbatim>\<open>types.ts\<close> and the rule files next to it;
  \<open>Match_Book\<close>, \<open>Match_Engine\<close>, \<open>Match_Ops\<close> and \<open>Match_Api\<close> the class \<^verbatim>\<open>OrderBook\<close>, method by method, as a record
  and functions that return the new book with the result. \<open>Match_Wf\<close>, \<open>Match_Inv\<close>, \<open>Match_Steps\<close>, \<open>Match_Loop\<close>,
  \<open>Match_Public\<close> and \<open>Match_Reach\<close> prove the invariant (levels sorted, one live entry per id, positions that
  sum to zero) for every public operation. \<open>Match_Fills\<close>, \<open>Match_Fillable\<close>, \<open>Match_Props\<close> and \<open>Match_Tif\<close> prove what
  a match does: both sides account for every unit, prices are resting prices within the limit and best first, no
  account trades with itself, the dry run of fill-or-kill counts what the sweep fills. A drain of stops fires each at
  most once and leaves none that is due. \<open>Match_State\<close> models snapshots and proves what a restored book has of the old one and what not.

  \<^bold>\<open>Engine.\<close> \<open>Engine_Control\<close> models the journal records and the market switches (one locale, \<open>market_switch\<close>,
  interpreted for each switch), \<open>Engine_Trail\<close> trailing stops, \<open>Engine_Wire\<close> the journal form of orders,
  \<open>Spread_Instrument\<close> listed spreads, \<open>Engine_State\<close>, \<open>Engine_Commands\<close>, \<open>Engine_Operators\<close> and \<open>Engine_Replay\<close> the
  engine with the layers of \<^verbatim>\<open>cod-fence.ts\<close> and \<^verbatim>\<open>rulebook-refuse.ts\<close>. \<open>Engine_Rows\<close>, \<open>Engine_Sync\<close>, \<open>Engine_Cancels\<close>
  and \<open>Engine_Recovery\<close> prove the recovery guarantee over regular runs, a step relation that leaves out the commands after which the code is not
  recoverable (\<open>regular_step\<close> lists them): a process started
  from the journal has the books and the control state of the one that wrote it. \<open>Engine_Fills\<close>: recovery
  announces every fill published in a regular run. Commands are atomic in the model; \<^verbatim>\<open>massCancel\<close> and \<^verbatim>\<open>sweepExpiry\<close> await between the
  cancels they issue, so a submission that slips in between is not represented. \<open>Engine_Props\<close>: closed markets take nothing, live orders can be cancelled, a
  switch needs two operators. \<open>Engine_Findings\<close> shows how the guarantee breaks outside its conditions.

  \<^bold>\<open>Calculators.\<close> \<open>Tax_Lots\<close> models \<^verbatim>\<open>svc-tax/src/lots.ts\<close>: lots conserve quantity and cost, and each
  draw of a departure is on a lot its method names. \<open>Loan_Risk\<close> models \<^verbatim>\<open>svc-bank/src/loans/risk.ts\<close>: when a loan may be
  liquidated and by how much, and that the waterfall of the proceeds is a post the liquidation recipe accepts.

  \<^bold>\<open>Parameters.\<close> Code outside the sources is an argument: SHA-256, \<open>randomUUID\<close> and the clock of the ledger
  (\<open>good_env\<close> says that drawn ids are distinct and not empty; the property of reused keys also takes the digest as injective), the ISO form and
  the parser of dates, the collation of
  \<open>localeCompare\<close>, the guards of option orders and of spread listings. Each property with such a
  hypothesis has a witness with a concrete instance.

  \<^bold>\<open>Loops.\<close> Loops are structural recursion where they walk a list. The binary search, the sweep of the book, the
  draining of stops, the choice and closing of lots and the days to accrue are \<open>function\<close>s with a measure (the width
  of the range, the orders and stops that are left, the days to go). No model uses fuel. Every model function is total.

  \<^bold>\<open>Defects shown.\<close> Account keys of two accounts can coincide when ids contain colons, and entries in the
  asset \<^verbatim>\<open>__proto__\<close> count as balanced whatever they sum to (\<open>Ledger_Props\<close>); a
  restored book forgets that a pair was cleared (\<open>Match_State\<close>); a mass cancel in maintenance, a refused retry and a mark
  that fires a stop leave the engine out of step with its journal (\<open>Engine_Findings\<close>); the penalty of a rung
  sold at its mark is never paid (\<open>Loan_Risk\<close>); the gate refuses a dispute that is paid from clearing and from the
  user balance at once (\<open>Gate_Door\<close>).

  \<^bold>\<open>Not modelled.\<close> Texts of errors and messages; HTTP, Postgres, NATS and file access, and with them the other
  doors of the services and the durable ledger and journal stores; spread orders inside the engine, option, combo, bracket
  and linking doors (such fields of an order are ignored), the wrapper of \<^verbatim>\<open>ifm-crash.ts\<close> around a cancel, which drops its reason, snapshots taken by the engine and replay from one; the product services (identity,
  edge, trade, pay, p2p, the rest of bank, token, market, academy, agents, quant, protocol and others), whose logic is
  spread over database transactions and calls to other services; user interfaces, generated clients and tooling.
\<close>

section \<open>Recipes on the ledger\<close>

definition demo_credit :: post_request where
  "demo_credit = projr (deposit demo_user ''USDT'' 500 ''bank'' ''ref-1'' None (Some True))"

definition demo_uncredit :: post_request where
  "demo_uncredit = projr (depositReverse demo_user ''USDT'' 500 ''bank'' ''ref-1'' None (Some True) ''dep-1'')"

lemma demo_calls:
  "deposit demo_user ''USDT'' 500 ''bank'' ''ref-1'' None (Some True) = Inr demo_credit"
  "depositReverse demo_user ''USDT'' 500 ''bank'' ''ref-1'' None (Some True) ''dep-1'' = Inr demo_uncredit"
  by (simp_all add: demo_credit_def demo_uncredit_def deposit_def depositReverse_def guard_defs Let_def js_trim_def js_ws_def)

lemma demo_call_facts:
  "assertValidPost demo_credit = Inr ()" "assertValidPost demo_uncredit = Inr ()"
  "funded demo_book [] (req_entries demo_credit)" "idempotencyKey demo_credit \<noteq> idempotencyKey demo_uncredit"
  "map (\<lambda>e. (canGoNegative (entry_account e), key_net (req_entries demo_credit) (accountKey (entry_account e)),
     key_net (req_entries demo_uncredit) (accountKey (entry_account e)))) (req_entries demo_uncredit) = [(True, -500, 500), (False, 500, -500)]"
  by code_simp+

lemma booked_effect:
  assumes "mem_inv env ml" "getTxByKey ml (idempotencyKey r) = None" "post env ml r = (ml', Inr tx)"
  shows "key_balance ml' k = key_balance ml k + key_net (req_entries r) k"
    and "k' \<noteq> idempotencyKey r \<Longrightarrow> getTxByKey ml' k' = getTxByKey ml k'"
proof -
  have "key_balance ml' k = key_balance ml k + key_net (req_entries r) k
    \<and> (k' \<noteq> idempotencyKey r \<longrightarrow> getTxByKey ml' k' = getTxByKey ml k')"
    using assms(1,3)
  proof (cases rule: post_cases)
    case (booked st t)
    have g: "good_env env" "txs_inv env ml" using assms(1) by (simp_all add: mem_inv_def)
    show ?thesis using commit_key_balance [OF booked(5)] staged_post_getTxByKey(2) [OF g(1) booked(5) g(2)] by simp
  qed (use assms(2) in auto)
  then show "key_balance ml' k = key_balance ml k + key_net (req_entries r) k"
    "k' \<noteq> idempotencyKey r \<Longrightarrow> getTxByKey ml' k' = getTxByKey ml k'" by auto
qed

lemma demo_key_balance: "key_balance demo_book k = 0"
  by (simp add: demo_book_def empty_ledger_def key_balance_def)

lemma demo_unfunded_uncredit:
  assumes "post demo_env demo_book demo_credit = (ml1, Inr t1)"
  shows "funded ml1 [] (req_entries demo_uncredit)"
proof -
  obtain e f where es: "req_entries demo_uncredit = [e, f]" "canGoNegative (entry_account e)"
    "key_net (req_entries demo_credit) (accountKey (entry_account f)) = 500"
    "key_net (req_entries demo_uncredit) (accountKey (entry_account f)) = -500"
    using demo_call_facts(5) by (auto simp: map_eq_Cons_conv)
  then show ?thesis
    using booked_effect(1) [OF demo_book_inv demo_unused assms, of "accountKey (entry_account f)"]
    by (auto simp: funded_def demo_key_balance less_Suc_eq simp del: key_net_simps(2))
qed

lemma demo_saga:
  obtains ml1 t1 ml2 t2 where "post demo_env demo_book demo_credit = (ml1, Inr t1)"
    "post demo_env ml1 demo_uncredit = (ml2, Inr t2)" "getTxByKey ml1 (idempotencyKey demo_uncredit) = None"
proof -
  obtain ml1 t1 where p: "post demo_env demo_book demo_credit = (ml1, Inr t1)"
    using accepts_iff [OF demo_book_inv demo_unused, of demo_credit] demo_call_facts by (metis prod.collapse)
  have inv: "mem_inv demo_env ml1" using post_mem_inv [OF demo_book_inv, of demo_credit] p by simp
  have n: "getTxByKey ml1 (idempotencyKey demo_uncredit) = None"
    using booked_effect(2) [OF demo_book_inv demo_unused p] demo_call_facts(4) demo_unused by metis
  obtain ml2 t2 where "post demo_env ml1 demo_uncredit = (ml2, Inr t2)"
    using accepts_iff [OF inv n] demo_call_facts(2) demo_unfunded_uncredit [OF p] by (metis prod.collapse)
  then show ?thesis using p n that by blast
qed

text \<open>C34. A saga that is taken back leaves no trace in any balance: on every reachable book, when
  the request of a recipe is booked and then the request of its compensating recipe is booked,
  every account is back where it was.\<close>

theorem compensation_restores_balances:
  assumes "good_env env" "undo_call (Inr q) (Inr q')"
    and "getTxByKey (run_posts env (empty_ledger m) rs) (idempotencyKey q) = None"
    and "post env (run_posts env (empty_ledger m) rs) q = (ml1, Inr t1)"
    and "getTxByKey ml1 (idempotencyKey q') = None" "post env ml1 q' = (ml2, Inr t2)"
  shows "bal_amount (balance ml2 ref) = bal_amount (balance (run_posts env (empty_ledger m) rs) ref)"
proof -
  have net: "key_net (req_entries q') k = - key_net (req_entries q) k" for k
    using undo_call_cancels [OF assms(2) refl] by auto
  have "ml_amount (env, ml2) = ml_amount (env, run_posts env (empty_ledger m) rs)"
    by (rule ml.cancelling_posts [where r = q and q = q' and ?s1.0 = "(env, ml1)" and ?t1.0 = t1 and ?t2.0 = t2])
      (use assms reach_inv [OF assms(1)] net in \<open>simp_all add: ml_ok_def ml_post_eq ml_by_key_def\<close>)
  then show ?thesis by (simp add: ml_amount_def fun_eq_iff)
qed

theorem compensation_restores_balances_witness:
  "\<exists>ml1 t1 ml2 t2. post demo_env demo_book demo_credit = (ml1, Inr t1) \<and> post demo_env ml1 demo_uncredit = (ml2, Inr t2)
     \<and> bal_amount (balance ml2 (userAvailable demo_user ''USDT'')) = 0"
proof -
  obtain ml1 t1 ml2 t2 where p: "post demo_env demo_book demo_credit = (ml1, Inr t1)"
    "post demo_env ml1 demo_uncredit = (ml2, Inr t2)" "getTxByKey ml1 (idempotencyKey demo_uncredit) = None"
    by (rule demo_saga)
  have "undo_call (Inr demo_credit) (Inr demo_uncredit)"
    unfolding demo_calls [symmetric] by (rule undo_call.intros) code_simp
  then have "bal_amount (balance ml2 (userAvailable demo_user ''USDT'')) = bal_amount (balance demo_book (userAvailable demo_user ''USDT''))"
    using compensation_restores_balances [OF good_demo_env, of demo_credit demo_uncredit Refuse "[]"] p demo_unused
    unfolding demo_book_def by blast
  then show ?thesis using p demo_amounts(1) by auto
qed

end
